(* ===== verification/Prelude.thy ===== *)
theory Prelude
  imports Main "HOL-Library.AList" "HOL-Library.Sublist"
begin

text \<open>
  Shared ground of the development: the results of code that may throw, the error
  values a browser raises, generic facts on lists and association lists, and the
  theorem collections the component theories extend.

  A call that may throw is a \<open>'a result\<close>: \<open>Inl\<close> carries the exception, \<open>Inr\<close> the
  value. \<open>rbind\<close> is sequencing: the first exception wins.
\<close>

named_theorems js_simps
named_theorems str_simps

section \<open>Results\<close>

datatype js_error =
    TypeErr
  | YamlErr
  | JsonErr
  | CronErr
  | UserErr string

type_synonym 'a result = "js_error + 'a"

fun rbind :: "'a result \<Rightarrow> ('a \<Rightarrow> 'b result) \<Rightarrow> 'b result" where
  "rbind (Inl e) f = Inl e"
| "rbind (Inr a) f = f a"

definition rmap :: "('a \<Rightarrow> 'b) \<Rightarrow> 'a result \<Rightarrow> 'b result" where
  "rmap f r = rbind r (\<lambda>a. Inr (f a))"

lemma rmap_simps [simp]:
  "rmap f (Inl e) = Inl e"
  "rmap f (Inr a) = Inr (f a)"
  by (simp_all add: rmap_def)

lemma rbind_Inr_iff:
  "rbind r f = Inr b \<longleftrightarrow> (\<exists>a. r = Inr a \<and> f a = Inr b)"
  by (cases r) auto

lemma rbind_Inl_iff:
  "rbind r f = Inl e \<longleftrightarrow> r = Inl e \<or> (\<exists>a. r = Inr a \<and> f a = Inl e)"
  by (cases r) auto

lemma rbind_assoc: "rbind (rbind r f) g = rbind r (\<lambda>a. rbind (f a) g)"
  by (cases r) auto

lemma rbind_cong [fundef_cong]:
  assumes "r = r'" and "\<And>a. r' = Inr a \<Longrightarrow> f a = g a"
  shows "rbind r f = rbind r' g"
  using assms by (cases r') auto

text \<open>A loop that stops at the first exception, collecting the values.\<close>

fun mapR :: "('a \<Rightarrow> 'b result) \<Rightarrow> 'a list \<Rightarrow> 'b list result" where
  "mapR f [] = Inr []"
| "mapR f (x # xs) = rbind (f x) (\<lambda>y. rbind (mapR f xs) (\<lambda>ys. Inr (y # ys)))"

lemma mapR_Inr_iff:
  "mapR f xs = Inr ys \<longleftrightarrow> list_all2 (\<lambda>x y. f x = Inr y) xs ys"
  by (induction xs arbitrary: ys) (auto simp: rbind_Inr_iff list_all2_Cons1)

lemma mapR_pure: "(\<And>x. x \<in> set xs \<Longrightarrow> f x = Inr (g x)) \<Longrightarrow> mapR f xs = Inr (map g xs)"
  by (induction xs) auto

lemma mapR_total: "(\<And>x. x \<in> set xs \<Longrightarrow> \<exists>y. f x = Inr y) \<Longrightarrow> \<exists>ys. mapR f xs = Inr ys"
  by (induction xs) fastforce+

lemma mapR_length: "mapR f xs = Inr ys \<Longrightarrow> length ys = length xs"
  by (auto simp: mapR_Inr_iff dest: list_all2_lengthD)

lemma mapR_cong [fundef_cong]:
  assumes "xs = ys" and "\<And>x. x \<in> set ys \<Longrightarrow> f x = g x"
  shows "mapR f xs = mapR g ys"
  using assms(2) unfolding assms(1) by (induction ys) auto

text \<open>A loop over a state that stops at the first exception.\<close>

fun foldR :: "('a \<Rightarrow> 's \<Rightarrow> 's result) \<Rightarrow> 'a list \<Rightarrow> 's \<Rightarrow> 's result" where
  "foldR f [] s = Inr s"
| "foldR f (x # xs) s = rbind (f x s) (foldR f xs)"

lemma foldR_append:
  "foldR f (xs @ ys) s = rbind (foldR f xs s) (foldR f ys)"
proof (induction xs arbitrary: s)
  case (Cons x xs)
  have "foldR f (xs @ ys) = (\<lambda>t. rbind (foldR f xs t) (foldR f ys))"
    by (rule ext) (rule Cons.IH)
  then show ?case by (simp add: rbind_assoc)
qed simp

lemma foldR_pure:
  "(\<And>x s. x \<in> set xs \<Longrightarrow> f x s = Inr (g x s)) \<Longrightarrow> foldR f xs s = Inr (fold g xs s)"
  by (induction xs arbitrary: s) auto

lemma foldR_invariant:
  assumes "foldR f xs s = Inr t" and "I s"
    and "\<And>x s t. x \<in> set xs \<Longrightarrow> I s \<Longrightarrow> f x s = Inr t \<Longrightarrow> I t"
  shows "I t"
  using assms
proof (induction xs arbitrary: s)
  case Nil
  then show ?case by simp
next
  case (Cons x xs)
  from Cons.prems(1) obtain u where u: "f x s = Inr u" and r: "foldR f xs u = Inr t"
    by (auto simp: rbind_Inr_iff)
  have "I u" using Cons.prems(2,3) u by (meson list.set_intros(1))
  from Cons.IH [OF r this] Cons.prems(3) show ?case by (meson list.set_intros(2))
qed

section \<open>Lists\<close>

lemma take_drop_update:
  "i < length xs \<Longrightarrow> take i xs @ y # drop (Suc i) xs = xs[i := y]"
  by (simp add: upd_conv_take_nth_drop)

text \<open>\<open>xs.splice(i, 1)\<close> on an index in range, and \<open>xs.splice(i, 0, y)\<close>.\<close>

definition remove_at :: "nat \<Rightarrow> 'a list \<Rightarrow> 'a list" where
  "remove_at i xs = take i xs @ drop (Suc i) xs"

definition insert_at :: "nat \<Rightarrow> 'a \<Rightarrow> 'a list \<Rightarrow> 'a list" where
  "insert_at i y xs = take i xs @ y # drop i xs"

lemma length_remove_at [simp]:
  "i < length xs \<Longrightarrow> length (remove_at i xs) = length xs - 1"
  by (simp add: remove_at_def)

lemma length_insert_at [simp]: "length (insert_at i y xs) = Suc (length xs)"
  by (simp add: insert_at_def)

lemma remove_at_beyond: "length xs \<le> i \<Longrightarrow> remove_at i xs = xs"
  by (simp add: remove_at_def)

lemma remove_insert_at: "i \<le> length xs \<Longrightarrow> remove_at i (insert_at i y xs) = xs"
  by (simp add: remove_at_def insert_at_def)

lemma insert_remove_at: "i < length xs \<Longrightarrow> insert_at i (xs ! i) (remove_at i xs) = xs"
  by (simp add: remove_at_def insert_at_def id_take_nth_drop [symmetric])

lemma nth_insert_at_same: "i \<le> length xs \<Longrightarrow> insert_at i y xs ! i = y"
  by (simp add: insert_at_def nth_append)

lemma set_insert_at: "set (insert_at i y xs) = insert y (set xs)"
  by (metis (no_types) append_take_drop_id insert_at_def list.simps(15) set_append Un_insert_right)

lemma map_remove_at: "map f (remove_at i xs) = remove_at i (map f xs)"
  by (simp add: remove_at_def take_map drop_map)

lemma map_insert_at: "map f (insert_at i y xs) = insert_at i (f y) (map f xs)"
  by (simp add: insert_at_def take_map drop_map)

section \<open>Association lists with insertion order\<close>

text \<open>
  A JavaScript object keeps its keys in insertion order. \<open>AList.update\<close> replaces the
  value of a present key in place and appends an absent one, which is what an
  assignment \<open>o[k] = v\<close> does; \<open>AList.delete\<close> is \<open>delete o[k]\<close>.
\<close>

lemma al_map_of_update [simp]: "map_of (AList.update k v fs) l = (if k = l then Some v else map_of fs l)"
  by (simp add: update_conv')

lemma al_map_of_delete [simp]: "map_of (AList.delete k fs) l = (if k = l then None else map_of fs l)"
  by (simp add: delete_conv')

lemma al_update_same: "map_of fs k = Some v \<Longrightarrow> AList.update k v fs = fs"
  by (induction fs) auto

lemma al_keys_update: "map fst (AList.update k v fs) =
    (if k \<in> fst ` set fs then map fst fs else map fst fs @ [k])"
  by (induction fs) auto

lemma al_update_update: "AList.update k v (AList.update k u fs) = AList.update k v fs"
  by (induction fs) auto

lemma al_update_absent: "k \<notin> fst ` set fs \<Longrightarrow> AList.update k v fs = fs @ [(k, v)]"
  by (induction fs) auto

lemma map_of_append_None: "map_of fs k = None \<Longrightarrow> map_of (fs @ gs) k = map_of gs k"
  by (simp add: map_add_def)

end
