(* ===== verification/JsValue.thy ===== *)
theory JsValue
  imports Prelude
begin

text \<open>
  The JavaScript values that code typed \<open>any\<close> handles (parsed YAML documents, redux
  payloads, form state), property access with the exceptions it raises, and actions
  that mutate a value in place.

  Objects keep insertion order. \<open>JDate\<close> is a Date by its time value in milliseconds. Numbers are the integers and NaN (no manifest
  operation computes a fraction); a named property of an array is not represented,
  so writing one leaves the array unchanged. Values are trees: no code modelled on
  them relies on two references to one object.
\<close>

section \<open>Values\<close>

datatype js =
    JUndef
  | JNull
  | JBool bool
  | JNum int
  | JNaN
  | JStr string
  | JDate int
  | JArr "js list"
  | JObj "(string \<times> js) list"

abbreviation jobj1 :: "string \<Rightarrow> js \<Rightarrow> js" where
  "jobj1 k v \<equiv> JObj [(k, v)]"

fun truthy :: "js \<Rightarrow> bool" where
  "truthy JUndef = False"
| "truthy JNull = False"
| "truthy (JBool b) = b"
| "truthy (JNum n) = (n \<noteq> 0)"
| "truthy JNaN = False"
| "truthy (JStr s) = (s \<noteq> '''')"
| "truthy (JDate d) = True"
| "truthy (JArr xs) = True"
| "truthy (JObj fs) = True"

fun nullish :: "js \<Rightarrow> bool" where
  "nullish JUndef = True"
| "nullish JNull = True"
| "nullish v = False"

text \<open>\<open>typeof v === 'object'\<close>: also true of \<open>null\<close> and of arrays.\<close>

fun typeof_object :: "js \<Rightarrow> bool" where
  "typeof_object JNull = True"
| "typeof_object (JDate d) = True"
| "typeof_object (JArr xs) = True"
| "typeof_object (JObj fs) = True"
| "typeof_object v = False"

definition orelse_nullish :: "js \<Rightarrow> js \<Rightarrow> js" where
  "orelse_nullish a b = (if nullish a then b else a)"

section \<open>Reading properties\<close>

definition obj_get :: "(string \<times> js) list \<Rightarrow> string \<Rightarrow> js" where
  "obj_get fs k = (case map_of fs k of None \<Rightarrow> JUndef | Some v \<Rightarrow> v)"

fun js_get :: "string \<Rightarrow> js \<Rightarrow> js result" where
  "js_get k JUndef = Inl TypeErr"
| "js_get k JNull = Inl TypeErr"
| "js_get k (JObj fs) = Inr (obj_get fs k)"
| "js_get k (JArr xs) = Inr (if k = ''length'' then JNum (int (length xs)) else JUndef)"
| "js_get k (JStr s) = Inr (if k = ''length'' then JNum (int (length s)) else JUndef)"
| "js_get k v = Inr JUndef"

text \<open>Optional chaining \<open>v?.k\<close>.\<close>

definition js_opt :: "string \<Rightarrow> js \<Rightarrow> js result" where
  "js_opt k v = (if nullish v then Inr JUndef else js_get k v)"

text \<open>An index read \<open>v[i]\<close>: out of range it is undefined; an index of an object is a
  key, and numeric keys of objects are not represented.\<close>

fun js_idx :: "nat \<Rightarrow> js \<Rightarrow> js result" where
  "js_idx i JUndef = Inl TypeErr"
| "js_idx i JNull = Inl TypeErr"
| "js_idx i (JArr xs) = Inr (if i < length xs then xs ! i else JUndef)"
| "js_idx i (JStr s) = Inr (if i < length s then JStr [s ! i] else JUndef)"
| "js_idx i v = Inr JUndef"

text \<open>A chain of property reads \<open>v.k1.k2...\<close>.\<close>

fun js_path :: "string list \<Rightarrow> js \<Rightarrow> js result" where
  "js_path [] v = Inr v"
| "js_path (k # ks) v = rbind (js_get k v) (js_path ks)"

text \<open>\<open>v.forEach\<close> and the other array methods exist on arrays only: calling one on
  anything else is a TypeError.\<close>

fun js_elems :: "js \<Rightarrow> js list result" where
  "js_elems (JArr xs) = Inr xs"
| "js_elems v = Inl TypeErr"

fun js_string :: "js \<Rightarrow> string result" where
  "js_string (JStr s) = Inr s"
| "js_string v = Inl TypeErr"

text \<open>\<open>Object.keys(v)\<close>: of an array the indices, which the code uses only through the
  first one.\<close>

fun js_keys :: "js \<Rightarrow> string list result" where
  "js_keys JUndef = Inl TypeErr"
| "js_keys JNull = Inl TypeErr"
| "js_keys (JObj fs) = Inr (map fst fs)"
| "js_keys (JArr xs) = Inr (if xs = [] then [] else [''0''])"
| "js_keys v = Inr []"

definition js_first_key :: "js \<Rightarrow> string result" where
  "js_first_key v = rbind (js_keys v)
     (\<lambda>ks. case ks of [] \<Rightarrow> Inl TypeErr | k # _ \<Rightarrow> Inr k)"

section \<open>Writing properties\<close>

text \<open>Modules are strict code, so assigning a property of a primitive throws.\<close>

fun js_put :: "string \<Rightarrow> js \<Rightarrow> js \<Rightarrow> js result" where
  "js_put k x (JObj fs) = Inr (JObj (AList.update k x fs))"
| "js_put k x (JArr xs) = Inr (JArr xs)"
| "js_put k x (JDate d) = Inr (JDate d)"
| "js_put k x v = Inl TypeErr"

text \<open>\<open>v[i] = x\<close>: past the end the array grows, with holes read as undefined.\<close>

fun js_set_idx :: "nat \<Rightarrow> js \<Rightarrow> js \<Rightarrow> js result" where
  "js_set_idx i x (JArr xs) = Inr (JArr (
     if i < length xs then xs[i := x] else xs @ replicate (i - length xs) JUndef @ [x]))"
| "js_set_idx i x (JObj fs) = Inr (JObj fs)"
| "js_set_idx i x (JDate d) = Inr (JDate d)"
| "js_set_idx i x v = Inl TypeErr"

text \<open>\<open>delete v.k\<close>.\<close>

fun js_del :: "string \<Rightarrow> js \<Rightarrow> js result" where
  "js_del k (JObj fs) = Inr (JObj (AList.delete k fs))"
| "js_del k JUndef = Inl TypeErr"
| "js_del k JNull = Inl TypeErr"
| "js_del k v = Inr v"

fun js_push :: "js \<Rightarrow> js \<Rightarrow> js result" where
  "js_push x (JArr xs) = Inr (JArr (xs @ [x]))"
| "js_push x v = Inl TypeErr"

text \<open>An object spread \<open>{...v, ...}\<close>: the fields of an object, nothing of a nullish value.\<close>

fun js_spread :: "js \<Rightarrow> (string \<times> js) list" where
  "js_spread (JObj fs) = fs"
| "js_spread v = []"

definition spread_over :: "(string \<times> js) list \<Rightarrow> (string \<times> js) list \<Rightarrow> (string \<times> js) list" where
  "spread_over fs gs = fold (\<lambda>(k, v) acc. AList.update k v acc) gs fs"

lemma obj_get_update [simp]:
  "obj_get (AList.update k v fs) l = (if k = l then v else obj_get fs l)"
  by (simp add: obj_get_def)

lemma obj_get_delete [simp]:
  "obj_get (AList.delete k fs) l = (if k = l then JUndef else obj_get fs l)"
  by (simp add: obj_get_def)

lemma obj_get_Cons [simp]:
  "obj_get ((k, v) # fs) l = (if k = l then v else obj_get fs l)"
  by (simp add: obj_get_def)

lemma obj_get_Nil [simp]: "obj_get [] l = JUndef"
  by (simp add: obj_get_def)

lemma obj_get_append_absent:
  "k \<notin> fst ` set fs \<Longrightarrow> obj_get (fs @ gs) k = obj_get gs k"
  using map_of_append_None [of fs k gs] by (simp add: obj_get_def map_of_eq_None_iff del: map_of_append)

lemma js_get_put:
  "js_put k x v = Inr w \<Longrightarrow> (\<exists>fs. v = JObj fs) \<Longrightarrow> js_get l w = (if k = l then Inr x else js_get l v)"
  by (cases v) auto

lemma js_get_Inl_iff: "js_get k v = Inl e \<longleftrightarrow> nullish v \<and> e = TypeErr"
  by (cases v) auto

lemma js_opt_not_Inl: "js_opt k v \<noteq> Inl e"
  by (auto simp: js_opt_def js_get_Inl_iff)

lemma truthy_not_nullish: "truthy v \<Longrightarrow> \<not> nullish v"
  by (cases v) auto

section \<open>Actions: code that mutates a value and may throw\<close>

text \<open>
  An action on a value returns its result or exception and the value as the code left
  it: a statement that throws keeps the mutations made before it, which a caller that
  catches the exception goes on to use.
\<close>

type_synonym 'a act = "js \<Rightarrow> 'a result \<times> js"

definition act_ret :: "'a \<Rightarrow> 'a act" where
  "act_ret a v = (Inr a, v)"

definition act_throw :: "js_error \<Rightarrow> 'a act" where
  "act_throw e v = (Inl e, v)"

definition act_bind :: "'a act \<Rightarrow> ('a \<Rightarrow> 'b act) \<Rightarrow> 'b act" where
  "act_bind m f v = (case m v of (Inl e, w) \<Rightarrow> (Inl e, w) | (Inr a, w) \<Rightarrow> f a w)"

definition act_seq :: "unit act \<Rightarrow> 'b act \<Rightarrow> 'b act" where
  "act_seq m n = act_bind m (\<lambda>_. n)"

text \<open>Reading the focused value, and an update of it that may throw.\<close>

definition act_read :: "(js \<Rightarrow> 'a result) \<Rightarrow> 'a act" where
  "act_read r v = (r v, v)"

definition act_upd :: "(js \<Rightarrow> js result) \<Rightarrow> unit act" where
  "act_upd f v = (case f v of Inl e \<Rightarrow> (Inl e, v) | Inr w \<Rightarrow> (Inr (), w))"

definition act_when :: "bool \<Rightarrow> unit act \<Rightarrow> unit act" where
  "act_when b m = (if b then m else act_ret ())"

text \<open>\<open>within k m\<close> runs \<open>m\<close> on the object that \<open>v.k\<close> refers to: its mutations show in
  \<open>v\<close>, since \<open>v\<close> holds the same object. An absent property is undefined and nothing can
  be written through it.\<close>

definition within :: "string \<Rightarrow> 'a act \<Rightarrow> 'a act" where
  "within k m v = (case js_get k v of
      Inl e \<Rightarrow> (Inl e, v)
    | Inr x \<Rightarrow> (case m x of (r, x') \<Rightarrow>
        (r, case v of JObj fs \<Rightarrow>
              (if k \<in> fst ` set fs then JObj (AList.update k x' fs) else v) | _ \<Rightarrow> v)))"

definition within_idx :: "nat \<Rightarrow> 'a act \<Rightarrow> 'a act" where
  "within_idx i m v = (case js_idx i v of
      Inl e \<Rightarrow> (Inl e, v)
    | Inr x \<Rightarrow> (case m x of (r, x') \<Rightarrow>
        (r, case v of JArr xs \<Rightarrow> JArr (xs[i := x']) | _ \<Rightarrow> v)))"

fun within_path :: "string list \<Rightarrow> 'a act \<Rightarrow> 'a act" where
  "within_path [] m = m"
| "within_path (k # ks) m = within k (within_path ks m)"

text \<open>\<open>v.forEach(body)\<close>.\<close>

fun each_act :: "unit act \<Rightarrow> js list \<Rightarrow> unit result \<times> js list" where
  "each_act m [] = (Inr (), [])"
| "each_act m (x # xs) = (case m x of
      (Inl e, x') \<Rightarrow> (Inl e, x' # xs)
    | (Inr _, x') \<Rightarrow> (case each_act m xs of (r, xs') \<Rightarrow> (r, x' # xs')))"

definition for_each :: "unit act \<Rightarrow> unit act" where
  "for_each m v = (case v of
      JArr xs \<Rightarrow> (case each_act m xs of (r, xs') \<Rightarrow> (r, JArr xs'))
    | _ \<Rightarrow> (Inl TypeErr, v))"

text \<open>\<open>try { m } catch { return dflt }\<close>: the mutations made before the exception stay.\<close>

definition act_catch :: "'a act \<Rightarrow> 'a \<Rightarrow> 'a act" where
  "act_catch m dflt v = (case m v of (Inl e, w) \<Rightarrow> (Inr dflt, w) | (Inr a, w) \<Rightarrow> (Inr a, w))"

text \<open>\<open>act_get k f\<close> reads \<open>v.k\<close> and goes on with it; \<open>run_act\<close> is the value after an action
  whose exception propagates.\<close>

definition act_get :: "string \<Rightarrow> (js \<Rightarrow> 'a act) \<Rightarrow> 'a act" where
  "act_get k f v = (case js_get k v of Inl e \<Rightarrow> (Inl e, v) | Inr x \<Rightarrow> f x v)"

definition run_act :: "unit act \<Rightarrow> js \<Rightarrow> js result" where
  "run_act m v = (case m v of (Inl e, w) \<Rightarrow> Inl e | (Inr _, w) \<Rightarrow> Inr w)"

lemmas act_defs = act_ret_def act_throw_def act_bind_def act_seq_def act_read_def
  act_upd_def act_when_def

lemma act_ret_apply [simp]: "act_ret a v = (Inr a, v)"
  by (simp add: act_ret_def)

lemma act_when_simps [simp]: "act_when True m = m" "act_when False m = act_ret ()"
  by (simp_all add: act_when_def)

lemma act_seq_ok: "m v = (Inr (), w) \<Longrightarrow> act_seq m n v = n w"
  by (simp add: act_seq_def act_bind_def)

lemma act_bind_ok: "m v = (Inr a, w) \<Longrightarrow> act_bind m f v = f a w"
  by (simp add: act_bind_def)

lemma act_catch_never_throws: "\<exists>a w. act_catch m d v = (Inr a, w)"
  by (auto simp: act_catch_def split: prod.splits sum.splits)

lemma within_obj:
  "map_of fs k = Some x \<Longrightarrow> m x = (r, x') \<Longrightarrow> within k m (JObj fs) = (r, JObj (AList.update k x' fs))"
  by (auto simp: within_def obj_get_def dest: map_of_SomeD split: option.splits)
     (metis fst_conv image_eqI map_of_SomeD)

lemma within_absent:
  "map_of fs k = None \<Longrightarrow> within k m (JObj fs) = (fst (m JUndef), JObj fs)"
  using map_of_eq_None_iff [of fs k] by (cases "m JUndef") (simp add: within_def obj_get_def)

lemma act_get_obj [simp]: "act_get k f (JObj fs) = f (obj_get fs k) (JObj fs)"
  by (simp add: act_get_def)

lemma run_act_ok: "m v = (Inr (), w) \<Longrightarrow> run_act m v = Inr w"
  by (simp add: run_act_def)

lemma run_act_Inr: "run_act m v = Inr w \<longleftrightarrow> m v = (Inr (), w)"
  by (auto simp: run_act_def split: prod.splits sum.splits)

lemma each_act_ok:
  assumes "\<And>x. x \<in> set xs \<Longrightarrow> m x = (Inr (), f x)"
  shows "each_act m xs = (Inr (), map f xs)"
  using assms by (induction xs) auto

lemma length_each_act: "length (snd (each_act m xs)) = length xs"
  by (induction xs) (auto split: prod.splits sum.splits)

lemma each_act_id:
  assumes "\<And>x. x \<in> set xs \<Longrightarrow> snd (m x) = x"
  shows "snd (each_act m xs) = xs"
  using assms
proof (induction xs)
  case (Cons x xs)
  have "snd (m x) = x" using Cons.prems by simp
  moreover have "snd (each_act m xs) = xs" using Cons by simp
  ultimately show ?case by (cases "m x"; cases "each_act m xs") (auto split: sum.splits)
qed simp

lemma each_act_relates:
  assumes "\<And>x r x'. x \<in> set xs \<Longrightarrow> m x = (r, x') \<Longrightarrow> R x x'" and "\<And>x. R x x"
  shows "list_all2 R xs (snd (each_act m xs))"
  using assms
proof (induction xs)
  case (Cons x xs)
  have tail: "list_all2 R xs (snd (each_act m xs))"
    using Cons by auto
  have refl: "list_all2 R xs xs"
    using Cons.prems(2) by (simp add: list_all2_refl)
  show ?case
    using Cons.prems(1)[of x] tail refl
    by (auto split: prod.splits sum.splits)
qed simp

lemma for_each_arr:
  "each_act m xs = (r, ys) \<Longrightarrow> for_each m (JArr xs) = (r, JArr ys)"
  by (simp add: for_each_def)

section \<open>Successful runs and paths\<close>

text \<open>\<open>runs m v w\<close>: the action completes on \<open>v\<close> and leaves \<open>w\<close>. \<open>pth\<close> reads a path,
  undefined where a link is missing; \<open>elems\<close> is the content of an array.\<close>

definition runs :: "unit act \<Rightarrow> js \<Rightarrow> js \<Rightarrow> bool" where
  "runs m v w \<longleftrightarrow> m v = (Inr (), w)"

fun fld :: "string \<Rightarrow> js \<Rightarrow> js" where
  "fld k (JObj fs) = obj_get fs k"
| "fld k v = JUndef"

fun pth :: "string list \<Rightarrow> js \<Rightarrow> js" where
  "pth [] v = v"
| "pth (k # ks) v = pth ks (fld k v)"

fun elems :: "js \<Rightarrow> js list" where
  "elems (JArr xs) = xs"
| "elems v = []"

fun is_obj :: "js \<Rightarrow> bool" where
  "is_obj (JObj fs) = True"
| "is_obj v = False"

fun is_arr :: "js \<Rightarrow> bool" where
  "is_arr (JArr xs) = True"
| "is_arr v = False"

text \<open>\<open>set_prop k x v\<close> is the object \<open>v\<close> with its property \<open>k\<close> set.\<close>

fun set_prop :: "string \<Rightarrow> js \<Rightarrow> js \<Rightarrow> js" where
  "set_prop k x (JObj fs) = JObj (AList.update k x fs)"
| "set_prop k x v = v"

named_theorems runs_intros

lemma is_obj_E: assumes "is_obj v" obtains fs where "v = JObj fs"
  using assms by (cases v) auto

lemma is_arr_E: assumes "is_arr v" obtains xs where "v = JArr xs"
  using assms by (cases v) auto

lemma is_obj_set_prop [simp]: "is_obj (set_prop k x v) = is_obj v"
  by (cases v) auto

lemma fld_set_prop [simp]:
  "is_obj v \<Longrightarrow> fld l (set_prop k x v) = (if k = l then x else fld l v)"
  by (cases v) auto

lemma set_prop_same [simp]: "set_prop k x (set_prop k y v) = set_prop k x v"
  by (cases v) (auto simp: al_update_update)

lemma fld_undef_not_obj: "fld k v \<noteq> JUndef \<Longrightarrow> is_obj v"
  by (cases v) auto

lemma js_get_obj: "is_obj v \<Longrightarrow> js_get k v = Inr (fld k v)"
  by (cases v) auto

lemma js_path_pth:
  "js_path ks v = Inr x \<Longrightarrow> (\<And>k. k \<in> set ks \<Longrightarrow> k \<noteq> ''length'') \<Longrightarrow> x = pth ks v"
proof (induction ks arbitrary: v)
  case (Cons k ks)
  then obtain y where y: "js_get k v = Inr y" "js_path ks y = Inr x" by (auto simp: rbind_Inr_iff)
  have "y = fld k v" using y(1) Cons.prems(2) [of k] by (cases v) auto
  with y Cons show ?case by auto
qed simp

lemma runs_ret [runs_intros]: "runs (act_ret ()) v v"
  by (simp add: runs_def)

lemma runs_seq [runs_intros]: "runs m u v \<Longrightarrow> runs n v w \<Longrightarrow> runs (act_seq m n) u w"
  by (simp add: runs_def act_seq_def act_bind_def)

lemma runs_when [runs_intros]:
  "(b \<Longrightarrow> runs m v w) \<Longrightarrow> (\<not> b \<Longrightarrow> w = v) \<Longrightarrow> runs (act_when b m) v w"
  by (cases b) (simp_all add: runs_def)

lemma runs_get [runs_intros]:
  "is_obj v \<Longrightarrow> runs (f (fld k v)) v w \<Longrightarrow> runs (act_get k f) v w"
  by (cases v) (auto simp: runs_def)

lemma runs_put [runs_intros]: "is_obj v \<Longrightarrow> runs (act_upd (js_put k x)) v (set_prop k x v)"
  by (cases v) (auto simp: runs_def act_upd_def)

lemma runs_upd: "f v = Inr w \<Longrightarrow> runs (act_upd f) v w"
  by (simp add: runs_def act_upd_def)

lemma runs_within [runs_intros]:
  assumes "fld k v \<noteq> JUndef" and "runs m (fld k v) x"
  shows "runs (within k m) v (set_prop k x v)"
proof -
  obtain fs where v: "v = JObj fs" using fld_undef_not_obj [OF assms(1)] by (rule is_obj_E)
  with assms(1) obtain y where y: "map_of fs k = Some y" "fld k v = y"
    by (auto simp: obj_get_def split: option.splits)
  show ?thesis using assms(2) within_obj [OF y(1), of m "Inr ()" x] y(2)
    by (simp add: runs_def v)
qed

lemma runs_for_each [runs_intros]:
  assumes "list_all2 (runs m) xs ys"
  shows "runs (for_each m) (JArr xs) (JArr ys)"
proof -
  have "each_act m xs = (Inr (), ys)"
    using assms by (induction xs ys rule: list_all2_induct) (auto simp: runs_def)
  then show ?thesis by (simp add: runs_def for_each_def)
qed

lemma runs_deterministic: "runs m v w \<Longrightarrow> runs m v w' \<Longrightarrow> w = w'"
  by (simp add: runs_def)

lemma list_all2_runs_choice:
  assumes "\<And>x. x \<in> set xs \<Longrightarrow> \<exists>y. runs m x y \<and> R x y"
  shows "\<exists>ys. list_all2 (runs m) xs ys \<and> list_all2 R xs ys"
  using assms
proof (induction xs)
  case (Cons x xs)
  then obtain ys where "list_all2 (runs m) xs ys \<and> list_all2 R xs ys" by auto
  moreover obtain y where "runs m x y \<and> R x y" using Cons.prems by auto
  ultimately show ?case by (intro exI [of _ "y # ys"]) simp
qed simp

end
