(* ===== verification/JsString.thy ===== *)
theory JsString
  imports JsValue "HOL-Library.Char_ord" "HOL-Library.List_Lexorder"
begin

text \<open>
  The methods of JavaScript strings the program calls. A string is a list of
  characters, one per code unit, all of them ASCII; comparison by \<open><\<close> is
  lexicographic by code, as \<open>List_Lexorder\<close> over \<open>Char_ord\<close> orders lists.
\<close>

section \<open>Searching\<close>

fun find_sub :: "string \<Rightarrow> string \<Rightarrow> nat option" where
  "find_sub p [] = (if p = [] then Some 0 else None)"
| "find_sub p (c # s) = (if prefix p (c # s) then Some 0 else map_option Suc (find_sub p s))"

text \<open>\<open>s.indexOf(p)\<close> and \<open>s.indexOf(p, from)\<close>: -1 when \<open>p\<close> does not occur.\<close>

definition js_index_of :: "string \<Rightarrow> string \<Rightarrow> int" where
  "js_index_of s p = (case find_sub p s of None \<Rightarrow> - 1 | Some i \<Rightarrow> int i)"

definition js_index_from :: "string \<Rightarrow> string \<Rightarrow> int \<Rightarrow> int" where
  "js_index_from s p from =
     (let k = min (nat from) (length s) in
      case find_sub p (drop k s) of None \<Rightarrow> - 1 | Some i \<Rightarrow> int (k + i))"

definition js_includes :: "string \<Rightarrow> string \<Rightarrow> bool" where
  "js_includes s p = (find_sub p s \<noteq> None)"

lemma find_sub_Some:
  "find_sub p s = Some i \<Longrightarrow> i + length p \<le> length s \<and> take (length p) (drop i s) = p"
proof (induction s arbitrary: i)
  case Nil
  then show ?case by (simp split: if_splits)
next
  case (Cons c s)
  show ?case
  proof (cases "prefix p (c # s)")
    case True
    then obtain zs where zs: "c # s = p @ zs" by (auto simp: prefix_def)
    then have "length p \<le> length (c # s)" and "take (length p) (c # s) = p"
      unfolding zs by simp_all
    with True Cons.prems show ?thesis by simp
  next
    case False
    with Cons.prems obtain j where "find_sub p s = Some j" "i = Suc j" by auto
    with Cons.IH show ?thesis by auto
  qed
qed

lemma find_sub_None: "find_sub p s = None \<longleftrightarrow> \<not> sublist p s"
  by (induction s) (auto simp: sublist_Cons_right)

lemma find_sub_least:
  "find_sub p s = Some i \<Longrightarrow> j < i \<Longrightarrow> \<not> prefix p (drop j s)"
proof (induction s arbitrary: i j)
  case Nil
  then show ?case by (simp split: if_splits)
next
  case (Cons c s)
  then obtain i' where i': "find_sub p s = Some i'" "i = Suc i'" "\<not> prefix p (c # s)"
    by (auto split: if_splits)
  show ?case
  proof (cases j)
    case 0
    with i' show ?thesis by simp
  next
    case (Suc j')
    with i' Cons show ?thesis by simp
  qed
qed

lemma js_includes_sublist: "js_includes s p \<longleftrightarrow> sublist p s"
  by (simp add: js_includes_def find_sub_None)

lemma find_sub_singleton_None: "find_sub [c] s = None \<longleftrightarrow> c \<notin> set s"
  by (induction s) auto

lemma find_sub_char_append:
  "c \<notin> set s \<Longrightarrow> find_sub [c] (s @ c # t) = Some (length s)"
  by (induction s) auto

lemma find_sub_drop_shorter:
  "p \<noteq> [] \<Longrightarrow> find_sub p s = Some i \<Longrightarrow> length (drop (i + length p) s) < length s"
  using find_sub_Some [of p s i] by (cases p) auto

section \<open>Slicing\<close>

definition clampn :: "nat \<Rightarrow> int \<Rightarrow> nat" where
  "clampn n i = min n (nat i)"

text \<open>\<open>s.substring(a, b)\<close> clamps both ends to the string and swaps them when they are
  in the wrong order; \<open>s.slice(a, b)\<close> counts negative ends from the back.\<close>

definition js_substring :: "string \<Rightarrow> int \<Rightarrow> int \<Rightarrow> string" where
  "js_substring s a b =
     (let i = clampn (length s) a; j = clampn (length s) b
      in take (max i j - min i j) (drop (min i j) s))"

definition js_substring_from :: "string \<Rightarrow> int \<Rightarrow> string" where
  "js_substring_from s a = js_substring s a (int (length s))"

definition slice_end :: "nat \<Rightarrow> int \<Rightarrow> nat" where
  "slice_end n i = (if i < 0 then nat (int n + i) else min n (nat i))"

definition js_slice :: "string \<Rightarrow> int \<Rightarrow> int \<Rightarrow> string" where
  "js_slice s a b =
     (let i = slice_end (length s) a; j = slice_end (length s) b
      in take (j - i) (drop i s))"

definition js_char_at :: "string \<Rightarrow> int \<Rightarrow> string" where
  "js_char_at s i = (if 0 \<le> i \<and> nat i < length s then [s ! nat i] else [])"

lemma js_substring_take: "js_substring s 0 (int n) = take n s"
  by (simp add: js_substring_def clampn_def min_def Let_def)

lemma js_substring_from_drop: "js_substring_from s (int n) = drop n s"
  by (simp add: js_substring_from_def js_substring_def clampn_def min_def max_def Let_def)

lemma length_js_substring: "length (js_substring s a b) \<le> length s"
  by (simp add: js_substring_def Let_def)

section \<open>Splitting, joining, replacing\<close>

function split_on :: "string \<Rightarrow> string \<Rightarrow> string list" where
  "split_on sep s =
     (if sep = [] then [s] else
      case find_sub sep s of
        None \<Rightarrow> [s]
      | Some i \<Rightarrow> take i s # split_on sep (drop (i + length sep) s))"
  by pat_completeness auto
termination
  by (relation "measure (\<lambda>(sep, s). length s)") (auto dest: find_sub_drop_shorter)

declare split_on.simps [simp del]

definition js_split :: "string \<Rightarrow> string \<Rightarrow> string list" where
  "js_split s sep = (if sep = [] then map (\<lambda>c. [c]) s else split_on sep s)"

fun js_join :: "string \<Rightarrow> string list \<Rightarrow> string" where
  "js_join sep [] = ''''"
| "js_join sep [x] = x"
| "js_join sep (x # xs) = x @ sep @ js_join sep xs"

lemma set_js_join: "set (js_join sep xs) \<subseteq> set sep \<union> (\<Union>x \<in> set xs. set x)"
  by (induction sep xs rule: js_join.induct) auto

text \<open>The replacement text of \<open>replace\<close> and \<open>replaceAll\<close>: \<open>$$\<close> is a dollar, \<open>$&\<close> the
  match, \<open>$`\<close> what precedes it and \<open>$'\<close> what follows it; a string pattern has no
  groups, so \<open>$1\<close> stands for itself.\<close>

fun expand_repl :: "string \<Rightarrow> string \<Rightarrow> string \<Rightarrow> string \<Rightarrow> string" where
  "expand_repl m pre post [] = []"
| "expand_repl m pre post [c] = [c]"
| "expand_repl m pre post (c # d # r) =
     (if c = CHR ''$'' \<and> d = CHR ''$'' then CHR ''$'' # expand_repl m pre post r
      else if c = CHR ''$'' \<and> d = CHR ''&'' then m @ expand_repl m pre post r
      else if c = CHR ''$'' \<and> d = CHR 0x60 then pre @ expand_repl m pre post r
      else if c = CHR ''$'' \<and> d = CHR 0x27 then post @ expand_repl m pre post r
      else c # expand_repl m pre post (d # r))"

definition js_replace :: "string \<Rightarrow> string \<Rightarrow> string \<Rightarrow> string" where
  "js_replace s p r = (case find_sub p s of
      None \<Rightarrow> s
    | Some i \<Rightarrow> take i s @ expand_repl p (take i s) (drop (i + length p) s) r
                 @ drop (i + length p) s)"

text \<open>\<open>s.replaceAll(p, r)\<close> for a non-empty pattern; \<open>pre\<close> is the text before \<open>s\<close>.\<close>

function replace_all_from :: "string \<Rightarrow> string \<Rightarrow> string \<Rightarrow> string \<Rightarrow> string" where
  "replace_all_from p r pre s =
     (if p = [] then s else
      case find_sub p s of
        None \<Rightarrow> s
      | Some i \<Rightarrow> take i s
          @ expand_repl p (pre @ take i s) (drop (i + length p) s) r
          @ replace_all_from p r (pre @ take (i + length p) s) (drop (i + length p) s))"
  by pat_completeness auto
termination
  by (relation "measure (\<lambda>(p, r, pre, s). length s)") (auto dest: find_sub_drop_shorter)

declare replace_all_from.simps [simp del]

definition js_replace_all :: "string \<Rightarrow> string \<Rightarrow> string \<Rightarrow> string" where
  "js_replace_all s p r = replace_all_from p r [] s"

lemma expand_repl_plain: "CHR ''$'' \<notin> set r \<Longrightarrow> expand_repl m pre post r = r"
  by (induction m pre post r rule: expand_repl.induct) auto

lemma split_on_nonempty: "split_on sep s \<noteq> []"
  by (subst split_on.simps) (auto split: option.splits)

lemma split_on_absent: "find_sub sep s = None \<Longrightarrow> split_on sep s = [s]"
  by (subst split_on.simps) simp

lemma split_on_char:
  "c \<notin> set s \<Longrightarrow> split_on [c] (s @ c # t) = s # split_on [c] t"
  by (subst split_on.simps) (simp add: find_sub_char_append)

lemma split_join_char:
  assumes "xs \<noteq> []" and "\<And>x. x \<in> set xs \<Longrightarrow> c \<notin> set x"
  shows "split_on [c] (js_join [c] xs) = xs"
  using assms
proof (induction "[c]" xs rule: js_join.induct)
  case (2 x)
  then show ?case by (simp add: split_on_absent find_sub_singleton_None)
next
  case (3 x y ys)
  then show ?case by (simp add: split_on_char)
qed simp

lemma split_on_join:
  assumes "sep \<noteq> []"
  shows "js_join sep (split_on sep s) = s"
  using assms
proof (induction sep s rule: split_on.induct)
  case (1 sep s)
  show ?case
  proof (cases "find_sub sep s")
    case None
    then show ?thesis by (simp add: split_on_absent)
  next
    case (Some i)
    note f = find_sub_Some [OF Some]
    have ih: "js_join sep (split_on sep (drop (i + length sep) s)) = drop (i + length sep) s"
      using 1 Some by simp
    obtain y ys where ys: "split_on sep (drop (i + length sep) s) = y # ys"
      using split_on_nonempty by (metis neq_Nil_conv)
    have "split_on sep s = take i s # y # ys"
      using 1 Some ys by (subst split_on.simps) simp
    then have "js_join sep (split_on sep s) = take i s @ sep @ drop (i + length sep) s"
      using ih ys by simp
    also have "sep @ drop (i + length sep) s = drop i s"
      using f append_take_drop_id [of "length sep" "drop i s"] by (simp add: add.commute)
    finally show ?thesis by simp
  qed
qed

lemma split_on_char_free:
  "x \<in> set (split_on [c] s) \<Longrightarrow> c \<notin> set x"
proof (induction "[c]" s rule: split_on.induct)
  case (1 s)
  show ?case
  proof (cases "find_sub [c] s")
    case None
    with 1 show ?thesis by (simp add: split_on_absent find_sub_singleton_None)
  next
    case (Some i)
    have "c \<notin> set (take i s)"
    proof
      assume "c \<in> set (take i s)"
      then obtain j where j: "j < i" "j < length s" "s ! j = c"
        by (auto simp: in_set_conv_nth)
      then have "prefix [c] (drop j s)" by (simp add: Cons_nth_drop_Suc [symmetric])
      with find_sub_least [OF Some j(1)] show False by simp
    qed
    moreover have "split_on [c] s = take i s # split_on [c] (drop (Suc i) s)"
      using Some by (subst split_on.simps) simp
    ultimately show ?thesis using 1 Some by auto
  qed
qed

lemma split_on_append_char:
  "split_on [c] (s @ c # t) = split_on [c] s @ split_on [c] t"
proof (induction "[c]" s rule: split_on.induct)
  case (1 s)
  show ?case
  proof (cases "find_sub [c] s")
    case None
    then have "c \<notin> set s" by (simp add: find_sub_singleton_None)
    with None show ?thesis by (simp add: split_on_char split_on_absent)
  next
    case (Some i)
    note f = find_sub_Some [OF Some]
    have pre: "c \<notin> set (take i s)"
    proof
      assume "c \<in> set (take i s)"
      then obtain j where j: "j < i" "j < length s" "s ! j = c"
        by (auto simp: in_set_conv_nth)
      then have "prefix [c] (drop j s)" by (simp add: Cons_nth_drop_Suc [symmetric])
      with find_sub_least [OF Some j(1)] show False by simp
    qed
    have "take 1 (drop i s) = [c]" using f by simp
    then have "drop i s = c # drop (Suc i) s"
      by (metis One_nat_def append_Cons append_Nil append_take_drop_id drop_drop plus_1_eq_Suc)
    then have s: "s = take i s @ c # drop (Suc i) s"
      by (metis append_take_drop_id)
    have "split_on [c] (s @ c # t) = split_on [c] (take i s @ c # (drop (Suc i) s @ c # t))"
      by (subst s) simp
    also have "\<dots> = take i s # split_on [c] (drop (Suc i) s @ c # t)"
      using pre by (rule split_on_char)
    also have "\<dots> = (take i s # split_on [c] (drop (Suc i) s)) @ split_on [c] t"
      using 1 Some by simp
    also have "take i s # split_on [c] (drop (Suc i) s) = split_on [c] s"
      using split_on_char [OF pre, of "drop (Suc i) s"] s by simp
    finally show ?thesis .
  qed
qed

section \<open>Case, blanks and numbers\<close>

definition lower_char :: "char \<Rightarrow> char" where
  "lower_char c = (if CHR ''A'' \<le> c \<and> c \<le> CHR ''Z'' then char_of (of_char c + 32 :: nat) else c)"

definition upper_char :: "char \<Rightarrow> char" where
  "upper_char c = (if CHR ''a'' \<le> c \<and> c \<le> CHR ''z'' then char_of (of_char c - 32 :: nat) else c)"

definition js_lower :: "string \<Rightarrow> string" where
  "js_lower = map lower_char"

definition js_upper :: "string \<Rightarrow> string" where
  "js_upper = map upper_char"

definition js_space :: "char \<Rightarrow> bool" where
  "js_space c = (c = CHR '' '' \<or> c \<in> {CHR 0x09, CHR 0x0A, CHR 0x0B, CHR 0x0C, CHR 0x0D})"

definition js_trim :: "string \<Rightarrow> string" where
  "js_trim s = rev (dropWhile js_space (rev (dropWhile js_space s)))"

text \<open>\<open>s.replace(/\<backslash>s/g, '')\<close>.\<close>

definition strip_spaces :: "string \<Rightarrow> string" where
  "strip_spaces s = filter (\<lambda>c. \<not> js_space c) s"

definition is_digit :: "char \<Rightarrow> bool" where
  "is_digit c = (CHR ''0'' \<le> c \<and> c \<le> CHR ''9'')"

definition is_lower :: "char \<Rightarrow> bool" where
  "is_lower c = (CHR ''a'' \<le> c \<and> c \<le> CHR ''z'')"

definition is_upper :: "char \<Rightarrow> bool" where
  "is_upper c = (CHR ''A'' \<le> c \<and> c \<le> CHR ''Z'')"

definition digit_char :: "nat \<Rightarrow> char" where
  "digit_char d = ''0123456789'' ! d"

fun show_nat :: "nat \<Rightarrow> string" where
  "show_nat n = (if n < 10 then [digit_char n] else show_nat (n div 10) @ [digit_char (n mod 10)])"

declare show_nat.simps [simp del]

definition show_int :: "int \<Rightarrow> string" where
  "show_int i = (if i < 0 then CHR ''-'' # show_nat (nat (- i)) else show_nat (nat i))"

definition digit_value :: "char \<Rightarrow> nat" where
  "digit_value c = of_char c - 48"

fun read_nat :: "nat \<Rightarrow> string \<Rightarrow> nat" where
  "read_nat acc [] = acc"
| "read_nat acc (c # s) = read_nat (10 * acc + digit_value c) s"

text \<open>\<open>parseInt(s, 10)\<close>: leading blanks and a sign are skipped, the longest run of digits
  is read, and no digit at all is NaN (\<open>None\<close>).\<close>

definition parse_int :: "string \<Rightarrow> int option" where
  "parse_int s =
     (let t = dropWhile js_space s;
          neg = (case t of c # _ \<Rightarrow> c = CHR ''-'' | [] \<Rightarrow> False);
          body = (case t of c # u \<Rightarrow> (if c = CHR ''-'' \<or> c = CHR ''+'' then u else t) | [] \<Rightarrow> []);
          ds = takeWhile is_digit body
      in if ds = [] then None
         else Some (if neg then - int (read_nat 0 ds) else int (read_nat 0 ds)))"

lemma js_trim_tight:
  assumes "s \<noteq> []" and "\<not> js_space (hd s)" and "\<not> js_space (last s)"
  shows "js_trim s = s"
proof -
  have "dropWhile js_space s = s" using assms(1,2) by (cases s) auto
  moreover have "dropWhile js_space (rev s) = rev s" using assms(1,3) by (cases s rule: rev_cases) auto
  ultimately show ?thesis by (simp add: js_trim_def)
qed

lemma js_lower_idem [simp]: "js_lower (js_lower s) = js_lower s"
proof -
  have "lower_char (lower_char c) = lower_char c" for c
    by (auto simp: lower_char_def less_eq_char_def)
  then show ?thesis by (simp add: js_lower_def)
qed

lemma digit_char_props:
  assumes "d < 10"
  shows "is_digit (digit_char d)" and "digit_value (digit_char d) = d"
    and "\<not> js_space (digit_char d)" and "digit_char d \<noteq> CHR ''-''" and "digit_char d \<noteq> CHR ''+''"
proof -
  have "d \<in> {0, 1, 2, 3, 4, 5, 6, 7, 8, 9}" using assms by auto
  then show "is_digit (digit_char d)" and "digit_value (digit_char d) = d"
    and "\<not> js_space (digit_char d)" and "digit_char d \<noteq> CHR ''-''" and "digit_char d \<noteq> CHR ''+''"
    by (auto simp: digit_char_def is_digit_def digit_value_def js_space_def less_eq_char_def)
qed

lemma show_nat_digits: "c \<in> set (show_nat n) \<Longrightarrow> \<exists>d < 10. c = digit_char d"
proof (induction n rule: show_nat.induct)
  case (1 n)
  show ?case
  proof (cases "n < 10")
    case True
    with 1 show ?thesis by (subst (asm) show_nat.simps) auto
  next
    case False
    with 1 show ?thesis by (subst (asm) show_nat.simps) (auto intro: exI [of _ "n mod 10"])
  qed
qed

lemma show_nat_nonempty [simp]: "show_nat n \<noteq> []"
  by (subst show_nat.simps) simp

lemma read_nat_append: "read_nat a (s @ t) = read_nat (read_nat a s) t"
  by (induction s arbitrary: a) auto

lemma read_show_nat: "read_nat 0 (show_nat n) = n"
proof (induction n rule: show_nat.induct)
  case (1 n)
  show ?case
  proof (cases "n < 10")
    case True
    then show ?thesis by (subst show_nat.simps) (simp add: digit_char_props)
  next
    case False
    with 1 show ?thesis
      by (subst show_nat.simps) (simp add: read_nat_append digit_char_props)
  qed
qed

lemma show_nat_inj [simp]: "show_nat m = show_nat n \<longleftrightarrow> m = n"
  by (metis read_show_nat)

lemma takeWhile_show_nat: "takeWhile is_digit (show_nat n) = show_nat n"
  by (rule takeWhile_eq_all_conv [THEN iffD2]) (auto dest!: show_nat_digits simp: digit_char_props)

lemma show_nat_head:
  obtains c u where "show_nat n = c # u" and "\<not> js_space c" and "c \<noteq> CHR ''-''" and "c \<noteq> CHR ''+''"
proof -
  obtain c u where cu: "show_nat n = c # u" by (cases "show_nat n") auto
  then have "c \<in> set (show_nat n)" by simp
  then obtain d where "d < 10" "c = digit_char d" using show_nat_digits by blast
  with cu that show thesis by (simp add: digit_char_props)
qed

theorem parse_show_int: "parse_int (show_int i) = Some i"
proof (cases "i < 0")
  case True
  then show ?thesis
    by (simp add: show_int_def parse_int_def Let_def js_space_def takeWhile_show_nat read_show_nat)
next
  case False
  obtain c u where cu: "show_nat (nat i) = c # u" "\<not> js_space c" "c \<noteq> CHR ''-''" "c \<noteq> CHR ''+''"
    by (rule show_nat_head)
  have "takeWhile is_digit (c # u) = c # u" using takeWhile_show_nat [of "nat i"] cu by simp
  moreover have "read_nat 0 (c # u) = nat i" using read_show_nat [of "nat i"] cu by simp
  ultimately show ?thesis using False cu
    by (simp add: show_int_def parse_int_def Let_def)
qed

end
