(* ===== verification/JsObject.thy ===== *)
theory JsObject
  imports JsValue
begin

text \<open>Deleting properties of an object, and which properties it has.\<close>

lemma al_update_swap:
  "k \<in> fst ` set fs \<Longrightarrow> k \<noteq> l \<Longrightarrow> AList.update k x (AList.update l y fs) = AList.update l y (AList.update k x fs)"
  by (induction fs) (auto simp: al_update_absent image_iff)

lemma al_delete_update: "k \<noteq> l \<Longrightarrow> AList.delete k (AList.update l y fs) = AList.update l y (AList.delete k fs)"
  by (induction fs) auto

lemma al_delete_absent: "k \<notin> fst ` set fs \<Longrightarrow> AList.delete k fs = fs"
  by (induction fs) auto

lemma al_delete_update_same: "k \<notin> fst ` set fs \<Longrightarrow> AList.delete k (AList.update k y fs) = fs"
  by (simp add: al_update_absent AList.delete_eq filter_id_conv image_iff) (auto simp: image_iff)

definition has_key :: "string \<Rightarrow> js \<Rightarrow> bool" where
  "has_key k v \<longleftrightarrow> k \<in> fst ` set (js_spread v)"

definition del_prop :: "string \<Rightarrow> js \<Rightarrow> js" where
  "del_prop k v = JObj (AList.delete k (js_spread v))"

lemma set_prop_swap:
  "has_key k v \<Longrightarrow> k \<noteq> l \<Longrightarrow> set_prop k x (set_prop l y v) = set_prop l y (set_prop k x v)"
  by (cases v) (simp_all add: has_key_def al_update_swap [of k _ l])

lemma del_set_prop: "is_obj v \<Longrightarrow> k \<noteq> l \<Longrightarrow> del_prop k (set_prop l y v) = set_prop l y (del_prop k v)"
  by (cases v) (auto simp: del_prop_def al_delete_update)

lemma del_set_same: "is_obj v \<Longrightarrow> \<not> has_key k v \<Longrightarrow> del_prop k (set_prop k y v) = v"
  by (cases v) (auto simp: del_prop_def has_key_def al_delete_update_same)

lemma del_prop_absent: "is_obj v \<Longrightarrow> \<not> has_key k v \<Longrightarrow> del_prop k v = v"
  by (cases v) (auto simp: del_prop_def has_key_def al_delete_absent)

lemma has_key_set_prop [simp]: "is_obj v \<Longrightarrow> has_key k (set_prop l y v) = (k = l \<or> has_key k v)"
  by (cases v) (auto simp: has_key_def al_keys_update simp del: set_map simp flip: set_map)

lemma has_key_del_prop [simp]: "is_obj v \<Longrightarrow> has_key k (del_prop l v) = (k \<noteq> l \<and> has_key k v)"
  by (cases v) (auto simp: has_key_def del_prop_def AList.delete_eq)

lemma is_obj_del_prop [simp]: "is_obj (del_prop k v)"
  by (simp add: del_prop_def)

lemma lacking_undef: "\<not> has_key k v \<Longrightarrow> fld k v = JUndef"
  by (cases v) (auto simp: has_key_def obj_get_def dest: map_of_SomeD split: option.splits intro: rev_image_eqI)

lemma set_prop_id: "fld k v \<noteq> JUndef \<Longrightarrow> set_prop k (fld k v) v = v"
  by (cases v) (auto simp: obj_get_def al_update_same split: option.splits)

lemma runs_del: "is_obj v \<Longrightarrow> runs (act_upd (js_del k)) v (del_prop k v)"
  by (cases v) (auto simp: runs_def act_upd_def del_prop_def)

lemma fld_del_prop [simp]: "is_obj v \<Longrightarrow> fld l (del_prop k v) = (if k = l then JUndef else fld l v)"
  by (cases v) (auto simp: del_prop_def obj_get_def map_of_delete split: option.splits)

end
