(* ===== verification/Manifest.thy ===== *)
theory Manifest
  imports JsString JsObject
begin

text \<open>
  \<open>utils/yamlUtils.ts\<close>: reading and rewriting workflow manifests. A manifest is a
  parsed YAML value; the \<open>yaml\<close> package is not part of the repository, so its parser
  and printer are the two fields of the parameter \<open>Y\<close>. Functions whose \<open>try\<close> keeps
  the partly rewritten document are actions; functions that let an exception escape
  return a \<open>result\<close>.
\<close>

record yaml =
  yaml_read :: "string \<Rightarrow> js result"
  yaml_show :: "js \<Rightarrow> string"

text \<open>
  What the development relies on of the package is \<open>yaml_laws\<close>, its documented round
  trip: plain data (no undefined, no Date, no key twice), once printed, reads back as
  itself.
\<close>

fun yaml_plain :: "js \<Rightarrow> bool" where
  "yaml_plain JUndef = False"
| "yaml_plain (JDate d) = False"
| "yaml_plain (JArr xs) = (\<forall>x \<in> set xs. yaml_plain x)"
| "yaml_plain (JObj fs) = (distinct (map fst fs) \<and> (\<forall>(k, v) \<in> set fs. yaml_plain v))"
| "yaml_plain v = True"

definition yaml_laws :: "yaml \<Rightarrow> bool" where
  "yaml_laws Y \<longleftrightarrow> (\<forall>v. yaml_plain v \<longrightarrow> yaml_read Y (yaml_show Y v) = Inr v)"

lemma yaml_plain_set_prop:
  "yaml_plain v \<Longrightarrow> yaml_plain x \<Longrightarrow> yaml_plain (set_prop k x v)"
proof (induction v)
  case (JObj fs)
  have "set (AList.update k x fs) \<subseteq> insert (k, x) (set fs)"
    by (induction fs) auto
  with JObj show ?case by (auto simp: distinct_update)
qed simp_all

lemma yaml_plain_del_prop: "yaml_plain v \<Longrightarrow> is_obj v \<Longrightarrow> yaml_plain (del_prop k v)"
  by (cases v) (auto simp: del_prop_def AList.delete_eq intro: distinct_map_filter)

lemma yaml_plain_fld: "yaml_plain v \<Longrightarrow> fld k v \<noteq> JUndef \<Longrightarrow> yaml_plain (fld k v)"
  by (cases v) (auto simp: obj_get_def dest!: map_of_SomeD split: option.splits)

text \<open>\<open>YAML.parse(v)\<close> of a value that is no string throws in the parser.\<close>

definition yaml_parse :: "yaml \<Rightarrow> js \<Rightarrow> js result" where
  "yaml_parse Y v = rbind (js_string v) (yaml_read Y)"

definition constants_workflow :: string where
  "constants_workflow = ''Chaos Scenarios''"

definition constants_adminMode :: string where
  "constants_adminMode = ''adminModeNamespace''"

definition constants_litmus :: string where
  "constants_litmus = ''litmuschaos''"

record ImageRegistryInfo =
  image_registry_name :: string
  image_repo_name :: string
  image_registry_type :: string
  secret_name :: string
  secret_namespace :: string
  enable_registry :: bool
  update_registry :: bool
  is_default :: bool

text \<open>A value inside a template literal.\<close>

fun js_show :: "js \<Rightarrow> string" where
  "js_show JUndef = ''undefined''"
| "js_show JNull = ''null''"
| "js_show (JBool b) = (if b then ''true'' else ''false'')"
| "js_show (JNum n) = show_int n"
| "js_show JNaN = ''NaN''"
| "js_show (JStr s) = s"
| "js_show (JDate d) = ''[date]''"
| "js_show (JArr xs) = js_join '','' (map (\<lambda>x. if nullish x then '''' else js_show x) xs)"
| "js_show (JObj fs) = ''[object Object]''"

text \<open>\<open>v.toLowerCase()\<close> and \<open>v.includes(s)\<close> on an \<open>any\<close>.\<close>

definition js_lower_any :: "js \<Rightarrow> string result" where
  "js_lower_any v = rmap js_lower (js_string v)"

fun js_includes_any :: "string \<Rightarrow> js \<Rightarrow> bool result" where
  "js_includes_any p (JStr s) = Inr (js_includes s p)"
| "js_includes_any p (JArr xs) = Inr (JStr p \<in> set xs)"
| "js_includes_any p v = Inl TypeErr"

section \<open>Engine manifests\<close>

text \<open>An unquoted \<open>{{workflow.parameters.x}}\<close> parses as a mapping; the code turns it
  back into the text \<open>{{...}}\<close>, from the mapping's first key without its blanks.\<close>

definition unbrace :: "js \<Rightarrow> js result" where
  "unbrace v = rmap (\<lambda>k. JStr (''{'' @ strip_spaces k @ ''}'')) (js_first_key v)"

definition validateNamespace :: "unit act" where
  "validateNamespace = within ''metadata'' (act_get ''namespace'' (\<lambda>ns.
     if typeof_object ns
     then act_upd (\<lambda>md. rbind (unbrace ns) (\<lambda>s. js_put ''namespace'' s md))
     else act_ret ()))"

definition normalise_appinfo :: "unit act" where
  "normalise_appinfo = act_get ''appns'' (\<lambda>ns.
     if truthy ns \<and> typeof_object ns
     then act_upd (\<lambda>a. rbind (unbrace ns) (\<lambda>s. js_put ''appns'' s a))
     else act_ret ())"

definition normalise_appns :: "unit act" where
  "normalise_appns = within ''spec'' (act_get ''appinfo'' (\<lambda>ai.
     if truthy ai then within ''appinfo'' normalise_appinfo else act_ret ()))"

definition run_id_label :: js where
  "run_id_label = JStr ''{{workflow.uid}}''"

definition name_to_generateName :: "unit act" where
  "name_to_generateName = within ''metadata'' (act_get ''generateName'' (\<lambda>g.
     if g = JUndef
     then act_get ''name'' (\<lambda>n. act_seq (act_upd (js_put ''generateName'' n))
                                       (act_upd (js_del ''name'')))
     else act_ret ()))"

definition engine_name_step :: "unit act" where
  "engine_name_step = act_seq validateNamespace (act_get ''kind'' (\<lambda>k.
     if k = JStr ''ChaosEngine''
     then act_seq name_to_generateName
       (act_seq (within ''metadata'' (act_upd (js_put ''labels''
                   (jobj1 ''workflow_run_id'' run_id_label))))
       (act_seq validateNamespace normalise_appns))
     else act_ret ()))"

text \<open>One artifact: its embedded document is parsed, rewritten and stored back.\<close>

definition rewrite_artifact :: "yaml \<Rightarrow> unit act \<Rightarrow> unit act" where
  "rewrite_artifact Y m = within ''raw'' (act_get ''data'' (\<lambda>d raw.
     (case yaml_parse Y d of
        Inl e \<Rightarrow> (Inl e, raw)
      | Inr doc \<Rightarrow> (case m doc of
          (Inl e, _) \<Rightarrow> (Inl e, raw)
        | (Inr _, doc') \<Rightarrow> act_upd (js_put ''data'' (JStr (yaml_show Y doc'))) raw))))"

definition rewrite_artifacts :: "yaml \<Rightarrow> unit act \<Rightarrow> unit act" where
  "rewrite_artifacts Y m = act_get ''inputs'' (\<lambda>inp.
     if truthy inp
     then within ''inputs'' (act_get ''artifacts'' (\<lambda>as.
       if truthy as then within ''artifacts'' (for_each (rewrite_artifact Y m)) else act_ret ()))
     else act_ret ())"

definition revert_command :: string where
  "revert_command = ''kubectl delete chaosengine -l workflow_run_id={{workflow.uid}} -n {{workflow.parameters.adminModeNamespace}}''"

definition rewrite_revert :: "unit act" where
  "rewrite_revert = act_get ''name'' (\<lambda>n v. (case js_includes_any ''revert-'' n of
       Inl e \<Rightarrow> (Inl e, v)
     | Inr b \<Rightarrow> act_when b (within_path [''container'', ''args'']
                  (act_upd (js_set_idx 0 (JStr revert_command)))) v))"

definition updateEngineName_act :: "yaml \<Rightarrow> unit act" where
  "updateEngineName_act Y = act_get ''spec'' (\<lambda>sp.
     if sp \<noteq> JUndef
     then within_path [''spec'', ''templates'']
            (for_each (act_seq (rewrite_artifacts Y engine_name_step) rewrite_revert))
     else act_ret ())"

definition updateEngineName :: "yaml \<Rightarrow> js \<Rightarrow> string" where
  "updateEngineName Y v = yaml_show Y (snd (updateEngineName_act Y v))"

section \<open>Workflow labels\<close>

text \<open>The path of the workflow spec as \<open>updateWorkflowNameLabel\<close>, \<open>getInstanceID\<close> and
  \<open>validateExperimentNames\<close> choose it: the kind is compared with \<open>constants.workflow\<close>.\<close>

definition label_spec_path :: "js \<Rightarrow> string list" where
  "label_spec_path k = (if k = JStr constants_workflow then [''spec''] else [''spec'', ''workflowSpec''])"

definition name_label_step :: "string \<Rightarrow> unit act" where
  "name_label_step wfn = act_seq validateNamespace (act_get ''kind'' (\<lambda>k.
     if k = JStr ''ChaosEngine''
     then act_seq
       (within ''metadata'' (act_get ''labels'' (\<lambda>l.
          if l \<noteq> JUndef
          then within ''labels'' (act_seq (act_upd (js_put ''workflow_name'' (JStr wfn)))
                                          (act_upd (js_put ''workflow_run_id'' run_id_label)))
          else act_upd (js_put ''labels'' (JObj [(''workflow_name'', JStr wfn),
                                               (''workflow_run_id'', run_id_label)])))))
       (act_seq validateNamespace normalise_appns)
     else act_ret ()))"

definition updateWorkflowNameLabel_act :: "yaml \<Rightarrow> string \<Rightarrow> unit act" where
  "updateWorkflowNameLabel_act Y wfn = act_get ''spec'' (\<lambda>sp.
     if sp \<noteq> JUndef
     then act_get ''kind'' (\<lambda>k. within_path (label_spec_path k @ [''templates''])
            (for_each (rewrite_artifacts Y (name_label_step wfn))))
     else act_ret ())"

definition updateWorkflowNameLabel :: "yaml \<Rightarrow> js \<Rightarrow> string \<Rightarrow> js" where
  "updateWorkflowNameLabel Y v wfn = snd (updateWorkflowNameLabel_act Y wfn v)"

section \<open>What the rewriting establishes\<close>

text \<open>
  \<open>name_value_ok\<close>: a value the code can turn back into text, that is a mapping with a
  first key; \<open>engine_ready\<close>: the shape of an embedded document on which no step throws.
\<close>

definition name_value_ok :: "js \<Rightarrow> bool" where
  "name_value_ok v \<longleftrightarrow> (typeof_object v \<longrightarrow> (\<exists>k x fs. v = JObj ((k, x) # fs)))"

definition is_engine :: "js \<Rightarrow> bool" where
  "is_engine d \<longleftrightarrow> fld ''kind'' d = JStr ''ChaosEngine''"

definition engine_ready :: "js \<Rightarrow> bool" where
  "engine_ready d \<longleftrightarrow> is_obj d \<and> is_obj (fld ''metadata'' d)
     \<and> name_value_ok (pth [''metadata'', ''namespace''] d)
     \<and> (is_engine d \<longrightarrow> is_obj (fld ''spec'' d)
          \<and> (truthy (pth [''spec'', ''appinfo''] d) \<longrightarrow> is_obj (pth [''spec'', ''appinfo''] d)
              \<and> name_value_ok (pth [''spec'', ''appinfo'', ''appns''] d)))"

text \<open>An engine as the workflow controller needs it: namespaces are text and the
  generated name is the engine's name.\<close>

definition text_names :: "js \<Rightarrow> bool" where
  "text_names d \<longleftrightarrow> \<not> typeof_object (pth [''metadata'', ''namespace''] d)
     \<and> (truthy (pth [''spec'', ''appinfo''] d) \<longrightarrow> truthy (pth [''spec'', ''appinfo'', ''appns''] d)
         \<longrightarrow> \<not> typeof_object (pth [''spec'', ''appinfo'', ''appns''] d))"

definition engine_named :: "js \<Rightarrow> js \<Rightarrow> bool" where
  "engine_named d d' \<longleftrightarrow> is_engine d' \<and> text_names d'
     \<and> pth [''metadata'', ''labels''] d' = jobj1 ''workflow_run_id'' run_id_label
     \<and> pth [''metadata'', ''generateName''] d' =
         (if pth [''metadata'', ''generateName''] d = JUndef then pth [''metadata'', ''name''] d
          else pth [''metadata'', ''generateName''] d)
     \<and> (pth [''metadata'', ''generateName''] d = JUndef \<longrightarrow> pth [''metadata'', ''name''] d' = JUndef)
     \<and> pth [''spec'', ''experiments''] d' = pth [''spec'', ''experiments''] d"

lemma unbrace_ok:
  assumes "name_value_ok v" and "typeof_object v"
  obtains s where "unbrace v = Inr (JStr s)"
  using assms by (auto simp: name_value_ok_def unbrace_def js_first_key_def)

lemma runs_upd_unbrace:
  "unbrace ns = Inr s \<Longrightarrow> is_obj v \<Longrightarrow>
   runs (act_upd (\<lambda>md. rbind (unbrace ns) (\<lambda>s. js_put k s md))) v (set_prop k s v)"
  by (cases v) (auto simp: runs_def act_upd_def)

lemma is_obj_not_undef: "is_obj v \<Longrightarrow> v \<noteq> JUndef"
  by (cases v) auto

lemma runs_validateNamespace:
  assumes "is_obj d" and "is_obj (fld ''metadata'' d)" and "name_value_ok (pth [''metadata'', ''namespace''] d)"
  obtains md where "runs validateNamespace d (set_prop ''metadata'' md d)" and "is_obj md"
    and "\<not> typeof_object (fld ''namespace'' md)"
    and "\<And>k. k \<noteq> ''namespace'' \<Longrightarrow> fld k md = pth [''metadata'', k] d"
proof (cases "typeof_object (pth [''metadata'', ''namespace''] d)")
  case True
  then obtain s where s: "unbrace (pth [''metadata'', ''namespace''] d) = Inr (JStr s)"
    using assms(3) unbrace_ok by blast
  have "runs validateNamespace d (set_prop ''metadata'' (set_prop ''namespace'' (JStr s) (fld ''metadata'' d)) d)"
    unfolding validateNamespace_def
    using True assms s by (intro runs_within runs_get) (auto simp: is_obj_not_undef intro: runs_upd_unbrace runs_put)
  then show thesis by (rule that) (use assms in auto)
next
  case False
  have "runs validateNamespace d (set_prop ''metadata'' (fld ''metadata'' d) d)"
    unfolding validateNamespace_def
    using False assms by (intro runs_within runs_get) (auto simp: is_obj_not_undef intro: runs_ret)
  then show thesis by (rule that) (use assms False in auto)
qed

lemma runs_normalise_appinfo:
  assumes ai: "is_obj ai" and ok: "name_value_ok (fld ''appns'' ai)"
  obtains ai' where "runs normalise_appinfo ai ai'" and "is_obj ai'"
    and "truthy (fld ''appns'' ai') \<Longrightarrow> \<not> typeof_object (fld ''appns'' ai')"
proof (cases "truthy (fld ''appns'' ai) \<and> typeof_object (fld ''appns'' ai)")
  case True
  then obtain s where s: "unbrace (fld ''appns'' ai) = Inr (JStr s)" using ok unbrace_ok by blast
  have "runs normalise_appinfo ai (set_prop ''appns'' (JStr s) ai)"
    unfolding normalise_appinfo_def
    by (rule runs_get [OF ai]) (simp add: True runs_upd_unbrace [OF s ai] s runs_put [OF ai])
  then show thesis by (rule that) (simp_all add: ai)
next
  case False
  have "runs normalise_appinfo ai ai"
    unfolding normalise_appinfo_def
    by (rule runs_get [OF ai]) (use False in \<open>auto simp: runs_ret\<close>)
  then show thesis by (rule that) (use ai False in auto)
qed

lemma runs_normalise_appns:
  assumes d: "is_obj d" and sp: "is_obj (fld ''spec'' d)"
    and ai: "truthy (pth [''spec'', ''appinfo''] d) \<Longrightarrow> is_obj (pth [''spec'', ''appinfo''] d)
       \<and> name_value_ok (pth [''spec'', ''appinfo'', ''appns''] d)"
  obtains sp' where "runs normalise_appns d (set_prop ''spec'' sp' d)" and "is_obj sp'"
    and "truthy (fld ''appinfo'' sp') \<Longrightarrow> truthy (pth [''appinfo'', ''appns''] sp')
       \<Longrightarrow> \<not> typeof_object (pth [''appinfo'', ''appns''] sp')"
    and "\<And>k. k \<noteq> ''appinfo'' \<Longrightarrow> fld k sp' = pth [''spec'', k] d"
proof (cases "truthy (pth [''spec'', ''appinfo''] d)")
  case False
  have "runs normalise_appns d (set_prop ''spec'' (fld ''spec'' d) d)"
    unfolding normalise_appns_def
    by (intro runs_within runs_get) (use sp False in \<open>simp_all add: is_obj_not_undef runs_ret\<close>)
  then show thesis by (rule that) (use d sp False in auto)
next
  case True
  obtain ai' where ai': "runs normalise_appinfo (pth [''spec'', ''appinfo''] d) ai'" "is_obj ai'"
    "truthy (fld ''appns'' ai') \<Longrightarrow> \<not> typeof_object (fld ''appns'' ai')"
    using runs_normalise_appinfo [of "pth [''spec'', ''appinfo''] d"] ai [OF True] by auto
  have "runs (within ''appinfo'' normalise_appinfo) (fld ''spec'' d)
          (set_prop ''appinfo'' ai' (fld ''spec'' d))"
    by (rule runs_within) (use ai [OF True] ai' in \<open>auto simp: is_obj_not_undef\<close>)
  then have "runs normalise_appns d (set_prop ''spec'' (set_prop ''appinfo'' ai' (fld ''spec'' d)) d)"
    unfolding normalise_appns_def
    by (intro runs_within runs_get) (use sp True in \<open>simp_all add: is_obj_not_undef\<close>)
  then show thesis by (rule that) (use sp ai' in auto)
qed

text \<open>The two rewritings share their last part: normalise the names after the labels.\<close>

lemma runs_name_to_generateName:
  assumes d: "is_obj d" and md: "is_obj (fld ''metadata'' d)"
  obtains md' where "runs name_to_generateName d (set_prop ''metadata'' md' d)" and "is_obj md'"
    and "fld ''generateName'' md' = (if pth [''metadata'', ''generateName''] d = JUndef
           then pth [''metadata'', ''name''] d else pth [''metadata'', ''generateName''] d)"
    and "pth [''metadata'', ''generateName''] d = JUndef \<Longrightarrow> fld ''name'' md' = JUndef"
    and "\<And>k. k \<notin> {''generateName'', ''name''} \<Longrightarrow> fld k md' = pth [''metadata'', k] d"
proof (cases "pth [''metadata'', ''generateName''] d = JUndef")
  case False
  have "runs name_to_generateName d (set_prop ''metadata'' (fld ''metadata'' d) d)"
    unfolding name_to_generateName_def
    by (intro runs_within runs_get) (use md False in \<open>simp_all add: is_obj_not_undef runs_ret\<close>)
  then show thesis by (rule that) (use md False in auto)
next
  case True
  obtain fs where fs: "fld ''metadata'' d = JObj fs" using md by (rule is_obj_E)
  let ?n = "obj_get fs ''name''"
  let ?fs = "AList.delete ''name'' (AList.update ''generateName'' ?n fs)"
  have "runs (act_seq (act_upd (js_put ''generateName'' ?n)) (act_upd (js_del ''name''))) (JObj fs) (JObj ?fs)"
    by (rule runs_seq, rule runs_put) (auto simp: runs_def act_upd_def)
  then have "runs name_to_generateName d (set_prop ''metadata'' (JObj ?fs) d)"
    unfolding name_to_generateName_def
    by (intro runs_within runs_get) (use md True fs in \<open>simp_all add: runs_def\<close>)
  then show thesis by (rule that) (use True fs in auto)
qed

text \<open>A document that is no engine only has its namespace turned back into text.\<close>

definition namespace_text :: "js \<Rightarrow> js \<Rightarrow> bool" where
  "namespace_text d d' \<longleftrightarrow> \<not> typeof_object (pth [''metadata'', ''namespace''] d')
     \<and> (\<forall>k. k \<noteq> ''metadata'' \<longrightarrow> fld k d' = fld k d)
     \<and> (\<forall>k. k \<noteq> ''namespace'' \<longrightarrow> pth [''metadata'', k] d' = pth [''metadata'', k] d)"

text \<open>After \<open>validateNamespace\<close> the code looks at the kind; the engine branch then ends
  with a second \<open>validateNamespace\<close> and the normalisation of \<open>appns\<close>.\<close>

lemma runs_kind_dispatch:
  assumes ready: "engine_ready d"
    and engine: "\<And>md. is_engine d \<Longrightarrow> is_obj md \<Longrightarrow> \<not> typeof_object (fld ''namespace'' md)
       \<Longrightarrow> (\<And>k. k \<noteq> ''namespace'' \<Longrightarrow> fld k md = pth [''metadata'', k] d)
       \<Longrightarrow> \<exists>d'. runs m (set_prop ''metadata'' md d) d' \<and> Q d'"
    and other: "\<And>d'. \<not> is_engine d \<Longrightarrow> namespace_text d d' \<Longrightarrow> Q d'"
  shows "\<exists>d'. runs (act_seq validateNamespace (act_get ''kind'' (\<lambda>k.
           if k = JStr ''ChaosEngine'' then m else act_ret ()))) d d' \<and> Q d'"
proof -
  from ready have d: "is_obj d" "is_obj (fld ''metadata'' d)"
    and ns: "name_value_ok (pth [''metadata'', ''namespace''] d)" by (auto simp: engine_ready_def)
  obtain md where md: "runs validateNamespace d (set_prop ''metadata'' md d)" "is_obj md"
    "\<not> typeof_object (fld ''namespace'' md)"
    "\<And>k. k \<noteq> ''namespace'' \<Longrightarrow> fld k md = pth [''metadata'', k] d"
    using runs_validateNamespace [OF d ns] by blast
  let ?d = "set_prop ''metadata'' md d"
  show ?thesis
  proof (cases "is_engine d")
    case True
    then obtain d' where d': "runs m ?d d'" "Q d'" using engine md by blast
    have "runs (act_get ''kind'' (\<lambda>k. if k = JStr ''ChaosEngine'' then m else act_ret ())) ?d d'"
      by (rule runs_get) (use d d' True in \<open>simp_all add: is_engine_def\<close>)
    then show ?thesis using md(1) d'(2) runs_seq by blast
  next
    case False
    have "runs (act_get ''kind'' (\<lambda>k. if k = JStr ''ChaosEngine'' then m else act_ret ())) ?d ?d"
      by (rule runs_get) (use d False in \<open>simp_all add: is_engine_def runs_ret\<close>)
    moreover have "namespace_text d ?d" using d md by (simp add: namespace_text_def)
    ultimately show ?thesis using md(1) other [OF False] runs_seq by blast
  qed
qed

lemma runs_engine_tail:
  assumes d: "is_obj d" and md: "is_obj md" "\<not> typeof_object (fld ''namespace'' md)"
    and ready: "engine_ready d" "is_engine d"
  shows "\<exists>d'. runs (act_seq validateNamespace normalise_appns) (set_prop ''metadata'' md d) d'
     \<and> is_engine d' \<and> text_names d'
     \<and> (\<forall>k. k \<noteq> ''namespace'' \<longrightarrow> pth [''metadata'', k] d' = fld k md)
     \<and> (\<forall>k. k \<noteq> ''appinfo'' \<longrightarrow> pth [''spec'', k] d' = pth [''spec'', k] d)"
proof -
  let ?d = "set_prop ''metadata'' md d"
  obtain md' where md': "runs validateNamespace ?d (set_prop ''metadata'' md' ?d)" "is_obj md'"
    "\<not> typeof_object (fld ''namespace'' md')"
    "\<And>k. k \<noteq> ''namespace'' \<Longrightarrow> fld k md' = pth [''metadata'', k] ?d"
    by (rule runs_validateNamespace [of ?d]) (use d md in \<open>auto simp: name_value_ok_def\<close>)
  let ?e = "set_prop ''metadata'' md' d"
  have e: "is_obj ?e" "is_obj (fld ''spec'' ?e)" using d ready by (auto simp: engine_ready_def)
  have ai: "is_obj (pth [''spec'', ''appinfo''] ?e) \<and> name_value_ok (pth [''spec'', ''appinfo'', ''appns''] ?e)"
    if "truthy (pth [''spec'', ''appinfo''] ?e)" using that d ready by (simp add: engine_ready_def)
  obtain sp where sp: "runs normalise_appns ?e (set_prop ''spec'' sp ?e)" "is_obj sp"
    "truthy (fld ''appinfo'' sp) \<Longrightarrow> truthy (pth [''appinfo'', ''appns''] sp)
       \<Longrightarrow> \<not> typeof_object (pth [''appinfo'', ''appns''] sp)"
    "\<And>k. k \<noteq> ''appinfo'' \<Longrightarrow> fld k sp = pth [''spec'', k] ?e"
    using runs_normalise_appns [OF e ai] by blast
  have "runs (act_seq validateNamespace normalise_appns) ?d (set_prop ''spec'' sp ?e)"
    using md'(1) sp(1) by (intro runs_seq) simp_all
  then show ?thesis using d md' sp ready(2)
    by (intro exI [of _ "set_prop ''spec'' sp ?e"]) (auto simp: is_engine_def text_names_def)
qed

lemma engine_name_step_ok:
  assumes ready: "engine_ready d"
  shows "\<exists>d'. runs engine_name_step d d' \<and> (if is_engine d then engine_named d d' else namespace_text d d')"
  unfolding engine_name_step_def
proof (rule runs_kind_dispatch [OF ready])
  fix md
  assume eng: "is_engine d" and md: "is_obj md" "\<not> typeof_object (fld ''namespace'' md)"
    and same: "\<And>k. k \<noteq> ''namespace'' \<Longrightarrow> fld k md = pth [''metadata'', k] d"
  have d: "is_obj d" using ready by (simp add: engine_ready_def)
  let ?d = "set_prop ''metadata'' md d"
  obtain md1 where md1: "runs name_to_generateName ?d (set_prop ''metadata'' md1 ?d)" "is_obj md1"
    "fld ''generateName'' md1 = (if pth [''metadata'', ''generateName''] ?d = JUndef
       then pth [''metadata'', ''name''] ?d else pth [''metadata'', ''generateName''] ?d)"
    "pth [''metadata'', ''generateName''] ?d = JUndef \<Longrightarrow> fld ''name'' md1 = JUndef"
    "\<And>k. k \<notin> {''generateName'', ''name''} \<Longrightarrow> fld k md1 = pth [''metadata'', k] ?d"
    by (rule runs_name_to_generateName [of ?d]) (use d md in auto)
  let ?L = "jobj1 ''workflow_run_id'' run_id_label"
  let ?md2 = "set_prop ''labels'' ?L md1"
  have lab: "runs (within ''metadata'' (act_upd (js_put ''labels'' ?L))) (set_prop ''metadata'' md1 d)
               (set_prop ''metadata'' ?md2 d)"
    using runs_within [of "''metadata''" "set_prop ''metadata'' md1 d" _ ?md2] runs_put d md1(2)
    by (simp add: is_obj_not_undef)
  have ns2: "\<not> typeof_object (fld ''namespace'' ?md2)" using md1(2) md1(5) [of "''namespace''"] md(2) d by simp
  obtain d' where d': "runs (act_seq validateNamespace normalise_appns) (set_prop ''metadata'' ?md2 d) d'"
    "is_engine d'" "text_names d'" "\<forall>k. k \<noteq> ''namespace'' \<longrightarrow> pth [''metadata'', k] d' = fld k ?md2"
    "\<forall>k. k \<noteq> ''appinfo'' \<longrightarrow> pth [''spec'', k] d' = pth [''spec'', k] d"
    using runs_engine_tail [OF d _ ns2 ready eng] md1(2) by auto
  have named: "engine_named d d'"
    using d' md1 md d same [of "''generateName''"] same [of "''name''"]
    by (auto simp: engine_named_def)
  show "\<exists>d'. runs (act_seq name_to_generateName (act_seq (within ''metadata'' (act_upd (js_put ''labels'' ?L)))
            (act_seq validateNamespace normalise_appns))) ?d d'
      \<and> (if is_engine d then engine_named d d' else namespace_text d d')"
  proof (intro exI conjI)
    show "runs (act_seq name_to_generateName (act_seq (within ''metadata'' (act_upd (js_put ''labels'' ?L)))
            (act_seq validateNamespace normalise_appns))) ?d d'"
    proof (rule runs_seq [OF _ runs_seq [OF lab d'(1)]])
      show "runs name_to_generateName ?d (set_prop ''metadata'' md1 d)" using md1(1) by simp
    qed
    show "if is_engine d then engine_named d d' else namespace_text d d'" using eng named by simp
  qed
qed simp

subsection \<open>The label step\<close>

definition labels_ready :: "js \<Rightarrow> bool" where
  "labels_ready d \<longleftrightarrow> engine_ready d \<and> (is_engine d \<longrightarrow>
     pth [''metadata'', ''labels''] d = JUndef \<or> is_obj (pth [''metadata'', ''labels''] d))"

definition engine_labelled :: "string \<Rightarrow> js \<Rightarrow> js \<Rightarrow> bool" where
  "engine_labelled wfn d d' \<longleftrightarrow> is_engine d' \<and> text_names d'
     \<and> pth [''metadata'', ''labels'', ''workflow_name''] d' = JStr wfn
     \<and> pth [''metadata'', ''labels'', ''workflow_run_id''] d' = run_id_label
     \<and> (\<forall>k. k \<notin> {''workflow_name'', ''workflow_run_id''} \<longrightarrow>
          pth [''metadata'', ''labels'', k] d' = pth [''metadata'', ''labels'', k] d)
     \<and> pth [''metadata'', ''generateName''] d' = pth [''metadata'', ''generateName''] d
     \<and> pth [''spec'', ''experiments''] d' = pth [''spec'', ''experiments''] d"

definition put_labels :: "string \<Rightarrow> unit act" where
  "put_labels wfn = act_get ''labels'' (\<lambda>l.
     if l \<noteq> JUndef
     then within ''labels'' (act_seq (act_upd (js_put ''workflow_name'' (JStr wfn)))
                                     (act_upd (js_put ''workflow_run_id'' run_id_label)))
     else act_upd (js_put ''labels'' (JObj [(''workflow_name'', JStr wfn),
                                          (''workflow_run_id'', run_id_label)])))"

lemma runs_put_labels:
  assumes md: "is_obj md" and l: "fld ''labels'' md = JUndef \<or> is_obj (fld ''labels'' md)"
  obtains L where "runs (put_labels wfn) md (set_prop ''labels'' L md)"
    and "fld ''workflow_name'' L = JStr wfn" and "fld ''workflow_run_id'' L = run_id_label"
    and "\<And>k. k \<notin> {''workflow_name'', ''workflow_run_id''} \<Longrightarrow> fld k L = pth [''labels'', k] md"
proof (cases "fld ''labels'' md = JUndef")
  case True
  have "runs (put_labels wfn) md (set_prop ''labels'' (JObj [(''workflow_name'', JStr wfn),
          (''workflow_run_id'', run_id_label)]) md)"
    unfolding put_labels_def by (rule runs_get [OF md]) (simp add: True runs_put md)
  then show thesis by (rule that) (auto simp: True)
next
  case False
  with l have l: "is_obj (fld ''labels'' md)" by simp
  let ?L = "set_prop ''workflow_run_id'' run_id_label (set_prop ''workflow_name'' (JStr wfn) (fld ''labels'' md))"
  have "runs (put_labels wfn) md (set_prop ''labels'' ?L md)"
    unfolding put_labels_def
    by (rule runs_get [OF md])
       (use False l in \<open>auto intro!: runs_within runs_seq [OF runs_put runs_put]\<close>)
  then show thesis by (rule that) (use l in auto)
qed

lemma name_label_step_ok:
  assumes ready: "labels_ready d"
  shows "\<exists>d'. runs (name_label_step wfn) d d'
     \<and> (if is_engine d then engine_labelled wfn d d' else namespace_text d d')"
  unfolding name_label_step_def put_labels_def [symmetric]
proof (rule runs_kind_dispatch)
  show er: "engine_ready d" using ready by (simp add: labels_ready_def)
  fix md
  assume eng: "is_engine d" and md: "is_obj md" "\<not> typeof_object (fld ''namespace'' md)"
    and same: "\<And>k. k \<noteq> ''namespace'' \<Longrightarrow> fld k md = pth [''metadata'', k] d"
  have d: "is_obj d" using er by (simp add: engine_ready_def)
  have l: "fld ''labels'' md = JUndef \<or> is_obj (fld ''labels'' md)"
    using ready eng same [of "''labels''"] by (auto simp: labels_ready_def)
  obtain L where L: "runs (put_labels wfn) md (set_prop ''labels'' L md)"
    "fld ''workflow_name'' L = JStr wfn" "fld ''workflow_run_id'' L = run_id_label"
    "\<And>k. k \<notin> {''workflow_name'', ''workflow_run_id''} \<Longrightarrow> fld k L = pth [''labels'', k] md"
    using runs_put_labels [OF md(1) l] by blast
  let ?md2 = "set_prop ''labels'' L md"
  have lab: "runs (within ''metadata'' (put_labels wfn)) (set_prop ''metadata'' md d) (set_prop ''metadata'' ?md2 d)"
    using runs_within [of "''metadata''" "set_prop ''metadata'' md d" _ ?md2] L(1) d md
    by (simp add: is_obj_not_undef)
  obtain d' where d': "runs (act_seq validateNamespace normalise_appns) (set_prop ''metadata'' ?md2 d) d'"
    "is_engine d'" "text_names d'" "\<forall>k. k \<noteq> ''namespace'' \<longrightarrow> pth [''metadata'', k] d' = fld k ?md2"
    "\<forall>k. k \<noteq> ''appinfo'' \<longrightarrow> pth [''spec'', k] d' = pth [''spec'', k] d"
    using runs_engine_tail [OF d _ _ er eng, of ?md2] md by auto
  have "engine_labelled wfn d d'"
    using d' L md same [of "''generateName''"] same [of "''labels''"]
    by (auto simp: engine_labelled_def)
  then show "\<exists>d'. runs (act_seq (within ''metadata'' (put_labels wfn)) (act_seq validateNamespace normalise_appns))
        (set_prop ''metadata'' md d) d' \<and> (if is_engine d then engine_labelled wfn d d' else namespace_text d d')"
    using runs_seq [OF lab d'(1)] eng by auto
qed simp

subsection \<open>Artifacts and templates\<close>

definition artifact_ready :: "yaml \<Rightarrow> (js \<Rightarrow> bool) \<Rightarrow> js \<Rightarrow> bool" where
  "artifact_ready Y P a = (case pth [''raw'', ''data''] a of
       JStr s \<Rightarrow> (case yaml_read Y s of Inl e \<Rightarrow> False | Inr d \<Rightarrow> P d) | _ \<Rightarrow> False)"

lemma artifact_ready_iff:
  "artifact_ready Y P a \<longleftrightarrow> (\<exists>s d. pth [''raw'', ''data''] a = JStr s \<and> yaml_read Y s = Inr d \<and> P d)"
  by (auto simp: artifact_ready_def split: js.splits sum.splits)

definition artifact_rewritten :: "yaml \<Rightarrow> (js \<Rightarrow> js \<Rightarrow> bool) \<Rightarrow> js \<Rightarrow> js \<Rightarrow> bool" where
  "artifact_rewritten Y R a a' \<longleftrightarrow> (\<exists>s d d'. pth [''raw'', ''data''] a = JStr s \<and> yaml_read Y s = Inr d
     \<and> R d d' \<and> pth [''raw'', ''data''] a' = JStr (yaml_show Y d')
     \<and> (\<forall>k. k \<noteq> ''raw'' \<longrightarrow> fld k a' = fld k a))"

lemma runs_rewrite_artifact:
  assumes "artifact_ready Y P a" and step: "\<And>d. P d \<Longrightarrow> \<exists>d'. runs m d d' \<and> R d d'"
  shows "\<exists>a'. runs (rewrite_artifact Y m) a a' \<and> artifact_rewritten Y R a a'"
proof -
  obtain s d where s: "pth [''raw'', ''data''] a = JStr s" "yaml_read Y s = Inr d" "P d"
    using assms(1) by (auto simp: artifact_ready_iff)
  obtain d' where d': "runs m d d'" "R d d'" using step s(3) by blast
  have raw: "is_obj (fld ''raw'' a)" and a: "is_obj a"
    using s(1) fld_undef_not_obj [of "''data''"] fld_undef_not_obj [of "''raw''" a]
    by (auto simp: is_obj_not_undef)
  let ?raw = "set_prop ''data'' (JStr (yaml_show Y d')) (fld ''raw'' a)"
  have "runs (rewrite_artifact Y m) a (set_prop ''raw'' ?raw a)"
    unfolding rewrite_artifact_def
    by (intro runs_within runs_get)
       (use raw s d' runs_put [OF raw] in \<open>auto simp: is_obj_not_undef yaml_parse_def runs_def\<close>)
  then show ?thesis
    using s d' a raw by (intro exI [of _ "set_prop ''raw'' ?raw a"]) (auto simp: artifact_rewritten_def)
qed

definition template_artifacts :: "js \<Rightarrow> js list" where
  "template_artifacts t = elems (pth [''inputs'', ''artifacts''] t)"

definition template_ready :: "yaml \<Rightarrow> (js \<Rightarrow> bool) \<Rightarrow> js \<Rightarrow> bool" where
  "template_ready Y P t \<longleftrightarrow> is_obj t
     \<and> (truthy (fld ''inputs'' t) \<longrightarrow> is_obj (fld ''inputs'' t)
         \<and> (truthy (pth [''inputs'', ''artifacts''] t) \<longrightarrow> is_arr (pth [''inputs'', ''artifacts''] t)))
     \<and> (\<forall>a \<in> set (template_artifacts t). artifact_ready Y P a)"

lemma runs_rewrite_artifacts:
  assumes t: "template_ready Y P t" and step: "\<And>d. P d \<Longrightarrow> \<exists>d'. runs m d d' \<and> R d d'"
  obtains t' where "runs (rewrite_artifacts Y m) t t'" and "is_obj t'"
    and "list_all2 (artifact_rewritten Y R) (template_artifacts t) (template_artifacts t')"
    and "\<And>k. k \<noteq> ''inputs'' \<Longrightarrow> fld k t' = fld k t"
proof (cases "truthy (fld ''inputs'' t) \<and> truthy (pth [''inputs'', ''artifacts''] t)")
  case True
  then obtain as where as: "pth [''inputs'', ''artifacts''] t = JArr as"
    using t by (auto simp: template_ready_def elim: is_arr_E)
  have obj: "is_obj t" "is_obj (fld ''inputs'' t)" using t True by (auto simp: template_ready_def)
  have "\<exists>a'. runs (rewrite_artifact Y m) a a' \<and> artifact_rewritten Y R a a'" if "a \<in> set as" for a
    using runs_rewrite_artifact [OF _ step, of Y P a] t as that
    by (auto simp: template_ready_def template_artifacts_def)
  then obtain as' where as': "list_all2 (runs (rewrite_artifact Y m)) as as'"
    "list_all2 (artifact_rewritten Y R) as as'" using list_all2_runs_choice by blast
  let ?t = "set_prop ''inputs'' (set_prop ''artifacts'' (JArr as') (fld ''inputs'' t)) t"
  have "runs (rewrite_artifacts Y m) t ?t"
    unfolding rewrite_artifacts_def
    using obj as True runs_for_each [OF as'(1)]
    by (intro runs_get) (auto intro!: runs_within runs_get simp: is_obj_not_undef)
  then show thesis
    by (rule that) (use obj as as' in \<open>auto simp: template_artifacts_def\<close>)
next
  case False
  have obj: "is_obj t" "truthy (fld ''inputs'' t) \<Longrightarrow> is_obj (fld ''inputs'' t)"
    using t by (auto simp: template_ready_def)
  have none: "template_artifacts t = []"
    using False by (cases "fld ''inputs'' t"; cases "pth [''inputs'', ''artifacts''] t")
      (auto simp: template_artifacts_def)
  let ?t = "if truthy (fld ''inputs'' t) then set_prop ''inputs'' (fld ''inputs'' t) t else t"
  have "runs (rewrite_artifacts Y m) t ?t"
    unfolding rewrite_artifacts_def
    using obj False by (intro runs_get) (auto intro!: runs_within runs_get runs_ret simp: is_obj_not_undef)
  then show thesis
    by (rule that) (use obj none in \<open>auto simp: template_artifacts_def\<close>)
qed

text \<open>The template whose name contains \<open>revert-\<close> needs a container with an argument
  array; its first argument becomes the delete command.\<close>

definition revert_ready :: "js \<Rightarrow> bool" where
  "revert_ready t = (case fld ''name'' t of
      JStr n \<Rightarrow> (js_includes n ''revert-'' \<longrightarrow> is_arr (pth [''container'', ''args''] t))
    | _ \<Rightarrow> False)"

definition renamed_doc :: "js \<Rightarrow> js \<Rightarrow> bool" where
  "renamed_doc d d' \<longleftrightarrow> (if is_engine d then engine_named d d' else namespace_text d d')"

definition template_renamed :: "yaml \<Rightarrow> js \<Rightarrow> js \<Rightarrow> bool" where
  "template_renamed Y t t' \<longleftrightarrow>
     list_all2 (artifact_rewritten Y renamed_doc)
       (template_artifacts t) (template_artifacts t')
     \<and> (\<forall>n. fld ''name'' t = JStr n \<longrightarrow> js_includes n ''revert-'' \<longrightarrow>
          js_idx 0 (pth [''container'', ''args''] t') = Inr (JStr revert_command))
     \<and> (\<forall>k. k \<notin> {''inputs'', ''container''} \<longrightarrow> fld k t' = fld k t)"

lemma js_set_idx_0: "js_set_idx 0 x (JArr xs) = Inr (JArr (x # tl xs))"
  by (cases xs) auto

lemma runs_rewrite_revert:
  assumes t: "is_obj t" and rr: "revert_ready t"
  obtains t' where "runs rewrite_revert t t'" and "\<And>k. k \<noteq> ''container'' \<Longrightarrow> fld k t' = fld k t"
    and "\<And>n. fld ''name'' t = JStr n \<Longrightarrow> js_includes n ''revert-'' \<Longrightarrow>
          js_idx 0 (pth [''container'', ''args''] t') = Inr (JStr revert_command)"
proof -
  obtain n where n: "fld ''name'' t = JStr n"
    using rr by (auto simp: revert_ready_def split: js.splits)
  show thesis
  proof (cases "js_includes n ''revert-''")
    case False
    have "runs rewrite_revert t t"
      unfolding rewrite_revert_def
      by (rule runs_get [OF t]) (use n False in \<open>simp add: runs_def\<close>)
    then show thesis by (rule that) (use n False in auto)
  next
    case True
    then obtain xs where xs: "pth [''container'', ''args''] t = JArr xs"
      using rr n by (auto simp: revert_ready_def elim: is_arr_E)
    then have c: "is_obj (fld ''container'' t)" "fld ''args'' (fld ''container'' t) \<noteq> JUndef"
      using fld_undef_not_obj [of "''args''" "fld ''container'' t"] by auto
    let ?args = "JArr (JStr revert_command # tl xs)"
    let ?t = "set_prop ''container'' (set_prop ''args'' ?args (fld ''container'' t)) t"
    have "runs (within_path [''container'', ''args''] (act_upd (js_set_idx 0 (JStr revert_command)))) t ?t"
      using c xs by (auto intro!: runs_within runs_upd simp: js_set_idx_0 is_obj_not_undef simp del: js_set_idx.simps)
    then have "runs rewrite_revert t ?t"
      unfolding rewrite_revert_def
      by (intro runs_get [OF t]) (use n True in \<open>simp add: runs_def\<close>)
    then show thesis by (rule that) (use t c in auto)
  qed
qed


definition labelled_doc :: "string \<Rightarrow> js \<Rightarrow> js \<Rightarrow> bool" where
  "labelled_doc wfn d d' \<longleftrightarrow> (if is_engine d then engine_labelled wfn d d' else namespace_text d d')"

definition template_labelled :: "yaml \<Rightarrow> string \<Rightarrow> js \<Rightarrow> js \<Rightarrow> bool" where
  "template_labelled Y wfn t t' \<longleftrightarrow>
     list_all2 (artifact_rewritten Y (labelled_doc wfn))
       (template_artifacts t) (template_artifacts t')
     \<and> (\<forall>k. k \<noteq> ''inputs'' \<longrightarrow> fld k t' = fld k t)"

theorem updateWorkflowNameLabel_labels_cron_engines:
  assumes v: "is_obj v" and kind: "fld ''kind'' v \<noteq> JStr constants_workflow"
    and ts: "pth [''spec'', ''workflowSpec'', ''templates''] v = JArr ts"
    and ready: "\<And>t. t \<in> set ts \<Longrightarrow> template_ready Y labels_ready t"
  shows "\<exists>ts'. list_all2 (template_labelled Y wfn) ts ts'
     \<and> updateWorkflowNameLabel Y v wfn =
         set_prop ''spec'' (set_prop ''workflowSpec''
           (set_prop ''templates'' (JArr ts') (pth [''spec'', ''workflowSpec''] v)) (fld ''spec'' v)) v"
proof -
  let ?body = "rewrite_artifacts Y (name_label_step wfn)"
  have step: "\<exists>t'. runs ?body t t' \<and> template_labelled Y wfn t t'" if t: "t \<in> set ts" for t
    by (rule runs_rewrite_artifacts [OF ready [OF t] name_label_step_ok [folded labelled_doc_def, where wfn = wfn]])
       (auto simp: template_labelled_def)
  then obtain ts' where ts': "list_all2 (runs ?body) ts ts'" "list_all2 (template_labelled Y wfn) ts ts'"
    using list_all2_runs_choice [of ts ?body "template_labelled Y wfn"] by blast
  have sp: "is_obj (fld ''workflowSpec'' (fld ''spec'' v))" "is_obj (fld ''spec'' v)"
    using ts fld_undef_not_obj [of "''templates''"] fld_undef_not_obj [of "''workflowSpec''" "fld ''spec'' v"]
    by (auto simp: is_obj_not_undef)
  let ?v = "set_prop ''spec'' (set_prop ''workflowSpec''
           (set_prop ''templates'' (JArr ts') (pth [''spec'', ''workflowSpec''] v)) (fld ''spec'' v)) v"
  have "runs (updateWorkflowNameLabel_act Y wfn) v ?v"
    unfolding updateWorkflowNameLabel_act_def
    by (intro runs_get [OF v])
       (use v sp ts kind runs_for_each [OF ts'(1)] in
         \<open>auto intro!: runs_within runs_get simp: is_obj_not_undef label_spec_path_def\<close>)
  then show ?thesis using ts'(2) by (auto simp: updateWorkflowNameLabel_def runs_def)
qed

end
