(* ===== verification/ManifestQuery.thy ===== *)
theory ManifestQuery
  imports Manifest
begin

text \<open>
  The read-only half of \<open>utils/yamlUtils.ts\<close>: instance ids, experiment and engine
  names, the embedded document of a step, the reliability weights, and the check that
  no two steps share a name.
\<close>

section \<open>Instance ids\<close>

definition artifacts_of :: "js \<Rightarrow> js list result" where
  "artifacts_of template = rbind (js_get ''inputs'' template) (\<lambda>inp.
     if truthy inp
     then rbind (js_get ''artifacts'' inp) (\<lambda>as. if truthy as then js_elems as else Inr [])
     else Inr [])"

definition instance_of_artifact :: "yaml \<Rightarrow> js \<Rightarrow> string \<Rightarrow> string result" where
  "instance_of_artifact Y artifact acc =
     rbind (rbind (js_path [''raw'', ''data''] artifact) (yaml_parse Y)) (\<lambda>ce.
     rbind (js_get ''kind'' ce) (\<lambda>k.
     if k = JStr ''ChaosEngine''
     then rbind (js_path [''metadata'', ''labels''] ce) (\<lambda>l.
       if l \<noteq> JUndef
       then rbind (js_get ''instance_id'' l) (\<lambda>i. Inr (acc @ js_show i @ '', ''))
       else Inr acc)
     else Inr acc))"

definition getInstanceID :: "yaml \<Rightarrow> js \<Rightarrow> string" where
  "getInstanceID Y v = (case rbind (js_get ''spec'' v) (\<lambda>sp.
       if sp = JUndef then Inr ''''
       else rbind (js_get ''kind'' v) (\<lambda>k.
         rbind (js_path (label_spec_path k @ [''templates'']) v) (\<lambda>ts.
         rbind (js_elems ts) (\<lambda>templates.
         foldR (\<lambda>t acc. rbind (artifacts_of t) (\<lambda>as. foldR (instance_of_artifact Y) as acc))
           templates '''')))) of
     Inl e \<Rightarrow> '''' | Inr s \<Rightarrow> s)"

section \<open>Experiment names\<close>

text \<open>\<open>nameextractor\<close>: the initial empty name goes once there is a real one.\<close>

definition nameextractor :: "yaml \<Rightarrow> js \<Rightarrow> js list result" where
  "nameextractor Y val =
     rbind (yaml_parse Y val) (\<lambda>doc.
     rbind (js_path [''spec'', ''experiments''] doc) (\<lambda>l.
     rbind (js_elems l) (\<lambda>els.
     rbind (mapR (js_get ''name'') els) (\<lambda>ns.
       Inr (let names = JStr '''' # ns in if length names \<ge> 2 then tl names else names)))))"

text \<open>The number of iterations of \<open>for (i = 0; i < v.length - 1; i++)\<close>.\<close>

definition loop_bound :: "js \<Rightarrow> nat result" where
  "loop_bound v = rmap (\<lambda>l. case l of JNum n \<Rightarrow> nat (n - 1) | _ \<Rightarrow> 0) (js_get ''length'' v)"

definition templates_path :: "js \<Rightarrow> string list" where
  "templates_path k = (if k = JStr ''CronWorkflow'' then [''spec'', ''workflowSpec'', ''templates'']
                       else [''spec'', ''templates''])"

definition first_artifact_data :: "js \<Rightarrow> js result" where
  "first_artifact_data t = rbind (js_path [''inputs'', ''artifacts''] t) (\<lambda>as.
     rbind (js_idx 0 as) (js_path [''raw'', ''data'']))"

definition parsed_step :: "yaml \<Rightarrow> js \<Rightarrow> nat \<Rightarrow> js list \<Rightarrow> js list result" where
  "parsed_step Y ts i acc = rbind (js_idx (1 + i) ts) (\<lambda>t.
     if js_includes (yaml_show Y t) ''kind: ChaosEngine''
     then rbind (first_artifact_data t) (\<lambda>d. rbind (nameextractor Y d) (\<lambda>ns. Inr (acc @ ns)))
     else Inr acc)"

definition parsed_names :: "yaml \<Rightarrow> js \<Rightarrow> js list result" where
  "parsed_names Y doc =
     rbind (js_get ''kind'' doc) (\<lambda>k.
     rbind (js_path (templates_path k) doc) (\<lambda>ts.
     rbind (loop_bound ts) (\<lambda>n. foldR (parsed_step Y ts) [0..<n] [])))"

definition parsed :: "yaml \<Rightarrow> string \<Rightarrow> js list" where
  "parsed Y file =
     (if file = ''error'' then [JStr ''none'']
      else case rbind (yaml_read Y file) (parsed_names Y) of Inl e \<Rightarrow> [] | Inr ns \<Rightarrow> ns)"

text \<open>\<open>stepEmbeddedYAMLExtractor\<close>: the loop breaks at the first template with the name.\<close>

fun step_search :: "js \<Rightarrow> string \<Rightarrow> nat list \<Rightarrow> js result" where
  "step_search ts stepName [] = Inr (JStr '''')"
| "step_search ts stepName (i # is) =
     rbind (js_idx (1 + i) ts) (\<lambda>t. rbind (js_get ''name'' t) (\<lambda>n.
       if n = JStr stepName then first_artifact_data t else step_search ts stepName is))"

definition stepEmbeddedYAMLExtractor :: "yaml \<Rightarrow> string \<Rightarrow> string \<Rightarrow> js" where
  "stepEmbeddedYAMLExtractor Y manifest stepName =
     (case rbind (yaml_read Y manifest) (\<lambda>doc.
             rbind (js_get ''kind'' doc) (\<lambda>k.
             rbind (js_path (templates_path k) doc) (\<lambda>ts.
             rbind (loop_bound ts) (\<lambda>n. step_search ts stepName [0..<n])))) of
        Inl e \<Rightarrow> JStr '''' | Inr d \<Rightarrow> d)"

section \<open>Engine names and weights\<close>

text \<open>A chain \<open>v?.a?.b?.forEach\<close>: a nullish link skips the loop.\<close>

definition opt_elems :: "js \<Rightarrow> js list result" where
  "opt_elems v = (if nullish v then Inr [] else js_elems v)"

definition engine_of_artifact :: "yaml \<Rightarrow> js \<Rightarrow> js list \<Rightarrow> js list result" where
  "engine_of_artifact Y artifact acc =
     rbind (rbind (js_opt ''raw'' artifact) (js_opt ''data'')) (\<lambda>d.
     if truthy d
     then rbind (yaml_parse Y d) (\<lambda>m. rbind (js_get ''kind'' m) (\<lambda>k.
       if k = JStr ''ChaosEngine''
       then rbind (js_path [''metadata'', ''generateName''] m) (\<lambda>g. Inr (acc @ [g]))
       else Inr acc))
     else Inr acc)"

definition engines_of_template :: "yaml \<Rightarrow> js \<Rightarrow> js list \<Rightarrow> js list result" where
  "engines_of_template Y template acc =
     rbind (rbind (js_opt ''inputs'' template) (js_opt ''artifacts'')) (\<lambda>v.
     rbind (opt_elems v) (\<lambda>as. foldR (engine_of_artifact Y) as acc))"

definition workflow_spec :: "js \<Rightarrow> js \<Rightarrow> js result" where
  "workflow_spec m sp = rbind (js_get ''kind'' m) (\<lambda>k. rbind (js_lower_any k) (\<lambda>kl.
     if kl = ''workflow'' then Inr sp else js_get ''workflowSpec'' sp))"

definition extractEngineNames :: "yaml \<Rightarrow> string \<Rightarrow> js list result" where
  "extractEngineNames Y manifest =
     rbind (yaml_read Y manifest) (\<lambda>m. rbind (js_get ''spec'' m) (\<lambda>sp.
     if sp = JUndef then Inr []
     else rbind (workflow_spec m sp) (\<lambda>d. rbind (js_opt ''templates'' d) (\<lambda>v.
          rbind (opt_elems v) (\<lambda>ts. foldR (engines_of_template Y) ts [])))))"

record experimentMap =
  experimentName :: js
  weight :: int

text \<open>\<open>addWeights\<close> stores the list in the browser's database; the map it consults is
  created empty on each call.\<close>

definition weight_of :: "(js \<rightharpoonup> int) \<Rightarrow> js \<Rightarrow> experimentMap" where
  "weight_of hashMap test = \<lparr>experimentName = test,
     weight = (case hashMap test of Some w \<Rightarrow> w | None \<Rightarrow> 10)\<rparr>"

definition addWeights :: "yaml \<Rightarrow> string \<Rightarrow> experimentMap list result" where
  "addWeights Y manifest = rmap (\<lambda>tests.
     if tests \<noteq> [] then map (weight_of Map.empty) tests
     else [\<lparr>experimentName = JStr '''', weight = 0\<rparr>]) (extractEngineNames Y manifest)"

definition fetchWorkflowNameFromManifest :: "yaml \<Rightarrow> string \<Rightarrow> js result" where
  "fetchWorkflowNameFromManifest Y manifest = rbind (yaml_read Y manifest) (js_path [''metadata'', ''name''])"

section \<open>Duplicate step names\<close>

text \<open>
  \<open>validateExperimentNames\<close> counts names as properties of an array. A name the array
  inherits (\<open>map\<close>, \<open>constructor\<close>, ...) is truthy at once, so its count becomes the text
  of a function with a 1 appended, which no comparison with 1 counts; \<open>length\<close> is never
  listed. These names are \<open>array_names\<close>.
\<close>

definition array_names :: "string list" where
  "array_names = [''length'', ''constructor'', ''at'', ''concat'', ''copyWithin'', ''entries'', ''every'',
     ''fill'', ''filter'', ''find'', ''findIndex'', ''findLast'', ''findLastIndex'', ''flat'', ''flatMap'',
     ''forEach'', ''includes'', ''indexOf'', ''join'', ''keys'', ''lastIndexOf'', ''map'', ''pop'', ''push'',
     ''reduce'', ''reduceRight'', ''reverse'', ''shift'', ''slice'', ''some'', ''sort'', ''splice'',
     ''toLocaleString'', ''toString'', ''unshift'', ''values'', ''hasOwnProperty'', ''isPrototypeOf'',
     ''propertyIsEnumerable'', ''valueOf'', ''__proto__'', ''__defineGetter__'', ''__defineSetter__'',
     ''__lookupGetter__'', ''__lookupSetter__'']"

definition count_name :: "js \<Rightarrow> (string \<times> nat) list \<Rightarrow> (string \<times> nat) list result" where
  "count_name values counts = rbind (js_get ''name'' values) (\<lambda>n. let key = js_show n in
     Inr (if key \<in> set array_names then counts
          else case map_of counts key of
            Some c \<Rightarrow> AList.update key (c + 1) counts
          | None \<Rightarrow> AList.update key 1 counts))"

definition count_steps :: "js \<Rightarrow> (string \<times> nat) list \<Rightarrow> (string \<times> nat) list result" where
  "count_steps step counts = rbind (js_elems step) (\<lambda>vs. foldR count_name vs counts)"

text \<open>\<open>yamlData?.templates[0]?.steps?.forEach\<close>.\<close>

definition first_template_steps :: "js \<Rightarrow> js list result" where
  "first_template_steps d = (if nullish d then Inr []
     else rbind (js_get ''templates'' d) (\<lambda>ts. rbind (js_idx 0 ts) (\<lambda>t0.
       rbind (js_opt ''steps'' t0) opt_elems)))"

definition validateExperimentNames :: "js \<Rightarrow> bool result" where
  "validateExperimentNames m = rbind (js_get ''spec'' m) (\<lambda>sp.
     rbind (if sp \<noteq> JUndef
            then rbind (js_get ''kind'' m) (\<lambda>k.
                 rbind (js_path (label_spec_path k) m) (\<lambda>d.
                 rbind (first_template_steps d) (\<lambda>steps. foldR count_steps steps [])))
            else Inr [])
     (\<lambda>counts. Inr (filter (\<lambda>(k, c). c > 1) counts = [])))"

section \<open>Manifests of kind Workflow\<close>

lemma within_JUndef:
  assumes "is_obj v" and "fld k v = JUndef" and "m JUndef = (Inl e, JUndef)"
  shows "within k m v = (Inl e, v)"
proof -
  obtain fs where v: "v = JObj fs" using assms(1) by (rule is_obj_E)
  show ?thesis
  proof (cases "map_of fs k")
    case None
    then show ?thesis using assms(3) by (simp add: v within_absent)
  next
    case (Some x)
    with assms(2) have "x = JUndef" by (simp add: v obj_get_def)
    then show ?thesis using within_obj [OF Some, of m] assms(3) Some by (simp add: v al_update_same)
  qed
qed

lemma within_error_same:
  assumes "is_obj v" and "fld k v \<noteq> JUndef" and "m (fld k v) = (Inl e, fld k v)"
  shows "within k m v = (Inl e, v)"
proof -
  obtain fs where v: "v = JObj fs" using assms(1) by (rule is_obj_E)
  with assms(2) have s: "map_of fs k = Some (fld k v)" by (auto simp: obj_get_def split: option.splits)
  have "AList.update k (fld k v) fs = fs" by (rule al_update_same [OF s])
  with within_obj [of fs k "fld k v" m "Inl e" "fld k v"] s assms(3) show ?thesis by (simp only: v)
qed

text \<open>
  The kind is compared with \<open>constants.workflow\<close>, the display text \<open>Chaos Scenarios\<close>,
  and no manifest has that kind: one of kind \<open>Workflow\<close> is looked up at
  \<open>spec.workflowSpec\<close>, which it has not.
\<close>

theorem workflow_kind_is_skipped:
  assumes v: "is_obj v" and kind: "fld ''kind'' v = JStr ''Workflow''"
    and sp: "is_obj (fld ''spec'' v)" and none: "pth [''spec'', ''workflowSpec''] v = JUndef"
  shows "updateWorkflowNameLabel Y v wfn = v \<and> getInstanceID Y v = ''''
    \<and> validateExperimentNames v = Inr True"
proof -
  obtain fs where fs: "v = JObj fs" using v by (rule is_obj_E)
  obtain sps where sps: "fld ''spec'' v = JObj sps" using sp by (rule is_obj_E)
  have path: "label_spec_path (obj_get fs ''kind'') = [''spec'', ''workflowSpec'']"
    using kind by (simp add: label_spec_path_def constants_workflow_def fs)
  have get: "obj_get fs ''spec'' = JObj sps" "obj_get sps ''workflowSpec'' = JUndef"
    using sps none by (simp_all add: fs)
  let ?body = "for_each (rewrite_artifacts Y (name_label_step wfn))"
  have "within ''templates'' ?body JUndef = (Inl TypeErr, JUndef)" by (simp add: within_def)
  then have "within ''workflowSpec'' (within ''templates'' ?body) (JObj sps) = (Inl TypeErr, JObj sps)"
    by (intro within_JUndef [where m = "within ''templates'' ?body"]) (simp_all add: get)
  then have "within ''spec'' (within ''workflowSpec'' (within ''templates'' ?body)) v = (Inl TypeErr, v)"
    by (intro within_error_same [where m = "within ''workflowSpec'' (within ''templates'' ?body)"])
       (simp_all add: v sps)
  then have "updateWorkflowNameLabel Y v wfn = v"
    by (simp add: updateWorkflowNameLabel_def updateWorkflowNameLabel_act_def fs get path)
  moreover have "getInstanceID Y v = ''''"
    by (simp add: getInstanceID_def fs get path)
  moreover have "validateExperimentNames v = Inr True"
    by (simp add: validateExperimentNames_def fs get path first_template_steps_def)
  ultimately show ?thesis by simp
qed

section \<open>Duplicate names are found in a CronWorkflow\<close>

definition row_names :: "js \<Rightarrow> string list" where
  "row_names row = map (\<lambda>s. js_show (fld ''name'' s)) (elems row)"

definition step_names :: "js list \<Rightarrow> string list" where
  "step_names rows = concat (map row_names rows)"

definition rows_ok :: "js list \<Rightarrow> bool" where
  "rows_ok rows \<longleftrightarrow> (\<forall>row \<in> set rows. is_arr row \<and> (\<forall>s \<in> set (elems row). is_obj s))"

text \<open>The counting on plain names, and what the counts are.\<close>

definition count_key :: "string \<Rightarrow> (string \<times> nat) list \<Rightarrow> (string \<times> nat) list" where
  "count_key key counts = (if key \<in> set array_names then counts
     else case map_of counts key of
       Some c \<Rightarrow> AList.update key (c + 1) counts
     | None \<Rightarrow> AList.update key 1 counts)"

definition countable :: "string list \<Rightarrow> string list" where
  "countable ns = filter (\<lambda>n. n \<notin> set array_names) ns"

definition counts_of :: "string list \<Rightarrow> (string \<times> nat) list \<Rightarrow> bool" where
  "counts_of ns counts \<longleftrightarrow> distinct (map fst counts)
     \<and> (\<forall>k. map_of counts k = (if count_list (countable ns) k = 0 then None
                                else Some (count_list (countable ns) k)))"

lemma counts_of_Nil: "counts_of [] []"
  by (simp add: counts_of_def countable_def)

lemma counts_of_step: "counts_of ns counts \<Longrightarrow> counts_of (ns @ [n]) (count_key n counts)"
  by (auto simp: counts_of_def count_key_def countable_def distinct_update split: option.splits if_splits)

lemma counts_of_fold: "counts_of ns counts \<Longrightarrow> counts_of (ns @ ms) (fold count_key ms counts)"
proof (induction ms arbitrary: ns counts)
  case (Cons m ms)
  from Cons.IH [OF counts_of_step [OF Cons.prems, of m]] show ?case by simp
qed simp

lemma count_list_distinct: "distinct xs \<longleftrightarrow> (\<forall>k. count_list xs k \<le> 1)"
proof (induction xs)
  case (Cons x xs)
  have "x \<notin> set xs \<longleftrightarrow> count_list xs x = 0" by (simp add: count_list_0_iff)
  moreover have "(\<forall>k. count_list (x # xs) k \<le> 1) \<longleftrightarrow> count_list xs x = 0 \<and> (\<forall>k. count_list xs k \<le> 1)"
  proof
    assume l: "\<forall>k. count_list (x # xs) k \<le> 1"
    have "count_list xs k \<le> 1" for k
      using l [rule_format, of k] by (cases "k = x") auto
    moreover have "count_list xs x = 0" using l [rule_format, of x] by simp
    ultimately show "count_list xs x = 0 \<and> (\<forall>k. count_list xs k \<le> 1)" by blast
  next
    assume r: "count_list xs x = 0 \<and> (\<forall>k. count_list xs k \<le> 1)"
    show "\<forall>k. count_list (x # xs) k \<le> 1"
    proof
      fix k show "count_list (x # xs) k \<le> 1" using r by (cases "k = x") simp_all
    qed
  qed
  ultimately show ?case using Cons by simp
qed simp

lemma counts_of_distinct:
  assumes "counts_of ns counts"
  shows "filter (\<lambda>(k, c). c > 1) counts = [] \<longleftrightarrow> distinct (countable ns)"
proof -
  have d: "distinct (map fst counts)"
    and m: "\<And>k. map_of counts k = (if count_list (countable ns) k = 0 then None
                 else Some (count_list (countable ns) k))"
    using assms by (simp_all add: counts_of_def)
  have "filter (\<lambda>(k, c). c > 1) counts = [] \<longleftrightarrow> (\<forall>(k, c) \<in> set counts. c \<le> 1)"
    by (auto simp: filter_empty_conv not_less)
  also have "\<dots> \<longleftrightarrow> (\<forall>k c. map_of counts k = Some c \<longrightarrow> c \<le> 1)"
    using map_of_eq_Some_iff [OF d] by auto
  also have "\<dots> \<longleftrightarrow> (\<forall>k. count_list (countable ns) k \<le> 1)"
    by (auto simp: m not_less_eq_eq) (meson le_less_trans not_le_imp_less zero_le)
  finally show ?thesis by (simp add: count_list_distinct)
qed

lemma foldR_count_name:
  "(\<And>s. s \<in> set ss \<Longrightarrow> is_obj s) \<Longrightarrow>
   foldR count_name ss counts = Inr (fold count_key (map (\<lambda>s. js_show (fld ''name'' s)) ss) counts)"
  by (induction ss arbitrary: counts) (auto simp: count_name_def count_key_def js_get_obj Let_def)

lemma foldR_count_steps:
  "rows_ok rows \<Longrightarrow> foldR count_steps rows counts = Inr (fold count_key (step_names rows) counts)"
proof (induction rows arbitrary: counts)
  case (Cons row rows)
  then obtain ss where row: "row = JArr ss" by (auto simp: rows_ok_def elim: is_arr_E)
  show ?case using Cons
    by (simp add: rows_ok_def count_steps_def row foldR_count_name step_names_def row_names_def)
qed (simp add: step_names_def)

theorem validateExperimentNames_cron:
  assumes v: "is_obj v" and kind: "fld ''kind'' v = JStr ''CronWorkflow''"
    and ts: "pth [''spec'', ''workflowSpec'', ''templates''] v = JArr (t # ts)"
    and rows: "is_obj t" "fld ''steps'' t = JArr rows" "rows_ok rows"
  shows "validateExperimentNames v = Inr (distinct (countable (step_names rows)))"
proof -
  have obj: "is_obj (fld ''spec'' v)" "is_obj (pth [''spec'', ''workflowSpec''] v)"
    using ts fld_undef_not_obj [of "''templates''" "pth [''spec'', ''workflowSpec''] v"]
      fld_undef_not_obj [of "''workflowSpec''" "fld ''spec'' v"]
    by (auto simp: is_obj_not_undef)
  have path: "js_path (label_spec_path (JStr ''CronWorkflow'')) v = Inr (pth [''spec'', ''workflowSpec''] v)"
    using v obj by (simp add: label_spec_path_def constants_workflow_def js_get_obj)
  have first: "first_template_steps (pth [''spec'', ''workflowSpec''] v) = Inr rows"
    using obj ts rows by (auto simp: first_template_steps_def js_get_obj js_opt_def opt_elems_def elim!: is_obj_E)
  have "counts_of (step_names rows) (fold count_key (step_names rows) [])"
    using counts_of_fold [OF counts_of_Nil] by simp
  from counts_of_distinct [OF this] foldR_count_steps [OF rows(3)] show ?thesis
    using v obj kind path first
    by (simp add: validateExperimentNames_def js_get_obj is_obj_not_undef)
qed

section \<open>The embedded document of a step\<close>

lemma step_search_find:
  assumes "\<And>t. t \<in> set us \<Longrightarrow> is_obj t" and "pre \<noteq> []"
  shows "step_search (JArr (pre @ us)) nm [length pre - 1..<length (pre @ us) - 1] =
    (case find (\<lambda>t. fld ''name'' t = JStr nm) us of
       None \<Rightarrow> Inr (JStr '''') | Some t \<Rightarrow> first_artifact_data t)"
  using assms
proof (induction us arbitrary: pre)
  case (Cons u us)
  have idx: "[length pre - 1..<length (pre @ u # us) - 1] =
      (length pre - 1) # [length (pre @ [u]) - 1..<length ((pre @ [u]) @ us) - 1]"
    using Cons.prems(2) by (cases pre) (simp_all add: upt_conv_Cons del: upt_Suc)
  have "js_idx (1 + (length pre - 1)) (JArr (pre @ u # us)) = Inr u"
    using Cons.prems(2) by (cases pre) auto
  then show ?case
    unfolding idx using Cons.IH [of "pre @ [u]"] Cons.prems(1) [of u] Cons.prems
    by (simp add: js_get_obj)
qed simp

theorem stepEmbeddedYAMLExtractor_first_match:
  assumes doc: "yaml_read Y manifest = Inr v" "is_obj v"
    and ts: "pth (templates_path (fld ''kind'' v)) v = JArr (t # ts)"
    and objs: "\<And>u. u \<in> set ts \<Longrightarrow> is_obj u"
  shows "stepEmbeddedYAMLExtractor Y manifest nm =
    (case find (\<lambda>u. fld ''name'' u = JStr nm) ts of
       None \<Rightarrow> JStr ''''
     | Some u \<Rightarrow> (case first_artifact_data u of Inl e \<Rightarrow> JStr '''' | Inr d \<Rightarrow> d))"
proof -
  have path: "js_path (templates_path (fld ''kind'' v)) v = Inr (JArr (t # ts))"
  proof (cases "fld ''kind'' v = JStr ''CronWorkflow''")
    case True
    then have "is_obj (fld ''spec'' v)" "is_obj (pth [''spec'', ''workflowSpec''] v)"
      using ts fld_undef_not_obj [of "''templates''" "pth [''spec'', ''workflowSpec''] v"]
        fld_undef_not_obj [of "''workflowSpec''" "fld ''spec'' v"]
      by (auto simp: is_obj_not_undef templates_path_def)
    with True doc ts show ?thesis by (simp add: templates_path_def js_get_obj)
  next
    case False
    then have "is_obj (fld ''spec'' v)"
      using ts fld_undef_not_obj [of "''templates''" "fld ''spec'' v"] by (auto simp: templates_path_def)
    with False doc ts show ?thesis by (simp add: templates_path_def js_get_obj)
  qed
  have bound: "loop_bound (JArr (t # ts)) = Inr (length ts)"
    by (simp add: loop_bound_def)
  show ?thesis
    using step_search_find [of ts "[t]" nm, OF objs] doc path bound
    by (simp add: stepEmbeddedYAMLExtractor_def js_get_obj split: option.splits)
qed

end
