(* ===== verification/ManifestEdit.thy ===== *)
theory ManifestEdit
  imports Manifest
begin

text \<open>
  The rest of \<open>utils/yamlUtils.ts\<close>: the namespace and the image registry of a manifest,
  queries built from templates, and workflow parameters. These functions let an
  exception escape, so each returns a \<open>result\<close>.
\<close>

section \<open>Namespaces\<close>

definition set_admin_parameter :: "string \<Rightarrow> unit act" where
  "set_admin_parameter ns = act_get ''name'' (\<lambda>n.
     if n = JStr constants_adminMode then act_upd (js_put ''value'' (JStr ns)) else act_ret ())"

definition kind_is :: "string \<Rightarrow> unit act \<Rightarrow> unit act" where
  "kind_is kd m = act_get ''kind'' (\<lambda>k v. (case js_lower_any k of
      Inl e \<Rightarrow> (Inl e, v)
    | Inr s \<Rightarrow> act_when (s = kd) m v))"

definition updateNamespace_act :: "string \<Rightarrow> unit act" where
  "updateNamespace_act ns =
     act_seq (within ''metadata'' (act_upd (js_put ''namespace'' (JStr ns))))
    (act_seq (kind_is ''workflow'' (within_path [''spec'', ''arguments'', ''parameters'']
                (for_each (set_admin_parameter ns))))
             (kind_is ''cronworkflow'' (within_path [''spec'', ''workflowSpec'', ''arguments'', ''parameters'']
                (for_each (set_admin_parameter ns)))))"

definition updateNamespace :: "yaml \<Rightarrow> string \<Rightarrow> string \<Rightarrow> js result" where
  "updateNamespace Y manifest ns = rbind (yaml_read Y manifest) (run_act (updateNamespace_act ns))"

definition updateNamespaceForUpload :: "yaml \<Rightarrow> string \<Rightarrow> string \<Rightarrow> js result" where
  "updateNamespaceForUpload Y manifest ns = rbind (yaml_read Y manifest)
     (run_act (within ''metadata'' (act_upd (js_put ''namespace'' (JStr ns)))))"

section \<open>Images\<close>

text \<open>The last component of \<open>image.split('/')\<close>.\<close>

definition image_name :: "string \<Rightarrow> string" where
  "image_name img = last (js_split img ''/'')"

definition registry_image :: "ImageRegistryInfo \<Rightarrow> string \<Rightarrow> string" where
  "registry_image reg img =
     (if \<not> is_default reg
      then image_registry_name reg @ ''/'' @ image_repo_name reg @ ''/'' @ image_name img
      else constants_litmus @ ''/'' @ image_name img)"

definition update_image :: "ImageRegistryInfo \<Rightarrow> unit act" where
  "update_image reg = act_get ''image'' (\<lambda>im v. (case js_string im of
      Inl e \<Rightarrow> (Inl e, v)
    | Inr s \<Rightarrow> act_upd (js_put ''image'' (JStr (registry_image reg s))) v))"

definition update_container :: "ImageRegistryInfo \<Rightarrow> unit act" where
  "update_container reg = act_get ''container'' (\<lambda>c.
     if truthy c then within ''container'' (update_image reg) else act_ret ())"

definition pull_secrets :: "ImageRegistryInfo \<Rightarrow> js" where
  "pull_secrets reg = JArr [jobj1 ''name'' (JStr (secret_name reg))]"

definition update_spec_images :: "ImageRegistryInfo \<Rightarrow> unit act" where
  "update_spec_images reg =
     act_seq (act_when (js_lower (image_registry_type reg) = ''private'')
                (act_upd (js_put ''imagePullSecrets'' (pull_secrets reg))))
             (within ''templates'' (for_each (update_container reg)))"

definition updateManifestImage_act :: "ImageRegistryInfo \<Rightarrow> unit act" where
  "updateManifestImage_act reg = act_when (update_registry reg) (act_get ''spec'' (\<lambda>sp.
     if sp \<noteq> JUndef
     then act_seq (kind_is ''workflow'' (within ''spec'' (update_spec_images reg)))
                  (kind_is ''cronworkflow'' (within_path [''spec'', ''workflowSpec''] (update_spec_images reg)))
     else act_ret ()))"

definition updateManifestImage :: "yaml \<Rightarrow> js \<Rightarrow> ImageRegistryInfo \<Rightarrow> string result" where
  "updateManifestImage Y v reg = rmap (yaml_show Y) (run_act (updateManifestImage_act reg) v)"

text \<open>\<open>crd?.kind.toLowerCase() === 'chaosexperiment' && crd?.spec && crd?.spec?.definition\<close>.\<close>

definition is_chaosexperiment :: "js \<Rightarrow> bool result" where
  "is_chaosexperiment crd = (if nullish crd then Inr False
     else rbind (js_get ''kind'' crd) (\<lambda>k. rbind (js_lower_any k) (\<lambda>kl.
          if kl = ''chaosexperiment''
          then rbind (js_opt ''spec'' crd) (\<lambda>sp. if truthy sp
               then rbind (js_opt ''definition'' sp) (\<lambda>d. Inr (truthy d)) else Inr False)
          else Inr False)))"

definition updateChaosExpCRDImage :: "yaml \<Rightarrow> string \<Rightarrow> ImageRegistryInfo \<Rightarrow> string result" where
  "updateChaosExpCRDImage Y chaosExp reg =
     rbind (yaml_read Y chaosExp) (\<lambda>crd.
     rbind (is_chaosexperiment crd) (\<lambda>b.
     rmap (yaml_show Y)
       (if b \<and> update_registry reg
        then run_act (within_path [''spec'', ''definition''] (update_image reg)) crd
        else Inr crd)))"

definition isCronWorkflow :: "js \<Rightarrow> bool result" where
  "isCronWorkflow manifest = rbind (js_get ''kind'' manifest) (\<lambda>k. rbind (js_lower_any k) (\<lambda>s.
     if s = ''workflow'' then Inr False
     else if s = ''cronworkflow'' then Inr True else Inr False))"

section \<open>Queries and parameters\<close>

definition generateChaosQuery :: "string \<Rightarrow> string \<Rightarrow> string \<Rightarrow> string" where
  "generateChaosQuery template engineName ns =
     js_replace_all (js_replace_all template ''#{}'' engineName) ''*{}'' ns"

text \<open>
  \<open>s.replace(/^\<backslash>s+|\<backslash>s+$/gm, '')\<close>. At a line start a whole run of blanks goes; elsewhere
  a run goes up to its last line end (or wholly, at the end of the text), and is kept
  when no line ends in it.
\<close>

definition is_newline :: "char \<Rightarrow> bool" where
  "is_newline c = (c = CHR 0x0A \<or> c = CHR 0x0D)"

definition run_to_eol :: "string \<Rightarrow> nat" where
  "run_to_eol s = (let run = takeWhile js_space s in
     if length run = length s then length s
     else Max (insert 0 {j \<in> {1..<length run}. is_newline (run ! j)}))"

function trim_lines :: "bool \<Rightarrow> string \<Rightarrow> string" where
  "trim_lines bol [] = []"
| "trim_lines bol (c # s) =
     (if \<not> js_space c then c # trim_lines False s
      else if bol then trim_lines (is_newline (last (takeWhile js_space (c # s)))) (dropWhile js_space s)
      else let k = run_to_eol (c # s) in
           if k > 0 then trim_lines (is_newline ((c # s) ! (k - 1))) (drop (k - 1) s)
           else c # trim_lines (is_newline c) s)"
  by pat_completeness auto
termination
  by (relation "measure (\<lambda>(b, s). length s)") (auto simp: le_imp_less_Suc length_dropWhile_le)

definition getWorkflowParameter :: "string \<Rightarrow> string option" where
  "getWorkflowParameter s =
     (let parts = js_split (trim_lines True (js_substring s 1 (int (length s) - 1))) ''.''
      in if 2 < length parts then Some (parts ! 2) else None)"

section \<open>Every image ends up in the chosen registry\<close>

lemma image_name_no_slash: "CHR ''/'' \<notin> set (image_name img)"
  using split_on_char_free [of "image_name img" "CHR ''/''" img] split_on_nonempty
  by (simp add: image_name_def js_split_def)

lemma image_name_append: "image_name (p @ CHR ''/'' # q) = image_name q"
  using split_on_nonempty by (simp add: image_name_def js_split_def split_on_append_char)

lemma image_name_plain: "CHR ''/'' \<notin> set q \<Longrightarrow> image_name q = q"
  by (simp add: image_name_def js_split_def split_on_absent find_sub_singleton_None)

lemma image_name_registry_image: "image_name (registry_image reg img) = image_name img"
  using image_name_append [of constants_litmus "image_name img"]
    image_name_append [of "image_registry_name reg @ ''/'' @ image_repo_name reg" "image_name img"]
  by (simp add: registry_image_def image_name_plain image_name_no_slash)

text \<open>\<open>retarget_template\<close>: what one template becomes; \<open>images_ready\<close>: each container names
  its image as text.\<close>

definition retarget_template :: "ImageRegistryInfo \<Rightarrow> js \<Rightarrow> js" where
  "retarget_template reg t =
     (if truthy (fld ''container'' t)
      then set_prop ''container'' (set_prop ''image''
             (JStr (registry_image reg (js_show (pth [''container'', ''image''] t)))) (fld ''container'' t)) t
      else t)"

definition images_ready :: "js \<Rightarrow> bool" where
  "images_ready sp \<longleftrightarrow> is_obj sp \<and> is_arr (fld ''templates'' sp) \<and>
     (\<forall>t \<in> set (elems (fld ''templates'' sp)). is_obj t \<and> (truthy (fld ''container'' t) \<longrightarrow>
        is_obj (fld ''container'' t) \<and> (\<exists>s. pth [''container'', ''image''] t = JStr s)))"

definition retarget_spec :: "ImageRegistryInfo \<Rightarrow> js \<Rightarrow> js" where
  "retarget_spec reg sp = set_prop ''templates''
     (JArr (map (retarget_template reg) (elems (fld ''templates'' sp))))
     (if js_lower (image_registry_type reg) = ''private''
      then set_prop ''imagePullSecrets'' (pull_secrets reg) sp else sp)"

lemma runs_update_container:
  assumes "is_obj t" and "truthy (fld ''container'' t) \<Longrightarrow>
    is_obj (fld ''container'' t) \<and> (\<exists>s. pth [''container'', ''image''] t = JStr s)"
  shows "runs (update_container reg) t (retarget_template reg t)"
proof (cases "truthy (fld ''container'' t)")
  case True
  obtain s where c: "is_obj (fld ''container'' t)" and s: "pth [''container'', ''image''] t = JStr s"
    using assms(2) [OF True] by auto
  have "runs (update_image reg) (fld ''container'' t)
          (set_prop ''image'' (JStr (registry_image reg s)) (fld ''container'' t))"
    unfolding update_image_def
    by (rule runs_get [OF c]) (use s c runs_put in \<open>simp add: runs_def\<close>)
  then have "runs (within ''container'' (update_image reg)) t (retarget_template reg t)"
    using runs_within [of "''container''" t "update_image reg"] c True s
    by (simp add: retarget_template_def is_obj_not_undef)
  then show ?thesis
    unfolding update_container_def by (intro runs_get) (simp_all add: assms True)
next
  case False
  then show ?thesis
    unfolding update_container_def
    by (intro runs_get) (simp_all add: assms retarget_template_def runs_ret)
qed

lemma runs_update_spec_images:
  assumes "images_ready sp"
  shows "runs (update_spec_images reg) sp (retarget_spec reg sp)"
proof -
  let ?sp = "if js_lower (image_registry_type reg) = ''private''
             then set_prop ''imagePullSecrets'' (pull_secrets reg) sp else sp"
  have ts: "fld ''templates'' ?sp = JArr (elems (fld ''templates'' sp))"
    using assms by (auto simp: images_ready_def elim: is_arr_E)
  have "list_all2 (runs (update_container reg)) (elems (fld ''templates'' sp))
      (map (retarget_template reg) (elems (fld ''templates'' sp)))"
    using assms by (auto simp: list_all2_conv_all_nth images_ready_def intro!: runs_update_container)
  then have "runs (within ''templates'' (for_each (update_container reg))) ?sp (retarget_spec reg sp)"
    unfolding retarget_spec_def by (intro runs_within) (simp_all add: ts runs_for_each)
  then show ?thesis
    unfolding update_spec_images_def
    by (intro runs_seq [where v = ?sp] runs_when) (use assms in \<open>simp_all add: images_ready_def runs_put\<close>)
qed

lemma runs_kind_is:
  assumes "is_obj v" and "fld ''kind'' v = JStr k"
    and "js_lower k = kd \<Longrightarrow> runs m v w" and "js_lower k \<noteq> kd \<Longrightarrow> w = v"
  shows "runs (kind_is kd m) v w"
  unfolding kind_is_def
  by (rule runs_get [OF assms(1)])
     (use assms runs_when in \<open>auto simp: js_lower_any_def runs_def act_when_def\<close>)

definition retarget :: "ImageRegistryInfo \<Rightarrow> js \<Rightarrow> js" where
  "retarget reg v =
     (if fld ''kind'' v = JStr ''Workflow''
      then set_prop ''spec'' (retarget_spec reg (fld ''spec'' v)) v
      else set_prop ''spec'' (set_prop ''workflowSpec''
             (retarget_spec reg (pth [''spec'', ''workflowSpec''] v)) (fld ''spec'' v)) v)"

definition manifest_spec :: "js \<Rightarrow> js" where
  "manifest_spec v = (if fld ''kind'' v = JStr ''Workflow'' then fld ''spec'' v
                      else pth [''spec'', ''workflowSpec''] v)"

definition image_manifest :: "js \<Rightarrow> bool" where
  "image_manifest v \<longleftrightarrow> is_obj v \<and> fld ''kind'' v \<in> {JStr ''Workflow'', JStr ''CronWorkflow''}
     \<and> images_ready (manifest_spec v)"

lemma lower_kinds: "js_lower ''Workflow'' = ''workflow''" "js_lower ''CronWorkflow'' = ''cronworkflow''"
  by code_simp+

lemma runs_updateManifestImage:
  assumes "image_manifest v" and "update_registry reg"
  shows "runs (updateManifestImage_act reg) v (retarget reg v)"
proof (cases "fld ''kind'' v = JStr ''Workflow''")
  case True
  have v: "is_obj v" and sp: "images_ready (fld ''spec'' v)" and so: "is_obj (fld ''spec'' v)"
    using assms True by (auto simp: image_manifest_def manifest_spec_def images_ready_def)
  show ?thesis
    unfolding updateManifestImage_act_def using assms(2) so
    by (intro runs_when runs_get v)
       (auto simp: is_obj_not_undef True lower_kinds retarget_def v
          intro!: runs_seq runs_kind_is runs_within runs_update_spec_images sp)
next
  case False
  then have k: "fld ''kind'' v = JStr ''CronWorkflow''" using assms by (simp add: image_manifest_def)
  have v: "is_obj v" and sp: "images_ready (pth [''spec'', ''workflowSpec''] v)"
    and wo: "is_obj (pth [''spec'', ''workflowSpec''] v)"
    using assms False by (auto simp: image_manifest_def manifest_spec_def images_ready_def)
  have so: "is_obj (fld ''spec'' v)"
    using wo fld_undef_not_obj [of "''workflowSpec''" "fld ''spec'' v"] by (auto simp: is_obj_not_undef)
  have "runs (within_path [''spec'', ''workflowSpec''] (update_spec_images reg)) v (retarget reg v)"
    using sp wo so by (auto simp: retarget_def k is_obj_not_undef intro!: runs_within runs_update_spec_images)
  then show ?thesis
    unfolding updateManifestImage_act_def using assms(2) so
    by (intro runs_when runs_get v)
       (auto simp: is_obj_not_undef k lower_kinds v intro!: runs_seq [where v = v] runs_kind_is)
qed

lemma retarget_template_twice:
  assumes "is_obj t" and "truthy (fld ''container'' t) \<Longrightarrow> is_obj (fld ''container'' t)"
  shows "retarget_template reg' (retarget_template reg t) = retarget_template reg' t"
proof -
  have "image_name (js_show (JStr (registry_image reg s))) = image_name s" for s
    by (simp add: image_name_registry_image)
  then have "registry_image reg' (registry_image reg s) = registry_image reg' s" for s
    by (simp add: registry_image_def)
  moreover have "truthy (set_prop k x v)" if "is_obj v" for k x v
    using that by (cases v) auto
  ultimately show ?thesis using assms by (auto simp: retarget_template_def)
qed

text \<open>The images a manifest runs, template by template.\<close>

definition manifest_images :: "js \<Rightarrow> js list" where
  "manifest_images v = map (pth [''container'', ''image''])
     (filter (\<lambda>t. truthy (fld ''container'' t)) (elems (fld ''templates'' (manifest_spec v))))"

lemma truthy_retarget_template:
  "is_obj t \<Longrightarrow> (truthy (fld ''container'' t) \<Longrightarrow> is_obj (fld ''container'' t)) \<Longrightarrow>
   truthy (fld ''container'' (retarget_template reg t)) = truthy (fld ''container'' t)"
  by (auto simp: retarget_template_def elim!: is_obj_E)

lemma manifest_spec_retarget:
  assumes "image_manifest v"
  shows "manifest_spec (retarget reg v) = retarget_spec reg (manifest_spec v)"
proof -
  have "is_obj (fld ''spec'' v)"
    using assms fld_undef_not_obj [of "''workflowSpec''" "fld ''spec'' v"]
    by (auto simp: image_manifest_def manifest_spec_def images_ready_def is_obj_not_undef split: if_splits)
  with assms show ?thesis by (auto simp: manifest_spec_def retarget_def image_manifest_def)
qed

lemma templates_retarget_spec:
  "is_obj sp \<Longrightarrow> fld ''templates'' (retarget_spec reg sp) =
   JArr (map (retarget_template reg) (elems (fld ''templates'' sp)))"
  by (auto simp: retarget_spec_def)


lemma retarget_template_ready:
  assumes "is_obj t" and "truthy (fld ''container'' t) \<Longrightarrow> is_obj (fld ''container'' t)"
  shows "is_obj (retarget_template reg t)
    \<and> (truthy (fld ''container'' (retarget_template reg t)) \<longrightarrow>
        is_obj (fld ''container'' (retarget_template reg t))
        \<and> (\<exists>s. pth [''container'', ''image''] (retarget_template reg t) = JStr s))"
  using assms by (auto simp: retarget_template_def)

lemma images_ready_retarget:
  assumes "images_ready sp" shows "images_ready (retarget_spec reg sp)"
proof -
  have sp: "is_obj sp" using assms by (simp add: images_ready_def)
  have "is_obj (retarget_spec reg sp)" using sp by (simp add: retarget_spec_def)
  moreover have "\<forall>t \<in> set (elems (fld ''templates'' sp)).
      is_obj (retarget_template reg t)
      \<and> (truthy (fld ''container'' (retarget_template reg t)) \<longrightarrow>
          is_obj (fld ''container'' (retarget_template reg t))
          \<and> (\<exists>s. pth [''container'', ''image''] (retarget_template reg t) = JStr s))"
    using assms retarget_template_ready unfolding images_ready_def by blast
  ultimately show ?thesis by (simp add: images_ready_def templates_retarget_spec sp)
qed

lemma image_manifest_spec_obj: "image_manifest v \<Longrightarrow> is_obj (fld ''spec'' v)"
  using fld_undef_not_obj [of "''workflowSpec''" "fld ''spec'' v"]
  by (auto simp: image_manifest_def manifest_spec_def images_ready_def is_obj_not_undef split: if_splits)

lemma image_manifest_retarget: "image_manifest v \<Longrightarrow> image_manifest (retarget reg v)"
  using images_ready_retarget [of "manifest_spec v" reg]
  by (simp add: image_manifest_def manifest_spec_retarget) (auto simp: retarget_def)

lemma retarget_spec_twice:
  assumes sp: "images_ready sp" and public: "js_lower (image_registry_type reg) \<noteq> ''private''"
  shows "retarget_spec reg' (retarget_spec reg sp) = retarget_spec reg' sp"
proof -
  have so: "is_obj sp" using sp by (simp add: images_ready_def)
  have "map (retarget_template reg') (map (retarget_template reg) (elems (fld ''templates'' sp)))
      = map (retarget_template reg') (elems (fld ''templates'' sp))"
    using sp by (auto simp: images_ready_def intro!: retarget_template_twice)
  moreover have "set_prop ''templates'' x (set_prop ''imagePullSecrets'' y (set_prop ''templates'' z sp))
      = set_prop ''templates'' x (set_prop ''imagePullSecrets'' y sp)" for x y z
  proof -
    obtain fs where fs: "sp = JObj fs" using so by (rule is_obj_E)
    have "fld ''templates'' sp \<noteq> JUndef" using sp by (auto simp: images_ready_def)
    then have "''templates'' \<in> fst ` set fs"
      by (auto simp: fs obj_get_def split: option.splits dest!: map_of_SomeD) force
    then have "AList.update ''templates'' x (AList.update ''imagePullSecrets'' y (AList.update ''templates'' z fs))
        = AList.update ''templates'' x (AList.update ''imagePullSecrets'' y fs)"
      by (induction fs) (auto simp: al_update_update)
    then show ?thesis by (simp add: fs)
  qed
  ultimately show ?thesis using so public by (simp add: retarget_spec_def del: map_map)
qed

lemma retarget_twice:
  assumes v: "image_manifest v" and public: "js_lower (image_registry_type reg) \<noteq> ''private''"
  shows "retarget reg' (retarget reg v) = retarget reg' v"
proof -
  have "images_ready (manifest_spec v)" using v by (simp add: image_manifest_def)
  from retarget_spec_twice [OF this public] show ?thesis
    using v image_manifest_spec_obj [OF v]
    by (auto simp: retarget_def manifest_spec_def image_manifest_def split: if_splits)
qed

lemma yaml_plain_elems: "yaml_plain v \<Longrightarrow> t \<in> set (elems v) \<Longrightarrow> yaml_plain t"
  by (cases v) auto

lemma yaml_plain_retarget_template: "yaml_plain t \<Longrightarrow> yaml_plain (retarget_template reg t)"
  using yaml_plain_fld [of t "''container''"]
  by (cases "fld ''container'' t = JUndef") (auto simp: retarget_template_def intro!: yaml_plain_set_prop)

lemma yaml_plain_retarget:
  assumes v: "image_manifest v" and p: "yaml_plain v"
    and public: "js_lower (image_registry_type reg) \<noteq> ''private''"
  shows "yaml_plain (retarget reg v)"
proof -
  have so: "fld ''spec'' v \<noteq> JUndef" using image_manifest_spec_obj [OF v] by (auto simp: is_obj_not_undef)
  have ps: "yaml_plain (fld ''spec'' v)" by (rule yaml_plain_fld [OF p so])
  have r: "yaml_plain (retarget_spec reg sp)" if "images_ready sp" "yaml_plain sp" for sp
  proof -
    have "yaml_plain (fld ''templates'' sp)"
      using that by (intro yaml_plain_fld) (auto simp: images_ready_def)
    then show ?thesis using that public yaml_plain_elems yaml_plain_retarget_template
      by (auto simp: retarget_spec_def intro!: yaml_plain_set_prop)
  qed
  have m: "images_ready (manifest_spec v)" using v by (simp add: image_manifest_def)
  show ?thesis
  proof (cases "fld ''kind'' v = JStr ''Workflow''")
    case True
    with m ps p r show ?thesis by (simp add: retarget_def manifest_spec_def yaml_plain_set_prop)
  next
    case False
    then have w: "images_ready (fld ''workflowSpec'' (fld ''spec'' v))" using m by (simp add: manifest_spec_def)
    then have "yaml_plain (fld ''workflowSpec'' (fld ''spec'' v))"
      by (intro yaml_plain_fld ps) (auto simp: images_ready_def is_obj_not_undef)
    with False w ps p r show ?thesis by (simp add: retarget_def yaml_plain_set_prop)
  qed
qed

theorem updateManifestImage_last_registry_wins:
  assumes v: "image_manifest v" and regs: "update_registry reg" "update_registry reg'"
    and public: "js_lower (image_registry_type reg) \<noteq> ''private''"
    and Y: "yaml_laws Y" "yaml_plain v"
  shows "rbind (updateManifestImage Y v reg) (\<lambda>s. rbind (yaml_read Y s) (\<lambda>w. updateManifestImage Y w reg'))
    = updateManifestImage Y v reg'"
proof -
  note R = runs_updateManifestImage [unfolded runs_def]
  have "yaml_read Y (yaml_show Y (retarget reg v)) = Inr (retarget reg v)"
    using Y yaml_plain_retarget [OF v Y(2) public] by (simp add: yaml_laws_def)
  then show ?thesis
    using R [OF v regs(1)] R [OF v regs(2)] R [OF image_manifest_retarget [OF v] regs(2), of reg]
      retarget_twice [OF v public, of reg']
    by (simp add: updateManifestImage_def run_act_def)
qed

section \<open>Namespaces: the manifest's own and its parameter\<close>

definition with_admin_namespace :: "string \<Rightarrow> js \<Rightarrow> js" where
  "with_admin_namespace ns p =
     (if fld ''name'' p = JStr constants_adminMode then set_prop ''value'' (JStr ns) p else p)"

definition parameters_path :: "js \<Rightarrow> string list" where
  "parameters_path v = (if fld ''kind'' v = JStr ''Workflow''
     then [''spec'', ''arguments'', ''parameters'']
     else [''spec'', ''workflowSpec'', ''arguments'', ''parameters''])"

lemma runs_set_admin_parameter: "is_obj p \<Longrightarrow> runs (set_admin_parameter ns) p (with_admin_namespace ns p)"
  unfolding set_admin_parameter_def
  by (rule runs_get) (simp_all add: with_admin_namespace_def runs_put runs_ret)


text \<open>A write below a path: every link is an object on the way.\<close>

fun set_path :: "string list \<Rightarrow> js \<Rightarrow> js \<Rightarrow> js" where
  "set_path [] x v = x"
| "set_path (k # ks) x v = set_prop k (set_path ks x (fld k v)) v"

lemma runs_within_path:
  "runs m (pth ks v) x \<Longrightarrow> (\<And>i. 0 < i \<Longrightarrow> i \<le> length ks \<Longrightarrow> pth (take i ks) v \<noteq> JUndef) \<Longrightarrow>
   runs (within_path ks m) v (set_path ks x v)"
proof (induction ks arbitrary: v)
  case (Cons k ks)
  have "fld k v \<noteq> JUndef" using Cons.prems(2) [of 1] by simp
  moreover have "runs (within_path ks m) (fld k v) (set_path ks x (fld k v))"
    using Cons.prems(1) Cons.prems(2) [of "Suc i" for i] by (intro Cons.IH) auto
  ultimately show ?case by (simp add: runs_within)
qed simp

lemma pth_snoc: "pth (ks @ [k]) v = fld k (pth ks v)"
  by (induction ks arbitrary: v) auto

lemma pth_defined_prefix:
  "pth ks v \<noteq> JUndef \<Longrightarrow> i \<le> length ks \<Longrightarrow> pth (take i ks) v \<noteq> JUndef"
proof (induction ks rule: rev_induct)
  case (snoc k ks)
  then have "fld k (pth ks v) \<noteq> JUndef" by (simp add: pth_snoc)
  then have "is_obj (pth ks v)" by (rule fld_undef_not_obj)
  with snoc show ?case by (cases "i = length (ks @ [k])") (auto simp: is_obj_not_undef)
qed simp

lemma pth_set_path:
  "pth ks v \<noteq> JUndef \<Longrightarrow> pth ks (set_path ks x v) = x"
proof (induction ks arbitrary: v)
  case (Cons k ks)
  have "is_obj v" using pth_defined_prefix [OF Cons.prems, of 1] fld_undef_not_obj by auto
  with Cons show ?case by simp
qed simp

definition namespaced_doc :: "string \<Rightarrow> js list \<Rightarrow> js \<Rightarrow> js" where
  "namespaced_doc ns ps v = set_path (parameters_path v) (JArr (map (with_admin_namespace ns) ps))
     (set_prop ''metadata'' (set_prop ''namespace'' (JStr ns) (fld ''metadata'' v)) v)"

lemma namespaced_doc_fields:
  assumes doc: "is_obj v" "is_obj (fld ''metadata'' v)"
  shows "k \<noteq> ''spec'' \<Longrightarrow> fld k (namespaced_doc ns ps v) =
      fld k (set_prop ''metadata'' (set_prop ''namespace'' (JStr ns) (fld ''metadata'' v)) v)"
    and "is_obj (namespaced_doc ns ps v)"
  using doc by (cases "fld ''kind'' v = JStr ''Workflow''"; auto simp: namespaced_doc_def parameters_path_def)+

lemma runs_updateNamespace_act:
  assumes doc: "is_obj v" "is_obj (fld ''metadata'' v)"
    and kind: "fld ''kind'' v \<in> {JStr ''Workflow'', JStr ''CronWorkflow''}"
    and ps: "pth (parameters_path v) v = JArr ps" "\<And>p. p \<in> set ps \<Longrightarrow> is_obj p"
  shows "runs (updateNamespace_act ns) v (namespaced_doc ns ps v)"
proof -
  let ?md = "set_prop ''namespace'' (JStr ns) (fld ''metadata'' v)"
  let ?v = "set_prop ''metadata'' ?md v"
  let ?ps = "JArr (map (with_admin_namespace ns) ps)"
  let ?w = "namespaced_doc ns ps v"
  have same: "pth (parameters_path v) ?v = JArr ps"
    using ps doc by (auto simp: parameters_path_def split: if_splits)
  have loop: "runs (for_each (set_admin_parameter ns)) (JArr ps) ?ps"
    using ps by (auto intro!: runs_for_each runs_set_admin_parameter simp: list_all2_conv_all_nth)
  have inner: "runs (within_path (parameters_path v) (for_each (set_admin_parameter ns))) ?v ?w"
    using same pth_defined_prefix [of "parameters_path v" ?v] loop
    unfolding namespaced_doc_def by (intro runs_within_path) auto
  have md: "runs (within ''metadata'' (act_upd (js_put ''namespace'' (JStr ns)))) v ?v"
    using doc by (intro runs_within runs_put) (auto simp: is_obj_not_undef)
  have kinds: "is_obj ?v" "is_obj ?w" "fld ''kind'' ?v = fld ''kind'' v" "fld ''kind'' ?w = fld ''kind'' v"
    using namespaced_doc_fields [OF doc] doc by simp_all
  show ?thesis
    unfolding updateNamespace_act_def
  proof (cases "fld ''kind'' v = JStr ''Workflow''", goal_cases)
    case 1
    then have "runs (kind_is ''workflow'' (within_path [''spec'', ''arguments'', ''parameters'']
                (for_each (set_admin_parameter ns)))) ?v ?w"
      using inner kinds by (intro runs_kind_is) (auto simp: lower_kinds parameters_path_def)
    moreover have "runs (kind_is ''cronworkflow'' m) ?w ?w" for m
      using 1 kinds by (intro runs_kind_is) (auto simp: lower_kinds)
    ultimately show ?case by (intro runs_seq [OF md] runs_seq)
  next
    case 2
    then have "fld ''kind'' v = JStr ''CronWorkflow''" using kind by simp
    with 2 have "runs (kind_is ''cronworkflow'' (within_path
        [''spec'', ''workflowSpec'', ''arguments'', ''parameters''] (for_each (set_admin_parameter ns)))) ?v ?w"
      using inner kinds by (intro runs_kind_is) (auto simp: lower_kinds parameters_path_def)
    moreover have "runs (kind_is ''workflow'' m) ?v ?v" for m
      using \<open>fld ''kind'' v = JStr ''CronWorkflow''\<close> kinds by (intro runs_kind_is) (auto simp: lower_kinds)
    ultimately show ?case by (intro runs_seq [OF md] runs_seq)
  qed
qed

theorem updateNamespace_everywhere:
  assumes doc: "yaml_read Y manifest = Inr v" "is_obj v" "is_obj (fld ''metadata'' v)"
    and kind: "fld ''kind'' v \<in> {JStr ''Workflow'', JStr ''CronWorkflow''}"
    and ps: "pth (parameters_path v) v = JArr ps" "\<And>p. p \<in> set ps \<Longrightarrow> is_obj p"
  shows "\<exists>v'. updateNamespace Y manifest ns = Inr v'
    \<and> fld ''metadata'' v' = set_prop ''namespace'' (JStr ns) (fld ''metadata'' v)
    \<and> pth (parameters_path v) v' = JArr (map (with_admin_namespace ns) ps)
    \<and> (\<forall>k. k \<notin> {''metadata'', ''spec''} \<longrightarrow> fld k v' = fld k v)"
proof -
  have run: "runs (updateNamespace_act ns) v (namespaced_doc ns ps v)"
    by (rule runs_updateNamespace_act [OF doc(2,3) kind ps])
  have "pth (parameters_path v) (set_prop ''metadata'' (set_prop ''namespace'' (JStr ns) (fld ''metadata'' v)) v) = JArr ps"
    using ps doc by (auto simp: parameters_path_def split: if_splits)
  then have "pth (parameters_path v) (namespaced_doc ns ps v) = JArr (map (with_admin_namespace ns) ps)"
    unfolding namespaced_doc_def by (intro pth_set_path) simp
  moreover have "updateNamespace Y manifest ns = Inr (namespaced_doc ns ps v)"
    using doc run by (simp add: updateNamespace_def run_act_ok runs_def)
  ultimately show ?thesis using namespaced_doc_fields [OF doc(2,3)] doc by auto
qed

section \<open>Query templates\<close>

lemma js_replace_all_join:
  assumes "p \<noteq> []" and "CHR ''$'' \<notin> set r"
  shows "js_replace_all s p r = js_join r (split_on p s)"
proof -
  have "replace_all_from p r pre s = js_join r (split_on p s)" for pre
    using assms
  proof (induction p r pre s rule: replace_all_from.induct)
    case (1 p r pre s)
    show ?case
    proof (cases "find_sub p s")
      case None
      then show ?thesis by (subst replace_all_from.simps) (simp add: split_on_absent)
    next
      case (Some i)
      obtain y ys where ys: "split_on p (drop (i + length p) s) = y # ys"
        using split_on_nonempty by (metis neq_Nil_conv)
      have "split_on p s = take i s # y # ys"
        using "1.prems" Some ys by (subst split_on.simps) simp
      then show ?thesis
        using 1 Some ys by (subst replace_all_from.simps) (simp add: expand_repl_plain)
    qed
  qed
  then show ?thesis by (simp add: js_replace_all_def)
qed

theorem generateChaosQuery_substitutes:
  assumes "CHR ''$'' \<notin> set engine" and "CHR ''$'' \<notin> set ns"
  shows "generateChaosQuery template engine ns =
    js_join ns (js_split (js_join engine (js_split template ''#{}'')) ''*{}'')"
  using assms by (simp add: generateChaosQuery_def js_replace_all_join js_split_def)

text \<open>With a dollar sign the name is not inserted as it is: \<open>$&\<close> stands for the match.\<close>

lemma generateChaosQuery_dollar:
  "generateChaosQuery ''m{engine=#{}}'' ''$&'' ''ns'' = ''m{engine=#{}}''"
  by code_simp

section \<open>Parameter references\<close>

lemma trim_lines_no_space: "(\<And>c. c \<in> set s \<Longrightarrow> \<not> js_space c) \<Longrightarrow> trim_lines b s = s"
  by (induction s arbitrary: b) auto

lemma getWorkflowParameter_reference:
  assumes "\<And>x c. x \<in> {a, b, n} \<Longrightarrow> c \<in> set x \<Longrightarrow> \<not> js_space c \<and> c \<noteq> CHR ''.''"
  shows "getWorkflowParameter (CHR ''{'' # a @ CHR ''.'' # b @ CHR ''.'' # n @ ''}'') = Some n"
proof -
  let ?s = "a @ CHR ''.'' # b @ CHR ''.'' # n"
  have sub: "js_substring (CHR ''{'' # ?s @ ''}'') 1 (int (length ?s) + 1) = ?s"
    by (simp add: js_substring_def clampn_def min_def max_def nat_add_distrib)
  have "trim_lines True ?s = ?s"
    using assms by (intro trim_lines_no_space) (auto simp: js_space_def)
  moreover have "split_on ''.'' ?s = [a, b, n]"
    using split_join_char [of "[a, b, n]" "CHR ''.''"] assms by auto
  ultimately show ?thesis using sub by (simp add: getWorkflowParameter_def js_split_def Let_def)
qed

end
