(* ===== verification/YamlInstance.thy ===== *)
theory YamlInstance
  imports ManifestQuery ManifestEdit
begin

text \<open>
  What the development relies on of the \<open>yaml\<close> package, and a printer and parser that
  satisfy it. The contract \<open>yaml_laws\<close> is the package's documented round trip: plain
  data (no undefined, no Date, no key twice), once printed, reads back as itself. The concrete pair \<open>plain_yaml\<close> (tagged and
  length-prefixed text) shows that the contract can hold; witnesses run on it.
\<close>

definition enc_str :: "string \<Rightarrow> string" where
  "enc_str s = show_nat (length s) @ CHR '':'' # s"

fun enc :: "js \<Rightarrow> string" where
  "enc JUndef = ''u''"
| "enc JNull = ''n''"
| "enc (JBool b) = (if b then ''t'' else ''f'')"
| "enc (JNum n) = CHR ''i'' # show_int n @ '';''"
| "enc JNaN = ''N''"
| "enc (JStr s) = CHR ''s'' # enc_str s"
| "enc (JDate d) = CHR ''d'' # show_int d @ '';''"
| "enc (JArr xs) = CHR ''['' # concat (map enc xs) @ '']''"
| "enc (JObj fs) = CHR ''{'' # concat (map (\<lambda>(k, v). enc_str k @ enc v) fs) @ ''}''"

definition dec_str :: "string \<Rightarrow> (string \<times> string) option" where
  "dec_str s = (let n = read_nat 0 (takeWhile is_digit s); r = dropWhile is_digit s in
     case r of c # u \<Rightarrow> (if c = CHR '':'' \<and> n \<le> length u then Some (take n u, drop n u) else None)
     | [] \<Rightarrow> None)"

definition dec_int :: "string \<Rightarrow> (int \<times> string) option" where
  "dec_int s = (case parse_int (takeWhile (\<lambda>c. c \<noteq> CHR '';'') s) of
      None \<Rightarrow> None
    | Some i \<Rightarrow> Some (i, tl (dropWhile (\<lambda>c. c \<noteq> CHR '';'') s)))"

fun dec :: "nat \<Rightarrow> string \<Rightarrow> (js \<times> string) option"
  and dec_list :: "nat \<Rightarrow> string \<Rightarrow> (js list \<times> string) option"
  and dec_fields :: "nat \<Rightarrow> string \<Rightarrow> ((string \<times> js) list \<times> string) option" where
  "dec 0 s = None"
| "dec (Suc n) [] = None"
| "dec (Suc n) (c # s) =
     (if c = CHR ''u'' then Some (JUndef, s)
      else if c = CHR ''n'' then Some (JNull, s)
      else if c = CHR ''t'' then Some (JBool True, s)
      else if c = CHR ''f'' then Some (JBool False, s)
      else if c = CHR ''N'' then Some (JNaN, s)
      else if c = CHR ''i'' then map_option (\<lambda>(i, r). (JNum i, r)) (dec_int s)
      else if c = CHR ''d'' then map_option (\<lambda>(i, r). (JDate i, r)) (dec_int s)
      else if c = CHR ''s'' then map_option (\<lambda>(t, r). (JStr t, r)) (dec_str s)
      else if c = CHR ''['' then map_option (\<lambda>(xs, r). (JArr xs, r)) (dec_list n s)
      else if c = CHR ''{'' then map_option (\<lambda>(fs, r). (JObj fs, r)) (dec_fields n s)
      else None)"
| "dec_list 0 s = None"
| "dec_list (Suc n) [] = None"
| "dec_list (Suc n) (c # s) =
     (if c = CHR '']'' then Some ([], s)
      else case dec n (c # s) of None \<Rightarrow> None
        | Some (x, r) \<Rightarrow> map_option (\<lambda>(xs, q). (x # xs, q)) (dec_list n r))"
| "dec_fields 0 s = None"
| "dec_fields (Suc n) [] = None"
| "dec_fields (Suc n) (c # s) =
     (if c = CHR ''}'' then Some ([], s)
      else case dec_str (c # s) of None \<Rightarrow> None
        | Some (k, t) \<Rightarrow> (case dec n t of None \<Rightarrow> None
           | Some (v, r) \<Rightarrow> map_option (\<lambda>(fs, q). ((k, v) # fs, q)) (dec_fields n r)))"

definition plain_read :: "string \<Rightarrow> js result" where
  "plain_read s = (case dec (length s) s of Some (v, []) \<Rightarrow> Inr v | _ \<Rightarrow> Inl YamlErr)"

definition plain_yaml :: yaml where
  "plain_yaml = \<lparr>yaml_read = plain_read, yaml_show = enc\<rparr>"

lemma dec_str_enc: "dec_str (enc_str s @ r) = Some (s, r)"
proof -
  have all: "\<forall>c \<in> set (show_nat (length s)). is_digit c"
    by (auto dest!: show_nat_digits simp: digit_char_props)
  have colon: "\<not> is_digit CHR '':''" by (simp add: is_digit_def less_eq_char_def)
  have "takeWhile is_digit (enc_str s @ r) = show_nat (length s)"
    using all colon by (simp add: enc_str_def takeWhile_append2)
  moreover have "dropWhile is_digit (enc_str s @ r) = CHR '':'' # s @ r"
    using all colon by (simp add: enc_str_def dropWhile_append2)
  ultimately show ?thesis by (simp add: dec_str_def read_show_nat)
qed

lemma show_int_no_semicolon: "c \<in> set (show_int i) \<Longrightarrow> c \<noteq> CHR '';''"
proof -
  assume c: "c \<in> set (show_int i)"
  have "d < 10 \<Longrightarrow> digit_char d \<noteq> CHR '';''" for d
    using digit_char_props(1) [of d] by (auto simp: is_digit_def less_eq_char_def)
  then have no: "c' \<noteq> CHR '';''" if "c' \<in> set (show_nat n)" for c' n
    using show_nat_digits [OF that] by metis
  show ?thesis
  proof (cases "i < 0")
    case True
    with c have "c = CHR ''-'' \<or> c \<in> set (show_nat (nat (- i)))" by (simp add: show_int_def)
    then show ?thesis using no by (elim disjE) simp_all
  next
    case False
    with c no show ?thesis by (simp add: show_int_def)
  qed
qed

lemma dec_int_enc: "dec_int (show_int i @ CHR '';'' # r) = Some (i, r)"
  using show_int_no_semicolon
  by (simp add: dec_int_def takeWhile_append2 dropWhile_append2 parse_show_int)

lemma enc_head:
  obtains c s where "enc v = c # s" and "c \<noteq> CHR '']''" and "c \<noteq> CHR ''}''"
proof -
  have "\<exists>c s. enc v = c # s \<and> c \<noteq> CHR '']'' \<and> c \<noteq> CHR ''}''"
    by (cases v) (auto split: if_splits)
  with that show thesis by blast
qed

lemma enc_str_head:
  obtains c t where "enc_str s = c # t" and "c \<noteq> CHR ''}''"
proof -
  obtain c u where cu: "show_nat (length s) = c # u" by (cases "show_nat (length s)") auto
  then have "c \<in> set (show_nat (length s))" by simp
  then have "is_digit c" by (auto dest!: show_nat_digits simp: digit_char_props)
  then have "c \<noteq> CHR ''}''" by (auto simp: is_digit_def less_eq_char_def)
  with cu that show thesis by (simp add: enc_str_def)
qed

lemma length_enc_pos: "0 < length (enc v)"
  by (cases v) auto

lemma dec_enc:
  "length (enc v) \<le> n \<Longrightarrow> dec n (enc v @ r) = Some (v, r)"
proof (induction v arbitrary: n r rule: enc.induct)
  case (8 xs)
  have items: "length (concat (map enc ys)) < m \<Longrightarrow>
      dec_list m (concat (map enc ys) @ CHR '']'' # q) = Some (ys, q)"
    if "set ys \<subseteq> set xs" for ys m q
    using that
  proof (induction ys arbitrary: m)
    case Nil
    then show ?case by (cases m) auto
  next
    case (Cons y ys)
    obtain m' where m: "m = Suc m'" using Cons.prems by (cases m) auto
    obtain c s where cs: "enc y = c # s" "c \<noteq> CHR '']''" by (rule enc_head)
    have y: "dec m' (enc y @ t) = Some (y, t)" for t
      using "8.IH" Cons.prems m by auto
    have ys: "dec_list m' (concat (map enc ys) @ CHR '']'' # q) = Some (ys, q)"
    proof (rule Cons.IH)
      show "length (concat (map enc ys)) < m'"
        using Cons.prems(1) m length_enc_pos [of y] by (simp only: list.map concat.simps length_append)
    qed (use Cons.prems in auto)
    show ?case using y [of "concat (map enc ys) @ CHR '']'' # q"] ys cs by (simp add: m)
  qed
  obtain m where m: "n = Suc m" using "8.prems" by (cases n) auto
  show ?case using items [of xs m r] "8.prems" by (simp add: m)
next
  case (9 fs)
  let ?e = "\<lambda>(k, v). enc_str k @ enc v"
  have fields: "length (concat (map ?e gs)) < m \<Longrightarrow>
      dec_fields m (concat (map ?e gs) @ CHR ''}'' # q) = Some (gs, q)"
    if "set gs \<subseteq> set fs" for gs m q
    using that
  proof (induction gs arbitrary: m)
    case Nil
    then show ?case by (cases m) auto
  next
    case (Cons g gs)
    obtain k v where g: "g = (k, v)" by (cases g)
    obtain m' where m: "m = Suc m'" using Cons.prems by (cases m) auto
    obtain c t where ct: "enc_str k = c # t" "c \<noteq> CHR ''}''" by (rule enc_str_head)
    have v: "dec m' (enc v @ u) = Some (v, u)" for u
    proof -
      have "(k, v) \<in> set fs" using Cons.prems(2) g by simp
      moreover have "length (enc v) \<le> m'"
        using Cons.prems(1) m g by (simp add: enc_str_def del: length_concat)
      ultimately show ?thesis using "9.IH" by blast
    qed
    have gs: "dec_fields m' (concat (map ?e gs) @ CHR ''}'' # q) = Some (gs, q)"
    proof (rule Cons.IH)
      show "length (concat (map ?e gs)) < m'"
        using Cons.prems(1) m g length_enc_pos [of v] by (simp add: enc_str_def del: length_concat)
    qed (use Cons.prems in auto)
    have k: "dec_str (c # t @ u) = Some (k, u)" for u
      using dec_str_enc [of k u] ct by simp
    show ?case
      using v [of "concat (map ?e gs) @ CHR ''}'' # q"] gs ct by (simp add: m g k)
  qed
  obtain m where m: "n = Suc m" using "9.prems" by (cases n) auto
  show ?case using fields [of fs m r] "9.prems" by (simp add: m)
next
  case (4 i)
  then show ?case by (cases n) (auto simp: dec_int_enc)
next
  case (6 s)
  then show ?case by (cases n) (auto simp: dec_str_enc)
next
  case (7 d)
  then show ?case by (cases n) (auto simp: dec_int_enc)
qed (auto simp: Suc_le_eq gr0_conv_Suc)

theorem plain_yaml_laws: "yaml_laws plain_yaml"
  using dec_enc [where r = "[]"]
  by (simp add: yaml_laws_def plain_yaml_def plain_read_def)

end
