(* ===== verification/ManifestWitness.thy ===== *)
theory ManifestWitness
  imports YamlInstance
begin

text \<open>
  A small chaos scenario, as the portal's templates build it, on which the theorems
  about manifests are applied. The embedded engine is printed by the concrete pair
  \<open>plain_yaml\<close>.
\<close>

lemma plain_read_enc [simp]: "yaml_read plain_yaml (enc v) = Inr v"
  using dec_enc [of v "length (enc v)" "[]"] by (simp add: plain_yaml_def plain_read_def)

lemma plain_show [simp]: "yaml_show plain_yaml = enc"
  by (simp add: plain_yaml_def)

definition sample_engine :: js where
  "sample_engine = JObj
     [(''kind'', JStr ''ChaosEngine''),
      (''metadata'', JObj [(''name'', JStr ''pod-delete''),
         (''namespace'', JObj [(''{ workflow.parameters.adminModeNamespace }'', JNull)])]),
      (''spec'', JObj [(''appinfo'', JObj [(''appns'', JStr ''default'')]),
         (''experiments'', JArr [JObj [(''name'', JStr ''pod-delete'')]])])]"

definition sample_step :: js where
  "sample_step = JObj
     [(''name'', JStr ''pod-delete''),
      (''inputs'', JObj [(''artifacts'', JArr [JObj [(''name'', JStr ''engine''),
         (''raw'', JObj [(''data'', JStr (enc sample_engine))])]])]),
      (''container'', JObj [(''image'', JStr ''docker.io/litmuschaos/litmus-checker:latest'')])]"

definition sample_revert :: js where
  "sample_revert = JObj
     [(''name'', JStr ''revert-chaos''),
      (''container'', JObj [(''image'', JStr ''litmuschaos/k8s:latest''),
         (''args'', JArr [JStr ''kubectl delete chaosengine --all'', JStr ''x''])])]"

definition sample_root :: js where
  "sample_root = JObj
     [(''name'', JStr ''custom-chaos''),
      (''steps'', JArr [JArr [JObj [(''name'', JStr ''install'')]],
                        JArr [JObj [(''name'', JStr ''pod-delete'')]],
                        JArr [JObj [(''name'', JStr ''revert-chaos'')]]])]"

definition sample_spec :: js where
  "sample_spec = JObj
     [(''arguments'', JObj [(''parameters'', JArr
         [JObj [(''name'', JStr ''adminModeNamespace''), (''value'', JStr ''litmus'')]])]),
      (''templates'', JArr [sample_root, sample_step, sample_revert])]"

definition sample_workflow :: js where
  "sample_workflow = JObj
     [(''kind'', JStr ''Workflow''),
      (''metadata'', JObj [(''name'', JStr ''custom-chaos''), (''namespace'', JStr ''litmus'')]),
      (''spec'', sample_spec)]"

definition sample_cron :: js where
  "sample_cron = JObj
     [(''kind'', JStr ''CronWorkflow''),
      (''metadata'', JObj [(''name'', JStr ''custom-chaos''), (''namespace'', JStr ''litmus'')]),
      (''spec'', JObj [(''schedule'', JStr ''5 * * * *''), (''workflowSpec'', sample_spec)])]"

definition sample_registry :: ImageRegistryInfo where
  "sample_registry = \<lparr>image_registry_name = ''docker.io'', image_repo_name = ''acme'',
     image_registry_type = ''public'', secret_name = '''', secret_namespace = '''',
     enable_registry = True, update_registry = True, is_default = False\<rparr>"

definition sample_default_registry :: ImageRegistryInfo where
  "sample_default_registry = sample_registry \<lparr>is_default := True\<rparr>"

lemmas sample_defs = sample_engine_def sample_step_def sample_revert_def sample_root_def
  sample_spec_def sample_workflow_def sample_cron_def

lemma sample_templates [simp]:
  "pth [''spec'', ''templates''] sample_workflow = JArr [sample_root, sample_step, sample_revert]"
  "pth [''spec'', ''workflowSpec'', ''templates''] sample_cron = JArr [sample_root, sample_step, sample_revert]"
  "pth [''spec'', ''workflowSpec''] sample_cron = sample_spec"
  "fld ''spec'' sample_workflow = sample_spec"
  by (simp_all add: sample_workflow_def sample_cron_def sample_spec_def)

lemma sample_shapes [simp]:
  "is_obj sample_workflow" "is_obj sample_cron" "is_obj sample_root" "is_obj sample_step"
  "is_obj sample_revert" "is_obj sample_spec"
  "fld ''kind'' sample_workflow = JStr ''Workflow''" "fld ''kind'' sample_cron = JStr ''CronWorkflow''"
  by (simp_all add: sample_defs)

lemma sample_template_ready:
  assumes "P sample_engine" and "t \<in> {sample_root, sample_step, sample_revert}"
  shows "template_ready plain_yaml P t"
  using assms by (elim insertE)
    (simp_all add: template_ready_def template_artifacts_def artifact_ready_def sample_step_def
       sample_root_def sample_revert_def)

lemma sample_engine_ready: "engine_ready sample_engine"
  by (simp add: engine_ready_def sample_engine_def name_value_ok_def is_engine_def)

lemma sample_image_manifest: "image_manifest sample_workflow"
  by (simp add: image_manifest_def manifest_spec_def images_ready_def sample_spec_def
      sample_root_def sample_step_def sample_revert_def)


theorem updateWorkflowNameLabel_labels_cron_engines_witness:
  "\<exists>ts'. list_all2 (template_labelled plain_yaml ''nightly'') [sample_root, sample_step, sample_revert] ts'
     \<and> updateWorkflowNameLabel plain_yaml sample_cron ''nightly'' =
         set_prop ''spec'' (set_prop ''workflowSpec''
           (set_prop ''templates'' (JArr ts') (pth [''spec'', ''workflowSpec''] sample_cron))
           (fld ''spec'' sample_cron)) sample_cron"
proof (rule updateWorkflowNameLabel_labels_cron_engines)
  fix t assume t: "t \<in> set [sample_root, sample_step, sample_revert]"
  have "labels_ready sample_engine"
    by (simp add: labels_ready_def sample_engine_ready) (simp add: sample_engine_def)
  with t show "template_ready plain_yaml labels_ready t"
    using sample_template_ready by auto
qed (rule sample_shapes sample_templates | simp add: constants_workflow_def)+

theorem workflow_kind_is_skipped_witness:
  "updateWorkflowNameLabel plain_yaml sample_workflow ''nightly'' = sample_workflow
    \<and> getInstanceID plain_yaml sample_workflow = '''' \<and> validateExperimentNames sample_workflow = Inr True"
  by (rule workflow_kind_is_skipped) (simp_all add: sample_spec_def)

theorem validateExperimentNames_cron_witness:
  "validateExperimentNames sample_cron
    = Inr (distinct (countable (step_names (elems (fld ''steps'' sample_root)))))"
  by (rule validateExperimentNames_cron [where t = sample_root and ts = "[sample_step, sample_revert]"])
     (rule sample_shapes sample_templates | simp add: sample_root_def rows_ok_def)+

theorem stepEmbeddedYAMLExtractor_first_match_witness:
  "stepEmbeddedYAMLExtractor plain_yaml (enc sample_workflow) ''pod-delete'' =
    (case find (\<lambda>u. fld ''name'' u = JStr ''pod-delete'') [sample_step, sample_revert] of
       None \<Rightarrow> JStr ''''
     | Some u \<Rightarrow> (case first_artifact_data u of Inl e \<Rightarrow> JStr '''' | Inr d \<Rightarrow> d))"
  by (rule stepEmbeddedYAMLExtractor_first_match [where v = sample_workflow and t = sample_root])
     (auto simp: templates_path_def sample_spec_def)


theorem updateManifestImage_last_registry_wins_witness:
  "rbind (updateManifestImage plain_yaml sample_workflow sample_registry)
     (\<lambda>s. rbind (yaml_read plain_yaml s) (\<lambda>w. updateManifestImage plain_yaml w sample_default_registry))
    = updateManifestImage plain_yaml sample_workflow sample_default_registry"
  by (rule updateManifestImage_last_registry_wins [OF sample_image_manifest _ _ _ plain_yaml_laws])
     (simp_all add: sample_registry_def sample_default_registry_def sample_defs js_lower_def lower_char_def)

theorem updateNamespace_everywhere_witness:
  "\<exists>v'. updateNamespace plain_yaml (enc sample_workflow) ''team-a'' = Inr v'
    \<and> fld ''metadata'' v' = set_prop ''namespace'' (JStr ''team-a'') (fld ''metadata'' sample_workflow)
    \<and> pth (parameters_path sample_workflow) v' = JArr (map (with_admin_namespace ''team-a'')
         [JObj [(''name'', JStr ''adminModeNamespace''), (''value'', JStr ''litmus'')]])
    \<and> (\<forall>k. k \<notin> {''metadata'', ''spec''} \<longrightarrow> fld k v' = fld k sample_workflow)"
  by (rule updateNamespace_everywhere)
     (auto simp: parameters_path_def sample_spec_def, simp add: sample_workflow_def)

theorem generateChaosQuery_substitutes_witness:
  "generateChaosQuery ''up{job=#{},ns=*{}}'' ''e1'' ''team'' =
    js_join ''team'' (js_split (js_join ''e1'' (js_split ''up{job=#{},ns=*{}}'' ''#{}'')) ''*{}'')"
  by (rule generateChaosQuery_substitutes) simp_all

end
