(* ===== verification/PromSteps.thy ===== *)
theory PromSteps
  imports JsString
begin

text \<open>
  \<open>utils/promUtils.ts\<close>, first part: the query map of a dashboard, the step of each
  Prometheus query (so that a range stays under the server's limit of points) and the
  inputs built from them, with the constants of \<open>pages/MonitoringDashboard/constants.ts\<close>.

  A number that \<open>parseInt\<close> may make NaN is an \<open>int option\<close> (\<open>None\<close> is NaN); a step is a JavaScript
  value, since the code can make it NaN or undefined. Quotients of safe integers stay far
  from the resolution limit's rounding, so \<open>Math.ceil(a / b)\<close> is the exact ceiling.
\<close>

definition PROMETHEUS_QUERY_RESOLUTION_LIMIT :: int where
  "PROMETHEUS_QUERY_RESOLUTION_LIMIT = 11000"

definition TIME_THRESHOLD_FOR_TSDB :: int where
  "TIME_THRESHOLD_FOR_TSDB = 1"

definition DEFAULT_TSDB_SCRAPE_INTERVAL :: int where
  "DEFAULT_TSDB_SCRAPE_INTERVAL = 5"

definition DEFAULT_RELATIVE_TIME_RANGE :: int where
  "DEFAULT_RELATIVE_TIME_RANGE = 1800"

definition DEFAULT_CHAOS_EVENT_QUERY_ID :: string where
  "DEFAULT_CHAOS_EVENT_QUERY_ID = ''chaos-event''"

definition DEFAULT_CHAOS_VERDICT_QUERY_ID :: string where
  "DEFAULT_CHAOS_VERDICT_QUERY_ID = ''chaos-verdict''"

definition DEFAULT_LEGEND :: string where
  "DEFAULT_LEGEND = ''{{chaosresult_name}}''"

definition DEFAULT_RESOLUTION :: string where
  "DEFAULT_RESOLUTION = ''1/2''"

lemmas prom_constants = PROMETHEUS_QUERY_RESOLUTION_LIMIT_def TIME_THRESHOLD_FOR_TSDB_def
  DEFAULT_TSDB_SCRAPE_INTERVAL_def DEFAULT_RELATIVE_TIME_RANGE_def

section \<open>Dashboards\<close>

record PromQueryDetails =
  dq_queryID :: string
  promQueryName :: string
  dq_legend :: string
  dq_resolution :: string
  dq_minstep :: string
  closeArea :: bool

text \<open>The server's lists may be null, and so may their items.\<close>

record PanelResponse =
  pr_panelID :: string
  panelName :: string
  promQueries :: "PromQueryDetails list option"

record PanelGroupResponse =
  pg_panelGroupID :: string
  panels :: "PanelResponse option list option"

record queryMapForPanel =
  qm_panelID :: string
  queryIDs :: "string list"

record queryMapForPanelGroup =
  qm_panelGroupID :: string
  panelQueryMap :: "queryMapForPanel list"

definition need :: "'a option \<Rightarrow> 'a result" where
  "need v = (case v of None \<Rightarrow> Inl TypeErr | Some a \<Rightarrow> Inr a)"

definition query_map_panel :: "PanelResponse option \<Rightarrow> queryMapForPanel result" where
  "query_map_panel p = rbind (need p) (\<lambda>panel. rbind (need (promQueries panel)) (\<lambda>qs.
     Inr \<lparr>qm_panelID = pr_panelID panel, queryIDs = map dq_queryID qs\<rparr>))"

definition query_map_group :: "PanelGroupResponse option \<Rightarrow> queryMapForPanelGroup result" where
  "query_map_group g = rbind (need g) (\<lambda>panelGroup. rbind (need (panels panelGroup)) (\<lambda>ps.
     rbind (mapR query_map_panel ps) (\<lambda>qs.
     Inr \<lparr>qm_panelGroupID = pg_panelGroupID panelGroup, panelQueryMap = qs\<rparr>)))"

definition getDashboardQueryMap :: "PanelGroupResponse option list \<Rightarrow> queryMapForPanelGroup list result" where
  "getDashboardQueryMap = mapR query_map_group"

section \<open>Steps\<close>

definition timeInSeconds :: "int list" where
  "timeInSeconds = [30, 60, 300, 600, 900, 1800, 3600, 10800, 21600, 43200, 86400, 259200, 604800, 1209600]"

definition allowedMinSteps :: "int list" where
  "allowedMinSteps = [1, 2, 10, 20, 30, 60, 120, 360, 720, 1440, 2880, 8640, 20160, 40320]"

text \<open>\<open>xs[i]\<close> on a list of numbers, and \<open>xs.indexOf(x)\<close>, which never finds NaN.\<close>

definition num_at :: "int list \<Rightarrow> int \<Rightarrow> js" where
  "num_at xs i = (if 0 \<le> i \<and> nat i < length xs then JNum (xs ! nat i) else JUndef)"

definition num_index_of :: "int list \<Rightarrow> int option \<Rightarrow> int" where
  "num_index_of xs d = (case d of None \<Rightarrow> - 1
     | Some x \<Rightarrow> (if x \<in> set xs then int (length (takeWhile (\<lambda>y. y \<noteq> x) xs)) else - 1))"

definition num_le :: "int \<Rightarrow> int option \<Rightarrow> bool" where
  "num_le a d = (case d of None \<Rightarrow> False | Some x \<Rightarrow> a \<le> x)"

text \<open>The binary search for the first range above the difference.\<close>

function search_range :: "int option \<Rightarrow> int \<Rightarrow> int \<Rightarrow> int \<Rightarrow> int" where
  "search_range d start end' ans =
     (if start \<le> end'
      then let mid = (start + end') div 2 in
           if num_le (timeInSeconds ! nat mid) d then search_range d (mid + 1) end' ans
           else search_range d start (mid - 1) mid
      else ans)"
  by pat_completeness auto
termination
  by (relation "measure (\<lambda>(d, start, end', ans). nat (end' - start + 1))") auto

declare search_range.simps [simp del]

definition getNormalizedMinStep :: "int option \<Rightarrow> js" where
  "getNormalizedMinStep timeRangeDiff =
     (let timeIndex = num_index_of timeInSeconds timeRangeDiff in
      if timeIndex \<noteq> - 1 then num_at allowedMinSteps timeIndex
      else num_at allowedMinSteps
             (search_range timeRangeDiff 0 (int (length timeInSeconds) - 1) (- 1)))"

definition ceil_div :: "int \<Rightarrow> int \<Rightarrow> int" where
  "ceil_div a b = - ((- a) div b)"

text \<open>\<open>Math.ceil(diff / m) < LIMIT - THRESHOLD\<close>: a quotient by zero is infinite (or
  NaN for 0/0), and below the limit only when it is minus infinity.\<close>

definition fits_limit :: "int option \<Rightarrow> int option \<Rightarrow> bool" where
  "fits_limit d m = (case (d, m) of
      (Some x, Some s) \<Rightarrow> (if s = 0 then x < 0
         else ceil_div x s < PROMETHEUS_QUERY_RESOLUTION_LIMIT - TIME_THRESHOLD_FOR_TSDB)
    | _ \<Rightarrow> False)"

fun num_js :: "int option \<Rightarrow> js" where
  "num_js None = JNaN"
| "num_js (Some n) = JNum n"

definition query_step :: "int option \<Rightarrow> string \<Rightarrow> js" where
  "query_step d minstep = (if fits_limit d (parse_int minstep) then num_js (parse_int minstep)
                           else getNormalizedMinStep d)"

definition event_step :: "int option \<Rightarrow> js" where
  "event_step d = (case d of None \<Rightarrow> JNaN | Some x \<Rightarrow>
     if x < PROMETHEUS_QUERY_RESOLUTION_LIMIT - TIME_THRESHOLD_FOR_TSDB
     then JNum DEFAULT_TSDB_SCRAPE_INTERVAL
     else JNum (ceil_div x (PROMETHEUS_QUERY_RESOLUTION_LIMIT + TIME_THRESHOLD_FOR_TSDB)))"

record promQueryInput =
  pq_queryID :: string
  pq_query :: string
  pq_legend :: string
  pq_resolution :: string
  pq_minstep :: js

definition query_input :: "int option \<Rightarrow> PromQueryDetails \<Rightarrow> promQueryInput" where
  "query_input d q = \<lparr>pq_queryID = dq_queryID q, pq_query = promQueryName q, pq_legend = dq_legend q,
     pq_resolution = dq_resolution q, pq_minstep = query_step d (dq_minstep q)\<rparr>"

definition event_input :: "int option \<Rightarrow> string \<Rightarrow> string \<Rightarrow> promQueryInput" where
  "event_input d ident template = \<lparr>pq_queryID = ident, pq_query = template,
     pq_legend = DEFAULT_LEGEND, pq_resolution = DEFAULT_RESOLUTION, pq_minstep = event_step d\<rparr>"

text \<open>The two templates are optional arguments; an absent one is the empty string here,
  which is as falsy as undefined.\<close>

definition getPromQueryInput ::
  "PromQueryDetails list \<Rightarrow> int option \<Rightarrow> bool \<Rightarrow> string \<Rightarrow> string \<Rightarrow> promQueryInput list" where
  "getPromQueryInput prom_queries d withEvents eventQueryTemplate verdictQueryTemplate =
     map (query_input d) prom_queries @
     (if withEvents \<and> eventQueryTemplate \<noteq> '''' \<and> verdictQueryTemplate \<noteq> ''''
      then [event_input d DEFAULT_CHAOS_EVENT_QUERY_ID eventQueryTemplate,
            event_input d DEFAULT_CHAOS_VERDICT_QUERY_ID verdictQueryTemplate]
      else [])"

record RangeType =
  startDate :: string
  endDate :: string

definition range_diff :: "RangeType \<Rightarrow> int option" where
  "range_diff r = (if startDate r \<noteq> ''''
     then (case (parse_int (endDate r), parse_int (startDate r)) of
             (Some e, Some s) \<Rightarrow> Some (e - s) | _ \<Rightarrow> None)
     else Some DEFAULT_RELATIVE_TIME_RANGE)"

definition panels_of :: "PanelGroupResponse option \<Rightarrow> PanelResponse option list" where
  "panels_of g = (case g of None \<Rightarrow> [] | Some pg \<Rightarrow> (case panels pg of None \<Rightarrow> [] | Some ps \<Rightarrow> ps))"

definition queries_of :: "PanelResponse option \<Rightarrow> PromQueryDetails list" where
  "queries_of p = (case p of None \<Rightarrow> [] | Some pr \<Rightarrow> (case promQueries pr of None \<Rightarrow> [] | Some qs \<Rightarrow> qs))"

definition generatePromQueries ::
  "RangeType \<Rightarrow> PanelGroupResponse option list \<Rightarrow> string \<Rightarrow> string \<Rightarrow> promQueryInput list" where
  "generatePromQueries r groups eventT verdictT =
     getPromQueryInput (concat (map queries_of (concat (map panels_of groups))))
       (range_diff r) True eventT verdictT"

section \<open>The search finds the first range that covers the difference\<close>

lemma timeInSeconds_mono:
  "i \<le> j \<Longrightarrow> j < 14 \<Longrightarrow> timeInSeconds ! i \<le> timeInSeconds ! j"
  by (rule sorted_nth_mono) (simp_all add: timeInSeconds_def)

definition search_inv :: "int \<Rightarrow> int \<Rightarrow> int \<Rightarrow> int \<Rightarrow> bool" where
  "search_inv d start end' ans \<longleftrightarrow> 0 \<le> start \<and> start \<le> end' + 1 \<and> end' < 14
     \<and> (\<forall>i. 0 \<le> i \<and> i < start \<longrightarrow> timeInSeconds ! nat i \<le> d)
     \<and> (if ans = - 1 then end' = 13 else ans = end' + 1 \<and> ans < 14 \<and> d < timeInSeconds ! nat ans)"

lemma search_range_correct:
  assumes "search_inv d start end' ans"
  shows "let r = search_range (Some d) start end' ans in
    (r = - 1 \<and> timeInSeconds ! 13 \<le> d) \<or>
    (0 \<le> r \<and> r < 14 \<and> d < timeInSeconds ! nat r \<and> (\<forall>i. 0 \<le> i \<and> i < r \<longrightarrow> timeInSeconds ! nat i \<le> d))"
  using assms
proof (induction "Some d" start end' ans rule: search_range.induct)
  case (1 start end' ans)
  show ?case
  proof (cases "start \<le> end'")
    case True
    define mid where "mid = (start + end') div 2"
    have mid: "start \<le> mid" "mid \<le> end'" using True by (auto simp: mid_def)
    show ?thesis
    proof (cases "timeInSeconds ! nat mid \<le> d")
      case below: True
      have "timeInSeconds ! nat i \<le> d" if "0 \<le> i" "i < mid + 1" for i
      proof -
        have "nat i \<le> nat mid" "nat mid < 14" using that mid 1(3) by (auto simp: search_inv_def)
        from timeInSeconds_mono [OF this] below show ?thesis by simp
      qed
      then have "search_inv d (mid + 1) end' ans"
        using 1(3) mid by (auto simp: search_inv_def)
      with 1(1) [OF True mid_def] below True show ?thesis
        by (subst search_range.simps) (simp add: mid_def [symmetric] num_le_def Let_def)
    next
      case above: False
      then have "search_inv d start (mid - 1) mid"
        using 1(3) mid by (auto simp: search_inv_def)
      with 1(2) [OF True mid_def] above True show ?thesis
        by (subst search_range.simps) (simp add: mid_def [symmetric] num_le_def Let_def)
    qed
  next
    case False
    then have "search_range (Some d) start end' ans = ans" by (subst search_range.simps) simp
    moreover have "timeInSeconds ! 13 \<le> d" if "ans = - 1"
    proof -
      have "13 < start" and b: "\<forall>i. 0 \<le> i \<and> i < start \<longrightarrow> timeInSeconds ! nat i \<le> d"
        using 1(3) False that by (auto simp: search_inv_def)
      with b [rule_format, of 13] show ?thesis by simp
    qed
    moreover have "ans \<noteq> - 1 \<Longrightarrow> ans = start"
      using 1(3) False by (auto simp: search_inv_def)
    ultimately show ?thesis using 1(3) by (auto simp: search_inv_def split: if_splits)
  qed
qed

text \<open>The step of the first range that is not below the difference.\<close>

definition step_spec :: "int \<Rightarrow> js" where
  "step_spec d = (case find (\<lambda>(t, s). d \<le> t) (zip timeInSeconds allowedMinSteps) of
      None \<Rightarrow> JUndef | Some (t, s) \<Rightarrow> JNum s)"

lemma find_zip_first:
  fixes d :: int
  assumes "i < length ts" and "length ss = length ts" and "d \<le> ts ! i"
    and "\<And>j. j < i \<Longrightarrow> ts ! j < d"
  shows "find (\<lambda>(t, s). d \<le> t) (zip ts ss) = Some (ts ! i, ss ! i)"
proof -
  have "\<not> d \<le> ts ! j" if "j < i" for j using assms(4) [OF that] by simp
  then show ?thesis using assms(1-3) unfolding find_Some_iff by (intro exI [of _ i]) simp
qed

lemma step_spec_nth:
  assumes "i < 14" and "d \<le> timeInSeconds ! i" and "\<And>j. j < i \<Longrightarrow> timeInSeconds ! j < d"
  shows "step_spec d = JNum (allowedMinSteps ! i)"
  using find_zip_first [of i timeInSeconds allowedMinSteps d] assms
  by (simp add: step_spec_def) (simp add: timeInSeconds_def allowedMinSteps_def)

lemma timeInSeconds_strict: "i < j \<Longrightarrow> j < 14 \<Longrightarrow> timeInSeconds ! i < timeInSeconds ! j"
proof -
  assume "i < j" "j < 14"
  moreover have "sorted_wrt (<) timeInSeconds" by (simp add: timeInSeconds_def)
  ultimately show ?thesis by (simp add: sorted_wrt_iff_nth_less timeInSeconds_def)
qed

lemma takeWhile_shorter: "d \<in> set xs \<Longrightarrow> length (takeWhile (\<lambda>y. y \<noteq> d) xs) < length xs"
  by (induction xs) auto

lemma getNormalizedMinStep_listed:
  assumes True: "d \<in> set timeInSeconds"
  shows "getNormalizedMinStep (Some d) = step_spec d"
proof -
  let ?i = "length (takeWhile (\<lambda>y. y \<noteq> d) timeInSeconds)"
  have i: "?i < 14" "timeInSeconds ! ?i = d"
  proof -
    have "?i < length timeInSeconds"
      using True by (rule takeWhile_shorter)
    then show "?i < 14" and "timeInSeconds ! ?i = d"
      using nth_length_takeWhile [of "\<lambda>y. y \<noteq> d" timeInSeconds] by (simp_all add: timeInSeconds_def)
  qed
  have "step_spec d = JNum (allowedMinSteps ! ?i)"
    using i timeInSeconds_strict [of _ ?i] by (intro step_spec_nth) auto
  moreover have "getNormalizedMinStep (Some d) = num_at allowedMinSteps (int ?i)"
    using True by (simp add: getNormalizedMinStep_def num_index_of_def)
  ultimately show ?thesis using i(1) by (simp add: num_at_def allowedMinSteps_def)
qed

lemma getNormalizedMinStep_unlisted:
  assumes False: "d \<notin> set timeInSeconds"
  shows "getNormalizedMinStep (Some d) = step_spec d"
proof -
  let ?r = "search_range (Some d) 0 13 (- 1)"
  have g: "getNormalizedMinStep (Some d) = num_at allowedMinSteps ?r"
    using False by (simp add: getNormalizedMinStep_def num_index_of_def) (simp add: timeInSeconds_def)
  have neq: "timeInSeconds ! j \<noteq> d" if "j < 14" for j
  proof -
    have "timeInSeconds ! j \<in> set timeInSeconds" using that by (intro nth_mem) (simp add: timeInSeconds_def)
    with False show ?thesis by auto
  qed
  have "search_inv d 0 13 (- 1)" by (simp add: search_inv_def)
  from search_range_correct [OF this] consider
      (beyond) "?r = - 1" "timeInSeconds ! 13 \<le> d"
    | (found) "0 \<le> ?r" "?r < 14" "d < timeInSeconds ! nat ?r"
        "\<And>i. 0 \<le> i \<Longrightarrow> i < ?r \<Longrightarrow> timeInSeconds ! nat i \<le> d"
    unfolding Let_def by blast
  then show ?thesis
  proof cases
    case beyond
    have len: "length timeInSeconds = 14" by (simp add: timeInSeconds_def)
    have "\<not> d \<le> t" if t: "t \<in> set timeInSeconds" for t
    proof -
      obtain j where "j < 14" "t = timeInSeconds ! j"
        using t len unfolding in_set_conv_nth by auto
      then show ?thesis using timeInSeconds_mono [of j 13] beyond neq [of 13] by auto
    qed
    then have "find (\<lambda>(t, s). d \<le> t) (zip timeInSeconds allowedMinSteps) = None"
      by (auto simp: find_None_iff dest: set_zip_leftD)
    with beyond g show ?thesis by (simp add: step_spec_def num_at_def)
  next
    case found
    have "timeInSeconds ! j < d" if "j < nat ?r" for j
      using found(4) [of "int j"] neq [of j] that found(1,2) by fastforce
    then have "step_spec d = JNum (allowedMinSteps ! nat ?r)"
      using found by (intro step_spec_nth) auto
    with g found show ?thesis by (simp add: num_at_def allowedMinSteps_def)
  qed
qed

theorem getNormalizedMinStep_first_range: "getNormalizedMinStep (Some d) = step_spec d"
  by (cases "d \<in> set timeInSeconds") (rule getNormalizedMinStep_listed, assumption, rule getNormalizedMinStep_unlisted)

section \<open>Points per series\<close>

text \<open>The points of a range at a step, and the theorems that bound them: 30 at most at
  a normalised step, 11001 for the event queries.\<close>

definition points :: "int \<Rightarrow> int \<Rightarrow> int" where
  "points d s = ceil_div d s"

lemma ceil_div_le: "0 < b \<Longrightarrow> ceil_div a b \<le> c \<longleftrightarrow> a \<le> c * b"
proof -
  assume b: "0 < b"
  have m: "(- a) div b * b = - a - (- a) mod b" by (simp add: minus_mod_eq_div_mult)
  have r: "0 \<le> (- a) mod b" using b by simp
  have "- c \<le> (- a) div b \<longleftrightarrow> - c * b \<le> - a"
  proof
    assume "- c \<le> (- a) div b"
    then have "- c * b \<le> (- a) div b * b" using b by (intro mult_right_mono) auto
    with m r show "- c * b \<le> - a" by linarith
  next
    assume "- c * b \<le> - a"
    then have "(- c * b) div b \<le> (- a) div b" using b by (rule zdiv_mono1)
    moreover have "(- c * b) div b = - c" using b by (intro nonzero_mult_div_cancel_right) simp
    ultimately show "- c \<le> (- a) div b" by simp
  qed
  then show ?thesis by (auto simp: ceil_div_def)
qed

lemma ceil_div_mono: "0 < b \<Longrightarrow> a \<le> a' \<Longrightarrow> ceil_div a b \<le> ceil_div a' b"
  by (simp add: ceil_div_def zdiv_mono1)

lemma find_member: "find P xs = Some x \<Longrightarrow> x \<in> set xs \<and> P x"
  by (induction xs) (auto split: if_splits)

lemma step_spec_covers:
  assumes "step_spec d = JNum s"
  shows "0 < s \<and> d \<le> 30 * s"
proof -
  obtain t where f: "find (\<lambda>(t, s). d \<le> t) (zip timeInSeconds allowedMinSteps) = Some (t, s)"
    using assms by (auto simp: step_spec_def split: option.splits)
  have "(t, s) \<in> set (zip timeInSeconds allowedMinSteps)" and "d \<le> t"
    using find_member [OF f] by auto
  then show ?thesis by (auto simp: timeInSeconds_def allowedMinSteps_def)
qed

lemma step_spec_defined: "d \<le> 1209600 \<longleftrightarrow> step_spec d \<noteq> JUndef"
proof
  assume "d \<le> 1209600"
  then have "\<not> (\<forall>x \<in> set (zip timeInSeconds allowedMinSteps). \<not> (\<lambda>(t, s). d \<le> t) x)"
    by (simp add: timeInSeconds_def allowedMinSteps_def)
  then have "find (\<lambda>(t, s). d \<le> t) (zip timeInSeconds allowedMinSteps) \<noteq> None"
    by (simp only: find_None_iff) blast
  then show "step_spec d \<noteq> JUndef" by (auto simp: step_spec_def split: option.splits)
next
  assume "step_spec d \<noteq> JUndef"
  then obtain t s where f: "find (\<lambda>(t, s). d \<le> t) (zip timeInSeconds allowedMinSteps) = Some (t, s)"
    by (auto simp: step_spec_def split: option.splits)
  then have "(t, s) \<in> set (zip timeInSeconds allowedMinSteps)" and "d \<le> t"
    using find_member [OF f] by auto
  then show "d \<le> 1209600" by (auto simp: timeInSeconds_def allowedMinSteps_def)
qed

text \<open>A step is usable when the server accepts it: a positive number that keeps the
  series within its limit.\<close>

definition step_ok :: "int \<Rightarrow> js \<Rightarrow> bool" where
  "step_ok d s \<longleftrightarrow> (\<exists>n. s = JNum n \<and> 0 < n \<and> points d n \<le> PROMETHEUS_QUERY_RESOLUTION_LIMIT)"

definition minstep_positive :: "string \<Rightarrow> bool" where
  "minstep_positive s = (case parse_int s of None \<Rightarrow> True | Some n \<Rightarrow> 0 < n)"


text \<open>The divisor of the event step is one more than the limit, so a range of exactly
  11001 seconds asks for one point too many.\<close>

theorem event_step_points:
  assumes "0 < d"
  shows "(\<exists>n. event_step (Some d) = JNum n \<and> 0 < n \<and> points d n \<le> PROMETHEUS_QUERY_RESOLUTION_LIMIT + 1)
    \<and> \<not> step_ok 11001 (event_step (Some 11001))"
proof -
  have "\<exists>n. event_step (Some d) = JNum n \<and> 0 < n \<and> points d n \<le> 11001"
  proof (cases "d < 10999")
    case True
    have "ceil_div d 5 \<le> 11001" using True by (simp add: ceil_div_le)
    with True show ?thesis by (simp add: event_step_def prom_constants points_def)
  next
    case False
    let ?n = "ceil_div d 11001"
    have "\<not> ?n \<le> 0" using assms by (simp add: ceil_div_le)
    moreover have "d \<le> ?n * 11001" using ceil_div_le [of 11001 d ?n] by simp
    ultimately have "points d ?n \<le> 11001" by (simp add: points_def ceil_div_le mult.commute)
    with False \<open>\<not> ?n \<le> 0\<close> show ?thesis by (simp add: event_step_def prom_constants)
  qed
  moreover have "\<not> step_ok 11001 (event_step (Some 11001))"
    by (simp add: step_ok_def event_step_def prom_constants points_def ceil_div_def)
  ultimately show ?thesis by (simp add: prom_constants)
qed

section \<open>The query map names the generated queries\<close>

definition map_query_ids :: "queryMapForPanelGroup list \<Rightarrow> string list" where
  "map_query_ids gs = concat (map (\<lambda>g. concat (map queryIDs (panelQueryMap g))) gs)"

lemma query_map_panel_ids:
  "query_map_panel p = Inr m \<Longrightarrow> queryIDs m = map dq_queryID (queries_of p)"
  by (auto simp: query_map_panel_def need_def queries_of_def split: option.splits)

lemma query_map_panels_ids:
  "mapR query_map_panel ps = Inr ms \<Longrightarrow>
   concat (map queryIDs ms) = map dq_queryID (concat (map queries_of ps))"
  by (induction ps arbitrary: ms) (auto simp: rbind_Inr_iff query_map_panel_ids)

lemma query_map_group_ids:
  "query_map_group g = Inr m \<Longrightarrow>
   concat (map queryIDs (panelQueryMap m)) = map dq_queryID (concat (map queries_of (panels_of g)))"
  by (auto simp: query_map_group_def need_def panels_of_def rbind_Inr_iff query_map_panels_ids
      split: option.splits)

theorem generatePromQueries_match_query_map:
  assumes "getDashboardQueryMap groups = Inr qm" and "eventT \<noteq> ''''" and "verdictT \<noteq> ''''"
  shows "map pq_queryID (generatePromQueries r groups eventT verdictT) =
    map_query_ids qm @ [DEFAULT_CHAOS_EVENT_QUERY_ID, DEFAULT_CHAOS_VERDICT_QUERY_ID]"
proof -
  have "map_query_ids qm = map dq_queryID (concat (map queries_of (concat (map panels_of groups))))"
    using assms(1) unfolding getDashboardQueryMap_def
    by (induction groups arbitrary: qm) (auto simp: map_query_ids_def rbind_Inr_iff query_map_group_ids)
  with assms show ?thesis
    by (simp add: generatePromQueries_def getPromQueryInput_def query_input_def event_input_def comp_def)
qed

end
