(* ===== verification/PromData.thy ===== *)
theory PromData
  imports PromSteps
begin

text \<open>
  \<open>utils/promUtils.ts\<close>, second part: the parsers that turn Prometheus responses into
  the series and the chaos events a dashboard draws. Lists the server may leave null
  are options; a list read past its end is undefined, and so is \<open>None\<close>.
  Sample values are not computed with, so a point keeps its value as it came.
\<close>

record metricsTimeStampValue =
  ts_date :: int
  ts_value :: js

record metricsPromResponse =
  queryid :: string
  legends :: "string list option"
  tsvs :: "metricsTimeStampValue list option list option"

record subData =
  sd_date :: int
  sd_value :: string
  subDataName :: string

record annotationsPromResponse =
  an_queryid :: string
  an_legends :: "string list option"
  an_tsvs :: "metricsTimeStampValue list option list option"
  subDataArray :: "subData list option list"

record GraphMetric =
  metricName :: string
  gm_data :: "metricsTimeStampValue list"
  baseColor :: "string option"
  gm_subData :: "subData list"

record ParsedMetricPrometheusData =
  seriesData :: "GraphMetric list"
  closedAreaData :: "GraphMetric list"

text \<open>\<open>colors[(mainIndex + (index % n)) % n]\<close>: undefined for an empty palette.\<close>

definition color_at :: "string list \<Rightarrow> nat \<Rightarrow> nat \<Rightarrow> string option" where
  "color_at colors mainIndex index = (let n = length colors in
     if n = 0 then None else Some (colors ! ((mainIndex + index mod n) mod n)))"

definition opt_nth :: "'a option list \<Rightarrow> nat \<Rightarrow> 'a option" where
  "opt_nth xs i = (if i < length xs then xs ! i else None)"

text \<open>The legends of the selected applications, with the series at the same index.\<close>

definition select_series ::
  "string list \<Rightarrow> string list \<Rightarrow> 'a option list \<Rightarrow> (string \<times> 'a option) list" where
  "select_series selectedApplications ls ts =
     (let pairs = map (\<lambda>(i, l). (l, opt_nth ts i)) (enumerate 0 ls) in
      if selectedApplications \<noteq> []
      then filter (\<lambda>(l, t). filter (js_includes l) selectedApplications \<noteq> []) pairs
      else pairs)"

definition graph_metric :: "string list \<Rightarrow> nat \<Rightarrow> nat \<times> string \<times> metricsTimeStampValue list option \<Rightarrow> GraphMetric result" where
  "graph_metric colors mainIndex x = (case x of (index, l, t) \<Rightarrow>
     rmap (\<lambda>data. \<lparr>metricName = l, gm_data = data, baseColor = color_at colors mainIndex index,
                    gm_subData = []\<rparr>) (need t))"

definition parse_response ::
  "string list \<Rightarrow> string list \<Rightarrow> string list \<Rightarrow> string list \<Rightarrow> nat \<times> metricsPromResponse option
   \<Rightarrow> ParsedMetricPrometheusData \<Rightarrow> ParsedMetricPrometheusData result" where
  "parse_response lineGraph areaGraph closedAreaQueryIDs apps x acc =
     (case x of (mainIndex, Some r) \<Rightarrow>
        (case (legends r, tsvs r) of (Some ls, Some ts) \<Rightarrow>
           (let series = enumerate 0 (select_series apps ls ts) in
            if queryid r \<in> set closedAreaQueryIDs
            then rmap (\<lambda>gs. acc \<lparr>closedAreaData := closedAreaData acc @ gs\<rparr>)
                   (mapR (graph_metric areaGraph mainIndex) series)
            else rmap (\<lambda>gs. acc \<lparr>seriesData := seriesData acc @ gs\<rparr>)
                   (mapR (graph_metric lineGraph mainIndex) series))
         | _ \<Rightarrow> Inr acc)
      | _ \<Rightarrow> Inr acc)"

text \<open>\<open>metricData\<close> and \<open>selectedApplications\<close> may be absent: the first is then the
  empty list here, and so is the second, which the code treats alike.\<close>

definition MetricDataParserForPrometheus ::
  "metricsPromResponse option list \<Rightarrow> string list \<Rightarrow> string list \<Rightarrow> string list \<Rightarrow> string list
   \<Rightarrow> ParsedMetricPrometheusData result" where
  "MetricDataParserForPrometheus metricData lineGraph areaGraph closedAreaQueryIDs apps =
     foldR (parse_response lineGraph areaGraph closedAreaQueryIDs apps) (enumerate 0 metricData)
       \<lparr>seriesData = [], closedAreaData = []\<rparr>"

record metricDataForPanel =
  mp_panelID :: string
  panelMetricsResponse :: "metricsPromResponse option list"

record metricDataForPanelGroup =
  mg_panelGroupID :: string
  panelGroupMetricsResponse :: "metricDataForPanel list"

record QueryMapForPanel =
  QP_panelID :: string
  metricDataForPanel :: ParsedMetricPrometheusData

record QueryMapForPanelGroup =
  QG_panelGroupID :: string
  metricDataForGroup :: "QueryMapForPanel list"

definition DashboardMetricDataParserForPrometheus ::
  "metricDataForPanelGroup list \<Rightarrow> string list \<Rightarrow> string list \<Rightarrow> string list \<Rightarrow> string list
   \<Rightarrow> QueryMapForPanelGroup list result" where
  "DashboardMetricDataParserForPrometheus metricData lineGraph areaGraph closedAreaQueryIDs apps =
     mapR (\<lambda>g. rmap (\<lambda>ps. \<lparr>QG_panelGroupID = mg_panelGroupID g, metricDataForGroup = ps\<rparr>)
       (mapR (\<lambda>p. rmap (\<lambda>d. \<lparr>QP_panelID = mp_panelID p, metricDataForPanel = d\<rparr>)
          (MetricDataParserForPrometheus (panelMetricsResponse p) lineGraph areaGraph closedAreaQueryIDs apps))
        (panelGroupMetricsResponse g))) metricData"

section \<open>Chaos events\<close>

definition CHAOS_EXPERIMENT_VERDICT_FAILED_TO_INJECT :: string where
  "CHAOS_EXPERIMENT_VERDICT_FAILED_TO_INJECT = ''Failed to Inject''"

text \<open>\<open>getValueFromSubDataArray\<close> reverses the array it is given in place, so the model
  returns the array as the call leaves it.\<close>

definition getValueFromSubDataArray :: "subData list \<Rightarrow> string \<Rightarrow> string \<times> subData list" where
  "getValueFromSubDataArray arr key =
     (fold (\<lambda>element value. if subDataName element = key then sd_value element else value) (rev arr) ''N/A'',
      rev arr)"

record ChaosEventDetails =
  ce_id :: string
  legendColor :: "string option"
  chaosResultName :: string
  ce_workflow :: string
  engineContext :: string
  verdict :: string
  injectionFailed :: bool

record ParsedChaosEventPrometheusData =
  chaosEventDetails :: "ChaosEventDetails list"
  chaosData :: "GraphMetric list"

definition shift_subdata :: "subData \<Rightarrow> subData" where
  "shift_subdata d = d \<lparr>sd_date := sd_date d + 2 * DEFAULT_TSDB_SCRAPE_INTERVAL * 1000\<rparr>"

definition event_details :: "string \<Rightarrow> string option \<Rightarrow> subData list \<Rightarrow> bool \<Rightarrow> ChaosEventDetails" where
  "event_details elem color arr injected =
     (let (wf, arr1) = getValueFromSubDataArray arr ''Workflow'';
          (ctx, arr2) = getValueFromSubDataArray arr1 ''Engine context'';
          v = (if injected then fst (getValueFromSubDataArray arr2 ''Experiment verdict'')
               else CHAOS_EXPERIMENT_VERDICT_FAILED_TO_INJECT)
      in \<lparr>ce_id = elem, legendColor = color, chaosResultName = elem, ce_workflow = wf,
          engineContext = ctx, verdict = v, injectionFailed = \<not> injected\<rparr>)"

definition parse_event ::
  "string list \<Rightarrow> string list \<Rightarrow> nat \<Rightarrow> annotationsPromResponse \<Rightarrow> metricsTimeStampValue list option list
   \<Rightarrow> nat \<times> string \<Rightarrow> ParsedChaosEventPrometheusData \<Rightarrow> ParsedChaosEventPrometheusData result" where
  "parse_event areaGraph selectedEvents mainIndex r ts x acc = (case x of (index, elem) \<Rightarrow>
     let color = color_at areaGraph mainIndex index; sub = opt_nth (subDataArray r) index in
     rbind (case opt_nth ts index of
        Some data \<Rightarrow>
          (if selectedEvents = [] \<or> elem \<in> set selectedEvents
           then rmap (\<lambda>arr. acc \<lparr>chaosData := chaosData acc @
                  [\<lparr>metricName = elem, gm_data = data, baseColor = color,
                    gm_subData = map shift_subdata arr\<rparr>]\<rparr>) (need sub)
           else Inr acc)
      | None \<Rightarrow> Inr acc) (\<lambda>acc1.
     rmap (\<lambda>arr. acc1 \<lparr>chaosEventDetails := chaosEventDetails acc1 @
             [event_details elem color arr (opt_nth ts index \<noteq> None)]\<rparr>) (need sub)))"

definition parse_events ::
  "string list \<Rightarrow> string list \<Rightarrow> nat \<times> annotationsPromResponse option
   \<Rightarrow> ParsedChaosEventPrometheusData \<Rightarrow> ParsedChaosEventPrometheusData result" where
  "parse_events areaGraph selectedEvents x acc = (case x of
      (mainIndex, Some r) \<Rightarrow> (case (an_legends r, an_tsvs r) of
          (Some ls, Some ts) \<Rightarrow> foldR (parse_event areaGraph selectedEvents mainIndex r ts) (enumerate 0 ls) acc
        | _ \<Rightarrow> Inr acc)
    | _ \<Rightarrow> Inr acc)"

definition ChaosEventDataParserForPrometheus ::
  "annotationsPromResponse option list \<Rightarrow> string list \<Rightarrow> string list
   \<Rightarrow> ParsedChaosEventPrometheusData result" where
  "ChaosEventDataParserForPrometheus chaosEventData areaGraph selectedEvents =
     foldR (parse_events areaGraph selectedEvents) (enumerate 0 chaosEventData)
       \<lparr>chaosEventDetails = [], chaosData = []\<rparr>"

section \<open>Series\<close>

lemma color_at_in_palette: "color_at cs i j = Some c \<Longrightarrow> c \<in> set cs"
  by (auto simp: color_at_def Let_def split: if_splits)

text \<open>Within one response the first \<open>n\<close> series take \<open>n\<close> different colours.\<close>

lemma color_at_inj:
  assumes "distinct cs" and "i < length cs" and "j < length cs" and "color_at cs m i = color_at cs m j"
  shows "i = j"
proof -
  let ?n = "length cs"
  have pos: "0 < ?n" and ne: "cs \<noteq> []" using assms by auto
  have "cs ! ((m + i) mod ?n) = cs ! ((m + j) mod ?n)"
    using assms(4) ne by (simp add: color_at_def Let_def mod_add_right_eq)
  then have "(m + i) mod ?n = (m + j) mod ?n"
    using assms(1) pos by (simp add: nth_eq_iff_index_eq)
  then have "int (m + i) mod int ?n = int (m + j) mod int ?n" by (metis of_nat_mod)
  then have "int ?n dvd int i - int j" by (simp add: mod_eq_dvd_iff)
  then show ?thesis using assms(2,3) zdvd_imp_le [of "int ?n" "\<bar>int i - int j\<bar>"] by (cases "i = j") auto
qed

text \<open>What a response contributes: its selected legends with the series at their index.\<close>

definition kept :: "string list \<Rightarrow> metricsPromResponse \<Rightarrow> (string \<times> metricsTimeStampValue list option) list" where
  "kept apps r = (case (legends r, tsvs r) of
      (Some ls, Some ts) \<Rightarrow> filter (\<lambda>(l, t). apps = [] \<or> (\<exists>a \<in> set apps. sublist a l))
        (map (\<lambda>(i, l). (l, opt_nth ts i)) (enumerate 0 ls))
    | _ \<Rightarrow> [])"

definition kept_of :: "string list \<Rightarrow> (metricsPromResponse \<Rightarrow> bool) \<Rightarrow> metricsPromResponse option list
    \<Rightarrow> (string \<times> metricsTimeStampValue list option) list" where
  "kept_of apps P md = concat (map (\<lambda>r. case r of Some x \<Rightarrow> if P x then kept apps x else [] | None \<Rightarrow> []) md)"

definition series_of :: "GraphMetric list \<Rightarrow> (string \<times> metricsTimeStampValue list option) list" where
  "series_of gs = map (\<lambda>g. (metricName g, Some (gm_data g))) gs"

lemma select_series_kept:
  "legends r = Some ls \<Longrightarrow> tsvs r = Some ts \<Longrightarrow> select_series apps ls ts = kept apps r"
  by (auto simp: select_series_def kept_def Let_def filter_empty_conv js_includes_sublist
      intro!: filter_cong)

lemma mapR_graph_metric:
  "mapR (graph_metric cs m) (enumerate k xs) =
    (if (\<exists>l. (l, None) \<in> set xs) then Inl TypeErr
     else Inr (map (\<lambda>(i, l, t). \<lparr>metricName = l, gm_data = the t, baseColor = color_at cs m i,
                                  gm_subData = []\<rparr>) (enumerate k xs)))"
proof (induction xs arbitrary: k)
  case (Cons x xs)
  obtain l t where x: "x = (l, t)" by (cases x)
  show ?case
  proof (cases t)
    case None
    then show ?thesis using x by (auto simp: graph_metric_def need_def)
  next
    case (Some d)
    then show ?thesis using x Cons by (auto simp: graph_metric_def need_def)
  qed
qed simp

lemma series_of_enumerate:
  "(\<And>l. (l, None) \<notin> set xs) \<Longrightarrow>
   series_of (map (\<lambda>(i, l, t). \<lparr>metricName = l, gm_data = the t, baseColor = color_at cs m i,
                                 gm_subData = []\<rparr>) (enumerate k xs)) = xs"
proof (induction xs arbitrary: k)
  case (Cons x xs)
  obtain l t where x: "x = (l, t)" by (cases x)
  with Cons.prems [of l] obtain d where "t = Some d" by (cases t) auto
  with x Cons show ?case by (simp add: series_of_def)
qed (simp add: series_of_def)

lemma series_of_append: "series_of (xs @ ys) = series_of xs @ series_of ys"
  by (simp add: series_of_def)

lemma parse_response_kept:
  fixes acc :: ParsedMetricPrometheusData
  shows "if (\<exists>l. (l, None) \<in> set (kept_of apps (\<lambda>_. True) [r]))
    then parse_response lg ag cl apps (i, r) acc = Inl TypeErr
    else (\<exists>out. parse_response lg ag cl apps (i, r) acc = Inr out
      \<and> series_of (seriesData out) = series_of (seriesData acc)
            @ kept_of apps (\<lambda>x. queryid x \<notin> set cl) [r]
      \<and> series_of (closedAreaData out) = series_of (closedAreaData acc)
            @ kept_of apps (\<lambda>x. queryid x \<in> set cl) [r])"
proof (cases r)
  case None
  then show ?thesis by (simp add: parse_response_def kept_of_def)
next
  case (Some x)
  show ?thesis
  proof (cases "legends x = None \<or> tsvs x = None")
    case True
    then show ?thesis using Some by (auto simp: parse_response_def kept_of_def kept_def split: option.splits)
  next
    case False
    then obtain ls ts where lt: "legends x = Some ls" "tsvs x = Some ts" by auto
    show ?thesis
      using Some lt series_of_enumerate [of "kept apps x"]
      by (simp add: parse_response_def kept_of_def select_series_kept [OF lt] mapR_graph_metric series_of_append)
  qed
qed

theorem metric_parser_series:
  "(\<exists>p. MetricDataParserForPrometheus md lg ag cl apps = Inr p
      \<and> series_of (seriesData p) = kept_of apps (\<lambda>x. queryid x \<notin> set cl) md
      \<and> series_of (closedAreaData p) = kept_of apps (\<lambda>x. queryid x \<in> set cl) md)
    \<or> (MetricDataParserForPrometheus md lg ag cl apps = Inl TypeErr
        \<and> (\<exists>l. (l, None) \<in> set (kept_of apps (\<lambda>_. True) md)))"
proof -
  have "(\<exists>p. foldR (parse_response lg ag cl apps) (enumerate k md) acc = Inr p
      \<and> series_of (seriesData p) = series_of (seriesData acc) @ kept_of apps (\<lambda>x. queryid x \<notin> set cl) md
      \<and> series_of (closedAreaData p) = series_of (closedAreaData acc) @ kept_of apps (\<lambda>x. queryid x \<in> set cl) md)
    \<or> (foldR (parse_response lg ag cl apps) (enumerate k md) acc = Inl TypeErr
        \<and> (\<exists>l. (l, None) \<in> set (kept_of apps (\<lambda>_. True) md)))" for k and acc :: ParsedMetricPrometheusData
  proof (induction md arbitrary: k acc)
    case Nil
    then show ?case by (simp add: kept_of_def)
  next
    case (Cons r md)
    have split: "kept_of apps P (r # md) = kept_of apps P [r] @ kept_of apps P md" for P
      by (simp add: kept_of_def)
    show ?case
    proof (cases "\<exists>l. (l, None) \<in> set (kept_of apps (\<lambda>_. True) [r])")
      case True
      then show ?thesis using parse_response_kept [of apps r lg ag cl k acc] split by auto
    next
      case False
      with parse_response_kept [of apps r lg ag cl k acc] obtain out where
        out: "parse_response lg ag cl apps (k, r) acc = Inr out"
          "series_of (seriesData out) = series_of (seriesData acc) @ kept_of apps (\<lambda>x. queryid x \<notin> set cl) [r]"
          "series_of (closedAreaData out) = series_of (closedAreaData acc) @ kept_of apps (\<lambda>x. queryid x \<in> set cl) [r]"
        by auto
      show ?thesis using Cons.IH [of "Suc k" out] out by (auto simp: split)
    qed
  qed
  from this [of 0 "\<lparr>seriesData = [], closedAreaData = []\<rparr>"] show ?thesis
    by (simp add: MetricDataParserForPrometheus_def series_of_def)
qed

section \<open>Event details\<close>

definition first_value :: "subData list \<Rightarrow> string \<Rightarrow> string" where
  "first_value arr key = (case find (\<lambda>d. subDataName d = key) arr of None \<Rightarrow> ''N/A'' | Some d \<Rightarrow> sd_value d)"

lemma getValueFromSubDataArray_first: "getValueFromSubDataArray arr key = (first_value arr key, rev arr)"
proof -
  have "fold (\<lambda>element value. if subDataName element = key then sd_value element else value) (rev arr) v
      = (case find (\<lambda>d. subDataName d = key) arr of None \<Rightarrow> v | Some d \<Rightarrow> sd_value d)" for v
    by (induction arr) (auto simp: fold_append split: option.splits)
  then show ?thesis by (simp add: getValueFromSubDataArray_def first_value_def)
qed

lemma event_details_eq:
  "event_details elem color arr injected = \<lparr>ce_id = elem, legendColor = color, chaosResultName = elem,
     ce_workflow = first_value arr ''Workflow'', engineContext = first_value (rev arr) ''Engine context'',
     verdict = (if injected then first_value arr ''Experiment verdict'' else ''Failed to Inject''),
     injectionFailed = \<not> injected\<rparr>"
  by (simp add: event_details_def getValueFromSubDataArray_first CHAOS_EXPERIMENT_VERDICT_FAILED_TO_INJECT_def)

definition event_legends :: "annotationsPromResponse option \<Rightarrow> string list" where
  "event_legends r = (case r of None \<Rightarrow> [] | Some x \<Rightarrow>
     (case (an_legends x, an_tsvs x) of (Some ls, Some ts) \<Rightarrow> ls | _ \<Rightarrow> []))"

definition plotted :: "string list \<Rightarrow> ChaosEventDetails list \<Rightarrow> string list" where
  "plotted sel ds = map ce_id (filter (\<lambda>d. \<not> injectionFailed d \<and> (sel = [] \<or> ce_id d \<in> set sel)) ds)"

lemma parse_event_step:
  assumes "parse_event ag sel m r ts (i, l) acc = Inr out"
  shows "map ce_id (chaosEventDetails out) = map ce_id (chaosEventDetails acc) @ [l]
    \<and> (map metricName (chaosData acc) = plotted sel (chaosEventDetails acc)
        \<longrightarrow> map metricName (chaosData out) = plotted sel (chaosEventDetails out))"
  using assms
  by (auto simp: parse_event_def Let_def need_def rmap_def rbind_Inr_iff event_details_eq plotted_def
      split: option.splits if_splits)

lemma parse_event_loop:
  "foldR (parse_event ag sel m r ts) (enumerate k ls) acc = Inr out \<Longrightarrow>
   map ce_id (chaosEventDetails out) = map ce_id (chaosEventDetails acc) @ ls
    \<and> (map metricName (chaosData acc) = plotted sel (chaosEventDetails acc)
        \<longrightarrow> map metricName (chaosData out) = plotted sel (chaosEventDetails out))"
proof (induction ls arbitrary: k acc)
  case (Cons l ls)
  then obtain mid where "parse_event ag sel m r ts (k, l) acc = Inr mid"
    "foldR (parse_event ag sel m r ts) (enumerate (Suc k) ls) mid = Inr out"
    by (auto simp: rbind_Inr_iff)
  with parse_event_step [OF this(1)] Cons.IH [OF this(2)] show ?case by auto
qed simp

lemma parse_events_step:
  "parse_events ag sel (i, r) acc = Inr out \<Longrightarrow>
   map ce_id (chaosEventDetails out) = map ce_id (chaosEventDetails acc) @ event_legends r
    \<and> (map metricName (chaosData acc) = plotted sel (chaosEventDetails acc)
        \<longrightarrow> map metricName (chaosData out) = plotted sel (chaosEventDetails out))"
  by (auto simp: parse_events_def event_legends_def dest: parse_event_loop split: option.splits)

theorem event_parser_one_detail_per_legend:
  assumes "ChaosEventDataParserForPrometheus events ag sel = Inr p"
  shows "map ce_id (chaosEventDetails p) = concat (map event_legends events)
    \<and> map metricName (chaosData p) = plotted sel (chaosEventDetails p)"
proof -
  have "foldR (parse_events ag sel) (enumerate k events) acc = Inr p \<Longrightarrow>
     map ce_id (chaosEventDetails p) = map ce_id (chaosEventDetails acc) @ concat (map event_legends events)
    \<and> (map metricName (chaosData acc) = plotted sel (chaosEventDetails acc)
        \<longrightarrow> map metricName (chaosData p) = plotted sel (chaosEventDetails p))" for k acc
  proof (induction events arbitrary: k acc)
    case (Cons r rs)
    then obtain mid where "parse_events ag sel (k, r) acc = Inr mid"
      "foldR (parse_events ag sel) (enumerate (Suc k) rs) mid = Inr p"
      by (auto simp: rbind_Inr_iff)
    with parse_events_step [OF this(1)] Cons.IH [OF this(2)] show ?case by auto
  qed simp
  from this [OF assms [unfolded ChaosEventDataParserForPrometheus_def]] show ?thesis
    by (simp add: plotted_def)
qed

text \<open>
  The array is reversed between the calls, so the engine context is the last entry of
  its name while the workflow and the verdict are the first of theirs.
\<close>

theorem event_details_first_and_last:
  "event_details elem color arr injected = \<lparr>ce_id = elem, legendColor = color, chaosResultName = elem,
     ce_workflow = first_value arr ''Workflow'', engineContext = first_value (rev arr) ''Engine context'',
     verdict = (if injected then first_value arr ''Experiment verdict'' else ''Failed to Inject''),
     injectionFailed = \<not> injected\<rparr>"
  by (rule event_details_eq)

end
