(* ===== verification/PromLabels.thy ===== *)
theory PromLabels
  imports JsString
begin

text \<open>
  \<open>utils/promUtils.ts\<close>, third part: reading and editing the label matchers of a
  Prometheus query, as the query editor does. A query is text such as
  \<open>up{job=~"api|db",ns="x"}\<close>; a label with its values is a \<open>QueryLabelValue\<close>.
\<close>

record QueryLabelValue =
  label :: string
  ql_value :: "string list"

definition labelMatchOperators :: "string list" where
  "labelMatchOperators = [''=='', ''!='', ''<='', ''<'', ''>='', ''>'', ''=~'', ''!~'', ''='']"

definition replaceBetween :: "string \<Rightarrow> int \<Rightarrow> int \<Rightarrow> string \<Rightarrow> string" where
  "replaceBetween origin startIndex endIndex insertion =
     js_substring origin 0 startIndex @ insertion @ js_substring_from origin endIndex"

text \<open>The first match of \<open>/o(.*?)c/\<close>: the shortest text from an opening character to a
  closing one, with no line end between; without one, the next opening is tried.\<close>

definition newline :: "char \<Rightarrow> bool" where
  "newline c = (c = CHR 0x0A \<or> c = CHR 0x0D)"

fun match_between :: "char \<Rightarrow> char \<Rightarrow> string \<Rightarrow> string option" where
  "match_between op cl [] = None"
| "match_between op cl (c # s) =
     (if c = op
      then (let body = takeWhile (\<lambda>d. d \<noteq> cl \<and> \<not> newline d) s; rest = dropWhile (\<lambda>d. d \<noteq> cl \<and> \<not> newline d) s
            in if rest \<noteq> [] \<and> hd rest = cl then Some (op # body @ [cl]) else match_between op cl s)
      else match_between op cl s)"

definition strip_ends :: "string \<Rightarrow> string" where
  "strip_ends s = js_substring s 1 (int (length s) - 1)"

definition split_operator :: "string \<Rightarrow> string" where
  "split_operator s = (case find (\<lambda>val. js_index_of s val \<noteq> - 1) labelMatchOperators of
      None \<Rightarrow> '''' | Some val \<Rightarrow> val)"

text \<open>The text of one matcher without the bracket of the first and the last one.\<close>

definition adjusted_label_value :: "nat \<Rightarrow> nat \<Rightarrow> string \<Rightarrow> string" where
  "adjusted_label_value n index labelValue =
     (let a = (if index = 0 then js_substring labelValue 1 (int (length labelValue)) else labelValue)
      in if index = n - 1 then js_substring a 0 (int (length labelValue) - 2) else a)"

definition add_label :: "string \<Rightarrow> string list \<Rightarrow> QueryLabelValue list \<Rightarrow> QueryLabelValue list" where
  "add_label l vs acc =
     (if l \<in> label ` set acc
      then map (\<lambda>lv. if label lv = l then lv \<lparr>ql_value := ql_value lv @ vs\<rparr> else lv) acc
      else acc @ [\<lparr>label = l, ql_value = vs\<rparr>])"

definition read_label :: "nat \<Rightarrow> nat \<times> string \<Rightarrow> QueryLabelValue list \<Rightarrow> QueryLabelValue list" where
  "read_label n x acc = (case x of (index, labelValue) \<Rightarrow>
     let a = adjusted_label_value n index labelValue;
         labelAndValue = js_split (js_trim a) (split_operator a)
     in if 1 < length labelAndValue \<and> labelAndValue ! 1 \<noteq> ''''
        then (case match_between CHR 0x22 CHR 0x22 (labelAndValue ! 1) of
                None \<Rightarrow> acc
              | Some m \<Rightarrow> add_label (labelAndValue ! 0) (js_split (strip_ends m) ''|'') acc)
        else acc)"

definition getLabelsAndValues :: "string \<Rightarrow> QueryLabelValue list" where
  "getLabelsAndValues queryString = (case match_between CHR ''{'' CHR ''}'' queryString of
      None \<Rightarrow> []
    | Some m \<Rightarrow> (let parts = js_split m '','' in
        fold (read_label (length parts)) (enumerate 0 parts) []))"

definition quote_values :: "string list \<Rightarrow> string" where
  "quote_values vs = [CHR 0x22] @ js_join ''|'' vs @ [CHR 0x22]"

text \<open>An absent label is written behind the metric or as the first matcher.\<close>

definition insert_label :: "string \<Rightarrow> string \<Rightarrow> QueryLabelValue \<Rightarrow> string \<Rightarrow> int \<Rightarrow> string" where
  "insert_label base queryString lv q bracket =
     (if bracket = - 1
      then (let i = js_index_of queryString base + int (length base) - 1 in
            js_slice q 0 (i + 1) @ ''{'' @ label lv @ ''=~'' @ quote_values (ql_value lv) @ ''}''
              @ js_slice q (i + 1) (int (length q)))
      else js_slice q 0 (bracket + 1) @ label lv @ ''=~'' @ quote_values (ql_value lv) @ '',''
             @ js_slice q (bracket + 1) (int (length q)))"

text \<open>A present label gets its values replaced, or goes with them when there are none.\<close>

definition replace_label :: "QueryLabelValue \<Rightarrow> string \<Rightarrow> int \<Rightarrow> string" where
  "replace_label lv q labelIndex =
     (let opr = js_index_from q [CHR 0x22] labelIndex;
          val = js_index_from q [CHR 0x22] (opr + 1);
          sub = js_substring q opr (val + 1)
      in if opr \<noteq> - 1 \<and> val \<noteq> - 1
         then (if ql_value lv \<noteq> []
               then replaceBetween (js_replace q sub (quote_values (ql_value lv)))
                      (labelIndex + int (length (label lv))) opr ''=~''
               else (let grace = (if (js_char_at q (val + 1) = ''}'' \<or> js_char_at q (val + 2) = ''}'')
                                     \<and> js_char_at q (labelIndex - 1) = ''{'' then 1 else 0)
                     in js_replace q (js_substring q (labelIndex - grace)
                          (if js_char_at q (val + 1) = '','' then val + 2 + grace else val + 1 + grace)) ''''))
         else q)"

definition set_label :: "string \<Rightarrow> string \<Rightarrow> QueryLabelValue \<Rightarrow> string \<Rightarrow> string" where
  "set_label base queryString lv q =
     (let bracket = js_index_of q ''{'';
          labelIndex = (if bracket \<noteq> - 1 then js_index_from q (label lv) bracket else - 1)
      in if labelIndex = - 1 then insert_label base queryString lv q bracket
         else replace_label lv q labelIndex)"

definition setLabelsAndValues :: "string \<Rightarrow> string \<Rightarrow> QueryLabelValue list \<Rightarrow> string" where
  "setLabelsAndValues baseQueryString queryString labelValuesList =
     fold (set_label baseQueryString queryString) labelValuesList queryString"

section \<open>Reading the matchers of a plain query\<close>

definition special_chars :: "char set" where
  "special_chars = {CHR ''{'', CHR ''}'', CHR '','', CHR 0x22, CHR ''|'', CHR ''='', CHR ''!'',
     CHR ''<'', CHR ''>'', CHR ''~'', CHR ''$'', CHR '' '', CHR 0x09, CHR 0x0A, CHR 0x0B, CHR 0x0C, CHR 0x0D}"

definition plain :: "string \<Rightarrow> bool" where
  "plain s \<longleftrightarrow> s \<noteq> '''' \<and> set s \<inter> special_chars = {}"

definition plain_label :: "QueryLabelValue \<Rightarrow> bool" where
  "plain_label lv \<longleftrightarrow> plain (label lv) \<and> ql_value lv \<noteq> [] \<and> (\<forall>v \<in> set (ql_value lv). plain v)"

definition render_label :: "QueryLabelValue \<Rightarrow> string" where
  "render_label lv = label lv @ ''=~'' @ quote_values (ql_value lv)"

lemma plain_char: "plain s \<Longrightarrow> c \<in> set s \<Longrightarrow> c \<notin> special_chars"
  by (auto simp: plain_def)

lemma joined_values_chars:
  assumes "plain_label lv" and "c \<in> set (js_join ''|'' (ql_value lv))"
  shows "c = CHR ''|'' \<or> c \<notin> special_chars"
proof -
  have "c \<in> set ''|'' \<union> (\<Union>x \<in> set (ql_value lv). set x)" using assms(2) set_js_join by blast
  then show ?thesis using assms(1) by (auto simp: plain_label_def plain_def)
qed

lemma match_between_found:
  assumes "op \<notin> set pre" and "\<And>d. d \<in> set body \<Longrightarrow> d \<noteq> cl \<and> \<not> newline d"
  shows "match_between op cl (pre @ op # body @ cl # rest) = Some (op # body @ [cl])"
  using assms(1)
proof (induction pre)
  case Nil
  have "takeWhile (\<lambda>d. d \<noteq> cl \<and> \<not> newline d) (body @ cl # rest) = body"
    and "dropWhile (\<lambda>d. d \<noteq> cl \<and> \<not> newline d) (body @ cl # rest) = cl # rest"
    using assms(2) by (simp_all add: takeWhile_append2 dropWhile_append2)
  then show ?case by simp
next
  case (Cons a pre)
  then have "a \<noteq> op" by auto
  with Cons show ?case by simp
qed

lemma hd_dropWhile_in: "dropWhile P s \<noteq> [] \<Longrightarrow> hd (dropWhile P s) \<in> set s"
  by (metis hd_in_set set_dropWhileD)

lemma match_between_no_close: "cl \<notin> set s \<Longrightarrow> match_between op cl s = None"
proof (induction s)
  case (Cons c s)
  let ?d = "dropWhile (\<lambda>d. d \<noteq> cl \<and> \<not> newline d) s"
  have "\<not> (?d \<noteq> [] \<and> hd ?d = cl)"
    using hd_dropWhile_in [of "\<lambda>d. d \<noteq> cl \<and> \<not> newline d" s] Cons.prems by force
  with Cons show ?case by (simp only: match_between.simps Let_def if_False) simp
qed simp

lemma match_between_one_quote: "CHR 0x22 \<notin> set s \<Longrightarrow> match_between CHR 0x22 CHR 0x22 (CHR 0x22 # s) = None"
proof -
  assume q: "CHR 0x22 \<notin> set s"
  let ?d = "dropWhile (\<lambda>d. d \<noteq> CHR 0x22 \<and> \<not> newline d) s"
  have "\<not> (?d \<noteq> [] \<and> hd ?d = CHR 0x22)"
    using hd_dropWhile_in [of "\<lambda>d. d \<noteq> CHR 0x22 \<and> \<not> newline d" s] q by force
  then show ?thesis
    by (simp only: match_between.simps Let_def if_False match_between_no_close [OF q]) simp
qed

lemma no_sub_by_char: "c \<in> set p \<Longrightarrow> c \<notin> set s \<Longrightarrow> js_index_of s p = - 1"
proof -
  assume "c \<in> set p" "c \<notin> set s"
  then have "\<not> sublist p s" by (auto dest: set_mono_sublist)
  then show ?thesis by (simp add: js_index_of_def find_sub_None [symmetric])
qed

lemma find_sub_eq_tilde:
  "CHR ''='' \<notin> set l \<Longrightarrow> find_sub ''=~'' (l @ CHR ''='' # CHR ''~'' # t) = Some (length l)"
  by (induction l) auto

lemma find_sub_eq_eq:
  "CHR ''='' \<notin> set l \<Longrightarrow> CHR ''='' \<notin> set t \<Longrightarrow> find_sub ''=='' (l @ CHR ''='' # CHR ''~'' # t) = None"
proof (induction l)
  case Nil
  then have "find_sub ''=='' t = None" by (auto simp: find_sub_None dest: set_mono_sublist)
  then show ?case by simp
qed simp

text \<open>A matcher \<open>l=~t\<close> whose parts hold no operator splits at its operator.\<close>

lemma split_matcher:
  assumes l: "plain l" and t: "set t \<inter> {CHR ''='', CHR ''!'', CHR ''<'', CHR ''>''} = {}"
  shows "js_split (l @ ''=~'' @ t) (split_operator (l @ ''=~'' @ t)) = [l, t]"
proof -
  let ?r = "l @ ''=~'' @ t"
  have lc: "c \<notin> set l" if "c \<in> special_chars" for c using l that by (auto simp: plain_def)
  have no: "c \<notin> set ?r" if "c \<in> {CHR ''!'', CHR ''<'', CHR ''>''}" for c
    using that t lc [of c] by (auto simp: special_chars_def)
  have eq: "CHR ''='' \<notin> set l" "CHR ''='' \<notin> set t" using lc t by (auto simp: special_chars_def)
  have by_char: "js_index_of ?r p = - 1" if "c \<in> set p" "c \<in> {CHR ''!'', CHR ''<'', CHR ''>''}" for p c
    using no_sub_by_char [OF that(1) no [OF that(2)]] .
  have "js_index_of ?r ''!='' = - 1" by (rule by_char [of "CHR ''!''"]) simp_all
  moreover have "js_index_of ?r p = - 1" if "p \<in> {''<='', ''<''}" for p
    by (rule by_char [of "CHR ''<''"]) (use that in auto)
  moreover have "js_index_of ?r p = - 1" if "p \<in> {''>='', ''>''}" for p
    by (rule by_char [of "CHR ''>''"]) (use that in auto)
  moreover have "js_index_of ?r ''=='' = - 1" "js_index_of ?r ''=~'' = int (length l)"
    using find_sub_eq_eq [OF eq] find_sub_eq_tilde [OF eq(1)] by (simp_all add: js_index_of_def)
  ultimately have "split_operator ?r = ''=~''"
    by (simp add: split_operator_def labelMatchOperators_def del: append.simps)
  moreover have "split_on ''=~'' ?r = l # split_on ''=~'' t"
    using find_sub_eq_tilde [OF eq(1), of t] by (subst split_on.simps) simp
  moreover have "find_sub ''=~'' t = None" using eq(2) by (auto simp: find_sub_None dest: set_mono_sublist)
  then have "split_on ''=~'' t = [t]" by (rule split_on_absent)
  ultimately show ?thesis by (simp add: js_split_def)
qed

lemma js_trim_matcher:
  assumes "plain l" and "t \<noteq> []" and "\<not> js_space (last t)"
  shows "js_trim (l @ ''=~'' @ t) = l @ ''=~'' @ t"
proof -
  have "hd l \<notin> special_chars" using assms(1) by (cases l) (auto simp: plain_def)
  then have "\<not> js_space (hd l)" by (auto simp: js_space_def special_chars_def)
  moreover have "l \<noteq> []" using assms(1) by (simp add: plain_def)
  ultimately show ?thesis using assms(2,3) by (intro js_trim_tight) auto
qed

lemma js_substring_range:
  assumes "a \<le> b" and "b \<le> length s"
  shows "js_substring s (int a) (int b) = take (b - a) (drop a s)"
proof -
  have "clampn (length s) (int a) = a" "clampn (length s) (int b) = b"
    using assms by (simp_all add: clampn_def)
  then show ?thesis using assms(1) by (simp add: js_substring_def max.absorb2 min.absorb1)
qed

lemma strip_ends_quoted: "strip_ends (c # s @ [d]) = s"
  using js_substring_range [of 1 "Suc (length s)" "c # s @ [d]"] by (simp add: strip_ends_def)

lemma quoted_values:
  assumes "plain_label lv"
  shows "match_between CHR 0x22 CHR 0x22 (quote_values (ql_value lv)) = Some (quote_values (ql_value lv))"
    and "js_split (strip_ends (quote_values (ql_value lv))) ''|'' = ql_value lv"
    and "match_between CHR 0x22 CHR 0x22 (CHR 0x22 # js_join ''|'' (ql_value lv)) = None"
proof -
  let ?j = "js_join ''|'' (ql_value lv)"
  have j: "d \<noteq> CHR 0x22 \<and> \<not> newline d" if "d \<in> set ?j" for d
    using joined_values_chars [OF assms that] by (auto simp: special_chars_def newline_def)
  show "match_between CHR 0x22 CHR 0x22 (quote_values (ql_value lv)) = Some (quote_values (ql_value lv))"
    using match_between_found [of "CHR 0x22" "[]" ?j "CHR 0x22" "[]"] j by (simp add: quote_values_def)
  have "CHR 0x22 \<notin> set ?j" using j by blast
  then show "match_between CHR 0x22 CHR 0x22 (CHR 0x22 # ?j) = None" by (rule match_between_one_quote)
  have "split_on ''|'' ?j = ql_value lv"
  proof (rule split_join_char)
    show "ql_value lv \<noteq> []" using assms by (simp add: plain_label_def)
    fix x assume "x \<in> set (ql_value lv)"
    then have "plain x" using assms by (simp add: plain_label_def)
    then show "CHR ''|'' \<notin> set x" by (auto simp: plain_def special_chars_def)
  qed
  then show "js_split (strip_ends (quote_values (ql_value lv))) ''|'' = ql_value lv"
    by (simp add: quote_values_def strip_ends_quoted js_split_def)
qed

lemma joined_no_operator:
  assumes "plain_label lv"
  shows "set (CHR 0x22 # js_join ''|'' (ql_value lv)) \<inter> {CHR ''='', CHR ''!'', CHR ''<'', CHR ''>''} = {}"
    and "set (quote_values (ql_value lv)) \<inter> {CHR ''='', CHR ''!'', CHR ''<'', CHR ''>''} = {}"
  using joined_values_chars [OF assms] by (auto simp: special_chars_def quote_values_def)

lemma joined_last:
  assumes "plain_label lv" shows "js_join ''|'' (ql_value lv) \<noteq> ''''"
    and "\<not> js_space (last (js_join ''|'' (ql_value lv)))"
proof -
  obtain v vs where v: "ql_value lv = v # vs" "plain v" using assms by (auto simp: plain_label_def neq_Nil_conv)
  then show ne: "js_join ''|'' (ql_value lv) \<noteq> ''''" by (cases vs) (auto simp: plain_def)
  show "\<not> js_space (last (js_join ''|'' (ql_value lv)))"
    using joined_values_chars [OF assms last_in_set [OF ne]] by (auto simp: special_chars_def js_space_def)
qed

lemma read_label_added:
  assumes lv: "plain_label lv" and a: "adjusted_label_value n i p = render_label lv"
  shows "read_label n (i, p) acc = add_label (label lv) (ql_value lv) acc"
proof -
  have l: "plain (label lv)" using lv by (simp add: plain_label_def)
  have "js_trim (render_label lv) = render_label lv"
    unfolding render_label_def by (rule js_trim_matcher [OF l]) (simp_all add: quote_values_def js_space_def)
  moreover have "js_split (render_label lv) (split_operator (render_label lv)) = [label lv, quote_values (ql_value lv)]"
    unfolding render_label_def by (rule split_matcher [OF l joined_no_operator(2) [OF lv]])
  moreover have "quote_values (ql_value lv) \<noteq> ''''" by (simp add: quote_values_def)
  ultimately show ?thesis using quoted_values [OF lv] by (simp add: read_label_def a Let_def)
qed

lemma read_label_unclosed:
  assumes lv: "plain_label lv"
    and a: "adjusted_label_value n i p = label lv @ ''=~'' @ CHR 0x22 # js_join ''|'' (ql_value lv)"
  shows "read_label n (i, p) acc = acc"
proof -
  let ?t = "CHR 0x22 # js_join ''|'' (ql_value lv)"
  have l: "plain (label lv)" using lv by (simp add: plain_label_def)
  have "js_trim (label lv @ ''=~'' @ ?t) = label lv @ ''=~'' @ ?t"
    using joined_last [OF lv] by (intro js_trim_matcher [OF l]) simp_all
  moreover have "js_split (label lv @ ''=~'' @ ?t) (split_operator (label lv @ ''=~'' @ ?t)) = [label lv, ?t]"
    by (rule split_matcher [OF l joined_no_operator(1) [OF lv]])
  ultimately show ?thesis using quoted_values(3) [OF lv] by (simp add: read_label_def a Let_def)
qed

text \<open>Reading the leading matchers collects them; the brackets stand at both ends.\<close>

lemma fold_add_label:
  "distinct (map label ms) \<Longrightarrow> label ` set acc \<inter> label ` set ms = {} \<Longrightarrow>
   fold (\<lambda>lv. add_label (label lv) (ql_value lv)) ms acc = acc @ ms"
  by (induction ms arbitrary: acc) (auto simp: add_label_def)

lemma fold_read_labels:
  assumes "\<And>i lv. i < length ps \<Longrightarrow> adjusted_label_value n (k + i) (ps ! i) = render_label (ms ! i)"
    and "length ms = length ps" and "\<And>lv. lv \<in> set ms \<Longrightarrow> plain_label lv"
  shows "fold (read_label n) (enumerate k ps) acc = fold (\<lambda>lv. add_label (label lv) (ql_value lv)) ms acc"
  using assms
proof (induction ps arbitrary: k ms acc)
  case (Cons p ps)
  obtain m ms' where ms: "ms = m # ms'" using Cons.prems(2) by (cases ms) auto
  have "adjusted_label_value n k p = render_label m" using Cons.prems(1) [of 0] ms by simp
  then have "read_label n (k, p) acc = add_label (label m) (ql_value m) acc"
    using Cons.prems(3) ms by (intro read_label_added) auto
  moreover have "adjusted_label_value n (Suc k + i) (ps ! i) = render_label (ms' ! i)" if "i < length ps" for i
    using Cons.prems(1) [of "Suc i"] that ms by simp
  ultimately show ?case using Cons.IH [of "Suc k" ms'] Cons.prems ms by simp
qed simp

lemma adjusted_inner: "i \<noteq> 0 \<Longrightarrow> i \<noteq> n - 1 \<Longrightarrow> adjusted_label_value n i p = p"
  by (simp add: adjusted_label_value_def)

lemma substring_tail: "js_substring (c # p) 1 (int (length (c # p))) = p"
  using js_substring_range [of 1 "length (c # p)" "c # p"] by simp

lemma adjusted_first: "n > 1 \<Longrightarrow> adjusted_label_value n 0 (CHR ''{'' # p) = p"
  using substring_tail [of "CHR ''{''" p] by (simp add: adjusted_label_value_def)

lemma adjusted_single: "adjusted_label_value 1 0 (CHR ''{'' # p @ ''}'') = p"
proof -
  have "js_substring (p @ ''}'') 0 (int (length p)) = p"
    using js_substring_range [of 0 "length p" "p @ ''}''"] by simp
  then show ?thesis using substring_tail [of "CHR ''{''" "p @ ''}''"] by (simp add: adjusted_label_value_def)
qed

lemma adjusted_last:
  assumes "n > 1" shows "adjusted_label_value n (n - 1) (p @ [c] @ ''}'') = p"
proof -
  have "js_substring (p @ [c] @ ''}'') 0 (int (length p)) = p"
    using js_substring_range [of 0 "length p" "p @ [c] @ ''}''"] by simp
  then show ?thesis using assms by (simp add: adjusted_label_value_def)
qed

lemma js_join_snoc: "js_join sep (xs @ [x @ y]) = js_join sep (xs @ [x]) @ y"
proof (induction xs)
  case (Cons a xs)
  then show ?case by (cases "xs @ [x]"; cases "xs @ [x @ y]") auto
qed simp

lemma js_join_prefix: "js_join sep ((x @ y) # ys) = x @ js_join sep (y # ys)"
  by (cases ys) auto

lemma render_label_chars:
  assumes "plain_label lv" and "c \<in> set (render_label lv)"
  shows "c \<notin> {CHR ''{'', CHR ''}'', CHR '','', CHR 0x0A, CHR 0x0D}" (is "c \<notin> ?B")
proof
  assume b: "c \<in> ?B"
  then have s: "c \<in> special_chars" by (elim insertE) (simp_all add: special_chars_def)
  from b have n: "c \<notin> {CHR ''='', CHR ''~'', CHR 0x22, CHR ''|''}" by (elim insertE) simp_all
  have "c \<in> set (label lv) \<or> c \<in> {CHR ''='', CHR ''~'', CHR 0x22} \<or> c \<in> set (js_join ''|'' (ql_value lv))"
    using assms(2) by (simp add: render_label_def quote_values_def) blast
  moreover have "c \<notin> set (label lv)"
    using assms(1) s by (auto simp: plain_label_def plain_def)
  moreover have "c \<notin> set (js_join ''|'' (ql_value lv))"
    using joined_values_chars [OF assms(1), of c] s n by blast
  ultimately show False using n by blast
qed

definition render_labels :: "QueryLabelValue list \<Rightarrow> string" where
  "render_labels ms = CHR ''{'' # js_join '','' (map render_label ms) @ ''}''"

lemma rendered_chars:
  assumes "\<And>m. m \<in> set ms \<Longrightarrow> plain_label m" and "c \<in> set (js_join '','' (map render_label ms))"
  shows "c \<noteq> CHR ''}'' \<and> \<not> newline c"
proof -
  have "c \<in> set '','' \<union> (\<Union>x \<in> set (map render_label ms). set x)" using assms(2) set_js_join by blast
  then show ?thesis using render_label_chars [OF assms(1), of _ c] by (auto simp: newline_def)
qed

text \<open>The comma-separated parts of the matched text, brackets included.\<close>

definition bracket_parts :: "string list \<Rightarrow> string list" where
  "bracket_parts rs = (case rs of [] \<Rightarrow> [] | r # rs' \<Rightarrow>
     (let ps = (CHR ''{'' # r) # rs' in butlast ps @ [last ps @ ''}'']))"

lemma split_render_labels:
  assumes "rs \<noteq> []" and "\<And>r. r \<in> set rs \<Longrightarrow> CHR '','' \<notin> set r"
  shows "split_on '','' (CHR ''{'' # js_join '','' rs @ ''}'') = bracket_parts rs"
proof -
  obtain r rs' where rs: "rs = r # rs'" using assms(1) by (cases rs) auto
  let ?ps = "(CHR ''{'' # r) # rs'"
  have "js_join '','' (bracket_parts rs) = js_join '','' ?ps @ ''}''"
    using js_join_snoc [of "'',''" "butlast ?ps" "last ?ps" "''}''"] append_butlast_last_id [of ?ps]
    by (simp add: bracket_parts_def rs Let_def)
  also have "js_join '','' ?ps = CHR ''{'' # js_join '','' rs"
    using js_join_prefix [of "'',''" "''{''" r rs'] by (simp add: rs)
  finally have "CHR ''{'' # js_join '','' rs @ ''}'' = js_join '','' (bracket_parts rs)" by simp
  moreover have "CHR '','' \<notin> set x" if "x \<in> set (bracket_parts rs)" for x
  proof -
    have "x \<in> set ?ps \<or> x = last ?ps @ ''}''"
      using that in_set_butlastD [of x ?ps] by (auto simp: bracket_parts_def rs Let_def)
    moreover have p: "CHR '','' \<notin> set y" if "y \<in> set ?ps" for y using that assms(2) rs by auto
    have "CHR '','' \<notin> set (last ?ps @ ''}'')" using p [OF last_in_set] by simp
    ultimately show ?thesis using p by blast
  qed
  moreover have "bracket_parts rs \<noteq> []" by (simp add: bracket_parts_def rs Let_def)
  ultimately show ?thesis using split_join_char [of "bracket_parts rs" "CHR '',''"] by simp
qed

lemma render_label_snoc:
  "render_label lv = label lv @ ''=~'' @ CHR 0x22 # js_join ''|'' (ql_value lv) @ [CHR 0x22]"
  by (simp add: render_label_def quote_values_def)

lemma read_parts:
  assumes ms: "ms \<noteq> []" "\<And>m. m \<in> set ms \<Longrightarrow> plain_label m" "distinct (map label ms)"
  defines "ps \<equiv> bracket_parts (map render_label ms)"
  shows "fold (read_label (length ps)) (enumerate 0 ps) [] = (if length ms = 1 then ms else butlast ms)"
proof (cases "length ms = 1")
  case True
  then obtain m where m: "ms = [m]" by (cases ms) auto
  have "ps = [CHR ''{'' # render_label m @ ''}'']" by (simp add: ps_def bracket_parts_def m Let_def)
  then show ?thesis using read_label_added [of m 1 0, OF _ adjusted_single] ms(2) m
    by (simp add: add_label_def)
next
  case False
  then obtain m ms' mn where m: "ms = m # ms' @ [mn]"
    using ms(1) by (cases ms; cases "tl ms" rule: rev_cases) auto
  let ?n = "length ms"
  let ?inner = "(CHR ''{'' # render_label m) # map render_label ms'"
  have ps: "ps = ?inner @ [render_label mn @ ''}'']" by (simp add: ps_def bracket_parts_def m Let_def)
  have n: "length ps = ?n" by (simp add: ps m)
  have "fold (read_label ?n) (enumerate 0 ?inner) [] =
      fold (\<lambda>lv. add_label (label lv) (ql_value lv)) (m # ms') []"
  proof (rule fold_read_labels)
    fix i assume i: "i < length ?inner"
    show "adjusted_label_value ?n (0 + i) (?inner ! i) = render_label ((m # ms') ! i)"
    proof (cases i)
      case 0
      then show ?thesis using adjusted_first [of ?n] m by simp
    next
      case (Suc j)
      with i show ?thesis using adjusted_inner [of i ?n] m by simp
    qed
  qed (use ms m in auto)
  also have "\<dots> = m # ms'" using fold_add_label [of "m # ms'" "[]"] ms(3) m by simp
  finally have "fold (read_label ?n) (enumerate 0 ?inner) [] = m # ms'" .
  moreover have "read_label ?n (?n - 1, render_label mn @ ''}'') acc = acc" for acc
    using adjusted_last [of ?n "label mn @ ''=~'' @ CHR 0x22 # js_join ''|'' (ql_value mn)" "CHR 0x22"] ms(2) m
    by (intro read_label_unclosed [of mn]) (simp_all add: render_label_snoc)
  ultimately show ?thesis using n m by (simp add: ps enumerate_append_eq)
qed

theorem getLabelsAndValues_drops_last:
  assumes "CHR ''{'' \<notin> set base" and "ms \<noteq> []" and "distinct (map label ms)"
    and "\<And>m. m \<in> set ms \<Longrightarrow> plain_label m"
  shows "getLabelsAndValues (base @ render_labels ms @ rest) = (if length ms = 1 then ms else butlast ms)"
proof -
  have "match_between CHR ''{'' CHR ''}'' (base @ render_labels ms @ rest) = Some (render_labels ms)"
    using match_between_found [OF assms(1), of "js_join '','' (map render_label ms)" "CHR ''}''" rest]
      rendered_chars [OF assms(4)]
    by (simp add: render_labels_def)
  moreover have "js_split (render_labels ms) '','' = bracket_parts (map render_label ms)"
  proof -
    have "CHR '','' \<notin> set r" if "r \<in> set (map render_label ms)" for r
      using that render_label_chars [OF assms(4)] by fastforce
    then show ?thesis using assms(2) split_render_labels [of "map render_label ms"]
      by (simp add: js_split_def render_labels_def)
  qed
  ultimately show ?thesis using read_parts [OF assms(2,4,3)] by (simp add: getLabelsAndValues_def Let_def)
qed

section \<open>Writing a label\<close>

lemma insert_label_plain_query:
  assumes "CHR ''{'' \<notin> set base" and "base \<noteq> ''''"
  shows "setLabelsAndValues base base [lv] = base @ render_labels [lv]"
proof -
  have b: "js_index_of base ''{'' = - 1" using assms(1) by (rule no_sub_by_char [rotated]) simp
  have "find_sub base base = Some 0" using assms(2) by (cases base) auto
  then have i: "js_index_of base base = 0" by (simp add: js_index_of_def)
  show ?thesis using assms(2)
    by (simp add: setLabelsAndValues_def set_label_def Let_def b insert_label_def i
        js_slice_def slice_end_def render_labels_def render_label_def)
qed

theorem set_then_get_label:
  assumes "CHR ''{'' \<notin> set base" and "base \<noteq> ''''" and "plain_label lv"
  shows "getLabelsAndValues (setLabelsAndValues base base [lv]) = [lv]"
  using getLabelsAndValues_drops_last [OF assms(1), of "[lv]" "''''"] assms
  by (simp add: insert_label_plain_query)

text \<open>With a second label in front, the first one is no longer read back.\<close>

lemma insert_label_front:
  assumes base: "CHR ''{'' \<notin> set base" "base \<noteq> ''''"
    and absent: "find_sub (label lv) (render_labels ms) = None" and "ms \<noteq> []"
  shows "set_label base q lv (base @ render_labels ms) = base @ render_labels (lv # ms)"
proof -
  obtain m ms' where ms: "ms = m # ms'" using assms(4) by (cases ms) auto
  have "find_sub ''{'' (base @ CHR ''{'' # t) = Some (length base)" for t
    using find_sub_char_append base(1) by simp
  then have b: "js_index_of (base @ render_labels ms) ''{'' = int (length base)"
    by (simp add: js_index_of_def render_labels_def)
  have l: "js_index_from (base @ render_labels ms) (label lv) (int (length base)) = - 1"
    using absent by (simp add: js_index_from_def)
  have "js_slice (base @ render_labels ms) 0 (int (length base) + 1) = base @ ''{''"
    and "js_slice (base @ render_labels ms) (int (length base) + 1) (int (length (base @ render_labels ms)))
      = js_join '','' (map render_label ms) @ ''}''"
    by (simp_all add: js_slice_def slice_end_def render_labels_def nat_add_distrib Let_def)
  moreover have "set_label base q lv (base @ render_labels ms) =
      insert_label base q lv (base @ render_labels ms) (int (length base))"
    unfolding set_label_def Let_def b using l by simp
  ultimately show ?thesis
    by (simp add: insert_label_def) (simp add: render_labels_def render_label_def ms)
qed

theorem second_label_hides_the_first:
  assumes "CHR ''{'' \<notin> set base" and "base \<noteq> ''''" and "plain_label lv" and "plain_label m"
    and "label lv \<noteq> label m" and "\<not> sublist (label lv) (render_labels [m])"
  shows "getLabelsAndValues (setLabelsAndValues base base [m, lv]) = [lv]"
proof -
  have "setLabelsAndValues base base [m, lv] = set_label base base lv (setLabelsAndValues base base [m])"
    by (simp add: setLabelsAndValues_def)
  also have "\<dots> = base @ render_labels [lv, m]"
    using insert_label_front [of base lv "[m]" base] assms by (simp add: insert_label_plain_query find_sub_None)
  finally show ?thesis
    using getLabelsAndValues_drops_last [of base "[lv, m]" "''''"] assms by auto
qed

section \<open>Changing the values of a label\<close>

lemma find_sub_behind: "c \<notin> set s \<Longrightarrow> find_sub (c # p) (s @ c # p @ t) = Some (length s)"
  by (induction s) (auto simp: prefix_def)

lemma js_replace_behind:
  "c \<notin> set s \<Longrightarrow> CHR ''$'' \<notin> set r \<Longrightarrow> js_replace (s @ (c # p) @ t) (c # p) r = s @ r @ t"
  using find_sub_behind [of c s p t] by (simp add: js_replace_def expand_repl_plain)

lemma js_index_from_char: "c \<notin> set t \<Longrightarrow> js_index_from (s @ t @ c # u) [c] (int (length s)) = int (length s + length t)"
  using find_sub_char_append [of c t u] by (simp add: js_index_from_def)

lemma js_substring_parts: "js_substring (s @ t @ u) (int (length s)) (int (length s) + int (length t)) = t"
  by (simp add: js_substring_def clampn_def nat_add_distrib Let_def)

lemma label_found:
  assumes "CHR ''{'' \<notin> set base" and "plain l"
  shows "js_index_of (base @ CHR ''{'' # l @ t) ''{'' = int (length base)"
    and "js_index_from (base @ CHR ''{'' # l @ t) l (int (length base)) = int (length base) + 1"
proof -
  show "js_index_of (base @ CHR ''{'' # l @ t) ''{'' = int (length base)"
    using find_sub_char_append [OF assms(1)] by (simp add: js_index_of_def)
  have "\<not> prefix l (CHR ''{'' # l @ t)" using assms(2) by (cases l) (auto simp: plain_def special_chars_def)
  moreover have "find_sub l (l @ t) = Some 0" using assms(2) by (cases l) (auto simp: plain_def)
  ultimately show "js_index_from (base @ CHR ''{'' # l @ t) l (int (length base)) = int (length base) + 1"
    by (simp add: js_index_from_def)
qed

lemma replaceBetween_same: "replaceBetween (s @ t @ u) (int (length s)) (int (length s) + int (length t)) t = s @ t @ u"
  using js_substring_take [of "s @ t @ u" "length s"] js_substring_from_drop [of "s @ t @ u" "length s + length t"]
  by (simp add: replaceBetween_def)

lemma replaced_label:
  assumes base: "CHR ''{'' \<notin> set base" "CHR 0x22 \<notin> set base"
    and old: "list_all plain (ql_value m)" and new: "plain (label lv)" "list_all plain (ql_value lv)" "label lv = label m"
  shows "set_label b q lv (base @ render_labels [m]) = (if ql_value lv = [] then base else base @ render_labels [lv])"
proof -
  let ?l = "label m" and ?V = "js_join ''|'' (ql_value m)" and ?N = "quote_values (ql_value lv)"
  let ?P = "base @ CHR ''{'' # ?l @ ''=~''"
  let ?Q = "base @ CHR ''{'' # ?l @ ''=~'' @ CHR 0x22 # ?V @ CHR 0x22 # ''}''"
  let ?i = "int (length base) + 1" and ?o = "int (length ?P)" and ?v = "int (length ?P + 1 + length ?V)"
  have q: "base @ render_labels [m] = ?Q" by (simp add: render_labels_def render_label_def quote_values_def)
  have l: "plain ?l" "CHR 0x22 \<notin> set ?l" using new(1,3) by (auto simp: plain_def special_chars_def)
  have V: "CHR 0x22 \<notin> set ?V"
    using old set_js_join [of "''|''" "ql_value m"] by (fastforce simp: list_all_iff plain_def special_chars_def)
  have N: "CHR ''$'' \<notin> set ?N"
    using new(2) set_js_join [of "''|''" "ql_value lv"] by (fastforce simp: quote_values_def list_all_iff plain_def special_chars_def)
  note found = label_found [OF base(1) l(1), of "''=~'' @ CHR 0x22 # ?V @ CHR 0x22 # ''}''"]
  have opr: "js_index_from ?Q [CHR 0x22] ?i = ?o"
    using js_index_from_char [of "CHR 0x22" "?l @ ''=~''" "base @ ''{''" "?V @ CHR 0x22 # ''}''"] l(2) by (simp add: add.commute)
  have val: "js_index_from ?Q [CHR 0x22] (?o + 1) = ?v"
    using js_index_from_char [of "CHR 0x22" ?V "?P @ [CHR 0x22]" "''}''"] V by (simp add: algebra_simps)
  have sub: "js_substring ?Q ?o (?v + 1) = CHR 0x22 # ?V @ [CHR 0x22]"
    using js_substring_parts [of ?P "CHR 0x22 # ?V @ [CHR 0x22]" "''}''"] by (simp add: algebra_simps)
  have quoted: "js_replace ?Q (CHR 0x22 # ?V @ [CHR 0x22]) ?N = ?P @ ?N @ ''}''"
    using js_replace_behind [OF _ N, of "CHR 0x22" ?P "?V @ [CHR 0x22]" "''}''"] base(2) l(2) by simp
  have sl: "set_label b q lv ?Q = replace_label lv ?Q ?i"
    using found new(3) by (simp add: set_label_def Let_def)
  show ?thesis
  proof (cases "ql_value lv = []")
    case False
    have "replaceBetween (?P @ ?N @ ''}'') (?i + int (length ?l)) ?o ''=~'' = ?P @ ?N @ ''}''"
      using replaceBetween_same [of "base @ CHR ''{'' # ?l" "''=~''" "?N @ ''}''"] by (simp add: algebra_simps)
    then show ?thesis unfolding q sl replace_label_def Let_def opr val sub quoted new(3)
      using False new(3) by (simp add: render_labels_def render_label_def)
  next
    case True
    have c: "js_char_at ?Q (?v + 1) = ''}''" "js_char_at ?Q (?i - 1) = ''{''"
      by (simp_all add: js_char_at_def nth_append nat_add_distrib algebra_simps)
    have "js_substring ?Q (?i - 1) (?v + 2) = CHR ''{'' # ?l @ ''=~'' @ CHR 0x22 # ?V @ CHR 0x22 # ''}''"
      using js_substring_parts [of base "CHR ''{'' # ?l @ ''=~'' @ CHR 0x22 # ?V @ CHR 0x22 # ''}''" "''''"] by (simp add: algebra_simps)
    moreover have "js_replace ?Q (CHR ''{'' # ?l @ ''=~'' @ CHR 0x22 # ?V @ CHR 0x22 # ''}'') '''' = base"
      using js_replace_behind [OF base(1), of "''''" "?l @ ''=~'' @ CHR 0x22 # ?V @ CHR 0x22 # ''}''" "''''"] by simp
    ultimately show ?thesis unfolding q sl replace_label_def Let_def opr val sub
      using True c by simp
  qed
qed

end
