(* ===== verification/PromWitness.thy ===== *)
theory PromWitness
  imports PromData PromLabels
begin

text \<open>Concrete dashboards, responses and queries on which the theorems about Prometheus
  data are applied.\<close>

definition sample_query :: PromQueryDetails where
  "sample_query = \<lparr>dq_queryID = ''q1'', promQueryName = ''up'', dq_legend = '''',
     dq_resolution = ''1/1'', dq_minstep = ''5'', closeArea = False\<rparr>"

definition sample_group :: PanelGroupResponse where
  "sample_group = \<lparr>pg_panelGroupID = ''g1'',
     panels = Some [Some \<lparr>pr_panelID = ''p1'', panelName = ''panel'', promQueries = Some [sample_query]\<rparr>]\<rparr>"


theorem event_step_points_witness:
  "(\<exists>n. event_step (Some 86400) = JNum n \<and> 0 < n \<and> points 86400 n \<le> PROMETHEUS_QUERY_RESOLUTION_LIMIT + 1)
    \<and> \<not> step_ok 11001 (event_step (Some 11001))"
  by (rule event_step_points) simp

theorem generatePromQueries_match_query_map_witness:
  "map pq_queryID (generatePromQueries \<lparr>startDate = '''', endDate = ''''\<rparr> [Some sample_group] ''e'' ''v'') =
    map_query_ids [\<lparr>qm_panelGroupID = ''g1'', panelQueryMap = [\<lparr>qm_panelID = ''p1'', queryIDs = [''q1'']\<rparr>]\<rparr>]
      @ [DEFAULT_CHAOS_EVENT_QUERY_ID, DEFAULT_CHAOS_VERDICT_QUERY_ID]"
  by (rule generatePromQueries_match_query_map)
     (simp_all add: getDashboardQueryMap_def query_map_group_def query_map_panel_def need_def
        sample_group_def sample_query_def)

definition sample_events :: "annotationsPromResponse option list" where
  "sample_events = [None, Some \<lparr>an_queryid = ''chaos-event'', an_legends = Some [''pod-delete'', ''cpu-hog''],
     an_tsvs = Some [Some [\<lparr>ts_date = 1, ts_value = JNum 1\<rparr>], None],
     subDataArray = [Some [\<lparr>sd_date = 1, sd_value = ''wf'', subDataName = ''Workflow''\<rparr>], Some []]\<rparr>]"

theorem event_parser_one_detail_per_legend_witness:
  "\<exists>p. ChaosEventDataParserForPrometheus sample_events [''red''] [] = Inr p
    \<and> map ce_id (chaosEventDetails p) = concat (map event_legends sample_events)
    \<and> map metricName (chaosData p) = plotted [] (chaosEventDetails p)"
proof -
  obtain p where p: "ChaosEventDataParserForPrometheus sample_events [''red''] [] = Inr p"
    by (simp add: ChaosEventDataParserForPrometheus_def sample_events_def parse_events_def
        parse_event_def opt_nth_def need_def Let_def)
  with event_parser_one_detail_per_legend [OF p] show ?thesis by blast
qed

lemma plain_samples:
  "plain_label \<lparr>label = ''job'', ql_value = [''api'', ''db'']\<rparr>"
  "plain_label \<lparr>label = ''ns'', ql_value = [''x'']\<rparr>"
  by (simp_all add: plain_label_def plain_def special_chars_def)

theorem getLabelsAndValues_drops_last_witness:
  "getLabelsAndValues (''up'' @ render_labels
      [\<lparr>label = ''job'', ql_value = [''api'', ''db'']\<rparr>, \<lparr>label = ''ns'', ql_value = [''x'']\<rparr>] @ '' > 1'')
    = [\<lparr>label = ''job'', ql_value = [''api'', ''db'']\<rparr>]"
  using getLabelsAndValues_drops_last [of "''up''"
      "[\<lparr>label = ''job'', ql_value = [''api'', ''db'']\<rparr>, \<lparr>label = ''ns'', ql_value = [''x'']\<rparr>]" "'' > 1''"]
    plain_samples by fastforce

theorem set_then_get_label_witness:
  "getLabelsAndValues (setLabelsAndValues ''up'' ''up'' [\<lparr>label = ''job'', ql_value = [''api'', ''db'']\<rparr>])
    = [\<lparr>label = ''job'', ql_value = [''api'', ''db'']\<rparr>]"
  by (rule set_then_get_label) (simp_all add: plain_samples)

theorem second_label_hides_the_first_witness:
  "getLabelsAndValues (setLabelsAndValues ''up'' ''up''
      [\<lparr>label = ''job'', ql_value = [''api'', ''db'']\<rparr>, \<lparr>label = ''ns'', ql_value = [''x'']\<rparr>])
    = [\<lparr>label = ''ns'', ql_value = [''x'']\<rparr>]"
  by (rule second_label_hides_the_first)
     (simp_all add: plain_samples render_labels_def render_label_def quote_values_def sublist_Cons_right)

end
