(* ===== verification/Store.thy ===== *)
theory Store
  imports JsString
begin

text \<open>
  The redux store: \<open>redux/reducers/*\<close>, \<open>redux/actions/*\<close> and the payload types of
  \<open>models/redux/*\<close>. A slice is a JavaScript object, since payloads are spread into it
  (the callers pass partial objects); an action is its type and payload. A handler may
  throw, and a dispatch that throws leaves the store as it was. Payloads that are
  spread are objects or nullish.
\<close>

record action =
  atype :: string
  payload :: js

type_synonym handler = "js \<Rightarrow> js \<Rightarrow> js result"

text \<open>\<open>handlers.hasOwnProperty(action.type)\<close>; an undefined state is the initial one.\<close>

definition createReducer :: "js \<Rightarrow> (string \<times> handler) list \<Rightarrow> js \<Rightarrow> action \<Rightarrow> js result" where
  "createReducer initialState handlers state act =
     (let s = (if state = JUndef then initialState else state) in
      case map_of handlers (atype act) of
        None \<Rightarrow> Inr s
      | Some h \<Rightarrow> h s (payload act))"

definition spread :: "js \<Rightarrow> (string \<times> js) list \<Rightarrow> js" where
  "spread s fs = JObj (spread_over (js_spread s) fs)"

text \<open>\<open>{...state, ...action.payload}\<close> and \<open>{...state, k: action.payload}\<close>.\<close>

definition merge_payload :: handler where
  "merge_payload s p = Inr (spread s (js_spread p))"

definition set_field :: "string \<Rightarrow> handler" where
  "set_field k s p = Inr (spread s [(k, p)])"

section \<open>Slices\<close>

definition alert_init :: js where
  "alert_init = JObj [(''isAlertOpen'', JBool False)]"

definition alert_handlers :: "(string \<times> handler) list" where
  "alert_handlers = [(''SET_ALERT_STATE'', set_field ''isAlertOpen'')]"

definition community_init :: js where
  "community_init = JObj
     [(''communityData'', JObj
        [(''github'', JObj [(''stars'', JStr ''''), (''experimentsCount'', JStr '''')]),
         (''google'', JObj [(''totalRuns'', JStr ''''), (''operatorInstalls'', JStr ''''),
            (''geoCity'', JArr []), (''geoCountry'', JArr []), (''dailyExperimentData'', JArr []),
            (''dailyOperatorData'', JArr []), (''monthlyExperimentData'', JArr []),
            (''monthlyOperatorData'', JArr [])])]),
      (''loading'', JBool False), (''error'', JBool False)]"

definition geo_city :: "js \<Rightarrow> js result" where
  "geo_city c = rbind (js_idx 0 c) (\<lambda>n. rbind (js_idx 1 c) (\<lambda>lat. rbind (js_idx 2 c) (\<lambda>lon.
     rbind (js_idx 3 c) (\<lambda>cnt. Inr (JObj [(''name'', n), (''latitude'', lat), (''longitude'', lon),
       (''count'', cnt)])))))"

definition series_point :: "js \<Rightarrow> js result" where
  "series_point c = rbind (js_idx 0 c) (\<lambda>d. rbind (js_idx 1 c) (\<lambda>n.
     Inr (JObj [(''date'', d), (''count'', n)])))"

definition series_field :: "string \<Rightarrow> js \<Rightarrow> js result" where
  "series_field k google = rbind (js_get k google) (\<lambda>l. rbind (js_elems l) (\<lambda>xs.
     rmap JArr (mapR series_point xs)))"

definition community_success :: handler where
  "community_success s data =
     rbind (js_get ''google'' data) (\<lambda>google.
     rbind (rbind (js_get ''geoCity'' google) (\<lambda>l. rbind (js_elems l) (mapR geo_city))) (\<lambda>geoCity.
     rbind (js_get ''geoCountry'' google) (\<lambda>geoCountry.
     rbind (series_field ''dailyExperimentData'' google) (\<lambda>de.
     rbind (series_field ''dailyOperatorData'' google) (\<lambda>dop.
     rbind (series_field ''monthlyExperimentData'' google) (\<lambda>me.
     rbind (series_field ''monthlyOperatorData'' google) (\<lambda>mo.
     rbind (js_get ''github'' data) (\<lambda>github.
     rbind (js_get ''totalRuns'' google) (\<lambda>runs.
     rbind (js_get ''operatorInstalls'' google) (\<lambda>installs.
     Inr (spread s
       [(''communityData'', JObj [(''github'', github),
          (''google'', JObj [(''totalRuns'', runs), (''operatorInstalls'', installs),
             (''geoCountry'', geoCountry), (''geoCity'', JArr geoCity), (''dailyExperimentData'', de),
             (''dailyOperatorData'', dop), (''monthlyExperimentData'', me), (''monthlyOperatorData'', mo)])]),
        (''loading'', JBool False), (''error'', JBool False)])))))))))))"

definition community_error :: handler where
  "community_error s p = Inr (spread s [(''loading'', JBool False), (''error'', p)])"

definition community_handlers :: "(string \<times> handler) list" where
  "community_handlers = [(''LOAD_COMMUNITY_ANALYTICS'', community_success),
     (''COMMUNITY_ANALYTICS_LOADING'', set_field ''loading''),
     (''COMMUNITY_ANALYTICS_ERROR'', community_error)]"

definition dashboard_init :: js where
  "dashboard_init = JObj [(''selectedDashboardID'', JStr ''''), (''selectedAgentID'', JStr ''''),
     (''activePanelID'', JStr ''''), (''dashboardJSON'', JObj [])]"

definition dashboard_handlers :: "(string \<times> handler) list" where
  "dashboard_handlers = [(''SELECT_DASHBOARD'', merge_payload)]"

definition dataSource_init :: js where
  "dataSource_init = JObj [(''selectedDataSourceID'', JStr ''''), (''selectedDataSourceName'', JStr '''')]"

definition dataSource_handlers :: "(string \<times> handler) list" where
  "dataSource_handlers = [(''SELECT_DATASOURCE'', merge_payload)]"

definition imageRegistry_init :: js where
  "imageRegistry_init = JObj [(''image_registry_name'', JStr ''''), (''image_repo_name'', JStr ''''),
     (''image_registry_type'', JStr ''''), (''secret_name'', JStr ''''), (''secret_namespace'', JStr ''''),
     (''enable_registry'', JBool True), (''update_registry'', JBool True), (''is_default'', JBool True)]"

definition imageRegistry_handlers :: "(string \<times> handler) list" where
  "imageRegistry_handlers = [(''SELECT_IMAGE_REGISTRY'', merge_payload)]"

definition node_init :: js where
  "node_init = JObj [(''children'', JNull), (''finishedAt'', JStr ''''), (''message'', JStr ''''),
     (''name'', JStr ''''), (''podName'', JStr ''''), (''phase'', JStr ''''), (''startedAt'', JStr ''''),
     (''type'', JStr '''')]"

definition node_handlers :: "(string \<times> handler) list" where
  "node_handlers = [(''SELECT_NODE'', merge_payload)]"

definition tabs_init :: js where
  "tabs_init = JObj [(''workflows'', JNum 0), (''settings'', JNum 0), (''invitation'', JNum 0),
     (''node'', JNum 0), (''observability'', JNum 0), (''myhub'', JNum 0)]"

definition tabs_handlers :: "(string \<times> handler) list" where
  "tabs_handlers =
     [(''CHANGE_WORKFLOWS_TAB'', set_field ''workflows''),
      (''CHANGE_SETTINGS_TAB'', set_field ''settings''),
      (''CHANGE_INVITATIONS_TAB'', set_field ''invitation''),
      (''CHANGE_WORKFLOW_DETAILS_TAB'', set_field ''node''),
      (''CHANGE_ANALYTICS_DASHBOARD_TAB'', set_field ''observability''),
      (''CHANGE_HUB_TABS'', set_field ''myhub'')]"

definition template_init :: js where
  "template_init = JObj [(''selectedTemplateID'', JNum 0), (''isDisable'', JBool True)]"

definition template_handlers :: "(string \<times> handler) list" where
  "template_handlers = [(''SELECT_TEMPLATE'', merge_payload)]"

text \<open>The two dates are \<open>new Date()\<close> when the module loads.\<close>

definition workflow_init :: "int \<Rightarrow> js" where
  "workflow_init now = JObj
     [(''chaosEngineChanged'', JBool False), (''namespace'', JStr ''''), (''clusterID'', JStr ''''),
      (''cronSyntax'', JStr ''''),
      (''scheduleType'', JObj [(''scheduleOnce'', JStr ''now''), (''recurringSchedule'', JStr '''')]),
      (''scheduleInput'', JObj [(''hour_interval'', JNum 0), (''day'', JNum 1),
         (''weekday'', JStr ''Monday''), (''time'', JDate now), (''date'', JDate now)]),
      (''clusterName'', JStr '''')]"

definition workflow_handlers :: "(string \<times> handler) list" where
  "workflow_handlers = [(''SET_WORKFLOW_DETAILS'', merge_payload)]"

definition manifest_init :: js where
  "manifest_init = JObj [(''manifest'', JStr ''''), (''engineYAML'', JStr ''''),
     (''isCustomWorkflow'', JBool False), (''isUploaded'', JBool False)]"

definition manifest_handlers :: "(string \<times> handler) list" where
  "manifest_handlers = [(''SET_WORKFLOW_MANIFEST'', merge_payload)]"

definition version_init :: js where
  "version_init = jobj1 ''version'' (JStr ''latest'')"

definition version_handlers :: "(string \<times> handler) list" where
  "version_handlers = [(''SET_WORKFLOW_HELPER_IMAGE_VERSION'', set_field ''version'')]"

section \<open>The root reducer\<close>

text \<open>
  Every reducer file but \<open>workflow.ts\<close> also exports its reducer as \<open>default\<close>, and the
  namespaces are spread into \<open>combineReducers\<close>: the store has a slice \<open>default\<close> with the
  reducer of the last namespace, the image registry's.
\<close>

definition slices :: "int \<Rightarrow> (string \<times> js \<times> (string \<times> handler) list) list" where
  "slices now =
     [(''communityData'', community_init, community_handlers),
      (''default'', imageRegistry_init, imageRegistry_handlers),
      (''workflowData'', workflow_init now, workflow_handlers),
      (''workflowManifest'', manifest_init, manifest_handlers),
      (''litmusCoreVersion'', version_init, version_handlers),
      (''selectedNode'', node_init, node_handlers),
      (''tabNumber'', tabs_init, tabs_handlers),
      (''alert'', alert_init, alert_handlers),
      (''selectTemplate'', template_init, template_handlers),
      (''selectDataSource'', dataSource_init, dataSource_handlers),
      (''selectDashboard'', dashboard_init, dashboard_handlers),
      (''selectedImageRegistry'', imageRegistry_init, imageRegistry_handlers)]"

type_synonym root_state = "(string \<times> js) list"

definition rootReducer :: "int \<Rightarrow> root_state \<Rightarrow> action \<Rightarrow> root_state result" where
  "rootReducer now st act = mapR (\<lambda>(k, ini, hs). rmap (Pair k) (createReducer ini hs (obj_get st k) act))
     (slices now)"

definition initial_state :: "int \<Rightarrow> root_state" where
  "initial_state now = map (\<lambda>(k, ini, hs). (k, ini)) (slices now)"

text \<open>\<open>dispatch\<close>: an exception of a reducer reaches the caller, the state stays.\<close>

definition dispatch :: "int \<Rightarrow> action \<Rightarrow> root_state \<Rightarrow> unit result \<times> root_state" where
  "dispatch now act st = (case rootReducer now st act of
      Inl e \<Rightarrow> (Inl e, st) | Inr st' \<Rightarrow> (Inr (), st'))"

section \<open>Action creators\<close>

definition changeAlertState :: "js \<Rightarrow> action" where
  "changeAlertState data = \<lparr>atype = ''SET_ALERT_STATE'', payload = data\<rparr>"

definition selectDashboard :: "js \<Rightarrow> action" where
  "selectDashboard data = \<lparr>atype = ''SELECT_DASHBOARD'', payload = data\<rparr>"

definition selectDataSource :: "js \<Rightarrow> action" where
  "selectDataSource data = \<lparr>atype = ''SELECT_DATASOURCE'', payload = data\<rparr>"

definition selectImageRegistry :: "js \<Rightarrow> action" where
  "selectImageRegistry data = \<lparr>atype = ''SELECT_IMAGE_REGISTRY'', payload = data\<rparr>"

definition selectNode :: "js \<Rightarrow> action" where
  "selectNode node = \<lparr>atype = ''SELECT_NODE'', payload = node\<rparr>"

definition selectTemplate :: "js \<Rightarrow> action" where
  "selectTemplate data = \<lparr>atype = ''SELECT_TEMPLATE'', payload = data\<rparr>"

definition changeWorkflowsTabs :: "int \<Rightarrow> action" where
  "changeWorkflowsTabs n = \<lparr>atype = ''CHANGE_WORKFLOWS_TAB'', payload = JNum n\<rparr>"

definition changeSettingsTabs :: "int \<Rightarrow> action" where
  "changeSettingsTabs n = \<lparr>atype = ''CHANGE_SETTINGS_TAB'', payload = JNum n\<rparr>"

definition changeInvitationTabs :: "int \<Rightarrow> action" where
  "changeInvitationTabs n = \<lparr>atype = ''CHANGE_INVITATIONS_TAB'', payload = JNum n\<rparr>"

definition changeWorkflowDetailsTabs :: "int \<Rightarrow> action" where
  "changeWorkflowDetailsTabs n = \<lparr>atype = ''CHANGE_WORKFLOW_DETAILS_TAB'', payload = JNum n\<rparr>"

definition changeObservabilityDashboardTabs :: "int \<Rightarrow> action" where
  "changeObservabilityDashboardTabs n = \<lparr>atype = ''CHANGE_ANALYTICS_DASHBOARD_TAB'', payload = JNum n\<rparr>"

definition changeHubTabs :: "int \<Rightarrow> action" where
  "changeHubTabs n = \<lparr>atype = ''CHANGE_HUB_TABS'', payload = JNum n\<rparr>"

definition setWorkflowDetails :: "js \<Rightarrow> action" where
  "setWorkflowDetails data = \<lparr>atype = ''SET_WORKFLOW_DETAILS'', payload = data\<rparr>"

definition setWorkflowManifest :: "js \<Rightarrow> action" where
  "setWorkflowManifest data = \<lparr>atype = ''SET_WORKFLOW_MANIFEST'', payload = data\<rparr>"

text \<open>
  The two thunks start a request and return; what follows runs when its promise settles,
  after any other actions. \<open>reply\<close> is the parsed body, or the rejection of the request
  or of its parsing. An exception of the \<open>then\<close> callbacks goes to the \<open>catch\<close> too.
\<close>

definition load_start :: action where
  "load_start = \<lparr>atype = ''COMMUNITY_ANALYTICS_LOADING'', payload = JBool True\<rparr>"

definition load_failed :: action where
  "load_failed = \<lparr>atype = ''COMMUNITY_ANALYTICS_ERROR'', payload = JBool True\<rparr>"

definition load_settled :: "int \<Rightarrow> js result \<Rightarrow> root_state \<Rightarrow> unit result \<times> root_state" where
  "load_settled now reply st = (case reply of
      Inl e \<Rightarrow> dispatch now load_failed st
    | Inr data \<Rightarrow>
        (case dispatch now \<lparr>atype = ''LOAD_COMMUNITY_ANALYTICS'', payload = data\<rparr> st of
           (Inl e, st') \<Rightarrow> dispatch now load_failed st' | (Inr _, st') \<Rightarrow> (Inr (), st')))"

definition version_action :: "js \<Rightarrow> action" where
  "version_action v = \<lparr>atype = ''SET_WORKFLOW_HELPER_IMAGE_VERSION'', payload = v\<rparr>"

definition version_settled :: "int \<Rightarrow> js result \<Rightarrow> root_state \<Rightarrow> unit result \<times> root_state" where
  "version_settled now reply st = (case rbind reply (js_get ''version'') of
      Inl e \<Rightarrow> dispatch now (version_action (JStr ''latest'')) st
    | Inr v \<Rightarrow> (case dispatch now (version_action v) st of
         (Inl e, st') \<Rightarrow> dispatch now (version_action (JStr ''latest'')) st'
       | (Inr _, st') \<Rightarrow> (Inr (), st')))"

section \<open>The contract of a slice\<close>

fun keyset :: "js \<Rightarrow> string set" where
  "keyset (JObj fs) = fst ` set fs"
| "keyset v = {}"

text \<open>
  What the store relies on of every slice's reducer: it starts as an object, ignores the
  actions of other slices, and never drops a field.
\<close>

locale slice =
  fixes red :: "js \<Rightarrow> action \<Rightarrow> js result" and ini :: js and handled :: "string set"
  assumes starts: "red JUndef a = red ini a"
    and ini_obj: "is_obj ini"
    and ignores: "is_obj s \<Longrightarrow> atype a \<notin> handled \<Longrightarrow> red s a = Inr s"
    and keeps: "is_obj s \<Longrightarrow> red s a = Inr s' \<Longrightarrow> is_obj s' \<and> keyset s \<subseteq> keyset s'"
begin

lemma run_keeps:
  assumes "foldR (\<lambda>a s. red s a) acts ini = Inr s"
  shows "is_obj s \<and> keyset ini \<subseteq> keyset s"
proof (rule foldR_invariant [OF assms])
  show "is_obj ini \<and> keyset ini \<subseteq> keyset ini" using ini_obj by simp
  show "is_obj t \<and> keyset ini \<subseteq> keyset t"
    if "is_obj s \<and> keyset ini \<subseteq> keyset s" "red s a = Inr t" for a s t
    using keeps [of s a t] that by blast
qed

lemma run_ignores:
  "is_obj s \<Longrightarrow> (\<And>a. a \<in> set acts \<Longrightarrow> atype a \<notin> handled) \<Longrightarrow> foldR (\<lambda>a s. red s a) acts s = Inr s"
  by (induction acts) (simp_all add: ignores)

lemma first_action: "foldR (\<lambda>a s. red s a) (a # acts) JUndef = foldR (\<lambda>a s. red s a) (a # acts) ini"
  by (simp add: starts)

end

text \<open>A slice whose one action spreads its payload: what was selected is read back, and
  fields the payload does not name stay.\<close>

locale selection = slice +
  assumes selects: "is_obj s \<Longrightarrow> atype a \<in> handled \<Longrightarrow> red s a = merge_payload s (payload a)"
begin

lemma select_last:
  assumes "is_obj s" and "atype a \<in> handled" and "payload a = JObj fs" and "distinct (map fst fs)"
    and "\<And>b. b \<in> set acts \<Longrightarrow> atype b \<notin> handled"
  shows "foldR (\<lambda>a s. red s a) (a # acts) s = merge_payload s (payload a)"
proof -
  obtain t where t: "merge_payload s (payload a) = Inr t" "is_obj t" by (auto simp: merge_payload_def spread_def)
  with assms show ?thesis by (simp add: selects run_ignores)
qed

end

lemma map_of_spread_over:
  "map_of (spread_over fs gs) k = (case map_of (rev gs) k of Some v \<Rightarrow> Some v | None \<Rightarrow> map_of fs k)"
  unfolding spread_over_def
  by (induction gs arbitrary: fs) (auto simp: map_add_def split: option.splits)

lemma keyset_map_of: "k \<in> keyset (JObj fs) \<longleftrightarrow> map_of fs k \<noteq> None"
  by (simp add: map_of_eq_None_iff)

lemma spread_keeps: "is_obj s \<Longrightarrow> keyset s \<subseteq> keyset (spread s fs)"
proof
  fix k assume "is_obj s" "k \<in> keyset s"
  then obtain gs where "s = JObj gs" "map_of gs k \<noteq> None" by (auto elim!: is_obj_E simp: map_of_eq_None_iff)
  then have "map_of (spread_over gs fs) k \<noteq> None" by (auto simp: map_of_spread_over split: option.splits)
  then show "k \<in> keyset (spread s fs)" using \<open>s = JObj gs\<close> by (simp add: spread_def keyset_map_of del: keyset.simps)
qed

lemma fld_spread:
  assumes "is_obj s" and "distinct (map fst fs)"
  shows "fld k (spread s fs) = (case map_of fs k of Some v \<Rightarrow> v | None \<Rightarrow> fld k s)"
proof -
  have "map_of (rev fs) = map_of fs" using assms(2) by (subst map_of_inject_set) (simp_all add: rev_map [symmetric])
  then show ?thesis using assms(1)
    by (auto elim!: is_obj_E simp: spread_def obj_get_def map_of_spread_over split: option.splits)
qed

definition spreading :: "handler \<Rightarrow> bool" where
  "spreading h \<longleftrightarrow> (\<forall>s p s'. h s p = Inr s' \<longrightarrow> (\<exists>fs. s' = spread s fs))"

lemma spreading_handlers:
  "spreading merge_payload" "spreading (set_field k)" "spreading community_success" "spreading community_error"
  by (auto simp: spreading_def merge_payload_def set_field_def community_success_def community_error_def
      rbind_Inr_iff)

lemma createReducer_slice:
  assumes "is_obj ini" and "\<And>t h. (t, h) \<in> set hs \<Longrightarrow> spreading h"
  shows "slice (createReducer ini hs) ini (fst ` set hs)"
proof
  show "createReducer ini hs JUndef a = createReducer ini hs ini a" for a
    using assms(1) by (auto simp: createReducer_def Let_def)
  show "is_obj ini" by fact
  show "createReducer ini hs s a = Inr s" if "is_obj s" "atype a \<notin> fst ` set hs" for s a
  proof -
    have "map_of hs (atype a) = None" using that(2) by (simp add: map_of_eq_None_iff)
    with that(1) show ?thesis by (auto simp: createReducer_def Let_def)
  qed
  show "is_obj s' \<and> keyset s \<subseteq> keyset s'" if "is_obj s" "createReducer ini hs s a = Inr s'" for s a s'
  proof (cases "map_of hs (atype a)")
    case None
    with that show ?thesis by (auto simp: createReducer_def Let_def)
  next
    case (Some h)
    then have "spreading h" using assms(2) by (auto dest: map_of_SomeD)
    moreover have "h s (payload a) = Inr s'"
      using that Some by (cases s) (auto simp: createReducer_def Let_def)
    ultimately obtain fs where fs: "s' = spread s fs" unfolding spreading_def by blast
    show ?thesis unfolding fs using spread_keeps [OF that(1)] by (simp add: spread_def)
  qed
qed

lemma createReducer_selection:
  assumes "is_obj ini"
  shows "selection (createReducer ini [(t, merge_payload)]) ini {t}"
proof -
  have s: "slice (createReducer ini [(t, merge_payload)]) ini {t}"
    using createReducer_slice [of ini "[(t, merge_payload)]"] assms spreading_handlers by simp
  show ?thesis
    by (rule selection.intro [OF s]) (unfold_locales, auto simp: createReducer_def Let_def)
qed

section \<open>Every slice meets the contract\<close>

named_theorems slice_defs

declare alert_init_def [slice_defs] alert_handlers_def [slice_defs] community_init_def [slice_defs]
  community_handlers_def [slice_defs] dashboard_init_def [slice_defs] dashboard_handlers_def [slice_defs]
  dataSource_init_def [slice_defs] dataSource_handlers_def [slice_defs]
  imageRegistry_init_def [slice_defs] imageRegistry_handlers_def [slice_defs] node_init_def [slice_defs]
  node_handlers_def [slice_defs] tabs_init_def [slice_defs] tabs_handlers_def [slice_defs]
  template_init_def [slice_defs] template_handlers_def [slice_defs] workflow_init_def [slice_defs]
  workflow_handlers_def [slice_defs] manifest_init_def [slice_defs] manifest_handlers_def [slice_defs]
  version_init_def [slice_defs] version_handlers_def [slice_defs]

lemma slices_spreading:
  "(k, ini, hs) \<in> set (slices now) \<Longrightarrow> is_obj ini \<and> (\<forall>(t, h) \<in> set hs. spreading h)"
  by (auto simp: slices_def slice_defs spreading_handlers)

interpretation alert: slice "createReducer alert_init alert_handlers" alert_init "fst ` set alert_handlers"
  by (rule createReducer_slice) (auto simp: slice_defs spreading_handlers)

interpretation community: slice "createReducer community_init community_handlers" community_init
  "fst ` set community_handlers"
  by (rule createReducer_slice) (auto simp: slice_defs spreading_handlers)

interpretation tabs: slice "createReducer tabs_init tabs_handlers" tabs_init "fst ` set tabs_handlers"
  by (rule createReducer_slice) (auto simp: slice_defs spreading_handlers)

interpretation version: slice "createReducer version_init version_handlers" version_init
  "fst ` set version_handlers"
  by (rule createReducer_slice) (auto simp: slice_defs spreading_handlers)

interpretation dashboards: selection "createReducer dashboard_init dashboard_handlers" dashboard_init
  "{''SELECT_DASHBOARD''}"
  unfolding dashboard_handlers_def by (rule createReducer_selection) (simp add: slice_defs)

interpretation dataSources: selection "createReducer dataSource_init dataSource_handlers" dataSource_init
  "{''SELECT_DATASOURCE''}"
  unfolding dataSource_handlers_def by (rule createReducer_selection) (simp add: slice_defs)

interpretation imageRegistry: selection "createReducer imageRegistry_init imageRegistry_handlers"
  imageRegistry_init "{''SELECT_IMAGE_REGISTRY''}"
  unfolding imageRegistry_handlers_def by (rule createReducer_selection) (simp add: slice_defs)

interpretation nodes: selection "createReducer node_init node_handlers" node_init "{''SELECT_NODE''}"
  unfolding node_handlers_def by (rule createReducer_selection) (simp add: slice_defs)

interpretation templates: selection "createReducer template_init template_handlers" template_init
  "{''SELECT_TEMPLATE''}"
  unfolding template_handlers_def by (rule createReducer_selection) (simp add: slice_defs)

interpretation workflows: selection "createReducer (workflow_init now) workflow_handlers" "workflow_init now"
  "{''SET_WORKFLOW_DETAILS''}" for now
  unfolding workflow_handlers_def by (rule createReducer_selection) (simp add: slice_defs)

interpretation manifests: selection "createReducer manifest_init manifest_handlers" manifest_init
  "{''SET_WORKFLOW_MANIFEST''}"
  unfolding manifest_handlers_def by (rule createReducer_selection) (simp add: slice_defs)

section \<open>Reachable stores\<close>

inductive reachable :: "int \<Rightarrow> root_state \<Rightarrow> bool" for now where
  start: "reachable now (initial_state now)"
| step: "reachable now st \<Longrightarrow> dispatch now a st = (r, st') \<Longrightarrow> reachable now st'"

inductive_cases reachable_cases: "reachable now st"

lemma distinct_slices: "distinct (map fst (slices now))"
  by (simp add: slices_def)

text \<open>The first action redux dispatches builds the initial state from nothing.\<close>

lemma rootReducer_initial:
  assumes "\<And>k ini hs. (k, ini, hs) \<in> set (slices now) \<Longrightarrow> atype a \<notin> fst ` set hs"
  shows "rootReducer now [] a = Inr (initial_state now)"
proof -
  have "mapR (\<lambda>(k, ini, hs). rmap (Pair k) (createReducer ini hs (obj_get [] k) a)) (slices now) =
      Inr (map (\<lambda>(k, ini, hs). (k, ini)) (slices now))"
  proof (rule mapR_pure)
    fix x assume "x \<in> set (slices now)"
    moreover obtain k ini hs where x: "x = (k, ini, hs)" by (cases x)
    ultimately have "map_of hs (atype a) = None" using assms by (simp add: map_of_eq_None_iff)
    then show "(case x of (k, ini, hs) \<Rightarrow> rmap (Pair k) (createReducer ini hs (obj_get [] k) a)) =
        Inr (case x of (k, ini, hs) \<Rightarrow> (k, ini))"
      by (simp add: x createReducer_def)
  qed
  then show ?thesis by (simp add: rootReducer_def initial_state_def)
qed

lemma rootReducer_slice:
  assumes "rootReducer now st a = Inr st'" and "(k, ini, hs) \<in> set (slices now)"
  shows "createReducer ini hs (obj_get st k) a = Inr (obj_get st' k)"
proof -
  let ?f = "\<lambda>(k, ini, hs). rmap (Pair k) (createReducer ini hs (obj_get st k) a)"
  have all: "list_all2 (\<lambda>x y. ?f x = Inr y) (slices now) st'"
    using assms(1) by (simp add: rootReducer_def mapR_Inr_iff)
  have "list_all2 (\<lambda>x y. fst x = fst y) (slices now) st'"
    by (rule list_all2_mono [OF all]) (auto simp: rmap_def rbind_Inr_iff)
  then have names: "map fst st' = map fst (slices now)"
    by (induction rule: list_all2_induct) auto
  obtain i where i: "i < length (slices now)" "slices now ! i = (k, ini, hs)"
    using assms(2) by (auto simp: in_set_conv_nth)
  then obtain s where s: "createReducer ini hs (obj_get st k) a = Inr s" "st' ! i = (k, s)"
    using list_all2_nthD [OF all i(1)] by (auto simp: rmap_def rbind_Inr_iff)
  have "map_of st' k = Some s"
    using s(2) i(1) names distinct_slices [of now] list_all2_lengthD [OF all]
    by (intro map_of_is_SomeI) (auto simp: in_set_conv_nth intro!: exI [of _ i])
  with s(1) show ?thesis by (simp add: obj_get_def)
qed

lemma initial_slice: "(k, ini, hs) \<in> set (slices now) \<Longrightarrow> obj_get (initial_state now) k = ini"
proof -
  assume "(k, ini, hs) \<in> set (slices now)"
  then have "map_of (initial_state now) k = Some ini"
    using distinct_slices by (intro map_of_is_SomeI) (force simp: initial_state_def comp_def split_beta)+
  then show ?thesis by (simp add: obj_get_def)
qed

lemma slice_slices:
  "(k, ini, hs) \<in> set (slices now) \<Longrightarrow> slice (createReducer ini hs) ini (fst ` set hs)"
  using slices_spreading by (intro createReducer_slice) blast+

lemma slices_keep_fields:
  assumes "reachable now st" and "(k, ini, hs) \<in> set (slices now)"
  shows "is_obj (obj_get st k) \<and> keyset ini \<subseteq> keyset (obj_get st k)"
  using assms(1)
proof induction
  case start
  show ?case using initial_slice [OF assms(2)] slices_spreading [OF assms(2)] by simp
next
  case (step st a r st')
  show ?case
  proof (cases "rootReducer now st a")
    case (Inl e)
    with step show ?thesis by (simp add: dispatch_def)
  next
    case (Inr st2)
    with step have "st' = st2" by (simp add: dispatch_def)
    with rootReducer_slice [OF Inr assms(2)] slice.keeps [OF slice_slices [OF assms(2)]] step.IH
    show ?thesis by blast
  qed
qed

theorem default_slice_mirrors_image_registry:
  assumes "reachable now st"
  shows "obj_get st ''default'' = obj_get st ''selectedImageRegistry''"
  using assms
proof induction
  case start
  show ?case by (simp add: initial_state_def slices_def)
next
  case (step st a r st')
  have m: "(''default'', imageRegistry_init, imageRegistry_handlers) \<in> set (slices now)"
    "(''selectedImageRegistry'', imageRegistry_init, imageRegistry_handlers) \<in> set (slices now)"
    by (simp_all add: slices_def)
  show ?case
  proof (cases "rootReducer now st a")
    case (Inl e)
    with step show ?thesis by (simp add: dispatch_def)
  next
    case (Inr st2)
    with step have "st' = st2" by (simp add: dispatch_def)
    with rootReducer_slice [OF Inr m(1)] rootReducer_slice [OF Inr m(2)] step.IH show ?thesis by simp
  qed
qed

lemma slice_isolated:
  assumes "reachable now st" and "dispatch now a st = (r, st')" and "(k, ini, hs) \<in> set (slices now)"
    and "atype a \<notin> fst ` set hs"
  shows "obj_get st' k = obj_get st k"
proof (cases "rootReducer now st a")
  case (Inl e)
  with assms(2) show ?thesis by (simp add: dispatch_def)
next
  case (Inr st2)
  have "createReducer ini hs (obj_get st k) a = Inr (obj_get st k)"
    using slices_keep_fields [OF assms(1,3)] slice.ignores [OF slice_slices [OF assms(3)]] assms(4) by blast
  with rootReducer_slice [OF Inr assms(3)] Inr assms(2) show ?thesis by (simp add: dispatch_def)
qed

theorem actions_touch_their_slice_only:
  assumes "reachable now st" and "dispatch now a st = (r, st')" and "(k, ini, hs) \<in> set (slices now)"
    and "atype a \<notin> fst ` set hs"
  shows "obj_get st' k = obj_get st k"
  using slice_isolated [OF assms] .

section \<open>Selections and requests\<close>

text \<open>What a partial payload does to its slice, whatever else is dispatched afterwards.\<close>

definition selection_slice :: "(string \<times> string) list" where
  "selection_slice = [(''SELECT_DASHBOARD'', ''selectDashboard''), (''SELECT_DATASOURCE'', ''selectDataSource''),
     (''SELECT_IMAGE_REGISTRY'', ''selectedImageRegistry''), (''SELECT_NODE'', ''selectedNode''),
     (''SELECT_TEMPLATE'', ''selectTemplate''), (''SET_WORKFLOW_DETAILS'', ''workflowData''),
     (''SET_WORKFLOW_MANIFEST'', ''workflowManifest'')]"

definition run_actions :: "int \<Rightarrow> action list \<Rightarrow> root_state \<Rightarrow> root_state" where
  "run_actions now acts st = fold (\<lambda>a s. snd (dispatch now a s)) acts st"

lemma reachable_run: "reachable now st \<Longrightarrow> reachable now (run_actions now acts st)"
proof (induction acts arbitrary: st)
  case (Cons a acts)
  have "reachable now (snd (dispatch now a st))"
    using Cons.prems by (cases "dispatch now a st") (auto intro: reachable.step)
  with Cons.IH show ?case by (simp add: run_actions_def)
qed (simp add: run_actions_def)

lemma run_untouched:
  assumes "reachable now st" and "(k, ini, hs) \<in> set (slices now)"
    and "\<And>a. a \<in> set acts \<Longrightarrow> atype a \<notin> fst ` set hs"
  shows "obj_get (run_actions now acts st) k = obj_get st k"
  using assms(1,3)
proof (induction acts arbitrary: st)
  case (Cons a acts)
  obtain r st' where d: "dispatch now a st = (r, st')" by (cases "dispatch now a st")
  have "obj_get st' k = obj_get st k" "reachable now st'"
    using slice_isolated [OF Cons.prems(1) d assms(2)] Cons.prems d by (auto intro: reachable.step)
  with Cons.IH [of st'] Cons.prems d show ?case by (simp add: run_actions_def)
qed (simp add: run_actions_def)

lemma slices_selections:
  "(''selectDashboard'', dashboard_init, [(''SELECT_DASHBOARD'', merge_payload)]) \<in> set (slices now)"
  "(''selectDataSource'', dataSource_init, [(''SELECT_DATASOURCE'', merge_payload)]) \<in> set (slices now)"
  "(''selectedImageRegistry'', imageRegistry_init, [(''SELECT_IMAGE_REGISTRY'', merge_payload)]) \<in> set (slices now)"
  "(''selectedNode'', node_init, [(''SELECT_NODE'', merge_payload)]) \<in> set (slices now)"
  "(''selectTemplate'', template_init, [(''SELECT_TEMPLATE'', merge_payload)]) \<in> set (slices now)"
  "(''workflowData'', workflow_init now, [(''SET_WORKFLOW_DETAILS'', merge_payload)]) \<in> set (slices now)"
  "(''workflowManifest'', manifest_init, [(''SET_WORKFLOW_MANIFEST'', merge_payload)]) \<in> set (slices now)"
  by (simp_all add: slices_def dashboard_handlers_def dataSource_handlers_def imageRegistry_handlers_def
      node_handlers_def template_handlers_def workflow_handlers_def manifest_handlers_def)

lemma selection_handlers:
  assumes "(t, k) \<in> set selection_slice"
  obtains ini where "(k, ini, [(t, merge_payload)]) \<in> set (slices now)"
proof -
  have "\<forall>(t, k) \<in> set selection_slice. \<exists>ini. (k, ini, [(t, merge_payload)]) \<in> set (slices now)"
    unfolding selection_slice_def list.set ball_simps prod.case
    using slices_selections by blast
  with assms that show thesis by blast
qed

text \<open>No reducer but the two analytics ones can throw.\<close>

definition total_handlers :: "(string \<times> handler) list \<Rightarrow> bool" where
  "total_handlers hs \<longleftrightarrow> (\<forall>(t, h) \<in> set hs. t \<noteq> ''LOAD_COMMUNITY_ANALYTICS'' \<longrightarrow> (\<forall>s p. \<exists>s'. h s p = Inr s'))"

lemma total_slices: "\<forall>(k, ini, hs) \<in> set (slices now). total_handlers hs"
proof -
  have "total_handlers hs" if "\<forall>(t, h) \<in> set hs. h = merge_payload \<or> h \<in> range set_field" for hs
    using that by (fastforce simp: total_handlers_def merge_payload_def set_field_def)
  moreover have "total_handlers community_handlers"
    by (simp add: total_handlers_def community_handlers_def set_field_def community_error_def)
  ultimately show ?thesis by (simp add: slices_def slice_defs)
qed

lemma community_member: "(''communityData'', community_init, community_handlers) \<in> set (slices now)"
  by (simp add: slices_def)

definition plain_handlers :: "(string \<times> handler) list \<Rightarrow> bool" where
  "plain_handlers hs \<longleftrightarrow> (\<forall>(t, h) \<in> set hs. h = merge_payload \<or> h \<in> range set_field)"

lemma createReducer_other:
  assumes "k \<noteq> ''communityData''" and "(k, ini, hs) \<in> set (slices now)"
  shows "\<exists>s'. createReducer ini hs s a = Inr s'"
proof -
  have "plain_handlers alert_handlers" "plain_handlers dashboard_handlers" "plain_handlers dataSource_handlers"
    "plain_handlers imageRegistry_handlers" "plain_handlers node_handlers" "plain_handlers tabs_handlers"
    "plain_handlers template_handlers" "plain_handlers workflow_handlers" "plain_handlers manifest_handlers"
    "plain_handlers version_handlers"
    by (simp_all add: plain_handlers_def alert_handlers_def dashboard_handlers_def dataSource_handlers_def
        imageRegistry_handlers_def node_handlers_def tabs_handlers_def template_handlers_def
        workflow_handlers_def manifest_handlers_def version_handlers_def)
  then have "\<forall>(k, ini, hs) \<in> set (slices now). k \<noteq> ''communityData'' \<longrightarrow> plain_handlers hs"
    unfolding slices_def list.set ball_simps prod.case by simp
  from bspec [OF this assms(2)] assms(1) have "plain_handlers hs" by simp
  then have "\<forall>(t, h) \<in> set hs. h = merge_payload \<or> h \<in> range set_field"
    by (simp only: plain_handlers_def)
  then have h: "h = merge_payload \<or> h \<in> range set_field" if "map_of hs (atype a) = Some h" for h
    using map_of_SomeD [OF that] by blast
  show ?thesis
  proof (cases "map_of hs (atype a)")
    case (Some h)
    have "\<exists>s'. h t p = Inr s'" for t p
      using h [OF Some] by (auto simp: merge_payload_def set_field_def)
    then show ?thesis by (simp add: createReducer_def Some Let_def)
  qed (simp add: createReducer_def Let_def)
qed

lemma createReducer_total:
  assumes "atype a \<noteq> ''LOAD_COMMUNITY_ANALYTICS''" and "(k, ini, hs) \<in> set (slices now)"
  shows "\<exists>s'. createReducer ini hs s a = Inr s'"
proof (cases "map_of hs (atype a)")
  case (Some h)
  then have "(atype a, h) \<in> set hs" by (rule map_of_SomeD)
  moreover have "total_handlers hs" using assms(2) total_slices by blast
  ultimately show ?thesis using assms(1) by (auto simp: createReducer_def Some total_handlers_def Let_def)
qed (simp add: createReducer_def Let_def)

lemma dispatch_total:
  assumes "atype a \<noteq> ''LOAD_COMMUNITY_ANALYTICS''"
  obtains st' where "rootReducer now st a = Inr st'" and "dispatch now a st = (Inr (), st')"
proof -
  have "\<exists>y. (case x of (k, ini, hs) \<Rightarrow> rmap (Pair k) (createReducer ini hs (obj_get st k) a)) = Inr y"
    if x: "x \<in> set (slices now)" for x
  proof -
    obtain k ini hs where e: "x = (k, ini, hs)" by (cases x)
    then obtain s' where "createReducer ini hs (obj_get st k) a = Inr s'"
      using createReducer_total [OF assms] x by blast
    with e show ?thesis by simp
  qed
  then obtain st' where "rootReducer now st a = Inr st'"
    using mapR_total [of "slices now"] unfolding rootReducer_def by blast
  with that show thesis by (simp add: dispatch_def)
qed

theorem selection_survives_other_actions:
  assumes "reachable now st" and "(t, k) \<in> set selection_slice"
    and "distinct (map fst fs)" and "\<And>a. a \<in> set acts \<Longrightarrow> atype a \<noteq> t"
  shows "fld f (obj_get (run_actions now (\<lparr>atype = t, payload = JObj fs\<rparr> # acts) st) k)
    = (case map_of fs f of Some v \<Rightarrow> v | None \<Rightarrow> fld f (obj_get st k))"
proof -
  let ?a = "\<lparr>atype = t, payload = JObj fs\<rparr>"
  obtain ini where m: "(k, ini, [(t, merge_payload)]) \<in> set (slices now)"
    using selection_handlers [OF assms(2)] by blast
  have "t \<noteq> ''LOAD_COMMUNITY_ANALYTICS''" using assms(2) by (auto simp: selection_slice_def)
  then obtain st' where st': "rootReducer now st ?a = Inr st'" "dispatch now ?a st = (Inr (), st')"
    using dispatch_total [of ?a] by auto
  have obj: "is_obj (obj_get st k)" using slices_keep_fields [OF assms(1) m] by simp
  have "obj_get st' k = spread (obj_get st k) fs"
    using rootReducer_slice [OF st'(1) m] obj
    by (cases "obj_get st k") (simp_all add: createReducer_def merge_payload_def)
  moreover have "obj_get (run_actions now acts st') k = obj_get st' k"
    using run_untouched [OF reachable.step [OF assms(1) st'(2)] m] assms(4) by simp
  moreover have "run_actions now (?a # acts) st = run_actions now acts st'"
    by (simp add: run_actions_def st'(2))
  ultimately show ?thesis using fld_spread [OF obj assms(3)] by simp
qed

lemma rootReducer_throws_iff:
  "(\<exists>e. rootReducer now st a = Inl e) \<longleftrightarrow> atype a = ''LOAD_COMMUNITY_ANALYTICS''
     \<and> (\<exists>e. createReducer community_init community_handlers (obj_get st ''communityData'') a = Inl e)"
proof
  assume l: "\<exists>e. rootReducer now st a = Inl e"
  show "atype a = ''LOAD_COMMUNITY_ANALYTICS''
     \<and> (\<exists>e. createReducer community_init community_handlers (obj_get st ''communityData'') a = Inl e)"
  proof (rule ccontr)
    assume no: "\<not> ?thesis"
    have "\<exists>y. (case x of (k, ini, hs) \<Rightarrow> rmap (Pair k) (createReducer ini hs (obj_get st k) a)) = Inr y"
      if x: "x \<in> set (slices now)" for x
    proof -
      obtain k ini hs where e: "x = (k, ini, hs)" by (cases x)
      have "\<exists>s'. createReducer ini hs (obj_get st k) a = Inr s'"
      proof (cases "k = ''communityData''")
        case True
        then have "ini = community_init" "hs = community_handlers"
          using x e distinct_slices [of now] community_member [of now] eq_key_imp_eq_value [of "slices now"] by auto
        with no True createReducer_total [of a k ini hs now "obj_get st k"] x e show ?thesis
          by (cases "createReducer ini hs (obj_get st k) a") auto
      next
        case False
        with x e show ?thesis using createReducer_other by blast
      qed
      with e show ?thesis by auto
    qed
    then have "\<exists>st'. rootReducer now st a = Inr st'"
      unfolding rootReducer_def by (rule mapR_total)
    with l show False by auto
  qed
next
  assume r: "atype a = ''LOAD_COMMUNITY_ANALYTICS''
     \<and> (\<exists>e. createReducer community_init community_handlers (obj_get st ''communityData'') a = Inl e)"
  show "\<exists>e. rootReducer now st a = Inl e"
  proof (cases "rootReducer now st a")
    case (Inr st')
    with rootReducer_slice [OF Inr community_member] r show ?thesis by simp
  qed simp
qed

lemma load_failed_settles:
  assumes "reachable now st" and "obj_get st ''communityData'' = s"
  shows "\<exists>st'. dispatch now load_failed st = (Inr (), st') \<and> reachable now st'
    \<and> obj_get st' ''communityData'' = spread s [(''loading'', JBool False), (''error'', JBool True)]"
proof -
  have nu: "s \<noteq> JUndef" using slices_keep_fields [OF assms(1) community_member] assms(2) by auto
  obtain st' where st': "rootReducer now st load_failed = Inr st'" "dispatch now load_failed st = (Inr (), st')"
    by (rule dispatch_total [of load_failed now st, rotated]) (auto simp: load_failed_def)
  have "obj_get st' ''communityData'' = spread s [(''loading'', JBool False), (''error'', JBool True)]"
    using rootReducer_slice [OF st'(1) community_member] nu
    by (simp add: createReducer_def assms(2) load_failed_def community_handlers_def community_error_def Let_def)
  with st' reachable.step [OF assms(1) st'(2)] show ?thesis by blast
qed

text \<open>
  C40. The community analytics request always ends with loading false: with the
  converted data, or with the error flag and the old data when the reply is bad.
\<close>

theorem load_always_settles:
  assumes "reachable now st"
  defines "s \<equiv> obj_get st ''communityData''"
  shows "\<exists>st'. load_settled now reply st = (Inr (), st') \<and> reachable now st'
    \<and> fld ''loading'' (obj_get st' ''communityData'') = JBool False
    \<and> (case rbind reply (community_success s) of
         Inr s' \<Rightarrow> obj_get st' ''communityData'' = s' \<and> fld ''error'' s' = JBool False
       | Inl e \<Rightarrow> fld ''error'' (obj_get st' ''communityData'') = JBool True
           \<and> fld ''communityData'' (obj_get st' ''communityData'') = fld ''communityData'' s)"
proof -
  have obj: "is_obj s" using slices_keep_fields [OF assms(1) community_member] by (simp add: s_def)
  then have nu: "s \<noteq> JUndef" by auto
  note failed = load_failed_settles [OF assms(1) meta_eq_to_obj_eq [OF s_def, symmetric]]
  show ?thesis
  proof (cases "rbind reply (community_success s)")
    case (Inl e)
    let ?act = "\<lambda>data. \<lparr>atype = ''LOAD_COMMUNITY_ANALYTICS'', payload = data\<rparr>"
    have "load_settled now reply st = dispatch now load_failed st"
    proof (cases reply)
      case (Inr data)
      with Inl have "createReducer community_init community_handlers s (?act data) = Inl e"
        using nu by (simp add: createReducer_def community_handlers_def)
      then obtain e' where "rootReducer now st (?act data) = Inl e'"
        using rootReducer_throws_iff [of now st "?act data"] by (auto simp: s_def)
      then show ?thesis by (simp add: load_settled_def Inr dispatch_def)
    qed (simp add: load_settled_def)
    with failed Inl obj show ?thesis by (auto simp: fld_spread)
  next
    case (Inr s')
    then obtain data where data: "reply = Inr data" "community_success s data = Inr s'"
      by (auto simp: rbind_Inr_iff)
    let ?a = "\<lparr>atype = ''LOAD_COMMUNITY_ANALYTICS'', payload = data\<rparr>"
    have c: "createReducer community_init community_handlers s ?a = Inr s'"
      using nu data by (simp add: createReducer_def community_handlers_def)
    then obtain st' where st': "rootReducer now st ?a = Inr st'"
      using rootReducer_throws_iff [of now st ?a] by (cases "rootReducer now st ?a") (auto simp: s_def)
    have d: "dispatch now ?a st = (Inr (), st')" by (simp add: dispatch_def st')
    have o: "obj_get st' ''communityData'' = s'"
      using rootReducer_slice [OF st' community_member] c by (simp add: s_def)
    have "fld ''loading'' s' = JBool False \<and> fld ''error'' s' = JBool False"
      using data(2) obj by (auto simp: community_success_def rbind_Inr_iff fld_spread)
    with Inr o d reachable.step [OF assms(1) d] data(1) show ?thesis by (simp add: load_settled_def)
  qed
qed

theorem version_settles:
  assumes "reachable now st"
  shows "\<exists>st'. version_settled now reply st = (Inr (), st') \<and> reachable now st'
    \<and> fld ''version'' (obj_get st' ''litmusCoreVersion'') =
        (case rbind reply (js_get ''version'') of Inl e \<Rightarrow> JStr ''latest'' | Inr v \<Rightarrow> v)"
proof -
  have m: "(''litmusCoreVersion'', version_init, version_handlers) \<in> set (slices now)"
    by (simp add: slices_def)
  have obj: "is_obj (obj_get st ''litmusCoreVersion'')" using slices_keep_fields [OF assms m] by simp
  have "\<exists>st'. dispatch now (version_action v) st = (Inr (), st') \<and> reachable now st'
      \<and> fld ''version'' (obj_get st' ''litmusCoreVersion'') = v" for v
  proof -
    obtain st' where st': "rootReducer now st (version_action v) = Inr st'"
      "dispatch now (version_action v) st = (Inr (), st')"
      by (rule dispatch_total [of "version_action v" now st, rotated]) (auto simp: version_action_def)
    have "obj_get st' ''litmusCoreVersion'' = spread (obj_get st ''litmusCoreVersion'') [(''version'', v)]"
      using rootReducer_slice [OF st'(1) m] obj
      by (cases "obj_get st ''litmusCoreVersion''")
         (simp_all add: createReducer_def version_action_def version_handlers_def set_field_def)
    with st' obj reachable.step [OF assms st'(2)] show ?thesis by (simp add: fld_spread)
  qed
  note dis = this
  show ?thesis
  proof (cases "rbind reply (js_get ''version'')")
    case (Inl e)
    with dis [of "JStr ''latest''"] show ?thesis by (simp add: version_settled_def)
  next
    case (Inr v)
    with dis [of v] show ?thesis by (auto simp: version_settled_def)
  qed
qed

section \<open>The theorems on the initial store\<close>

theorem default_slice_mirrors_image_registry_witness:
  "obj_get (initial_state 0) ''default'' = obj_get (initial_state 0) ''selectedImageRegistry''"
  by (rule default_slice_mirrors_image_registry [OF reachable.start])

theorem actions_touch_their_slice_only_witness:
  "obj_get (snd (dispatch 0 (changeHubTabs 2) (initial_state 0))) ''alert''
    = obj_get (initial_state 0) ''alert''"
  by (rule actions_touch_their_slice_only [OF reachable.start, where k = "''alert''"
        and ini = alert_init and hs = alert_handlers])
     (auto simp: slices_def changeHubTabs_def alert_handlers_def intro: surjective_pairing)

theorem selection_survives_other_actions_witness:
  "fld ''isDisable'' (obj_get (run_actions 0 (\<lparr>atype = ''SELECT_TEMPLATE'', payload = JObj [(''isDisable'', JBool False)]\<rparr>
      # [changeSettingsTabs 1]) (initial_state 0)) ''selectTemplate'') = JBool False"
  using selection_survives_other_actions [OF reachable.start, where t = "''SELECT_TEMPLATE''"
      and k = "''selectTemplate''" and fs = "[(''isDisable'', JBool False)]" and now = 0
      and acts = "[changeSettingsTabs 1]" and f = "''isDisable''"]
  by (simp add: selection_slice_def changeSettingsTabs_def)

theorem load_always_settles_witness:
  "\<exists>st'. load_settled 0 (Inl TypeErr) (initial_state 0) = (Inr (), st')
    \<and> fld ''loading'' (obj_get st' ''communityData'') = JBool False
    \<and> fld ''error'' (obj_get st' ''communityData'') = JBool True"
  using load_always_settles [OF reachable.start, of 0 "Inl TypeErr"] by auto

theorem version_settles_witness:
  "\<exists>st'. version_settled 0 (Inr JNull) (initial_state 0) = (Inr (), st')
    \<and> fld ''version'' (obj_get st' ''litmusCoreVersion'') = JStr ''latest''"
  using version_settles [OF reachable.start, of 0 "Inr JNull"] by auto

end
