(* ===== verification/Regex.thy ===== *)
theory Regex
  imports JsString
begin

text \<open>
  Regular expressions as the program's validators use them: literals, classes,
  alternatives, sequences, stars and counted repetition. \<open>rx_match\<close> decides by
  derivatives whether a whole string matches, and \<open>rx_match_lang\<close> shows that it decides
  the language of the expression. Backtracking order and lazy quantifiers do not change
  whether an anchored expression matches.
\<close>

datatype rx =
    Zero
  | One
  | Cls "char \<Rightarrow> bool"
  | Seq rx rx
  | Alt rx rx
  | Star rx
  | Rep rx nat nat

definition conc :: "string set \<Rightarrow> string set \<Rightarrow> string set" where
  "conc A B = {u @ v | u v. u \<in> A \<and> v \<in> B}"

fun lpow :: "string set \<Rightarrow> nat \<Rightarrow> string set" where
  "lpow A 0 = {[]}"
| "lpow A (Suc n) = conc A (lpow A n)"

fun lang :: "rx \<Rightarrow> string set" where
  "lang Zero = {}"
| "lang One = {[]}"
| "lang (Cls P) = {[c] | c. P c}"
| "lang (Seq r s) = conc (lang r) (lang s)"
| "lang (Alt r s) = lang r \<union> lang s"
| "lang (Star r) = (\<Union>n. lpow (lang r) n)"
| "lang (Rep r m n) = (\<Union>k \<in> {m..n}. lpow (lang r) k)"

fun nullable :: "rx \<Rightarrow> bool" where
  "nullable Zero = False"
| "nullable One = True"
| "nullable (Cls P) = False"
| "nullable (Seq r s) = (nullable r \<and> nullable s)"
| "nullable (Alt r s) = (nullable r \<or> nullable s)"
| "nullable (Star r) = True"
| "nullable (Rep r m n) = (m \<le> n \<and> (m = 0 \<or> nullable r))"

fun deriv :: "char \<Rightarrow> rx \<Rightarrow> rx" where
  "deriv c Zero = Zero"
| "deriv c One = Zero"
| "deriv c (Cls P) = (if P c then One else Zero)"
| "deriv c (Seq r s) = (if nullable r then Alt (Seq (deriv c r) s) (deriv c s) else Seq (deriv c r) s)"
| "deriv c (Alt r s) = Alt (deriv c r) (deriv c s)"
| "deriv c (Star r) = Seq (deriv c r) (Star r)"
| "deriv c (Rep r m n) = (if m \<le> n \<and> 0 < n then Seq (deriv c r) (Rep r (m - 1) (n - 1)) else Zero)"

fun rx_match :: "rx \<Rightarrow> string \<Rightarrow> bool" where
  "rx_match r [] = nullable r"
| "rx_match r (c # s) = rx_match (deriv c r) s"

text \<open>Literals, one-or-more, options, and sequences of parts.\<close>

definition lit :: "char \<Rightarrow> rx" where
  "lit c = Cls (\<lambda>d. d = c)"

fun text_rx :: "string \<Rightarrow> rx" where
  "text_rx [] = One"
| "text_rx (c # s) = Seq (lit c) (text_rx s)"

definition plus :: "rx \<Rightarrow> rx" where
  "plus r = Seq r (Star r)"

definition opt :: "rx \<Rightarrow> rx" where
  "opt r = Alt One r"

fun seqs :: "rx list \<Rightarrow> rx" where
  "seqs [] = One"
| "seqs (r # rs) = Seq r (seqs rs)"

fun alts :: "rx list \<Rightarrow> rx" where
  "alts [] = Zero"
| "alts (r # rs) = Alt r (alts rs)"

section \<open>Derivatives decide the language\<close>

lemma concI: "u \<in> A \<Longrightarrow> v \<in> B \<Longrightarrow> u @ v \<in> conc A B"
  by (auto simp: conc_def)

lemma Nil_in_conc: "[] \<in> conc A B \<longleftrightarrow> [] \<in> A \<and> [] \<in> B"
  by (auto simp: conc_def)

lemma Nil_in_lpow: "[] \<in> lpow A n \<longleftrightarrow> n = 0 \<or> [] \<in> A"
  by (induction n) (auto simp: Nil_in_conc)

lemma nullable_lang: "nullable r \<longleftrightarrow> [] \<in> lang r"
proof (induction r)
  case (Rep r m n)
  then show ?case by (auto simp: Nil_in_lpow)
qed (auto simp: Nil_in_conc Nil_in_lpow)

lemma Cons_in_conc:
  "c # s \<in> conc A B \<longleftrightarrow> (\<exists>u v. c # u \<in> A \<and> v \<in> B \<and> s = u @ v) \<or> ([] \<in> A \<and> c # s \<in> B)"
  by (auto simp: conc_def Cons_eq_append_conv)

definition ders :: "char \<Rightarrow> string set \<Rightarrow> string set" where
  "ders c A = {s. c # s \<in> A}"

lemma ders_conc: "ders c (conc A B) = conc (ders c A) B \<union> (if [] \<in> A then ders c B else {})"
  unfolding ders_def using Cons_in_conc [of c _ A B] by (auto simp: conc_def)

lemma conc_UN: "conc A (\<Union>k \<in> K. B k) = (\<Union>k \<in> K. conc A (B k))"
  by (auto simp: conc_def)

lemma conc_Cls: "s \<in> conc {[c] | c. P c} B \<longleftrightarrow> (\<exists>c v. s = c # v \<and> P c \<and> v \<in> B)"
  by (auto simp: conc_def) (metis append_Cons append_Nil)

lemma conc_assoc: "conc (conc A B) C = conc A (conc B C)"
  by (auto simp: conc_def) (metis append_assoc)+

lemma conc_mono: "A \<subseteq> A' \<Longrightarrow> B \<subseteq> B' \<Longrightarrow> conc A B \<subseteq> conc A' B'"
  by (auto simp: conc_def)

lemma lpow_mono_nullable: "[] \<in> A \<Longrightarrow> m \<le> n \<Longrightarrow> lpow A m \<subseteq> lpow A n"
proof (induction n)
  case (Suc n)
  have "lpow A n \<subseteq> lpow A (Suc n)" using Suc.prems(1) by (force simp: conc_def)
  with Suc show ?case by (cases "m = Suc n") auto
qed simp

lemma ders_lpow: "ders c (lpow A n) \<subseteq> (if n = 0 then {} else conc (ders c A) (lpow A (n - 1)))"
proof (induction n)
  case (Suc n)
  have "ders c (lpow A n) \<subseteq> conc (ders c A) (lpow A n)" if "[] \<in> A"
  proof (cases n)
    case (Suc k)
    with \<open>ders c (lpow A n) \<subseteq> _\<close> have "ders c (lpow A n) \<subseteq> conc (ders c A) (lpow A k)" by simp
    also have "\<dots> \<subseteq> conc (ders c A) (lpow A n)"
      using lpow_mono_nullable [OF that, of k n] Suc by (intro conc_mono) auto
    finally show ?thesis .
  qed (simp add: ders_def)
  then show ?case by (auto simp: ders_conc)
qed (simp add: ders_def)

lemma ders_lpow_Suc: "conc (ders c A) (lpow A n) \<subseteq> ders c (lpow A (Suc n))"
  by (simp add: ders_conc)

lemma deriv_lang: "lang (deriv c r) = ders c (lang r)"
proof (induction r)
  case (Seq r s)
  then show ?case by (simp add: ders_conc nullable_lang)
next
  case (Star r)
  have "ders c (lang (Star r)) = conc (ders c (lang r)) (lang (Star r))"
  proof
    show "ders c (lang (Star r)) \<subseteq> conc (ders c (lang r)) (lang (Star r))"
    proof
      fix s assume "s \<in> ders c (lang (Star r))"
      then obtain n where "s \<in> ders c (lpow (lang r) n)" by (auto simp: ders_def)
      then have "s \<in> conc (ders c (lang r)) (lpow (lang r) (n - 1))"
        using ders_lpow [of c "lang r" n] by (auto split: if_splits)
      then show "s \<in> conc (ders c (lang r)) (lang (Star r))" by (auto simp: conc_def)
    qed
    show "conc (ders c (lang r)) (lang (Star r)) \<subseteq> ders c (lang (Star r))"
    proof
      fix s assume "s \<in> conc (ders c (lang r)) (lang (Star r))"
      then obtain n where "s \<in> conc (ders c (lang r)) (lpow (lang r) n)" by (auto simp: conc_def)
      then have "s \<in> ders c (lpow (lang r) (Suc n))" using ders_lpow_Suc by blast
      then show "s \<in> ders c (lang (Star r))" unfolding ders_def lang.simps by blast
    qed
  qed
  with Star show ?case by simp
next
  case (Rep r m n)
  show ?case
  proof (cases "m \<le> n \<and> 0 < n")
    case True
    have "ders c (lang (Rep r m n)) = conc (ders c (lang r)) (lang (Rep r (m - 1) (n - 1)))"
    proof
      show "ders c (lang (Rep r m n)) \<subseteq> conc (ders c (lang r)) (lang (Rep r (m - 1) (n - 1)))"
      proof
        fix s assume "s \<in> ders c (lang (Rep r m n))"
        then obtain k where k: "m \<le> k" "k \<le> n" "s \<in> ders c (lpow (lang r) k)" by (auto simp: ders_def)
        then have "0 < k" "s \<in> conc (ders c (lang r)) (lpow (lang r) (k - 1))"
          using ders_lpow [of c "lang r" k] by (auto split: if_splits)
        moreover have "k - 1 \<in> {m - 1..n - 1}" using k by auto
        ultimately show "s \<in> conc (ders c (lang r)) (lang (Rep r (m - 1) (n - 1)))"
          unfolding conc_def lang.simps by blast
      qed
      show "conc (ders c (lang r)) (lang (Rep r (m - 1) (n - 1))) \<subseteq> ders c (lang (Rep r m n))"
      proof
        fix s assume "s \<in> conc (ders c (lang r)) (lang (Rep r (m - 1) (n - 1)))"
        then obtain k where k: "m - 1 \<le> k" "k \<le> n - 1" "s \<in> conc (ders c (lang r)) (lpow (lang r) k)"
          by (auto simp: conc_UN)
        then have "s \<in> ders c (lpow (lang r) (Suc k))" using ders_lpow_Suc by blast
        moreover have "Suc k \<in> {m..n}" using k True by auto
        ultimately show "s \<in> ders c (lang (Rep r m n))" unfolding ders_def lang.simps by blast
      qed
    qed
    with True Rep show ?thesis by simp
  next
    case False
    then have "{m..n} = {} \<or> (m = 0 \<and> n = 0)" by auto
    then have "ders c (lang (Rep r m n)) = {}" by (auto simp: ders_def)
    moreover have "deriv c (Rep r m n) = Zero" using False by simp
    ultimately show ?thesis by (simp only: lang.simps(1))
  qed
qed (auto simp: ders_def)

theorem rx_match_lang: "rx_match r s \<longleftrightarrow> s \<in> lang r"
  by (induction s arbitrary: r) (simp_all add: nullable_lang deriv_lang ders_def)

section \<open>Languages of the building blocks\<close>

lemma lpow_Cls: "s \<in> lpow {[c] | c. P c} n \<longleftrightarrow> length s = n \<and> (\<forall>c \<in> set s. P c)"
  by (induction n arbitrary: s) (auto simp: conc_Cls length_Suc_conv)

lemma lang_Star_Cls [simp]: "lang (Star (Cls P)) = {s. \<forall>c \<in> set s. P c}"
  by (auto simp: lpow_Cls)

lemma lang_Rep_Cls [simp]: "lang (Rep (Cls P) m n) = {s. m \<le> length s \<and> length s \<le> n \<and> (\<forall>c \<in> set s. P c)}"
  by (auto simp: lpow_Cls)

lemma lang_plus_Cls [simp]: "lang (plus (Cls P)) = {s. s \<noteq> [] \<and> (\<forall>c \<in> set s. P c)}"
proof -
  have "s \<in> lang (plus (Cls P)) \<longleftrightarrow> s \<noteq> [] \<and> (\<forall>c \<in> set s. P c)" for s
    by (cases s) (auto simp: plus_def conc_Cls simp del: lang.simps(6))
  then show ?thesis by blast
qed

lemma lang_lit [simp]: "lang (lit c) = {[c]}"
  by (auto simp: lit_def)

lemma lang_text [simp]: "lang (text_rx s) = {s}"
  by (induction s) (auto simp: conc_def)

declare lang.simps(6,7) [simp del]

end
