(* ===== verification/Validation.thy ===== *)
theory Validation
  imports Regex
begin

text \<open>
  \<open>utils/validate.ts\<close>. Each pattern is the regular expression of the source; the
  theorems say in plain predicates which inputs pass. The \<open>cronstrue\<close> and
  \<open>cron-parser\<close> packages are parameters.
\<close>

definition is_alpha :: "char \<Rightarrow> bool" where
  "is_alpha c = (is_lower c \<or> is_upper c)"

definition is_alnum :: "char \<Rightarrow> bool" where
  "is_alnum c = (is_alpha c \<or> is_digit c)"

definition is_word :: "char \<Rightarrow> bool" where
  "is_word c = (is_alnum c \<or> c = CHR ''_'')"

definition not_newline :: "char \<Rightarrow> bool" where
  "not_newline c = (c \<noteq> CHR 0x0A \<and> c \<noteq> CHR 0x0D)"

definition validateTextEmpty :: "string \<Rightarrow> bool" where
  "validateTextEmpty value = (js_trim value = '''')"

definition validateStartEmptySpacing :: "string \<Rightarrow> bool" where
  "validateStartEmptySpacing value = (js_char_at value 0 = '' '')"

section \<open>Patterns\<close>

definition email_atom :: "char \<Rightarrow> bool" where
  "email_atom c = (c \<notin> set ''<>()[].,;:@'' \<and> c \<noteq> CHR 0x5C \<and> \<not> js_space c \<and> c \<noteq> CHR 0x22)"

definition ip_part :: rx where
  "ip_part = Rep (Cls is_digit) 1 3"

definition emailValid :: rx where
  "emailValid = seqs
     [alts [Seq (plus (Cls email_atom)) (Star (Seq (lit CHR ''.'') (plus (Cls email_atom)))),
            seqs [lit CHR 0x22, plus (Cls not_newline), lit CHR 0x22]],
      lit CHR ''@'',
      alts [seqs [lit CHR ''['', ip_part, lit CHR ''.'', ip_part, lit CHR ''.'', ip_part, lit CHR ''.'',
                  ip_part, lit CHR '']''],
            Seq (plus (Seq (plus (Cls (\<lambda>c. is_alnum c \<or> c = CHR ''-''))) (lit CHR ''.'')))
                (Seq (Rep (Cls is_alpha) 2 2) (Star (Cls is_alpha)))]]"

definition subject_char :: "char \<Rightarrow> bool" where
  "subject_char c = (is_alnum c \<or> c \<in> set ''-._'')"

definition subjectValid :: rx where
  "subjectValid = Rep (Cls subject_char) 0 63"

definition workflow_char :: "char \<Rightarrow> bool" where
  "workflow_char c = (is_lower c \<or> is_digit c \<or> c = CHR ''-'')"

definition workflowValid :: rx where
  "workflowValid = Rep (Cls workflow_char) 0 54"

text \<open>A lookahead \<open>(?=.*x)\<close> at the start asks for a first line with an \<open>x\<close>.\<close>

definition lookahead :: "(char \<Rightarrow> bool) \<Rightarrow> string \<Rightarrow> bool" where
  "lookahead P s = (\<exists>c \<in> set (takeWhile not_newline s). P c)"

definition passValid :: "string \<Rightarrow> bool" where
  "passValid s = (lookahead is_digit s \<and> lookahead is_lower s \<and> lookahead is_upper s
     \<and> rx_match (Rep (Cls not_newline) 6 20) s)"

definition onlyAlphaValid :: rx where
  "onlyAlphaValid = plus (Cls is_alpha)"

definition timeInSecondsValid :: rx where
  "timeInSecondsValid = Seq (plus (Cls is_digit)) (lit CHR ''s'')"

definition workflowParameterValid :: rx where
  "workflowParameterValid = seqs [lit CHR ''{'', plus (Cls is_alnum), lit CHR ''}'']"

text \<open>
  The web address of \<open>isValidWebUrl\<close>. Its word boundary stands between a part of up to
  six characters, alphanumeric or a parenthesis, and the rest: either the part ends in
  an alphanumeric and the rest is empty or starts with a non-word character, or it
  ends in a parenthesis and the rest starts with a word character.
\<close>

definition url_host :: "char \<Rightarrow> bool" where
  "url_host c = (is_alnum c \<or> c \<in> set ''-@:%._+~#='')"

definition url_rest :: "char \<Rightarrow> bool" where
  "url_rest c = (is_alnum c \<or> c \<in> set ''-()@:%_+.~#?&/='')"

definition url_end :: rx where
  "url_end =
     (let part = Rep (Cls (\<lambda>c. is_alnum c \<or> c \<in> set ''()'')) 0 5; rest = Star (Cls url_rest) in
      alts [seqs [part, Cls is_alnum, alts [One, Seq (Cls (\<lambda>c. url_rest c \<and> \<not> is_word c)) rest]],
            seqs [part, Cls (\<lambda>c. c \<in> set ''()''), Cls (\<lambda>c. url_rest c \<and> is_word c), rest]])"

definition url_rx :: rx where
  "url_rx = seqs [alts [text_rx ''http'', text_rx ''https''], text_rx ''://'', opt (text_rx ''www.''),
     Rep (Cls url_host) 1 256, lit CHR ''.'', url_end]"

definition local_rx :: rx where
  "local_rx = seqs [text_rx ''http://localhost:'', Rep (Cls is_digit) 1 4]"

text \<open>In the two address patterns the separators are written with a doubled backslash:
  a backslash and any character, and a backslash and a colon.\<close>

definition octet :: rx where
  "octet = alts [Cls is_digit, Seq (Cls (\<lambda>c. is_digit c \<and> c \<noteq> CHR ''0'')) (Cls is_digit),
     seqs [lit CHR ''1'', Cls is_digit, Cls is_digit],
     seqs [lit CHR ''2'', Cls (\<lambda>c. c \<in> set ''01234''), Cls is_digit],
     seqs [text_rx ''25'', Cls (\<lambda>c. c \<in> set ''012345'')]]"

definition ipv4_rx :: rx where
  "ipv4_rx = seqs [text_rx ''http://'', Rep (seqs [octet, lit CHR 0x5C, Cls not_newline]) 3 3, octet,
     lit CHR '':'', Rep (Cls is_digit) 1 4]"

definition hex_char :: "char \<Rightarrow> bool" where
  "hex_char c = (is_digit c \<or> (CHR ''a'' \<le> c \<and> c \<le> CHR ''f'') \<or> (CHR ''A'' \<le> c \<and> c \<le> CHR ''F''))"

definition ipv6_rx :: rx where
  "ipv6_rx = seqs [text_rx ''http://'', Rep (seqs [Rep (Cls hex_char) 1 4, lit CHR 0x5C, lit CHR '':'']) 7 7,
     Rep (Cls hex_char) 1 4, lit CHR '':'', Rep (Cls is_digit) 1 4]"

text \<open>Letters of a pattern with the flag \<open>i\<close>.\<close>

fun text_ci :: "string \<Rightarrow> rx" where
  "text_ci [] = One"
| "text_ci (c # s) = Seq (Cls (\<lambda>d. lower_char d = lower_char c)) (text_ci s)"

definition ssh_rx :: rx where
  "ssh_rx = seqs
     [alts [Seq (plus (Cls is_alnum)) (lit CHR ''@''),
            seqs [text_ci ''http'', alts [One, text_ci ''s''], text_rx ''://'']],
      Seq (plus (Cls url_host)) (opt (Seq (lit CHR '':'') (plus (Cls is_digit)))),
      Cls (\<lambda>c. c \<in> set '':/''),
      plus (Cls (\<lambda>c. is_word c \<or> c \<in> set ''/.-'')),
      opt (text_ci ''.git'')]"

text \<open>The first pattern has the flag \<open>m\<close>: one line of the text must match it.\<close>

fun lines_of :: "string \<Rightarrow> string list" where
  "lines_of [] = [[]]"
| "lines_of (c # s) = (if not_newline c then (case lines_of s of l # ls \<Rightarrow> (c # l) # ls | [] \<Rightarrow> [[c]])
                       else [] # lines_of s)"

section \<open>Validators\<close>

text \<open>True means that the input is to be refused, but for the last five.\<close>

definition refuses :: "(string \<Rightarrow> bool) \<Rightarrow> string \<Rightarrow> bool" where
  "refuses valid value = (if length value > 0 then \<not> valid value else False)"

definition validateEmail :: "string \<Rightarrow> bool" where
  "validateEmail value = refuses (rx_match emailValid) value"

definition validateSubject :: "string \<Rightarrow> bool" where
  "validateSubject value = refuses (rx_match subjectValid) value"

definition validateWorkflowName :: "string \<Rightarrow> bool" where
  "validateWorkflowName value = refuses (rx_match workflowValid) value"

definition validateProbeName :: "js \<Rightarrow> string \<Rightarrow> bool result" where
  "validateProbeName allProbe probeName =
     rbind (js_get ''length'' allProbe) (\<lambda>n. if truthy n
       then rbind (js_elems allProbe) (\<lambda>ps.
            rbind (mapR (\<lambda>p. rbind (js_get ''name'' p) (\<lambda>v. rmap js_lower (js_string v))) ps) (\<lambda>names.
            Inr (filter (\<lambda>nm. nm = probeName) names \<noteq> [])))
       else Inr False)"

definition validatePassword :: "string \<Rightarrow> bool" where
  "validatePassword value = refuses passValid value"

definition validateConfirmPassword :: "string \<Rightarrow> string \<Rightarrow> bool" where
  "validateConfirmPassword password confirmPassword =
     (if length password > 0 \<and> length confirmPassword > 0 then confirmPassword \<noteq> password else False)"

definition validateOnlyAlphabet :: "string \<Rightarrow> bool" where
  "validateOnlyAlphabet value = (\<not> rx_match onlyAlphaValid value)"

definition validateLength :: "string \<Rightarrow> bool" where
  "validateLength value = (\<not> length value > 0)"

definition isValidWebUrl :: "string \<Rightarrow> bool" where
  "isValidWebUrl value = (list_ex (rx_match url_rx) (lines_of value) \<or> rx_match local_rx value
     \<or> rx_match ipv4_rx value \<or> rx_match ipv6_rx value \<or> rx_match ssh_rx value)"

definition validateTimeInSeconds :: "string \<Rightarrow> bool" where
  "validateTimeInSeconds value = (if length value > 1 then rx_match timeInSecondsValid value else False)"

definition validateWorkflowParameter :: "string \<Rightarrow> bool" where
  "validateWorkflowParameter value = refuses (rx_match workflowParameterValid) value"

definition validateCronSyntax :: "(string \<Rightarrow> string result) \<Rightarrow> string \<Rightarrow> string" where
  "validateCronSyntax cronstrue cronSyntax =
     (case cronstrue cronSyntax of Inr t \<Rightarrow> t | Inl e \<Rightarrow> ''invalid cron syntax'')"

definition validateCronParser :: "(string \<Rightarrow> string result) \<Rightarrow> string \<Rightarrow> string" where
  "validateCronParser next_date cronSyntax =
     (case next_date cronSyntax of Inr t \<Rightarrow> t | Inl e \<Rightarrow> ''invalid cron syntax'')"

section \<open>What the validators accept\<close>

named_theorems accepts

lemma refuses_iff: "\<not> refuses valid v \<longleftrightarrow> v = '''' \<or> valid v"
  by (auto simp: refuses_def)

theorem validateWorkflowName_accepts:
  "\<not> validateWorkflowName v \<longleftrightarrow> length v \<le> 54 \<and> list_all (\<lambda>c. is_lower c \<or> is_digit c \<or> c = CHR ''-'') v"
  by (auto simp: validateWorkflowName_def refuses_iff rx_match_lang workflowValid_def workflow_char_def list_all_iff)

lemma validateSubject_accepts:
  "\<not> validateSubject v \<longleftrightarrow> length v \<le> 63 \<and> (\<forall>c \<in> set v. subject_char c)"
  by (auto simp: validateSubject_def refuses_iff rx_match_lang subjectValid_def)

lemma validateOnlyAlphabet_accepts:
  "\<not> validateOnlyAlphabet v \<longleftrightarrow> v \<noteq> '''' \<and> (\<forall>c \<in> set v. is_alpha c)"
  by (auto simp: validateOnlyAlphabet_def rx_match_lang onlyAlphaValid_def)

lemma takeWhile_all: "(\<And>c. c \<in> set s \<Longrightarrow> P c) \<Longrightarrow> takeWhile P s = s"
  by (simp add: takeWhile_eq_all_conv)

theorem validatePassword_accepts:
  "\<not> validatePassword v \<longleftrightarrow> v = '''' \<or> (6 \<le> length v \<and> length v \<le> 20 \<and> list_all not_newline v
     \<and> list_ex is_digit v \<and> list_ex is_lower v \<and> list_ex is_upper v)"
proof -
  have "passValid v \<longleftrightarrow> (6 \<le> length v \<and> length v \<le> 20 \<and> (\<forall>c \<in> set v. not_newline c)
     \<and> (\<exists>c \<in> set v. is_digit c) \<and> (\<exists>c \<in> set v. is_lower c) \<and> (\<exists>c \<in> set v. is_upper c))"
    by (cases "\<forall>c \<in> set v. not_newline c")
       (auto simp: passValid_def lookahead_def rx_match_lang takeWhile_all)
  then show ?thesis by (simp add: validatePassword_def refuses_iff list_all_iff list_ex_iff)
qed

text \<open>A time in seconds is a printed number and the letter \<open>s\<close>; \<open>parseInt\<close> reads it.\<close>

lemma conc_singleton: "s \<in> conc A {t} \<longleftrightarrow> (\<exists>u. u \<in> A \<and> s = u @ t)"
  by (auto simp: conc_def)

lemma validateTimeInSeconds_iff:
  "validateTimeInSeconds v \<longleftrightarrow> (\<exists>ds. v = ds @ ''s'' \<and> ds \<noteq> '''' \<and> (\<forall>c \<in> set ds. is_digit c))"
  by (auto simp: validateTimeInSeconds_def timeInSecondsValid_def rx_match_lang conc_singleton neq_Nil_conv)

theorem validateTimeInSeconds_reads:
  "validateTimeInSeconds (show_nat n @ ''s'') \<and> parse_int (show_nat n @ ''s'') = Some (int n)"
proof
  show "validateTimeInSeconds (show_nat n @ ''s'')"
    unfolding validateTimeInSeconds_iff
    by (intro exI [of _ "show_nat n"]) (auto dest!: show_nat_digits simp: digit_char_props)
  obtain c u where cu: "show_nat n = c # u" "\<not> js_space c" "c \<noteq> CHR ''-''" "c \<noteq> CHR ''+''"
    by (rule show_nat_head)
  have "\<not> is_digit CHR ''s''" by (simp add: is_digit_def less_eq_char_def)
  then have "takeWhile is_digit (show_nat n @ ''s'') = show_nat n"
    by (subst takeWhile_append2) (auto dest!: show_nat_digits simp: digit_char_props)
  then show "parse_int (show_nat n @ ''s'') = Some (int n)"
    using cu read_show_nat [of n] by (simp add: parse_int_def Let_def)
qed

lemma validateWorkflowParameter_accepts:
  "\<not> validateWorkflowParameter v \<longleftrightarrow> v = '''' \<or>
     (\<exists>n. v = CHR ''{'' # n @ ''}'' \<and> n \<noteq> '''' \<and> (\<forall>c \<in> set n. is_alnum c))"
proof -
  have "v \<in> lang workflowParameterValid \<longleftrightarrow> (\<exists>n. v = CHR ''{'' # n @ ''}'' \<and> n \<noteq> '''' \<and> (\<forall>c \<in> set n. is_alnum c))"
    unfolding workflowParameterValid_def seqs.simps lang.simps lang_lit lang_plus_Cls
    by (auto simp: conc_def)
  then show ?thesis by (simp add: validateWorkflowParameter_def refuses_iff rx_match_lang)
qed

text \<open>
  Probe names are compared in lower case with the name as it is typed: a typed name with
  an upper-case letter is never found to be taken.
\<close>

lemma js_lower_no_upper: "c \<in> set (js_lower s) \<Longrightarrow> \<not> is_upper c"
proof -
  assume "c \<in> set (js_lower s)"
  then obtain d where d: "c = lower_char d" by (auto simp: js_lower_def)
  show ?thesis
    unfolding d by (cases d) (simp add: lower_char_def is_upper_def less_eq_char_def)
qed

definition probe_named :: "string \<Rightarrow> js" where
  "probe_named n = JObj [(''name'', JStr n)]"

lemma validateProbeName_probes:
  "validateProbeName (JArr (map probe_named ns)) nm = Inr (nm \<in> js_lower ` set ns)"
proof -
  have "mapR (\<lambda>p. rbind (js_get ''name'' p) (\<lambda>v. rmap js_lower (js_string v))) (map probe_named ns) = Inr (map js_lower ns)"
    by (induction ns) (simp_all add: probe_named_def)
  moreover have "ns \<noteq> []" if "0 \<noteq> length ns" using that by auto
  ultimately show ?thesis
    by (auto simp: validateProbeName_def filter_empty_conv)
qed

theorem validateProbeName_misses_upper_case:
  assumes "\<exists>c \<in> set nm. is_upper c"
  shows "validateProbeName (JArr (map probe_named (nm # ns))) nm = Inr False"
proof -
  have "nm \<noteq> js_lower n" for n using assms js_lower_no_upper by metis
  then show ?thesis unfolding validateProbeName_probes by auto
qed

theorem validateProbeName_misses_upper_case_witness:
  "validateProbeName (JArr (map probe_named [''Check''])) ''Check'' = Inr False"
  by (rule validateProbeName_misses_upper_case) (simp add: is_upper_def less_eq_char_def)

end
