(* ===== verification/Formatting.thy ===== *)
theory Formatting
  imports JsString "HOL-Library.Multiset"
begin

text \<open>
  The small formatting and ordering utilities: \<open>formatCount\<close>, \<open>datesModifier\<close>,
  \<open>timeDifferenceString\<close>, \<open>userInitials\<close>, \<open>trim\<close>, \<open>capitalize\<close>, \<open>createSVGNode\<close> and
  the comparators of \<open>sort.ts\<close> with \<open>Array.prototype.sort\<close>, which is stable.
\<close>

section \<open>Comparators and sorting\<close>

definition sortAlphaAsc :: "string \<Rightarrow> string \<Rightarrow> int" where
  "sortAlphaAsc a b = (if a = b then 0 else if a < b then - 1 else 1)"

definition sortAlphaDesc :: "string \<Rightarrow> string \<Rightarrow> int" where
  "sortAlphaDesc a b = (if a = b then 0 else if a > b then - 1 else 1)"

definition sortNumAsc :: "'a :: linorder \<Rightarrow> 'a \<Rightarrow> int" where
  "sortNumAsc a b = (if a = b then 0 else if a < b then - 1 else 1)"

definition sortNumDesc :: "'a :: linorder \<Rightarrow> 'a \<Rightarrow> int" where
  "sortNumDesc a b = (if a = b then 0 else if a > b then - 1 else 1)"

fun insert_by :: "('a \<Rightarrow> 'a \<Rightarrow> int) \<Rightarrow> 'a \<Rightarrow> 'a list \<Rightarrow> 'a list" where
  "insert_by cmp x [] = [x]"
| "insert_by cmp x (y # ys) = (if cmp x y \<le> 0 then x # y # ys else y # insert_by cmp x ys)"

definition js_sort :: "('a \<Rightarrow> 'a \<Rightarrow> int) \<Rightarrow> 'a list \<Rightarrow> 'a list" where
  "js_sort cmp xs = foldr (insert_by cmp) xs []"

lemma mset_insert_by: "mset (insert_by cmp x ys) = add_mset x (mset ys)"
  by (induction ys) auto

lemma mset_js_sort: "mset (js_sort cmp xs) = mset xs"
  by (induction xs) (simp_all add: js_sort_def mset_insert_by)

lemma set_js_sort: "set (js_sort cmp xs) = set xs"
  using mset_js_sort by (metis set_mset_mset)

text \<open>What \<open>sort\<close> asks of a comparator.\<close>

locale comparator =
  fixes cmp :: "'a \<Rightarrow> 'a \<Rightarrow> int"
  assumes same: "cmp a a = 0"
    and flip: "cmp a b < 0 \<longleftrightarrow> 0 < cmp b a"
    and trans: "cmp a b \<le> 0 \<Longrightarrow> cmp b c \<le> 0 \<Longrightarrow> cmp a c \<le> 0"
begin

lemma insert_sorted:
  "sorted_wrt (\<lambda>a b. cmp a b \<le> 0) ys \<Longrightarrow> sorted_wrt (\<lambda>a b. cmp a b \<le> 0) (insert_by cmp x ys)"
proof (induction ys)
  case (Cons y ys)
  show ?case
  proof (cases "cmp x y \<le> 0")
    case True
    then have "cmp x z \<le> 0" if "z \<in> set ys" for z using trans [of x y z] Cons.prems that by simp
    with True Cons.prems show ?thesis by simp
  next
    case False
    then have "cmp y x \<le> 0" using flip [of y x] by linarith
    moreover have "set (insert_by cmp x ys) = insert x (set ys)"
      using mset_insert_by [of cmp x ys] by (metis set_mset_add_mset_insert set_mset_mset)
    ultimately show ?thesis using False Cons by simp
  qed
qed simp

lemma sort_sorted: "sorted_wrt (\<lambda>a b. cmp a b \<le> 0) (js_sort cmp xs)"
  by (induction xs) (simp_all add: js_sort_def insert_sorted)

lemma cmp_eq_iff: "cmp a b = 0 \<longleftrightarrow> cmp a b \<le> 0 \<and> cmp b a \<le> 0"
  using flip [of a b] flip [of b a] by linarith

lemma insert_filter:
  "filter (\<lambda>y. cmp z y = 0) (insert_by cmp x ys) =
   (if cmp z x = 0 then x # filter (\<lambda>y. cmp z y = 0) ys else filter (\<lambda>y. cmp z y = 0) ys)"
proof (induction ys)
  case (Cons y ys)
  show ?case
  proof (cases "cmp x y \<le> 0")
    case False
    then have "\<not> (cmp z x = 0 \<and> cmp z y = 0)"
      using trans [of x z y] cmp_eq_iff by blast
    with False Cons show ?thesis by auto
  qed simp
qed simp

lemma sort_stable: "filter (\<lambda>y. cmp z y = 0) (js_sort cmp xs) = filter (\<lambda>y. cmp z y = 0) xs"
  by (induction xs) (simp_all add: js_sort_def insert_filter)

end

locale reversed_comparator = comparator +
  fixes rcmp :: "'a \<Rightarrow> 'a \<Rightarrow> int"
  assumes reversed: "rcmp a b = cmp b a"

sublocale reversed_comparator \<subseteq> rev: comparator rcmp
proof
  show "rcmp a a = 0" for a by (simp add: reversed same)
  show "rcmp a b < 0 \<longleftrightarrow> 0 < rcmp b a" for a b by (simp add: reversed flip)
  show "rcmp a b \<le> 0 \<Longrightarrow> rcmp b c \<le> 0 \<Longrightarrow> rcmp a c \<le> 0" for a b c
    using trans [of c b a] by (simp add: reversed)
qed

interpretation alpha: reversed_comparator sortAlphaAsc sortAlphaDesc
  by unfold_locales (auto simp: sortAlphaAsc_def sortAlphaDesc_def split: if_splits)

interpretation num: reversed_comparator sortNumAsc sortNumDesc
  by unfold_locales (auto simp: sortNumAsc_def sortNumDesc_def split: if_splits)

theorem sort_by_the_comparators:
  "js_sort sortAlphaAsc ss = sort ss \<and> js_sort sortAlphaDesc ss = rev (sort ss)
    \<and> js_sort sortNumAsc ns = sort ns \<and> js_sort sortNumDesc ns = rev (sort ns)"
proof -
  have asc: "sorted xs" if "sorted_wrt (\<lambda>a b. c a b \<le> 0) xs" "\<And>a b. c a b \<le> 0 \<longleftrightarrow> a \<le> b"
    for c :: "'b :: linorder \<Rightarrow> 'b \<Rightarrow> int" and xs
    using that by (simp add: sorted_wrt_iff_nth_less sorted_iff_nth_mono_less)
  have desc: "sorted (rev xs)" if "sorted_wrt (\<lambda>a b. c a b \<le> 0) xs" "\<And>a b. c a b \<le> 0 \<longleftrightarrow> b \<le> a"
    for c :: "'b :: linorder \<Rightarrow> 'b \<Rightarrow> int" and xs
    using that by (simp add: sorted_wrt_rev)
  have a: "sortAlphaAsc a b \<le> 0 \<longleftrightarrow> a \<le> b" "sortAlphaDesc a b \<le> 0 \<longleftrightarrow> b \<le> a" for a b
    by (auto simp: sortAlphaAsc_def sortAlphaDesc_def)
  have n: "sortNumAsc a b \<le> 0 \<longleftrightarrow> a \<le> b" "sortNumDesc a b \<le> 0 \<longleftrightarrow> b \<le> a" for a b
    by (auto simp: sortNumAsc_def sortNumDesc_def)
  have "js_sort sortAlphaAsc ss = sort ss"
    by (rule properties_for_sort [symmetric]) (simp_all add: mset_js_sort asc [OF alpha.sort_sorted a(1)])
  moreover have "js_sort sortNumAsc ns = sort ns"
    by (rule properties_for_sort [symmetric]) (simp_all add: mset_js_sort asc [OF num.sort_sorted n(1)])
  moreover have "rev (js_sort sortAlphaDesc ss) = sort ss"
    by (rule properties_for_sort [symmetric]) (simp_all add: mset_js_sort desc [OF alpha.rev.sort_sorted a(2)])
  moreover have "rev (js_sort sortNumDesc ns) = sort ns"
    by (rule properties_for_sort [symmetric]) (simp_all add: mset_js_sort desc [OF num.rev.sort_sorted n(2)])
  ultimately show ?thesis by (metis rev_rev_ident)
qed

section \<open>Names and labels\<close>

definition trimString :: "string \<Rightarrow> int \<Rightarrow> string" where
  "trimString s len = (if int (length s) > len then js_substring s 0 len @ ''...'' else s)"

definition capitalize :: "string \<Rightarrow> string" where
  "capitalize str = (case str of c # s \<Rightarrow>
     (if is_lower c \<or> is_upper c \<or> is_digit c \<or> c = CHR ''_'' then upper_char c # s else str) | [] \<Rightarrow> [])"

text \<open>\<open>nameArray[i][0].toUpperCase()\<close> of an empty word throws.\<close>

definition initial_of :: "string \<Rightarrow> string result" where
  "initial_of w = (case w of [] \<Rightarrow> Inl TypeErr | c # _ \<Rightarrow> Inr [upper_char c])"

definition userInitials :: "string \<Rightarrow> string" where
  "userInitials name = (let nameArray = js_split (js_trim name) '' '' in
     case (if length nameArray < 2 then initial_of (nameArray ! 0)
           else rbind (initial_of (nameArray ! 0)) (\<lambda>a.
                rbind (initial_of (last nameArray)) (\<lambda>b. Inr (a @ b)))) of
       Inl e \<Rightarrow> '''' | Inr s \<Rightarrow> s)"

definition kebab :: "string \<Rightarrow> string" where
  "kebab p = concat (map (\<lambda>c. if is_upper c then [CHR ''-'', lower_char c] else [c]) p)"

text \<open>The attributes \<open>getNode\<close> sets on a new node, in the order of the object's keys.\<close>

definition getNode :: "string \<Rightarrow> (string \<times> js) list \<Rightarrow> string \<times> (string \<times> js) list" where
  "getNode ty attr = (ty, map (\<lambda>(p, v). (kebab p, v)) attr)"

lemma trimString_length: "0 \<le> len \<Longrightarrow> int (length (trimString s len)) \<le> max (len + 3) 3"
  using js_substring_take [of s "nat len"] by (auto simp: trimString_def)

lemma js_join_ends:
  "ws \<noteq> [] \<Longrightarrow> \<forall>w \<in> set ws. w \<noteq> '''' \<Longrightarrow>
   js_join sep ws \<noteq> '''' \<and> hd (js_join sep ws) = hd (hd ws) \<and> last (js_join sep ws) = last (last ws)"
  by (induction sep ws rule: js_join.induct) auto

theorem userInitials_of_words:
  assumes "ws \<noteq> []" and "\<And>w. w \<in> set ws \<Longrightarrow> w \<noteq> '''' \<and> (\<forall>c \<in> set w. \<not> js_space c)"
  shows "userInitials (js_join '' '' ws) =
    (if length ws = 1 then [upper_char (hd (hd ws))]
     else [upper_char (hd (hd ws)), upper_char (hd (last ws))])"
proof -
  have sp: "CHR '' '' \<notin> set w" if "w \<in> set ws" for w using assms(2) [OF that] by (auto simp: js_space_def)
  have split: "js_split (js_join '' '' ws) '' '' = ws"
    using split_join_char [OF assms(1), of "CHR '' ''"] sp by (simp add: js_split_def)
  have ends_join: "js_join '' '' ws \<noteq> ''''" "hd (js_join '' '' ws) = hd (hd ws)"
    "last (js_join '' '' ws) = last (last ws)"
    using js_join_ends [OF assms(1)] assms(2) by auto
  have ends: "hd ws \<in> set ws" "last ws \<in> set ws" using assms(1) by auto
  have "\<not> js_space (hd (hd ws))" "\<not> js_space (last (last ws))"
    using assms(2) [OF ends(1)] assms(2) [OF ends(2)] hd_in_set last_in_set by blast+
  then have trim: "js_trim (js_join '' '' ws) = js_join '' '' ws"
    using ends_join by (intro js_trim_tight) auto
  have ini: "initial_of w = Inr [upper_char (hd w)]" if "w \<in> set ws" for w
    using assms(2) [OF that] by (cases w) (auto simp: initial_of_def)
  have "ws ! 0 = hd ws" using assms(1) by (simp add: hd_conv_nth)
  moreover have "length ws < 2 \<longleftrightarrow> length ws = 1" using assms(1) by (cases ws) auto
  ultimately show ?thesis
    using ini ends by (auto simp: userInitials_def Let_def trim split)
qed

section \<open>Counts\<close>

text \<open>\<open>(k / 10).toFixed(1)\<close> of a natural number \<open>k\<close>.\<close>

definition tenths :: "nat \<Rightarrow> string" where
  "tenths k = show_nat (k div 10) @ ''.'' @ show_nat (k mod 10)"

definition formatCount :: "int option \<Rightarrow> string" where
  "formatCount cnt = (case cnt of
      None \<Rightarrow> ''0''
    | Some n \<Rightarrow>
        (if n = 0 then ''0''
         else if n \<ge> 1000000 then tenths (nat (n div 100000)) @ ''M''
         else if n \<ge> 1000 then tenths (nat (n div 100)) @ ''k''
         else show_int n))"

lemma tenths_inj: "tenths j = tenths k \<longleftrightarrow> j = k"
proof
  assume eq: "tenths j = tenths k"
  have dot: "CHR ''.'' \<notin> set (show_nat n)" for n
  proof
    assume "CHR ''.'' \<in> set (show_nat n)"
    then obtain d where "d < 10" "CHR ''.'' = digit_char d" using show_nat_digits by blast
    then have "is_digit CHR ''.''" using digit_char_props(1) [of d] by simp
    then show False by (simp add: is_digit_def less_eq_char_def)
  qed
  have "split_on ''.'' (tenths n) = [show_nat (n div 10), show_nat (n mod 10)]" for n
    using split_join_char [of "[show_nat (n div 10), show_nat (n mod 10)]" "CHR ''.''"] dot
    by (auto simp: tenths_def)
  with eq have "j div 10 = k div 10 \<and> j mod 10 = k mod 10" by (metis list.inject show_nat_inj)
  then show "j = k" by (metis div_mult_mod_eq)
qed simp

text \<open>Two counts are shown alike exactly when they agree in the shown precision; the
  shown value is the count rounded down.\<close>

definition shown_unit :: "int \<Rightarrow> int" where
  "shown_unit n = (if n \<ge> 1000000 then 100000 else if n \<ge> 1000 then 100 else 1)"

lemma last_show_int: "last (show_int n) \<noteq> CHR ''M'' \<and> last (show_int n) \<noteq> CHR ''k''"
proof -
  have dig: "last (show_nat m) \<noteq> CHR ''M'' \<and> last (show_nat m) \<noteq> CHR ''k''" for m
  proof -
    have "last (show_nat m) \<in> set (show_nat m)" by simp
    then obtain d where "d < 10" "last (show_nat m) = digit_char d" using show_nat_digits by blast
    then show ?thesis using digit_char_props(1) [of d] by (auto simp: is_digit_def less_eq_char_def)
  qed
  then show ?thesis by (simp add: show_int_def)
qed

theorem formatCount_equal_iff:
  assumes "0 < m" and "0 < n"
  shows "formatCount (Some m) = formatCount (Some n) \<longleftrightarrow>
    shown_unit m = shown_unit n \<and> m div shown_unit m = n div shown_unit n"
proof -
  have suf: "x @ [c] = y @ [d] \<Longrightarrow> c = d" for x y :: string and c d by simp
  have int: "show_int i = show_int j \<longleftrightarrow> i = j" for i j by (metis parse_show_int option.inject)
  have ne: "tenths k @ [c] \<noteq> show_int i" if "c \<in> {CHR ''M'', CHR ''k''}" for k i c
  proof
    assume eq: "tenths k @ [c] = show_int i"
    have "last (show_int i) = c" unfolding eq [symmetric] by simp
    with last_show_int [of i] that show False by auto
  qed
  have n1: "tenths k @ ''M'' \<noteq> show_int i" "show_int i \<noteq> tenths k @ ''M''"
    "tenths k @ ''k'' \<noteq> show_int i" "show_int i \<noteq> tenths k @ ''k''" for k i
    using ne [of "CHR ''M''" k i] ne [of "CHR ''k''" k i] by auto
  have pos: "0 \<le> m div u" "0 \<le> n div u" if "0 < u" for u
    using assms that by (simp_all add: pos_imp_zdiv_nonneg_iff)
  show ?thesis
    using assms pos [of 100000] pos [of 100]
    by (simp add: formatCount_def shown_unit_def tenths_inj int n1 eq_nat_nat_iff)
qed

section \<open>Elapsed time\<close>

text \<open>\<open>Math.round(a / b)\<close>: halves go up.\<close>

definition round_div :: "int \<Rightarrow> int \<Rightarrow> int" where
  "round_div a b = (2 * a + b) div (2 * b)"

definition timeDifference :: "int \<Rightarrow> int \<Rightarrow> string" where
  "timeDifference current previous =
     (let minute = 60 * 1000; hour = minute * 60; day = hour * 24; month = day * 30; year = day * 365;
          elapsed = current - previous
      in if 3 * elapsed < minute then ''Just now''
         else if elapsed < minute then ''less than 1 min ago''
         else if elapsed < hour then show_int (round_div elapsed minute) @ '' mins ago''
         else if elapsed < day then show_int (round_div elapsed hour) @ '' hours ago''
         else if elapsed < month then show_int (round_div elapsed day) @ '' days ago''
         else if elapsed < year then show_int (round_div elapsed month) @ '' months ago''
         else show_int (round_div elapsed year) @ '' years ago'')"

text \<open>The current time comes from the clock; the server's date is in seconds.\<close>

definition timeDifferenceForDate :: "int \<Rightarrow> int \<Rightarrow> string" where
  "timeDifferenceForDate now date = timeDifference now (date * 1000)"

lemma round_div_near:
  assumes "0 < b" shows "2 * a - b \<le> 2 * (round_div a b * b) \<and> 2 * (round_div a b * b) \<le> 2 * a + b"
proof -
  let ?q = "(2 * a + b) div (2 * b)"
  have d: "2 * a + b = ?q * (2 * b) + (2 * a + b) mod (2 * b)"
    by (rule div_mult_mod_eq [symmetric])
  have "0 \<le> (2 * a + b) mod (2 * b)" "(2 * a + b) mod (2 * b) < 2 * b" using assms by simp_all
  with d have "?q * (2 * b) \<le> 2 * a + b" "2 * a + b < ?q * (2 * b) + 2 * b" by linarith+
  moreover have "?q * (2 * b) = 2 * (?q * b)" by simp
  ultimately show ?thesis unfolding round_div_def by linarith
qed

text \<open>The unit of an elapsed time, and how many of it the text may name: the count is
  rounded, so 60 minutes, 24 hours, 30 days and 12 months do appear.\<close>

definition time_unit :: "int \<Rightarrow> int \<times> string \<times> int" where
  "time_unit elapsed =
     (if elapsed < 3600000 then (60000, '' mins ago'', 60)
      else if elapsed < 86400000 then (3600000, '' hours ago'', 24)
      else if elapsed < 2592000000 then (86400000, '' days ago'', 30)
      else (2592000000, '' months ago'', 12))"

theorem timeDifference_nearest_unit:
  assumes "60000 \<le> elapsed" and "elapsed < 31536000000"
  shows "case time_unit elapsed of (unit, txt, limit) \<Rightarrow>
    \<exists>n. timeDifference (previous + elapsed) previous = show_int n @ txt \<and> 1 \<le> n \<and> n \<le> limit
      \<and> 2 * \<bar>n * unit - elapsed\<bar> \<le> unit"
proof -
  have near: "1 \<le> round_div elapsed u \<and> round_div elapsed u \<le> l \<and> 2 * \<bar>round_div elapsed u * u - elapsed\<bar> \<le> u"
    if "0 < u" "u \<le> elapsed" "2 * elapsed < (2 * l + 1) * u" for u l
  proof -
    let ?r = "round_div elapsed u"
    have n: "2 * elapsed - u \<le> 2 * (?r * u)" "2 * (?r * u) \<le> 2 * elapsed + u"
      using round_div_near [OF that(1), of elapsed] by auto
    have "0 < ?r * u" using n(1) that by linarith
    then have "1 \<le> ?r" using that(1) by (simp add: zero_less_mult_iff)
    moreover have "?r * u < (l + 1) * u" using n(2) that(3) by (simp add: algebra_simps)
    then have "?r \<le> l" using that(1) by (simp add: mult_less_cancel_right)
    moreover have "2 * \<bar>?r * u - elapsed\<bar> \<le> u"
      using n by (cases "?r * u \<le> elapsed") (simp_all add: abs_if)
    ultimately show ?thesis by blast
  qed
  show ?thesis
    using assms near [of 60000 60] near [of 3600000 24] near [of 86400000 30] near [of 2592000000 12]
    by (auto simp: time_unit_def timeDifference_def Let_def)
qed

section \<open>Differences in words\<close>

text \<open>
  \<open>GetTimeDiff\<close>: \<open>mdiff\<close> is \<open>moment.unix(a).diff(moment.unix(b), unit)\<close> and \<open>t\<close> the
  translation of a key of \<open>monitoringDashboard.timeText\<close>. \<open>%\<close> takes the sign of its left
  operand.
\<close>

definition js_rem :: "int \<Rightarrow> int \<Rightarrow> int" where
  "js_rem a b = (if a < 0 then - ((- a) mod b) else a mod b)"

definition time_part :: "(string \<Rightarrow> string) \<Rightarrow> int \<Rightarrow> string \<Rightarrow> string \<Rightarrow> string" where
  "time_part t n one many = (if n > 0
     then show_int n @ '' '' @ t (if n = 1 then one else many) @ '' '' else '''')"

definition GetTimeDiff ::
  "(int \<Rightarrow> int \<Rightarrow> string \<Rightarrow> int) \<Rightarrow> (string \<Rightarrow> string) \<Rightarrow> int \<Rightarrow> int \<Rightarrow> string" where
  "GetTimeDiff mdiff t startTime endTime =
     (let days = mdiff startTime endTime ''days'';
          hours = js_rem (mdiff startTime endTime ''hours'') 24;
          minutes = js_rem (mdiff startTime endTime ''minutes'') 60;
          s = time_part t days ''day'' ''days'' @ time_part t hours ''hour'' ''hours''
              @ time_part t minutes ''minute'' ''minutes''
      in if s = '''' then '' '' @ t ''few'' @ ''  '' @ t ''seconds'' else s)"

text \<open>The documented meaning of \<open>diff\<close>: the difference in the unit, truncated.\<close>

definition truncates :: "(int \<Rightarrow> int \<Rightarrow> string \<Rightarrow> int) \<Rightarrow> bool" where
  "truncates mdiff \<longleftrightarrow> (\<forall>a b. b \<le> a \<longrightarrow> mdiff a b ''days'' = (a - b) div 86400
     \<and> mdiff a b ''hours'' = (a - b) div 3600 \<and> mdiff a b ''minutes'' = (a - b) div 60)"

theorem GetTimeDiff_whole_minutes:
  assumes "truncates mdiff" and "b \<le> a" and "60 \<le> a - b"
  shows "\<exists>d h m. GetTimeDiff mdiff t a b = time_part t d ''day'' ''days'' @ time_part t h ''hour'' ''hours''
      @ time_part t m ''minute'' ''minutes''
    \<and> 0 \<le> d \<and> 0 \<le> h \<and> h < 24 \<and> 0 \<le> m \<and> m < 60
    \<and> d * 86400 + h * 3600 + m * 60 \<le> a - b \<and> a - b < d * 86400 + h * 3600 + m * 60 + 60"
proof -
  define x where "x = a - b"
  let ?d = "x div 86400" and ?h = "x div 3600 mod 24" and ?m = "x div 60 mod 60"
  have x: "60 \<le> x" using assms(3) by (simp add: x_def)
  have b: "0 \<le> ?d" "0 \<le> ?h" "?h < 24" "0 \<le> ?m" "?m < 60"
    "?d * 86400 + ?h * 3600 + ?m * 60 \<le> x" "x < ?d * 86400 + ?h * 3600 + ?m * 60 + 60"
  proof -
    have q: "x div 60 div 60 = x div 3600" "x div 3600 div 24 = x div 86400"
      using zdiv_zmult2_eq [of 60 x 60] zdiv_zmult2_eq [of 24 x 3600] by simp_all
    have e: "x = x div 60 * 60 + x mod 60" "x div 60 = x div 60 div 60 * 60 + ?m"
      "x div 3600 = x div 3600 div 24 * 24 + ?h" by simp_all
    have r: "0 \<le> x mod 60" "x mod 60 < 60" by simp_all
    have s: "x = ?d * 86400 + ?h * 3600 + ?m * 60 + x mod 60" using e unfolding q by linarith
    show "?d * 86400 + ?h * 3600 + ?m * 60 \<le> x" "x < ?d * 86400 + ?h * 3600 + ?m * 60 + 60"
      using s r by linarith+
  qed (use x in \<open>simp_all add: pos_imp_zdiv_nonneg_iff\<close>)
  obtain d h m where dhm: "d = ?d" "h = ?h" "m = ?m" by blast
  note bs = b [folded dhm]
  have "d > 0 \<or> h > 0 \<or> m > 0" using bs x by linarith
  then have "time_part t d ''day'' ''days'' @ time_part t h ''hour'' ''hours'' @ time_part t m ''minute'' ''minutes'' \<noteq> ''''"
    by (auto simp: time_part_def)
  moreover have "mdiff a b ''days'' = d" "js_rem (mdiff a b ''hours'') 24 = h" "js_rem (mdiff a b ''minutes'') 60 = m"
    using assms x unfolding dhm by (simp_all add: truncates_def js_rem_def x_def)
  ultimately have "GetTimeDiff mdiff t a b = time_part t d ''day'' ''days'' @ time_part t h ''hour'' ''hours''
      @ time_part t m ''minute'' ''minutes''"
    by (simp add: GetTimeDiff_def)
  with bs show ?thesis unfolding x_def by blast
qed

section \<open>The theorems on examples\<close>

theorem userInitials_of_words_witness:
  "userInitials (js_join '' '' [''ada'', ''king'', ''lovelace'']) = ''AL''"
proof -
  have "userInitials (js_join '' '' [''ada'', ''king'', ''lovelace'']) =
      (if length [''ada'', ''king'', ''lovelace''] = 1 then [upper_char (hd (hd [''ada'', ''king'', ''lovelace'']))]
       else [upper_char (hd (hd [''ada'', ''king'', ''lovelace''])), upper_char (hd (last [''ada'', ''king'', ''lovelace'']))])"
    by (rule userInitials_of_words) (auto simp: js_space_def)
  also have "\<dots> = ''AL''" by code_simp
  finally show ?thesis .
qed

theorem formatCount_equal_iff_witness:
  "formatCount (Some 1234) = formatCount (Some 1299) \<longleftrightarrow>
    shown_unit 1234 = shown_unit 1299 \<and> 1234 div shown_unit 1234 = 1299 div shown_unit 1299"
  by (rule formatCount_equal_iff) simp_all

theorem timeDifference_nearest_unit_witness:
  "\<exists>n. timeDifference (1000 + 3599000) 1000 = show_int n @ '' mins ago'' \<and> 1 \<le> n \<and> n \<le> 60
      \<and> 2 * \<bar>n * 60000 - 3599000\<bar> \<le> (60000 :: int)"
  using timeDifference_nearest_unit [of 3599000 1000] by (simp add: time_unit_def)

definition plain_diff :: "int \<Rightarrow> int \<Rightarrow> string \<Rightarrow> int" where
  "plain_diff a b unit = (if unit = ''days'' then (a - b) div 86400
     else if unit = ''hours'' then (a - b) div 3600 else (a - b) div 60)"

theorem GetTimeDiff_whole_minutes_witness:
  "\<exists>d h m. GetTimeDiff plain_diff id 93784 0 = time_part id d ''day'' ''days'' @ time_part id h ''hour'' ''hours''
      @ time_part id m ''minute'' ''minutes''
    \<and> 0 \<le> d \<and> 0 \<le> h \<and> h < 24 \<and> 0 \<le> m \<and> m < 60
    \<and> d * 86400 + h * 3600 + m * 60 \<le> 93784 - 0 \<and> 93784 - 0 < d * 86400 + h * 3600 + m * 60 + 60"
  by (rule GetTimeDiff_whole_minutes) (simp_all add: truncates_def plain_diff_def)

end
