(* ===== verification/Session.thy ===== *)
theory Session
  imports JsString Complex_Main
begin

text \<open>
  \<open>utils/cookies.ts\<close>, \<open>utils/getSearchParams.ts\<close> and \<open>utils/auth.ts\<close>: the session of a
  user. The browser is a record: its cookie jar, the clock in milliseconds, the path and
  the search parameters of the page, and the navigations the code asks for. What the
  browser does with an assignment to \<open>document.cookie\<close> is written out: a cookie is
  identified by name and path, replaces its predecessor in place and is dropped when its
  expiry is past. Cookies hold ASCII text, and attributes smuggled into a value after a
  semicolon are ignored. \<open>jsonwebtoken.decode\<close> is the parameter \<open>D\<close>: the claims of a
  token, null for a malformed one.
\<close>

record cookie =
  cname :: string
  cvalue :: string
  cpath :: string
  cexpires :: "int option"

record browser =
  jar :: "cookie list"
  clock :: int
  pathname :: string
  params :: "(string \<times> string) list"
  visits :: "string list"

type_synonym 'a bio = "browser \<Rightarrow> 'a result \<times> browser"

definition bio_bind :: "'a bio \<Rightarrow> ('a \<Rightarrow> 'b bio) \<Rightarrow> 'b bio" where
  "bio_bind m f b = (case m b of (Inl e, b') \<Rightarrow> (Inl e, b') | (Inr a, b') \<Rightarrow> f a b')"

section \<open>The cookie jar\<close>

definition same_cookie :: "cookie \<Rightarrow> cookie \<Rightarrow> bool" where
  "same_cookie c d \<longleftrightarrow> cname d = cname c \<and> cpath d = cpath c"

definition expired :: "int \<Rightarrow> cookie \<Rightarrow> bool" where
  "expired now c = (case cexpires c of None \<Rightarrow> False | Some t \<Rightarrow> t \<le> now)"

definition put_cookie :: "cookie \<Rightarrow> cookie list \<Rightarrow> cookie list" where
  "put_cookie c cs = (if list_ex (same_cookie c) cs
     then map (\<lambda>d. if same_cookie c d then c else d) cs else cs @ [c])"

definition path_matches :: "string \<Rightarrow> string \<Rightarrow> bool" where
  "path_matches p loc \<longleftrightarrow> p = loc \<or> (prefix p loc \<and> p \<noteq> '''' \<and>
     (last p = CHR ''/'' \<or> (length p < length loc \<and> loc ! length p = CHR ''/'')))"

text \<open>\<open>document.cookie\<close>: the live cookies of the page, those of longer paths first.\<close>

definition visible :: "browser \<Rightarrow> cookie list" where
  "visible b = sort_key (\<lambda>c. - int (length (cpath c)))
     (filter (\<lambda>c. \<not> expired (clock b) c \<and> path_matches (cpath c) (pathname b)) (jar b))"

definition document_cookie :: "browser \<Rightarrow> string" where
  "document_cookie b = js_join ''; '' (map (\<lambda>c. cname c @ ''='' @ cvalue c) (visible b))"

text \<open>Assigning \<open>pair;expires=...;path=...\<close>; an expiry that is no date is ignored.\<close>

definition assign_cookie :: "string \<Rightarrow> int option \<Rightarrow> string \<Rightarrow> browser \<Rightarrow> browser" where
  "assign_cookie pair expiry path b =
     (let nv = takeWhile (\<lambda>c. c \<noteq> CHR '';'') pair;
          c = \<lparr>cname = js_trim (takeWhile (\<lambda>c. c \<noteq> CHR ''='') nv),
               cvalue = js_trim (drop 1 (dropWhile (\<lambda>c. c \<noteq> CHR ''='') nv)),
               cpath = path, cexpires = expiry\<rparr>
      in b\<lparr>jar := (if expired (clock b) c then filter (\<lambda>d. \<not> same_cookie c d) (jar b)
                  else put_cookie c (jar b))\<rparr>)"

definition hour_ms :: rat where
  "hour_ms = 1000 * 60 * 60"

text \<open>\<open>toUTCString\<close> keeps whole seconds; hours that are NaN give an invalid date.\<close>

definition setCookie :: "string \<Rightarrow> string \<Rightarrow> rat option \<Rightarrow> string option \<Rightarrow> browser \<Rightarrow> browser" where
  "setCookie name val exhours path b =
     assign_cookie (name @ ''='' @ val)
       (map_option (\<lambda>h. \<lfloor>of_int (clock b) + h * hour_ms\<rfloor> div 1000 * 1000) exhours)
       (case path of None \<Rightarrow> ''/'' | Some p \<Rightarrow> p) b"

section \<open>Reading a cookie\<close>

definition hex_value :: "char \<Rightarrow> nat option" where
  "hex_value c =
     (if is_digit c then Some (of_char c - 48)
      else if CHR ''a'' \<le> c \<and> c \<le> CHR ''f'' then Some (of_char c - 87)
      else if CHR ''A'' \<le> c \<and> c \<le> CHR ''F'' then Some (of_char c - 55) else None)"

text \<open>\<open>decodeURIComponent\<close>: a malformed escape throws; bytes beyond ASCII are not
  represented and count as malformed.\<close>

fun decode_uri :: "string \<Rightarrow> string result" where
  "decode_uri [] = Inr []"
| "decode_uri (c # s) =
     (if c \<noteq> CHR ''%'' then rmap (Cons c) (decode_uri s)
      else (case s of
          h # l # r \<Rightarrow> (case (hex_value h, hex_value l) of
             (Some a, Some b) \<Rightarrow> (if 16 * a + b < 128
                then rmap (Cons (char_of (16 * a + b))) (decode_uri r) else Inl (UserErr ''URIError''))
           | _ \<Rightarrow> Inl (UserErr ''URIError''))
        | _ \<Rightarrow> Inl (UserErr ''URIError'')))"

fun find_cookie :: "string \<Rightarrow> string list \<Rightarrow> string" where
  "find_cookie name [] = ''''"
| "find_cookie name (c # cs) =
     (let c' = dropWhile (\<lambda>x. x = CHR '' '') c
      in if prefix name c' then drop (length name) c' else find_cookie name cs)"

definition getCookie :: "string \<Rightarrow> browser \<Rightarrow> string result" where
  "getCookie name b = rmap (\<lambda>s. find_cookie (name @ ''='') (js_split s '';'')) (decode_uri (document_cookie b))"

definition getJWTToken :: "string \<Rightarrow> browser \<Rightarrow> string result" where
  "getJWTToken cookieName b = rmap (\<lambda>t. if t \<noteq> '''' then t else '''') (getCookie cookieName b)"

text \<open>\<open>(data.exp - data.iat) / 3600\<close>: NaN unless both are numbers (null counts as 0), and
  a TypeError when the token has no claims.\<close>

fun js_number :: "js \<Rightarrow> int option" where
  "js_number (JNum n) = Some n"
| "js_number JNull = Some 0"
| "js_number (JBool x) = Some (if x then 1 else 0)"
| "js_number v = None"

definition token_hours :: "js \<Rightarrow> rat option result" where
  "token_hours claims = rbind (js_get ''exp'' claims) (\<lambda>e. rbind (js_get ''iat'' claims) (\<lambda>i.
     Inr (case (js_number e, js_number i) of
            (Some x, Some y) \<Rightarrow> Some (of_int (x - y) / 3600) | _ \<Rightarrow> None)))"

text \<open>An exception is logged to the console and swallowed. \<open>None\<close> is a token that is
  undefined or null.\<close>

definition setJWTToken :: "(string \<Rightarrow> js) \<Rightarrow> string option \<Rightarrow> string \<Rightarrow> string option \<Rightarrow> browser \<Rightarrow> browser" where
  "setJWTToken D token cookieName path b = (case token of
      None \<Rightarrow> b
    | Some t \<Rightarrow> (case token_hours (D t) of
         Inl e \<Rightarrow> b
       | Inr h \<Rightarrow> setCookie cookieName t h path b))"

section \<open>Search parameters\<close>

definition getSearchParams :: "string \<Rightarrow> browser \<Rightarrow> string" where
  "getSearchParams key b = (case map_of (params b) key of None \<Rightarrow> '''' | Some v \<Rightarrow> v)"

definition getProjectID :: "browser \<Rightarrow> string" where
  "getProjectID = getSearchParams ''projectID''"

definition getProjectRole :: "browser \<Rightarrow> string" where
  "getProjectRole = getSearchParams ''projectRole''"

definition getJwtTokenFromURL :: "browser \<Rightarrow> string" where
  "getJwtTokenFromURL = getSearchParams ''jwtToken''"

section \<open>The user of the session\<close>

definition token_cookie :: string where
  "token_cookie = ''litmus-cc-token''"

definition logout :: "browser \<Rightarrow> browser" where
  "logout b = (setCookie token_cookie '''' (Some 1) None b)\<lparr>visits := visits b @ [''reload'']\<rparr>"

definition setUserDetails :: "(string \<Rightarrow> js) \<Rightarrow> string \<Rightarrow> browser \<Rightarrow> browser" where
  "setUserDetails D token = setJWTToken D (Some token) token_cookie None"

definition visit :: "string \<Rightarrow> browser \<Rightarrow> browser" where
  "visit url b = b\<lparr>visits := visits b @ [url]\<rparr>"

definition getToken :: "(string \<Rightarrow> js) \<Rightarrow> string bio" where
  "getToken D b = (case getJWTToken token_cookie b of
      Inl e \<Rightarrow> (Inl e, b)
    | Inr t \<Rightarrow>
        if t = ''''
        then (let u = getJwtTokenFromURL b in
              if u \<noteq> '''' then (Inr u, visit ''/getStarted'' (setUserDetails D u b))
              else (Inr t, visit ''/login'' b))
        else (Inr t, b))"

definition getUserDetailsFromJwt :: "(string \<Rightarrow> js) \<Rightarrow> js bio" where
  "getUserDetailsFromJwt D = bio_bind (getToken D) (\<lambda>t b. (Inr (D t), b))"

text \<open>\<open>if (getToken()) return getUserDetailsFromJwt().k; return '';\<close>\<close>

definition user_field :: "(string \<Rightarrow> js) \<Rightarrow> string \<Rightarrow> js bio" where
  "user_field D k = bio_bind (getToken D) (\<lambda>t.
     if t \<noteq> '''' then bio_bind (getUserDetailsFromJwt D) (\<lambda>d b. (js_get k d, b))
     else (\<lambda>b. (Inr (JStr ''''), b)))"

definition getUsername :: "(string \<Rightarrow> js) \<Rightarrow> js bio" where
  "getUsername D = user_field D ''username''"

definition getUserId :: "(string \<Rightarrow> js) \<Rightarrow> js bio" where
  "getUserId D = user_field D ''uid''"

definition getUserRole :: "(string \<Rightarrow> js) \<Rightarrow> js bio" where
  "getUserRole D = user_field D ''role''"

definition getUserEmail :: "(string \<Rightarrow> js) \<Rightarrow> js bio" where
  "getUserEmail D = bio_bind (user_field D ''email'') (\<lambda>v b. (Inr (orelse_nullish v (JStr '''')), b))"

definition getUserFullName :: "(string \<Rightarrow> js) \<Rightarrow> js bio" where
  "getUserFullName D = bio_bind (user_field D ''name'') (\<lambda>v b. (Inr (orelse_nullish v (JStr '''')), b))"

section \<open>The jar as a map from names to values\<close>

definition plain_name :: "string \<Rightarrow> bool" where
  "plain_name n \<longleftrightarrow> n \<noteq> '''' \<and> (\<forall>c \<in> set n. c \<notin> {CHR ''='', CHR '';'', CHR ''%''} \<and> \<not> js_space c)"

definition plain_value :: "string \<Rightarrow> bool" where
  "plain_value v \<longleftrightarrow> (\<forall>c \<in> set v. c \<notin> {CHR '';'', CHR ''%''} \<and> \<not> js_space c)"

text \<open>The jars the program itself makes: plain cookies of path \<open>/\<close>, one per name.\<close>

definition jar_ok :: "browser \<Rightarrow> bool" where
  "jar_ok b \<longleftrightarrow> prefix ''/'' (pathname b) \<and> distinct (map cname (jar b)) \<and>
     (\<forall>c \<in> set (jar b). cpath c = ''/'' \<and> plain_name (cname c) \<and> plain_value (cvalue c))"

definition live :: "browser \<Rightarrow> (string \<times> string) list" where
  "live b = map (\<lambda>c. (cname c, cvalue c)) (filter (\<lambda>c. \<not> expired (clock b) c) (jar b))"

definition live_value :: "browser \<Rightarrow> string \<Rightarrow> string" where
  "live_value b n = (case map_of (live b) n of None \<Rightarrow> '''' | Some v \<Rightarrow> v)"

lemma insort_key_const:
  assumes "\<And>y. y \<in> set ys \<Longrightarrow> f x = f y"
  shows "insort_key f x ys = x # ys"
proof (cases ys)
  case (Cons z zs)
  have "f x = f z" using assms Cons by simp
  with Cons show ?thesis by simp
qed simp

lemma sort_key_const: "(\<And>x y. x \<in> set xs \<Longrightarrow> y \<in> set xs \<Longrightarrow> f x = f y) \<Longrightarrow> sort_key f xs = xs"
proof (induction xs)
  case (Cons x xs)
  have "sort_key f xs = xs" by (rule Cons.IH) (use Cons.prems in auto)
  moreover have "insort_key f x xs = x # xs" by (rule insort_key_const) (use Cons.prems in auto)
  ultimately show ?case by simp
qed simp

lemma jar_ok_visible:
  assumes "jar_ok b"
  shows "visible b = filter (\<lambda>c. \<not> expired (clock b) c) (jar b)"
proof -
  have m: "path_matches ''/'' (pathname b)" using assms by (simp add: jar_ok_def path_matches_def)
  have f: "filter (\<lambda>c. \<not> expired (clock b) c \<and> path_matches (cpath c) (pathname b)) (jar b)
      = filter (\<lambda>c. \<not> expired (clock b) c) (jar b)"
    using assms m by (intro filter_cong) (auto simp: jar_ok_def)
  show ?thesis unfolding visible_def f
    by (rule sort_key_const) (use assms in \<open>auto simp: jar_ok_def\<close>)
qed

lemma decode_uri_plain: "CHR ''%'' \<notin> set s \<Longrightarrow> decode_uri s = Inr s"
  by (induction s) auto

lemma js_join_free:
  "c \<notin> set sep \<Longrightarrow> (\<And>x. x \<in> set xs \<Longrightarrow> c \<notin> set x) \<Longrightarrow> c \<notin> set (js_join sep xs)"
  by (induction sep xs rule: js_join.induct) auto

text \<open>The text of the jar splits into its cookies, all but the first behind a blank.\<close>

lemma split_cookies:
  assumes "\<And>x. x \<in> set xs \<Longrightarrow> CHR '';'' \<notin> set x"
  shows "js_split (js_join ''; '' xs) '';'' = (case xs of [] \<Rightarrow> [''''] | x # ys \<Rightarrow> x # map (Cons (CHR '' '')) ys)"
proof -
  have "split_on '';'' (c @ js_join ''; '' xs) =
      (case xs of [] \<Rightarrow> [c] | x # ys \<Rightarrow> (c @ x) # map (Cons (CHR '' '')) ys)" if "CHR '';'' \<notin> set c" for c
    using assms that
  proof (induction "''; ''" xs arbitrary: c rule: js_join.induct)
    case (3 x y ys)
    have "split_on '';'' ((c @ x) @ CHR '';'' # ('' '' @ js_join ''; '' (y # ys))) =
        (c @ x) # split_on '';'' ('' '' @ js_join ''; '' (y # ys))"
      by (rule split_on_char) (use 3 in auto)
    then show ?case using 3(1) [of "'' ''"] 3(2) by simp
  qed (simp_all add: split_on_absent find_sub_singleton_None)
  from this [of "''''"] show ?thesis by (simp add: js_split_def split: list.splits)
qed

lemma name_prefix:
  assumes "CHR ''='' \<notin> set n" and "CHR ''='' \<notin> set m"
  shows "prefix (n @ ''='') (m @ ''='' @ v) \<longleftrightarrow> n = m"
proof
  assume "prefix (n @ ''='') (m @ ''='' @ v)"
  then obtain z where "m @ CHR ''='' # v = n @ CHR ''='' # z" by (auto simp: prefix_def)
  then have "takeWhile (\<lambda>c. c \<noteq> CHR ''='') (m @ CHR ''='' # v) = takeWhile (\<lambda>c. c \<noteq> CHR ''='') (n @ CHR ''='' # z)"
    by simp
  moreover have "takeWhile (\<lambda>c. c \<noteq> CHR ''='') (u @ CHR ''='' # w) = u" if "CHR ''='' \<notin> set u" for u w
    using that by (induction u) auto
  ultimately show "n = m" using assms by metis
qed auto

text \<open>A piece of the split text that reads as the cookie \<open>p\<close>.\<close>

definition cookie_text :: "string \<times> string \<Rightarrow> string" where
  "cookie_text p = fst p @ ''='' @ snd p"

definition cookie_piece :: "string \<Rightarrow> string \<times> string \<Rightarrow> bool" where
  "cookie_piece c p \<longleftrightarrow> dropWhile (\<lambda>x. x = CHR '' '') c = cookie_text p \<and> CHR ''='' \<notin> set (fst p)"

lemma find_cookie_map:
  assumes "list_all2 cookie_piece cs ps" and "CHR ''='' \<notin> set n"
  shows "find_cookie (n @ ''='') cs = (case map_of ps n of None \<Rightarrow> '''' | Some v \<Rightarrow> v)"
  using assms(1)
proof (induction cs ps rule: list_all2_induct)
  case (Cons c cs p ps)
  have "prefix (n @ ''='') (cookie_text p) \<longleftrightarrow> n = fst p"
    unfolding cookie_text_def by (rule name_prefix) (use assms(2) Cons in \<open>auto simp: cookie_piece_def\<close>)
  moreover have "drop (length (n @ ''='')) (cookie_text p) = snd p" if "n = fst p"
    by (simp add: cookie_text_def that)
  ultimately show ?case using Cons by (cases p) (auto simp: Let_def cookie_piece_def)
qed simp

lemma cookie_piece_plain:
  assumes "plain_name (fst p)"
  shows "cookie_piece (cookie_text p) p" and "cookie_piece (CHR '' '' # cookie_text p) p"
proof -
  obtain c m where m: "fst p = c # m" "c \<noteq> CHR '' ''"
    using assms by (cases "fst p") (auto simp: plain_name_def js_space_def)
  have "CHR ''='' \<notin> set (fst p)" using assms by (auto simp: plain_name_def)
  with m show "cookie_piece (cookie_text p) p" and "cookie_piece (CHR '' '' # cookie_text p) p"
    by (simp_all add: cookie_piece_def cookie_text_def)
qed

lemma cookie_pieces:
  assumes "\<And>p. p \<in> set ps \<Longrightarrow> plain_name (fst p)" and "ps \<noteq> []"
  shows "list_all2 cookie_piece (case map cookie_text ps of [] \<Rightarrow> [''''] | x # ys \<Rightarrow> x # map (Cons (CHR '' '')) ys) ps"
proof (cases ps)
  case (Cons q qs)
  then show ?thesis using assms(1)
    by (simp add: cookie_piece_plain list_all2_map1 list_all2_same)
qed (use assms in simp)

theorem getCookie_live:
  assumes ok: "jar_ok b" and n: "CHR ''='' \<notin> set n"
  shows "getCookie n b = Inr (live_value b n)"
proof -
  let ?xs = "map cookie_text (live b)"
  have names: "plain_name (fst p) \<and> plain_value (snd p)" if "p \<in> set (live b)" for p
    using that ok by (auto simp: live_def jar_ok_def)
  have doc: "document_cookie b = js_join ''; '' ?xs"
    unfolding document_cookie_def jar_ok_visible [OF ok] live_def by (simp add: comp_def cookie_text_def)
  have chars: "CHR '';'' \<notin> set x" "CHR ''%'' \<notin> set x" if x: "x \<in> set ?xs" for x
  proof -
    obtain p where "p \<in> set (live b)" "x = cookie_text p" using x by auto
    with names [of p] show "CHR '';'' \<notin> set x" "CHR ''%'' \<notin> set x"
      by (auto simp: plain_name_def plain_value_def cookie_text_def)
  qed
  have free: "CHR ''%'' \<notin> set (document_cookie b)"
    unfolding doc by (rule js_join_free) (use chars in simp_all)
  have "find_cookie (n @ ''='') (case ?xs of [] \<Rightarrow> [''''] | x # ys \<Rightarrow> x # map (Cons (CHR '' '')) ys)
      = live_value b n"
  proof (cases "live b = []")
    case False
    show ?thesis unfolding live_value_def
      by (rule find_cookie_map [OF cookie_pieces n]) (use names False in auto)
  qed (simp add: live_value_def Let_def)
  moreover have "js_split (js_join ''; '' ?xs) '';'' =
      (case ?xs of [] \<Rightarrow> [''''] | x # ys \<Rightarrow> x # map (Cons (CHR '' '')) ys)"
    by (rule split_cookies) (rule chars)
  ultimately show ?thesis using decode_uri_plain [OF free] by (simp add: getCookie_def doc)
qed

section \<open>Writing a cookie updates the map\<close>

locale value_map =
  fixes get :: "'k \<Rightarrow> 's \<Rightarrow> 'v" and put :: "'k \<Rightarrow> 'w \<Rightarrow> 's \<Rightarrow> 's" and val_of :: "'w \<Rightarrow> 'v"
    and inv :: "'s \<Rightarrow> bool" and ok :: "'k \<Rightarrow> 'w \<Rightarrow> bool"
  assumes put_inv: "inv s \<Longrightarrow> ok k w \<Longrightarrow> inv (put k w s)"
    and get_put: "inv s \<Longrightarrow> ok k w \<Longrightarrow> get l (put k w s) = (if l = k then val_of w else get l s)"
begin

definition puts :: "('k \<times> 'w) list \<Rightarrow> 's \<Rightarrow> 's" where
  "puts ws = fold (\<lambda>(k, w). put k w) ws"

lemma puts_inv: "inv s \<Longrightarrow> (\<And>k w. (k, w) \<in> set ws \<Longrightarrow> ok k w) \<Longrightarrow> inv (puts ws s)"
  by (induction ws arbitrary: s) (auto simp: puts_def put_inv)

lemma last_put_wins:
  assumes "inv s" and "\<And>k w. (k, w) \<in> set ws \<Longrightarrow> ok k w"
  shows "get l (puts ws s) = (case map_of (rev ws) l of None \<Rightarrow> get l s | Some w \<Rightarrow> val_of w)"
  using assms
proof (induction ws arbitrary: s)
  case (Cons kw ws)
  obtain k w where kw: "kw = (k, w)" by (cases kw)
  have "inv (put k w s)" using Cons.prems kw by (intro put_inv) auto
  with Cons.IH [of "put k w s"] Cons.prems kw
  have "get l (puts ws (put k w s)) = (case map_of (rev ws) l of None \<Rightarrow> get l (put k w s) | Some w \<Rightarrow> val_of w)"
    by simp
  moreover have "get l (put k w s) = (if l = k then val_of w else get l s)"
    by (rule get_put) (use Cons.prems kw in auto)
  ultimately show ?case
    by (auto simp: puts_def kw map_add_def split: option.splits)
qed (simp add: puts_def)

lemma put_put: "inv s \<Longrightarrow> ok k w \<Longrightarrow> ok k w' \<Longrightarrow> get l (put k w' (put k w s)) = get l (put k w' s)"
  by (simp add: get_put put_inv)

end

lemma js_trim_plain: "(\<And>c. c \<in> set s \<Longrightarrow> \<not> js_space c) \<Longrightarrow> js_trim s = s"
  by (cases "s = []") (auto intro: js_trim_tight simp: js_trim_def [of "[]"])

definition lifetime :: "rat \<Rightarrow> browser \<Rightarrow> int" where
  "lifetime h b = \<lfloor>of_int (clock b) + h * hour_ms\<rfloor> div 1000 * 1000"

definition fresh_cookie :: "string \<Rightarrow> string \<Rightarrow> rat \<Rightarrow> browser \<Rightarrow> cookie" where
  "fresh_cookie n v h b = \<lparr>cname = n, cvalue = v, cpath = ''/'', cexpires = Some (lifetime h b)\<rparr>"

lemma lifetime_ahead: "1 / 3600 \<le> h \<Longrightarrow> clock b < lifetime h b"
proof -
  assume "1 / 3600 \<le> h"
  then have "of_int (clock b) + 1000 \<le> of_int (clock b) + h * hour_ms" by (simp add: hour_ms_def)
  then have "clock b + 1000 \<le> \<lfloor>of_int (clock b) + h * hour_ms\<rfloor>" by linarith
  moreover have "z < (z + 1000) div 1000 * 1000" for z :: int
    using div_mult_mod_eq [of "z + 1000" 1000] pos_mod_bound [of 1000 "z + 1000"] by linarith
  ultimately show ?thesis
    unfolding lifetime_def
    by (meson less_le_trans mult_right_mono zdiv_mono1 zero_less_numeral order_less_imp_le)
qed

lemma setCookie_plain:
  assumes "plain_name n" and "plain_value v" and "1 / 3600 \<le> h"
  shows "setCookie n v (Some h) None b = b\<lparr>jar := put_cookie (fresh_cookie n v h b) (jar b)\<rparr>"
proof -
  let ?c = "fresh_cookie n v h b"
  have n: "takeWhile (\<lambda>c. c \<noteq> CHR ''='') (n @ CHR ''='' # v) = n"
    "dropWhile (\<lambda>c. c \<noteq> CHR ''='') (n @ CHR ''='' # v) = CHR ''='' # v"
    using assms(1) by (induction n) (auto simp: plain_name_def)
  have nv: "takeWhile (\<lambda>c. c \<noteq> CHR '';'') (n @ CHR ''='' # v) = n @ CHR ''='' # v"
    unfolding takeWhile_eq_all_conv using assms(1,2) by (auto simp: plain_name_def plain_value_def)
  have t: "js_trim n = n" "js_trim v = v"
    using assms by (auto intro!: js_trim_plain simp: plain_name_def plain_value_def)
  have e: "\<not> expired (clock b) ?c"
    using lifetime_ahead [OF assms(3)] by (simp add: expired_def fresh_cookie_def not_le)
  have "assign_cookie (n @ CHR ''='' # v) (Some (lifetime h b)) ''/'' b = b\<lparr>jar := put_cookie ?c (jar b)\<rparr>"
    using e unfolding assign_cookie_def nv Let_def n by (simp add: t fresh_cookie_def)
  then show ?thesis by (simp add: setCookie_def lifetime_def)
qed

lemma put_cookie_names:
  assumes "\<And>d. d \<in> set cs \<Longrightarrow> cpath d = cpath c"
  shows "map cname (put_cookie c cs) = (if cname c \<in> cname ` set cs then map cname cs else map cname cs @ [cname c])"
    and "set (put_cookie c cs) \<subseteq> insert c (set cs)"
  using assms by (auto simp: put_cookie_def same_cookie_def list_ex_iff comp_def intro: rev_image_eqI)

lemma jar_ok_setCookie:
  assumes "jar_ok b" and "plain_name n" and "plain_value v" and "1 / 3600 \<le> h"
  shows "jar_ok (setCookie n v (Some h) None b)"
proof -
  have p: "cpath d = cpath (fresh_cookie n v h b)" if "d \<in> set (jar b)" for d
    using assms(1) that by (simp add: jar_ok_def fresh_cookie_def)
  show ?thesis
    using assms put_cookie_names [of "jar b" "fresh_cookie n v h b", OF p]
    unfolding setCookie_plain [OF assms(2-4)] by (auto simp: jar_ok_def fresh_cookie_def)
qed

lemma map_of_put_cookie:
  assumes "\<not> expired now c" and "distinct (map cname cs)" and "\<And>d. d \<in> set cs \<Longrightarrow> cpath d = cpath c"
  shows "map_of (map (\<lambda>c. (cname c, cvalue c)) (filter (\<lambda>c. \<not> expired now c) (put_cookie c cs))) m
    = (if m = cname c then Some (cvalue c)
       else map_of (map (\<lambda>c. (cname c, cvalue c)) (filter (\<lambda>c. \<not> expired now c) cs)) m)"
  using assms(2,3)
proof (induction cs)
  case Nil
  then show ?case using assms(1) by (simp add: put_cookie_def)
next
  case (Cons d cs)
  have pd: "cpath d = cpath c" using Cons.prems by simp
  show ?case
  proof (cases "cname d = cname c")
    case True
    then have "\<not> same_cookie c e" if "e \<in> set cs" for e
    proof -
      have "cname e \<in> cname ` set cs" using that by simp
      then have "cname e \<noteq> cname d" using Cons.prems(1) by auto
      then show ?thesis using True by (simp add: same_cookie_def)
    qed
    then have "put_cookie c (d # cs) = c # cs"
      using True pd by (auto simp: put_cookie_def same_cookie_def intro!: map_idI)
    then show ?thesis using True assms(1) by simp
  next
    case False
    then have "put_cookie c (d # cs) = d # put_cookie c cs"
      by (simp add: put_cookie_def same_cookie_def)
    then show ?thesis using Cons False by auto
  qed
qed

lemma live_value_setCookie:
  assumes "jar_ok b" and "plain_name n" and "plain_value v" and "1 / 3600 \<le> h"
  shows "live_value (setCookie n v (Some h) None b) m = (if m = n then v else live_value b m)"
proof -
  have "\<not> expired (clock b) (fresh_cookie n v h b)"
    using lifetime_ahead [OF assms(4)] by (simp add: expired_def fresh_cookie_def not_le)
  moreover have "cpath d = cpath (fresh_cookie n v h b)" if "d \<in> set (jar b)" for d
    using assms(1) that by (simp add: jar_ok_def fresh_cookie_def)
  moreover have "distinct (map cname (jar b))" using assms(1) by (simp add: jar_ok_def)
  ultimately show ?thesis
    using map_of_put_cookie [of "clock b" "fresh_cookie n v h b" "jar b" m]
    unfolding setCookie_plain [OF assms(2-4)] by (simp add: live_value_def live_def fresh_cookie_def)
qed

interpretation cookies: value_map "\<lambda>n b. live_value b n" "\<lambda>n (v, h). setCookie n v (Some h) None" fst jar_ok
    "\<lambda>n (v, h). plain_name n \<and> plain_value v \<and> 1 / 3600 \<le> h"
  by unfold_locales (auto simp: live_value_setCookie intro: jar_ok_setCookie)

section \<open>Properties\<close>

text \<open>
  C5. On the jars the program makes, setCookie and getCookie refine a map from names to
  values: a written cookie is read back, the others are untouched, and the jar stays
  well formed.
\<close>

theorem setCookie_refines_map:
  assumes "jar_ok b" and "plain_name n" and "plain_value v" and "1 / 3600 \<le> h"
    and "CHR ''='' \<notin> set m"
  shows "jar_ok (setCookie n v (Some h) None b)
    \<and> getCookie m (setCookie n v (Some h) None b) = (if m = n then Inr v else getCookie m b)"
  using cookies.put_inv [of b n "(v, h)"] cookies.get_put [of b n "(v, h)" m] assms
  by (simp add: getCookie_live)

definition token_live :: "(string \<Rightarrow> js) \<Rightarrow> string \<Rightarrow> bool" where
  "token_live D t \<longleftrightarrow> t \<noteq> '''' \<and> plain_value t \<and> (\<exists>e i. fld ''exp'' (D t) = JNum e
     \<and> fld ''iat'' (D t) = JNum i \<and> i < e)"

lemma token_cookie_plain: "plain_name token_cookie"
  by (simp add: token_cookie_def plain_name_def js_space_def)

lemma setUserDetails_live:
  assumes "token_live D t"
  obtains h where "setUserDetails D t b = setCookie token_cookie t (Some h) None b" and "1 / 3600 \<le> h"
proof -
  obtain e i where ei: "fld ''exp'' (D t) = JNum e" "fld ''iat'' (D t) = JNum i" "i < e"
    using assms by (auto simp: token_live_def)
  then have "is_obj (D t)" using fld_undef_not_obj [of "''exp''" "D t"] by simp
  with ei have "token_hours (D t) = Inr (Some (of_int (e - i) / 3600))"
    by (simp add: token_hours_def js_get_obj)
  then have "setUserDetails D t b = setCookie token_cookie t (Some (of_int (e - i) / 3600)) None b"
    by (simp add: setUserDetails_def setJWTToken_def)
  moreover have "(1 :: rat) / 3600 \<le> of_int (e - i) / 3600"
    using ei(3) by (simp add: divide_right_mono)
  ultimately show thesis by (rule that)
qed

lemma getToken_live:
  "jar_ok b \<Longrightarrow> live_value b token_cookie \<noteq> '''' \<Longrightarrow> getToken D b = (Inr (live_value b token_cookie), b)"
  by (simp add: getToken_def getJWTToken_def getCookie_live token_cookie_def)

lemma getToken_none:
  "jar_ok b \<Longrightarrow> live_value b token_cookie = '''' \<Longrightarrow> getJwtTokenFromURL b = '''' \<Longrightarrow>
   getToken D b = (Inr '''', visit ''/login'' b)"
  by (simp add: getToken_def getJWTToken_def getCookie_live token_cookie_def)


text \<open>A malformed escape in any cookie of the page makes every read throw.\<close>

definition sample_browser :: "(string \<times> string) list \<Rightarrow> browser" where
  "sample_browser cs = \<lparr>jar = map (\<lambda>(n, v). \<lparr>cname = n, cvalue = v, cpath = ''/'', cexpires = None\<rparr>) cs,
     clock = 1700000000000, pathname = ''/home'', params = [], visits = []\<rparr>"

definition sample_claims :: "string \<Rightarrow> js" where
  "sample_claims t = (if t = ''a.b.c''
     then JObj [(''username'', JStr ''admin''), (''exp'', JNum 7200), (''iat'', JNum 3600)] else JNull)"

theorem percent_cookie_locks_out:
  "fst (getToken D (sample_browser [(''theme'', ''50%''), (''litmus-cc-token'', ''a.b.c'')])) = Inl (UserErr ''URIError'')"
proof -
  have "getCookie token_cookie (sample_browser [(''theme'', ''50%''), (''litmus-cc-token'', ''a.b.c'')])
      = Inl (UserErr ''URIError'')"
    by code_simp
  then show ?thesis by (simp add: getToken_def getJWTToken_def)
qed

theorem encoded_semicolon_shadows_token:
  "getCookie ''litmus-cc-token'' (sample_browser [(''note'', ''x%3Blitmus-cc-token=y''), (''litmus-cc-token'', ''a.b.c'')])
     = Inr ''y''"
  by code_simp

theorem setCookie_refines_map_witness:
  "getCookie ''litmus-cc-token'' (setCookie ''theme'' ''dark'' (Some 2) None (sample_browser [(''litmus-cc-token'', ''a.b.c'')]))
     = getCookie ''litmus-cc-token'' (sample_browser [(''litmus-cc-token'', ''a.b.c'')])"
  using setCookie_refines_map [of "sample_browser [(''litmus-cc-token'', ''a.b.c'')]" "''theme''" "''dark''" 2
      "''litmus-cc-token''"]
  by (simp add: sample_browser_def jar_ok_def plain_name_def plain_value_def js_space_def)


end
