(* ===== verification/Graph.thy ===== *)
theory Graph
  imports Icons Manifest
begin

text \<open>
  The workflow graphs: \<open>ExtractSteps.ts\<close>, \<open>WorkflowPreview\<close> (the graph of a manifest
  being tuned) and \<open>ArgoWorkflow\<close> (the graph of a run), with the labels of their nodes.
  Drawing the graph is the work of dagre-d3; the model ends at the nodes and links it is
  given.
\<close>

section \<open>ExtractSteps\<close>

text \<open>The module variable \<open>steps\<close> is the value the actions work on: it starts undefined
  and keeps its content from one call to the next.\<close>

definition act_of :: "'a result \<Rightarrow> ('a \<Rightarrow> 'b act) \<Rightarrow> 'b act" where
  "act_of r f v = (case r of Inl e \<Rightarrow> (Inl e, v) | Inr a \<Rightarrow> f a v)"

fun act_over :: "('x \<Rightarrow> unit act) \<Rightarrow> 'x list \<Rightarrow> unit act" where
  "act_over f [] = act_ret ()"
| "act_over f (x # xs) = act_seq (f x) (act_over f xs)"

definition set_steps :: "js \<Rightarrow> unit act" where
  "set_steps x v = (Inr (), x)"

definition step_row :: "js \<Rightarrow> js \<Rightarrow> js" where
  "step_row n t = JArr [JObj [(''name'', n), (''template'', t)]]"

definition step_name_at :: "nat \<Rightarrow> js \<Rightarrow> js result" where
  "step_name_at i template = rbind (js_get ''steps'' template) (\<lambda>ss. rbind (js_idx i ss) (\<lambda>row.
     rbind (js_idx 0 row) (js_get ''name'')))"

text \<open>\<open>steps = template.steps && (template.steps as Steps[][])\<close>.\<close>

definition customYAMLExtraction :: "js \<Rightarrow> unit act" where
  "customYAMLExtraction template = act_of (js_get ''steps'' template) set_steps"

definition push_engine :: "yaml \<Rightarrow> js \<Rightarrow> unit act" where
  "push_engine Y artifact = act_of (rbind (js_path [''raw'', ''data''] artifact) (yaml_parse Y)) (\<lambda>ce.
     act_of (js_get ''kind'' ce) (\<lambda>k. act_when (k = JStr ''ChaosEngine'')
       (act_of (js_path [''metadata'', ''name''] ce) (\<lambda>n.
        act_of (js_path [''metadata'', ''template''] ce) (\<lambda>t. act_upd (js_push (step_row n t)))))))"

definition push_run_chaos :: "yaml \<Rightarrow> js \<Rightarrow> unit act" where
  "push_run_chaos Y template = act_of (js_get ''name'' template) (\<lambda>n. act_when (n = JStr ''run-chaos'')
     (act_of (rbind (js_path [''inputs'', ''artifacts''] template) js_elems) (act_over (push_engine Y))))"

definition push_revert :: "js \<Rightarrow> unit act" where
  "push_revert row = act_of (rbind (js_idx 0 row) (js_get ''name'')) (\<lambda>n.
     act_when (n = JStr ''revert-chaos'') (act_upd (js_push (step_row n n))))"

definition preDefinedExtraction :: "yaml \<Rightarrow> js \<Rightarrow> js \<Rightarrow> unit act" where
  "preDefinedExtraction Y parsedYaml template = act_of (js_get ''name'' template) (\<lambda>nm.
     if nm \<noteq> JStr ''argowf-chaos'' then act_ret ()
     else act_of (step_name_at 1 template) (\<lambda>second.
       if second = JStr ''run-chaos''
       then act_of (step_name_at 0 template) (\<lambda>install.
         act_seq (act_upd (js_push (step_row install install)))
        (act_seq (act_of (rbind (js_path [''spec'', ''templates''] parsedYaml) js_elems)
                    (act_over (push_run_chaos Y)))
                 (act_of (rbind (js_get ''steps'' template) js_elems) (act_over push_revert))))
       else act_of (js_get ''steps'' template) set_steps))"

definition extractSteps :: "yaml \<Rightarrow> bool \<Rightarrow> string \<Rightarrow> js act" where
  "extractSteps Y isCustom crd = act_of (yaml_read Y crd) (\<lambda>doc. act_of (js_get ''kind'' doc) (\<lambda>k.
     act_seq
       (if isCustom
        then (if k = JStr ''Workflow''
              then act_of (rbind (js_path [''spec'', ''templates''] doc) (js_idx 0)) customYAMLExtraction
              else if k = JStr ''CronWorkflow''
              then act_of (rbind (js_path [''spec'', ''workflowSpec'', ''templates''] doc) (js_idx 0))
                     customYAMLExtraction
              else act_ret ())
        else act_seq (set_steps (JArr []))
             (if k = JStr ''Workflow''
              then act_of (rbind (js_path [''spec'', ''templates''] doc) js_elems)
                     (act_over (preDefinedExtraction Y doc))
              else if k = JStr ''CronWorkflow''
              then act_of (rbind (js_path [''spec'', ''workflowSpec'', ''templates''] doc) js_elems)
                     (act_over (preDefinedExtraction Y doc))
              else act_ret ()))
       (act_read Inr)))"

section \<open>Labels\<close>

text \<open>The loop of \<open>createLabel\<close>: the text of each line with the index it starts at.\<close>

function label_lines :: "nat \<Rightarrow> string \<Rightarrow> nat \<Rightarrow> (nat \<times> string) list" where
  "label_lines inc label i =
     (if inc = 0 \<or> length label \<le> i then []
      else (i, if i + inc + 1 < length label then take inc (drop i label) else drop i label)
           # label_lines inc label (i + inc))"
  by pat_completeness auto
termination
  by (relation "measure (\<lambda>(inc, label, i). length label - i)") auto

declare label_lines.simps [simp del]

definition label_tspan :: "bool \<Rightarrow> bool \<Rightarrow> string \<Rightarrow> nat \<times> string \<Rightarrow> svg" where
  "label_tspan isFirefox horizontal label p =
     (let inc = (if horizontal then 10 else 25) in
      set_inner (snd p) (svg_node ''tspan''
        [(''x'', ANum (if horizontal \<or> length label > 25 then - 2 * inc else - of_nat (length label) * 3)),
         (''y'', ANum ((if isFirefox then 35 else 20) + of_nat (fst p) * (if horizontal then 6 / 5 else 3 / 5))),
         (''dy'', AText ''1rem'')]))"

definition label_text :: "bool \<Rightarrow> bool \<Rightarrow> string \<Rightarrow> svg" where
  "label_text isFirefox horizontal label = fold append_child
     (map (label_tspan isFirefox horizontal label) (label_lines (if horizontal then 10 else 25) label 0))
     (svg_node ''text'' [])"

definition label_circle :: "string \<Rightarrow> svg" where
  "label_circle tooltip =
     (let c = svg_node ''circle'' [(''cx'', ANum 0), (''cy'', ANum 0), (''r'', ANum 15)]
      in if tooltip \<noteq> '''' then append_child (set_inner tooltip (svg_node ''title'' [])) c else c)"

definition preview_label :: "bool \<Rightarrow> string \<Rightarrow> string \<Rightarrow> string \<Rightarrow> bool \<Rightarrow> svg" where
  "preview_label isFirefox label tooltip phase horizontal = fold append_child
     [label_circle tooltip, preview_icon phase, label_text isFirefox horizontal label] (svg_node ''g'' [])"

definition selection_ring :: svg where
  "selection_ring = svg_node ''circle''
     [(''cx'', ANum 0), (''cy'', ANum 0), (''r'', ANum 18), (''class'', AText ''selected'')]"

definition argo_label :: "bool \<Rightarrow> string \<Rightarrow> string option \<Rightarrow> string \<Rightarrow> string \<Rightarrow> string \<Rightarrow> bool \<Rightarrow> svg" where
  "argo_label isFirefox currentNodeID selectedNodeID label tooltip phase horizontal = fold append_child
     (label_circle tooltip # (if Some currentNodeID = selectedNodeID then [selection_ring] else [])
       @ [argo_icon phase, label_text isFirefox horizontal label]) (svg_node ''g'' [])"

section \<open>WorkflowPreview\<close>

record Steps =
  sname :: string
  stemplate :: string

record d3Node =
  nid :: string
  nclass :: string
  nlabel :: "svg + string"
  labelType :: string
  fullName :: string

record d3Link =
  lsource :: string
  ltarget :: string
  lclass :: string
  arrowhead :: string

record GraphData =
  nodes :: "d3Node list"
  links :: "d3Link list"

definition StepGroup :: Steps where
  "StepGroup = \<lparr>sname = ''StepGroup'', stemplate = ''StepGroup''\<rparr>"

text \<open>A step group goes behind each non-empty row but the last row.\<close>

fun updatedSteps :: "Steps list list \<Rightarrow> Steps list list" where
  "updatedSteps [] = []"
| "updatedSteps [s] = (if s \<noteq> [] then [s] else [])"
| "updatedSteps (s # t # ss) = (if s \<noteq> [] then [s, [StepGroup]] else []) @ updatedSteps (t # ss)"

definition preview_node :: "bool \<Rightarrow> bool \<Rightarrow> nat \<Rightarrow> Steps \<Rightarrow> d3Node" where
  "preview_node isFirefox horizontal k s =
     \<lparr>nid = show_nat k, nclass = ''succeeded steps'',
      nlabel = Inl (preview_label isFirefox (sname s) (sname s) ''succeeded'' horizontal),
      labelType = (if sname s \<noteq> ''StepGroup'' then ''svg'' else ''string''), fullName = sname s\<rparr>"

text \<open>The two loops over the rows, with their counters \<open>k\<close>, \<open>i\<close> and \<open>nodeID\<close>.\<close>

fun preview_nodes :: "bool \<Rightarrow> bool \<Rightarrow> nat \<Rightarrow> Steps list list \<Rightarrow> d3Node list" where
  "preview_nodes ff h k [] = []"
| "preview_nodes ff h k (row # rows) =
     (if length row > 1
      then map (\<lambda>j. preview_node ff h (k + j) (row ! j)) [0..<length row] @ preview_nodes ff h (k + length row) rows
      else preview_node ff h k (row ! 0) # preview_nodes ff h (k + 1) rows)"

definition preview_link :: "Steps list \<Rightarrow> nat \<Rightarrow> nat \<Rightarrow> d3Link" where
  "preview_link row s t =
     \<lparr>lsource = show_nat s, ltarget = show_nat t, lclass = ''succeeded'',
      arrowhead = (if sname (row ! 0) \<noteq> ''StepGroup'' then ''undirected'' else ''vee'')\<rparr>"

fun preview_links :: "nat \<Rightarrow> nat \<Rightarrow> Steps list list \<Rightarrow> d3Link list" where
  "preview_links i nodeID (row # next # rows) =
     (if length row = 1 \<and> length next > 1
      then map (\<lambda>j. preview_link row nodeID (nodeID + j + 1)) [0..<length next]
           @ preview_links (i + 1) nodeID (next # rows)
      else if length row > 1
      then map (\<lambda>j. preview_link row (if i = 0 then nodeID + j else nodeID + j + 1)
                  (if i = 0 then nodeID + length row else nodeID + length row + 1)) [0..<length row]
           @ preview_links (i + 1) (if i = 0 then nodeID + length row else nodeID + length row + 1) (next # rows)
      else preview_link row nodeID (nodeID + 1) # preview_links (i + 1) (nodeID + 1) (next # rows))"
| "preview_links i nodeID rows = []"

definition preview_graph :: "bool \<Rightarrow> bool \<Rightarrow> Steps list list option \<Rightarrow> GraphData" where
  "preview_graph isFirefox horizontal steps = (case steps of
      None \<Rightarrow> \<lparr>nodes = [], links = []\<rparr>
    | Some ss \<Rightarrow> \<lparr>nodes = preview_nodes isFirefox horizontal 0 (updatedSteps ss),
                 links = preview_links 0 0 (updatedSteps ss)\<rparr>)"

text \<open>The rows the effect draws: those of the sequence being edited, when there is one,
  and else the extracted ones. Drawing a step reads the length of its name, which throws
  unless the name is text; its template is not drawn.\<close>

definition read_step :: "js \<Rightarrow> Steps result" where
  "read_step v = rbind (rbind (js_get ''name'' v) js_string) (\<lambda>n. rbind (js_get ''template'' v) (\<lambda>t.
     Inr \<lparr>sname = n, stemplate = js_show t\<rparr>))"

definition read_steps :: "js \<Rightarrow> Steps list list option result" where
  "read_steps v = (if truthy v
     then rbind (js_elems v) (\<lambda>rows. rmap Some (mapR (\<lambda>row. rbind (js_elems row) (mapR read_step)) rows))
     else Inr None)"

definition preview_steps :: "yaml \<Rightarrow> bool \<Rightarrow> (string \<times> Steps list) list option \<Rightarrow> string \<Rightarrow> js \<Rightarrow> Steps list list option result" where
  "preview_steps Y isCustomWorkflow SequenceSteps manifest modvar = (case SequenceSteps of
      Some sq \<Rightarrow> Inr (Some (map snd sq))
    | None \<Rightarrow> (if manifest \<noteq> '''' then rbind (fst (extractSteps Y isCustomWorkflow manifest modvar)) read_steps
              else Inr (Some [])))"

section \<open>ArgoWorkflow\<close>

record Node =
  children :: "string list option"
  nname :: string
  phase :: string
  ntype :: string

definition argo_node :: "bool \<Rightarrow> bool \<Rightarrow> string option \<Rightarrow> string \<Rightarrow> Node \<Rightarrow> d3Node" where
  "argo_node isFirefox horizontal selectedNodeID key node =
     \<lparr>nid = key,
      nclass = (if ntype node = ''StepGroup'' then ''StepGroup'' else phase node @ '' '' @ ntype node),
      nlabel = (if ntype node \<noteq> ''StepGroup''
                then Inl (argo_label isFirefox key selectedNodeID (nname node) (nname node)
                            (js_lower (phase node)) horizontal)
                else Inr ''''),
      labelType = (if ntype node \<noteq> ''StepGroup'' then ''svg'' else ''string''),
      fullName = nname node\<rparr>"

text \<open>\<open>nodes[child].type\<close> throws when no node has the child's key.\<close>

definition argo_link :: "(string \<times> Node) list \<Rightarrow> string \<Rightarrow> string \<Rightarrow> d3Link result" where
  "argo_link ns key child = (case map_of ns child of
      None \<Rightarrow> Inl TypeErr
    | Some c \<Rightarrow> Inr \<lparr>lsource = key, ltarget = child, lclass = ''link'',
                     arrowhead = (if ntype c = ''StepGroup'' then ''undirected'' else ''vee'')\<rparr>)"

definition argo_links :: "(string \<times> Node) list \<Rightarrow> d3Link list result" where
  "argo_links ns = rmap concat (mapR (\<lambda>(key, node).
     (case children node of None \<Rightarrow> Inr [] | Some cs \<Rightarrow> mapR (argo_link ns key) cs)) ns)"

definition argo_graph :: "bool \<Rightarrow> bool \<Rightarrow> string option \<Rightarrow> (string \<times> Node) list \<Rightarrow> GraphData result" where
  "argo_graph isFirefox horizontal selectedNodeID ns =
     rmap (\<lambda>ls. \<lparr>nodes = map (\<lambda>(k, n). argo_node isFirefox horizontal selectedNodeID k n) ns, links = ls\<rparr>)
       (argo_links ns)"

text \<open>The component: the graph is drawn again when the nodes change, and a click selects a
  node. The selection is \<open>Object.keys(nodes)[0]\<close> at first.\<close>

record argo_view =
  view_nodes :: "(string \<times> Node) list"
  selected :: "string option"
  graph :: GraphData

definition argo_redraw :: "bool \<Rightarrow> argo_view \<Rightarrow> argo_view result" where
  "argo_redraw ff s = rmap (\<lambda>g. s\<lparr>graph := g\<rparr>) (argo_graph ff True (selected s) (view_nodes s))"

definition argo_mount :: "bool \<Rightarrow> (string \<times> Node) list \<Rightarrow> argo_view result" where
  "argo_mount ff ns = argo_redraw ff
     \<lparr>view_nodes = ns, selected = (case ns of [] \<Rightarrow> None | p # _ \<Rightarrow> Some (fst p)),
      graph = \<lparr>nodes = [], links = []\<rparr>\<rparr>"

definition argo_new_data :: "bool \<Rightarrow> (string \<times> Node) list \<Rightarrow> argo_view \<Rightarrow> argo_view result" where
  "argo_new_data ff ns s = argo_redraw ff (s\<lparr>view_nodes := ns\<rparr>)"

definition argo_click :: "string \<Rightarrow> argo_view \<Rightarrow> argo_view" where
  "argo_click original s = s\<lparr>selected := (if original \<in> fst ` set (view_nodes s) then Some original else None)\<rparr>"

section \<open>The text of a label\<close>

text \<open>The lines of a label spell it, except that a label with one character more than its
  full lines hold repeats that character on a line of its own.\<close>

lemma label_lines_text:
  assumes "2 \<le> inc"
  shows "concat (map snd (label_lines inc label i)) =
    (if i + inc < length label \<and> (length label - i) mod inc = 1 then drop i label @ [last label]
     else drop i label)"
proof (induction "length label - i" arbitrary: i rule: less_induct)
  case less
  let ?n = "length label"
  consider "?n \<le> i" | "i < ?n" "?n \<le> i + inc" | "i < ?n" "?n = i + inc + 1" | "i + inc + 1 < ?n"
    by linarith
  then show ?case
  proof cases
    case 1
    then show ?thesis by (subst label_lines.simps) simp
  next
    case 2
    then show ?thesis using assms by (subst label_lines.simps) (simp add: label_lines.simps [of inc label "i + inc"])
  next
    case 3
    have "label_lines inc label (i + inc) = [(i + inc, [last label])]"
    proof -
      have "label \<noteq> []" using 3 by auto
      then have "last label = label ! (i + inc)" using 3 by (simp add: last_conv_nth)
      then show ?thesis using 3 assms
        by (subst label_lines.simps, subst label_lines.simps) (auto simp: Cons_nth_drop_Suc [symmetric])
    qed
    moreover have "(?n - i) mod inc = 1" using 3 assms by (simp add: mod_Suc)
    ultimately show ?thesis using 3 assms by (subst label_lines.simps) simp
  next
    case 4
    have ih: "concat (map snd (label_lines inc label (i + inc))) =
        (if i + inc + inc < ?n \<and> (?n - (i + inc)) mod inc = 1 then drop (i + inc) label @ [last label]
         else drop (i + inc) label)"
      by (rule less) (use 4 assms in linarith)
    have m: "(?n - i) mod inc = (?n - (i + inc)) mod inc"
      using 4 by (metis add.commute diff_diff_left le_add_diff_inverse2 less_imp_le_nat add_lessD1
          mod_add_self2 zero_less_diff less_imp_add_positive add_diff_cancel_left' nat_le_linear)
    have "(?n - (i + inc)) mod inc \<noteq> 1" if "\<not> i + inc + inc < ?n"
      using that 4 assms by (cases "?n = i + inc + inc") auto
    moreover have "take inc (drop i label) @ drop (i + inc) label = drop i label"
      by (metis append_take_drop_id drop_drop add.commute)
    ultimately show ?thesis using ih m 4 assms
      by (subst label_lines.simps) (auto simp: add.commute)
  qed
qed

theorem label_repeats_last_character:
  "concat (map snd (label_lines (if horizontal then 10 else 25) label 0)) =
    (if (if horizontal then 10 else 25) < length label \<and> length label mod (if horizontal then 10 else 25) = 1
     then label @ [last label] else label)"
  using label_lines_text [of 10 label 0] label_lines_text [of 25 label 0] by simp

section \<open>The graph of the preview\<close>

text \<open>What the graph is meant to be: the nodes are numbered row by row and each node is
  linked to all the nodes of the next row. The links of each two rows come in the order
  of their sources.\<close>

definition all_pairs :: "nat \<Rightarrow> nat \<Rightarrow> nat \<Rightarrow> (nat \<times> nat) list" where
  "all_pairs start m n = concat (map (\<lambda>a. map (\<lambda>b. (start + a, start + m + b)) [0..<n]) [0..<m])"

fun level_links :: "nat \<Rightarrow> 'a list list \<Rightarrow> (nat \<times> nat) list" where
  "level_links start (row # next # rows) =
     all_pairs start (length row) (length next) @ level_links (start + length row) (next # rows)"
| "level_links start rows = []"

text \<open>Rows without gaps of which no two neighbours hold several steps.\<close>

fun spaced :: "'a list list \<Rightarrow> bool" where
  "spaced (row # next # rows) \<longleftrightarrow> row \<noteq> [] \<and> (length row = 1 \<or> length next = 1) \<and> spaced (next # rows)"
| "spaced [row] \<longleftrightarrow> row \<noteq> []"
| "spaced [] \<longleftrightarrow> True"

lemma all_pairs_single:
  "all_pairs start (Suc 0) n = map (\<lambda>b. (start, Suc (start + b))) [0..<n]"
  "all_pairs start m (Suc 0) = map (\<lambda>a. (start + a, start + m)) [0..<m]"
proof -
  show "all_pairs start (Suc 0) n = map (\<lambda>b. (start, Suc (start + b))) [0..<n]" by (simp add: all_pairs_def)
  have "concat (map (\<lambda>a. [f a]) xs) = map f xs" for f and xs :: "nat list" by (induction xs) auto
  then show "all_pairs start m (Suc 0) = map (\<lambda>a. (start + a, start + m)) [0..<m]" by (simp add: all_pairs_def)
qed

definition link_ends :: "d3Link \<Rightarrow> string \<times> string" where
  "link_ends l = (lsource l, ltarget l)"

definition shown :: "nat \<times> nat \<Rightarrow> string \<times> string" where
  "shown p = (show_nat (fst p), show_nat (snd p))"

lemma link_ends_preview [simp]: "link_ends (preview_link row s t) = shown (s, t)"
  by (simp add: link_ends_def shown_def preview_link_def)

text \<open>Before a row of several steps the counter \<open>nodeID\<close> is one behind, the first row apart.\<close>

lemma preview_links_levels:
  assumes "spaced rows" and "rows \<noteq> []"
    and "start = (if length (hd rows) > 1 \<and> i \<noteq> 0 then nodeID + 1 else nodeID)"
  shows "map link_ends (preview_links i nodeID rows) = map shown (level_links start rows)"
  using assms
proof (induction i nodeID rows arbitrary: start rule: preview_links.induct)
  case (1 i nodeID row "next" rows)
  have ne: "row \<noteq> []" "next \<noteq> []" using "1.prems"(1) by (cases rows; simp)+
  have sp: "spaced (next # rows)" using "1.prems"(1) by simp
  consider "length row = 1" "length next > 1" | "length row > 1" "length next = 1" | "length row = 1" "length next = 1"
    using "1.prems"(1) ne by (metis One_nat_def length_0_conv less_Suc_eq_0_disj linorder_neqE_nat not_less_zero spaced.simps(1) less_one)
  then show ?case
  proof cases
    case 1
    have "map link_ends (preview_links (i + 1) nodeID (next # rows)) = map shown (level_links (nodeID + 1) (next # rows))"
      by (rule "1.IH"(1)) (use 1 sp in auto)
    then show ?thesis using 1 "1.prems"(3) by (simp add: all_pairs_single comp_def)
  next
    case 2
    have "map link_ends (preview_links (i + 1) (start + length row) (next # rows))
        = map shown (level_links (start + length row) (next # rows))"
      using "1.IH"(2) [of "start + length row"] 2 sp "1.prems"(3) by (auto split: if_splits)
    then show ?thesis using 2 "1.prems"(3)
      by (auto simp: all_pairs_single comp_def split: if_splits)
  next
    case 3
    have "map link_ends (preview_links (i + 1) (nodeID + 1) (next # rows)) = map shown (level_links (nodeID + 1) (next # rows))"
      by (rule "1.IH"(3)) (use 3 sp in auto)
    then show ?thesis using 3 "1.prems"(3) by (simp add: all_pairs_single)
  qed
qed simp_all

lemma spaced_group: "spaced rows \<Longrightarrow> spaced ([g] # rows)"
  by (cases rows) auto

lemma spaced_updatedSteps: "spaced (updatedSteps ss)"
  by (induction ss rule: updatedSteps.induct) (auto simp: spaced_group)

lemma preview_nodes_rows:
  "spaced rows \<Longrightarrow> preview_nodes ff h k rows =
     map (\<lambda>(j, s). preview_node ff h j s) (enumerate k (concat rows))"
proof (induction ff h k rows rule: preview_nodes.induct)
  case (2 ff h k row rows)
  have row: "row \<noteq> []" and rs: "spaced rows" using "2.prems" by (cases rows; simp)+
  have "map (\<lambda>j. preview_node ff h (k + j) (row ! j)) [0..<length row]
      = map (\<lambda>(j, s). preview_node ff h j s) (enumerate k row)"
    by (rule nth_equalityI) (simp_all add: nth_enumerate_eq)
  then show ?case using 2 row rs
    by (cases row) (auto simp: enumerate_append_eq)
qed simp_all


section \<open>The graph of a run\<close>

text \<open>The pairs of a node and its child, in the order of the nodes.\<close>

definition child_pairs :: "(string \<times> Node) list \<Rightarrow> (string \<times> string) list" where
  "child_pairs ns = concat (map (\<lambda>(k, n). map (Pair k) (case children n of None \<Rightarrow> [] | Some cs \<Rightarrow> cs)) ns)"

lemma mapR_Inl:
  "(\<exists>x \<in> set xs. \<exists>e. f x = Inl e) \<Longrightarrow> (\<And>x e. x \<in> set xs \<Longrightarrow> f x = Inl e \<Longrightarrow> e = e0) \<Longrightarrow> mapR f xs = Inl e0"
proof (induction xs)
  case (Cons x xs)
  then show ?case
    by (cases "f x"; cases "mapR f xs") (auto simp: rbind_Inl_iff mapR_Inr_iff list_all2_conv_all_nth in_set_conv_nth)
qed simp

lemma argo_link_ok:
  "child \<in> fst ` set ns \<Longrightarrow> \<exists>l. argo_link ns key child = Inr l \<and> link_ends l = (key, child)"
  by (auto simp: argo_link_def link_ends_def map_of_eq_None_iff split: option.splits)

lemma mapR_argo_links:
  "set cs \<subseteq> fst ` set ns \<Longrightarrow> \<exists>ls. mapR (argo_link ns key) cs = Inr ls \<and> map link_ends ls = map (Pair key) cs"
proof (induction cs)
  case (Cons c cs)
  then obtain l ls where "argo_link ns key c = Inr l \<and> link_ends l = (key, c)"
    "mapR (argo_link ns key) cs = Inr ls \<and> map link_ends ls = map (Pair key) cs"
    using argo_link_ok [of c ns key] by auto
  then show ?case by simp
qed simp

lemma argo_links_some:
  assumes "set (map snd (child_pairs ms)) \<subseteq> fst ` set ns"
  shows "\<exists>lss. mapR (\<lambda>(key, node). (case children node of None \<Rightarrow> Inr [] | Some cs \<Rightarrow> mapR (argo_link ns key) cs)) ms
      = Inr lss \<and> map link_ends (concat lss) = child_pairs ms"
  using assms
proof (induction ms)
  case Nil
  then show ?case by (simp add: child_pairs_def)
next
  case (Cons m ms)
  obtain k n where m: "m = (k, n)" by (cases m)
  let ?cs = "case children n of None \<Rightarrow> [] | Some cs \<Rightarrow> cs"
  have cp: "child_pairs (m # ms) = map (Pair k) ?cs @ child_pairs ms" by (simp add: child_pairs_def m)
  have "set ?cs \<subseteq> fst ` set ns" using Cons.prems by (auto simp: cp comp_def)
  then obtain ls where ls: "mapR (argo_link ns k) ?cs = Inr ls" "map link_ends ls = map (Pair k) ?cs"
    using mapR_argo_links by metis
  have "set (map snd (child_pairs ms)) \<subseteq> fst ` set ns" using Cons.prems by (simp add: cp)
  from Cons.IH [OF this] obtain lss where lss: "mapR (\<lambda>(key, node). (case children node of None \<Rightarrow> Inr []
      | Some cs \<Rightarrow> mapR (argo_link ns key) cs)) ms = Inr lss" "map link_ends (concat lss) = child_pairs ms"
    by auto
  have "(case children n of None \<Rightarrow> Inr [] | Some cs \<Rightarrow> mapR (argo_link ns k) cs) = Inr ls"
    using ls(1) by (cases "children n") auto
  with lss ls(2) show ?case by (simp add: m cp [unfolded m])
qed

theorem argo_links_are_the_children:
  assumes "set (map snd (child_pairs ns)) \<subseteq> fst ` set ns"
  shows "\<exists>g. argo_graph ff h sel ns = Inr g \<and> map link_ends (links g) = child_pairs ns
     \<and> map nid (nodes g) = map fst ns"
  using argo_links_some [OF assms]
  by (auto simp: argo_graph_def argo_links_def argo_node_def comp_def split_def)

lemma argo_links_missing:
  assumes "\<not> set (map snd (child_pairs ns)) \<subseteq> fst ` set ns"
  shows "argo_graph ff h sel ns = Inl TypeErr"
proof -
  obtain k n cs c where c: "(k, n) \<in> set ns" "children n = Some cs" "c \<in> set cs" "c \<notin> fst ` set ns"
    using assms by (force simp: child_pairs_def split: option.splits)
  have e: "e = TypeErr" if "mapR (argo_link ns key) ds = Inl e" for key ds e
    using that by (induction ds) (auto simp: rbind_Inl_iff argo_link_def split: option.splits)
  have "mapR (argo_link ns k) cs = Inl TypeErr"
    by (rule mapR_Inl) (use c in \<open>auto simp: argo_link_def map_of_eq_None_iff intro!: bexI [of _ c] split: option.splits\<close>)
  then have "mapR (\<lambda>(key, node). (case children node of None \<Rightarrow> Inr [] | Some cs \<Rightarrow> mapR (argo_link ns key) cs)) ns
      = Inl TypeErr"
    by (intro mapR_Inl) (use c e in \<open>auto split: option.splits intro!: bexI [of _ "(k, n)"]\<close>)
  then show ?thesis by (simp add: argo_graph_def argo_links_def)
qed

text \<open>A click moves the selection but not the ring, which stays on the node that was
  selected when the data last came.\<close>

theorem argo_click_keeps_ring:
  assumes "argo_mount ff ns = Inr s"
  shows "graph (argo_click k s) = graph s
    \<and> argo_graph ff True (case ns of [] \<Rightarrow> None | p # _ \<Rightarrow> Some (fst p)) ns = Inr (graph (argo_click k s))"
  using assms by (cases "argo_graph ff True (case ns of [] \<Rightarrow> None | p # _ \<Rightarrow> Some (fst p)) ns")
    (auto simp: argo_mount_def argo_redraw_def argo_click_def)

section \<open>What is extracted\<close>

lemma act_of_simps [simp]: "act_of (Inr a) f = f a" "act_of (Inl e) f v = (Inl e, v)"
  by (auto simp: act_of_def)

text \<open>For a custom manifest of any other kind the module variable is not assigned: the
  caller gets the steps of the manifest extracted before.\<close>

theorem extractSteps_keeps_old_steps:
  assumes "yaml_read Y crd = Inr doc" and "is_obj doc"
    and "fld ''kind'' doc \<notin> {JStr ''Workflow'', JStr ''CronWorkflow''}"
  shows "extractSteps Y True crd old = (Inr old, old)"
  using assms by (simp add: extractSteps_def js_get_obj act_seq_def act_bind_def act_read_def)

theorem extractSteps_custom:
  assumes "yaml_read Y crd = Inr doc" and "is_obj doc" and "fld ''kind'' doc = JStr ''Workflow''"
    and "js_path [''spec'', ''templates''] doc = Inr (JArr (tpl # ts))" and "is_obj tpl"
  shows "extractSteps Y True crd old = (Inr (fld ''steps'' tpl), fld ''steps'' tpl)"
  using assms
  by (simp add: extractSteps_def js_get_obj act_seq_def act_bind_def act_read_def customYAMLExtraction_def
      set_steps_def)

text \<open>A predefined schedule that runs its chaos in one step is looked up at
  \<open>spec.templates\<close>, which a CronWorkflow does not have.\<close>

definition cron_run_chaos :: "js \<Rightarrow> bool" where
  "cron_run_chaos doc \<longleftrightarrow> is_obj doc \<and> fld ''kind'' doc = JStr ''CronWorkflow'' \<and> is_obj (fld ''spec'' doc)
     \<and> pth [''spec'', ''templates''] doc = JUndef
     \<and> (\<exists>tpl ts install. js_path [''spec'', ''workflowSpec'', ''templates''] doc = Inr (JArr (tpl # ts))
          \<and> js_get ''name'' tpl = Inr (JStr ''argowf-chaos'')
          \<and> step_name_at 0 tpl = Inr install \<and> step_name_at 1 tpl = Inr (JStr ''run-chaos''))"

theorem extractSteps_cron_run_chaos_throws:
  assumes "yaml_read Y crd = Inr doc" and "cron_run_chaos doc"
  shows "fst (extractSteps Y False crd old) = Inl TypeErr"
proof -
  obtain tpl ts install where r: "js_path [''spec'', ''workflowSpec'', ''templates''] doc = Inr (JArr (tpl # ts))"
    "js_get ''name'' tpl = Inr (JStr ''argowf-chaos'')" "step_name_at 0 tpl = Inr install"
    "step_name_at 1 tpl = Inr (JStr ''run-chaos'')"
    and doc: "is_obj doc" "fld ''kind'' doc = JStr ''CronWorkflow''" "is_obj (fld ''spec'' doc)"
      "pth [''spec'', ''templates''] doc = JUndef"
    using assms(2) by (auto simp: cron_run_chaos_def)
  have "rbind (js_path [''spec'', ''templates''] doc) js_elems = Inl TypeErr"
    using doc by (simp add: js_get_obj)
  then have "preDefinedExtraction Y doc tpl (JArr []) = (Inl TypeErr, JArr [step_row install install])"
    using r by (simp add: preDefinedExtraction_def act_seq_def act_bind_def act_upd_def)
  with assms(1) doc r show ?thesis
    by (simp add: extractSteps_def js_get_obj act_seq_def act_bind_def set_steps_def)
qed

section \<open>Instances\<close>

definition sample_nodes :: "(string \<times> Node) list" where
  "sample_nodes =
     [(''wf'', \<lparr>children = Some [''wf-1''], nname = ''wf'', phase = ''Succeeded'', ntype = ''Steps''\<rparr>),
      (''wf-1'', \<lparr>children = Some [''wf-2''], nname = ''[0]'', phase = ''Succeeded'', ntype = ''StepGroup''\<rparr>),
      (''wf-2'', \<lparr>children = None, nname = ''install'', phase = ''Succeeded'', ntype = ''Pod''\<rparr>)]"

theorem argo_links_are_the_children_witness:
  "\<exists>g. argo_graph False True (Some ''wf'') sample_nodes = Inr g
     \<and> map link_ends (links g) = [(''wf'', ''wf-1''), (''wf-1'', ''wf-2'')]"
  using argo_links_are_the_children [of sample_nodes False True "Some ''wf''"]
  by (auto simp: sample_nodes_def child_pairs_def)

lemma label_repeats_sample:
  "map snd (label_lines 10 ''pod-network'' 0) = [''pod-network'', ''k'']"
  by code_simp

end
