(* ===== verification/ExperimentTable.thy ===== *)
theory ExperimentTable
  imports ManifestQuery ManifestEdit Store
begin

text \<open>
  \<open>views/CreateWorkflow/TuneWorkflow/WorkflowTable.tsx\<close>: the table of the experiments of
  the manifest being tuned, the revert-chaos switch and the deletion of an experiment.
  A handler returns the actions it dispatches; one that throws dispatches nothing.
\<close>

section \<open>The rows\<close>

record ChaosCRDTable =
  SequenceNo :: nat
  StepIndex :: nat
  Name :: js
  Namespace :: js
  Application :: js
  Probes :: js
  ChaosEngine :: js

definition table_addWeights :: "yaml \<Rightarrow> string \<Rightarrow> experimentMap list result" where
  "table_addWeights Y manifest = rmap (map (weight_of Map.empty)) (extractEngineNames Y manifest)"

text \<open>The last row of steps that holds a step of the template's name, 1 when there is none.\<close>

definition row_has :: "js \<Rightarrow> js \<Rightarrow> bool result" where
  "row_has name row = rbind (js_elems row) (\<lambda>vs. rmap (list_ex (\<lambda>n. n = name)) (mapR (js_get ''name'') vs))"

definition sequence_no :: "js \<Rightarrow> js \<Rightarrow> nat result" where
  "sequence_no name steps = rbind (js_elems steps) (\<lambda>rows.
     foldR (\<lambda>(i, row) sqnNo. rmap (\<lambda>h. if h then i else sqnNo) (row_has name row)) (enumerate 0 rows) 1)"

text \<open>\<open>spec.appinfo?.appns.toLowerCase().includes('namespace') ? namespace : spec.appinfo?.appns ?? ''\<close>.\<close>

definition row_namespace :: "string \<Rightarrow> js \<Rightarrow> js result" where
  "row_namespace namespace appinfo =
     (if nullish appinfo then Inr (JStr '''')
      else rbind (js_get ''appns'' appinfo) (\<lambda>ns. rbind (js_lower_any ns) (\<lambda>l.
        Inr (if js_includes l ''namespace'' then JStr namespace else orelse_nullish ns (JStr '''')))))"

definition probe_count :: "js \<Rightarrow> js result" where
  "probe_count engine = rbind (js_path [''spec'', ''experiments''] engine) (\<lambda>es. rbind (js_idx 0 es) (\<lambda>e.
     rbind (js_path [''spec'', ''probe''] e) (\<lambda>p. rmap (\<lambda>n. orelse_nullish n (JNum 0)) (js_opt ''length'' p))))"

definition table_row :: "string \<Rightarrow> js \<Rightarrow> js \<Rightarrow> nat \<Rightarrow> js \<Rightarrow> js \<Rightarrow> ChaosCRDTable result" where
  "table_row namespace template steps index raw engine =
     rbind (js_get ''name'' template) (\<lambda>tn. rbind (sequence_no tn steps) (\<lambda>sqnNo.
     rbind (js_path [''metadata'', ''generateName''] engine) (\<lambda>nm.
     rbind (js_path [''spec'', ''appinfo''] engine) (\<lambda>appinfo.
     rbind (row_namespace namespace appinfo) (\<lambda>ns.
     rbind (js_opt ''applabel'' appinfo) (\<lambda>label.
     rbind (probe_count engine) (\<lambda>probes.
     Inr \<lparr>SequenceNo = sqnNo, StepIndex = index, Name = nm, Namespace = ns,
          Application = orelse_nullish label (JStr ''''), Probes = probes, ChaosEngine = raw\<rparr>)))))))"

definition artifact_rows :: "yaml \<Rightarrow> string \<Rightarrow> js \<Rightarrow> js \<Rightarrow> nat \<Rightarrow> js \<Rightarrow> ChaosCRDTable list result" where
  "artifact_rows Y namespace template steps index artifact =
     rbind (js_path [''raw'', ''data''] artifact) (\<lambda>raw. rbind (yaml_parse Y raw) (\<lambda>engine.
     rbind (js_get ''kind'' engine) (\<lambda>k.
       if k = JStr ''ChaosEngine''
       then rmap (\<lambda>r. [r]) (table_row namespace template steps index raw engine) else Inr [])))"

definition extractInfo :: "yaml \<Rightarrow> string \<Rightarrow> js \<Rightarrow> js \<Rightarrow> nat \<Rightarrow> ChaosCRDTable list result" where
  "extractInfo Y namespace template steps index =
     rbind (js_get ''inputs'' template) (\<lambda>inp. if \<not> truthy inp then Inr [] else
     rbind (js_get ''artifacts'' inp) (\<lambda>as. if \<not> truthy as then Inr [] else
     rbind (js_elems as) (\<lambda>xs. rmap concat (mapR (artifact_rows Y namespace template steps index) xs))))"

definition rows_of_templates :: "yaml \<Rightarrow> string \<Rightarrow> js \<Rightarrow> ChaosCRDTable list result" where
  "rows_of_templates Y namespace templates = rbind (js_elems templates) (\<lambda>ts.
     rmap concat (mapR (\<lambda>(index, template).
       rbind (rbind (js_idx 0 templates) (js_get ''steps'')) (\<lambda>steps.
         extractInfo Y namespace template steps index)) (enumerate 0 ts)))"

definition parsing :: "yaml \<Rightarrow> string \<Rightarrow> string \<Rightarrow> ChaosCRDTable list result" where
  "parsing Y namespace manifest =
     rbind (yaml_read Y manifest) (\<lambda>doc. rbind (table_addWeights Y manifest) (\<lambda>_.
     rbind (js_get ''kind'' doc) (\<lambda>k.
       if k = JStr ''Workflow''
       then rbind (js_path [''spec'', ''templates''] doc) (rows_of_templates Y namespace)
       else if k = JStr ''CronWorkflow''
       then rbind (js_path [''spec'', ''workflowSpec'', ''templates''] doc) (rows_of_templates Y namespace)
       else Inr [])))"

text \<open>The table shows the rows by sequence number, numbered from the first one.\<close>

definition shown_rows :: "ChaosCRDTable list \<Rightarrow> (int \<times> ChaosCRDTable) list" where
  "shown_rows experiments = (let es = sort_key SequenceNo experiments in
     map (\<lambda>e. (int (SequenceNo e) - int (SequenceNo (hd es)) + 1, e)) es)"

section \<open>Reverting chaos\<close>

definition set_manifest :: "string \<Rightarrow> action" where
  "set_manifest m = setWorkflowManifest (JObj [(''manifest'', JStr m)])"

definition revert_row :: js where
  "revert_row = JArr [JObj [(''name'', JStr ''revert-chaos''), (''template'', JStr ''revert-chaos'')]]"

definition revert_template :: "string \<Rightarrow> js" where
  "revert_template version = JObj [(''name'', JStr ''revert-chaos''),
     (''container'', JObj [(''image'', JStr (''litmuschaos/k8s:'' @ version)),
        (''command'', JArr [JStr ''sh'', JStr ''-c'']), (''args'', JArr [JStr revert_command])])]"

definition pod_gc :: js where
  "pod_gc = jobj1 ''strategy'' (JStr ''OnWorkflowCompletion'')"

definition add_revert :: "string \<Rightarrow> unit act" where
  "add_revert version = act_seq (act_upd (js_put ''podGC'' pod_gc))
     (within ''templates'' (act_seq (within_idx 0 (within ''steps'' (act_upd (js_push revert_row))))
                                    (act_upd (js_push (revert_template version)))))"

definition revert_act :: "bool \<Rightarrow> string \<Rightarrow> unit act" where
  "revert_act revertChaos version = act_get ''kind'' (\<lambda>k.
     if revertChaos \<and> k = JStr ''Workflow'' then within ''spec'' (add_revert version)
     else if revertChaos \<and> k = JStr ''CronWorkflow'' then within_path [''spec'', ''workflowSpec''] (add_revert version)
     else act_ret ())"

definition toggleRevertChaos :: "yaml \<Rightarrow> bool \<Rightarrow> string \<Rightarrow> ImageRegistryInfo \<Rightarrow> string \<Rightarrow> action list result" where
  "toggleRevertChaos Y revertChaos version imageRegistryData manifest =
     rbind (yaml_read Y manifest) (\<lambda>doc. rbind (run_act (revert_act revertChaos version) doc) (\<lambda>doc'.
     rmap (\<lambda>m. [set_manifest m]) (updateManifestImage Y doc' imageRegistryData)))"

section \<open>Deleting an experiment\<close>

text \<open>
  \<open>forEach\<close> visits the indices the array had at the start; an element taken out by
  \<open>splice\<close> moves its successors one place down, so the next one is not visited.
\<close>

function splice_steps :: "js \<Rightarrow> nat \<Rightarrow> nat \<Rightarrow> js list \<Rightarrow> js list result" where
  "splice_steps name k n row =
     (if n \<le> k then Inr row
      else if length row \<le> k then splice_steps name (k + 1) n row
      else rbind (js_get ''name'' (row ! k)) (\<lambda>nm.
        splice_steps name (k + 1) n (if nm = name then remove_at k row else row)))"
  by pat_completeness auto
termination by (relation "measure (\<lambda>(name, k, n, row). n - k)") auto

declare splice_steps.simps [simp del]

function splice_rows :: "js \<Rightarrow> nat \<Rightarrow> nat \<Rightarrow> js list \<Rightarrow> js list result" where
  "splice_rows name k n rows =
     (if n \<le> k then Inr rows
      else if length rows \<le> k then splice_rows name (k + 1) n rows
      else rbind (js_elems (rows ! k)) (\<lambda>row. rbind (splice_steps name 0 (length row) row) (\<lambda>row'.
        splice_rows name (k + 1) n
          (if row' = [] then remove_at k rows else rows[k := JArr row']))))"
  by pat_completeness auto
termination by (relation "measure (\<lambda>(name, k, n, rows). n - k)") auto

declare splice_rows.simps [simp del]

definition delete_steps :: "js \<Rightarrow> js \<Rightarrow> js result" where
  "delete_steps name steps = rbind (js_elems steps) (\<lambda>rows. rmap JArr (splice_rows name 0 (length rows) rows))"

definition js_splice_one :: "nat \<Rightarrow> js \<Rightarrow> js result" where
  "js_splice_one i v = rmap (\<lambda>xs. JArr (remove_at i xs)) (js_elems v)"

text \<open>The last template's command is set when it is a revert template.\<close>

definition last_template :: "js \<Rightarrow> (nat \<times> js) result" where
  "last_template spec = rbind (js_get ''templates'' spec) (\<lambda>ts. rbind (js_get ''length'' ts) (\<lambda>len.
     case len of JNum n \<Rightarrow> (if n = 0 then Inl TypeErr else rmap (Pair (nat n - 1)) (js_idx (nat n - 1) ts))
       | _ \<Rightarrow> Inl TypeErr))"

definition reset_revert_args :: "unit act" where
  "reset_revert_args spec = (case last_template spec of
      Inl e \<Rightarrow> (Inl e, spec)
    | Inr (i, t) \<Rightarrow> (case rbind (js_get ''name'' t) (js_includes_any ''revert-'') of
        Inl e \<Rightarrow> (Inl e, spec)
      | Inr b \<Rightarrow> act_when b (within ''templates'' (within_idx i (within_path [''container'', ''args'']
                   (act_upd (js_set_idx 0 (JStr revert_command)))))) spec))"

definition delete_from_spec :: "nat \<Rightarrow> js \<Rightarrow> unit act" where
  "delete_from_spec experimentIndex templateName =
     act_seq reset_revert_args
       (within ''templates''
         (act_seq (within_idx 0 (within ''steps'' (act_upd (delete_steps templateName))))
                  (act_upd (js_splice_one experimentIndex))))"

definition delete_spec_path :: "js \<Rightarrow> string list result" where
  "delete_spec_path doc = rbind (js_get ''kind'' doc) (\<lambda>k. rmap (\<lambda>l.
     if l = ''workflow'' then [''spec''] else [''spec'', ''workflowSpec'']) (js_lower_any k))"

definition delete_act :: "nat \<Rightarrow> js \<Rightarrow> js result" where
  "delete_act experimentIndex doc = rbind (delete_spec_path doc) (\<lambda>p.
     rbind (rbind (rbind (js_path (p @ [''templates'']) doc) (js_idx experimentIndex)) (js_get ''name'')) (\<lambda>nm.
     run_act (within_path p (delete_from_spec experimentIndex nm)) doc))"

definition deleteExperiment :: "yaml \<Rightarrow> string \<Rightarrow> nat \<Rightarrow> action list result" where
  "deleteExperiment Y manifest experimentIndex =
     rbind (yaml_read Y manifest) (\<lambda>doc. rmap (\<lambda>doc'.
       [setWorkflowManifest (JObj [(''manifest'', JStr (yaml_show Y doc')), (''engineYAML'', JStr '''')])])
       (delete_act experimentIndex doc))"

section \<open>The table as a step of the wizard\<close>

record table_state =
  experiments :: "ChaosCRDTable list"
  revertChaos :: bool
  displayStepper :: bool
  displayAdvanceTune :: bool
  engineIndex :: nat
  selected_option :: string

definition table_init :: table_state where
  "table_init = \<lparr>experiments = [], revertChaos = False, displayStepper = False, displayAdvanceTune = False,
     engineIndex = 0, selected_option = ''''\<rparr>"

definition handleChange :: "table_state \<Rightarrow> table_state" where
  "handleChange s = s\<lparr>revertChaos := \<not> revertChaos s\<rparr>"

definition closeConfigurationStepper :: "table_state \<Rightarrow> table_state \<times> action list" where
  "closeConfigurationStepper s = (s\<lparr>displayStepper := False\<rparr>,
     [setWorkflowManifest (JObj [(''engineYAML'', JStr '''')])])"

text \<open>Clicking an experiment opens the configuration stepper on it.\<close>

definition openStepper :: "ChaosCRDTable \<Rightarrow> table_state \<Rightarrow> table_state \<times> action list" where
  "openStepper experiment s = (s\<lparr>displayStepper := True, engineIndex := StepIndex experiment\<rparr>,
     [setWorkflowManifest (JObj [(''engineYAML'', ChaosEngine experiment)])])"

definition manifest_effect :: "yaml \<Rightarrow> string \<Rightarrow> string \<Rightarrow> string option \<Rightarrow> table_state \<Rightarrow> table_state result" where
  "manifest_effect Y namespace manifest scheduleOption s =
     rmap (\<lambda>s. s\<lparr>selected_option := (case scheduleOption of None \<Rightarrow> '''' | Some v \<Rightarrow> v)\<rparr>)
       (if manifest \<noteq> '''' then rmap (\<lambda>es. s\<lparr>experiments := es\<rparr>) (parsing Y namespace manifest) else Inr s)"

definition table_onNext :: "yaml \<Rightarrow> string \<Rightarrow> ImageRegistryInfo \<Rightarrow> bool \<Rightarrow> string \<Rightarrow> table_state \<Rightarrow> (bool \<times> action list) result" where
  "table_onNext Y version imageRegistryData isCustom manifest s =
     (if experiments s = [] then Inr (False, [])
      else if \<not> isCustom then Inr (True, [])
      else if selected_option s = ''C''
      then rmap (Pair True) (toggleRevertChaos Y (revertChaos s) version imageRegistryData manifest)
      else Inr (True, []))"

definition configurationStepperRef :: "table_state \<Rightarrow> bool" where
  "configurationStepperRef s = (\<not> displayStepper s)"

datatype pane = TableView | StepperView | AdvanceView | NoView

definition table_view :: "table_state \<Rightarrow> pane" where
  "table_view s =
     (if \<not> displayStepper s \<and> \<not> displayAdvanceTune s then TableView
      else if displayStepper s \<and> \<not> displayAdvanceTune s then StepperView
      else if \<not> displayStepper s \<and> displayAdvanceTune s then AdvanceView else NoView)"

section \<open>Deleting takes out the steps of one name\<close>

definition step_named :: "js \<Rightarrow> js \<Rightarrow> bool" where
  "step_named name s \<longleftrightarrow> fld ''name'' s = name"

definition others :: "js \<Rightarrow> js list \<Rightarrow> js list" where
  "others name row = filter (\<lambda>s. \<not> step_named name s) row"

lemma others_id: "(\<And>s. s \<in> set row \<Longrightarrow> \<not> step_named name s) \<Longrightarrow> others name row = row"
  by (simp add: others_def filter_id_conv)

lemma splice_steps_absent:
  assumes "\<And>s. s \<in> set row \<Longrightarrow> is_obj s \<and> \<not> step_named name s"
  shows "splice_steps name k n row = Inr row"
proof (induction "n - k" arbitrary: k)
  case 0
  then show ?case by (subst splice_steps.simps) simp
next
  case (Suc d)
  have "splice_steps name (k + 1) n row = Inr row" by (rule Suc.hyps(1)) (use Suc.hyps(2) in linarith)
  moreover have "js_get ''name'' (row ! k) = Inr (fld ''name'' (row ! k)) \<and> fld ''name'' (row ! k) \<noteq> name"
    if "k < length row" using assms [of "row ! k"] that by (simp add: js_get_obj step_named_def)
  ultimately show ?case using Suc.hyps(2) by (subst splice_steps.simps) auto
qed

lemma remove_at_only_match:
  assumes "k < length row" and "P (row ! k)" and "length (filter P row) \<le> 1"
  shows "remove_at k row = filter (\<lambda>s. \<not> P s) row" and "\<And>s. s \<in> set (remove_at k row) \<Longrightarrow> \<not> P s"
proof -
  have split: "row = take k row @ row ! k # drop (Suc k) row" using assms(1) by (simp add: id_take_nth_drop)
  obtain us vs where uv: "us = take k row" "vs = drop (Suc k) row" "row = us @ row ! k # vs" using split by simp
  have "length (filter P us) + length (filter P vs) = 0"
  proof -
    have "filter P row = filter P us @ row ! k # filter P vs"
      using arg_cong [OF uv(3), of "filter P"] assms(2) by (simp only: filter_append filter.simps if_True)
    then show ?thesis using assms(3) by simp
  qed
  then have none: "filter P (take k row) = []" "filter P (drop (Suc k) row) = []" by (simp_all add: uv(1,2))
  then show "\<And>s. s \<in> set (remove_at k row) \<Longrightarrow> \<not> P s" by (auto simp: remove_at_def filter_empty_conv)
  have "filter (\<lambda>s. \<not> P s) (take k row) = take k row" "filter (\<lambda>s. \<not> P s) (drop (Suc k) row) = drop (Suc k) row"
    using none by (auto simp: filter_empty_conv filter_id_conv)
  then show "remove_at k row = filter (\<lambda>s. \<not> P s) row"
    using arg_cong [OF split, of "filter (\<lambda>s. \<not> P s)"] assms(2)
    by (simp only: filter_append filter.simps remove_at_def not_True_eq_False if_False simp_thms)
qed

lemma splice_steps_once:
  assumes "\<And>s. s \<in> set row \<Longrightarrow> is_obj s" and "length (filter (step_named name) row) \<le> 1"
    and "\<And>j. j < k \<Longrightarrow> j < length row \<Longrightarrow> \<not> step_named name (row ! j)" and "length row \<le> n"
  shows "splice_steps name k n row = Inr (others name row)"
  using assms(3)
proof (induction "n - k" arbitrary: k)
  case 0
  then have "\<not> step_named name s" if "s \<in> set row" for s
    using that assms(4) by (auto simp: in_set_conv_nth)
  with 0 show ?case by (subst splice_steps.simps) (simp add: others_id)
next
  case (Suc d)
  show ?case
  proof (cases "k < length row \<and> step_named name (row ! k)")
    case True
    note m = remove_at_only_match [of k row "step_named name", OF _ _ assms(2)]
    have "splice_steps name (k + 1) n (remove_at k row) = Inr (remove_at k row)"
      by (rule splice_steps_absent) (use True m(2) assms(1) in \<open>auto simp: remove_at_def dest: in_set_takeD in_set_dropD\<close>)
    with True m(1) assms(1) [of "row ! k"] Suc.hyps(2) show ?thesis
      by (subst splice_steps.simps) (simp add: js_get_obj step_named_def others_def)
  next
    case False
    have "splice_steps name (k + 1) n row = Inr (others name row)"
      by (rule Suc.hyps(1)) (use Suc.hyps(2) Suc.prems False in \<open>auto simp: less_Suc_eq\<close>)
    with False assms(1) [of "row ! k"] Suc.hyps(2) show ?thesis
      by (subst splice_steps.simps) (auto simp: js_get_obj step_named_def)
  qed
qed

definition match_count :: "js \<Rightarrow> js list list \<Rightarrow> nat" where
  "match_count name rows = length (filter (step_named name) (concat rows))"

definition rest_rows :: "js \<Rightarrow> js list list \<Rightarrow> js list list" where
  "rest_rows name rows = filter (\<lambda>r. r \<noteq> []) (map (others name) rows)"

lemma rest_rows_id:
  assumes "\<And>r. r \<in> set rows \<Longrightarrow> r \<noteq> [] \<and> (\<forall>s \<in> set r. \<not> step_named name s)"
  shows "rest_rows name rows = rows"
proof -
  have "map (others name) rows = rows" by (rule map_idI) (use assms in \<open>auto intro: others_id\<close>)
  then show ?thesis using assms by (auto simp: rest_rows_def filter_id_conv)
qed

lemma splice_rows_absent:
  assumes "\<And>r s. r \<in> set rows \<Longrightarrow> s \<in> set r \<Longrightarrow> is_obj s \<and> \<not> step_named name s" and "[] \<notin> set rows"
  shows "splice_rows name k n (map JArr rows) = Inr (map JArr rows)"
proof (induction "n - k" arbitrary: k)
  case 0
  then show ?case by (subst splice_rows.simps) simp
next
  case (Suc d)
  have ih: "splice_rows name (k + 1) n (map JArr rows) = Inr (map JArr rows)"
    by (rule Suc.hyps(1)) (use Suc.hyps(2) in linarith)
  have "splice_steps name 0 (length (rows ! k)) (rows ! k) = Inr (rows ! k) \<and> rows ! k \<noteq> []
      \<and> (map JArr rows)[k := JArr (rows ! k)] = map JArr rows" if "k < length rows"
    using that assms splice_steps_absent [of "rows ! k" name 0 "length (rows ! k)"]
    by (metis list_update_id map_update nth_mem)
  with ih Suc.hyps(2) show ?case by (subst splice_rows.simps) auto
qed

lemma rest_rows_append: "rest_rows name (xs @ ys) = rest_rows name xs @ rest_rows name ys"
  by (simp add: rest_rows_def)

lemma match_count_append: "match_count name (xs @ ys) = match_count name xs + match_count name ys"
  by (simp add: match_count_def)

lemma match_count_zero: "match_count name rows = 0 \<longleftrightarrow> (\<forall>r \<in> set rows. \<forall>s \<in> set r. \<not> step_named name s)"
  by (auto simp: match_count_def filter_empty_conv)

lemma match_count_row: "match_count name [r] = length (filter (step_named name) r)"
  by (simp add: match_count_def)

lemma only_matching_row:
  assumes k: "k < length rows" and one: "match_count name rows \<le> 1" and hit: "match_count name [rows ! k] \<noteq> 0"
    and ne: "[] \<notin> set rows"
  shows "rest_rows name rows = (if others name (rows ! k) = [] then remove_at k rows
           else rows[k := others name (rows ! k)])"
    and "\<And>r. r \<in> set (take k rows) \<union> set (drop (Suc k) rows) \<Longrightarrow> r \<noteq> [] \<and> (\<forall>s \<in> set r. \<not> step_named name s)"
proof -
  let ?us = "take k rows" and ?vs = "drop (Suc k) rows"
  have split: "rows = ?us @ [rows ! k] @ ?vs" using k by (simp add: id_take_nth_drop [symmetric])
  have "match_count name rows = match_count name ?us + match_count name [rows ! k] + match_count name ?vs"
    using arg_cong [OF split, of "match_count name"] by (simp only: match_count_append add.assoc)
  then have z: "match_count name ?us = 0" "match_count name ?vs = 0" using one hit by simp_all
  then show rest: "r \<noteq> [] \<and> (\<forall>s \<in> set r. \<not> step_named name s)" if "r \<in> set ?us \<union> set ?vs" for r
    using that ne unfolding match_count_zero by (auto dest: in_set_takeD in_set_dropD)
  have "rest_rows name rows = rest_rows name ?us @ rest_rows name [rows ! k] @ rest_rows name ?vs"
    using arg_cong [OF split, of "rest_rows name"] by (simp only: rest_rows_append)
  moreover have "rest_rows name ?us = ?us" "rest_rows name ?vs = ?vs" by (rule rest_rows_id, rule rest, simp)+
  ultimately show "rest_rows name rows = (if others name (rows ! k) = [] then remove_at k rows
           else rows[k := others name (rows ! k)])"
    using k by (simp add: rest_rows_def remove_at_def upd_conv_take_nth_drop)
qed

lemma splice_rows_once:
  assumes obj: "\<And>r s. r \<in> set rows \<Longrightarrow> s \<in> set r \<Longrightarrow> is_obj s" and ne: "[] \<notin> set rows"
    and one: "match_count name rows \<le> 1" and len: "length rows \<le> n"
    and "\<And>j. j < k \<Longrightarrow> j < length rows \<Longrightarrow> match_count name [rows ! j] = 0"
  shows "splice_rows name k n (map JArr rows) = Inr (map JArr (rest_rows name rows))"
  using assms(5)
proof (induction "n - k" arbitrary: k)
  case 0
  then have "match_count name [r] = 0" if "r \<in> set rows" for r
    using that len by (auto simp: in_set_conv_nth)
  then have "rest_rows name rows = rows"
    using ne by (intro rest_rows_id) (auto simp: match_count_zero)
  with 0 show ?case by (subst splice_rows.simps) simp
next
  case (Suc d)
  show ?case
  proof (cases "k < length rows")
    case False
    have "splice_rows name (k + 1) n (map JArr rows) = Inr (map JArr (rest_rows name rows))"
      by (rule Suc.hyps(1)) (use Suc.hyps(2) Suc.prems False in \<open>auto simp: less_Suc_eq\<close>)
    with False Suc.hyps(2) show ?thesis by (subst splice_rows.simps) auto
  next
    case k: True
    have "match_count name [rows ! k] \<le> 1"
      using one k id_take_nth_drop [OF k] match_count_append [of name "take k rows"]
        match_count_append [of name "[rows ! k]" "drop (Suc k) rows"] by (metis append_Cons append_Nil le_trans le_add1 le_add2)
    then have row: "splice_steps name 0 (length (rows ! k)) (rows ! k) = Inr (others name (rows ! k))"
      by (intro splice_steps_once) (use k obj [of "rows ! k"] in \<open>auto simp: match_count_row\<close>)
    have step: "splice_rows name k n (map JArr rows) = splice_rows name (k + 1) n
        (map JArr (if others name (rows ! k) = [] then remove_at k rows else rows[k := others name (rows ! k)]))"
      using k row Suc.hyps(2) by (subst splice_rows.simps) (auto simp: map_remove_at map_update)
    show ?thesis
    proof (cases "match_count name [rows ! k] = 0")
      case True
      then have "others name (rows ! k) = rows ! k" by (intro others_id) (auto simp: match_count_zero)
      moreover have "rows ! k \<noteq> []" using ne k by (metis nth_mem)
      moreover have "splice_rows name (k + 1) n (map JArr rows) = Inr (map JArr (rest_rows name rows))"
        by (rule Suc.hyps(1)) (use Suc.hyps(2) Suc.prems True in \<open>auto simp: less_Suc_eq\<close>)
      ultimately show ?thesis using step by simp
    next
      case False
      note only = only_matching_row [OF k one False ne]
      let ?rows = "if others name (rows ! k) = [] then remove_at k rows else rows[k := others name (rows ! k)]"
      have good: "r \<noteq> [] \<and> (\<forall>s \<in> set r. is_obj s \<and> \<not> step_named name s)" if rin: "r \<in> set ?rows" for r
      proof -
        consider "r \<in> set (take k rows) \<union> set (drop (Suc k) rows)" | "r = others name (rows ! k)" "r \<noteq> []"
          using rin k unfolding remove_at_def
          by (cases "others name (rows ! k) = []") (auto simp: upd_conv_take_nth_drop)
        then show ?thesis
        proof cases
          case 1
          then have "r \<in> set rows" by (auto dest: in_set_takeD in_set_dropD)
          with only(2) [OF 1] obj show ?thesis by blast
        next
          case 2
          have "is_obj s" if "s \<in> set (rows ! k)" for s using obj [OF nth_mem [OF k] that] .
          with 2 show ?thesis by (auto simp: others_def)
        qed
      qed
      then have "[] \<notin> set ?rows" by blast
      with good have "splice_rows name (k + 1) n (map JArr ?rows) = Inr (map JArr ?rows)"
        by (intro splice_rows_absent) blast+
      then show ?thesis using step only(1) by simp
    qed
  qed
qed

section \<open>The manifest after a deletion\<close>

text \<open>The shape the handlers rely on: a first template with its rows of steps, then one
  template for each step.\<close>

definition chaos_spec :: "js \<Rightarrow> js list list \<Rightarrow> js list \<Rightarrow> bool" where
  "chaos_spec sp rows ts \<longleftrightarrow> is_obj sp
     \<and> (\<exists>tpl. fld ''templates'' sp = JArr (tpl # ts) \<and> is_obj tpl \<and> fld ''steps'' tpl = JArr (map JArr rows))
     \<and> (\<forall>r \<in> set rows. \<forall>s \<in> set r. is_obj s) \<and> (\<forall>t \<in> set ts. is_obj t)"

definition spec_at :: "js \<Rightarrow> js" where
  "spec_at doc = (if fld ''kind'' doc = JStr ''Workflow'' then fld ''spec'' doc else pth [''spec'', ''workflowSpec''] doc)"

definition chaos_doc :: "js \<Rightarrow> js list list \<Rightarrow> js list \<Rightarrow> bool" where
  "chaos_doc doc rows ts \<longleftrightarrow> is_obj doc \<and> fld ''kind'' doc \<in> {JStr ''Workflow'', JStr ''CronWorkflow''}
     \<and> is_obj (fld ''spec'' doc) \<and> chaos_spec (spec_at doc) rows ts"

definition not_revert :: "js \<Rightarrow> bool" where
  "not_revert t \<longleftrightarrow> (\<exists>n. fld ''name'' t = JStr n \<and> \<not> js_includes n ''revert-'')"

lemma runs_within_idx_last:
  "i < length xs \<Longrightarrow> runs m (xs ! i) y \<Longrightarrow> runs (within_idx i m) (JArr xs) (JArr (xs[i := y]))"
  by (simp add: runs_def within_idx_def)

lemma runs_reset_skip:
  assumes "chaos_spec sp rows ts" and "ts \<noteq> []" and "not_revert (last ts)"
  shows "runs reset_revert_args sp sp"
proof -
  obtain tpl where t: "fld ''templates'' sp = JArr (tpl # ts)" "is_obj sp" "is_obj (last ts)"
    using assms(1,2) by (auto simp: chaos_spec_def)
  have "last_template sp = Inr (length ts, last ts)"
    using t assms(2) nat_add_distrib [of 1 "int (length ts)"]
    by (simp add: last_template_def js_get_obj last_conv_nth nth_Cons' split: nat.split)
  with t assms(3) show ?thesis
    by (auto simp: runs_def reset_revert_args_def not_revert_def js_get_obj)
qed

lemma runs_delete_from_spec:
  assumes sp: "chaos_spec sp rows ts" and ts: "ts \<noteq> []" "not_revert (last ts)" "i < length ts"
    and "[] \<notin> set rows" and "match_count name rows \<le> 1"
  shows "\<exists>sp'. runs (delete_from_spec (Suc i) name) sp sp' \<and> chaos_spec sp' (rest_rows name rows) (remove_at i ts)"
proof -
  obtain tpl where t: "is_obj sp" "fld ''templates'' sp = JArr (tpl # ts)" "is_obj tpl"
    "fld ''steps'' tpl = JArr (map JArr rows)" using sp by (auto simp: chaos_spec_def)
  let ?steps = "JArr (map JArr (rest_rows name rows))"
  let ?tpl = "set_prop ''steps'' ?steps tpl"
  have "splice_rows name 0 (length rows) (map JArr rows) = Inr (map JArr (rest_rows name rows))"
    by (rule splice_rows_once) (use assms in \<open>auto simp: chaos_spec_def\<close>)
  then have d: "delete_steps name (fld ''steps'' tpl) = Inr ?steps" by (simp add: delete_steps_def t)
  have "runs (within ''steps'' (act_upd (delete_steps name))) tpl ?tpl"
    by (rule runs_within) (use d t in \<open>simp_all add: runs_upd\<close>)
  then have "runs (act_seq (within_idx 0 (within ''steps'' (act_upd (delete_steps name)))) (act_upd (js_splice_one (Suc i))))
      (JArr (tpl # ts)) (JArr (?tpl # remove_at i ts))"
    by (intro runs_seq [where v = "JArr (?tpl # ts)"])
      (auto simp: runs_def within_idx_def act_upd_def js_splice_one_def remove_at_def)
  then have "runs (delete_from_spec (Suc i) name) sp (set_prop ''templates'' (JArr (?tpl # remove_at i ts)) sp)"
    unfolding delete_from_spec_def
    by (intro runs_seq [OF runs_reset_skip [OF sp ts(1,2)]] runs_within) (simp_all add: t)
  moreover have "chaos_spec (set_prop ''templates'' (JArr (?tpl # remove_at i ts)) sp) (rest_rows name rows) (remove_at i ts)"
    using sp t by (auto simp: chaos_spec_def rest_rows_def others_def remove_at_def dest: in_set_takeD in_set_dropD)
  ultimately show ?thesis by blast
qed

lemma runs_spec_path:
  assumes "chaos_doc doc rows ts" and "runs m (spec_at doc) sp'" and "chaos_spec sp' rows' ts'"
    and "p = (if fld ''kind'' doc = JStr ''Workflow'' then [''spec''] else [''spec'', ''workflowSpec''])"
  shows "\<exists>doc'. runs (within_path p m) doc doc' \<and> chaos_doc doc' rows' ts' \<and> fld ''kind'' doc' = fld ''kind'' doc
    \<and> spec_at doc' = sp'"
proof (cases "fld ''kind'' doc = JStr ''Workflow''")
  case True
  have "runs (within_path p m) doc (set_prop ''spec'' sp' doc)"
    using assms True by (auto simp: chaos_doc_def spec_at_def is_obj_not_undef intro!: runs_within)
  moreover have "is_obj sp'" using assms(3) by (simp add: chaos_spec_def)
  ultimately show ?thesis using assms True
    by (intro exI [of _ "set_prop ''spec'' sp' doc"]) (auto simp: chaos_doc_def spec_at_def)
next
  case False
  let ?doc = "set_prop ''spec'' (set_prop ''workflowSpec'' sp' (fld ''spec'' doc)) doc"
  have "fld ''workflowSpec'' (fld ''spec'' doc) \<noteq> JUndef"
    using assms(1) False by (auto simp: chaos_doc_def spec_at_def chaos_spec_def)
  then have "runs (within_path p m) doc ?doc"
    using assms False by (auto simp: chaos_doc_def spec_at_def is_obj_not_undef intro!: runs_within)
  then show ?thesis using assms False
    by (intro exI [of _ ?doc]) (auto simp: chaos_doc_def spec_at_def)
qed

lemma delete_act_ok:
  assumes doc: "chaos_doc doc rows ts"
    and i: "i < length ts" and last: "not_revert (last ts)" and ne: "[] \<notin> set rows"
    and one: "match_count (fld ''name'' (ts ! i)) rows \<le> 1"
  shows "\<exists>doc'. delete_act (Suc i) doc = Inr doc'
    \<and> chaos_doc doc' (rest_rows (fld ''name'' (ts ! i)) rows) (remove_at i ts)"
proof -
  let ?nm = "fld ''name'' (ts ! i)"
  let ?p = "if fld ''kind'' doc = JStr ''Workflow'' then [''spec''] else [''spec'', ''workflowSpec'']"
  have ts: "ts \<noteq> []" and sp: "chaos_spec (spec_at doc) rows ts" using i doc by (auto simp: chaos_doc_def)
  obtain sp' where sp': "runs (delete_from_spec (Suc i) ?nm) (spec_at doc) sp'"
    "chaos_spec sp' (rest_rows ?nm rows) (remove_at i ts)"
    using runs_delete_from_spec [OF sp ts last i ne one] by blast
  obtain doc' where doc': "runs (within_path ?p (delete_from_spec (Suc i) ?nm)) doc doc'"
    "chaos_doc doc' (rest_rows ?nm rows) (remove_at i ts)"
    using runs_spec_path [OF doc sp'(1,2) refl] by blast
  have p: "delete_spec_path doc = Inr ?p"
    using doc by (auto simp: delete_spec_path_def chaos_doc_def js_get_obj js_lower_any_def lower_kinds)
  have "is_obj (ts ! i)" using sp i by (simp add: chaos_spec_def)
  moreover obtain tpl where "is_obj (spec_at doc)" "fld ''templates'' (spec_at doc) = JArr (tpl # ts)"
    using sp by (auto simp: chaos_spec_def)
  ultimately have "rbind (rbind (js_path (?p @ [''templates'']) doc) (js_idx (Suc i))) (js_get ''name'') = Inr ?nm"
    using doc i by (auto simp: chaos_doc_def spec_at_def js_get_obj)
  with p doc'(1) have "delete_act (Suc i) doc = Inr doc'"
    by (simp add: delete_act_def run_act_Inr runs_def)
  then show ?thesis using doc'(2) by blast
qed


section \<open>The table and the weights list the same experiments\<close>

lemma foldR_collects:
  assumes "mapR g xs = Inr rss" and "foldR f xs acc = Inr acc'"
    and "\<And>x rs a a'. x \<in> set xs \<Longrightarrow> g x = Inr rs \<Longrightarrow> f x a = Inr a' \<Longrightarrow> a' = a @ h rs"
  shows "acc' = acc @ concat (map h rss)"
  using assms
proof (induction xs arbitrary: rss acc)
  case (Cons x xs)
  obtain rs rss' where r: "g x = Inr rs" "mapR g xs = Inr rss'" "rss = rs # rss'"
    using Cons.prems(1) by (auto simp: rbind_Inr_iff)
  obtain a where a: "f x acc = Inr a" "foldR f xs a = Inr acc'"
    using Cons.prems(2) by (auto simp: rbind_Inr_iff)
  have "a = acc @ h rs" by (rule Cons.prems(3) [OF _ r(1) a(1)]) simp
  moreover have "acc' = a @ concat (map h rss')" by (rule Cons.IH [OF r(2) a(2)]) (rule Cons.prems(3), simp_all)
  ultimately show ?case by (simp add: r(3))
qed simp

lemma js_get_opt: "js_get k v = Inr x \<Longrightarrow> js_opt k v = Inr x"
  by (cases v) (auto simp: js_opt_def)

lemma table_row_Name:
  "table_row ns t st i raw engine = Inr r \<Longrightarrow> js_path [''metadata'', ''generateName''] engine = Inr (Name r)"
  by (auto simp: table_row_def rbind_Inr_iff)

lemma artifact_names:
  assumes empty: "yaml_read Y '''' = Inr JNull" and "artifact_rows Y ns t st i a = Inr rs"
    and "engine_of_artifact Y a acc = Inr acc'"
  shows "acc' = acc @ map Name rs"
proof -
  obtain x raw engine k where a: "js_get ''raw'' a = Inr x" "js_get ''data'' x = Inr raw"
    "yaml_parse Y raw = Inr engine" "js_get ''kind'' engine = Inr k"
    and rs: "(if k = JStr ''ChaosEngine'' then rmap (\<lambda>r. [r]) (table_row ns t st i raw engine) else Inr []) = Inr rs"
    using assms(2) by (auto simp: artifact_rows_def rbind_Inr_iff)
  obtain s where s: "raw = JStr s" using a(3) by (cases raw) (auto simp: yaml_parse_def)
  have "truthy raw" using empty a(3,4) s by (auto simp: yaml_parse_def)
  with assms(3) a have "(if k = JStr ''ChaosEngine''
      then rbind (js_path [''metadata'', ''generateName''] engine) (\<lambda>g. Inr (acc @ [g])) else Inr acc) = Inr acc'"
    by (simp add: engine_of_artifact_def js_get_opt)
  with rs show ?thesis
    by (cases "k = JStr ''ChaosEngine''"; cases "table_row ns t st i raw engine")
       (auto dest!: table_row_Name simp: rbind_Inr_iff simp del: js_path.simps)
qed

lemma template_names:
  assumes "yaml_read Y '''' = Inr JNull" and "extractInfo Y ns t st i = Inr rs"
    and "engines_of_template Y t acc = Inr acc'"
  shows "acc' = acc @ map Name rs"
proof -
  obtain inp where inp: "js_get ''inputs'' t = Inr inp" using assms(2) by (auto simp: extractInfo_def rbind_Inr_iff)
  obtain v as where v: "js_opt ''artifacts'' inp = Inr v" "opt_elems v = Inr as"
    "foldR (engine_of_artifact Y) as acc = Inr acc'"
    using assms(3) inp by (auto simp: engines_of_template_def js_get_opt rbind_Inr_iff)
  show ?thesis
  proof (cases "truthy inp \<and> truthy v")
    case True
    then have "js_get ''artifacts'' inp = Inr v" using v(1) by (simp add: js_opt_def truthy_not_nullish)
    with True v(2) assms(2) inp obtain rss where rss: "mapR (artifact_rows Y ns t st i) as = Inr rss" "rs = concat rss"
      by (auto simp: extractInfo_def opt_elems_def truthy_not_nullish rmap_def rbind_Inr_iff)
    have "acc' = acc @ concat (map (map Name) rss)"
      by (rule foldR_collects [OF rss(1) v(3)]) (rule artifact_names [OF assms(1)])
    then show ?thesis by (simp add: rss(2) map_concat)
  next
    case False
    have "as = []"
    proof (cases "truthy inp")
      case True
      with False have "\<not> truthy v" by simp
      with v(2) show ?thesis by (cases v) (auto simp: opt_elems_def)
    next
      case False
      then have "v = JUndef \<or> v = JNum 0" using v(1) by (cases inp) (auto simp: js_opt_def)
      with v(2) show ?thesis by (auto simp: opt_elems_def)
    qed
    moreover have "rs = []"
    proof (cases "truthy inp")
      case True
      then have "js_get ''artifacts'' inp = Inr v" using v(1) by (simp add: js_opt_def truthy_not_nullish)
      with True False assms(2) inp show ?thesis by (auto simp: extractInfo_def)
    next
      case False
      with assms(2) inp show ?thesis by (simp add: extractInfo_def)
    qed
    ultimately show ?thesis using v(3) by simp
  qed
qed

lemma rows_of_templates_names:
  assumes "yaml_read Y '''' = Inr JNull" and "rows_of_templates Y ns templates = Inr es"
    and "rbind (opt_elems templates) (\<lambda>ts. foldR (engines_of_template Y) ts []) = Inr names"
  shows "names = map Name es"
proof -
  obtain ts rss where ts: "templates = JArr ts"
    "mapR (\<lambda>(index, template). rbind (rbind (js_idx 0 templates) (js_get ''steps'')) (\<lambda>steps.
         extractInfo Y ns template steps index)) (enumerate 0 ts) = Inr rss" "es = concat rss"
    using assms(2) by (cases templates) (auto simp: rows_of_templates_def rmap_def rbind_Inr_iff)
  have f: "foldR (\<lambda>p. engines_of_template Y (snd p)) ps acc = foldR (engines_of_template Y) (map snd ps) acc" for ps acc
  proof (induction ps arbitrary: acc)
    case (Cons p ps)
    then show ?case by (cases "engines_of_template Y (snd p) acc") auto
  qed simp
  have "map snd (enumerate 0 ts) = ts" by simp
  with f [of "enumerate 0 ts" "[]"] assms(3) ts(1)
  have "foldR (\<lambda>p. engines_of_template Y (snd p)) (enumerate 0 ts) [] = Inr names" by (simp add: opt_elems_def)
  from foldR_collects [OF ts(2) this, of "map Name"] have "names = [] @ concat (map (map Name) rss)"
    using template_names [OF assms(1)] by (force simp: rbind_Inr_iff)
  then show ?thesis by (simp add: ts(3) map_concat)
qed

theorem table_matches_weights:
  assumes empty: "yaml_read Y '''' = Inr JNull" and doc: "yaml_read Y manifest = Inr doc"
    and kind: "js_get ''kind'' doc = Inr (JStr kd)" "kd \<in> {''Workflow'', ''CronWorkflow''}"
    and es: "parsing Y ns manifest = Inr es"
  shows "table_addWeights Y manifest = Inr (map (\<lambda>e. \<lparr>experimentName = Name e, weight = 10\<rparr>) es)"
proof -
  let ?p = "if kd = ''Workflow'' then [''spec'', ''templates''] else [''spec'', ''workflowSpec'', ''templates'']"
  obtain names where names: "extractEngineNames Y manifest = Inr names"
    using es doc by (cases "extractEngineNames Y manifest") (auto simp: parsing_def table_addWeights_def)
  have rows: "rbind (js_path ?p doc) (rows_of_templates Y ns) = Inr es"
    using es doc kind names by (auto simp: parsing_def table_addWeights_def simp del: js_path.simps)
  then obtain templates where t: "js_path ?p doc = Inr templates" "rows_of_templates Y ns templates = Inr es"
    by (auto simp: rbind_Inr_iff simp del: js_path.simps)
  obtain sp where sp: "js_get ''spec'' doc = Inr sp" using t(1) by (auto simp: rbind_Inr_iff split: if_splits)
  obtain d where d: "workflow_spec doc sp = Inr d" "js_get ''templates'' d = Inr templates"
    using t(1) kind sp
    by (auto simp: workflow_spec_def js_lower_any_def lower_kinds rbind_Inr_iff split: if_splits)
  have "sp \<noteq> JUndef" using t(1) sp by (auto split: if_splits)
  with names doc sp d have "rbind (opt_elems templates) (\<lambda>ts. foldR (engines_of_template Y) ts []) = Inr names"
    by (simp add: extractEngineNames_def js_get_opt)
  then have "names = map Name es" using rows_of_templates_names [OF empty t(2)] by blast
  then show ?thesis by (simp add: table_addWeights_def names weight_of_def)
qed

lemma consecutive_duplicates_survive:
  "delete_steps (JStr ''a'') (JArr [JArr [jobj1 ''name'' (JStr ''a''), jobj1 ''name'' (JStr ''a'')]])
   = Inr (JArr [JArr [jobj1 ''name'' (JStr ''a'')]])"
  by code_simp

end
