(* ===== verification/Tune.thy ===== *)
theory Tune
  imports ExperimentTable
begin

text \<open>
  \<open>views/CreateWorkflow/TuneWorkflow/index.tsx\<close>: the wizard step in which a workflow is
  tuned. It fetches or starts a manifest, adds experiments to it, keeps its name and
  decides whether the wizard may go on. Replies of the server and of the browser's
  database are arguments; the times are \<open>new Date()\<close> in milliseconds.
\<close>

section \<open>Charts and fetched manifests\<close>

record ChartName =
  ChaosName :: string
  ExperimentName :: string
  Keywords :: "string list"

record chart =
  chart_name :: string
  chart_experiments :: "string list option"
  chart_keywords :: "string list"

definition charts_completed :: "chart list \<Rightarrow> ChartName list" where
  "charts_completed listCharts = concat (map (\<lambda>c. map (\<lambda>e.
     \<lparr>ChaosName = chart_name c, ExperimentName = e, Keywords = chart_keywords c\<rparr>)
       (case chart_experiments c of None \<Rightarrow> [] | Some es \<Rightarrow> es)) listCharts)"

definition predefined_completed :: "yaml \<Rightarrow> ImageRegistryInfo \<Rightarrow> string \<Rightarrow> string \<Rightarrow> action list result" where
  "predefined_completed Y imageRegistryData namespace reply =
     rbind (yaml_read Y reply) (\<lambda>doc.
     rbind (yaml_read Y (updateEngineName Y doc)) (\<lambda>wf.
     rbind (updateManifestImage Y wf imageRegistryData) (\<lambda>m.
     rmap (\<lambda>d. [set_manifest (yaml_show Y d)]) (updateNamespace Y m namespace))))"

definition template_completed :: "yaml \<Rightarrow> ImageRegistryInfo \<Rightarrow> string \<Rightarrow> string \<Rightarrow> action list result" where
  "template_completed Y imageRegistryData namespace reply =
     rbind (yaml_read Y reply) (\<lambda>doc.
     rbind (updateManifestImage Y doc imageRegistryData) (\<lambda>m.
     rmap (\<lambda>d. [set_manifest (yaml_show Y d)]) (updateNamespace Y m namespace)))"

section \<open>The default manifest\<close>

text \<open>\<open>Math.round(new Date().getTime() / 1000)\<close> rounds halves up.\<close>

definition unix_seconds :: "int \<Rightarrow> int" where
  "unix_seconds now = (now + 500) div 1000"

definition stamped_name :: "string \<Rightarrow> int \<Rightarrow> string" where
  "stamped_name wfname now = wfname @ ''-'' @ show_int (unix_seconds now)"

definition yamlTemplate :: "string \<Rightarrow> int \<Rightarrow> string \<Rightarrow> string \<Rightarrow> string \<Rightarrow> js" where
  "yamlTemplate wfname now namespace installAllExp version = JObj
     [(''apiVersion'', JStr ''argoproj.io/v1alpha1''),
      (''kind'', JStr ''Workflow''),
      (''metadata'', JObj [(''name'', JStr (stamped_name wfname now)), (''namespace'', JStr namespace)]),
      (''spec'', JObj
        [(''arguments'', JObj [(''parameters'', JArr
            [JObj [(''name'', JStr ''adminModeNamespace''), (''value'', JStr namespace)]])]),
         (''entrypoint'', JStr ''custom-chaos''),
         (''securityContext'', JObj [(''runAsNonRoot'', JBool True), (''runAsUser'', JNum 1000)]),
         (''serviceAccountName'', JStr ''argo-chaos''),
         (''templates'', JArr
           [JObj [(''name'', JStr ''custom-chaos''),
                  (''steps'', JArr [JArr [JObj [(''name'', JStr ''install-chaos-experiments''),
                                              (''template'', JStr ''install-chaos-experiments'')]]])],
            JObj [(''name'', JStr ''install-chaos-experiments''),
                  (''inputs'', JObj [(''artifacts'', JArr [])]),
                  (''container'', JObj [(''args'', JArr [JStr installAllExp]),
                     (''command'', JArr [JStr ''sh'', JStr ''-c'']),
                     (''image'', JStr (''litmuschaos/k8s:'' @ version))])]])])]"

section \<open>Adding an experiment\<close>

text \<open>\<open>(+new Date()).toString(36).slice(-3)\<close>.\<close>

fun base36 :: "nat \<Rightarrow> string" where
  "base36 n = (let d = ''0123456789abcdefghijklmnopqrstuvwxyz'' ! (n mod 36)
     in if n < 36 then [d] else base36 (n div 36) @ [d])"

declare base36.simps [simp del]

definition name_hash :: "int \<Rightarrow> string" where
  "name_hash now = (let s = base36 (nat now) in drop (length s - 3) s)"

text \<open>\<open>spec_act k m\<close> runs \<open>m\<close> on \<open>spec\<close> of a Workflow and on \<open>spec.workflowSpec\<close> of
  anything else; \<open>tpl_field i k\<close> is \<open>templates[i]?.k\<close>.\<close>

definition spec_act :: "unit act \<Rightarrow> unit act" where
  "spec_act m = act_get ''kind'' (\<lambda>k.
     if k = JStr ''Workflow'' then within ''spec'' m else within_path [''spec'', ''workflowSpec''] m)"

definition tpl_field :: "nat \<Rightarrow> string \<Rightarrow> js \<Rightarrow> js result" where
  "tpl_field i k spec = rbind (js_get ''templates'' spec) (\<lambda>ts. rbind (js_idx i ts) (js_opt k))"

definition with_read :: "(js \<Rightarrow> 'a result) \<Rightarrow> ('a \<Rightarrow> 'b act) \<Rightarrow> 'b act" where
  "with_read r f = act_bind (act_read r) f"

definition within_tpl :: "nat \<Rightarrow> unit act \<Rightarrow> unit act" where
  "within_tpl i m = within ''templates'' (within_idx i m)"

definition named_step :: "string \<Rightarrow> js" where
  "named_step n = JObj [(''name'', JStr n), (''template'', JStr n)]"

definition push_step :: "string \<Rightarrow> unit act" where
  "push_step n = with_read (tpl_field 0 ''steps'') (\<lambda>steps. act_when (steps \<noteq> JUndef)
     (within_tpl 0 (within ''steps'' (act_upd (js_push (JArr [named_step n]))))))"

definition set_install_args :: "string \<Rightarrow> unit act" where
  "set_install_args installAll = with_read (tpl_field 1 ''container'') (\<lambda>c. act_when (c \<noteq> JUndef)
     (within_tpl 1 (within ''container'' (act_upd (js_put ''args'' (JArr [JStr (installAll @ '' sleep 30'')]))))))"

definition artifact :: "string \<Rightarrow> string \<Rightarrow> string \<Rightarrow> js" where
  "artifact nm path data = JObj [(''name'', JStr nm), (''path'', JStr path), (''raw'', jobj1 ''data'' (JStr data))]"

text \<open>\<open>templates[1].inputs?.artifacts\<close>: here the template itself must be there.\<close>

definition push_experiment :: "string \<Rightarrow> string \<Rightarrow> unit act" where
  "push_experiment n data = with_read (\<lambda>spec. rbind (js_get ''templates'' spec) (\<lambda>ts.
       rbind (js_idx 1 ts) (\<lambda>t. rbind (js_get ''inputs'' t) (js_opt ''artifacts'')))) (\<lambda>as. act_when (as \<noteq> JUndef)
     (within_tpl 1 (within_path [''inputs'', ''artifacts'']
        (act_upd (js_push (artifact n (''/tmp/'' @ n @ ''.yaml'') data))))))"

definition engine_secrets :: "ImageRegistryInfo \<Rightarrow> unit act" where
  "engine_secrets imageRegData =
     act_when (enable_registry imageRegData \<and> update_registry imageRegData
               \<and> js_lower (image_registry_type imageRegData) = ''private'')
       (act_seq (within ''spec'' (act_upd (js_put ''components''
                  (jobj1 ''runner'' (jobj1 ''imagePullSecrets'' (pull_secrets imageRegData))))))
                (within_path [''spec'', ''experiments''] (within_idx 0 (within_path [''spec'', ''components'']
                  (act_upd (js_put ''experimentImagePullSecrets'' (pull_secrets imageRegData)))))))"

definition tune_engine :: "string \<Rightarrow> ImageRegistryInfo \<Rightarrow> unit act" where
  "tune_engine ExpName imageRegData =
     act_seq (within ''metadata''
       (act_seq (act_upd (js_put ''generateName'' (JStr ExpName)))
       (act_seq (act_upd (js_del ''name''))
       (act_seq (act_upd (js_put ''namespace'' (JStr ''{{workflow.parameters.adminModeNamespace}}'')))
                (act_upd (js_put ''labels'' (jobj1 ''workflow_run_id'' run_id_label)))))))
    (act_seq (within ''spec'' (act_get ''jobCleanUpPolicy'' (\<lambda>p. act_when (truthy p)
                (act_upd (js_put ''jobCleanUpPolicy'' (JStr ''retain''))))))
    (act_seq (engine_secrets imageRegData)
             (within ''spec'' (act_upd (js_put ''chaosServiceAccount'' (JStr ''litmus-admin''))))))"

definition engine_template :: "string \<Rightarrow> string \<Rightarrow> string \<Rightarrow> js" where
  "engine_template ExpName data version = JObj
     [(''name'', JStr ExpName),
      (''inputs'', JObj [(''artifacts'', JArr
         [artifact ExpName (''/tmp/chaosengine-'' @ ExpName @ ''.yaml'') data])]),
      (''container'', JObj
         [(''args'', JArr [JStr (''-file=/tmp/chaosengine-'' @ ExpName @ ''.yaml''),
                          JStr ''-saveName=/tmp/engine-name'']),
          (''image'', JStr (''litmuschaos/litmus-checker:'' @ version))])]"

record WorkflowExperiment =
  engineDetails :: string
  experimentDetails :: string

definition install_command :: "string \<Rightarrow> string \<Rightarrow> string" where
  "install_command installAllExp ExpName = installAllExp @ ''kubectl apply -f /tmp/'' @ ExpName
     @ ''.yaml -n {{workflow.parameters.adminModeNamespace}} && ''"

text \<open>
  The document is mutated in place and is also the result. The name is that of the
  experiment with the hash. The second component is \<open>installAllExp\<close> afterwards: it is
  set once the arguments of the install template are.
\<close>

definition add_first_part :: "string \<Rightarrow> string \<Rightarrow> unit act" where
  "add_first_part n installAll = spec_act (act_seq (push_step n) (set_install_args installAll))"

definition add_second_part :: "yaml \<Rightarrow> string \<Rightarrow> js \<Rightarrow> WorkflowExperiment \<Rightarrow> ImageRegistryInfo \<Rightarrow> string \<Rightarrow> unit act" where
  "add_second_part Y n ExperimentYAML experiment imageRegData version =
     act_seq (spec_act (push_experiment n (yaml_show Y ExperimentYAML)))
       (with_read (\<lambda>_. rbind (yaml_read Y (engineDetails experiment)) (run_act (tune_engine n imageRegData))) (\<lambda>engine.
          spec_act (within ''templates'' (act_upd (js_push (engine_template n (yaml_show Y engine) version))))))"

definition updateCRD :: "yaml \<Rightarrow> int \<Rightarrow> string \<Rightarrow> string \<Rightarrow> WorkflowExperiment \<Rightarrow> ImageRegistryInfo \<Rightarrow> js
    \<Rightarrow> (unit result \<times> js) \<times> string" where
  "updateCRD Y now version installAllExp experiment imageRegData crd =
     (case rbind (yaml_read Y (experimentDetails experiment)) (\<lambda>e. rmap (Pair e) (js_path [''metadata'', ''name''] e)) of
        Inl err \<Rightarrow> ((Inl err, crd), installAllExp)
      | Inr (ExperimentYAML, nm) \<Rightarrow>
          (let n = js_show nm @ ''-'' @ name_hash now; installAll = install_command installAllExp n in
           case add_first_part n installAll crd of
             (Inl err, crd') \<Rightarrow> ((Inl err, crd'), installAllExp)
           | (Inr _, crd') \<Rightarrow> (add_second_part Y n ExperimentYAML experiment imageRegData version crd', installAll)))"

section \<open>The state of the step\<close>

text \<open>The state variables of the component, with the manifest, the core version, the
  registry and the namespace as the store has them.\<close>

record tune =
  hubName :: string
  allExperiments :: "ChartName list"
  selectedRadio :: string
  selectedExp :: string
  addExpModal :: bool
  editManifest :: string
  confirmEdit :: bool
  isAlertOpen :: bool
  addExpAlert :: bool
  isEditorSaveAlertOpen :: bool
  addExpLoader :: bool
  isExpNameValid :: bool
  isConfigurationAlertOpen :: bool
  yamlValid :: bool
  editSequence :: bool
  isVisualizationComplete :: bool
  workflow_name :: string
  workflow_crd :: string
  workflow_description :: string
  YAMLModal :: bool
  installAllExp :: string
  generatedYAML :: js
  manifest :: string
  customAlert :: bool

definition current_doc :: "yaml \<Rightarrow> tune \<Rightarrow> js result" where
  "current_doc Y s = (if manifest s \<noteq> '''' then yaml_read Y (manifest s) else Inr (generatedYAML s))"

definition tune_init :: "yaml \<Rightarrow> int \<Rightarrow> string \<Rightarrow> string \<Rightarrow> string \<Rightarrow> tune result" where
  "tune_init Y now namespace version stored =
     rmap (\<lambda>g. \<lparr>hubName = '''', allExperiments = [], selectedRadio = '''', selectedExp = '''', addExpModal = False,
        editManifest = '''', confirmEdit = False, isAlertOpen = False, addExpAlert = False,
        isEditorSaveAlertOpen = False, addExpLoader = False, isExpNameValid = False,
        isConfigurationAlertOpen = False, yamlValid = True, editSequence = False,
        isVisualizationComplete = False, workflow_name = '''', workflow_crd = '''', workflow_description = '''',
        YAMLModal = False, installAllExp = '''', generatedYAML = g, manifest = stored, customAlert = False\<rparr>)
       (if stored = '''' then Inr (yamlTemplate '''' now namespace '''' version) else yaml_read Y stored)"

text \<open>The reply with an experiment. Without a manifest the generated document itself is
  mutated, also when the reply turns out to be unusable.\<close>

definition experiment_failed :: "tune \<Rightarrow> tune" where
  "experiment_failed s = s\<lparr>addExpLoader := False, addExpAlert := True, addExpModal := False\<rparr>"

definition experiment_completed :: "yaml \<Rightarrow> int \<Rightarrow> string \<Rightarrow> ImageRegistryInfo \<Rightarrow> WorkflowExperiment \<Rightarrow> tune \<Rightarrow> tune" where
  "experiment_completed Y now version imageRegistryData reply s =
     (case current_doc Y s of
        Inl e \<Rightarrow> experiment_failed s
      | Inr saved \<Rightarrow>
          (case updateCRD Y now version (installAllExp s) reply imageRegistryData saved of
             ((r, doc), installAll) \<Rightarrow>
               (let s1 = s\<lparr>installAllExp := installAll, generatedYAML := (if manifest s = '''' then doc else generatedYAML s)\<rparr>
                in case rbind r (\<lambda>_. rbind (updateManifestImage Y doc imageRegistryData) (\<lambda>m.
                          rmap (Pair m) (yaml_read Y m))) of
                     Inl e \<Rightarrow> experiment_failed s1
                   | Inr (m, g) \<Rightarrow> s1\<lparr>generatedYAML := g, manifest := m, addExpLoader := False, addExpModal := False\<rparr>)))"

text \<open>\<open>handleDone\<close> asks for the chart and the experiment of \<open>selectedExp\<close>.\<close>

definition handleDone :: "tune \<Rightarrow> tune \<times> string \<times> string option" where
  "handleDone s = (let parts = js_split (selectedExp s) ''/'' in
     (s\<lparr>addExpLoader := True\<rparr>, parts ! 0, if 1 < length parts then Some (parts ! 1) else None))"

definition saveManifestChanges :: "tune \<Rightarrow> tune" where
  "saveManifestChanges s = (if yamlValid s then s\<lparr>manifest := editManifest s, YAMLModal := False\<rparr>
     else s\<lparr>isAlertOpen := True\<rparr>)"

section \<open>Keeping the manifest\<close>

definition js_pop :: "js \<Rightarrow> js result" where
  "js_pop v = rmap (\<lambda>xs. JArr (butlast xs)) (js_elems v)"

text \<open>The name of the first step of the last row, \<open>steps[steps.length - 1][0].name\<close>.\<close>

definition last_row_name :: "js \<Rightarrow> js result" where
  "last_row_name spec = rbind (js_get ''templates'' spec) (\<lambda>ts. rbind (js_idx 0 ts) (\<lambda>t. rbind (js_get ''steps'' t) (\<lambda>steps.
     rbind (js_elems steps) (\<lambda>rows. if rows = [] then Inl TypeErr
       else rbind (js_idx 0 (last rows)) (js_get ''name'')))))"

definition drop_revert :: "unit act" where
  "drop_revert = with_read last_row_name (\<lambda>n. act_when (n = JStr ''revert-chaos'')
     (within ''templates'' (act_seq (within_idx 0 (within ''steps'' (act_upd js_pop))) (act_upd js_pop))))"

definition keep_manifest_act :: "int \<Rightarrow> tune \<Rightarrow> unit act" where
  "keep_manifest_act now s =
     act_seq (within ''metadata'' (act_upd (js_put ''name'' (JStr (stamped_name (workflow_name s) now)))))
    (act_seq (act_when (manifest s \<noteq> '''' \<and> selectedRadio s = ''C'')
                (act_get ''kind'' (\<lambda>k. act_when (k = JStr ''Workflow'') (within ''spec'' drop_revert))))
             (act_when (manifest s \<noteq> '''' \<and> selectedRadio s = ''C'')
                (act_get ''kind'' (\<lambda>k. act_when (k = JStr ''CronWorkflow'')
                   (within_path [''spec'', ''workflowSpec''] drop_revert)))))"

text \<open>The memo runs when the manifest or the workflow's name changes.\<close>

definition keep_manifest :: "yaml \<Rightarrow> int \<Rightarrow> tune \<Rightarrow> tune result" where
  "keep_manifest Y now s = rbind (current_doc Y s) (\<lambda>doc. rmap (\<lambda>doc'.
     s\<lparr>manifest := yaml_show Y doc', generatedYAML := (if manifest s = '''' then doc' else generatedYAML s)\<rparr>)
     (run_act (keep_manifest_act now s) doc))"

section \<open>Leaving the step\<close>

text \<open>The table is the child of the step, if it is mounted: its \<open>onNext\<close> and whether its
  stepper is closed.\<close>

definition tune_onNext :: "yaml \<Rightarrow> string \<Rightarrow> ImageRegistryInfo \<Rightarrow> bool \<Rightarrow> table_state option \<Rightarrow> tune
    \<Rightarrow> (bool \<times> tune \<times> action list) result" where
  "tune_onNext Y version imageRegistryData isCustom child s =
     rbind (current_doc Y s) (\<lambda>doc. rbind (validateExperimentNames doc) (\<lambda>nameValidation.
       if \<not> nameValidation then Inr (False, s\<lparr>isExpNameValid := True\<rparr>, [])
       else if YAMLModal s then Inr (False, s\<lparr>isEditorSaveAlertOpen := True\<rparr>, [])
       else (case child of
           None \<Rightarrow> Inr (True, s, [])
         | Some c \<Rightarrow> rbind (table_onNext Y version imageRegistryData isCustom (manifest s) c) (\<lambda>(ok, acts).
             if \<not> ok then Inr (False, s\<lparr>customAlert := True\<rparr>, acts)
             else if \<not> configurationStepperRef c then Inr (False, s\<lparr>isConfigurationAlertOpen := True\<rparr>, acts)
             else Inr (True, s, acts)))))"

section \<open>The editor\<close>

definition openEditor :: "tune \<Rightarrow> tune" where
  "openEditor s = s\<lparr>YAMLModal := True, confirmEdit := False\<rparr>"

definition closeEditor :: "tune \<Rightarrow> tune" where
  "closeEditor s = (if yamlValid s then s\<lparr>confirmEdit := True\<rparr> else s\<lparr>isAlertOpen := True\<rparr>)"

definition discardEdit :: "tune \<Rightarrow> tune" where
  "discardEdit s = (if yamlValid s then s\<lparr>YAMLModal := False, editManifest := ''''\<rparr> else s)"

definition backToEditor :: "tune \<Rightarrow> tune" where
  "backToEditor s = (if yamlValid s then s\<lparr>confirmEdit := False\<rparr> else s)"

definition openAddExperiment :: "tune \<Rightarrow> tune" where
  "openAddExperiment s = s\<lparr>selectedExp := '''', addExpModal := True\<rparr>"

definition onModalClose :: "tune \<Rightarrow> tune" where
  "onModalClose s = s\<lparr>addExpLoader := False, addExpModal := False\<rparr>"

definition onSelectChange :: "string \<Rightarrow> tune \<Rightarrow> tune" where
  "onSelectChange v s = s\<lparr>selectedExp := v\<rparr>"

section \<open>What is fetched when the step opens\<close>

datatype fetch =
    GetPredefined string string
  | GetTemplate string
  | GetCharts string

record stored_workflow =
  stored_name :: string
  CRDLink :: string
  stored_description :: string

definition getSelectedWorkflowDetails ::
    "(string \<times> string) option \<Rightarrow> stored_workflow option \<Rightarrow> string \<Rightarrow> tune \<Rightarrow> tune \<times> fetch list" where
  "getSelectedWorkflowDetails option details hub s =
     (let s1 = (case details of None \<Rightarrow> s | Some w \<Rightarrow> s\<lparr>workflow_name := stored_name w, workflow_crd := CRDLink w,
                   workflow_description := stored_description w\<rparr>)
      in case option of
           None \<Rightarrow> (s1, [])
         | Some (sel, tid) \<Rightarrow>
             if sel = ''A''
             then (s1, case details of Some w \<Rightarrow> if CRDLink w \<noteq> '''' \<and> manifest s = ''''
                         then [GetPredefined (CRDLink w) hub] else [] | None \<Rightarrow> [])
             else if sel = ''B'' then (s1, if tid \<noteq> '''' \<and> manifest s = '''' then [GetTemplate tid] else [])
             else if sel = ''C'' then (s1\<lparr>hubName := hub\<rparr>, [GetCharts hub])
             else (s1, []))"

text \<open>The heading: \<open>capitalize\<close> upcases the first character of each part of the name.\<close>

definition header_key :: "string \<Rightarrow> string" where
  "header_key radio =
     (if radio = ''A'' then ''createWorkflow.tuneWorkflow.selectedPreDefinedWorkflowInfo''
      else if radio = ''B'' then ''createWorkflow.tuneWorkflow.selectedTemplateInfo''
      else if radio = ''C'' then ''createWorkflow.tuneWorkflow.selectedCustomWorkflowInfo''
      else ''createWorkflow.tuneWorkflow.selectedUploadYAML'')"

section \<open>Reverting chaos is undone when the step is kept\<close>

lemma with_read_runs [runs_intros]: "r v = Inr x \<Longrightarrow> runs (f x) v w \<Longrightarrow> runs (with_read r f) v w"
  by (simp add: with_read_def runs_def act_bind_def act_read_def)

lemma runs_push: "runs (act_upd (js_push x)) (JArr xs) (JArr (xs @ [x]))"
  by (simp add: runs_def act_upd_def)

lemma runs_pop: "runs (act_upd js_pop) (JArr xs) (JArr (butlast xs))"
  by (simp add: runs_def act_upd_def js_pop_def)

text \<open>\<open>with_revert\<close> is the spec with the revert step and template.\<close>

definition with_steps :: "js list list \<Rightarrow> js \<Rightarrow> js" where
  "with_steps rows tpl = set_prop ''steps'' (JArr (map JArr rows)) tpl"

lemma runs_add_revert:
  assumes "is_obj sp" and "fld ''templates'' sp = JArr (tpl # ts)" and "is_obj tpl"
    and "fld ''steps'' tpl = JArr (map JArr rows)"
  shows "runs (add_revert version) sp (set_prop ''templates''
     (JArr (with_steps (rows @ [[JObj [(''name'', JStr ''revert-chaos''), (''template'', JStr ''revert-chaos'')]]]) tpl
        # ts @ [revert_template version])) (set_prop ''podGC'' pod_gc sp))"
proof -
  let ?rr = "[JObj [(''name'', JStr ''revert-chaos''), (''template'', JStr ''revert-chaos'')]]"
  have "runs (within ''steps'' (act_upd (js_push revert_row))) tpl (with_steps (rows @ [?rr]) tpl)"
    unfolding with_steps_def
    by (rule runs_within) (use assms runs_push [of revert_row "map JArr rows"] in \<open>simp_all add: revert_row_def\<close>)
  then have "runs (act_seq (within_idx 0 (within ''steps'' (act_upd (js_push revert_row)))) (act_upd (js_push (revert_template version))))
      (JArr (tpl # ts)) (JArr (with_steps (rows @ [?rr]) tpl # ts @ [revert_template version]))"
    using runs_push [of "revert_template version" "with_steps (rows @ [?rr]) tpl # ts"]
    by (intro runs_seq [where v = "JArr (with_steps (rows @ [?rr]) tpl # ts)"])
       (simp_all add: runs_def within_idx_def)
  then show ?thesis
    unfolding add_revert_def
    by (intro runs_seq [OF runs_put [OF assms(1)]] runs_within) (use assms in simp_all)
qed

lemma runs_drop_revert:
  assumes "is_obj sp" and "fld ''templates'' sp = JArr (tpl # ts)" and "is_obj tpl"
    and "fld ''steps'' tpl = JArr (map JArr (rows @ [s # r]))" and "is_obj s"
  shows "runs drop_revert sp (if fld ''name'' s = JStr ''revert-chaos''
     then set_prop ''templates'' (JArr (butlast (with_steps rows tpl # ts))) sp else sp)"
proof -
  have n: "last_row_name sp = Inr (fld ''name'' s)"
    using assms by (simp add: last_row_name_def js_get_obj)
  have "runs (within ''steps'' (act_upd js_pop)) tpl (with_steps rows tpl)"
    unfolding with_steps_def
    by (rule runs_within) (use assms runs_pop [of "map JArr (rows @ [s # r])"] in \<open>simp_all add: butlast_append\<close>)
  then have "runs (act_seq (within_idx 0 (within ''steps'' (act_upd js_pop))) (act_upd js_pop))
      (JArr (tpl # ts)) (JArr (butlast (with_steps rows tpl # ts)))"
    using runs_pop [of "with_steps rows tpl # ts"]
    by (intro runs_seq [where v = "JArr (with_steps rows tpl # ts)"]) (simp_all add: runs_def within_idx_def)
  then have "runs (within ''templates'' (act_seq (within_idx 0 (within ''steps'' (act_upd js_pop))) (act_upd js_pop)))
      sp (set_prop ''templates'' (JArr (butlast (with_steps rows tpl # ts))) sp)"
    by (intro runs_within) (use assms in simp_all)
  then show ?thesis
    unfolding drop_revert_def
    by (intro with_read_runs [where r = last_row_name and x = "fld ''name'' s"] runs_when) (simp_all add: n)
qed

definition spec_path :: "js \<Rightarrow> string list" where
  "spec_path doc = (if fld ''kind'' doc = JStr ''Workflow'' then [''spec''] else [''spec'', ''workflowSpec''])"

lemma runs_within_spec:
  assumes doc: "chaos_doc doc rows ts" and m: "runs m (spec_at doc) sp'" and sp': "is_obj sp'"
  shows "\<exists>doc'. runs (within_path (spec_path doc) m) doc doc' \<and> spec_at doc' = sp' \<and> is_obj doc'
    \<and> is_obj (fld ''spec'' doc') \<and> (\<forall>k. k \<noteq> ''spec'' \<longrightarrow> fld k doc' = fld k doc)"
proof (cases "fld ''kind'' doc = JStr ''Workflow''")
  case True
  have "runs (within_path (spec_path doc) m) doc (set_prop ''spec'' sp' doc)"
    using assms True by (auto simp: chaos_doc_def spec_at_def spec_path_def is_obj_not_undef intro!: runs_within)
  then show ?thesis using assms True
    by (intro exI [of _ "set_prop ''spec'' sp' doc"]) (auto simp: chaos_doc_def spec_at_def)
next
  case False
  let ?doc = "set_prop ''spec'' (set_prop ''workflowSpec'' sp' (fld ''spec'' doc)) doc"
  have "fld ''workflowSpec'' (fld ''spec'' doc) \<noteq> JUndef"
    using doc False by (auto simp: chaos_doc_def spec_at_def chaos_spec_def)
  then have "runs (within_path (spec_path doc) m) doc ?doc"
    using assms False by (auto simp: chaos_doc_def spec_at_def spec_path_def is_obj_not_undef intro!: runs_within)
  then show ?thesis using assms False
    by (intro exI [of _ ?doc]) (auto simp: chaos_doc_def spec_at_def)
qed

lemma kind_cases: "chaos_doc doc rows ts \<Longrightarrow> fld ''kind'' doc = JStr ''Workflow'' \<or> fld ''kind'' doc = JStr ''CronWorkflow''"
  by (simp add: chaos_doc_def)

lemma revert_act_path:
  "chaos_doc doc rows ts \<Longrightarrow> revert_act True version doc = within_path (spec_path doc) (add_revert version) doc"
  by (auto simp: revert_act_def act_get_def spec_path_def chaos_doc_def js_get_obj)

lemma keep_manifest_path:
  assumes doc: "chaos_doc doc rows ts" and md: "is_obj (fld ''metadata'' doc)"
    and s: "manifest s \<noteq> ''''" "selectedRadio s = ''C''"
    and sp': "runs drop_revert (spec_at doc) sp'" "is_obj sp'"
  shows "\<exists>doc'. runs (keep_manifest_act now s) doc doc' \<and> spec_at doc' = sp'
    \<and> pth [''metadata'', ''name''] doc' = JStr (stamped_name (workflow_name s) now)"
proof -
  let ?md = "set_prop ''name'' (JStr (stamped_name (workflow_name s) now)) (fld ''metadata'' doc)"
  let ?d = "set_prop ''metadata'' ?md doc"
  have d: "chaos_doc ?d rows ts" "spec_at ?d = spec_at doc" "spec_path ?d = spec_path doc" "is_obj doc"
    using doc by (auto simp: chaos_doc_def spec_at_def spec_path_def)
  obtain doc' where doc': "runs (within_path (spec_path ?d) drop_revert) ?d doc'" "spec_at doc' = sp'" "is_obj doc'"
    "\<forall>k. k \<noteq> ''spec'' \<longrightarrow> fld k doc' = fld k ?d"
    using runs_within_spec [OF d(1) sp'(1) [folded d(2)] sp'(2)] by blast
  have k: "fld ''kind'' doc' = fld ''kind'' doc" using doc'(4) d(4) by simp
  have first: "runs (within ''metadata'' (act_upd (js_put ''name'' (JStr (stamped_name (workflow_name s) now))))) doc ?d"
    by (intro runs_within runs_put) (use md in \<open>auto simp: is_obj_not_undef\<close>)
  let ?w = "if fld ''kind'' doc = JStr ''Workflow'' then doc' else ?d"
  have p: "within_path (spec_path ?d) drop_revert = (if fld ''kind'' doc = JStr ''Workflow''
      then within ''spec'' drop_revert else within_path [''spec'', ''workflowSpec''] drop_revert)"
    using d(3) by (simp add: spec_path_def)
  have one: "runs (act_get ''kind'' (\<lambda>k. act_when (k = JStr ''Workflow'') (within ''spec'' drop_revert))) ?d ?w"
    by (rule runs_get) (use doc'(1) d(4) p in \<open>auto intro!: runs_when runs_ret\<close>)
  have "is_obj ?w" "fld ''kind'' ?w = fld ''kind'' doc" using d(4) doc'(3) k by simp_all
  then have two: "runs (act_get ''kind'' (\<lambda>k. act_when (k = JStr ''CronWorkflow'')
      (within_path [''spec'', ''workflowSpec''] drop_revert))) ?w doc'"
    using kind_cases [OF doc] doc'(1) p by (intro runs_get runs_when) auto
  have "runs (keep_manifest_act now s) doc doc'"
    unfolding keep_manifest_act_def
    by (rule runs_seq [OF first], rule runs_seq [where v = ?w])
       (rule runs_when, rule one, use s in simp, rule runs_when, rule two, use s in simp)
  with doc'(2,4) d(4) md show ?thesis by (intro exI [of _ doc']) simp
qed

theorem revert_then_keep:
  assumes doc: "chaos_doc doc rows ts" and md: "is_obj (fld ''metadata'' doc)"
    and s: "manifest s \<noteq> ''''" "selectedRadio s = ''C''"
  shows "\<exists>d1 d2. run_act (revert_act True version) doc = Inr d1
    \<and> chaos_doc d1 (rows @ [[JObj [(''name'', JStr ''revert-chaos''), (''template'', JStr ''revert-chaos'')]]])
        (ts @ [revert_template version])
    \<and> run_act (keep_manifest_act now s) d1 = Inr d2 \<and> chaos_spec (spec_at d2) rows ts
    \<and> fld ''podGC'' (spec_at d2) = pod_gc
    \<and> pth [''metadata'', ''name''] d2 = JStr (stamped_name (workflow_name s) now)"
proof -
  let ?rs = "JObj [(''name'', JStr ''revert-chaos''), (''template'', JStr ''revert-chaos'')]"
  obtain tpl where t: "is_obj (spec_at doc)" "fld ''templates'' (spec_at doc) = JArr (tpl # ts)" "is_obj tpl"
    "fld ''steps'' tpl = JArr (map JArr rows)"
    using doc by (auto simp: chaos_doc_def chaos_spec_def)
  let ?t1 = "with_steps (rows @ [[?rs]]) tpl" and ?ts1 = "ts @ [revert_template version]"
  let ?sp1 = "set_prop ''templates'' (JArr (?t1 # ?ts1)) (set_prop ''podGC'' pod_gc (spec_at doc))"
  have sp1: "chaos_spec ?sp1 (rows @ [[?rs]]) ?ts1" "is_obj ?sp1"
    using doc t by (auto simp: chaos_doc_def chaos_spec_def with_steps_def revert_template_def)
  obtain d1 where d1: "runs (within_path (spec_path doc) (add_revert version)) doc d1" "spec_at d1 = ?sp1"
    "is_obj d1" "is_obj (fld ''spec'' d1)" "\<forall>k. k \<noteq> ''spec'' \<longrightarrow> fld k d1 = fld k doc"
    using runs_within_spec [OF doc runs_add_revert [OF t] sp1(2)] by blast
  have run1: "run_act (revert_act True version) doc = Inr d1"
    using d1(1) by (simp add: run_act_Inr runs_def revert_act_path [OF doc])
  have doc1: "chaos_doc d1 (rows @ [[?rs]]) ?ts1" "is_obj (fld ''metadata'' d1)"
    using d1 sp1(1) doc md by (auto simp: chaos_doc_def)
  have "runs drop_revert ?sp1 (set_prop ''templates'' (JArr (butlast (with_steps rows ?t1 # ?ts1))) ?sp1)"
    using runs_drop_revert [of ?sp1 ?t1 ?ts1 rows ?rs "[]"] t by (simp add: with_steps_def)
  then have drop: "runs drop_revert (spec_at d1) (set_prop ''templates'' (JArr (with_steps rows tpl # ts)) ?sp1)"
    unfolding d1(2) using t by (simp add: with_steps_def butlast_append)
  obtain d2 where d2: "runs (keep_manifest_act now s) d1 d2"
    "spec_at d2 = set_prop ''templates'' (JArr (with_steps rows tpl # ts)) ?sp1"
    "pth [''metadata'', ''name''] d2 = JStr (stamped_name (workflow_name s) now)"
    using keep_manifest_path [OF doc1 s drop] t by auto
  have "chaos_spec (spec_at d2) rows ts" "fld ''podGC'' (spec_at d2) = pod_gc"
    unfolding d2(2) using doc t by (auto simp: chaos_doc_def chaos_spec_def with_steps_def)
  moreover have "run_act (keep_manifest_act now s) d1 = Inr d2" using d2(1) by (simp add: run_act_Inr runs_def)
  ultimately show ?thesis using run1 doc1(1) d2(3) by blast
qed

section \<open>Adding an experiment adds its step, its files and its template\<close>

lemma runs_within_tpl:
  assumes "fld ''templates'' sp = JArr ts" and "i < length ts" and "runs m (ts ! i) t"
  shows "runs (within_tpl i m) sp (set_prop ''templates'' (JArr (ts[i := t])) sp)"
  unfolding within_tpl_def
  by (rule runs_within) (use assms runs_within_idx_last [of i ts m t] in simp_all)

lemma tpl_field_eq:
  "is_obj sp \<Longrightarrow> fld ''templates'' sp = JArr ts \<Longrightarrow> i < length ts \<Longrightarrow> is_obj (ts ! i) \<Longrightarrow>
   tpl_field i k sp = Inr (fld k (ts ! i))"
  by (cases "ts ! i") (auto simp: tpl_field_def js_get_obj js_opt_def)

lemma runs_push_step:
  assumes "is_obj sp" and "fld ''templates'' sp = JArr (tpl # ts)" and "is_obj tpl"
    and "fld ''steps'' tpl = JArr (map JArr rows)"
  shows "runs (push_step n) sp (set_prop ''templates'' (JArr (with_steps (rows @ [[named_step n]]) tpl # ts)) sp)"
proof -
  have "runs (within ''steps'' (act_upd (js_push (JArr [named_step n])))) tpl (with_steps (rows @ [[named_step n]]) tpl)"
    unfolding with_steps_def
    by (rule runs_within) (use assms runs_push [of "JArr [named_step n]" "map JArr rows"] in simp_all)
  then have "runs (within ''steps'' (act_upd (js_push (JArr [named_step n])))) ((tpl # ts) ! 0)
      (with_steps (rows @ [[named_step n]]) tpl)" by simp
  from runs_within_tpl [OF assms(2) _ this] show ?thesis unfolding push_step_def
    by (intro with_read_runs [where x = "fld ''steps'' tpl"] runs_when)
       (use assms tpl_field_eq [of sp "tpl # ts" 0] in simp_all)
qed

definition install_template :: "js \<Rightarrow> js list \<Rightarrow> bool" where
  "install_template t as \<longleftrightarrow> is_obj t \<and> is_obj (fld ''container'' t) \<and> is_obj (fld ''inputs'' t)
     \<and> pth [''inputs'', ''artifacts''] t = JArr as"

definition with_args :: "string \<Rightarrow> js \<Rightarrow> js" where
  "with_args installAll t = set_prop ''container''
     (set_prop ''args'' (JArr [JStr (installAll @ '' sleep 30'')]) (fld ''container'' t)) t"

definition with_artifact :: "js \<Rightarrow> js list \<Rightarrow> js \<Rightarrow> js" where
  "with_artifact a as t = set_prop ''inputs'' (set_prop ''artifacts'' (JArr (as @ [a])) (fld ''inputs'' t)) t"

lemma runs_set_install_args:
  assumes "is_obj sp" and "fld ''templates'' sp = JArr (tpl # t # ts)" and "install_template t as"
  shows "runs (set_install_args installAll) sp (set_prop ''templates'' (JArr (tpl # with_args installAll t # ts)) sp)"
proof -
  have t: "is_obj t" "is_obj (fld ''container'' t)" using assms(3) by (auto simp: install_template_def)
  have "runs (within ''container'' (act_upd (js_put ''args'' (JArr [JStr (installAll @ '' sleep 30'')]))))
      t (with_args installAll t)"
    unfolding with_args_def by (intro runs_within runs_put) (use t in \<open>auto simp: is_obj_not_undef\<close>)
  then have "runs (within ''container'' (act_upd (js_put ''args'' (JArr [JStr (installAll @ '' sleep 30'')]))))
      ((tpl # t # ts) ! 1) (with_args installAll t)" by simp
  from runs_within_tpl [OF assms(2) _ this] show ?thesis
    unfolding set_install_args_def
    by (intro with_read_runs [where x = "fld ''container'' t"] runs_when)
       (use assms t tpl_field_eq [of sp "tpl # t # ts" 1] in \<open>auto simp: is_obj_not_undef\<close>)
qed

lemma runs_push_experiment:
  assumes "is_obj sp" and "fld ''templates'' sp = JArr (tpl # t # ts)" and "install_template t as"
  shows "runs (push_experiment n data) sp
    (set_prop ''templates'' (JArr (tpl # with_artifact (artifact n (''/tmp/'' @ n @ ''.yaml'') data) as t # ts)) sp)"
proof -
  let ?a = "artifact n (''/tmp/'' @ n @ ''.yaml'') data"
  have t: "is_obj t" "is_obj (fld ''inputs'' t)" "fld ''artifacts'' (fld ''inputs'' t) = JArr as"
    using assms(3) by (auto simp: install_template_def)
  have nn: "\<not> nullish (fld ''inputs'' t)" using t(2) by (auto elim: is_obj_E)
  have "runs (within_path [''inputs'', ''artifacts''] (act_upd (js_push ?a))) ((tpl # t # ts) ! 1) (with_artifact ?a as t)"
    unfolding with_artifact_def using runs_push [of ?a as] t
    by (auto simp: is_obj_not_undef intro!: runs_within)
  from runs_within_tpl [OF assms(2) _ this] show ?thesis
    unfolding push_experiment_def
    by (intro with_read_runs [where x = "JArr as"] runs_when) (use assms t nn in \<open>auto simp: js_get_obj js_opt_def\<close>)
qed

lemma spec_act_path: "chaos_doc doc rows ts \<Longrightarrow> spec_act m doc = within_path (spec_path doc) m doc"
  by (auto simp: spec_act_def act_get_def spec_path_def chaos_doc_def js_get_obj)

lemma runs_spec_act:
  assumes "chaos_doc doc rows ts" and "runs m (spec_at doc) sp'" and "chaos_spec sp' rows' ts'"
  shows "\<exists>doc'. runs (spec_act m) doc doc' \<and> chaos_doc doc' rows' ts' \<and> spec_at doc' = sp'"
proof -
  have "is_obj sp'" using assms(3) by (simp add: chaos_spec_def)
  from runs_within_spec [OF assms(1,2) this] obtain doc' where
    d: "runs (within_path (spec_path doc) m) doc doc'" "spec_at doc' = sp'" "is_obj doc'" "is_obj (fld ''spec'' doc')"
      "\<forall>k. k \<noteq> ''spec'' \<longrightarrow> fld k doc' = fld k doc" by blast
  then have "chaos_doc doc' rows' ts'" using assms(1,3) by (auto simp: chaos_doc_def)
  with d show ?thesis by (intro exI [of _ doc']) (simp add: runs_def spec_act_path [OF assms(1)])
qed

text \<open>The engine as it goes into the template.\<close>

definition engine_tuned :: "string \<Rightarrow> js \<Rightarrow> bool" where
  "engine_tuned n d \<longleftrightarrow> pth [''metadata'', ''generateName''] d = JStr n
     \<and> pth [''metadata'', ''name''] d = JUndef
     \<and> pth [''metadata'', ''namespace''] d = JStr ''{{workflow.parameters.adminModeNamespace}}''
     \<and> pth [''metadata'', ''labels''] d = jobj1 ''workflow_run_id'' run_id_label
     \<and> pth [''spec'', ''chaosServiceAccount''] d = JStr ''litmus-admin''
     \<and> (truthy (pth [''spec'', ''jobCleanUpPolicy''] d) \<longrightarrow> pth [''spec'', ''jobCleanUpPolicy''] d = JStr ''retain'')"

lemma tune_engine_tunes:
  assumes d: "is_obj d" "is_obj (fld ''metadata'' d)" "is_obj (fld ''spec'' d)"
    and reg: "\<not> (enable_registry reg \<and> update_registry reg \<and> js_lower (image_registry_type reg) = ''private'')"
  shows "\<exists>d'. run_act (tune_engine n reg) d = Inr d' \<and> engine_tuned n d' \<and> fld ''kind'' d' = fld ''kind'' d"
proof -
  obtain fs where fs: "fld ''metadata'' d = JObj fs" using d(2) by (rule is_obj_E)
  let ?ns = "JStr ''{{workflow.parameters.adminModeNamespace}}''"
  let ?m1 = "JObj (AList.delete ''name'' (AList.update ''generateName'' (JStr n) fs))"
  let ?md = "set_prop ''labels'' (jobj1 ''workflow_run_id'' run_id_label) (set_prop ''namespace'' ?ns ?m1)"
  let ?sp = "if truthy (pth [''spec'', ''jobCleanUpPolicy''] d)
             then set_prop ''jobCleanUpPolicy'' (JStr ''retain'') (fld ''spec'' d) else fld ''spec'' d"
  have m1: "runs (act_upd (js_put ''generateName'' (JStr n))) (JObj fs) (JObj (AList.update ''generateName'' (JStr n) fs))"
    "runs (act_upd (js_del ''name'')) (JObj (AList.update ''generateName'' (JStr n) fs)) ?m1"
    by (simp_all add: runs_def act_upd_def)
  have m2: "runs (act_upd (js_put ''namespace'' ?ns)) ?m1 (set_prop ''namespace'' ?ns ?m1)"
    by (rule runs_put) simp
  have m3: "runs (act_upd (js_put ''labels'' (jobj1 ''workflow_run_id'' run_id_label))) (set_prop ''namespace'' ?ns ?m1) ?md"
    by (rule runs_put) simp
  have md: "runs (within ''metadata''
       (act_seq (act_upd (js_put ''generateName'' (JStr n)))
       (act_seq (act_upd (js_del ''name''))
       (act_seq (act_upd (js_put ''namespace'' ?ns))
                (act_upd (js_put ''labels'' (jobj1 ''workflow_run_id'' run_id_label))))))) d (set_prop ''metadata'' ?md d)"
    by (rule runs_within) (use fs in simp, unfold fs, rule runs_seq [OF m1(1) runs_seq [OF m1(2) runs_seq [OF m2 m3]]])
  have sp: "runs (within ''spec'' (act_get ''jobCleanUpPolicy'' (\<lambda>p. act_when (truthy p)
       (act_upd (js_put ''jobCleanUpPolicy'' (JStr ''retain'')))))) (set_prop ''metadata'' ?md d)
      (set_prop ''spec'' ?sp (set_prop ''metadata'' ?md d))"
    by (intro runs_within runs_get runs_when) (use d in \<open>auto simp: is_obj_not_undef intro: runs_put\<close>)
  let ?e = "set_prop ''spec'' ?sp (set_prop ''metadata'' ?md d)"
  let ?d = "set_prop ''spec'' (set_prop ''chaosServiceAccount'' (JStr ''litmus-admin'') ?sp) ?e"
  have acc: "runs (within ''spec'' (act_upd (js_put ''chaosServiceAccount'' (JStr ''litmus-admin'')))) ?e ?d"
    by (rule runs_within) (use d runs_put [of ?sp] in \<open>auto simp: is_obj_not_undef\<close>)
  have "runs (engine_secrets reg) ?e ?e" using reg by (auto simp: engine_secrets_def runs_def act_when_def)
  with md sp acc have "runs (tune_engine n reg) d ?d"
    unfolding tune_engine_def by (blast intro: runs_seq)
  moreover have "engine_tuned n ?d" "fld ''kind'' ?d = fld ''kind'' d"
    using d by (simp_all add: engine_tuned_def)
  ultimately show ?thesis by (intro exI [of _ ?d]) (simp add: run_act_Inr runs_def)
qed

definition fetched_experiment :: "yaml \<Rightarrow> WorkflowExperiment \<Rightarrow> js \<Rightarrow> string \<Rightarrow> js \<Rightarrow> bool" where
  "fetched_experiment Y x E nm D \<longleftrightarrow> yaml_read Y (experimentDetails x) = Inr E
     \<and> js_path [''metadata'', ''name''] E = Inr (JStr nm) \<and> yaml_read Y (engineDetails x) = Inr D
     \<and> is_obj D \<and> is_obj (fld ''metadata'' D) \<and> is_obj (fld ''spec'' D)"

lemma add_first_part_runs:
  assumes "chaos_doc doc rows (t1 # ts)" and "install_template t1 as"
  shows "\<exists>doc'. runs (add_first_part n installAll) doc doc'
    \<and> chaos_doc doc' (rows @ [[named_step n]]) (with_args installAll t1 # ts)"
proof -
  obtain tpl where t: "is_obj (spec_at doc)" "fld ''templates'' (spec_at doc) = JArr (tpl # t1 # ts)" "is_obj tpl"
    "fld ''steps'' tpl = JArr (map JArr rows)" using assms(1) by (auto simp: chaos_doc_def chaos_spec_def)
  let ?tpl = "with_steps (rows @ [[named_step n]]) tpl"
  let ?sp = "set_prop ''templates'' (JArr (?tpl # t1 # ts)) (spec_at doc)"
  let ?sp' = "set_prop ''templates'' (JArr (?tpl # with_args installAll t1 # ts)) ?sp"
  have "runs (act_seq (push_step n) (set_install_args installAll)) (spec_at doc) ?sp'"
    by (rule runs_seq [OF runs_push_step [OF t] runs_set_install_args [OF _ _ assms(2)]]) (use t in simp_all)
  moreover have "chaos_spec ?sp' (rows @ [[named_step n]]) (with_args installAll t1 # ts)"
    using assms t by (auto simp: chaos_doc_def chaos_spec_def with_steps_def named_step_def with_args_def install_template_def)
  ultimately show ?thesis unfolding add_first_part_def using runs_spec_act [OF assms(1)] by blast
qed

lemma install_template_args: "install_template t as \<Longrightarrow> install_template (with_args x t) as"
  by (simp add: install_template_def with_args_def)

lemma add_second_part_runs:
  assumes doc: "chaos_doc doc rows (t1 # ts)" "install_template t1 as"
    and x: "yaml_read Y (engineDetails x) = Inr D" "run_act (tune_engine n reg) D = Inr D'"
  shows "\<exists>doc'. runs (add_second_part Y n E x reg version) doc doc'
    \<and> chaos_doc doc' rows (with_artifact (artifact n (''/tmp/'' @ n @ ''.yaml'') (yaml_show Y E)) as t1
        # ts @ [engine_template n (yaml_show Y D') version])"
proof -
  let ?t1 = "with_artifact (artifact n (''/tmp/'' @ n @ ''.yaml'') (yaml_show Y E)) as t1"
  let ?e = "engine_template n (yaml_show Y D') version"
  obtain tpl where t: "is_obj (spec_at doc)" "fld ''templates'' (spec_at doc) = JArr (tpl # t1 # ts)" "is_obj tpl"
    "fld ''steps'' tpl = JArr (map JArr rows)" using doc(1) by (auto simp: chaos_doc_def chaos_spec_def)
  let ?sp = "set_prop ''templates'' (JArr (tpl # ?t1 # ts)) (spec_at doc)"
  have sp: "chaos_spec ?sp rows (?t1 # ts)"
    using doc t by (auto simp: chaos_doc_def chaos_spec_def with_artifact_def install_template_def)
  obtain d1 where d1: "runs (spec_act (push_experiment n (yaml_show Y E))) doc d1" "chaos_doc d1 rows (?t1 # ts)"
    "spec_at d1 = ?sp"
    using runs_spec_act [OF doc(1) runs_push_experiment [OF t(1,2) doc(2)] sp] by blast
  have "runs (within ''templates'' (act_upd (js_push ?e))) (spec_at d1) (set_prop ''templates'' (JArr (tpl # ?t1 # ts @ [?e])) ?sp)"
    unfolding d1(3) by (rule runs_within) (use t runs_push [of ?e "tpl # ?t1 # ts"] in simp_all)
  moreover have "chaos_spec (set_prop ''templates'' (JArr (tpl # ?t1 # ts @ [?e])) ?sp) rows (?t1 # ts @ [?e])"
    using sp t by (auto simp: chaos_spec_def engine_template_def)
  ultimately obtain d2 where d2: "runs (spec_act (within ''templates'' (act_upd (js_push ?e)))) d1 d2"
    "chaos_doc d2 rows (?t1 # ts @ [?e])"
    using runs_spec_act [OF d1(2)] by blast
  have "runs (add_second_part Y n E x reg version) doc d2"
    unfolding add_second_part_def
    by (rule runs_seq [OF d1(1)], rule with_read_runs [where x = D']) (use x d2(1) in simp_all)
  with d2(2) show ?thesis by blast
qed


text \<open>Every step of the workflow runs a template of its name: the invariant both edits keep.\<close>

definition no_dangling :: "js list list \<Rightarrow> js list \<Rightarrow> bool" where
  "no_dangling rows ts \<longleftrightarrow> list_all (\<lambda>s. fld ''name'' s \<in> fld ''name'' ` set ts) (concat rows)"

lemma no_dangling_delete:
  assumes "no_dangling rows ts" and "i < length ts"
  shows "no_dangling (rest_rows (fld ''name'' (ts ! i)) rows) (remove_at i ts)"
proof -
  have ts: "set ts \<subseteq> insert (ts ! i) (set (remove_at i ts))"
    using set_insert_at [of i "ts ! i" "remove_at i ts"] by (simp add: insert_remove_at assms(2))
  have "fld ''name'' s \<in> fld ''name'' ` set (remove_at i ts)"
    if s: "s \<in> set (concat rows)" "fld ''name'' s \<noteq> fld ''name'' (ts ! i)" for s
  proof -
    obtain t where t: "t \<in> set ts" "fld ''name'' s = fld ''name'' t"
      using assms(1) s(1) by (auto simp: no_dangling_def list_all_iff)
    with s(2) ts have "t \<in> set (remove_at i ts)" by auto
    with t(2) show ?thesis by simp
  qed
  moreover have "s \<in> set (concat rows) \<and> fld ''name'' s \<noteq> fld ''name'' (ts ! i)"
    if "s \<in> set (concat (rest_rows (fld ''name'' (ts ! i)) rows))" for s
    using that by (auto simp: rest_rows_def others_def step_named_def)
  ultimately show ?thesis unfolding no_dangling_def list_all_iff by blast
qed

lemma no_dangling_add:
  assumes "no_dangling rows (t1 # ts)" and "fld ''name'' t1' = fld ''name'' t1"
  shows "no_dangling (rows @ [[named_step n]]) (t1' # ts @ [engine_template n data version])"
  using assms by (auto simp: no_dangling_def list_all_iff named_step_def engine_template_def)


end
