(* ===== verification/Sequence.thy ===== *)
theory Sequence
  imports ManifestQuery "HOL-Library.Multiset"
begin

text \<open>
  Editing the order of the steps: \<open>WorkflowSequence/reorder.ts\<close> and the state of
  \<open>WorkflowSequence/index.tsx\<close>. The steps being edited are the properties
  \<open>stepname0\<close>, \<open>stepname1\<close>, ... of an object, each an array of steps; dropping a step
  moves it within its row or to another row.
\<close>

section \<open>reorder.ts\<close>

text \<open>\<open>splice(i, 1)\<close> removes nothing past the end and then the removed value is undefined;
  \<open>splice(i, 0, x)\<close> past the end appends.\<close>

definition item_at :: "nat \<Rightarrow> js list \<Rightarrow> js" where
  "item_at i xs = (if i < length xs then xs ! i else JUndef)"

definition reorder :: "js list \<Rightarrow> nat \<Rightarrow> nat \<Rightarrow> js list" where
  "reorder xs startIndex endIndex =
     (let removed = item_at startIndex xs in insert_at endIndex removed (remove_at startIndex xs))"

record location =
  droppableId :: string
  index :: nat

type_synonym StepType = "(string \<times> js list) list"

text \<open>Spreading a row the object does not have throws.\<close>

definition row_of :: "StepType \<Rightarrow> string \<Rightarrow> js list result" where
  "row_of steps k = (case map_of steps k of None \<Rightarrow> Inl TypeErr | Some xs \<Rightarrow> Inr xs)"

definition reorderSteps :: "StepType \<Rightarrow> location \<Rightarrow> location \<Rightarrow> StepType result" where
  "reorderSteps steps src dst =
     rbind (row_of steps (droppableId src)) (\<lambda>current.
     rbind (row_of steps (droppableId dst)) (\<lambda>next_row.
       let target = item_at (index src) current in
       if droppableId src = droppableId dst
       then Inr (AList.update (droppableId src) (reorder current (index src) (index dst)) steps)
       else Inr (AList.update (droppableId dst) (insert_at (index dst) target next_row)
                  (AList.update (droppableId src) (remove_at (index src) current) steps))))"

section \<open>WorkflowSequence\<close>

text \<open>The rows of the manifest at the first render; a drop outside the list is ignored; the
  rows that are not empty go back into the manifest.\<close>

definition first_rows :: "js \<Rightarrow> js result" where
  "first_rows doc = rbind (js_path [''spec'', ''templates''] doc) (\<lambda>ts. rbind (js_idx 0 ts) (js_get ''steps''))"

definition initial_steps :: "yaml \<Rightarrow> string \<Rightarrow> StepType result" where
  "initial_steps Y manifest = rbind (yaml_read Y manifest) (\<lambda>doc. rbind (first_rows doc) (\<lambda>rows.
     rbind (js_elems rows) (\<lambda>rs. rmap (\<lambda>rss. map (\<lambda>(i, r). (''stepname'' @ show_nat i, r)) (enumerate 0 rss))
       (mapR js_elems rs))))"

definition onDragEnd :: "location \<Rightarrow> location option \<Rightarrow> StepType \<Rightarrow> StepType result" where
  "onDragEnd src dst steps = (case dst of None \<Rightarrow> Inr steps | Some d \<Rightarrow> reorderSteps steps src d)"

definition kept_rows :: "StepType \<Rightarrow> js" where
  "kept_rows steps = JArr (map JArr (filter (\<lambda>r. length r \<noteq> 0) (map snd steps)))"

definition put_rows :: "js \<Rightarrow> unit act" where
  "put_rows rows = within_path [''spec'', ''templates''] (within_idx 0
     (act_seq (act_upd (js_del ''steps'')) (act_upd (js_put ''steps'' rows))))"

definition handleStepsChange :: "yaml \<Rightarrow> string \<Rightarrow> StepType \<Rightarrow> string result" where
  "handleStepsChange Y manifest steps = rbind (yaml_read Y manifest) (\<lambda>doc.
     rmap (yaml_show Y) (run_act (put_rows (kept_rows steps)) doc))"

text \<open>A row is closed to drops, and a step to drags, by the first of three words only, for
  \<open>'install' || 'load' || 'add'\<close> is \<open>'install'\<close>.\<close>

definition isDragDisabled :: "string \<Rightarrow> bool" where
  "isDragDisabled name = js_includes (js_lower name) ''install''"

definition isDropDisabled :: "js list \<Rightarrow> bool result" where
  "isDropDisabled row = (case row of
      [] \<Rightarrow> Inr False
    | s # _ \<Rightarrow> (if nullish s then Inr False
        else rbind (js_get ''name'' s) (\<lambda>n. if nullish n then Inl TypeErr else rmap isDragDisabled (js_string n))))"

section \<open>No step is lost\<close>

definition all_steps :: "StepType \<Rightarrow> js multiset" where
  "all_steps steps = mset (concat (map snd steps))"

definition drag_ok :: "StepType \<Rightarrow> location \<Rightarrow> bool" where
  "drag_ok steps src \<longleftrightarrow> (\<exists>xs. map_of steps (droppableId src) = Some xs \<and> index src < length xs)"

lemma mset_insert_at: "mset (insert_at i x xs) = add_mset x (mset xs)"
  by (metis add_mset_add_single append_take_drop_id insert_at_def mset.simps(2) mset_append union_mset_add_mset_right)

lemma mset_remove_at: "i < length xs \<Longrightarrow> add_mset (xs ! i) (mset (remove_at i xs)) = mset xs"
  using mset_insert_at [of i "xs ! i" "remove_at i xs"] by (simp add: insert_remove_at)

lemma mset_reorder: "i < length xs \<Longrightarrow> mset (reorder xs i j) = mset xs"
  by (simp add: reorder_def mset_insert_at mset_remove_at item_at_def)

lemma all_steps_update:
  assumes "distinct (map fst steps)" and "map_of steps k = Some xs"
  shows "all_steps (AList.update k ys steps) + mset xs = all_steps steps + mset ys"
  using assms by (induction steps) (auto simp: all_steps_def ac_simps)

lemma keys_update_present: "map_of fs k = Some v \<Longrightarrow> map fst (AList.update k w fs) = map fst fs"
  by (induction fs) (auto split: if_splits)

lemma all_steps_reorder:
  assumes "distinct (map fst steps)" and "drag_ok steps src" and "reorderSteps steps src dst = Inr steps'"
  shows "all_steps steps' = all_steps steps" and "map fst steps' = map fst steps"
proof -
  obtain xs where xs: "map_of steps (droppableId src) = Some xs" "index src < length xs"
    using assms(2) by (auto simp: drag_ok_def)
  obtain ys where ys: "map_of steps (droppableId dst) = Some ys"
    using assms(3) xs by (auto simp: reorderSteps_def row_of_def split: option.splits)
  have "map_of (AList.update (droppableId src) (remove_at (index src) xs) steps) (droppableId dst) = Some ys"
    if "droppableId src \<noteq> droppableId dst" using ys that by simp
  then show "map fst steps' = map fst steps"
    using assms(3) xs ys
    by (auto simp: reorderSteps_def row_of_def Let_def keys_update_present split: if_splits)
  show "all_steps steps' = all_steps steps"
  proof (cases "droppableId src = droppableId dst")
    case True
    then have "steps' = AList.update (droppableId src) (reorder xs (index src) (index dst)) steps"
      using assms(3) xs ys by (simp add: reorderSteps_def row_of_def)
    with all_steps_update [OF assms(1) xs(1), of "reorder xs (index src) (index dst)"] mset_reorder [OF xs(2)]
    show ?thesis by simp
  next
    case False
    let ?mid = "AList.update (droppableId src) (remove_at (index src) xs) steps"
    have s': "steps' = AList.update (droppableId dst) (insert_at (index dst) (xs ! index src) ys) ?mid"
      using assms(3) xs ys False by (simp add: reorderSteps_def row_of_def item_at_def)
    have "all_steps steps' + mset ys = all_steps ?mid + mset (insert_at (index dst) (xs ! index src) ys)"
      unfolding s' by (rule all_steps_update) (use False assms(1) ys in \<open>auto simp: distinct_update\<close>)
    moreover have "all_steps ?mid + mset xs = all_steps steps + mset (remove_at (index src) xs)"
      by (rule all_steps_update [OF assms(1) xs(1)])
    ultimately show ?thesis using mset_remove_at [OF xs(2)]
      by (simp add: mset_insert_at) (metis add.commute add_left_cancel union_mset_add_mset_left)
  qed
qed

text \<open>An editing session: drags whose source holds the dragged step, as the drag and drop
  library reports them.\<close>

inductive dragged :: "StepType \<Rightarrow> StepType \<Rightarrow> bool" where
  dragged_refl: "dragged s s"
| dragged_step: "dragged s t \<Longrightarrow> drag_ok t src \<Longrightarrow> onDragEnd src dst t = Inr u \<Longrightarrow> dragged s u"

lemma dragged_keeps:
  assumes "dragged s t" and "distinct (map fst s)"
  shows "all_steps t = all_steps s \<and> map fst t = map fst s"
  using assms
proof (induction rule: dragged.induct)
  case (dragged_step s t src dst u)
  then have t: "all_steps t = all_steps s" "map fst t = map fst s" "distinct (map fst t)" by simp_all
  show ?case
  proof (cases dst)
    case None
    with dragged_step t show ?thesis by (simp add: onDragEnd_def)
  next
    case (Some d)
    with dragged_step have "reorderSteps t src d = Inr u" by (simp add: onDragEnd_def)
    with all_steps_reorder [OF t(3) dragged_step.hyps(2)] t show ?thesis by simp
  qed
qed simp

lemma runs_within_idx_first:
  "runs m x y \<Longrightarrow> runs (within_idx 0 m) (JArr (x # xs)) (JArr (y # xs))"
  by (simp add: runs_def within_idx_def)

lemma runs_replace_prop:
  "runs (act_seq (act_upd (js_del k)) (act_upd (js_put k x))) (JObj fs) (JObj (AList.update k x (AList.delete k fs)))"
proof (rule runs_seq)
  show "runs (act_upd (js_del k)) (JObj fs) (JObj (AList.delete k fs))" by (simp add: runs_def act_upd_def)
  show "runs (act_upd (js_put k x)) (JObj (AList.delete k fs)) (JObj (AList.update k x (AList.delete k fs)))"
    using runs_put [of "JObj (AList.delete k fs)" k x] by simp
qed

definition sequenced :: "js \<Rightarrow> js list list \<Rightarrow> bool" where
  "sequenced doc rows \<longleftrightarrow> is_obj doc \<and> is_obj (fld ''spec'' doc)
     \<and> (\<exists>tpl ts. pth [''spec'', ''templates''] doc = JArr (tpl # ts) \<and> is_obj tpl
          \<and> fld ''steps'' tpl = JArr (map JArr rows))"

lemma put_rows_runs:
  assumes "sequenced doc rows"
  shows "\<exists>doc'. runs (put_rows (JArr (map JArr rows'))) doc doc' \<and> sequenced doc' rows'"
proof -
  obtain tpl ts where d: "is_obj doc" "is_obj (fld ''spec'' doc)" "is_obj tpl"
    "pth [''spec'', ''templates''] doc = JArr (tpl # ts)"
    using assms by (auto simp: sequenced_def)
  obtain fs where fs: "tpl = JObj fs" using d(3) by (rule is_obj_E)
  let ?tpl = "JObj (AList.update ''steps'' (JArr (map JArr rows')) (AList.delete ''steps'' fs))"
  let ?sp = "set_prop ''templates'' (JArr (?tpl # ts)) (fld ''spec'' doc)"
  have "runs (put_rows (JArr (map JArr rows'))) doc (set_prop ''spec'' ?sp doc)"
    unfolding put_rows_def within_path.simps
    by (intro runs_within) (use d fs in \<open>auto simp: is_obj_not_undef intro!: runs_within_idx_first runs_replace_prop\<close>)
  moreover have "sequenced (set_prop ''spec'' ?sp doc) rows'"
    using d by (simp add: sequenced_def)
  ultimately show ?thesis by blast
qed

lemma first_rows_sequenced: "sequenced doc rows \<Longrightarrow> first_rows doc = Inr (JArr (map JArr rows))"
  by (auto simp: sequenced_def first_rows_def js_get_obj)

lemma initial_steps_rows:
  assumes "yaml_read Y manifest = Inr doc" and "sequenced doc rows"
  shows "initial_steps Y manifest = Inr (map (\<lambda>(i, r). (''stepname'' @ show_nat i, r)) (enumerate 0 rows))"
proof -
  have "mapR js_elems (map JArr rs) = Inr rs" for rs by (induction rs) simp_all
  then show ?thesis by (simp add: initial_steps_def assms(1) first_rows_sequenced [OF assms(2)])
qed

text \<open>
  C6. Any sequence of drags in the step editor, once saved, keeps the steps of the
  manifest up to their order, leaves no empty row and adds no row.
\<close>

theorem sequence_edit_keeps_steps:
  assumes "yaml_read Y manifest = Inr doc" and "sequenced doc rows"
    and "initial_steps Y manifest = Inr s" and "dragged s t"
  shows "\<exists>doc' rows'. handleStepsChange Y manifest t = Inr (yaml_show Y doc')
    \<and> sequenced doc' rows' \<and> [] \<notin> set rows' \<and> length rows' \<le> length rows
    \<and> mset (concat rows') = mset (concat rows)"
proof -
  have s: "s = map (\<lambda>(i, r). (''stepname'' @ show_nat i, r)) (enumerate 0 rows)"
    using initial_steps_rows [OF assms(1,2)] assms(3) by simp
  have "map fst s = map (\<lambda>i. ''stepname'' @ show_nat i) [0..<length rows]"
    by (rule nth_equalityI) (simp_all add: s nth_enumerate_eq)
  then have "distinct (map fst s)" by (simp add: distinct_map inj_on_def)
  moreover have snds: "map snd s = rows" by (rule nth_equalityI) (simp_all add: s nth_enumerate_eq)
  ultimately have "distinct (map fst s)" "map snd s = rows" by simp_all
  with dragged_keeps [OF assms(4)] have t: "all_steps t = mset (concat rows)" "length t = length rows"
    by (auto simp: all_steps_def dest: map_eq_imp_length_eq)
  let ?rows = "filter (\<lambda>r. length r \<noteq> 0) (map snd t)"
  have "mset (concat ?rows) = all_steps t"
    unfolding all_steps_def by (induction t) auto
  moreover obtain doc' where "runs (put_rows (kept_rows t)) doc doc'" "sequenced doc' ?rows"
    using put_rows_runs [OF assms(2), of ?rows] by (auto simp: kept_rows_def)
  then have "handleStepsChange Y manifest t = Inr (yaml_show Y doc')" "sequenced doc' ?rows"
    by (simp_all add: handleStepsChange_def assms(1) run_act_def runs_def)
  moreover have "length ?rows \<le> length rows" using length_filter_le [of _ "map snd t"] t(2) by simp
  ultimately show ?thesis using t(1) by (intro exI [of _ doc'] exI [of _ ?rows]) auto
qed

lemma load_rows_can_be_dragged:
  "isDragDisabled ''load-test'' = False" "isDragDisabled ''add-probe'' = False"
  by code_simp+

end
