(* ===== verification/TuneWitness.thy ===== *)
theory TuneWitness
  imports ManifestWitness Tune Sequence
begin

text \<open>
  The theorems about the tuning step applied to the default manifest of the portal and
  to a scenario with one experiment.
\<close>

section \<open>The default manifest starts the invariant\<close>

abbreviation install_step :: js where
  "install_step \<equiv> JObj [(''name'', JStr ''install-chaos-experiments''), (''template'', JStr ''install-chaos-experiments'')]"

definition default_install :: "string \<Rightarrow> string \<Rightarrow> js" where
  "default_install args version = JObj [(''name'', JStr ''install-chaos-experiments''),
     (''inputs'', JObj [(''artifacts'', JArr [])]),
     (''container'', JObj [(''args'', JArr [JStr args]), (''command'', JArr [JStr ''sh'', JStr ''-c'']),
        (''image'', JStr (''litmuschaos/k8s:'' @ version))])]"

lemma yamlTemplate_invariant:
  "chaos_doc (yamlTemplate w now ns args version) [[install_step]] [default_install args version]"
  "install_template (default_install args version) []"
  "no_dangling [[install_step]] [default_install args version]"
  by (simp_all add: chaos_doc_def chaos_spec_def spec_at_def yamlTemplate_def default_install_def
      install_template_def no_dangling_def)

section \<open>A scenario with one experiment\<close>

definition pod_experiment :: js where
  "pod_experiment = JObj [(''kind'', JStr ''ChaosExperiment''), (''metadata'', JObj [(''name'', JStr ''pod-delete'')])]"

definition pod_engine :: js where
  "pod_engine = JObj
     [(''kind'', JStr ''ChaosEngine''),
      (''metadata'', JObj [(''generateName'', JStr ''pod-delete-x1'')]),
      (''spec'', JObj [(''appinfo'', JObj [(''appns'', JStr ''default''), (''applabel'', JStr ''app=web'')]),
         (''experiments'', JArr [JObj [(''name'', JStr ''pod-delete''), (''spec'', JObj [])]])])]"

definition pod_files :: WorkflowExperiment where
  "pod_files = \<lparr>engineDetails = enc pod_engine, experimentDetails = enc pod_experiment\<rparr>"

definition pod_template :: js where
  "pod_template = JObj [(''name'', JStr ''pod-delete-x1''),
     (''inputs'', JObj [(''artifacts'', JArr [JObj [(''raw'', JObj [(''data'', JStr (enc pod_engine))])]])])]"

definition pod_step :: js where
  "pod_step = JObj [(''name'', JStr ''pod-delete-x1''), (''template'', JStr ''pod-delete-x1'')]"

definition tuned_root :: js where
  "tuned_root = JObj [(''name'', JStr ''custom-chaos''),
     (''steps'', JArr [JArr [install_step], JArr [pod_step]])]"

definition tuned_doc :: js where
  "tuned_doc = JObj
     [(''kind'', JStr ''Workflow''), (''metadata'', JObj [(''name'', JStr ''w-1'')]),
      (''spec'', JObj [(''templates'', JArr [tuned_root, default_install '''' ''latest'', pod_template])])]"

lemma tuned_doc_shape:
  "chaos_doc tuned_doc [[install_step], [pod_step]] [default_install '''' ''latest'', pod_template]"
  "no_dangling [[install_step], [pod_step]] [default_install '''' ''latest'', pod_template]"
  "not_revert pod_template"
  by (simp_all add: chaos_doc_def chaos_spec_def spec_at_def tuned_doc_def tuned_root_def default_install_def
      pod_template_def pod_step_def no_dangling_def not_revert_def js_includes_def)

lemma pod_matches: "match_count (JStr ''pod-delete-x1'') [[install_step], [pod_step]] = 1"
  by (simp add: match_count_def step_named_def pod_step_def)

lemma pod_fetched: "fetched_experiment plain_yaml pod_files pod_experiment ''pod-delete'' pod_engine"
  unfolding fetched_experiment_def pod_files_def WorkflowExperiment.simps plain_read_enc
  by (simp add: pod_experiment_def pod_engine_def)

lemma public_registry:
  "\<not> (enable_registry sample_registry \<and> update_registry sample_registry
      \<and> js_lower (image_registry_type sample_registry) = ''private'')"
  by (simp add: sample_registry_def) code_simp




definition tuning :: tune where
  "tuning = \<lparr>hubName = '''', allExperiments = [], selectedRadio = ''C'', selectedExp = '''', addExpModal = False,
     editManifest = '''', confirmEdit = False, isAlertOpen = False, addExpAlert = False,
     isEditorSaveAlertOpen = False, addExpLoader = False, isExpNameValid = False,
     isConfigurationAlertOpen = False, yamlValid = True, editSequence = False,
     isVisualizationComplete = False, workflow_name = ''w'', workflow_crd = '''', workflow_description = '''',
     YAMLModal = False, installAllExp = '''', generatedYAML = JUndef, manifest = enc tuned_doc, customAlert = False\<rparr>"

theorem revert_then_keep_witness:
  "\<exists>d1 d2. run_act (revert_act True ''latest'') tuned_doc = Inr d1 \<and> run_act (keep_manifest_act 1000 tuning) d1 = Inr d2
     \<and> chaos_spec (spec_at d2) [[install_step], [pod_step]] [default_install '''' ''latest'', pod_template]"
proof -
  have "enc tuned_doc \<noteq> ''''" using length_enc_pos [of tuned_doc] by auto
  then have "manifest tuning \<noteq> ''''" "selectedRadio tuning = ''C''" by (simp_all add: tuning_def)
  moreover have "is_obj (fld ''metadata'' tuned_doc)" by (simp add: tuned_doc_def)
  ultimately show ?thesis using revert_then_keep [OF tuned_doc_shape(1), of tuning "''latest''" 1000] by blast
qed

text \<open>A reader that knows two texts and reads all others, the empty one too, as null.\<close>

definition table_yaml :: yaml where
  "table_yaml = \<lparr>yaml_read = (\<lambda>s. Inr (if s = ''doc''
       then JObj [(''kind'', JStr ''Workflow''), (''spec'', JObj [(''templates'', JArr [tuned_root,
          JObj [(''name'', JStr ''pod-delete-x1''), (''inputs'', JObj [(''artifacts'', JArr
             [JObj [(''raw'', JObj [(''data'', JStr ''engine'')])]])])]])])]
       else if s = ''engine'' then pod_engine else JNull)), yaml_show = (\<lambda>v. '''')\<rparr>"

lemma table_yaml_reads:
  "yaml_read table_yaml '''' = Inr JNull" "yaml_read table_yaml ''engine'' = Inr pod_engine"
  by (simp_all add: table_yaml_def)

lemma table_yaml_parsing:
  "parsing table_yaml ''litmus'' ''doc'' = Inr [\<lparr>SequenceNo = 1, StepIndex = 1, Name = JStr ''pod-delete-x1'',
     Namespace = JStr ''default'', Application = JStr ''app=web'', Probes = JNum 0, ChaosEngine = JStr ''engine''\<rparr>]"
  by code_simp

theorem table_matches_weights_witness:
  "table_addWeights table_yaml ''doc'' = Inr [\<lparr>experimentName = JStr ''pod-delete-x1'', weight = 10\<rparr>]"
proof -
  obtain doc where doc: "yaml_read table_yaml ''doc'' = Inr doc" "js_get ''kind'' doc = Inr (JStr ''Workflow'')"
    by (simp add: table_yaml_def)
  show ?thesis
    using table_matches_weights [OF table_yaml_reads(1) doc _ table_yaml_parsing] by simp
qed

section \<open>A drag\<close>

theorem sequence_edit_keeps_steps_witness:
  "\<exists>doc' rows'. handleStepsChange plain_yaml (enc tuned_doc) [(''stepname0'', [install_step, pod_step]), (''stepname1'', [])]
      = Inr (enc doc') \<and> sequenced doc' rows' \<and> mset (concat rows') = {#install_step, pod_step#}"
proof -
  let ?s = "[(''stepname0'', [install_step]), (''stepname1'', [pod_step])]"
  let ?t = "[(''stepname0'', [install_step, pod_step]), (''stepname1'', [])]"
  have rows: "sequenced tuned_doc [[install_step], [pod_step]]"
    by (simp add: sequenced_def tuned_doc_def tuned_root_def)
  have "initial_steps plain_yaml (enc tuned_doc) = Inr (map (\<lambda>(i, r). (''stepname'' @ show_nat i, r))
      (enumerate 0 [[install_step], [pod_step]]))"
    by (rule initial_steps_rows [OF plain_read_enc rows])
  moreover have "show_nat 0 = ''0''" "show_nat 1 = ''1''" by code_simp+
  ultimately have ini: "initial_steps plain_yaml (enc tuned_doc) = Inr ?s" by simp
  have "onDragEnd \<lparr>droppableId = ''stepname1'', index = 0\<rparr> (Some \<lparr>droppableId = ''stepname0'', index = 1\<rparr>) ?s = Inr ?t"
    by (simp add: onDragEnd_def reorderSteps_def row_of_def item_at_def insert_at_def remove_at_def)
  then have "dragged ?s ?t"
    by (rule dragged_step [OF dragged_refl, rotated]) (simp add: drag_ok_def)
  from sequence_edit_keeps_steps [OF plain_read_enc rows ini this] show ?thesis by auto
qed

end
