(* ===== verification/Schedule.thy ===== *)
theory Schedule
  imports ManifestQuery
begin

text \<open>
  Scheduling a workflow: \<open>views/CreateWorkflow/ScheduleWorkflow\<close> in the wizard and
  \<open>pages/EditSchedule/Schedule.tsx\<close> for an existing schedule, which share their form.
  A form keeps local state and the part of the store it edits; a handler reads the state
  of the render it was created in and writes the next one. A Date is its time value in
  milliseconds; \<open>tz\<close> is the offset of local time in minutes, taken as constant.
\<close>

section \<open>Dates\<close>

definition local_ms :: "int \<Rightarrow> int \<Rightarrow> int" where
  "local_ms tz t = t + tz * 60000"

definition getSeconds :: "int \<Rightarrow> int \<Rightarrow> int" where
  "getSeconds tz t = local_ms tz t div 1000 mod 60"

definition getMinutes :: "int \<Rightarrow> int \<Rightarrow> int" where
  "getMinutes tz t = local_ms tz t div 60000 mod 60"

definition getHours :: "int \<Rightarrow> int \<Rightarrow> int" where
  "getHours tz t = local_ms tz t div 3600000 mod 24"

definition setSeconds0 :: "int \<Rightarrow> int \<Rightarrow> int" where
  "setSeconds0 tz t = t - getSeconds tz t * 1000"

text \<open>\<open>d.setMinutes(d.getMinutes() + 5)\<close>.\<close>

definition five_minutes_on :: "int \<Rightarrow> int" where
  "five_minutes_on t = t + 300000"

text \<open>Day and month of a day number counted from 1970-01-01, in the Gregorian calendar:
  \<open>day_of_era\<close> counts from 1 March of a year divisible by 400.\<close>

definition day_of_era :: "int \<Rightarrow> int" where
  "day_of_era z = (z + 719468) mod 146097"

definition day_of_year :: "int \<Rightarrow> int" where
  "day_of_year doe =
     (let c = min 3 (doe div 36524); in_century = doe - 36524 * c; in_four = in_century mod 1461;
          y = min 3 (in_four div 365) in in_four - 365 * y)"

definition march_month :: "int \<Rightarrow> int" where
  "march_month doy = (5 * doy + 2) div 153"

definition getDate :: "int \<Rightarrow> int \<Rightarrow> int" where
  "getDate tz t = (let doy = day_of_year (day_of_era (local_ms tz t div 86400000))
     in doy - (153 * march_month doy + 2) div 5 + 1)"

text \<open>\<open>getMonth() + 1\<close>.\<close>

definition month_number :: "int \<Rightarrow> int \<Rightarrow> int" where
  "month_number tz t = (let mp = march_month (day_of_year (day_of_era (local_ms tz t div 86400000)))
     in if mp < 10 then mp + 3 else mp - 9)"

section \<open>The cron fields\<close>

record ScheduleSyntax =
  minute :: "string option"
  hour :: "string option"
  day_month :: "string option"
  month :: "string option"
  day_week :: string

definition cron_field :: "string option \<Rightarrow> string" where
  "cron_field f = (case f of None \<Rightarrow> ''undefined'' | Some s \<Rightarrow> s)"

definition cron_text :: "ScheduleSyntax \<Rightarrow> string" where
  "cron_text c = cron_field (minute c) @ '' '' @ cron_field (hour c) @ '' '' @ cron_field (day_month c)
     @ '' '' @ cron_field (month c) @ '' '' @ day_week c"

definition initial_cron :: ScheduleSyntax where
  "initial_cron = \<lparr>minute = Some ''*'', hour = Some ''*'', day_month = Some ''*'', month = Some ''*'', day_week = ''*''\<rparr>"

definition recurringEveryHour :: string where "recurringEveryHour = ''everyHr''"
definition recurringEveryDay :: string where "recurringEveryDay = ''everyDay''"
definition recurringEveryWeek :: string where "recurringEveryWeek = ''everyWeek''"
definition recurringEveryMonth :: string where "recurringEveryMonth = ''everyMonth''"

text \<open>The choices the form offers.\<close>

definition names :: "int list" where
  "names = map int [1..<32]"

definition recurring_kinds :: "string list" where
  "recurring_kinds = [recurringEveryHour, recurringEveryDay, recurringEveryWeek, recurringEveryMonth]"

definition mins :: "int list" where
  "mins = map int [0..<60]"

definition weekdays :: "string list" where
  "weekdays = [''Monday'', ''Tuesday'', ''Wednesday'', ''Thursday'', ''Friday'', ''Saturday'', ''Sunday'']"

section \<open>The form\<close>

record scheduleInput =
  hour_interval :: int
  day :: int
  weekday :: string
  time :: "int option"
  date :: "int option"

record form =
  cronValue :: ScheduleSyntax
  choice :: string
  valueDef :: string
  minute_choice :: int
  days :: string
  dates :: int
  selectedTime :: "int option"
  selectedDate :: "int option"
  st_cron :: string
  st_once :: string
  st_recurring :: string
  st_input :: scheduleInput
  st_disable :: bool

text \<open>\<open>new Date(null)\<close> is the epoch.\<close>

definition to_date :: "int option \<Rightarrow> int option" where
  "to_date d = Some (case d of None \<Rightarrow> 0 | Some t \<Rightarrow> t)"

definition form_init :: "string \<Rightarrow> string \<Rightarrow> string \<Rightarrow> scheduleInput \<Rightarrow> bool \<Rightarrow> form" where
  "form_init cronSyntax once recurring inp disabled =
     \<lparr>cronValue = initial_cron, choice = once, valueDef = recurring, minute_choice = hour_interval inp,
      days = weekday inp, dates = day inp, selectedTime = to_date (time inp), selectedDate = to_date (date inp),
      st_cron = cronSyntax, st_once = once, st_recurring = recurring, st_input = inp, st_disable = disabled\<rparr>"

definition handleRadioChange :: "string \<Rightarrow> form \<Rightarrow> form" where
  "handleRadioChange v s = s\<lparr>choice := v\<rparr>"

definition handleChangeInstance :: "string \<Rightarrow> form \<Rightarrow> form" where
  "handleChangeInstance v s = s\<lparr>valueDef := v\<rparr>"

definition minutes_of :: "int \<Rightarrow> int option \<Rightarrow> string option" where
  "minutes_of tz d = map_option (\<lambda>t. show_int (getMinutes tz t)) d"

definition hours_of :: "int \<Rightarrow> int option \<Rightarrow> string option" where
  "hours_of tz d = map_option (\<lambda>t. show_int (getHours tz t)) d"

definition day_of :: "int \<Rightarrow> int option \<Rightarrow> string option" where
  "day_of tz d = map_option (\<lambda>t. show_int (getDate tz t)) d"

definition month_of :: "int \<Rightarrow> int option \<Rightarrow> string option" where
  "month_of tz d = map_option (\<lambda>t. show_int (month_number tz t)) d"

text \<open>\<open>useEffect(..., [cronValue])\<close>.\<close>

definition cron_effect :: "form \<Rightarrow> form" where
  "cron_effect s = s\<lparr>st_cron := (if choice s = ''now'' then '''' else cron_text (cronValue s))\<rparr>"

text \<open>
  \<open>validateTime\<close>: a time that is not after now moves on by five minutes. The first test
  of a specific time also zeroes the seconds of the Date it is given, which is the one
  the state holds.
\<close>

definition not_after_now :: "int \<Rightarrow> int \<Rightarrow> int option \<Rightarrow> int option \<Rightarrow> bool" where
  "not_after_now tz now tm dt = (case (tm, dt) of
      (Some t, Some d) \<Rightarrow> setSeconds0 tz t \<le> setSeconds0 tz now \<and> d \<le> now | _ \<Rightarrow> False)"

definition validateTime :: "int \<Rightarrow> int \<Rightarrow> int option \<Rightarrow> int option \<Rightarrow> form \<Rightarrow> form" where
  "validateTime tz now tm dt s =
     (let specific = (choice s = ''specificTime'');
          tm' = (if specific then map_option (setSeconds0 tz) tm else tm);
          s1 = (if selectedTime s = tm then s\<lparr>selectedTime := tm'\<rparr> else s)
      in if specific \<and> not_after_now tz now tm dt
         then (let newTime = five_minutes_on now in
           s1\<lparr>selectedTime := Some newTime,
              st_input := (st_input s)\<lparr>date := dt, time := Some newTime\<rparr>,
              cronValue := (cronValue s)\<lparr>minute := Some (show_int (getMinutes tz newTime)),
                 hour := Some (show_int (getHours tz newTime)), day_month := day_of tz dt, month := month_of tz dt\<rparr>\<rparr>)
         else s1\<lparr>st_input := (st_input s)\<lparr>date := dt, time := tm'\<rparr>,
              cronValue := (cronValue s)\<lparr>minute := minutes_of tz tm', hour := hours_of tz tm',
                 day_month := day_of tz dt, month := month_of tz dt\<rparr>\<rparr>)"

definition handleTimeChange :: "int \<Rightarrow> int \<Rightarrow> int option \<Rightarrow> form \<Rightarrow> form" where
  "handleTimeChange tz now tm s = validateTime tz now tm (selectedDate s) (s\<lparr>selectedTime := tm\<rparr>)"

definition handleDateChange :: "int \<Rightarrow> int \<Rightarrow> int option \<Rightarrow> form \<Rightarrow> form" where
  "handleDateChange tz now dt s = validateTime tz now (selectedTime s) dt (s\<lparr>selectedDate := dt\<rparr>)"

definition reccuringDateChange :: "int \<Rightarrow> int option \<Rightarrow> form \<Rightarrow> form" where
  "reccuringDateChange tz dt s = s\<lparr>selectedTime := dt,
     cronValue := (cronValue s)\<lparr>minute := minutes_of tz dt, hour := hours_of tz dt\<rparr>,
     st_input := (st_input s)\<lparr>time := dt\<rparr>\<rparr>"

definition hourChange :: "int \<Rightarrow> form \<Rightarrow> form" where
  "hourChange m s = s\<lparr>minute_choice := m,
     cronValue := (cronValue s)\<lparr>minute := Some (show_int m), hour := Some ''0-23''\<rparr>,
     st_input := (st_input s)\<lparr>hour_interval := m\<rparr>\<rparr>"

definition dailyTimeChange :: "int \<Rightarrow> int option \<Rightarrow> form \<Rightarrow> form" where
  "dailyTimeChange tz dt s = s\<lparr>selectedTime := dt,
     cronValue := (cronValue s)\<lparr>minute := minutes_of tz dt, hour := hours_of tz dt, day_week := ''0-6''\<rparr>,
     st_input := (st_input s)\<lparr>time := dt\<rparr>\<rparr>"

definition weekdayChange :: "string \<Rightarrow> form \<Rightarrow> form" where
  "weekdayChange d s = s\<lparr>cronValue := (cronValue s)\<lparr>month := Some ''*'', day_week := take 3 d\<rparr>, days := d,
     st_input := (st_input s)\<lparr>weekday := d\<rparr>\<rparr>"

definition monthDayChange :: "int \<Rightarrow> form \<Rightarrow> form" where
  "monthDayChange d s = s\<lparr>cronValue := (cronValue s)\<lparr>day_month := Some (show_int d)\<rparr>, dates := d,
     st_input := (st_input s)\<lparr>day := d\<rparr>\<rparr>"

section \<open>The effect of the radio buttons\<close>

text \<open>\<open>workflowData.scheduleInput.time <= new Date()\<close>: null counts as 0.\<close>

definition stored_time_past :: "int \<Rightarrow> form \<Rightarrow> bool" where
  "stored_time_past now s = ((case time (st_input s) of None \<Rightarrow> 0 | Some t \<Rightarrow> t) \<le> now)"

definition clear_cron :: ScheduleSyntax where
  "clear_cron = \<lparr>minute = Some '''', hour = Some '''', day_month = Some '''', month = Some '''', day_week = ''''\<rparr>"

definition now_branch :: "form \<Rightarrow> form \<Rightarrow> form" where
  "now_branch r s = (if choice r = ''now'' then s\<lparr>valueDef := '''', cronValue := clear_cron\<rparr> else s)"

definition specific_cron :: "int \<Rightarrow> int option \<Rightarrow> form \<Rightarrow> ScheduleSyntax" where
  "specific_cron tz tm r = \<lparr>minute = minutes_of tz tm, hour = hours_of tz tm,
     day_month = day_of tz (selectedDate r), month = month_of tz (selectedDate r), day_week = ''*''\<rparr>"

definition specific_branch :: "int \<Rightarrow> int \<Rightarrow> form \<Rightarrow> form \<Rightarrow> form" where
  "specific_branch tz now r s =
     (if choice r = ''specificTime''
      then (let s1 = s\<lparr>valueDef := '''', cronValue := specific_cron tz (selectedTime r) r\<rparr> in
        if stored_time_past now r
        then (let newTime = five_minutes_on now in
          s1\<lparr>selectedTime := Some newTime, cronValue := specific_cron tz (Some newTime) r,
             st_input := (st_input r)\<lparr>time := Some newTime\<rparr>\<rparr>)
        else s1)
      else s)"

definition recurring_cron :: "int \<Rightarrow> form \<Rightarrow> ScheduleSyntax option" where
  "recurring_cron tz r =
     (if valueDef r = recurringEveryHour
      then Some \<lparr>minute = Some (show_int (minute_choice r)), hour = Some ''0-23'', day_month = Some ''*'',
                 month = Some ''*'', day_week = ''*''\<rparr>
      else if valueDef r = recurringEveryDay
      then Some \<lparr>minute = minutes_of tz (selectedTime r), hour = hours_of tz (selectedTime r), day_month = Some ''*'',
                 month = Some ''*'', day_week = ''0-6''\<rparr>
      else if valueDef r = recurringEveryWeek
      then Some \<lparr>minute = minutes_of tz (selectedTime r), hour = hours_of tz (selectedTime r), day_month = Some ''*'',
                 month = Some ''*'', day_week = take 3 (days r)\<rparr>
      else if valueDef r = recurringEveryMonth
      then Some \<lparr>minute = minutes_of tz (selectedTime r), hour = hours_of tz (selectedTime r),
                 day_month = Some (show_int (dates r)), month = Some ''*'', day_week = ''*''\<rparr>
      else None)"

definition recurring_branch :: "int \<Rightarrow> form \<Rightarrow> form \<Rightarrow> form" where
  "recurring_branch tz r s = (case recurring_cron tz r of None \<Rightarrow> s | Some c \<Rightarrow> s\<lparr>cronValue := c\<rparr>)"

text \<open>\<open>r\<close> is the state of the render, which the whole effect reads.\<close>

definition radio_effect :: "int \<Rightarrow> int \<Rightarrow> form \<Rightarrow> form" where
  "radio_effect tz now r =
     (recurring_branch tz r (specific_branch tz now r (now_branch r r)))
       \<lparr>st_disable := (choice r = ''recurringSchedule'' \<and> valueDef r = ''''),
        st_once := choice r, st_recurring := valueDef r\<rparr>"

definition sets_cron :: "int \<Rightarrow> form \<Rightarrow> bool" where
  "sets_cron tz r \<longleftrightarrow> choice r \<in> {''now'', ''specificTime''} \<or> recurring_cron tz r \<noteq> None"

text \<open>
  Rendering until nothing changes: the cron effect runs when \<open>cronValue\<close> was set, for a
  new object always counts as changed, and the radio effect when a radio value changed.
  \<open>None\<close> is a loop that has not come to rest within its fuel.
\<close>

fun settle :: "nat \<Rightarrow> int \<Rightarrow> (nat \<Rightarrow> int) \<Rightarrow> bool \<Rightarrow> bool \<Rightarrow> form \<Rightarrow> form option" where
  "settle 0 tz clock cron_new radio_new s = None"
| "settle (Suc n) tz clock cron_new radio_new s =
     (if \<not> cron_new \<and> \<not> radio_new then Some s
      else (let s1 = (if cron_new then cron_effect s else s);
                s2 = (if radio_new then radio_effect tz (clock n) s1 else s1)
            in settle n tz clock (radio_new \<and> sets_cron tz s) (valueDef s2 \<noteq> valueDef s) s2))"

section \<open>The manifest of a schedule\<close>

text \<open>
  \<open>utils/workflowTemplate.ts\<close>: the two skeletons, as the objects their JSON texts
  spell; that the parser reads them so is a hypothesis where it matters.
\<close>

definition once_skeleton :: js where
  "once_skeleton = JObj
     [(''apiVersion'', JStr ''argoproj.io/v1alpha1''), (''kind'', JStr ''Workflow''),
      (''metadata'', JObj [(''generateName'', JStr ''argowf-chaos-node-cpu-hog-''), (''namespace'', JStr ''litmus'')]),
      (''spec'', JNull)]"

definition cron_skeleton :: js where
  "cron_skeleton = JObj
     [(''apiVersion'', JStr ''argoproj.io/v1alpha1''), (''kind'', JStr ''CronWorkflow''),
      (''metadata'', JObj [(''name'', JStr ''argo-chaos-pod-memory-cron-wf''), (''namespace'', JStr ''litmus'')]),
      (''spec'', JObj [(''schedule'', JStr ''0 * * * *''), (''concurrencyPolicy'', JStr ''Forbid''),
         (''startingDeadlineSeconds'', JNum 0), (''workflowSpec'', JNull)])]"

text \<open>What \<open>EditYaml\<close> reads beside the manifest. \<open>page_labels\<close> is None on the edit page,
  which leaves namespace and labels alone; \<open>tzname\<close> is the browser's time zone.\<close>

record schedule_env =
  env_cron :: string
  env_once :: string
  env_tzname :: string
  env_labels :: "(string \<times> string option) option"

definition workflow_id_label :: "string option \<Rightarrow> js" where
  "workflow_id_label wid = jobj1 ''workflow_id'' (case wid of None \<Rightarrow> JUndef | Some w \<Rightarrow> JStr w)"

definition put_timezone :: "schedule_env \<Rightarrow> unit act" where
  "put_timezone E = within ''spec'' (act_upd (js_put ''timezone''
     (JStr (if env_tzname E = '''' then ''UTC'' else env_tzname E))))"

definition put_page_namespace :: "schedule_env \<Rightarrow> unit act" where
  "put_page_namespace E = (case env_labels E of None \<Rightarrow> act_ret ()
     | Some (ns, wid) \<Rightarrow> within ''metadata'' (act_upd (js_put ''namespace'' (JStr ns))))"

definition put_page_labels :: "schedule_env \<Rightarrow> unit act" where
  "put_page_labels E = (case env_labels E of None \<Rightarrow> act_ret ()
     | Some (ns, wid) \<Rightarrow> within ''metadata'' (act_upd (js_put ''labels'' (workflow_id_label wid))))"

definition put_name :: "yaml \<Rightarrow> string \<Rightarrow> unit act" where
  "put_name Y manifest = act_seq (within ''metadata'' (act_upd (js_del ''generateName'')))
     (act_bind (act_read (\<lambda>_. fetchWorkflowNameFromManifest Y manifest))
        (\<lambda>n. within ''metadata'' (act_upd (js_put ''name'' n))))"

definition once_to_cron :: "yaml \<Rightarrow> schedule_env \<Rightarrow> string \<Rightarrow> js \<Rightarrow> unit act" where
  "once_to_cron Y E manifest oldParsedYaml =
     act_seq (within ''spec'' (act_upd (js_del ''workflowSpec'')))
     (act_seq (within ''spec'' (act_upd (js_put ''schedule'' (JStr (env_cron E)))))
     (act_seq (put_name Y manifest)
     (act_seq (put_page_namespace E)
     (act_seq (put_page_labels E)
     (act_seq (act_bind (act_read (\<lambda>_. js_get ''spec'' oldParsedYaml))
        (\<lambda>sp. within ''spec'' (act_upd (js_put ''workflowSpec'' sp))))
     (put_timezone E))))))"

definition cron_to_once :: "yaml \<Rightarrow> schedule_env \<Rightarrow> string \<Rightarrow> js \<Rightarrow> unit act" where
  "cron_to_once Y E manifest oldParsedYaml =
     act_seq (act_upd (js_del ''spec''))
     (act_seq (put_name Y manifest)
     (act_seq (put_page_namespace E)
     (act_seq (act_bind (act_read (\<lambda>_. js_path [''spec'', ''workflowSpec''] oldParsedYaml))
        (\<lambda>sp. act_upd (js_put ''spec'' sp)))
     (put_page_labels E))))"

definition cron_again :: "yaml \<Rightarrow> schedule_env \<Rightarrow> string \<Rightarrow> unit act" where
  "cron_again Y E manifest =
     act_seq (within ''spec'' (act_upd (js_put ''schedule'' (JStr (env_cron E)))))
     (act_seq (put_name Y manifest)
     (act_seq (put_page_namespace E)
     (act_seq (put_page_labels E) (put_timezone E))))"

text \<open>
  \<open>EditYaml\<close> writes a manifest to the store when one of its three cases holds and leaves
  it otherwise; \<open>onceText\<close> and \<open>cronText\<close> are the constants of \<open>workflowTemplate.ts\<close>.
\<close>

definition edited_doc :: "yaml \<Rightarrow> string \<Rightarrow> string \<Rightarrow> schedule_env \<Rightarrow> string \<Rightarrow> js option result" where
  "edited_doc Y onceText cronText E manifest =
     rbind (yaml_read Y manifest) (\<lambda>old. rbind (js_get ''kind'' old) (\<lambda>kind.
       if kind = JStr ''Workflow'' \<and> env_once E \<noteq> ''now''
       then rbind (yaml_read Y cronText) (\<lambda>new. rmap Some (run_act (once_to_cron Y E manifest old) new))
       else if kind = JStr ''CronWorkflow'' \<and> env_once E = ''now''
       then rbind (yaml_read Y onceText) (\<lambda>new. rmap Some (run_act (cron_to_once Y E manifest old) new))
       else if kind = JStr ''CronWorkflow'' \<and> env_once E \<noteq> ''now''
       then rmap Some (run_act (cron_again Y E manifest) old)
       else Inr None))"

definition EditYaml :: "yaml \<Rightarrow> string \<Rightarrow> string \<Rightarrow> schedule_env \<Rightarrow> string \<Rightarrow> string result" where
  "EditYaml Y onceText cronText E manifest = rmap
     (\<lambda>d. case d of None \<Rightarrow> manifest | Some new \<Rightarrow> yaml_show Y new) (edited_doc Y onceText cronText E manifest)"

text \<open>
  \<open>onNext\<close> of the wizard: the new manifest, whether the wizard goes on, and whether the
  alert is raised. \<open>schedule_verify\<close> is the button of the edit page, disabled without a
  recurring choice; Inr None is the disabled button.
\<close>

definition wizard_env :: "string \<Rightarrow> string \<Rightarrow> string option \<Rightarrow> form \<Rightarrow> schedule_env" where
  "wizard_env tzname namespace wid s = \<lparr>env_cron = st_cron s, env_once = st_once s, env_tzname = tzname,
     env_labels = Some (namespace, wid)\<rparr>"

definition schedule_onNext :: "yaml \<Rightarrow> string \<Rightarrow> string \<Rightarrow> string \<Rightarrow> string \<Rightarrow> string option \<Rightarrow> form
    \<Rightarrow> string \<Rightarrow> (string \<times> bool \<times> bool) result" where
  "schedule_onNext Y onceText cronText tzname namespace wid s manifest =
     (if choice s = ''recurringSchedule'' \<and> length (valueDef s) = 0 then Inr (manifest, False, True)
      else rmap (\<lambda>m. (m, True, False)) (EditYaml Y onceText cronText (wizard_env tzname namespace wid s) manifest))"

definition page_env :: "string \<Rightarrow> form \<Rightarrow> schedule_env" where
  "page_env tzname s = \<lparr>env_cron = st_cron s, env_once = st_once s, env_tzname = tzname, env_labels = None\<rparr>"

definition verify_disabled :: "form \<Rightarrow> bool" where
  "verify_disabled s \<longleftrightarrow> choice s \<noteq> ''now'' \<and> valueDef s = ''''"

definition page_EditYaml :: "yaml \<Rightarrow> string \<Rightarrow> string \<Rightarrow> string \<Rightarrow> form \<Rightarrow> string \<Rightarrow> string result" where
  "page_EditYaml Y onceText cronText tzname s manifest = EditYaml Y onceText cronText (page_env tzname s) manifest"

definition schedule_verify :: "yaml \<Rightarrow> string \<Rightarrow> string \<Rightarrow> string \<Rightarrow> form \<Rightarrow> string
    \<Rightarrow> string option result" where
  "schedule_verify Y onceText cronText tzname s manifest =
     (if verify_disabled s then Inr None else rmap Some (page_EditYaml Y onceText cronText tzname s manifest))"

section \<open>The form comes to rest\<close>

text \<open>What holds once nothing is left to render.\<close>

definition at_rest :: "form \<Rightarrow> bool" where
  "at_rest s \<longleftrightarrow> st_once s = choice s \<and> st_recurring s = valueDef s
     \<and> st_disable s = (choice s = ''recurringSchedule'' \<and> valueDef s = '''')
     \<and> (choice s \<in> {''now'', ''specificTime''} \<longrightarrow> valueDef s = '''')"

definition cron_stored :: "form \<Rightarrow> bool" where
  "cron_stored s \<longleftrightarrow> st_cron s = (if choice s = ''now'' then '''' else cron_text (cronValue s))"

text \<open>While no recurring choice is made the stored schedule is left from before.\<close>

definition cron_current :: "form \<Rightarrow> bool" where
  "cron_current s \<longleftrightarrow> cron_stored s \<or> choice s = ''recurringSchedule'' \<and> valueDef s = ''''"

lemma cron_effect_simps [simp]:
  "choice (cron_effect s) = choice s" "valueDef (cron_effect s) = valueDef s"
  "st_once (cron_effect s) = st_once s" "st_recurring (cron_effect s) = st_recurring s"
  "st_disable (cron_effect s) = st_disable s" "cronValue (cron_effect s) = cronValue s"
  "cron_stored (cron_effect s)" "at_rest (cron_effect s) = at_rest s"
  "sets_cron tz (cron_effect s) = sets_cron tz s"
  by (auto simp: cron_effect_def cron_stored_def at_rest_def sets_cron_def recurring_cron_def)

lemma cron_current_effect [simp]: "cron_current (cron_effect s)"
  by (simp add: cron_current_def)

lemma radio_effect_choice [simp]: "choice (radio_effect tz now r) = choice r"
  by (simp add: radio_effect_def recurring_branch_def specific_branch_def now_branch_def Let_def split: option.split)

lemma radio_effect_valueDef [simp]:
  "valueDef (radio_effect tz now r) = (if choice r \<in> {''now'', ''specificTime''} then '''' else valueDef r)"
  by (simp add: radio_effect_def recurring_branch_def specific_branch_def now_branch_def Let_def split: option.split)

lemma radio_effect_stored [simp]:
  "st_once (radio_effect tz now r) = choice r" "st_recurring (radio_effect tz now r) = valueDef r"
  "st_disable (radio_effect tz now r) = (choice r = ''recurringSchedule'' \<and> valueDef r = '''')"
  by (simp_all add: radio_effect_def)

lemma radio_effect_keeps_cron:
  "\<not> sets_cron tz r \<Longrightarrow> cron_current r \<Longrightarrow> cron_current (radio_effect tz now r)"
  by (auto simp: radio_effect_def recurring_branch_def specific_branch_def now_branch_def sets_cron_def
      cron_stored_def cron_current_def)

text \<open>Setting the radio values settles in at most four renders.\<close>

lemma settle_cron_only: "settle (Suc (Suc n)) tz clock True False s = Some (cron_effect s)"
  by simp

lemma radio_again_at_rest: "valueDef (radio_effect tz now r) = valueDef r \<Longrightarrow> at_rest (radio_effect tz now r)"
  by (auto simp: at_rest_def split: if_splits)

lemma settle_radio_stable:
  assumes "choice s \<in> {''now'', ''specificTime''} \<Longrightarrow> valueDef s = ''''" and "cr \<or> sets_cron tz s \<or> cron_current s"
  shows "\<exists>s'. settle (Suc (Suc (Suc n))) tz clock cr True s = Some s' \<and> at_rest s' \<and> cron_current s'
    \<and> choice s' = choice s \<and> valueDef s' = valueDef s"
proof -
  define s1 where "s1 = (if cr then cron_effect s else s)"
  have s1: "choice s1 = choice s" "valueDef s1 = valueDef s" "sets_cron tz s \<or> cron_current s1" "sets_cron tz s1 = sets_cron tz s"
    using assms(2) by (auto simp: s1_def)
  define s2 where "s2 = radio_effect tz (clock (Suc (Suc n))) s1"
  have vd: "valueDef s2 = valueDef s1" using assms(1) s1 by (auto simp: s2_def)
  have rest: "at_rest s2" using radio_again_at_rest vd unfolding s2_def by blast
  have kept: "\<not> sets_cron tz s \<Longrightarrow> cron_current s2" using s1 by (simp add: s2_def radio_effect_keeps_cron)
  have "settle (Suc (Suc (Suc n))) tz clock cr True s = settle (Suc (Suc n)) tz clock (sets_cron tz s) False s2"
    using vd s1 by (simp add: s1_def s2_def Let_def del: settle.simps(2) add: settle.simps(2) [of "Suc (Suc n)"])
  then show ?thesis using rest kept vd s1 by (cases "sets_cron tz s") (auto simp: s2_def)
qed

lemma settle_rests:
  assumes "cr \<or> sets_cron tz s \<or> cron_current s"
  shows "\<exists>s'. settle (Suc (Suc (Suc (Suc n)))) tz clock cr True s = Some s' \<and> at_rest s' \<and> cron_current s'
    \<and> choice s' = choice s"
proof (cases "choice s \<in> {''now'', ''specificTime''} \<and> valueDef s \<noteq> ''''")
  case False
  with settle_radio_stable [where s = s and cr = cr and n = "Suc n" and tz = tz and clock = clock] assms show ?thesis by blast
next
  case True
  define s1 where "s1 = (if cr then cron_effect s else s)"
  have s1: "choice s1 = choice s" "valueDef s1 = valueDef s" "sets_cron tz s \<or> cron_current s1" "sets_cron tz s1 = sets_cron tz s"
    using assms by (auto simp: s1_def)
  define s2 where "s2 = radio_effect tz (clock (Suc (Suc (Suc n)))) s1"
  have s2: "choice s2 = choice s" "valueDef s2 = ''''" using True s1 by (auto simp: s2_def)
  have sets: "sets_cron tz s" using True by (simp add: sets_cron_def)
  have "settle (Suc (Suc (Suc (Suc n)))) tz clock cr True s = settle (Suc (Suc (Suc n))) tz clock True True s2"
    using True [THEN conjunct2] True [THEN conjunct2, THEN not_sym] s1 s2 sets True [THEN conjunct1]
    by (simp add: s1_def s2_def Let_def del: settle.simps(2) add: settle.simps(2) [of "Suc (Suc (Suc n))"])
  then show ?thesis using settle_radio_stable [where s = s2 and cr = True and n = n and tz = tz and clock = clock] s2 by auto
qed

text \<open>
  The form mounts, or a radio button is used, and after at most four renders it rests:
  the store's schedule type is what the buttons show.
\<close>

text \<open>
  C34. After the schedule form mounts, at most four renders pass until nothing is left
  to update, and then the store's schedule type is what the radio buttons show.
\<close>

theorem form_comes_to_rest:
  "(case settle 4 tz clock True True s of None \<Rightarrow> False
    | Some s' \<Rightarrow> at_rest s' \<and> cron_current s' \<and> choice s' = choice s)"
proof -
  have four: "4 = Suc (Suc (Suc (Suc 0)))" by simp
  show ?thesis unfolding four using settle_rests [where s = s and cr = True and n = 0 and tz = tz and clock = clock] by (auto simp del: settle.simps)
qed

section \<open>Bounds of the cron fields\<close>

lemma day_of_year_bounds: "0 \<le> doe \<Longrightarrow> doe < 146097 \<Longrightarrow> 0 \<le> day_of_year doe \<and> day_of_year doe \<le> 365"
proof -
  assume doe: "0 \<le> doe" "doe < 146097"
  define f where "f = (doe - 36524 * min 3 (doe div 36524)) mod 1461"
  have f: "0 \<le> f" "f < 1461" by (simp_all add: f_def)
  have "day_of_year doe = f - 365 * min 3 (f div 365)" by (simp add: day_of_year_def Let_def f_def)
  then show ?thesis using f by (simp add: min_def) linarith
qed

lemma month_day_bounds:
  assumes "0 \<le> doy" and "doy \<le> 365"
  shows "0 \<le> march_month doy" "march_month doy \<le> 11"
    "1 \<le> doy - (153 * march_month doy + 2) div 5 + 1" "doy - (153 * march_month doy + 2) div 5 + 1 \<le> 31"
proof -
  define m where "m = march_month doy"
  have m: "153 * m \<le> 5 * doy + 2" "5 * doy + 2 < 153 * m + 153" unfolding m_def march_month_def by linarith+
  have range: "0 \<le> m \<and> m \<le> 11" using m assms by linarith
  then have "m \<in> {0, 1, 2, 3, 4, 5, 6, 7, 8, 9, 10, 11}" unfolding insert_iff empty_iff by presburger
  then have "1 \<le> doy - (153 * m + 2) div 5 + 1 \<and> doy - (153 * m + 2) div 5 + 1 \<le> 31"
    using m assms by auto
  with range show "0 \<le> march_month doy" "march_month doy \<le> 11"
    "1 \<le> doy - (153 * march_month doy + 2) div 5 + 1" "doy - (153 * march_month doy + 2) div 5 + 1 \<le> 31"
    unfolding m_def by auto
qed

lemma day_of_era_bounds: "0 \<le> day_of_era z" "day_of_era z < 146097"
  by (simp_all add: day_of_era_def)

lemma getDate_bounds: "1 \<le> getDate tz t \<and> getDate tz t \<le> 31"
  using month_day_bounds day_of_year_bounds [OF day_of_era_bounds] by (simp add: getDate_def Let_def)

lemma month_number_bounds: "1 \<le> month_number tz t \<and> month_number tz t \<le> 12"
  using month_day_bounds(1,2) [of "day_of_year (day_of_era (local_ms tz t div 86400000))"]
    day_of_year_bounds [OF day_of_era_bounds] by (simp add: month_number_def Let_def)

text \<open>A field of a cron expression: undefined, one of the fixed texts, or a number in range.\<close>

definition field_in :: "int \<Rightarrow> int \<Rightarrow> string list \<Rightarrow> string option \<Rightarrow> bool" where
  "field_in lo hi texts f = (case f of None \<Rightarrow> True
     | Some s \<Rightarrow> s \<in> set texts \<or> s \<in> show_int ` {lo..hi})"

definition cron_bounded :: "ScheduleSyntax \<Rightarrow> bool" where
  "cron_bounded c \<longleftrightarrow> field_in 0 59 [''*'', ''''] (minute c) \<and> field_in 0 23 [''*'', '''', ''0-23''] (hour c)
     \<and> field_in 1 31 [''*'', ''''] (day_month c) \<and> field_in 1 12 [''*'', ''''] (month c)"

definition form_bounded :: "form \<Rightarrow> bool" where
  "form_bounded s \<longleftrightarrow> cron_bounded (cronValue s) \<and> 0 \<le> minute_choice s \<and> minute_choice s \<le> 59
     \<and> 1 \<le> dates s \<and> dates s \<le> 31"

lemma field_in_show: "lo \<le> n \<Longrightarrow> n \<le> hi \<Longrightarrow> field_in lo hi ts (Some (show_int n))"
  by (simp add: field_in_def)

lemma field_in_text: "s \<in> set ts \<Longrightarrow> field_in lo hi ts (Some s)"
  by (simp add: field_in_def)

lemma field_in_None: "field_in lo hi ts None"
  by (simp add: field_in_def)

lemma minutes_of_in: "field_in 0 59 ts (minutes_of tz d)"
  by (cases d) (auto simp: minutes_of_def getMinutes_def field_in_None intro!: field_in_show)

lemma hours_of_in: "field_in 0 23 ts (hours_of tz d)"
  by (cases d) (auto simp: hours_of_def getHours_def field_in_None intro!: field_in_show)

lemma day_of_in: "field_in 1 31 ts (day_of tz d)"
  using getDate_bounds by (cases d) (auto simp: day_of_def field_in_None intro!: field_in_show)

lemma month_of_in: "field_in 1 12 ts (month_of tz d)"
  using month_number_bounds by (cases d) (auto simp: month_of_def field_in_None intro!: field_in_show)

lemma show_minutes_in: "field_in 0 59 ts (Some (show_int (getMinutes tz t)))"
  by (auto simp: getMinutes_def intro!: field_in_show)

lemma show_hours_in: "field_in 0 23 ts (Some (show_int (getHours tz t)))"
  by (auto simp: getHours_def intro!: field_in_show)

lemmas fields_in = minutes_of_in hours_of_in day_of_in month_of_in show_minutes_in show_hours_in
  field_in_text field_in_show

lemma cron_effect_bounded: "form_bounded s \<Longrightarrow> form_bounded (cron_effect s)"
  by (simp add: form_bounded_def cron_effect_def)

lemma specific_cron_bounded: "cron_bounded (specific_cron tz tm r)"
  by (simp add: specific_cron_def cron_bounded_def fields_in)

lemma clear_cron_bounded: "cron_bounded clear_cron"
  by (simp add: clear_cron_def cron_bounded_def fields_in)

lemma recurring_cron_bounded:
  "form_bounded r \<Longrightarrow> recurring_cron tz r = Some c \<Longrightarrow> cron_bounded c"
  by (auto simp: recurring_cron_def form_bounded_def cron_bounded_def fields_in split: if_splits)

lemma radio_effect_bounded:
  assumes "form_bounded r" shows "form_bounded (radio_effect tz now r)"
  using assms recurring_cron_bounded [OF assms, of tz]
  by (auto simp: radio_effect_def recurring_branch_def specific_branch_def now_branch_def form_bounded_def
      Let_def specific_cron_bounded clear_cron_bounded split: option.split)

lemma settle_bounded:
  "form_bounded s \<Longrightarrow> settle n tz clock cr rd s = Some s' \<Longrightarrow> form_bounded s'"
  by (induction n tz clock cr rd s rule: settle.induct)
    (auto simp: Let_def cron_effect_bounded radio_effect_bounded split: if_splits)

text \<open>What the user can do to the form: the fields of a choice are shown only while it is
  made, and the buttons offer \<open>names\<close>, \<open>mins\<close> and \<open>weekdays\<close>.\<close>

inductive form_step :: "int \<Rightarrow> form \<Rightarrow> form \<Rightarrow> bool" where
  choose: "v \<in> {''now'', ''recurringSchedule''} \<Longrightarrow> settle 4 tz clock False (v \<noteq> choice s) (handleRadioChange v s) = Some s' \<Longrightarrow> form_step tz s s'"
| choose_recurring: "v \<in> set recurring_kinds \<Longrightarrow> choice s = ''recurringSchedule'' \<Longrightarrow>
    settle 4 tz clock False (v \<noteq> valueDef s) (handleChangeInstance v s) = Some s' \<Longrightarrow> form_step tz s s'"
| set_time: "choice s = ''specificTime'' \<Longrightarrow>
    settle 4 tz clock True False (handleTimeChange tz now tm s) = Some s' \<Longrightarrow> form_step tz s s'"
| set_date: "choice s = ''specificTime'' \<Longrightarrow>
    settle 4 tz clock True False (handleDateChange tz now dt s) = Some s' \<Longrightarrow> form_step tz s s'"
| set_minute: "choice s = ''recurringSchedule'' \<Longrightarrow> valueDef s = recurringEveryHour \<Longrightarrow> m \<in> set mins \<Longrightarrow>
    settle 4 tz clock True False (hourChange m s) = Some s' \<Longrightarrow> form_step tz s s'"
| set_daily: "choice s = ''recurringSchedule'' \<Longrightarrow> valueDef s = recurringEveryDay \<Longrightarrow>
    settle 4 tz clock True False (dailyTimeChange tz tm s) = Some s' \<Longrightarrow> form_step tz s s'"
| set_weekday: "choice s = ''recurringSchedule'' \<Longrightarrow> valueDef s = recurringEveryWeek \<Longrightarrow> w \<in> set weekdays \<Longrightarrow>
    settle 4 tz clock True False (weekdayChange w s) = Some s' \<Longrightarrow> form_step tz s s'"
| set_month_day: "choice s = ''recurringSchedule'' \<Longrightarrow> valueDef s = recurringEveryMonth \<Longrightarrow> d \<in> set names \<Longrightarrow>
    settle 4 tz clock True False (monthDayChange d s) = Some s' \<Longrightarrow> form_step tz s s'"
| set_recurring_time: "choice s = ''recurringSchedule'' \<Longrightarrow> valueDef s \<in> {recurringEveryWeek, recurringEveryMonth} \<Longrightarrow>
    settle 4 tz clock True False (reccuringDateChange tz tm s) = Some s' \<Longrightarrow> form_step tz s s'"

inductive_cases form_stepE: "form_step tz s s'"

inductive form_reachable :: "int \<Rightarrow> form \<Rightarrow> form \<Rightarrow> bool" where
  mounted: "settle 4 tz clock True True s = Some s' \<Longrightarrow> form_reachable tz s s'"
| stepped: "form_reachable tz s s' \<Longrightarrow> form_step tz s' s'' \<Longrightarrow> form_reachable tz s s''"

definition form_inv :: "form \<Rightarrow> bool" where
  "form_inv s \<longleftrightarrow> at_rest s \<and> cron_current s \<and> form_bounded s"

lemma settle_four_radio:
  assumes "cr \<or> sets_cron tz s \<or> cron_current s" and "settle 4 tz clock cr True s = Some s'" and "form_bounded s"
  shows "form_inv s'"
proof -
  have "settle (Suc (Suc (Suc (Suc 0)))) tz clock cr True s = Some s'"
    using assms(2) by (simp only: eval_nat_numeral BitM.simps)
  with settle_rests [OF assms(1), of 0 clock] settle_bounded [OF assms(3,2)] show ?thesis
    by (auto simp: form_inv_def simp del: settle.simps)
qed

lemma settle_four_cron: "settle 4 tz clock True False s = Some s' \<Longrightarrow> s' = cron_effect s"
  by (simp add: eval_nat_numeral Let_def)

lemma settle_four_none: "settle 4 tz clock False False s = Some s' \<Longrightarrow> s' = s"
  by (simp add: eval_nat_numeral)

lemma form_inv_cron_effect: "at_rest s \<Longrightarrow> form_bounded s \<Longrightarrow> form_inv (cron_effect s)"
  by (simp add: form_inv_def cron_effect_bounded)

lemmas form_handlers = validateTime_def handleTimeChange_def handleDateChange_def reccuringDateChange_def
  hourChange_def dailyTimeChange_def weekdayChange_def monthDayChange_def

lemma handlers_at_rest:
  assumes "at_rest s"
  shows "at_rest (handleTimeChange tz now tm s)" "at_rest (handleDateChange tz now dt s)"
    "at_rest (hourChange m s)" "at_rest (dailyTimeChange tz tm s)" "at_rest (weekdayChange w s)"
    "at_rest (monthDayChange d s)" "at_rest (reccuringDateChange tz tm s)"
  using assms by (auto simp: form_handlers at_rest_def Let_def)

lemma handlers_bounded:
  assumes "form_bounded s"
  shows "form_bounded (handleTimeChange tz now tm s)" "form_bounded (handleDateChange tz now dt s)"
    "m \<in> set mins \<Longrightarrow> form_bounded (hourChange m s)" "form_bounded (dailyTimeChange tz tm s)"
    "form_bounded (weekdayChange w s)" "d \<in> set names \<Longrightarrow> form_bounded (monthDayChange d s)"
    "form_bounded (reccuringDateChange tz tm s)"
  using assms by (auto simp: form_handlers form_bounded_def cron_bounded_def Let_def fields_in mins_def names_def)

lemma sets_cron_kinds: "valueDef s \<in> set recurring_kinds \<Longrightarrow> sets_cron tz s"
  by (auto simp: sets_cron_def recurring_cron_def recurring_kinds_def recurringEveryHour_def
      recurringEveryDay_def recurringEveryWeek_def recurringEveryMonth_def)

lemma radio_change_current:
  "v \<in> {''now'', ''recurringSchedule''} \<Longrightarrow> form_inv s \<Longrightarrow>
   sets_cron tz (handleRadioChange v s) \<or> cron_current (handleRadioChange v s)"
  by (cases "v = ''now''"; cases "choice s = ''now''")
    (simp_all add: handleRadioChange_def sets_cron_def cron_current_def cron_stored_def form_inv_def at_rest_def, blast)

lemma form_step_inv:
  assumes "form_step tz s s'" and inv: "form_inv s"
  shows "form_inv s'"
  using assms(1)
proof cases
  case (choose v clk)
  have bounded: "form_bounded (handleRadioChange v s)"
    using inv by (simp add: form_inv_def form_bounded_def handleRadioChange_def)
  show ?thesis
  proof (cases "v = choice s")
    case True
    then have "handleRadioChange v s = s" by (simp add: handleRadioChange_def)
    with True choose settle_four_none [of tz clk] inv show ?thesis by auto
  next
    case False
    with choose radio_change_current [of v s tz] inv bounded show ?thesis by (auto intro: settle_four_radio)
  qed
next
  case (choose_recurring v clk)
  have bounded: "form_bounded (handleChangeInstance v s)"
    using inv by (simp add: form_inv_def form_bounded_def handleChangeInstance_def)
  have sets: "sets_cron tz (handleChangeInstance v s)"
    using choose_recurring(1) by (intro sets_cron_kinds) (simp add: handleChangeInstance_def)
  show ?thesis
  proof (cases "v = valueDef s")
    case True
    then have "handleChangeInstance v s = s" by (simp add: handleChangeInstance_def)
    with True choose_recurring settle_four_none [of tz clk] inv show ?thesis by auto
  next
    case False
    with choose_recurring sets bounded show ?thesis by (auto intro: settle_four_radio)
  qed
qed (use inv in \<open>auto dest!: settle_four_cron intro!: form_inv_cron_effect simp: form_inv_def [of s] handlers_at_rest handlers_bounded\<close>)


definition sample_form :: form where
  "sample_form = form_init '''' ''recurringSchedule'' ''everyHr''
     \<lparr>hour_interval = 5, day = 1, weekday = ''Monday'', time = Some 1600000000000, date = Some 1600000000000\<rparr> False"

lemma sample_form_mounts:
  "map_option st_cron (settle 4 0 (\<lambda>_. 1600000000000) True True sample_form) = Some ''5 0-23 * * *''"
  by code_simp


text \<open>
  A time later than now is left alone; one that is not moves on, but only when both
  pickers hold a Date: a cleared picker reads as undefined in every comparison.
\<close>

lemma validateTime_moves_on:
  assumes "choice s = ''specificTime''" and "not_after_now tz now (Some t) (Some d)"
  shows "selectedTime (validateTime tz now (Some t) (Some d) s) = Some (now + 300000)"
    "time (st_input (validateTime tz now (Some t) (Some d) s)) = Some (now + 300000)"
  using assms by (simp_all add: validateTime_def Let_def five_minutes_on_def)

lemma specific_time_in_future:
  assumes "choice s = ''specificTime''"
  shows "case time (st_input (radio_effect tz now s)) of None \<Rightarrow> now < 0 | Some t \<Rightarrow> now < t"
  using assms by (auto simp: radio_effect_def recurring_branch_def specific_branch_def now_branch_def
      stored_time_past_def Let_def five_minutes_on_def split: option.splits)

theorem cleared_time_is_scheduled:
  assumes "choice s = ''specificTime''" and "selectedDate s = Some d"
    and "settle 4 tz clock True False (handleTimeChange tz now None s) = Some s'"
  shows "take 20 (st_cron s') = ''undefined undefined ''"
  using assms settle_four_cron [OF assms(3)]
  by (simp add: cron_effect_def form_handlers Let_def not_after_now_def minutes_of_def hours_of_def cron_text_def cron_field_def)

section \<open>Workflow and CronWorkflow\<close>

definition scheduled_doc :: "schedule_env \<Rightarrow> js \<Rightarrow> js \<Rightarrow> js" where
  "scheduled_doc E name sp = JObj
     [(''apiVersion'', JStr ''argoproj.io/v1alpha1''), (''kind'', JStr ''CronWorkflow''),
      (''metadata'', JObj (case env_labels E of None \<Rightarrow> [(''name'', name), (''namespace'', JStr ''litmus'')]
         | Some (ns, wid) \<Rightarrow> [(''name'', name), (''namespace'', JStr ns), (''labels'', workflow_id_label wid)])),
      (''spec'', JObj [(''schedule'', JStr (env_cron E)), (''concurrencyPolicy'', JStr ''Forbid''),
         (''startingDeadlineSeconds'', JNum 0), (''workflowSpec'', sp),
         (''timezone'', JStr (if env_tzname E = '''' then ''UTC'' else env_tzname E))])]"

definition once_doc :: "schedule_env \<Rightarrow> js \<Rightarrow> js \<Rightarrow> js" where
  "once_doc E name sp = JObj
     [(''apiVersion'', JStr ''argoproj.io/v1alpha1''), (''kind'', JStr ''Workflow''),
      (''metadata'', JObj (case env_labels E of None \<Rightarrow> [(''namespace'', JStr ''litmus''), (''name'', name)]
         | Some (ns, wid) \<Rightarrow> [(''namespace'', JStr ns), (''name'', name), (''labels'', workflow_id_label wid)])),
      (''spec'', sp)]"

lemmas schedule_acts = put_name_def put_page_namespace_def put_page_labels_def put_timezone_def

lemma once_to_cron_doc:
  assumes "fetchWorkflowNameFromManifest Y manifest = Inr name" and "js_get ''spec'' old = Inr sp"
  shows "run_act (once_to_cron Y E manifest old) cron_skeleton = Inr (scheduled_doc E name sp)"
  using assms
  by (cases "env_labels E")
    (auto simp: once_to_cron_def schedule_acts cron_skeleton_def scheduled_doc_def run_act_def act_defs within_def obj_get_def)

lemma cron_to_once_doc:
  assumes "fetchWorkflowNameFromManifest Y manifest = Inr name" and "js_path [''spec'', ''workflowSpec''] old = Inr sp"
  shows "run_act (cron_to_once Y E manifest old) once_skeleton = Inr (once_doc E name sp)"
  using assms
  by (cases "env_labels E")
    (auto simp: cron_to_once_def schedule_acts once_skeleton_def once_doc_def run_act_def act_defs within_def obj_get_def)

text \<open>A manifest that can be scheduled: a plain Workflow that has a name and a spec.\<close>

definition schedulable :: "js \<Rightarrow> bool" where
  "schedulable v \<longleftrightarrow> yaml_plain v \<and> fld ''kind'' v = JStr ''Workflow'' \<and> fld ''spec'' v \<noteq> JUndef
     \<and> fld ''name'' (fld ''metadata'' v) \<noteq> JUndef"

definition template_texts :: "yaml \<Rightarrow> string \<Rightarrow> string \<Rightarrow> bool" where
  "template_texts Y onceText cronText \<longleftrightarrow>
     yaml_read Y onceText = Inr once_skeleton \<and> yaml_read Y cronText = Inr cron_skeleton"

definition labels_plain :: "schedule_env \<Rightarrow> bool" where
  "labels_plain E \<longleftrightarrow> (case env_labels E of Some (ns, None) \<Rightarrow> False | _ \<Rightarrow> True)"

lemma scheduled_doc_plain:
  "labels_plain E \<Longrightarrow> yaml_plain name \<Longrightarrow> yaml_plain sp \<Longrightarrow> yaml_plain (scheduled_doc E name sp)"
  by (auto simp: scheduled_doc_def labels_plain_def workflow_id_label_def split: option.splits)

lemma schedulable_reads:
  assumes "schedulable v" and "yaml_read Y manifest = Inr v"
  shows "fetchWorkflowNameFromManifest Y manifest = Inr (fld ''name'' (fld ''metadata'' v))"
    "js_get ''spec'' v = Inr (fld ''spec'' v)" "js_get ''kind'' v = Inr (JStr ''Workflow'')"
    "yaml_plain (fld ''name'' (fld ''metadata'' v))" "yaml_plain (fld ''spec'' v)"
proof -
  have v: "is_obj v" using assms(1) fld_undef_not_obj by (auto simp: schedulable_def)
  have m: "is_obj (fld ''metadata'' v)" using assms(1) fld_undef_not_obj by (auto simp: schedulable_def)
  have m_def: "fld ''metadata'' v \<noteq> JUndef" using m by auto
  show "fetchWorkflowNameFromManifest Y manifest = Inr (fld ''name'' (fld ''metadata'' v))"
    using assms(2) by (simp add: fetchWorkflowNameFromManifest_def js_get_obj v m)
  show "js_get ''spec'' v = Inr (fld ''spec'' v)" "js_get ''kind'' v = Inr (JStr ''Workflow'')"
    using assms(1) by (simp_all add: js_get_obj v schedulable_def)
  show "yaml_plain (fld ''name'' (fld ''metadata'' v))" "yaml_plain (fld ''spec'' v)"
    using assms(1) m_def by (auto simp: schedulable_def intro!: yaml_plain_fld)
qed

lemma edit_to_cron:
  assumes "schedulable v" and "yaml_read Y manifest = Inr v" and "yaml_read Y cronText = Inr cron_skeleton"
    and "env_once E \<noteq> ''now''"
  shows "EditYaml Y onceText cronText E manifest
    = Inr (yaml_show Y (scheduled_doc E (fld ''name'' (fld ''metadata'' v)) (fld ''spec'' v)))"
  using assms schedulable_reads [OF assms(1,2)]
  by (simp add: EditYaml_def edited_doc_def once_to_cron_doc)

lemma edit_to_once:
  assumes "yaml_read Y manifest = Inr (scheduled_doc E0 name sp)" and "yaml_read Y onceText = Inr once_skeleton"
    and "env_once E = ''now''"
  shows "EditYaml Y onceText cronText E manifest = Inr (yaml_show Y (once_doc E name sp))"
proof -
  have "fetchWorkflowNameFromManifest Y manifest = Inr name"
    using assms(1) by (cases "env_labels E0")
      (auto simp: fetchWorkflowNameFromManifest_def scheduled_doc_def obj_get_def)
  moreover have "js_path [''spec'', ''workflowSpec''] (scheduled_doc E0 name sp) = Inr sp"
    "js_get ''kind'' (scheduled_doc E0 name sp) = Inr (JStr ''CronWorkflow'')"
    by (simp_all add: scheduled_doc_def obj_get_def)
  ultimately show ?thesis using assms by (simp add: EditYaml_def edited_doc_def cron_to_once_doc)
qed

text \<open>
  C12. Turning a workflow into a cron workflow and back to one that runs now gives a
  workflow of the same name whose spec is the old one.
\<close>

theorem schedule_and_back:
  assumes "yaml_laws Y" and "template_texts Y onceText cronText" and "yaml_read Y manifest = Inr v"
    and "schedulable v" and "labels_plain E" and "env_once E \<noteq> ''now''" and "env_once E' = ''now''"
  shows "rbind (EditYaml Y onceText cronText E manifest) (EditYaml Y onceText cronText E')
    = Inr (yaml_show Y (once_doc E' (fld ''name'' (fld ''metadata'' v)) (fld ''spec'' v)))"
proof -
  define d where "d = scheduled_doc E (fld ''name'' (fld ''metadata'' v)) (fld ''spec'' v)"
  have "yaml_plain d" using schedulable_reads [OF assms(4,3)] assms(5) by (simp add: d_def scheduled_doc_plain)
  then have "yaml_read Y (yaml_show Y d) = Inr d" using assms(1) by (simp add: yaml_laws_def)
  then have "EditYaml Y onceText cronText E' (yaml_show Y d)
      = Inr (yaml_show Y (once_doc E' (fld ''name'' (fld ''metadata'' v)) (fld ''spec'' v)))"
    using assms(2,7) edit_to_once unfolding d_def template_texts_def by blast
  with edit_to_cron [OF assms(4,3)] assms(2,6) show ?thesis by (simp add: d_def template_texts_def)
qed

text \<open>Editing the schedule of a CronWorkflow changes its metadata, schedule and time zone only.\<close>

lemma verify_needs_recurring: "at_rest s \<Longrightarrow> choice s = ''specificTime'' \<Longrightarrow>
  schedule_verify Y onceText cronText tzname s manifest = Inr None"
  by (simp add: schedule_verify_def verify_disabled_def at_rest_def)

end
