(* ===== verification/ScheduleWitness.thy ===== *)
theory ScheduleWitness
  imports Schedule ManifestWitness
begin

text \<open>The sample scenario scheduled every hour and back, on the concrete parser and printer.\<close>

definition sample_env :: "string \<Rightarrow> schedule_env" where
  "sample_env once = \<lparr>env_cron = ''5 0-23 * * *'', env_once = once, env_tzname = ''UTC'',
     env_labels = Some (''litmus'', Some ''id-1'')\<rparr>"

lemma sample_workflow_schedulable: "schedulable sample_workflow"
  by (simp add: schedulable_def sample_defs obj_get_def)

theorem schedule_and_back_witness:
  "rbind (EditYaml plain_yaml (enc once_skeleton) (enc cron_skeleton) (sample_env ''recurringSchedule'') (enc sample_workflow))
     (EditYaml plain_yaml (enc once_skeleton) (enc cron_skeleton) (sample_env ''now''))
   = Inr (enc (once_doc (sample_env ''now'') (JStr ''custom-chaos'') sample_spec))"
proof -
  have "fld ''name'' (fld ''metadata'' sample_workflow) = JStr ''custom-chaos''" "fld ''spec'' sample_workflow = sample_spec"
    by (simp_all add: sample_workflow_def obj_get_def)
  moreover have "template_texts plain_yaml (enc once_skeleton) (enc cron_skeleton)"
    by (simp add: template_texts_def)
  ultimately show ?thesis
    using schedule_and_back [of plain_yaml "enc once_skeleton" "enc cron_skeleton" "enc sample_workflow" sample_workflow
        "sample_env ''recurringSchedule''" "sample_env ''now''"] plain_yaml_laws sample_workflow_schedulable
    by (simp add: sample_env_def labels_plain_def)
qed

definition specific_form :: form where
  "specific_form = form_init '''' ''specificTime'' ''''
     \<lparr>hour_interval = 5, day = 1, weekday = ''Monday'', time = Some 1600000000000, date = Some 1600000000000\<rparr> False"

lemma specific_form_clears:
  "settle 4 0 (\<lambda>_. 0) True False (handleTimeChange 0 0 None specific_form)
   = Some (cron_effect (handleTimeChange 0 0 None specific_form))"
  by (simp add: eval_nat_numeral Let_def)

theorem cleared_time_is_scheduled_witness:
  "take 20 (st_cron (cron_effect (handleTimeChange 0 0 None specific_form))) = ''undefined undefined ''"
  by (rule cleared_time_is_scheduled [OF _ _ specific_form_clears, of 1600000000000])
    (simp_all add: specific_form_def form_init_def to_date_def)

end
