(* ===== verification/Runs.thy ===== *)
theory Runs
  imports ManifestQuery
begin

text \<open>
  The table of runs (\<open>views/ChaosWorkflows/Runs/index.tsx\<close>), kept current by a subscription.
  The server's replies are arguments; what the table asks of the server is the state of its
  filters and pages.
\<close>

section \<open>Runs\<close>

record WorkflowRun =
  workflowRunID :: string
  run_workflow :: string
  run_cluster :: string
  run_phase :: string
  run_lastUpdated :: string
  run_data :: js

record date_range =
  startDate :: string
  endDate :: "string option"

record run_filters =
  filter_workflow :: string
  filter_cluster :: string
  filter_status :: string
  filter_dates :: date_range

record sort_request =
  sort_field :: string
  sort_descending :: "bool option"

record runs_view =
  filters :: run_filters
  page :: nat
  rows_per_page :: nat
  sortData :: sort_request
  parentName :: string

text \<open>\<open>new Date(0).valueOf().toString()\<close> is \<open>0\<close>.\<close>

definition runs_init :: "string \<Rightarrow> runs_view" where
  "runs_init name = \<lparr>filters = \<lparr>filter_workflow = name, filter_cluster = ''All'', filter_status = ''All'',
       filter_dates = \<lparr>startDate = ''0'', endDate = None\<rparr>\<rparr>,
     page = 0, rows_per_page = 10, sortData = \<lparr>sort_field = ''TIME'', sort_descending = Some True\<rparr>, parentName = name\<rparr>"

definition changeSearch :: "string \<Rightarrow> runs_view \<Rightarrow> runs_view" where
  "changeSearch v s = s\<lparr>filters := (filters s)\<lparr>filter_workflow := v\<rparr>, parentName := v, page := 0\<rparr>"

definition changeStatus :: "string \<Rightarrow> runs_view \<Rightarrow> runs_view" where
  "changeStatus v s = s\<lparr>filters := (filters s)\<lparr>filter_status := v\<rparr>, page := 0\<rparr>"

definition changeCluster :: "string \<Rightarrow> runs_view \<Rightarrow> runs_view" where
  "changeCluster v s = s\<lparr>filters := (filters s)\<lparr>filter_cluster := v\<rparr>, page := 0\<rparr>"

text \<open>The two days as the times of their first and last second, in milliseconds.\<close>

definition dateChange :: "int \<Rightarrow> int \<Rightarrow> runs_view \<Rightarrow> runs_view" where
  "dateChange d1 d2 s = s\<lparr>filters := (filters s)\<lparr>filter_dates :=
     \<lparr>startDate = show_int d1, endDate = Some (show_int d2)\<rparr>\<rparr>\<rparr>"

definition changePage :: "nat \<Rightarrow> runs_view \<Rightarrow> runs_view" where
  "changePage p s = s\<lparr>page := p\<rparr>"

definition changeRowsPerPage :: "nat \<Rightarrow> runs_view \<Rightarrow> runs_view" where
  "changeRowsPerPage n s = s\<lparr>page := 0, rows_per_page := n\<rparr>"

definition sortRuns :: "string \<Rightarrow> bool option \<Rightarrow> runs_view \<Rightarrow> runs_view" where
  "sortRuns fl desc s = s\<lparr>sortData := \<lparr>sort_field = fl, sort_descending = desc\<rparr>\<rparr>"

text \<open>
  Whether a run that arrives belongs to the table. The first conjunct is the name
  searched for itself, so it fails for the empty one; times are compared as texts.
\<close>

definition isFiltered :: "run_filters \<Rightarrow> WorkflowRun \<Rightarrow> bool" where
  "isFiltered f w \<longleftrightarrow>
     (filter_workflow f \<noteq> '''' \<and> js_includes (js_lower (run_workflow w)) (js_lower (filter_workflow f)))
   \<and> (filter_cluster f = ''All'' \<or> filter_cluster f = run_cluster w)
   \<and> (filter_status f = ''All'' \<or> filter_status f = run_phase w)
   \<and> startDate (filter_dates f) \<le> run_lastUpdated w
   \<and> (case endDate (filter_dates f) of None \<Rightarrow> True | Some e \<Rightarrow> e = '''' \<or> run_lastUpdated w < e)"

record run_list =
  totalRuns :: int
  runs_of :: "WorkflowRun list"

text \<open>The loop replaces the first run of the same id.\<close>

fun replace_run :: "WorkflowRun \<Rightarrow> WorkflowRun list \<Rightarrow> WorkflowRun list option" where
  "replace_run w [] = None"
| "replace_run w (r # rs) = (if workflowRunID r = workflowRunID w then Some (w # rs)
     else map_option (Cons r) (replace_run w rs))"

definition updateQuery :: "run_filters \<Rightarrow> WorkflowRun option \<Rightarrow> run_list \<Rightarrow> run_list" where
  "updateQuery f event prev = (case event of None \<Rightarrow> prev | Some w \<Rightarrow>
     (case replace_run w (runs_of prev) of
        Some rs \<Rightarrow> \<lparr>totalRuns = totalRuns prev, runs_of = rs\<rparr>
      | None \<Rightarrow> if isFiltered f w then \<lparr>totalRuns = totalRuns prev + 1, runs_of = w # runs_of prev\<rparr>
                else \<lparr>totalRuns = totalRuns prev, runs_of = runs_of prev\<rparr>))"

definition after_events :: "run_filters \<Rightarrow> WorkflowRun list \<Rightarrow> run_list \<Rightarrow> run_list" where
  "after_events f ws = fold (\<lambda>w. updateQuery f (Some w)) ws"

section \<open>A row of the runs\<close>

definition nameCapitalized :: "string \<Rightarrow> string" where
  "nameCapitalized s = (case s of [] \<Rightarrow> ''Not Available'' | c # cs \<Rightarrow> upper_char c # cs)"

definition getVariant :: "string option \<Rightarrow> string" where
  "getVariant v = (case v of None \<Rightarrow> ''pending''
     | Some s \<Rightarrow> if s \<in> {''succeeded'', ''failed'', ''running''} then s else ''pending'')"

section \<open>What the subscription keeps\<close>

lemma replace_run_ids: "replace_run w rs = Some rs' \<Longrightarrow> map workflowRunID rs' = map workflowRunID rs
    \<and> workflowRunID w \<in> workflowRunID ` set rs"
proof (induction rs arbitrary: rs')
  case (Cons r rs)
  then show ?case by (cases "workflowRunID r = workflowRunID w") auto
qed simp

lemma replace_run_None: "replace_run w rs = None \<longleftrightarrow> workflowRunID w \<notin> workflowRunID ` set rs"
  by (induction rs) auto

lemma replace_run_member:
  assumes "replace_run w rs = Some rs'" and "distinct (map workflowRunID rs)" and "x \<in> set rs'"
  shows "x = w \<or> x \<in> set rs \<and> workflowRunID x \<noteq> workflowRunID w"
  using assms
proof (induction rs arbitrary: rs')
  case (Cons r rs)
  show ?case
  proof (cases "workflowRunID r = workflowRunID w")
    case True
    have "workflowRunID x \<noteq> workflowRunID w" if "x \<in> set rs" using True Cons.prems(2) that by (force simp: image_iff)
    with True Cons.prems(1,3) show ?thesis by auto
  next
    case False
    with Cons.prems obtain ts where "replace_run w rs = Some ts" "rs' = r # ts" by auto
    with False Cons show ?thesis by auto
  qed
qed simp

definition latest :: "WorkflowRun list \<Rightarrow> WorkflowRun \<Rightarrow> WorkflowRun option" where
  "latest ws x = find (\<lambda>w. workflowRunID w = workflowRunID x) (rev ws)"

definition list_ok :: "run_list \<Rightarrow> bool" where
  "list_ok l \<longleftrightarrow> distinct (map workflowRunID (runs_of l))"

lemma updateQuery_step:
  assumes "list_ok l"
  shows "list_ok (updateQuery f (Some w) l)"
    and "totalRuns (updateQuery f (Some w) l) - int (length (runs_of (updateQuery f (Some w) l)))
       = totalRuns l - int (length (runs_of l))"
    and "x \<in> set (runs_of (updateQuery f (Some w) l)) \<Longrightarrow>
       x = w \<or> x \<in> set (runs_of l) \<and> workflowRunID x \<noteq> workflowRunID w"
proof -
  show "list_ok (updateQuery f (Some w) l)"
    using assms replace_run_ids [of w "runs_of l"] replace_run_None [of w "runs_of l"]
    by (auto simp: list_ok_def updateQuery_def split: option.split)
  show "totalRuns (updateQuery f (Some w) l) - int (length (runs_of (updateQuery f (Some w) l)))
       = totalRuns l - int (length (runs_of l))"
  proof (cases "replace_run w (runs_of l)")
    case (Some rs)
    have "length rs = length (runs_of l)"
      using replace_run_ids [OF Some] by (metis length_map)
    with Some show ?thesis by (simp add: updateQuery_def)
  qed (simp add: updateQuery_def)
  show "x = w \<or> x \<in> set (runs_of l) \<and> workflowRunID x \<noteq> workflowRunID w"
    if x: "x \<in> set (runs_of (updateQuery f (Some w) l))"
  proof (cases "replace_run w (runs_of l)")
    case (Some rs)
    with x replace_run_member [OF Some] assms show ?thesis by (auto simp: updateQuery_def list_ok_def)
  next
    case None
    then have "workflowRunID y \<noteq> workflowRunID w" if "y \<in> set (runs_of l)" for y
      using that replace_run_None [of w "runs_of l"] by (metis image_eqI)
    with None x show ?thesis by (auto simp: updateQuery_def split: if_splits)
  qed
qed

text \<open>
  C14. Whatever runs the subscription reports, the table keeps one row per run, shows
  the latest report of each, and its total grows with its rows.
\<close>

theorem subscription_keeps_the_table_current:
  assumes "list_ok l"
  shows "list_ok (after_events f ws l)
    \<and> totalRuns (after_events f ws l) - int (length (runs_of (after_events f ws l))) = totalRuns l - int (length (runs_of l))
    \<and> list_all (\<lambda>x. case latest ws x of None \<Rightarrow> x \<in> set (runs_of l) | Some w \<Rightarrow> x = w) (runs_of (after_events f ws l))"
proof (induction ws rule: rev_induct)
  case Nil
  then show ?case using assms by (simp add: after_events_def latest_def list_all_iff)
next
  case (snoc w ws)
  have step: "after_events f (ws @ [w]) l = updateQuery f (Some w) (after_events f ws l)"
    by (simp add: after_events_def)
  have shown: "case latest (ws @ [w]) x of None \<Rightarrow> x \<in> set (runs_of l) | Some v \<Rightarrow> x = v"
    if x: "x \<in> set (runs_of (after_events f (ws @ [w]) l))" for x
  proof (cases "workflowRunID x = workflowRunID w")
    case True
    with updateQuery_step(3) [of "after_events f ws l" x f w] snoc x step have "x = w" by auto
    then show ?thesis by (simp add: latest_def)
  next
    case False
    with updateQuery_step(3) [of "after_events f ws l" x f w] snoc x step
    have "x \<in> set (runs_of (after_events f ws l))" by auto
    moreover have "latest (ws @ [w]) x = latest ws x" using False by (simp add: latest_def)
    ultimately show ?thesis using snoc by (simp add: list_all_iff)
  qed
  show ?case using updateQuery_step(1,2) [of "after_events f ws l" f w] snoc shown step
    by (simp add: list_all_iff)
qed

text \<open>Without a name searched for no arriving run is added.\<close>

lemma no_new_runs_without_search: "filter_workflow f = '''' \<Longrightarrow> \<not> isFiltered f w"
  by (simp add: isFiltered_def)

lemma table_starts_deaf: "\<not> isFiltered (filters (runs_init '''')) w"
  by (rule no_new_runs_without_search) (simp add: runs_init_def)

end
