(* ===== verification/BrowseSchedule.thy ===== *)
theory BrowseSchedule
  imports Runs
begin

text \<open>
  The table of schedules (\<open>views/ChaosWorkflows/BrowseSchedule\<close>): its filters, the switch that
  suspends a schedule and the template saved from one. The requests it sends are values.
\<close>

section \<open>Schedules\<close>

record WeightMap =
  wm_experiment :: js
  weightage :: int

record ScheduledWorkflow =
  workflowID :: string
  workflowManifest :: string
  cronSyntax :: string
  clusterName :: string
  workflowName :: string
  workflowDescription :: string
  weightages :: "WeightMap list"
  isCustomWorkflow :: bool
  projectID :: string
  clusterID :: string

record CreateWorkFlowRequest =
  req_workflowID :: "string option"
  req_workflowName :: string
  req_workflowDescription :: string
  req_isCustomWorkflow :: bool
  req_cronSyntax :: string
  req_workflowManifest :: string
  req_projectID :: string
  req_clusterID :: string
  req_weightages :: "WeightMap list"

record schedule_filters =
  sf_workflow :: string
  sf_cluster :: string
  sf_suspended :: string
  sf_type :: string

record schedules_view =
  sv_filters :: schedule_filters
  sv_page :: nat
  sv_rows :: nat
  sv_sort :: sort_request

definition schedules_init :: schedules_view where
  "schedules_init = \<lparr>sv_filters = \<lparr>sf_workflow = '''', sf_cluster = ''All'', sf_suspended = ''All'', sf_type = ''All''\<rparr>,
     sv_page = 0, sv_rows = 10, sv_sort = \<lparr>sort_field = ''TIME'', sort_descending = Some True\<rparr>\<rparr>"

datatype schedules_event =
    search_schedules string
  | choose_type string
  | choose_suspended string
  | choose_cluster string
  | sort_schedules string bool
  | schedules_page nat
  | schedules_rows nat

text \<open>No choice of a filter goes back to the first page.\<close>

fun schedules_handle :: "schedules_event \<Rightarrow> schedules_view \<Rightarrow> schedules_view" where
  "schedules_handle (search_schedules v) s = s\<lparr>sv_filters := (sv_filters s)\<lparr>sf_workflow := v\<rparr>\<rparr>"
| "schedules_handle (choose_type v) s = s\<lparr>sv_filters := (sv_filters s)\<lparr>sf_type := v\<rparr>\<rparr>"
| "schedules_handle (choose_suspended v) s = s\<lparr>sv_filters := (sv_filters s)\<lparr>sf_suspended := v\<rparr>\<rparr>"
| "schedules_handle (choose_cluster v) s = s\<lparr>sv_filters := (sv_filters s)\<lparr>sf_cluster := v\<rparr>\<rparr>"
| "schedules_handle (sort_schedules fl desc) s = s\<lparr>sv_sort := \<lparr>sort_field = fl, sort_descending = Some desc\<rparr>\<rparr>"
| "schedules_handle (schedules_page p) s = s\<lparr>sv_page := p\<rparr>"
| "schedules_handle (schedules_rows n) s = s\<lparr>sv_page := 0, sv_rows := n\<rparr>"

text \<open>\<open>spec.suspend\<close> is negated, an absent one counting as false.\<close>

definition toggle_act :: "unit act" where
  "toggle_act = within ''spec'' (act_get ''suspend'' (\<lambda>v.
     act_upd (js_put ''suspend'' (JBool (v = JUndef \<or> v = JBool False)))))"

definition weight_copy :: "WeightMap \<Rightarrow> WeightMap" where
  "weight_copy w = \<lparr>wm_experiment = wm_experiment w, weightage = weightage w\<rparr>"

definition handleToggleSchedule :: "yaml \<Rightarrow> (js \<Rightarrow> string) \<Rightarrow> ScheduledWorkflow \<Rightarrow> CreateWorkFlowRequest result" where
  "handleToggleSchedule Y json s = rbind (yaml_read Y (workflowManifest s)) (\<lambda>d.
     rmap (\<lambda>d'. \<lparr>req_workflowID = Some (workflowID s), req_workflowName = workflowName s,
         req_workflowDescription = workflowDescription s, req_isCustomWorkflow = isCustomWorkflow s,
         req_cronSyntax = cronSyntax s, req_workflowManifest = json d', req_projectID = projectID s,
         req_clusterID = clusterID s, req_weightages = map weight_copy (weightages s)\<rparr>)
       (run_act toggle_act d))"

definition suspended_shown :: "yaml \<Rightarrow> string \<Rightarrow> ScheduledWorkflow \<Rightarrow> bool result" where
  "suspended_shown Y choice s =
     (let suspend = rbind (yaml_read Y (workflowManifest s)) (js_path [''spec'', ''suspend'']) in
      if choice = ''All'' then Inr True
      else if choice = ''true'' then rmap (\<lambda>v. v = JBool True) suspend
      else if choice = ''false'' then rmap (\<lambda>v. v = JUndef) suspend
      else Inr False)"

definition type_shown :: "string \<Rightarrow> ScheduledWorkflow \<Rightarrow> bool" where
  "type_shown choice s = (if choice = ''All'' then True
     else if choice = ''workflow'' then length (cronSyntax s) = 0 \<or> cronSyntax s = ''''
     else if choice = ''cronworkflow'' then length (cronSyntax s) > 0 else False)"

fun filterR :: "('a \<Rightarrow> bool result) \<Rightarrow> 'a list \<Rightarrow> 'a list result" where
  "filterR p [] = Inr []"
| "filterR p (x # xs) = rbind (p x) (\<lambda>b. rmap (\<lambda>ys. if b then x # ys else ys) (filterR p xs))"

definition filteredWorkflows :: "yaml \<Rightarrow> schedule_filters \<Rightarrow> ScheduledWorkflow list \<Rightarrow> ScheduledWorkflow list result" where
  "filteredWorkflows Y f ws = rmap (filter (type_shown (sf_type f))) (filterR (suspended_shown Y (sf_suspended f)) ws)"

text \<open>A manifest saved as a template loses the labels of the cluster and the workflow.\<close>

definition template_act :: "unit act" where
  "template_act = within ''metadata'' (act_get ''labels'' (\<lambda>ls. act_when (ls \<noteq> JUndef) (within ''labels''
     (act_seq (act_get ''cluster_id'' (\<lambda>v. act_when (v \<noteq> JUndef) (act_upd (js_del ''cluster_id''))))
              (act_get ''workflow_id'' (\<lambda>v. act_when (v \<noteq> JUndef) (act_upd (js_del ''workflow_id''))))))))"

definition handleSaveWorkflowTemplate :: "yaml \<Rightarrow> string \<Rightarrow> string result" where
  "handleSaveWorkflowTemplate Y manifest = rbind (yaml_read Y manifest) (\<lambda>d. rmap (yaml_show Y) (run_act template_act d))"

text \<open>A schedule that was suspended and enabled again is under neither choice of the filter.\<close>

definition spec_doc :: "js \<Rightarrow> bool" where
  "spec_doc d \<longleftrightarrow> is_obj d \<and> is_obj (fld ''spec'' d)"

lemma run_toggle:
  assumes "spec_doc d"
  shows "run_act toggle_act d = Inr (set_prop ''spec'' (set_prop ''suspend''
     (JBool (fld ''suspend'' (fld ''spec'' d) = JUndef \<or> fld ''suspend'' (fld ''spec'' d) = JBool False)) (fld ''spec'' d)) d)"
proof -
  have "fld ''spec'' d \<noteq> JUndef" using assms by (auto simp: spec_doc_def)
  then have "runs toggle_act d (set_prop ''spec'' (set_prop ''suspend''
     (JBool (fld ''suspend'' (fld ''spec'' d) = JUndef \<or> fld ''suspend'' (fld ''spec'' d) = JBool False)) (fld ''spec'' d)) d)"
    unfolding toggle_act_def using assms by (intro runs_within runs_get runs_put) (auto simp: spec_doc_def)
  then show ?thesis by (simp add: runs_def run_act_def)
qed

text \<open>The schedule as it is when the server has stored the manifest of a request.\<close>

definition stored :: "CreateWorkFlowRequest \<Rightarrow> ScheduledWorkflow \<Rightarrow> ScheduledWorkflow" where
  "stored r s = s\<lparr>workflowManifest := req_workflowManifest r\<rparr>"

lemma weight_copies [simp]: "map weight_copy ws = ws"
  by (simp add: weight_copy_def map_idI)

definition reads_back :: "yaml \<Rightarrow> (js \<Rightarrow> string) \<Rightarrow> bool" where
  "reads_back Y json \<longleftrightarrow> (\<forall>v. yaml_plain v \<longrightarrow> yaml_read Y (json v) = Inr v)"

theorem reenabled_schedule_is_hidden:
  assumes "reads_back Y json" and "yaml_read Y (workflowManifest s) = Inr d" and "yaml_plain d" and "spec_doc d"
    and "fld ''suspend'' (fld ''spec'' d) = JUndef"
  shows "\<exists>r1 r2. handleToggleSchedule Y json s = Inr r1 \<and> handleToggleSchedule Y json (stored r1 s) = Inr r2
    \<and> suspended_shown Y ''true'' (stored r1 s) = Inr True
    \<and> suspended_shown Y ''true'' (stored r2 (stored r1 s)) = Inr False
    \<and> suspended_shown Y ''false'' (stored r2 (stored r1 s)) = Inr False
    \<and> req_weightages r2 = weightages s \<and> req_cronSyntax r2 = cronSyntax s"
proof -
  define put where "put b = set_prop ''spec'' (set_prop ''suspend'' (JBool b) (fld ''spec'' d)) d" for b
  have objs: "is_obj d" "is_obj (fld ''spec'' d)" using assms(4) by (simp_all add: spec_doc_def)
  have spec: "spec_doc (put b)" "fld ''spec'' (put b) = set_prop ''suspend'' (JBool b) (fld ''spec'' d)" for b
    using objs by (simp_all add: put_def spec_doc_def)
  have sus: "js_path [''spec'', ''suspend''] (put b) = Inr (JBool b)" for b
    using objs by (simp add: js_get_obj put_def)
  have "fld ''spec'' d \<noteq> JUndef" using objs by auto
  then have plain: "yaml_plain (put b)" for b
    using assms(3) yaml_plain_fld [of d] by (simp add: put_def yaml_plain_set_prop)
  have reread: "yaml_read Y (json (put b)) = Inr (put b)" for b using plain assms(1) by (simp add: reads_back_def)
  have t1: "run_act toggle_act d = Inr (put True)" using run_toggle [OF assms(4)] assms(5) by (simp add: put_def)
  have t2: "run_act toggle_act (put True) = Inr (put False)"
    using run_toggle [OF spec(1)] objs by (simp add: put_def)
  show ?thesis using assms(2) t1 t2 reread sus
    by (simp add: handleToggleSchedule_def suspended_shown_def stored_def Let_def comp_def del: js_path.simps)
qed

end
