(* ===== verification/RunScores.thy ===== *)
theory RunScores
  imports Runs Complex_Main
begin

text \<open>The figures in a row of the runs table (\<open>views/ChaosWorkflows/Runs/TableData.tsx\<close>):
  the colour of a resiliency score and the warning of a run that has not moved.\<close>

datatype score_color = score_less | score_medium | score_high

definition getResiliencyScoreColor :: "rat \<Rightarrow> score_color" where
  "getResiliencyScoreColor score = (if score < 39 then score_less
     else if 40 < score \<and> score < 79 then score_medium else score_high)"

text \<open>Minutes since the last update; no number in the text is NaN.\<close>

definition timeDiff :: "int \<Rightarrow> string \<Rightarrow> rat option" where
  "timeDiff now lastUpdated = map_option (\<lambda>t. (of_int now - of_int t * 1000) / 60000) (parse_int lastUpdated)"

definition run_warning :: "int \<Rightarrow> string \<Rightarrow> string \<Rightarrow> bool" where
  "run_warning now lastUpdated phase \<longleftrightarrow>
     (case timeDiff now lastUpdated of None \<Rightarrow> False | Some d \<Rightarrow> 20 \<le> d) \<and> js_lower phase = ''running''"

text \<open>The scores 39 and 40, and those from 79, get the colour of a high one.\<close>

lemma color_gap: "getResiliencyScoreColor 39 = score_high" "getResiliencyScoreColor 40 = score_high"
  by (simp_all add: getResiliencyScoreColor_def)

end
