(* ===== verification/RunsWitness.thy ===== *)
theory RunsWitness
  imports BrowseSchedule RunScores ManifestWitness
begin

text \<open>The theorems about the tables of runs and schedules, applied.\<close>

definition sample_run :: "string \<Rightarrow> string \<Rightarrow> string \<Rightarrow> WorkflowRun" where
  "sample_run i ph time = \<lparr>workflowRunID = i, run_workflow = ''Podtato'', run_cluster = ''self'', run_phase = ph,
     run_lastUpdated = time, run_data = JObj []\<rparr>"

definition sample_list :: run_list where
  "sample_list = \<lparr>totalRuns = 12, runs_of = [sample_run ''a'' ''Running'' ''16'', sample_run ''b'' ''Failed'' ''15'']\<rparr>"

definition sample_events :: "WorkflowRun list" where
  "sample_events = [sample_run ''a'' ''Succeeded'' ''17'', sample_run ''c'' ''Running'' ''18'', sample_run ''c'' ''Succeeded'' ''19'']"

lemma sample_list_ok: "list_ok sample_list"
  by (simp add: list_ok_def sample_list_def sample_run_def)

lemma subscription_keeps_the_table_current_witness:
  "let l = after_events (filters (changeSearch ''pod'' (runs_init ''''))) sample_events sample_list in
     list_ok l \<and> totalRuns l - int (length (runs_of l)) = 10
   \<and> map workflowRunID (runs_of l) = [''c'', ''a'', ''b''] \<and> map run_phase (runs_of l) = [''Succeeded'', ''Succeeded'', ''Failed'']"
proof -
  let ?l = "after_events (filters (changeSearch ''pod'' (runs_init ''''))) sample_events sample_list"
  have "map workflowRunID (runs_of ?l) = [''c'', ''a'', ''b''] \<and> map run_phase (runs_of ?l) = [''Succeeded'', ''Succeeded'', ''Failed'']"
    by code_simp
  moreover have "totalRuns sample_list - int (length (runs_of sample_list)) = 10" by code_simp
  ultimately show ?thesis
    using subscription_keeps_the_table_current [OF sample_list_ok, of "filters (changeSearch ''pod'' (runs_init ''''))" sample_events]
    by (simp add: Let_def)
qed

definition sample_schedule :: ScheduledWorkflow where
  "sample_schedule = \<lparr>workflowID = ''1'', workflowManifest = enc sample_cron, cronSyntax = ''0 * * * *'',
     clusterName = ''self'', workflowName = ''custom-chaos'', workflowDescription = ''chaos'',
     weightages = [\<lparr>wm_experiment = JStr ''pod-delete'', weightage = 10\<rparr>], isCustomWorkflow = True,
     projectID = ''p'', clusterID = ''c''\<rparr>"

lemma plain_reads_back: "reads_back plain_yaml enc"
  by (simp add: reads_back_def)

lemma reenabled_schedule_is_hidden_witness:
  "\<exists>r1 r2. handleToggleSchedule plain_yaml enc sample_schedule = Inr r1
    \<and> handleToggleSchedule plain_yaml enc (stored r1 sample_schedule) = Inr r2
    \<and> suspended_shown plain_yaml ''false'' (stored r2 (stored r1 sample_schedule)) = Inr False"
proof -
  have "yaml_read plain_yaml (workflowManifest sample_schedule) = Inr sample_cron"
    by (simp add: sample_schedule_def)
  moreover have "yaml_plain sample_cron" by code_simp
  moreover have "spec_doc sample_cron" "fld ''suspend'' (fld ''spec'' sample_cron) = JUndef" by code_simp+
  ultimately show ?thesis
    using reenabled_schedule_is_hidden [OF plain_reads_back, of sample_schedule sample_cron] by blast
qed

end
