(* ===== verification/WizardPages.thy ===== *)
theory WizardPages
  imports ManifestEdit Schedule Validation
begin

text \<open>
  The first pages of the scenario wizard (\<open>views/CreateWorkflow\<close>): the choice of the chaos
  delegate and of the scenario, with the upload of a manifest, the scenario's settings and
  the weights of its experiments. \<open>portal\<close> is what the pages share: the slices of the store
  and the entries of the browser's database they read and write. The replies of the server
  and the files a user picks are arguments; a read of the database that follows a write sees it.
\<close>

section \<open>What the pages share\<close>

record WorkflowDetailsProps =
  wf_name :: string
  wf_description :: string
  wf_icon :: string
  wf_CRDLink :: "string option"

record ChooseWorkflowRadio =
  radio_selected :: string
  radio_id :: "string option"

record portal =
  p_manifest :: string
  p_engineYAML :: string
  p_isCustomWorkflow :: bool
  p_isUploaded :: bool
  p_alert :: bool
  p_clusterID :: string
  p_clusterName :: string
  p_namespace :: string
  p_projectID :: string
  p_cronSyntax :: string
  p_once :: string
  p_recurring :: string
  p_input :: "scheduleInput option"
  p_registry :: ImageRegistryInfo
  lf_workflow :: "WorkflowDetailsProps option"
  lf_option :: "ChooseWorkflowRadio option"
  lf_weights :: "experimentMap list option"
  lf_hasSet :: bool
  lf_hub :: "string option"

definition raise_alert :: "bool \<Rightarrow> portal \<Rightarrow> portal" where
  "raise_alert b p = p\<lparr>p_alert := b\<rparr>"

section \<open>Choosing the chaos delegate\<close>

record Cluster =
  cl_name :: string
  cl_isActive :: bool
  cl_id :: string
  cl_namespace :: string

record agent_page =
  clusterData :: "Cluster list"
  agent_search :: "string option"
  currentlySelectedAgent :: string

definition agent_init :: agent_page where
  "agent_init = \<lparr>clusterData = [], agent_search = None, currentlySelectedAgent = ''''\<rparr>"

definition public_registry :: ImageRegistryInfo where
  "public_registry = \<lparr>image_registry_name = ''docker.io'', image_repo_name = ''litmuschaos'',
     image_registry_type = ''Public'', secret_name = '''', secret_namespace = '''',
     enable_registry = True, update_registry = True, is_default = True\<rparr>"

text \<open>The project's first registry is fetched by its id; without one the public registry is taken.\<close>

definition list_registries_completed :: "string list \<Rightarrow> portal \<Rightarrow> portal \<times> string option" where
  "list_registries_completed ids p = (case ids of i # _ \<Rightarrow> (p, Some i)
     | [] \<Rightarrow> (p\<lparr>p_registry := public_registry\<rparr>, None))"

definition getRegistryData_completed :: "ImageRegistryInfo option \<Rightarrow> portal \<Rightarrow> portal" where
  "getRegistryData_completed reg p = (case reg of None \<Rightarrow> p
     | Some r \<Rightarrow> p\<lparr>p_registry := r\<lparr>update_registry := True\<rparr>\<rparr>)"

text \<open>Every active delegate of a reply clears the chosen one and the schedule.\<close>

definition reset_details :: "int \<Rightarrow> portal \<Rightarrow> portal" where
  "reset_details now p = p\<lparr>p_clusterID := '''', p_cronSyntax := '''', p_once := ''now'', p_recurring := '''',
     p_input := Some \<lparr>hour_interval = 0, day = 1, weekday = ''Monday'', time = Some now, date = Some now\<rparr>\<rparr>"

definition getCluster_completed :: "int \<Rightarrow> Cluster list \<Rightarrow> agent_page \<times> portal \<Rightarrow> agent_page \<times> portal" where
  "getCluster_completed now cs = (\<lambda>(a, p).
     if cs = [] then (a, p)
     else (a\<lparr>clusterData := filter cl_isActive cs\<rparr>,
           fold (\<lambda>c p. if cl_isActive c then reset_details now p else p) cs p))"

definition take_cluster :: "string \<Rightarrow> string \<Rightarrow> Cluster \<Rightarrow> portal \<Rightarrow> portal" where
  "take_cluster pid sel c p = (if sel = cl_id c
     then p\<lparr>p_clusterID := cl_id c, p_projectID := pid, p_clusterName := cl_name c, p_namespace := cl_namespace c\<rparr>
     else p)"

text \<open>The radio button and the effect that runs when it changes the selection.\<close>

definition agent_select :: "string \<Rightarrow> string \<Rightarrow> agent_page \<times> portal \<Rightarrow> agent_page \<times> portal" where
  "agent_select pid v = (\<lambda>(a, p).
     (a\<lparr>currentlySelectedAgent := v\<rparr>,
      if v \<noteq> currentlySelectedAgent a \<and> v \<noteq> '''' then fold (take_cluster pid v) (clusterData a) p else p))"

definition agent_searched :: "string \<Rightarrow> agent_page \<Rightarrow> agent_page" where
  "agent_searched v a = a\<lparr>agent_search := Some v\<rparr>"

definition filteredCluster :: "agent_page \<Rightarrow> Cluster list" where
  "filteredCluster a = filter (\<lambda>c. case agent_search a of None \<Rightarrow> True
     | Some s \<Rightarrow> js_includes (js_lower (cl_name c)) (js_lower s)) (clusterData a)"

definition agent_onNext :: "string \<Rightarrow> agent_page \<Rightarrow> portal \<Rightarrow> bool \<times> portal" where
  "agent_onNext role a p = (if role = ''Viewer'' then (False, raise_alert True p)
     else if p_clusterID p = '''' \<or> clusterData a = [] then (False, raise_alert True p)
     else (True, p))"

section \<open>Choosing the scenario\<close>

record choose_page =
  chosen :: string
  picked :: "string option"

definition choose_init :: choose_page where
  "choose_init = \<lparr>chosen = '''', picked = None\<rparr>"

definition choose_mount :: "portal \<Rightarrow> portal" where
  "choose_mount p = p\<lparr>p_manifest := '''', p_isUploaded := False, lf_weights := None\<rparr>"

definition choose_handleChange :: "string \<Rightarrow> choose_page \<times> portal \<Rightarrow> choose_page \<times> portal" where
  "choose_handleChange v = (\<lambda>(c, p).
     (c\<lparr>chosen := v\<rparr>,
      p\<lparr>lf_option := Some \<lparr>radio_selected = v, radio_id = None\<rparr>,
        p_isCustomWorkflow := (v = ''C'' \<or> v = ''D'')\<rparr>))"

definition pickedExperiment :: "string \<Rightarrow> choose_page \<Rightarrow> choose_page" where
  "pickedExperiment i c = c\<lparr>picked := Some i\<rparr>"

text \<open>A scenario of a hub (\<open>choosePreDefinedExperiments.tsx\<close>), a saved template
  (\<open>ChooseWorkflowFromExisting.tsx\<close>; one that is not listed throws) and a hub
  (\<open>SelectMyHub.tsx\<close>).\<close>

definition store_selection :: "string \<Rightarrow> string option \<Rightarrow> portal \<Rightarrow> portal" where
  "store_selection v i p = p\<lparr>lf_option := Some \<lparr>radio_selected = v, radio_id = i\<rparr>, lf_hasSet := False\<rparr>"

definition pick_predefined :: "string \<Rightarrow> choose_page \<times> portal \<Rightarrow> choose_page \<times> portal" where
  "pick_predefined i = (\<lambda>(c, p). (pickedExperiment i c, store_selection ''A'' (Some i) p))"

definition filter_templates :: "string option \<Rightarrow> (string \<times> string \<times> bool) list \<Rightarrow> (string \<times> string \<times> bool) list" where
  "filter_templates search ts = filter (\<lambda>(i, n, b). case search of None \<Rightarrow> True
     | Some s \<Rightarrow> js_includes (js_lower n) (js_lower s)) ts"

definition pick_template :: "string option \<Rightarrow> (string \<times> string \<times> bool) list \<Rightarrow> string
    \<Rightarrow> choose_page \<times> portal \<Rightarrow> choose_page \<times> portal" where
  "pick_template search ts i = (\<lambda>(c, p). (pickedExperiment i c,
     case find (\<lambda>(j, n, b). j = i) (filter_templates search ts) of None \<Rightarrow> p
     | Some (j, n, custom) \<Rightarrow> store_selection ''B'' (Some i) (p\<lparr>p_isCustomWorkflow := custom\<rparr>)))"

definition pick_hub :: "string \<Rightarrow> portal \<Rightarrow> portal" where
  "pick_hub h p = store_selection ''C'' None (p\<lparr>lf_hub := Some h\<rparr>)"

definition predefined_hub :: "string \<Rightarrow> portal \<Rightarrow> portal" where
  "predefined_hub h p = p\<lparr>lf_hub := Some h\<rparr>"

definition choose_onNext :: "choose_page \<Rightarrow> portal \<Rightarrow> bool \<times> portal" where
  "choose_onNext c p =
     (if chosen c = '''' then (False, raise_alert True p)
      else if (chosen c = ''A'' \<or> chosen c = ''B'') \<and> picked c = None then (False, raise_alert True p)
      else if chosen c = ''D'' \<and> p_manifest p = '''' then (False, raise_alert True p)
      else (True, raise_alert False p))"

section \<open>Uploading a manifest\<close>

record upload_page =
  uploadedYAML :: string
  fileName :: "string option"
  errorText :: string
  uploadError :: bool

definition upload_init :: upload_page where
  "upload_init = \<lparr>uploadedYAML = '''', fileName = Some '''', errorText = '''', uploadError = False\<rparr>"

definition duplicate_text :: string where
  "duplicate_text = ''Chaos Scenario contains multiple steps with same name.''"

text \<open>What the try block computes: the manifest, whether its names are distinct, the weights.\<close>

definition read_scenario :: "yaml \<Rightarrow> string \<Rightarrow> string \<Rightarrow> (string \<times> bool \<times> experimentMap list) result" where
  "read_scenario Y text ns = rbind (updateNamespaceForUpload Y text ns) (\<lambda>d.
     rbind (validateExperimentNames d) (\<lambda>ok.
     rmap (\<lambda>ws. (yaml_show Y d, ok, ws)) (addWeights Y (yaml_show Y d))))"

text \<open>An error after the duplicate names are noticed replaces their message; \<open>msg\<close> is the
  text of an exception.\<close>

definition read_file :: "yaml \<Rightarrow> (js_error \<Rightarrow> string) \<Rightarrow> string \<Rightarrow> upload_page \<times> portal \<Rightarrow> upload_page \<times> portal" where
  "read_file Y msg text = (\<lambda>(u, p). case read_scenario Y text (p_namespace p) of
       Inr (m, ok, ws) \<Rightarrow>
         (u\<lparr>uploadedYAML := text, uploadError := \<not> ok, errorText := (if ok then errorText u else duplicate_text)\<rparr>,
          p\<lparr>lf_weights := Some ws, p_manifest := m, p_isUploaded := True\<rparr>)
     | Inl e \<Rightarrow>
         (u\<lparr>uploadedYAML := text, uploadError := True, errorText := msg e\<rparr>,
          p\<lparr>p_manifest := '''', p_isUploaded := False\<rparr>))"

definition saveToLocalForage :: "portal \<Rightarrow> portal" where
  "saveToLocalForage = store_selection ''D'' None"

text \<open>A dropped file counts by what follows its first dot, a picked one by what follows its last.\<close>

definition dropped_extension :: "string \<Rightarrow> string" where
  "dropped_extension n = (case js_split n ''.'' of _ # e # _ \<Rightarrow> e | _ \<Rightarrow> '''')"

definition picked_extension :: "string \<Rightarrow> string" where
  "picked_extension n = last (js_split n ''.'')"

definition is_yaml :: "string \<Rightarrow> bool" where
  "is_yaml e \<longleftrightarrow> e = ''yaml'' \<or> e = ''yml''"

definition handleDrag :: "yaml \<Rightarrow> (js_error \<Rightarrow> string) \<Rightarrow> (string \<times> string) list
    \<Rightarrow> upload_page \<times> portal \<Rightarrow> upload_page \<times> portal" where
  "handleDrag Y msg files = (\<lambda>(u, p).
     fold (\<lambda>(n, text) (u, p). read_file Y msg text (u\<lparr>fileName := Some n\<rparr>, p))
       (filter (\<lambda>(n, text). is_yaml (dropped_extension n)) files) (u, saveToLocalForage p))"

definition handleFileUpload :: "yaml \<Rightarrow> (js_error \<Rightarrow> string) \<Rightarrow> (string \<times> string) option
    \<Rightarrow> upload_page \<times> portal \<Rightarrow> upload_page \<times> portal" where
  "handleFileUpload Y msg file = (\<lambda>(u, p). case file of
       None \<Rightarrow> (u\<lparr>fileName := None\<rparr>, saveToLocalForage p)
     | Some (n, text) \<Rightarrow>
         if is_yaml (picked_extension n)
         then read_file Y msg text (u\<lparr>fileName := Some n\<rparr>, saveToLocalForage p)
         else (u\<lparr>fileName := Some n\<rparr>, saveToLocalForage p))"

definition upload_retry :: "upload_page \<Rightarrow> upload_page" where
  "upload_retry u = u\<lparr>uploadedYAML := '''', errorText := '''', uploadError := False\<rparr>"

section \<open>What the choices guarantee\<close>

text \<open>The chosen delegate, if any, is one of the active ones shown, with its namespace.\<close>

definition agent_ok :: "agent_page \<times> portal \<Rightarrow> bool" where
  "agent_ok = (\<lambda>(a, p). list_all cl_isActive (clusterData a) \<and>
     (clusterData a = [] \<or> p_clusterID p = ''''
      \<or> list_ex (\<lambda>c. cl_id c = p_clusterID p \<and> cl_name c = p_clusterName p \<and> cl_namespace c = p_namespace p)
          (clusterData a)))"

datatype agent_event =
    clusters_came int "Cluster list"
  | agent_chosen string string
  | agent_filter string

fun agent_handle :: "agent_event \<Rightarrow> agent_page \<times> portal \<Rightarrow> agent_page \<times> portal" where
  "agent_handle (clusters_came now cs) s = getCluster_completed now cs s"
| "agent_handle (agent_chosen pid v) s = agent_select pid v s"
| "agent_handle (agent_filter v) s = (agent_searched v (fst s), snd s)"

lemma fold_reset:
  "p_clusterID p = '''' \<or> list_ex cl_isActive cs \<Longrightarrow>
   p_clusterID (fold (\<lambda>c p. if cl_isActive c then reset_details now p else p) cs p) = ''''"
proof (induction cs arbitrary: p)
  case (Cons c cs)
  then show ?case by (cases "cl_isActive c") (simp_all add: reset_details_def)
qed simp

lemma fold_take:
  "p' = fold (take_cluster pid v) cs p \<Longrightarrow> p' = p \<or>
     list_ex (\<lambda>c. cl_id c = p_clusterID p' \<and> cl_name c = p_clusterName p' \<and> cl_namespace c = p_namespace p') cs"
proof (induction cs arbitrary: p)
  case (Cons c cs)
  from Cons.IH [of "take_cluster pid v c p"] Cons.prems show ?case
    by (auto simp: take_cluster_def split: if_splits)
qed simp

lemma agent_ok_handle: "agent_ok s \<Longrightarrow> agent_ok (agent_handle e s)"
proof (cases e)
  case (clusters_came now cs)
  assume ok: "agent_ok s"
  obtain a p where s: "s = (a, p)" by (cases s)
  show ?thesis
  proof (cases "filter cl_isActive cs = []")
    case False
    then have "list_ex cl_isActive cs" by (auto simp: filter_empty_conv list_ex_iff)
    with fold_reset [of p cs now] show ?thesis
      using clusters_came s by (auto simp: agent_ok_def getCluster_completed_def list_all_iff)
  qed (use ok clusters_came s in \<open>auto simp: agent_ok_def getCluster_completed_def\<close>)
next
  case (agent_chosen pid v)
  assume ok: "agent_ok s"
  obtain a p where s: "s = (a, p)" by (cases s)
  show ?thesis
    using ok agent_chosen s fold_take [of "fold (take_cluster pid v) (clusterData a) p" pid v "clusterData a" p]
    by (auto simp: agent_ok_def agent_select_def)
qed (auto simp: agent_ok_def agent_searched_def split: prod.splits)

lemma agent_ok_run: "agent_ok s \<Longrightarrow> agent_ok (fold agent_handle es s)"
  by (induction es arbitrary: s) (simp_all add: agent_ok_handle)

theorem delegate_is_active_and_listed:
  assumes "(a, p') = fold agent_handle es (agent_init, p)" and "fst (agent_onNext role a p')"
  shows "role \<noteq> ''Viewer'' \<and> list_ex (\<lambda>c. cl_isActive c \<and> cl_id c = p_clusterID p'
    \<and> cl_name c = p_clusterName p' \<and> cl_namespace c = p_namespace p') (clusterData a)"
proof -
  have "agent_ok (a, p')"
    unfolding assms(1) by (rule agent_ok_run) (simp add: agent_ok_def agent_init_def)
  with assms(2) show ?thesis
    by (auto simp: agent_ok_def agent_onNext_def list_ex_iff list_all_iff split: if_splits)
qed

text \<open>After a scenario of a hub is picked, turning to the templates goes on without one: the
  pick is kept, while the stored selection has no id.\<close>

lemma stale_pick_goes_on:
  assumes "(c, p') = choose_handleChange ''B'' (pick_predefined i (choose_handleChange ''A'' (choose_init, p)))"
  shows "fst (choose_onNext c p')" and "lf_option p' = Some \<lparr>radio_selected = ''B'', radio_id = None\<rparr>"
  using assms by (simp_all add: choose_handleChange_def pick_predefined_def pickedExperiment_def choose_init_def
      store_selection_def choose_onNext_def)

text \<open>A manifest with a step name twice is refused in words only.\<close>

lemma duplicate_upload_goes_on:
  assumes "read_scenario Y text (p_namespace p) = Inr (m, False, ws)" and "m \<noteq> ''''"
    and "(u', p') = read_file Y msg text (u, p)"
  shows "uploadError u'" and "p_isUploaded p'" and "fst (choose_onNext \<lparr>chosen = ''D'', picked = None\<rparr> p')"
  using assms by (simp_all add: read_file_def choose_onNext_def)

text \<open>A dropped file with a dot in its name is passed over, a picked one is read.\<close>

lemma dotted_name_dropped:
  "picked_extension ''pod.delete.yaml'' = ''yaml''" "dropped_extension ''pod.delete.yaml'' = ''delete''"
  by code_simp+

text \<open>An upload is all or nothing.\<close>

theorem upload_stores_or_clears:
  "case read_file Y msg text (u, p) of (u', p') \<Rightarrow>
    (case updateNamespaceForUpload Y text (p_namespace p) of
       Inl e \<Rightarrow> uploadError u' \<and> errorText u' = msg e \<and> \<not> p_isUploaded p' \<and> p_manifest p' = ''''
     | Inr d \<Rightarrow>
        (if p_isUploaded p' then p_manifest p' = yaml_show Y d \<and> addWeights Y (p_manifest p') = Inr (the (lf_weights p'))
            \<and> validateExperimentNames d = Inr (\<not> uploadError u')
         else uploadError u' \<and> p_manifest p' = ''''))"
proof (cases "updateNamespaceForUpload Y text (p_namespace p)")
  case (Inr d)
  show ?thesis
  proof (cases "validateExperimentNames d")
    case ok: (Inr b)
    with Inr show ?thesis
      by (cases "addWeights Y (yaml_show Y d)") (simp_all add: read_file_def read_scenario_def)
  qed (simp add: Inr read_file_def read_scenario_def)
qed (simp add: read_file_def read_scenario_def)

end
