(* ===== verification/WizardSettings.thy ===== *)
theory WizardSettings
  imports WizardPages
begin

text \<open>
  The settings of a scenario (\<open>WorkflowSettings/index.tsx\<close>) and the weights of its
  experiments (\<open>ReliabilityScore/index.tsx\<close>).
\<close>

section \<open>Settings\<close>

record settings_page =
  s_name :: string
  s_description :: string
  s_icon :: string
  s_CRDLink :: "string option"
  displayRegChange :: bool
  updateRegistry :: bool
  s_hubName :: string

definition settings_init :: "portal \<Rightarrow> settings_page" where
  "settings_init p = \<lparr>s_name = '''', s_description = '''', s_icon = '''', s_CRDLink = Some '''',
     displayRegChange = True, updateRegistry = update_registry (p_registry p), s_hubName = ''''\<rparr>"

datatype settings_fetch =
    FetchHubExperiment "string option" "string option"
  | FetchSavedTemplate "string option"

definition litmus_icon :: string where
  "litmus_icon = ''./avatars/litmus.svg''"

definition getWorkflowDetails_completed :: "string \<Rightarrow> string \<Rightarrow> string \<Rightarrow> string \<Rightarrow> settings_page \<Rightarrow> settings_page" where
  "getWorkflowDetails_completed endpoint pid name categoryDescription s =
     s\<lparr>s_name := js_lower name, s_description := categoryDescription,
       s_icon := endpoint @ ''/icon/'' @ pid @ ''/'' @ s_hubName s @ ''/predefined/'' @ name @ ''.png'',
       s_CRDLink := Some name\<rparr>"

text \<open>The reply has \<open>templateID\<close>, the page reads \<open>template_id\<close>: the link is undefined.\<close>

definition getSavedTemplate_completed :: "yaml \<Rightarrow> string \<Rightarrow> string \<Rightarrow> string \<Rightarrow> settings_page \<times> portal \<Rightarrow> settings_page \<times> portal" where
  "getSavedTemplate_completed Y name descr savedTemplate = (\<lambda>(s, p).
     (s\<lparr>s_name := name, s_description := descr, s_icon := litmus_icon, s_CRDLink := None\<rparr>,
      if parsed Y savedTemplate = [] then p\<lparr>p_manifest := savedTemplate, p_isUploaded := True\<rparr> else p))"

definition checkForStoredData :: "settings_page \<times> portal \<Rightarrow> settings_page \<times> portal" where
  "checkForStoredData = (\<lambda>(s, p). (case lf_workflow p of None \<Rightarrow> s
     | Some w \<Rightarrow>
        s\<lparr>s_name := (if wf_name w \<noteq> '''' then wf_name w else s_name s),
          s_description := (if wf_description w \<noteq> '''' then wf_description w else s_description s),
          s_icon := (if wf_icon w \<noteq> '''' then wf_icon w else s_icon s)\<rparr>, p))"

definition hub_text :: "string option \<Rightarrow> string" where
  "hub_text h = (case h of None \<Rightarrow> ''null'' | Some v \<Rightarrow> v)"

text \<open>Without a stored selection the promise is rejected and nothing is set.\<close>

definition initializeWithDefault :: "int \<Rightarrow> settings_page \<times> portal \<Rightarrow> (settings_page \<times> portal) \<times> settings_fetch list" where
  "initializeWithDefault now = (\<lambda>(s, p). case lf_option p of None \<Rightarrow> ((s, p), [])
     | Some v \<Rightarrow>
        (let p' = p\<lparr>lf_hasSet := False\<rparr> in
         if radio_selected v = ''A'' then
           ((s\<lparr>s_hubName := hub_text (lf_hub p), displayRegChange := True\<rparr>, p'\<lparr>p_manifest := ''''\<rparr>),
            [FetchHubExperiment (lf_hub p) (radio_id v)])
         else if radio_selected v = ''B'' then
           ((s\<lparr>displayRegChange := True\<rparr>, p'\<lparr>p_manifest := ''''\<rparr>), [FetchSavedTemplate (radio_id v)])
         else if radio_selected v = ''C'' then
           ((s\<lparr>s_name := ''custom'', s_description := ''Custom Chaos Scenario'', s_icon := litmus_icon,
               displayRegChange := True\<rparr>, p'), [])
         else if radio_selected v = ''D'' then
           ((s\<lparr>s_name := ''custom-scenario-'' @ show_int ((now + 500) div 1000), s_description := ''Chaos Scenario'',
               s_icon := litmus_icon, displayRegChange := False\<rparr>, p'), [])
         else ((s, p'), [])))"

definition settings_mount :: "int \<Rightarrow> portal \<Rightarrow> (settings_page \<times> portal) \<times> settings_fetch list" where
  "settings_mount now p =
     (case (if lf_hasSet p then (checkForStoredData (settings_init p, p), [])
            else initializeWithDefault now (settings_init p, p)) of
        ((s, p'), fs) \<Rightarrow> ((s, raise_alert False p'), fs))"

definition nameChangeHandle :: "string \<Rightarrow> settings_page \<times> portal \<Rightarrow> settings_page \<times> portal" where
  "nameChangeHandle v = (\<lambda>(s, p). (s\<lparr>s_name := v\<rparr>, p\<lparr>lf_hasSet := True\<rparr>))"

definition descriptionChangeHandle :: "string \<Rightarrow> settings_page \<times> portal \<Rightarrow> settings_page \<times> portal" where
  "descriptionChangeHandle v = (\<lambda>(s, p). (s\<lparr>s_description := v\<rparr>, p\<lparr>lf_hasSet := True\<rparr>))"

definition setUpdateRegistry :: "bool \<Rightarrow> settings_page \<Rightarrow> settings_page" where
  "setUpdateRegistry b s = s\<lparr>updateRegistry := b\<rparr>"

definition rename_act :: "string \<Rightarrow> unit act" where
  "rename_act n = within ''metadata'' (act_upd (js_put ''name'' (JStr n)))"

definition renamed_manifest :: "yaml \<Rightarrow> string \<Rightarrow> string \<Rightarrow> string result" where
  "renamed_manifest Y n manifest = rbind (yaml_read Y manifest) (\<lambda>d. rmap (yaml_show Y) (run_act (rename_act n) d))"

text \<open>The name is checked after it has been stored and written into an uploaded manifest.\<close>

definition store_settings :: "settings_page \<Rightarrow> portal \<Rightarrow> portal" where
  "store_settings s p = p\<lparr>lf_workflow := Some \<lparr>wf_name = s_name s, wf_description = s_description s,
        wf_icon = s_icon s, wf_CRDLink = s_CRDLink s\<rparr>,
     p_registry := (p_registry p)\<lparr>update_registry := updateRegistry s\<rparr>\<rparr>"

definition settings_onNext :: "yaml \<Rightarrow> settings_page \<Rightarrow> portal \<Rightarrow> bool result \<times> portal" where
  "settings_onNext Y s p =
     (let p1 = store_settings s p in
      case (if p_isUploaded p then renamed_manifest Y (s_name s) (p_manifest p) else Inr (p_manifest p)) of
        Inl e \<Rightarrow> (Inl e, p1)
      | Inr m \<Rightarrow>
         (let p2 = p1\<lparr>p_manifest := m\<rparr> in
          if s_name s = '''' then (Inr False, raise_alert True p2)
          else if validateWorkflowName (s_name s) then (Inr False, raise_alert True p2)
          else (Inr True, p2)))"

section \<open>Weights\<close>

record score_page =
  score_weights :: "experimentMap list"
  score_name :: string

definition score_init :: score_page where
  "score_init = \<lparr>score_weights = [\<lparr>experimentName = JStr '''', weight = 0\<rparr>], score_name = ''''\<rparr>"

definition score_load :: "portal \<Rightarrow> score_page \<Rightarrow> score_page" where
  "score_load p s = s\<lparr>score_weights := (case lf_weights p of Some ws \<Rightarrow> ws | None \<Rightarrow> []),
     score_name := (case lf_workflow p of Some w \<Rightarrow> wf_name w | None \<Rightarrow> score_name s)\<rparr>"

text \<open>Each slider has an index of the list and values from 0 to 10.\<close>

definition score_handleChange :: "int \<Rightarrow> nat \<Rightarrow> score_page \<Rightarrow> score_page result" where
  "score_handleChange newValue index s =
     (if index < length (score_weights s)
      then Inr (s\<lparr>score_weights := (score_weights s)[index := (score_weights s ! index)\<lparr>weight := newValue\<rparr>]\<rparr>)
      else Inl TypeErr)"

definition score_onNext :: "score_page \<Rightarrow> portal \<Rightarrow> bool \<times> portal" where
  "score_onNext s p = (True, p\<lparr>lf_weights := Some (score_weights s)\<rparr>)"

section \<open>What the settings leave\<close>

lemma runs_rename:
  "is_obj d \<Longrightarrow> is_obj (fld ''metadata'' d) \<Longrightarrow>
   runs (rename_act n) d (set_prop ''metadata'' (set_prop ''name'' (JStr n) (fld ''metadata'' d)) d)"
  unfolding rename_act_def by (intro runs_within runs_put) auto

lemma run_rename:
  "is_obj d \<Longrightarrow> is_obj (fld ''metadata'' d) \<Longrightarrow>
   run_act (rename_act n) d = Inr (set_prop ''metadata'' (set_prop ''name'' (JStr n) (fld ''metadata'' d)) d)"
  using runs_rename [of d n] by (simp add: runs_def run_act_def)

text \<open>The settings that are stored come back without their link; from then on a predefined
  scenario whose manifest is not loaded yet cannot be fetched.\<close>

lemma stored_settings_lose_link:
  assumes "lf_hasSet p" and "((s, p'), fs) = settings_mount now p"
    and "\<not> p_isUploaded p" and "settings_onNext Y s p' = (Inr True, p'')"
  shows "\<exists>w. lf_workflow p'' = Some w \<and> wf_CRDLink w = Some ''''"
  using assms by (auto simp: settings_mount_def checkForStoredData_def settings_onNext_def store_settings_def
      raise_alert_def settings_init_def Let_def split: option.splits if_splits)

text \<open>The link of a saved template is undefined.\<close>

lemma template_link_undefined:
  "(s', p') = getSavedTemplate_completed Y name descr savedTemplate (s, p) \<Longrightarrow> s_CRDLink s' = None"
  by (auto simp: getSavedTemplate_completed_def)

text \<open>An uploaded manifest that is left by Next has the name shown, which is a valid one, and
  reads back.\<close>

theorem settings_name_is_valid:
  assumes "yaml_laws Y" and "yaml_read Y (p_manifest p) = Inr d" and "yaml_plain d"
    and "is_obj d" and "is_obj (fld ''metadata'' d)" and "settings_onNext Y s p = (Inr True, p')"
  shows "s_name s \<noteq> '''' \<and> \<not> validateWorkflowName (s_name s)
    \<and> map_option wf_name (lf_workflow p') = Some (s_name s)
    \<and> (if p_isUploaded p' then fetchWorkflowNameFromManifest Y (p_manifest p') = Inr (JStr (s_name s))
       else p_manifest p' = p_manifest p)"
proof -
  define d' where "d' = set_prop ''metadata'' (set_prop ''name'' (JStr (s_name s)) (fld ''metadata'' d)) d"
  have objs: "is_obj d'" using assms(4) by (simp add: d'_def)
  have "fld ''metadata'' d \<noteq> JUndef" using assms(5) by auto
  with assms(3) have "yaml_plain d'" by (simp add: d'_def yaml_plain_set_prop yaml_plain_fld)
  with assms(1) have reread: "yaml_read Y (yaml_show Y d') = Inr d'" by (simp add: yaml_laws_def)
  have ren: "renamed_manifest Y (s_name s) (p_manifest p) = Inr (yaml_show Y d')"
    using assms(2,4,5) by (simp add: renamed_manifest_def run_rename d'_def)
  have name: "js_path [''metadata'', ''name''] d' = Inr (JStr (s_name s))"
    using assms(4,5) by (simp add: d'_def js_get_obj)
  show ?thesis using assms(6) ren reread name
    by (auto simp: settings_onNext_def store_settings_def raise_alert_def fetchWorkflowNameFromManifest_def Let_def
        simp del: js_path.simps split: if_splits)
qed

text \<open>The sliders move the weights and nothing else.\<close>

definition slide :: "(int \<times> nat) list \<Rightarrow> score_page \<Rightarrow> score_page result" where
  "slide moves = foldR (\<lambda>(v, i). score_handleChange v i) moves"

lemma slide_one:
  assumes "score_handleChange v i s = Inr s'" and "0 \<le> v" and "v \<le> 10"
    and "list_all (\<lambda>w. weight w \<in> {0..10}) (score_weights s)"
  shows "map experimentName (score_weights s') = map experimentName (score_weights s)
    \<and> list_all (\<lambda>w. weight w \<in> {0..10}) (score_weights s')"
proof -
  have "map experimentName (score_weights s') = map experimentName (score_weights s)"
    using assms(1) by (auto simp: score_handleChange_def map_update list_update_same_conv split: if_splits)
  moreover have "list_all (\<lambda>w. weight w \<in> {0..10}) (score_weights s')"
    using assms by (auto simp: score_handleChange_def list_all_iff split: if_splits dest!: set_update_subset_insert [THEN subsetD])
  ultimately show ?thesis ..
qed

theorem sliders_keep_experiments:
  assumes "slide moves (score_load p score_init) = Inr s" and "lf_weights p = Some ws"
    and "list_all (\<lambda>w. weight w \<in> {0..10}) ws" and "list_all (\<lambda>(v, i). 0 \<le> v \<and> v \<le> 10) moves"
  shows "map_option (map experimentName) (lf_weights (snd (score_onNext s p))) = Some (map experimentName ws)
    \<and> list_all (\<lambda>w. weight w \<in> {0..10}) (score_weights s)"
proof -
  have "map experimentName (score_weights s) = map experimentName (score_weights s0)
      \<and> list_all (\<lambda>w. weight w \<in> {0..10}) (score_weights s)"
    if "slide moves s0 = Inr s" "list_all (\<lambda>w. weight w \<in> {0..10}) (score_weights s0)" for s0
    using that assms(4)
  proof (induction moves arbitrary: s0)
    case (Cons m moves)
    obtain v i where m: "m = (v, i)" by (cases m)
    from Cons.prems m obtain s1 where s1: "score_handleChange v i s0 = Inr s1" "slide moves s1 = Inr s"
      by (auto simp: slide_def rbind_Inr_iff)
    from slide_one [OF s1(1)] Cons.prems m have step: "map experimentName (score_weights s1) = map experimentName (score_weights s0)"
      "list_all (\<lambda>w. weight w \<in> {0..10}) (score_weights s1)" by auto
    from Cons.IH [OF s1(2) step(2)] Cons.prems(3) step(1) show ?case by simp
  qed (simp add: slide_def)
  from this [OF assms(1)] assms(2,3) show ?thesis by (simp add: score_load_def score_init_def score_onNext_def)
qed

end
