(* ===== verification/Verify.thy ===== *)
theory Verify
  imports WizardSettings BrowseSchedule
begin

text \<open>
  The last page of the wizard (\<open>views/CreateWorkflow/VerifyCommit/index.tsx\<close>), which names,
  checks and submits the scenario, and the page that edits a schedule
  (\<open>pages/EditSchedule/index.tsx\<close>). A submitted request is a value; \<open>json\<close> prints a document
  and \<open>parse\<close> is \<open>JSON.parse\<close>.
\<close>

section \<open>The page\<close>

record verify_page =
  v_name :: string
  v_description :: string
  v_crd :: "string option"
  subject :: string
  v_weights :: "experimentMap list"
  isNameError :: bool
  isSubjectError :: bool
  finishModalOpen :: bool
  errorModal :: bool

definition no_weights :: "experimentMap list" where
  "no_weights = [\<lparr>experimentName = JStr '''', weight = 0\<rparr>]"

definition verify_init :: verify_page where
  "verify_init = \<lparr>v_name = '''', v_description = '''', v_crd = Some '''', subject = '''', v_weights = no_weights,
     isNameError = False, isSubjectError = False, finishModalOpen = False, errorModal = False\<rparr>"

definition label_act :: "string \<Rightarrow> unit act" where
  "label_act subj = within ''metadata'' (act_seq (act_upd (js_del ''generateName''))
     (act_upd (js_put ''labels'' (jobj1 ''subject'' (JStr subj)))))"

definition verify_rename_act :: "string \<Rightarrow> unit act" where
  "verify_rename_act n = within ''metadata'' (act_seq (act_upd (js_del ''generateName''))
     (act_upd (js_put ''name'' (JStr n))))"

definition edit_manifest :: "yaml \<Rightarrow> unit act \<Rightarrow> string \<Rightarrow> string result" where
  "edit_manifest Y m manifest = rbind (yaml_read Y manifest) (\<lambda>d. rmap (yaml_show Y) (run_act m d))"

text \<open>An exception in the promise leaves the manifest as it was.\<close>

definition verify_load :: "yaml \<Rightarrow> verify_page \<times> portal \<Rightarrow> verify_page \<times> portal" where
  "verify_load Y = (\<lambda>(v, p).
     (let v1 = v\<lparr>v_weights := (case lf_weights p of Some ws \<Rightarrow> ws | None \<Rightarrow> v_weights v)\<rparr> in
      case lf_workflow p of None \<Rightarrow> (v1, p)
      | Some w \<Rightarrow>
         (let subj = wf_name w @ ''_'' @ p_namespace p in
          (v1\<lparr>v_name := wf_name w, v_description := wf_description w, v_crd := wf_CRDLink w, subject := subj\<rparr>,
           case edit_manifest Y (label_act subj) (p_manifest p) of Inr m \<Rightarrow> p\<lparr>p_manifest := m\<rparr> | Inl e \<Rightarrow> p))))"

text \<open>The name a validator sees; on anything but a text its methods throw.\<close>

definition shown_name :: "yaml \<Rightarrow> string \<Rightarrow> string result" where
  "shown_name Y manifest = rbind (fetchWorkflowNameFromManifest Y manifest)
     (\<lambda>n. case n of JStr s \<Rightarrow> Inr s | _ \<Rightarrow> Inl TypeErr)"

definition checkNameValidation :: "yaml \<Rightarrow> string \<Rightarrow> bool result" where
  "checkNameValidation Y manifest = rmap (\<lambda>n. validateTextEmpty n \<or> validateStartEmptySpacing n \<or> validateWorkflowName n)
     (shown_name Y manifest)"

definition checkSubjectValidation :: "string \<Rightarrow> bool" where
  "checkSubjectValidation s \<longleftrightarrow> validateStartEmptySpacing s \<or> validateSubject s"

definition verify_effect :: "yaml \<Rightarrow> verify_page \<times> portal \<Rightarrow> (verify_page \<times> portal) result" where
  "verify_effect Y = (\<lambda>(v, p). rmap (\<lambda>b.
     (v\<lparr>isNameError := b, isSubjectError := checkSubjectValidation (subject v)\<rparr>, p)) (checkNameValidation Y (p_manifest p)))"

text \<open>The link is kept for a predefined scenario only; without stored details the promise is rejected.\<close>

definition stored_rename :: "string \<Rightarrow> portal \<Rightarrow> portal" where
  "stored_rename n p = (case lf_workflow p of None \<Rightarrow> p
     | Some w \<Rightarrow>
        (if (case lf_option p of Some ch \<Rightarrow> radio_selected ch = ''A'' | None \<Rightarrow> False)
         then p\<lparr>lf_workflow := Some (w\<lparr>wf_name := n\<rparr>)\<rparr>
         else p\<lparr>lf_workflow := Some (w\<lparr>wf_name := n, wf_CRDLink := Some ''''\<rparr>)\<rparr>))"

definition handleNameChange :: "yaml \<Rightarrow> string \<Rightarrow> verify_page \<times> portal \<Rightarrow> verify_page \<times> portal" where
  "handleNameChange Y n = (\<lambda>(v, p). (v\<lparr>v_name := n\<rparr>,
     case edit_manifest Y (verify_rename_act n) (p_manifest p) of
       Inr m \<Rightarrow> stored_rename n (p\<lparr>p_manifest := m\<rparr>) | Inl e \<Rightarrow> p))"

definition handleDescChange :: "string \<Rightarrow> verify_page \<times> portal \<Rightarrow> verify_page \<times> portal" where
  "handleDescChange descr = (\<lambda>(v, p).
     (v\<lparr>v_description := descr\<rparr>,
      case lf_workflow p of None \<Rightarrow> p | Some w \<Rightarrow> p\<lparr>lf_workflow := Some (w\<lparr>wf_description := descr\<rparr>)\<rparr>))"

section \<open>Submitting\<close>

definition weightage_of :: "experimentMap \<Rightarrow> WeightMap" where
  "weightage_of w = \<lparr>wm_experiment = experimentName w, weightage = weight w\<rparr>"

definition handleMutation :: "yaml \<Rightarrow> (js \<Rightarrow> string) \<Rightarrow> string \<Rightarrow> verify_page \<Rightarrow> portal
    \<Rightarrow> CreateWorkFlowRequest option result" where
  "handleMutation Y json pid v p =
     (if v_name v = '''' then Inr None
      else rbind (yaml_read Y (p_manifest p)) (\<lambda>yml. rmap (\<lambda>n.
        Some \<lparr>req_workflowID = None, req_workflowName = n, req_workflowDescription = v_description v,
          req_isCustomWorkflow = p_isCustomWorkflow p, req_cronSyntax = p_cronSyntax p,
          req_workflowManifest = json (updateWorkflowNameLabel Y yml n), req_projectID = pid,
          req_clusterID = p_clusterID p, req_weightages = map weightage_of (v_weights v)\<rparr>)
        (shown_name Y (p_manifest p))))"

text \<open>\<open>onNext\<close> returns nothing, so the stepper stays; the alert is the store's.\<close>

definition verify_onNext :: "yaml \<Rightarrow> (js \<Rightarrow> string) \<Rightarrow> string \<Rightarrow> verify_page \<Rightarrow> portal
    \<Rightarrow> (CreateWorkFlowRequest option \<times> portal) result" where
  "verify_onNext Y json pid v p =
     (if p_isUploaded p then rmap (\<lambda>r. (r, p)) (handleMutation Y json pid v p)
      else if \<not> isNameError v \<and> \<not> isSubjectError v then rmap (\<lambda>r. (r, p)) (handleMutation Y json pid v p)
      else Inr (None, raise_alert True p))"

definition create_failed :: "verify_page \<Rightarrow> verify_page" where
  "create_failed v = v\<lparr>errorModal := True\<rparr>"

definition create_completed :: "verify_page \<Rightarrow> verify_page" where
  "create_completed v = v\<lparr>finishModalOpen := True\<rparr>"

definition handleErrorModalClose :: "verify_page \<Rightarrow> verify_page" where
  "handleErrorModalClose v = v\<lparr>errorModal := False\<rparr>"

text \<open>What the wizard stored is removed.\<close>

definition handleFinishModal :: "verify_page \<times> portal \<Rightarrow> verify_page \<times> portal" where
  "handleFinishModal = (\<lambda>(v, p). (v\<lparr>finishModalOpen := False\<rparr>,
     p\<lparr>p_manifest := '''', p_engineYAML := '''', lf_workflow := None, lf_option := None, lf_hasSet := False,
       lf_weights := None, lf_hub := None\<rparr>))"

section \<open>Editing a schedule\<close>

record edit_page =
  e_name :: string
  e_description :: string
  e_weights :: "experimentMap list"
  e_finishModal :: bool

definition edit_init :: edit_page where
  "edit_init = \<lparr>e_name = '''', e_description = '''', e_weights = no_weights, e_finishModal = False\<rparr>"

definition weight_from :: "WeightMap \<Rightarrow> experimentMap" where
  "weight_from w = \<lparr>experimentName = wm_experiment w, weight = weightage w\<rparr>"

text \<open>The effect that runs when the schedule arrives; until then the weights are empty.\<close>

definition edit_load :: "yaml \<Rightarrow> (string \<Rightarrow> js result) \<Rightarrow> int \<Rightarrow> ScheduledWorkflow option
    \<Rightarrow> edit_page \<times> portal \<Rightarrow> (edit_page \<times> portal) result" where
  "edit_load Y parse now wfDetails = (\<lambda>(e, p). case wfDetails of None \<Rightarrow> Inr (e\<lparr>e_weights := []\<rparr>, p)
     | Some s \<Rightarrow> rmap (\<lambda>d.
        (e\<lparr>e_name := workflowName s, e_description := workflowDescription s, e_weights := map weight_from (weightages s)\<rparr>,
         p\<lparr>lf_weights := Some (map weight_from (weightages s)), p_manifest := yaml_show Y d,
           p_clusterID := clusterID s, p_clusterName := clusterName s, p_cronSyntax := cronSyntax s,
           p_once := (if cronSyntax s = '''' then ''now'' else ''recurringSchedule''), p_recurring := '''',
           p_input := Some \<lparr>hour_interval = 0, day = 1, weekday = ''Monday'', time = Some now, date = Some now\<rparr>\<rparr>))
        (parse (workflowManifest s)))"

definition edit_handleMutation :: "yaml \<Rightarrow> (js \<Rightarrow> string) \<Rightarrow> string \<Rightarrow> ScheduledWorkflow option \<Rightarrow> edit_page \<Rightarrow> portal
    \<Rightarrow> CreateWorkFlowRequest option result" where
  "edit_handleMutation Y json pid wfDetails e p =
     (if e_name e \<noteq> '''' \<and> e_description e \<noteq> '''' \<and> e_weights e \<noteq> []
      then rbind (yaml_read Y (p_manifest p)) (\<lambda>yml. rmap (\<lambda>n.
        Some \<lparr>req_workflowID = map_option workflowID wfDetails, req_workflowName = n, req_workflowDescription = e_description e,
          req_isCustomWorkflow = False, req_cronSyntax = p_cronSyntax p, req_workflowManifest = json yml,
          req_projectID = pid, req_clusterID = p_clusterID p, req_weightages = map weightage_of (e_weights e)\<rparr>)
        (shown_name Y (p_manifest p)))
      else Inr None)"

definition edit_completed :: "edit_page \<Rightarrow> edit_page" where
  "edit_completed e = e\<lparr>e_finishModal := True\<rparr>"

definition edit_handleFinishModal :: "edit_page \<Rightarrow> edit_page" where
  "edit_handleFinishModal e = e\<lparr>e_finishModal := False\<rparr>"

section \<open>What is submitted\<close>

text \<open>The page from its mount on; the effect that checks the name follows every change of it.\<close>

datatype verify_event =
    v_renamed string
  | v_described string

fun verify_handle :: "yaml \<Rightarrow> verify_event \<Rightarrow> verify_page \<times> portal \<Rightarrow> (verify_page \<times> portal) result" where
  "verify_handle Y (v_renamed n) s = verify_effect Y (handleNameChange Y n s)"
| "verify_handle Y (v_described descr) s = verify_effect Y (handleDescChange descr s)"

definition verify_open :: "yaml \<Rightarrow> portal \<Rightarrow> (verify_page \<times> portal) result" where
  "verify_open Y p = rbind (verify_effect Y (verify_init, p)) (\<lambda>s. verify_effect Y (verify_load Y s))"

definition verify_session :: "yaml \<Rightarrow> verify_event list \<Rightarrow> portal \<Rightarrow> (verify_page \<times> portal) result" where
  "verify_session Y es p = rbind (verify_open Y p) (foldR (verify_handle Y) es)"

definition checked :: "yaml \<Rightarrow> verify_page \<times> portal \<Rightarrow> bool" where
  "checked Y = (\<lambda>(v, p). checkNameValidation Y (p_manifest p) = Inr (isNameError v)
     \<and> isSubjectError v = checkSubjectValidation (subject v))"

lemma effect_checks: "verify_effect Y s = Inr s' \<Longrightarrow> checked Y s' \<and> p_isUploaded (snd s') = p_isUploaded (snd s)
    \<and> p_clusterID (snd s') = p_clusterID (snd s)"
  by (cases s; cases "checkNameValidation Y (p_manifest (snd s))") (auto simp: verify_effect_def checked_def)

lemma load_keeps: "p_isUploaded (snd (verify_load Y s)) = p_isUploaded (snd s)"
    "p_clusterID (snd (verify_load Y s)) = p_clusterID (snd s)"
  by (auto simp: verify_load_def Let_def split: prod.splits option.splits sum.splits)

lemma rename_keeps: "p_isUploaded (snd (handleNameChange Y n s)) = p_isUploaded (snd s)"
    "p_clusterID (snd (handleNameChange Y n s)) = p_clusterID (snd s)"
  by (auto simp: handleNameChange_def stored_rename_def split: prod.splits option.splits sum.splits)

lemma descr_keeps: "p_isUploaded (snd (handleDescChange descr s)) = p_isUploaded (snd s)"
    "p_clusterID (snd (handleDescChange descr s)) = p_clusterID (snd s)"
  by (auto simp: handleDescChange_def split: prod.splits option.splits)

lemma handle_checks: "verify_handle Y e s = Inr s' \<Longrightarrow> checked Y s' \<and> p_isUploaded (snd s') = p_isUploaded (snd s)
    \<and> p_clusterID (snd s') = p_clusterID (snd s)"
  by (cases e) (auto dest: effect_checks simp: rename_keeps descr_keeps)

lemma open_checks: "verify_open Y p = Inr s' \<Longrightarrow> checked Y s' \<and> p_isUploaded (snd s') = p_isUploaded p
    \<and> p_clusterID (snd s') = p_clusterID p"
  by (auto simp: verify_open_def rbind_Inr_iff load_keeps dest!: effect_checks)

lemma handles_check:
  "foldR (verify_handle Y) es s = Inr s' \<Longrightarrow> checked Y s \<Longrightarrow> checked Y s' \<and> p_isUploaded (snd s') = p_isUploaded (snd s)
    \<and> p_clusterID (snd s') = p_clusterID (snd s)"
proof (induction es arbitrary: s)
  case (Cons e es)
  then obtain s1 where s1: "verify_handle Y e s = Inr s1" "foldR (verify_handle Y) es s1 = Inr s'"
    by (auto simp: rbind_Inr_iff)
  from handle_checks [OF s1(1)] Cons.IH [OF s1(2)] show ?case by simp
qed simp

lemma session_checks: "verify_session Y es p = Inr s' \<Longrightarrow> checked Y s' \<and> p_isUploaded (snd s') = p_isUploaded p
    \<and> p_clusterID (snd s') = p_clusterID p"
proof -
  assume s: "verify_session Y es p = Inr s'"
  then obtain s1 where "verify_open Y p = Inr s1" "foldR (verify_handle Y) es s1 = Inr s'"
    by (auto simp: verify_session_def rbind_Inr_iff)
  with open_checks [of Y p s1] handles_check [of Y es s1 s'] show ?thesis by simp
qed

lemma shown_name_fetched: "shown_name Y m = Inr n \<Longrightarrow> fetchWorkflowNameFromManifest Y m = Inr (JStr n)"
proof -
  assume s: "shown_name Y m = Inr n"
  then obtain a where a: "fetchWorkflowNameFromManifest Y m = Inr a" by (auto simp: shown_name_def rbind_Inr_iff)
  with s show ?thesis by (cases a) (simp_all add: shown_name_def)
qed

text \<open>
  C10. A scenario that was not uploaded is submitted only under the name in its
  manifest, which passes the validators, as does its subject, whatever was edited on the
  last page.
\<close>

theorem submitted_name_is_valid:
  assumes "verify_session Y es p = Inr (v, p')" and "\<not> p_isUploaded p"
    and "verify_onNext Y json pid v p' = Inr (Some r, p'')"
  shows "\<not> validateTextEmpty (req_workflowName r) \<and> \<not> validateStartEmptySpacing (req_workflowName r)
    \<and> \<not> validateWorkflowName (req_workflowName r) \<and> \<not> validateSubject (subject v)
    \<and> fetchWorkflowNameFromManifest Y (p_manifest p') = Inr (JStr (req_workflowName r))"
proof -
  from session_checks [OF assms(1)] have "checked Y (v, p')" "\<not> p_isUploaded p'" using assms(2) by simp_all
  with assms(3) have "checkNameValidation Y (p_manifest p') = Inr False" "\<not> checkSubjectValidation (subject v)"
    and m: "handleMutation Y json pid v p' = Inr (Some r)"
    by (auto simp: checked_def verify_onNext_def rmap_def rbind_Inr_iff split: if_splits)
  moreover from m have n: "shown_name Y (p_manifest p') = Inr (req_workflowName r)"
    by (auto simp: handleMutation_def rmap_def rbind_Inr_iff split: if_splits)
  moreover from n have "fetchWorkflowNameFromManifest Y (p_manifest p') = Inr (JStr (req_workflowName r))"
    by (rule shown_name_fetched)
  ultimately show ?thesis by (auto simp: checkNameValidation_def checkSubjectValidation_def)
qed

text \<open>An uploaded scenario is submitted whatever its name is.\<close>

lemma uploaded_is_not_checked:
  "p_isUploaded p \<Longrightarrow> verify_onNext Y json pid v p = rmap (\<lambda>r. (r, p)) (handleMutation Y json pid v p)"
  by (simp add: verify_onNext_def)

section \<open>Renaming and submitting\<close>

definition labelled :: "string \<Rightarrow> js \<Rightarrow> js" where
  "labelled subj d = set_prop ''metadata'' (set_prop ''labels'' (jobj1 ''subject'' (JStr subj))
     (del_prop ''generateName'' (fld ''metadata'' d))) d"

definition renamed :: "string \<Rightarrow> js \<Rightarrow> js" where
  "renamed n d = set_prop ''metadata'' (set_prop ''name'' (JStr n) (del_prop ''generateName'' (fld ''metadata'' d))) d"

text \<open>A document with a name, its labels, and everything outside its metadata that of another.\<close>

definition scenario_doc :: "js \<Rightarrow> string \<Rightarrow> js \<Rightarrow> bool" where
  "scenario_doc d n d' \<longleftrightarrow> yaml_plain d' \<and> is_obj d' \<and> is_obj (fld ''metadata'' d')
     \<and> fld ''name'' (fld ''metadata'' d') = JStr n \<and> (\<forall>k. k \<noteq> ''metadata'' \<longrightarrow> fld k d' = fld k d)"

definition has_subject :: "string \<Rightarrow> js \<Rightarrow> bool" where
  "has_subject subj d' \<longleftrightarrow> fld ''labels'' (fld ''metadata'' d') = jobj1 ''subject'' (JStr subj)"

lemma edit_metadata:
  assumes "yaml_read Y m = Inr d" and "is_obj d" and "is_obj (fld ''metadata'' d)"
  shows "edit_manifest Y (label_act subj) m = Inr (yaml_show Y (labelled subj d))"
    and "edit_manifest Y (verify_rename_act n) m = Inr (yaml_show Y (renamed n d))"
proof -
  have put: "runs (within ''metadata'' (act_seq (act_upd (js_del ''generateName'')) (act_upd (js_put k x)))) d
      (set_prop ''metadata'' (set_prop k x (del_prop ''generateName'' (fld ''metadata'' d))) d)" for k x
    using assms by (intro runs_within runs_seq [OF runs_del runs_put]) auto
  show "edit_manifest Y (label_act subj) m = Inr (yaml_show Y (labelled subj d))"
    using put [of "''labels''"] assms(1)
    by (simp add: edit_manifest_def label_act_def labelled_def runs_def run_act_def)
  show "edit_manifest Y (verify_rename_act n) m = Inr (yaml_show Y (renamed n d))"
    using put [of "''name''"] assms(1)
    by (simp add: edit_manifest_def verify_rename_act_def renamed_def runs_def run_act_def)
qed

lemma labelled_doc_ok: "scenario_doc d0 n d \<Longrightarrow> scenario_doc d0 n (labelled subj d) \<and> has_subject subj (labelled subj d)"
  by (auto simp: scenario_doc_def has_subject_def labelled_def intro!: yaml_plain_set_prop yaml_plain_del_prop yaml_plain_fld)

lemma renamed_doc_ok: "scenario_doc d0 n d \<Longrightarrow> has_subject subj d \<Longrightarrow>
    scenario_doc d0 n' (renamed n' d) \<and> has_subject subj (renamed n' d)"
  by (auto simp: scenario_doc_def has_subject_def renamed_def intro!: yaml_plain_set_prop yaml_plain_del_prop yaml_plain_fld)

definition submitting :: "yaml \<Rightarrow> js \<Rightarrow> string \<Rightarrow> WorkflowDetailsProps \<Rightarrow> portal \<Rightarrow> string \<Rightarrow> verify_page \<times> portal \<Rightarrow> bool" where
  "submitting Y d0 subj w p0 n = (\<lambda>(v, p). (\<exists>d. yaml_read Y (p_manifest p) = Inr d \<and> scenario_doc d0 n d \<and> has_subject subj d)
     \<and> subject v = subj \<and> v_description v = wf_description w \<and> Some (v_weights v) = lf_weights p0
     \<and> p_isUploaded p = p_isUploaded p0 \<and> p_isCustomWorkflow p = p_isCustomWorkflow p0
     \<and> p_cronSyntax p = p_cronSyntax p0 \<and> p_clusterID p = p_clusterID p0 \<and> lf_workflow p \<noteq> None)"

lemma shown_scenario:
  assumes "yaml_read Y m = Inr d" and "scenario_doc d0 n d"
  shows "shown_name Y m = Inr n"
  using assms by (simp add: shown_name_def fetchWorkflowNameFromManifest_def scenario_doc_def js_get_obj)

lemma effect_of_scenario:
  assumes "yaml_read Y (p_manifest p) = Inr d" and "scenario_doc d0 n d"
  shows "verify_effect Y (v, p) = Inr (v\<lparr>isNameError := validateTextEmpty n \<or> validateStartEmptySpacing n \<or> validateWorkflowName n,
      isSubjectError := checkSubjectValidation (subject v)\<rparr>, p)"
  using shown_scenario [OF assms] by (simp add: verify_effect_def checkNameValidation_def)

lemma rename_submitting:
  assumes "yaml_laws Y" and "submitting Y d0 subj w p0 m (v, p)"
  shows "\<exists>v' p'. verify_handle Y (v_renamed n) (v, p) = Inr (v', p') \<and> submitting Y d0 subj w p0 n (v', p') \<and> v_name v' = n"
proof -
  obtain d where d: "yaml_read Y (p_manifest p) = Inr d" "scenario_doc d0 m d" "has_subject subj d"
    using assms(2) by (auto simp: submitting_def)
  have "yaml_plain (renamed n d)" using renamed_doc_ok [OF d(2,3)] by (simp add: scenario_doc_def)
  with assms(1) have reread: "yaml_read Y (yaml_show Y (renamed n d)) = Inr (renamed n d)" by (simp add: yaml_laws_def)
  obtain wf where wf: "lf_workflow p = Some wf" using assms(2) by (auto simp: submitting_def)
  define p' where "p' = stored_rename n (p\<lparr>p_manifest := yaml_show Y (renamed n d)\<rparr>)"
  have p': "p_manifest p' = yaml_show Y (renamed n d)" "p_isUploaded p' = p_isUploaded p"
    "p_isCustomWorkflow p' = p_isCustomWorkflow p" "p_cronSyntax p' = p_cronSyntax p" "p_clusterID p' = p_clusterID p"
    "lf_workflow p' \<noteq> None"
    using wf by (simp_all add: p'_def stored_rename_def)
  have "handleNameChange Y n (v, p) = (v\<lparr>v_name := n\<rparr>, p')"
    using edit_metadata(2) [OF d(1)] d(2) by (simp add: handleNameChange_def scenario_doc_def p'_def)
  with effect_of_scenario [of Y p' "renamed n d" d0 n "v\<lparr>v_name := n\<rparr>"] p'(1) reread renamed_doc_ok [OF d(2,3), of n]
  show ?thesis using assms(2) p' by (auto simp: submitting_def)
qed

lemma open_submitting:
  assumes "yaml_laws Y" and "yaml_read Y (p_manifest p) = Inr d" and "scenario_doc d n d"
    and "lf_workflow p = Some w" and "lf_weights p \<noteq> None"
  shows "\<exists>v p'. verify_open Y p = Inr (v, p') \<and> submitting Y d (wf_name w @ ''_'' @ p_namespace p) w p n (v, p') \<and> v_name v = wf_name w"
proof -
  let ?subj = "wf_name w @ ''_'' @ p_namespace p"
  obtain ws where ws: "lf_weights p = Some ws" using assms(5) by auto
  have "yaml_plain (labelled ?subj d)" using labelled_doc_ok [OF assms(3)] by (simp add: scenario_doc_def)
  with assms(1) have reread: "yaml_read Y (yaml_show Y (labelled ?subj d)) = Inr (labelled ?subj d)" by (simp add: yaml_laws_def)
  define p' where "p' = p\<lparr>p_manifest := yaml_show Y (labelled ?subj d)\<rparr>"
  obtain v1 where first: "verify_effect Y (verify_init, p) = Inr (v1, p)"
    using effect_of_scenario [OF assms(2,3)] by blast
  have "verify_load Y (v1, p) = (v1\<lparr>v_weights := ws, v_name := wf_name w, v_description := wf_description w,
      v_crd := wf_CRDLink w, subject := ?subj\<rparr>, p')" (is "_ = (?v, _)")
    using edit_metadata(1) [OF assms(2), of ?subj] assms(3,4) ws
    by (simp add: verify_load_def scenario_doc_def p'_def Let_def)
  moreover have "p_manifest p' = yaml_show Y (labelled ?subj d)" by (simp add: p'_def)
  ultimately show ?thesis
    using first effect_of_scenario [of Y p' "labelled ?subj d" d n ?v] labelled_doc_ok [OF assms(3), of ?subj] reread ws assms(4)
    by (auto simp: verify_open_def submitting_def p'_def)
qed

lemma renames_submitting:
  assumes "yaml_laws Y"
  shows "submitting Y d0 subj w p0 m s \<Longrightarrow>
    \<exists>s'. foldR (verify_handle Y) (map v_renamed ns) s = Inr s' \<and> submitting Y d0 subj w p0 (last (m # ns)) s'
      \<and> v_name (fst s') = (if ns = [] then v_name (fst s) else last ns)"
proof (induction ns arbitrary: m s)
  case (Cons n ns)
  obtain v p where s: "s = (v, p)" by (cases s)
  from rename_submitting [OF assms Cons.prems [unfolded s], of n] obtain s1 where
    s1: "verify_handle Y (v_renamed n) s = Inr s1" "submitting Y d0 subj w p0 n s1" "v_name (fst s1) = n"
    using s by auto
  from Cons.IH [OF s1(2)] obtain s' where "foldR (verify_handle Y) (map v_renamed ns) s1 = Inr s'"
    "submitting Y d0 subj w p0 (last (n # ns)) s'" "v_name (fst s') = (if ns = [] then v_name (fst s1) else last ns)"
    by blast
  with s1 show ?case by (intro exI [of _ s']) simp
qed simp

lemma session_submitting:
  assumes "yaml_laws Y" and "yaml_read Y (p_manifest p) = Inr d" and "scenario_doc d n d"
    and "lf_workflow p = Some w" and "lf_weights p = Some ws" and "wf_name w \<noteq> ''''" and "last (n # ns) \<noteq> ''''"
  shows "\<exists>v p'. verify_session Y (map v_renamed ns) p = Inr (v, p')
    \<and> submitting Y d (wf_name w @ ''_'' @ p_namespace p) w p (last (n # ns)) (v, p') \<and> v_name v \<noteq> ''''"
proof -
  let ?subj = "wf_name w @ ''_'' @ p_namespace p"
  obtain s0 where s0: "verify_open Y p = Inr s0" "submitting Y d ?subj w p n s0" "v_name (fst s0) = wf_name w"
    using open_submitting [OF assms(1-4)] assms(5) by auto
  obtain v p' where s: "foldR (verify_handle Y) (map v_renamed ns) s0 = Inr (v, p')"
    "submitting Y d ?subj w p (last (n # ns)) (v, p')" "v_name v = (if ns = [] then wf_name w else last ns)"
    using renames_submitting [OF assms(1) s0(2), of ns] s0(3) by auto
  moreover have "v_name v \<noteq> ''''" using s(3) assms(6,7) by (auto split: if_splits)
  ultimately show ?thesis using s0(1) by (auto simp: verify_session_def)
qed

definition name_error :: "string \<Rightarrow> bool" where
  "name_error n \<longleftrightarrow> validateTextEmpty n \<or> validateStartEmptySpacing n \<or> validateWorkflowName n"

lemma submitting_sends:
  assumes "submitting Y d subj w p n (v, p')" and "checked Y (v, p')" and "v_name v \<noteq> ''''"
    and "lf_weights p = Some ws" and "\<not> checkSubjectValidation subj" and "\<not> name_error n"
  shows "\<exists>d' r. verify_onNext Y json pid v p' = Inr (Some r, p') \<and> scenario_doc d n d' \<and> has_subject subj d'
    \<and> r = \<lparr>req_workflowID = None, req_workflowName = n, req_workflowDescription = wf_description w,
        req_isCustomWorkflow = p_isCustomWorkflow p, req_cronSyntax = p_cronSyntax p,
        req_workflowManifest = json (updateWorkflowNameLabel Y d' n), req_projectID = pid,
        req_clusterID = p_clusterID p, req_weightages = map weightage_of ws\<rparr>"
proof -
  obtain d' where d': "yaml_read Y (p_manifest p') = Inr d'" "scenario_doc d n d'" "has_subject subj d'"
    using assms(1) by (auto simp: submitting_def)
  have n: "shown_name Y (p_manifest p') = Inr n" by (rule shown_scenario [OF d'(1,2)])
  have "isNameError v = False" "isSubjectError v = False"
    using assms(1,2,5,6) n by (auto simp: checked_def checkNameValidation_def submitting_def name_error_def)
  then have "verify_onNext Y json pid v p' = rmap (\<lambda>r. (r, p')) (handleMutation Y json pid v p')"
    by (simp add: verify_onNext_def)
  with d' n assms(1,3,4) show ?thesis by (auto simp: handleMutation_def submitting_def)
qed


section \<open>Editing without changes\<close>

lemma weights_there_and_back [simp]: "map weightage_of (map weight_from ws) = ws"
  by (simp add: weightage_of_def weight_from_def comp_def map_idI)

text \<open>
  C13. Loading a schedule into the edit page and submitting it unchanged sends the same
  manifest, weights, cron syntax and delegate, marked as not custom, or nothing when it
  has no description or no weights.
\<close>

theorem unchanged_schedule_is_resubmitted:
  assumes "yaml_laws Y" and "workflowManifest s = json d" and "parse (json d) = Inr d" and "scenario_doc d n d"
    and "workflowName s \<noteq> ''''"
  shows "\<exists>e p'. edit_load Y parse now (Some s) (edit_init, p) = Inr (e, p')
    \<and> edit_handleMutation Y json pid (Some s) e p' = Inr
        (if workflowDescription s = '''' \<or> weightages s = [] then None
         else Some \<lparr>req_workflowID = Some (workflowID s), req_workflowName = n,
           req_workflowDescription = workflowDescription s, req_isCustomWorkflow = False,
           req_cronSyntax = cronSyntax s, req_workflowManifest = workflowManifest s, req_projectID = pid,
           req_clusterID = clusterID s, req_weightages = weightages s\<rparr>)"
proof -
  have "yaml_read Y (yaml_show Y d) = Inr d" using assms(1,4) by (simp add: yaml_laws_def scenario_doc_def)
  moreover have "shown_name Y (yaml_show Y d) = Inr n" by (rule shown_scenario [OF calculation assms(4)])
  moreover obtain e p' where l: "edit_load Y parse now (Some s) (edit_init, p) = Inr (e, p')"
    using assms(2,3) by (simp add: edit_load_def)
  moreover have "p_manifest p' = yaml_show Y d" "p_cronSyntax p' = cronSyntax s" "p_clusterID p' = clusterID s"
    "e_name e = workflowName s" "e_description e = workflowDescription s" "e_weights e = map weight_from (weightages s)"
    using l assms(2,3) by (auto simp: edit_load_def)
  ultimately show ?thesis using assms(2,5) by (simp add: edit_handleMutation_def del: map_map)
qed

text \<open>A schedule without a description is never submitted, and a custom one becomes predefined.\<close>

lemma undescribed_schedule_is_not_saved: "e_description e = '''' \<Longrightarrow> edit_handleMutation Y json pid s e p = Inr None"
  by (simp add: edit_handleMutation_def)

lemma edited_schedule_is_not_custom:
  "edit_handleMutation Y json pid s e p = Inr (Some r) \<Longrightarrow> \<not> req_isCustomWorkflow r"
  by (auto simp: edit_handleMutation_def rmap_def rbind_Inr_iff split: if_splits)

end
