(* ===== verification/Wizard.thy ===== *)
theory Wizard
  imports Verify
begin

text \<open>
  The wizard itself (\<open>components/WorkflowStepper/index.tsx\<close>, \<open>components/LitmusStepper\<close>): its
  steps, the buttons, and how the pages run one after another over the state they share. A
  page is mounted when the step shows another page than before. The tuning and the schedule
  page have theories of their own; here an event carries what they store and whether their
  \<open>onNext\<close> lets the wizard go on.
\<close>

section \<open>Steps and buttons\<close>

datatype wizard_page =
    ChooseAWorkflowAgent
  | ChooseWorkflow
  | WorkflowSettings
  | TuneWorkflow
  | ReliabilityScore
  | ScheduleWorkflow
  | VerifyCommit

definition getWizardStepContent :: "bool \<Rightarrow> nat \<Rightarrow> wizard_page" where
  "getWizardStepContent isWorkflowUploaded stepIndex =
     (if isWorkflowUploaded then
        (if stepIndex = 0 then ChooseAWorkflowAgent
         else if stepIndex = 1 then ChooseWorkflow
         else if stepIndex = 2 then WorkflowSettings
         else if stepIndex = 3 then ScheduleWorkflow
         else if stepIndex = 4 then VerifyCommit
         else ChooseAWorkflowAgent)
      else
        (if stepIndex = 0 then ChooseAWorkflowAgent
         else if stepIndex = 1 then ChooseWorkflow
         else if stepIndex = 2 then WorkflowSettings
         else if stepIndex = 3 then TuneWorkflow
         else if stepIndex = 4 then ReliabilityScore
         else if stepIndex = 5 then ScheduleWorkflow
         else if stepIndex = 6 then VerifyCommit
         else ChooseAWorkflowAgent))"

definition wizard_steps :: "bool \<Rightarrow> string list" where
  "wizard_steps isWorkflowUploaded = (if isWorkflowUploaded
     then [''Choose Chaos Delegate'', ''Choose a Chaos Scenario'', ''Chaos Scenario Settings'', ''Schedule'',
        ''Verify and Commit'']
     else [''Choose Chaos Delegate'', ''Choose a Chaos Scenario'', ''Chaos Scenario Settings'', ''Tune Chaos Scenario'',
        ''Reliability score'', ''Schedule'', ''Verify and Commit''])"

text \<open>The key of the translated message.\<close>

definition getAlertMessage :: "string \<Rightarrow> nat \<Rightarrow> string" where
  "getAlertMessage role stepNumber =
     (if stepNumber = 0 then
        (if role = ''Viewer'' then ''workflowStepper.step1.errorSnackbarViewer'' else ''workflowStepper.step1.errorSnackbar'')
      else if stepNumber = 1 then ''workflowStepper.step2.errorSnackbar''
      else if stepNumber = 2 then ''workflowStepper.step3.errorSnackbar''
      else if stepNumber = 3 then ''workflowStepper.step4.errorSnackbar''
      else if stepNumber = 5 then ''workflowStepper.step5.errorSnackbar''
      else if stepNumber = 6 then ''workflowStepper.step6.errorSnackbar''
      else '''')"

record buttons =
  back_button :: bool
  next_text :: string
  next_disabled :: bool
  back_warns :: bool

definition ControlButton :: "bool \<Rightarrow> bool \<Rightarrow> nat \<Rightarrow> buttons" where
  "ControlButton loading up step =
     (if step = 0 then \<lparr>back_button = False, next_text = ''Next'', next_disabled = False, back_warns = False\<rparr>
      else if step = length (wizard_steps up) - 1
      then \<lparr>back_button = False, next_text = ''Finish'', next_disabled = loading, back_warns = False\<rparr>
      else \<lparr>back_button = True, next_text = ''Next'', next_disabled = False, back_warns = (step = 2)\<rparr>)"

definition stepperActions :: "bool \<Rightarrow> bool \<Rightarrow> nat \<Rightarrow> buttons" where
  "stepperActions loader up step =
     \<lparr>back_button = step > 0,
      next_text = (if step \<noteq> length (wizard_steps up) - 1 then ''Next'' else ''Finish''),
      next_disabled = (step = length (wizard_steps up) - 1 \<and> loader),
      back_warns = (step = 2)\<rparr>"

section \<open>Pages in turn\<close>

datatype page_state =
    at_agent agent_page
  | at_choose choose_page upload_page
  | at_settings settings_page
  | at_tune
  | at_score score_page
  | at_schedule
  | at_verify verify_page

fun page_of :: "page_state \<Rightarrow> wizard_page" where
  "page_of (at_agent a) = ChooseAWorkflowAgent"
| "page_of (at_choose c u) = ChooseWorkflow"
| "page_of (at_settings s) = WorkflowSettings"
| "page_of at_tune = TuneWorkflow"
| "page_of (at_score s) = ReliabilityScore"
| "page_of at_schedule = ScheduleWorkflow"
| "page_of (at_verify v) = VerifyCommit"

record setting =
  wc_yaml :: yaml
  wc_json :: "js \<Rightarrow> string"
  wc_msg :: "js_error \<Rightarrow> string"
  wc_role :: string
  wc_project :: string
  wc_endpoint :: string
  wc_now :: int

fun mount :: "setting \<Rightarrow> wizard_page \<Rightarrow> portal \<Rightarrow> (page_state \<times> portal) result" where
  "mount C ChooseAWorkflowAgent p = Inr (at_agent agent_init, p)"
| "mount C ChooseWorkflow p = Inr (at_choose choose_init upload_init, choose_mount p)"
| "mount C WorkflowSettings p = (case settings_mount (wc_now C) p of ((s, p'), fs) \<Rightarrow> Inr (at_settings s, p'))"
| "mount C TuneWorkflow p = Inr (at_tune, p)"
| "mount C ReliabilityScore p = Inr (at_score (score_load p score_init), p)"
| "mount C ScheduleWorkflow p = Inr (at_schedule, p)"
| "mount C VerifyCommit p = rmap (\<lambda>(v, p'). (at_verify v, p')) (verify_open (wc_yaml C) p)"

datatype choose_event =
    radio string
  | predefined string
  | template "string option" "(string \<times> string \<times> bool) list" string
  | hub string
  | hub_of_predefined string
  | dropped "(string \<times> string) list"
  | picked_file "(string \<times> string) option"
  | retry

fun choose_handle :: "setting \<Rightarrow> choose_event \<Rightarrow> choose_page \<Rightarrow> upload_page \<Rightarrow> portal \<Rightarrow> page_state \<times> portal" where
  "choose_handle C (radio v) c u p = (case choose_handleChange v (c, p) of (c', p') \<Rightarrow> (at_choose c' u, p'))"
| "choose_handle C (predefined i) c u p = (case pick_predefined i (c, p) of (c', p') \<Rightarrow> (at_choose c' u, p'))"
| "choose_handle C (template search ts i) c u p = (case pick_template search ts i (c, p) of (c', p') \<Rightarrow> (at_choose c' u, p'))"
| "choose_handle C (hub h) c u p = (at_choose c u, pick_hub h p)"
| "choose_handle C (hub_of_predefined h) c u p = (at_choose c u, predefined_hub h p)"
| "choose_handle C (dropped fs) c u p = (case handleDrag (wc_yaml C) (wc_msg C) fs (u, p) of (u', p') \<Rightarrow> (at_choose c u', p'))"
| "choose_handle C (picked_file f) c u p = (case handleFileUpload (wc_yaml C) (wc_msg C) f (u, p) of (u', p') \<Rightarrow> (at_choose c u', p'))"
| "choose_handle C retry c u p = (at_choose c (upload_retry u), p)"

datatype settings_event =
    details_came string string
  | template_came string string string
  | name_typed string
  | description_typed string
  | registry_ticked bool

fun settings_handle :: "setting \<Rightarrow> settings_event \<Rightarrow> settings_page \<times> portal \<Rightarrow> settings_page \<times> portal" where
  "settings_handle C (details_came n descr) s =
     (getWorkflowDetails_completed (wc_endpoint C) (wc_project C) n descr (fst s), snd s)"
| "settings_handle C (template_came n descr m) s = getSavedTemplate_completed (wc_yaml C) n descr m s"
| "settings_handle C (name_typed v) s = nameChangeHandle v s"
| "settings_handle C (description_typed v) s = descriptionChangeHandle v s"
| "settings_handle C (registry_ticked b) s = (setUpdateRegistry b (fst s), snd s)"

datatype page_event =
    on_agent agent_event
  | on_choose choose_event
  | on_settings settings_event
  | tune_stores string "experimentMap list option"
  | slider int nat
  | schedule_stores string string string string
  | on_verify verify_event

definition on_page :: "setting \<Rightarrow> page_event \<Rightarrow> page_state \<Rightarrow> portal \<Rightarrow> (page_state \<times> portal) result" where
  "on_page C e ps p = (case (ps, e) of
       (at_agent a, on_agent ev) \<Rightarrow> (case agent_handle ev (a, p) of (a', p') \<Rightarrow> Inr (at_agent a', p'))
     | (at_choose c u, on_choose ev) \<Rightarrow> Inr (choose_handle C ev c u p)
     | (at_settings s, on_settings ev) \<Rightarrow> (case settings_handle C ev (s, p) of (s', p') \<Rightarrow> Inr (at_settings s', p'))
     | (at_tune, tune_stores m ws) \<Rightarrow> Inr (at_tune, p\<lparr>p_manifest := m, lf_weights := ws\<rparr>)
     | (at_score s, slider v i) \<Rightarrow> Inr (at_score (case score_handleChange v i s of Inr s' \<Rightarrow> s' | Inl e \<Rightarrow> s), p)
     | (at_schedule, schedule_stores m cron once recurring) \<Rightarrow>
         Inr (at_schedule, p\<lparr>p_manifest := m, p_cronSyntax := cron, p_once := once, p_recurring := recurring\<rparr>)
     | (at_verify v, on_verify ev) \<Rightarrow> rmap (\<lambda>(v', p'). (at_verify v', p')) (verify_handle (wc_yaml C) ev (v, p))
     | _ \<Rightarrow> Inr (ps, p))"

text \<open>\<open>onNext\<close> of the mounted page: whether it lets the wizard go on, and the request it sends.
  An exception in it lets nothing happen.\<close>

fun onNext :: "setting \<Rightarrow> bool \<Rightarrow> page_state \<Rightarrow> portal \<Rightarrow> bool \<times> portal \<times> CreateWorkFlowRequest list" where
  "onNext C ok (at_agent a) p = (case agent_onNext (wc_role C) a p of (b, p') \<Rightarrow> (b, p', []))"
| "onNext C ok (at_choose c u) p = (case choose_onNext c p of (b, p') \<Rightarrow> (b, p', []))"
| "onNext C ok (at_settings s) p = (case settings_onNext (wc_yaml C) s p of
     (Inr b, p') \<Rightarrow> (b, p', []) | (Inl e, p') \<Rightarrow> (False, p', []))"
| "onNext C ok at_tune p = (ok, p, [])"
| "onNext C ok (at_score s) p = (case score_onNext s p of (b, p') \<Rightarrow> (b, p', []))"
| "onNext C ok at_schedule p = (ok, if ok then p else raise_alert True p, [])"
| "onNext C ok (at_verify v) p = (case verify_onNext (wc_yaml C) (wc_json C) (wc_project C) v p of
     Inr (r, p') \<Rightarrow> (False, p', case r of None \<Rightarrow> [] | Some q \<Rightarrow> [q]) | Inl e \<Rightarrow> (False, p, []))"

record wizard =
  activeStep :: nat
  w_page :: page_state
  w_portal :: portal
  w_requests :: "CreateWorkFlowRequest list"

definition wizard_init :: "portal \<Rightarrow> wizard" where
  "wizard_init p = \<lparr>activeStep = 0, w_page = at_agent agent_init, w_portal = p, w_requests = []\<rparr>"

abbreviation uploaded :: "wizard \<Rightarrow> bool" where
  "uploaded w \<equiv> p_isUploaded (w_portal w)"

definition render :: "setting \<Rightarrow> wizard \<Rightarrow> wizard result" where
  "render C w = (let pg = getWizardStepContent (uploaded w) (activeStep w) in
     if page_of (w_page w) = pg then Inr w
     else rmap (\<lambda>(ps, p). w\<lparr>w_page := ps, w_portal := p\<rparr>) (mount C pg (w_portal w)))"

datatype wizard_event =
    Page page_event
  | Next bool
  | Back
  | Edit_schedule
  | Edit_weights

text \<open>The two edit buttons are on the last page, the one of the weights for a scenario that
  was not uploaded.\<close>

fun wizard_do :: "setting \<Rightarrow> wizard_event \<Rightarrow> wizard \<Rightarrow> wizard result" where
  "wizard_do C (Page e) w = rbind (on_page C e (w_page w) (w_portal w)) (\<lambda>(ps, p).
     render C (w\<lparr>w_page := ps, w_portal := p\<rparr>))"
| "wizard_do C (Next ok) w = (case onNext C ok (w_page w) (w_portal w) of (go, p, rs) \<Rightarrow>
     render C (w\<lparr>activeStep := (if go then activeStep w + 1 else activeStep w), w_portal := p,
       w_requests := w_requests w @ rs\<rparr>))"
| "wizard_do C Back w = (if activeStep w = 0 then Inr w else render C (w\<lparr>activeStep := activeStep w - 1\<rparr>))"
| "wizard_do C Edit_schedule w = (if page_of (w_page w) = VerifyCommit then render C (w\<lparr>activeStep := 5\<rparr>) else Inr w)"
| "wizard_do C Edit_weights w = (if page_of (w_page w) = VerifyCommit \<and> \<not> uploaded w
     then render C (w\<lparr>activeStep := 4\<rparr>) else Inr w)"

section \<open>What the pages leave alone\<close>

lemma settings_mount_keeps:
  "settings_mount now p = ((s, p'), fs) \<Longrightarrow> p_isUploaded p' = p_isUploaded p \<and> p_clusterID p' = p_clusterID p"
  by (auto simp: settings_mount_def checkForStoredData_def initializeWithDefault_def raise_alert_def Let_def
      split: option.splits if_splits)

lemma mount_page: "mount C pg p = Inr (ps, p') \<Longrightarrow> page_of ps = pg"
  by (cases pg) (auto split: prod.splits simp: rmap_def rbind_Inr_iff)

lemma mount_keeps:
  "mount C pg p = Inr (ps, p') \<Longrightarrow> p_clusterID p' = p_clusterID p \<and>
     p_isUploaded p' = (if pg = ChooseWorkflow then False else p_isUploaded p)"
  by (cases pg) (auto split: prod.splits simp: rmap_def rbind_Inr_iff choose_mount_def
      dest: settings_mount_keeps open_checks)

lemma read_file_keeps: "p_clusterID (snd (read_file Y msg t s)) = p_clusterID (snd s)"
  by (cases s) (auto simp: read_file_def split: sum.splits)

lemma drag_keeps: "p_clusterID (snd (handleDrag Y msg fs s)) = p_clusterID (snd s)"
proof -
  have "p_clusterID (snd (fold (\<lambda>(n, text) (u, p). read_file Y msg text (u\<lparr>fileName := Some n\<rparr>, p)) xs s))
      = p_clusterID (snd s)" for xs s
  proof (induction xs arbitrary: s)
    case (Cons x xs)
    then show ?case by (cases x; cases s) (simp add: read_file_keeps)
  qed simp
  then show ?thesis by (cases s) (simp add: handleDrag_def saveToLocalForage_def store_selection_def)
qed

lemma upload_keeps: "p_clusterID (snd (handleFileUpload Y msg f s)) = p_clusterID (snd s)"
  by (cases s) (auto simp: handleFileUpload_def saveToLocalForage_def store_selection_def read_file_keeps split: option.splits)

lemma choose_handle_keeps:
  "choose_handle C e c u p = (ps, p') \<Longrightarrow> page_of ps = ChooseWorkflow \<and> p_clusterID p' = p_clusterID p"
proof (cases e)
  case (dropped fs)
  then show "choose_handle C e c u p = (ps, p') \<Longrightarrow> page_of ps = ChooseWorkflow \<and> p_clusterID p' = p_clusterID p"
    using drag_keeps [of "wc_yaml C" "wc_msg C" fs "(u, p)"] by (auto split: prod.splits)
next
  case (picked_file f)
  then show "choose_handle C e c u p = (ps, p') \<Longrightarrow> page_of ps = ChooseWorkflow \<and> p_clusterID p' = p_clusterID p"
    using upload_keeps [of "wc_yaml C" "wc_msg C" f "(u, p)"] by (auto split: prod.splits)
qed (auto simp: choose_handleChange_def pick_predefined_def pick_template_def pick_hub_def predefined_hub_def
    store_selection_def split: prod.splits option.splits)

lemma settings_handle_keeps: "settings_handle C e (s, p) = (s', p') \<Longrightarrow> p_clusterID p' = p_clusterID p"
  by (cases e) (auto simp: getSavedTemplate_completed_def nameChangeHandle_def descriptionChangeHandle_def)

lemma agent_fold_uploaded:
  "p_isUploaded (fold (\<lambda>c p. if cl_isActive c then reset_details now p else p) cs p) = p_isUploaded p"
  "p_isUploaded (fold (take_cluster pid v) cs p) = p_isUploaded p"
  by (induction cs arbitrary: p) (simp_all add: reset_details_def take_cluster_def)

lemma agent_handle_uploaded: "agent_handle e (a, p) = (a', p') \<Longrightarrow> p_isUploaded p' = p_isUploaded p"
  by (cases e) (auto simp: getCluster_completed_def agent_select_def agent_fold_uploaded split: if_splits)

text \<open>Only the pages of the scenario and its settings say that a scenario is uploaded, and only
  the delegate's page changes the delegate.\<close>

lemma on_page_keeps:
  assumes "on_page C e ps p = Inr (ps', p')"
  shows "page_of ps' = page_of ps"
    and "page_of ps \<notin> {ChooseWorkflow, WorkflowSettings} \<Longrightarrow> p_isUploaded p' = p_isUploaded p"
    and "page_of ps \<noteq> ChooseAWorkflowAgent \<Longrightarrow> p_clusterID p' = p_clusterID p"
proof -
  have "page_of ps' = page_of ps
      \<and> (page_of ps \<notin> {ChooseWorkflow, WorkflowSettings} \<longrightarrow> p_isUploaded p' = p_isUploaded p)
      \<and> (page_of ps \<noteq> ChooseAWorkflowAgent \<longrightarrow> p_clusterID p' = p_clusterID p)"
  proof (cases ps)
    case (at_agent a)
    then show ?thesis using assms
      by (cases e) (auto simp: on_page_def dest: agent_handle_uploaded split: prod.splits)
  next
    case (at_choose c u)
    then show ?thesis using assms choose_handle_keeps by (cases e) (auto simp: on_page_def)
  next
    case (at_settings s)
    then show ?thesis using assms
      by (cases e) (auto simp: on_page_def dest: settings_handle_keeps split: prod.splits)
  next
    case (at_verify v)
    then show ?thesis using assms
      by (cases e) (auto simp: on_page_def rmap_def rbind_Inr_iff dest!: handle_checks split: prod.splits)
  qed (use assms in \<open>cases e; auto simp: on_page_def\<close>)+
  then show "page_of ps' = page_of ps"
    and "page_of ps \<notin> {ChooseWorkflow, WorkflowSettings} \<Longrightarrow> p_isUploaded p' = p_isUploaded p"
    and "page_of ps \<noteq> ChooseAWorkflowAgent \<Longrightarrow> p_clusterID p' = p_clusterID p" by auto
qed

lemma choose_onNext_keeps: "choose_onNext c p = (b, p') \<Longrightarrow> p_isUploaded p' = p_isUploaded p \<and> p_clusterID p' = p_clusterID p"
  by (auto simp: choose_onNext_def raise_alert_def split: if_splits)

lemma agent_onNext_keeps:
  "agent_onNext role a p = (b, p') \<Longrightarrow> p_isUploaded p' = p_isUploaded p \<and> p_clusterID p' = p_clusterID p
     \<and> (p_clusterID p' = '''' \<longrightarrow> \<not> b)"
  by (auto simp: agent_onNext_def raise_alert_def split: if_splits)

lemma settings_onNext_keeps:
  "settings_onNext Y s p = (b, p') \<Longrightarrow> p_isUploaded p' = p_isUploaded p \<and> p_clusterID p' = p_clusterID p"
  by (auto simp: settings_onNext_def store_settings_def raise_alert_def Let_def split: sum.splits if_splits)

lemma verify_onNext_keeps:
  "verify_onNext Y json pid v p = Inr (r, p') \<Longrightarrow> p_isUploaded p' = p_isUploaded p \<and> p_clusterID p' = p_clusterID p
     \<and> (\<forall>q. r = Some q \<longrightarrow> req_clusterID q = p_clusterID p)"
  by (auto simp: verify_onNext_def handleMutation_def raise_alert_def rmap_def rbind_Inr_iff split: if_splits)

lemma onNext_keeps:
  assumes "onNext C ok ps p = (go, p', rs)"
  shows "p_isUploaded p' = p_isUploaded p" and "p_clusterID p' = p_clusterID p"
    and "page_of ps = VerifyCommit \<Longrightarrow> \<not> go"
    and "page_of ps = ChooseAWorkflowAgent \<Longrightarrow> p_clusterID p = '''' \<Longrightarrow> \<not> go"
    and "list_all (\<lambda>q. req_clusterID q = p_clusterID p) rs"
  using assms
  by (cases ps; auto simp: score_onNext_def raise_alert_def split: prod.splits sum.splits option.splits if_splits
      dest!: choose_onNext_keeps agent_onNext_keeps settings_onNext_keeps verify_onNext_keeps)+

section \<open>The steps stay in range\<close>

lemmas content_simps = getWizardStepContent_def wizard_steps_def

text \<open>The step shown belongs to the step counted, which runs out of the list only for an
  uploaded scenario, where the delegate's page is shown.\<close>

definition in_steps :: "wizard \<Rightarrow> bool" where
  "in_steps w \<longleftrightarrow> activeStep w < length (wizard_steps (uploaded w))
     \<or> uploaded w \<and> page_of (w_page w) = ChooseAWorkflowAgent"

definition wizard_ok :: "wizard \<Rightarrow> bool" where
  "wizard_ok w \<longleftrightarrow> page_of (w_page w) = getWizardStepContent (uploaded w) (activeStep w) \<and> in_steps w"

lemma render_ok:
  assumes "render C w = Inr w'" and "activeStep w < length (wizard_steps (uploaded w)) \<or> uploaded w"
  shows "wizard_ok w'" and "activeStep w' = activeStep w" and "p_clusterID (w_portal w') = p_clusterID (w_portal w)"
    and "w_requests w' = w_requests w"
proof -
  let ?pg = "getWizardStepContent (uploaded w) (activeStep w)"
  have "wizard_ok w' \<and> activeStep w' = activeStep w \<and> p_clusterID (w_portal w') = p_clusterID (w_portal w)
      \<and> w_requests w' = w_requests w"
  proof (cases "page_of (w_page w) = ?pg")
    case True
    then show ?thesis using assms by (auto simp: render_def wizard_ok_def in_steps_def content_simps split: if_splits)
  next
    case False
    then obtain ps p where m: "mount C ?pg (w_portal w) = Inr (ps, p)" and w': "w' = w\<lparr>w_page := ps, w_portal := p\<rparr>"
      using assms(1) by (auto simp: render_def rmap_def rbind_Inr_iff Let_def)
    show ?thesis using mount_page [OF m] mount_keeps [OF m] assms(2) w'
      by (auto simp: wizard_ok_def in_steps_def content_simps split: if_splits)
  qed
  then show "wizard_ok w'" and "activeStep w' = activeStep w" and "p_clusterID (w_portal w') = p_clusterID (w_portal w)"
    and "w_requests w' = w_requests w" by auto
qed

lemma page_event_range:
  assumes "wizard_ok w" and "on_page C e (w_page w) (w_portal w) = Inr (ps, p)"
  shows "activeStep w < length (wizard_steps (p_isUploaded p)) \<or> p_isUploaded p"
proof (cases "page_of (w_page w) \<in> {ChooseWorkflow, WorkflowSettings}")
  case True
  then have "activeStep w < 3" using assms(1) by (auto simp: wizard_ok_def content_simps split: if_splits)
  then show ?thesis by (simp add: content_simps)
next
  case False
  then have "p_isUploaded p = uploaded w" using on_page_keeps(2) [OF assms(2)] by blast
  then show ?thesis using assms(1) by (auto simp: wizard_ok_def in_steps_def)
qed

lemma next_range:
  assumes "wizard_ok w" and "onNext C ok (w_page w) (w_portal w) = (go, p, rs)"
  shows "(if go then activeStep w + 1 else activeStep w) < length (wizard_steps (p_isUploaded p)) \<or> p_isUploaded p"
proof (cases go)
  case True
  then have "page_of (w_page w) \<noteq> VerifyCommit" using onNext_keeps(3) [OF assms(2)] by blast
  then show ?thesis using assms(1) onNext_keeps(1) [OF assms(2)] True
    by (auto simp: wizard_ok_def in_steps_def content_simps split: if_splits)
next
  case False
  then show ?thesis using assms(1) onNext_keeps(1) [OF assms(2)] by (auto simp: wizard_ok_def in_steps_def)
qed

lemma wizard_do_ok:
  assumes "wizard_ok w" and "wizard_do C e w = Inr w'"
  shows "wizard_ok w'"
proof (cases e)
  case (Page pe)
  then obtain ps p where pe: "on_page C pe (w_page w) (w_portal w) = Inr (ps, p)"
    and r: "render C (w\<lparr>w_page := ps, w_portal := p\<rparr>) = Inr w'"
    using assms(2) by (auto simp: rbind_Inr_iff)
  from render_ok(1) [OF r] page_event_range [OF assms(1) pe] show ?thesis by simp
next
  case (Next ok)
  obtain go p rs where n: "onNext C ok (w_page w) (w_portal w) = (go, p, rs)" by (metis prod_cases3)
  with Next assms(2) have r: "render C (w\<lparr>activeStep := (if go then activeStep w + 1 else activeStep w), w_portal := p,
      w_requests := w_requests w @ rs\<rparr>) = Inr w'" by simp
  from render_ok(1) [OF r] next_range [OF assms(1) n] show ?thesis by simp
next
  case Back
  show ?thesis
  proof (cases "activeStep w = 0")
    case True
    then show ?thesis using assms Back by simp
  next
    case False
    with Back assms(2) have r: "render C (w\<lparr>activeStep := activeStep w - 1\<rparr>) = Inr w'" by simp
    have "activeStep w - 1 < length (wizard_steps (uploaded w)) \<or> uploaded w"
      using assms(1) by (auto simp: wizard_ok_def in_steps_def)
    with render_ok(1) [OF r] show ?thesis by simp
  qed
next
  case Edit_schedule
  then show ?thesis using assms render_ok(1) [of C "w\<lparr>activeStep := 5\<rparr>" w']
    by (auto simp: content_simps split: if_splits)
next
  case Edit_weights
  then show ?thesis using assms render_ok(1) [of C "w\<lparr>activeStep := 4\<rparr>" w']
    by (auto simp: content_simps split: if_splits)
qed

lemma wizard_init_ok: "wizard_ok (wizard_init p)"
  by (simp add: wizard_ok_def in_steps_def wizard_init_def content_simps)

text \<open>
  C11. In every run of the wizard the page shown is the one of the counted step, and the
  step leaves the list only for an uploaded scenario, where the delegate's page is
  shown.
\<close>

theorem wizard_shows_its_step:
  assumes "foldR (wizard_do C) es (wizard_init p) = Inr w"
  shows "page_of (w_page w) = getWizardStepContent (uploaded w) (activeStep w)
    \<and> (activeStep w < length (wizard_steps (uploaded w)) \<or> uploaded w \<and> page_of (w_page w) = ChooseAWorkflowAgent)"
proof -
  have "wizard_ok w" if "foldR (wizard_do C) es w0 = Inr w" "wizard_ok w0" for w0
    using that
  proof (induction es arbitrary: w0)
    case (Cons e es)
    then obtain w1 where "wizard_do C e w0 = Inr w1" "foldR (wizard_do C) es w1 = Inr w" by (auto simp: rbind_Inr_iff)
    with Cons wizard_do_ok show ?case by blast
  qed simp
  with assms wizard_init_ok have "wizard_ok w" by blast
  then show ?thesis unfolding wizard_ok_def in_steps_def .
qed

section \<open>No scenario without a delegate\<close>

text \<open>Editing the schedule of an uploaded scenario is the one way off the steps.\<close>

fun stays_inside :: "setting \<Rightarrow> wizard_event list \<Rightarrow> wizard \<Rightarrow> bool" where
  "stays_inside C [] w = True"
| "stays_inside C (e # es) w = (\<not> (e = Edit_schedule \<and> uploaded w)
     \<and> (case wizard_do C e w of Inl x \<Rightarrow> True | Inr w' \<Rightarrow> stays_inside C es w'))"

definition delegate_ok :: "wizard \<Rightarrow> bool" where
  "delegate_ok w \<longleftrightarrow> wizard_ok w \<and> activeStep w < length (wizard_steps (uploaded w))
     \<and> (activeStep w = 0 \<or> p_clusterID (w_portal w) \<noteq> '''')
     \<and> list_all (\<lambda>q. req_clusterID q \<noteq> '''') (w_requests w)"

lemma inside_agent: "wizard_ok w \<Longrightarrow> activeStep w < length (wizard_steps (uploaded w)) \<Longrightarrow>
    page_of (w_page w) = ChooseAWorkflowAgent \<longleftrightarrow> activeStep w = 0"
  by (auto simp: wizard_ok_def content_simps split: if_splits)

lemma render_inside:
  assumes "render C w = Inr w'" and "activeStep w < length (wizard_steps (uploaded w))"
  shows "activeStep w' < length (wizard_steps (uploaded w'))"
proof (cases "page_of (w_page w) = getWizardStepContent (uploaded w) (activeStep w)")
  case False
  then obtain ps p where m: "mount C (getWizardStepContent (uploaded w) (activeStep w)) (w_portal w) = Inr (ps, p)"
    and w': "w' = w\<lparr>w_page := ps, w_portal := p\<rparr>"
    using assms(1) by (auto simp: render_def rmap_def rbind_Inr_iff Let_def)
  with mount_keeps [OF m] assms(2) show ?thesis by (auto simp: content_simps split: if_splits)
qed (use assms in \<open>auto simp: render_def\<close>)

lemma delegate_ok_render:
  assumes "render C w = Inr w'" and "activeStep w < length (wizard_steps (uploaded w))"
    and "activeStep w = 0 \<or> p_clusterID (w_portal w) \<noteq> ''''"
    and "list_all (\<lambda>q. req_clusterID q \<noteq> '''') (w_requests w)"
  shows "delegate_ok w'"
  using render_ok [OF assms(1)] render_inside [OF assms(1,2)] assms(2-4) by (simp add: delegate_ok_def)

lemma page_event_inside:
  assumes "wizard_ok w" and "activeStep w < length (wizard_steps (uploaded w))"
    and "on_page C e (w_page w) (w_portal w) = Inr (ps, p)"
  shows "activeStep w < length (wizard_steps (p_isUploaded p))"
proof (cases "page_of (w_page w) \<in> {ChooseWorkflow, WorkflowSettings}")
  case True
  then have "activeStep w < 3" using assms(1) by (auto simp: wizard_ok_def content_simps split: if_splits)
  then show ?thesis by (simp add: content_simps)
next
  case False
  with on_page_keeps(2) [OF assms(3)] assms(2) show ?thesis by simp
qed

lemma delegate_ok_do:
  assumes w: "delegate_ok w" and "wizard_do C e w = Inr w'" and "\<not> (e = Edit_schedule \<and> uploaded w)"
  shows "delegate_ok w'"
proof -
  have ok: "wizard_ok w" "activeStep w < length (wizard_steps (uploaded w))"
    "activeStep w = 0 \<or> p_clusterID (w_portal w) \<noteq> ''''" "list_all (\<lambda>q. req_clusterID q \<noteq> '''') (w_requests w)"
    using w by (simp_all add: delegate_ok_def)
  note zero = inside_agent [OF ok(1,2)]
  show ?thesis
  proof (cases e)
    case (Page pe)
    then obtain ps p where pe: "on_page C pe (w_page w) (w_portal w) = Inr (ps, p)"
      and r: "render C (w\<lparr>w_page := ps, w_portal := p\<rparr>) = Inr w'"
      using assms(2) by (auto simp: rbind_Inr_iff)
    show ?thesis
      by (rule delegate_ok_render [OF r])
         (use page_event_inside [OF ok(1,2) pe] on_page_keeps(3) [OF pe] zero ok in auto)
  next
    case (Next ok')
    obtain go p rs where n: "onNext C ok' (w_page w) (w_portal w) = (go, p, rs)" by (metis prod_cases3)
    with Next assms(2) have r: "render C (w\<lparr>activeStep := (if go then activeStep w + 1 else activeStep w), w_portal := p,
        w_requests := w_requests w @ rs\<rparr>) = Inr w'" by simp
    note k = onNext_keeps [OF n]
    have "go \<Longrightarrow> activeStep w + 1 < length (wizard_steps (uploaded w))"
      using k(3) ok(1,2) by (auto simp: wizard_ok_def content_simps split: if_splits)
    moreover have "rs = [] \<or> p_clusterID (w_portal w) \<noteq> ''''"
      using n zero ok(3) by (cases "w_page w") (auto split: prod.splits)
    ultimately show ?thesis
      by (intro delegate_ok_render [OF r]) (use k zero ok in \<open>auto simp: list_all_iff\<close>)
  next
    case Back
    then show ?thesis using assms(2) w ok delegate_ok_render [of C "w\<lparr>activeStep := activeStep w - 1\<rparr>" w']
      by (auto split: if_splits)
  next
    case Edit_schedule
    then have "\<not> uploaded w" using assms(3) by simp
    then show ?thesis using assms(2) w ok zero delegate_ok_render [of C "w\<lparr>activeStep := 5\<rparr>" w'] Edit_schedule
      by (auto simp: content_simps split: if_splits)
  next
    case Edit_weights
    then show ?thesis using assms(2) w ok zero delegate_ok_render [of C "w\<lparr>activeStep := 4\<rparr>" w']
      by (auto simp: content_simps split: if_splits)
  qed
qed

text \<open>
  C2. In every run of the wizard that does not edit the schedule of an uploaded scenario
  on the last page, the step stays in the list, every step after the first has a chosen
  delegate, and every submitted request names one.
\<close>

theorem requests_name_a_delegate:
  assumes "foldR (wizard_do C) es (wizard_init p) = Inr w" and "stays_inside C es (wizard_init p)"
  shows "activeStep w < length (wizard_steps (uploaded w))
    \<and> (activeStep w = 0 \<or> p_clusterID (w_portal w) \<noteq> '''') \<and> list_all (\<lambda>q. req_clusterID q \<noteq> '''') (w_requests w)"
proof -
  have "delegate_ok w" if "foldR (wizard_do C) es w0 = Inr w" "stays_inside C es w0" "delegate_ok w0" for w0
    using that
  proof (induction es arbitrary: w0)
    case (Cons e es)
    then obtain w1 where w1: "wizard_do C e w0 = Inr w1" "foldR (wizard_do C) es w1 = Inr w" by (auto simp: rbind_Inr_iff)
    with Cons.prems delegate_ok_do [OF Cons.prems(3) w1(1)] Cons.IH [OF w1(2)] show ?case by simp
  qed simp
  moreover have "delegate_ok (wizard_init p)"
    by (simp add: delegate_ok_def wizard_init_ok) (simp add: wizard_init_def content_simps)
  ultimately show ?thesis using assms by (auto simp: delegate_ok_def)
qed

text \<open>Off the steps the delegates are listed again, which clears the chosen one; Back leads to
  the last page as it was, without a delegate.\<close>

theorem editing_an_uploaded_schedule_loses_the_delegate:
  assumes "uploaded w" and "activeStep w = 4" and "page_of (w_page w) = VerifyCommit" and "list_ex cl_isActive cs"
    and "foldR (wizard_do C) [Edit_schedule, Page (on_agent (clusters_came now cs)), Back] w = Inr w'"
  shows "activeStep w' = 4 \<and> page_of (w_page w') = VerifyCommit \<and> p_clusterID (w_portal w') = ''''"
proof -
  define w1 where "w1 = w\<lparr>activeStep := 5, w_page := at_agent agent_init\<rparr>"
  have 1: "wizard_do C Edit_schedule w = Inr w1"
    using assms(1-3) by (simp add: render_def content_simps w1_def)
  have "cs \<noteq> []" using assms(4) by auto
  define p2 where "p2 = fold (\<lambda>c p. if cl_isActive c then reset_details now p else p) cs (w_portal w)"
  define w2 where "w2 = w1\<lparr>w_page := at_agent (agent_init\<lparr>clusterData := filter cl_isActive cs\<rparr>), w_portal := p2\<rparr>"
  have p2: "p_clusterID p2 = ''''" "p_isUploaded p2"
    using fold_reset assms(4) agent_fold_uploaded(1) [of now cs "w_portal w"] assms(1) by (auto simp: p2_def)
  have 2: "wizard_do C (Page (on_agent (clusters_came now cs))) w1 = Inr w2"
    using \<open>cs \<noteq> []\<close> p2 assms(1) by (simp add: on_page_def getCluster_completed_def render_def content_simps w1_def w2_def p2_def)
  have 3: "render C (w2\<lparr>activeStep := 4\<rparr>) = Inr w'"
  proof -
    have "rbind (wizard_do C Back w2) (foldR (wizard_do C) []) = Inr w'"
      using assms(5) 1 2 by (simp del: wizard_do.simps)
    then show ?thesis by (auto simp: rbind_Inr_iff w1_def w2_def)
  qed
  have "activeStep w' = 4" "wizard_ok w'" "p_clusterID (w_portal w') = ''''"
    using render_ok [OF 3] p2 by (simp_all add: w2_def)
  moreover have "uploaded w'"
    using 3 p2 by (auto simp: render_def content_simps w2_def rmap_def rbind_Inr_iff dest!: open_checks split: if_splits)
  ultimately show ?thesis by (simp add: wizard_ok_def content_simps)
qed

text \<open>The message for a schedule that is not complete speaks of the tuning when the scenario
  was uploaded, and there is none for the last page.\<close>

lemma uploaded_alerts_are_shifted:
  "getWizardStepContent True 3 = ScheduleWorkflow" "getAlertMessage role 3 = ''workflowStepper.step4.errorSnackbar''"
  "getWizardStepContent False 5 = ScheduleWorkflow" "getAlertMessage role 5 = ''workflowStepper.step5.errorSnackbar''"
  "getWizardStepContent True 4 = VerifyCommit" "getAlertMessage role 4 = ''''"
  by (simp_all add: getWizardStepContent_def getAlertMessage_def)

end
