(* ===== verification/WizardWitness.thy ===== *)
theory WizardWitness
  imports Wizard ManifestWitness
begin

text \<open>The theorems about the wizard's pages, applied to a small scenario.\<close>

definition self_agent :: Cluster where
  "self_agent = \<lparr>cl_name = ''Self'', cl_isActive = True, cl_id = ''c1'', cl_namespace = ''litmus''\<rparr>"

definition lost_agent :: Cluster where
  "lost_agent = \<lparr>cl_name = ''Lost'', cl_isActive = False, cl_id = ''c2'', cl_namespace = ''other''\<rparr>"

definition sample_details :: WorkflowDetailsProps where
  "sample_details = \<lparr>wf_name = ''custom-chaos'', wf_description = ''chaos'', wf_icon = litmus_icon, wf_CRDLink = Some ''''\<rparr>"

definition sample_weights :: "experimentMap list" where
  "sample_weights = [\<lparr>experimentName = JStr ''pod-delete'', weight = 10\<rparr>, \<lparr>experimentName = JStr ''pod-cpu-hog'', weight = 10\<rparr>]"

definition sample_portal :: "bool \<Rightarrow> portal" where
  "sample_portal up = \<lparr>p_manifest = enc sample_workflow, p_engineYAML = '''', p_isCustomWorkflow = True, p_isUploaded = up,
     p_alert = False, p_clusterID = ''c1'', p_clusterName = ''Self'', p_namespace = ''litmus'', p_projectID = ''p'',
     p_cronSyntax = '''', p_once = ''now'', p_recurring = '''', p_input = None, p_registry = public_registry,
     lf_workflow = Some sample_details, lf_option = Some \<lparr>radio_selected = ''C'', radio_id = None\<rparr>,
     lf_weights = Some sample_weights, lf_hasSet = True, lf_hub = None\<rparr>"

definition chosen_portal :: "portal \<Rightarrow> portal" where
  "chosen_portal p = (reset_details 0 p)\<lparr>p_clusterID := ''c1'', p_projectID := ''p'', p_clusterName := ''Self'', p_namespace := ''litmus''\<rparr>"

definition chosen_agent :: agent_page where
  "chosen_agent = \<lparr>clusterData = [self_agent], agent_search = None, currentlySelectedAgent = ''c1''\<rparr>"

lemma chosen_uploaded [simp]: "p_isUploaded (reset_details now p) = p_isUploaded p" "p_isUploaded (chosen_portal p) = p_isUploaded p"
  by (simp_all add: chosen_portal_def reset_details_def)

lemma agents_came:
  "getCluster_completed 0 [self_agent, lost_agent] (agent_init, p) = (agent_init\<lparr>clusterData := [self_agent]\<rparr>, reset_details 0 p)"
  by (simp add: getCluster_completed_def self_agent_def lost_agent_def)

lemma agent_taken:
  "agent_select ''p'' ''c1'' (agent_init\<lparr>clusterData := [self_agent]\<rparr>, reset_details 0 p) = (chosen_agent, chosen_portal p)"
  by (simp add: agent_select_def take_cluster_def self_agent_def agent_init_def chosen_agent_def chosen_portal_def)

lemma agent_passes: "agent_onNext ''Owner'' chosen_agent (chosen_portal p) = (True, chosen_portal p)"
  by (simp add: agent_onNext_def chosen_agent_def chosen_portal_def)

lemma delegate_is_active_and_listed_witness:
  "fold agent_handle [clusters_came 0 [self_agent, lost_agent], agent_chosen ''p'' ''c1''] (agent_init, sample_portal False) = (chosen_agent, chosen_portal (sample_portal False))
    \<and> list_ex (\<lambda>c. cl_isActive c \<and> cl_id c = ''c1'' \<and> cl_name c = ''Self'' \<and> cl_namespace c = ''litmus'') (clusterData chosen_agent)"
proof -
  let ?es = "[clusters_came 0 [self_agent, lost_agent], agent_chosen ''p'' ''c1'']"
  have run: "(chosen_agent, chosen_portal (sample_portal False)) = fold agent_handle ?es (agent_init, sample_portal False)"
    by (simp add: agents_came agent_taken)
  have "fst (agent_onNext ''Owner'' chosen_agent (chosen_portal (sample_portal False)))" by (simp add: agent_passes)
  from delegate_is_active_and_listed [OF run this] run show ?thesis by (simp add: chosen_portal_def)
qed

lemma plain_laws: "yaml_laws plain_yaml"
  by (simp add: yaml_laws_def)

lemma sample_scenario: "scenario_doc sample_workflow ''custom-chaos'' sample_workflow"
proof -
  have "yaml_plain sample_workflow" by code_simp
  moreover have "is_obj sample_workflow" "is_obj (fld ''metadata'' sample_workflow)"
    "fld ''name'' (fld ''metadata'' sample_workflow) = JStr ''custom-chaos''" by code_simp+
  ultimately show ?thesis by (simp add: scenario_doc_def)
qed

definition sample_settings :: settings_page where
  "sample_settings = \<lparr>s_name = ''own-chaos'', s_description = ''x'', s_icon = litmus_icon, s_CRDLink = Some '''',
     displayRegChange = False, updateRegistry = True, s_hubName = ''''\<rparr>"

lemma settings_name_is_valid_witness:
  "\<exists>p'. settings_onNext plain_yaml sample_settings (sample_portal True) = (Inr True, p')
    \<and> fetchWorkflowNameFromManifest plain_yaml (p_manifest p') = Inr (JStr ''own-chaos'')"
proof -
  let ?p = "snd (settings_onNext plain_yaml sample_settings (sample_portal True))"
  have ren: "renamed_manifest plain_yaml ''own-chaos'' (p_manifest (sample_portal True)) = Inr (enc (set_prop ''metadata''
      (set_prop ''name'' (JStr ''own-chaos'') (fld ''metadata'' sample_workflow)) sample_workflow))"
    using sample_scenario by (simp add: renamed_manifest_def sample_portal_def run_rename scenario_doc_def)
  have "\<not> validateWorkflowName ''own-chaos''" by code_simp
  with ren have 1: "settings_onNext plain_yaml sample_settings (sample_portal True) = (Inr True, ?p)"
    and up: "p_isUploaded ?p"
    by (simp_all add: settings_onNext_def sample_settings_def store_settings_def sample_portal_def Let_def)
  have "yaml_read plain_yaml (p_manifest (sample_portal True)) = Inr sample_workflow" by (simp add: sample_portal_def)
  from settings_name_is_valid [OF plain_laws this _ _ _ 1] sample_scenario up 1 show ?thesis
    by (auto simp: scenario_doc_def sample_settings_def)
qed

lemma sliders_keep_experiments_witness:
  "\<exists>s. slide [(3, 0), (7, 1), (4, 0)] (score_load (sample_portal False) score_init) = Inr s
    \<and> map weight (score_weights s) = [4, 7] \<and> list_all (\<lambda>w. weight w \<in> {0..10}) (score_weights s)
    \<and> map_option (map experimentName) (lf_weights (snd (score_onNext s (sample_portal False))))
      = Some [JStr ''pod-delete'', JStr ''pod-cpu-hog'']"
proof -
  obtain s where s: "slide [(3, 0), (7, 1), (4, 0)] (score_load (sample_portal False) score_init) = Inr s"
    "map weight (score_weights s) = [4, 7]"
    by (simp add: slide_def score_load_def score_init_def score_handleChange_def sample_portal_def sample_weights_def)
  have "lf_weights (sample_portal False) = Some sample_weights" by (simp add: sample_portal_def)
  from sliders_keep_experiments [OF s(1) this] s show ?thesis by (auto simp: sample_weights_def)
qed

lemma good_names: "\<not> checkSubjectValidation ''custom-chaos_litmus''"
  "\<not> name_error ''new-name''"
  by code_simp+


lemma submitted_name_is_valid_witness:
  "\<exists>v p' r p''. verify_session plain_yaml (map v_renamed [''x'', ''new-name'']) (sample_portal False) = Inr (v, p')
    \<and> verify_onNext plain_yaml enc ''p'' v p' = Inr (Some r, p'')
    \<and> \<not> validateWorkflowName (req_workflowName r) \<and> \<not> validateSubject (subject v)"
proof -
  let ?p = "sample_portal False" and ?ns = "[''x'', ''new-name'']"
  have p: "yaml_read plain_yaml (p_manifest ?p) = Inr sample_workflow" "lf_workflow ?p = Some sample_details"
    "lf_weights ?p = Some sample_weights" "wf_name sample_details \<noteq> ''''"
    by (simp_all add: sample_portal_def sample_details_def)
  from session_submitting [OF plain_laws p(1) sample_scenario p(2-4), of ?ns] obtain v p' where
    s: "verify_session plain_yaml (map v_renamed ?ns) ?p = Inr (v, p')" "v_name v \<noteq> ''''"
    "submitting plain_yaml sample_workflow ''custom-chaos_litmus'' sample_details ?p ''new-name'' (v, p')"
    by (auto simp: sample_details_def sample_portal_def)
  from submitting_sends [OF s(3) _ s(2) p(3) good_names] session_checks [OF s(1)]
  obtain r where r: "verify_onNext plain_yaml enc ''p'' v p' = Inr (Some r, p')" by blast
  have "\<not> p_isUploaded ?p" by (simp add: sample_portal_def)
  from submitted_name_is_valid [OF s(1) this r] s(1) r show ?thesis by blast
qed

definition sample_saved :: "string \<Rightarrow> ScheduledWorkflow" where
  "sample_saved descr = \<lparr>workflowID = ''1'', workflowManifest = enc sample_workflow, cronSyntax = '''',
     clusterName = ''self'', workflowName = ''custom-chaos'', workflowDescription = descr,
     weightages = [\<lparr>wm_experiment = JStr ''pod-delete'', weightage = 10\<rparr>], isCustomWorkflow = True,
     projectID = ''p'', clusterID = ''c1''\<rparr>"

lemma unchanged_schedule_is_resubmitted_witness:
  "\<exists>e p' r. edit_load plain_yaml (yaml_read plain_yaml) 0 (Some (sample_saved ''chaos'')) (edit_init, sample_portal False) = Inr (e, p')
    \<and> edit_handleMutation plain_yaml enc ''p'' (Some (sample_saved ''chaos'')) e p' = Inr (Some r)
    \<and> req_workflowManifest r = enc sample_workflow \<and> req_weightages r = weightages (sample_saved ''chaos'')"
proof -
  have s: "workflowManifest (sample_saved ''chaos'') = enc sample_workflow" "workflowName (sample_saved ''chaos'') \<noteq> ''''"
    by (simp_all add: sample_saved_def)
  show ?thesis
    using unchanged_schedule_is_resubmitted [where parse = "yaml_read plain_yaml" and json = enc, OF plain_laws s(1) plain_read_enc sample_scenario s(2)]
    by (fastforce simp: sample_saved_def)
qed

section \<open>The wizard\<close>

definition sample_setting :: setting where
  "sample_setting = \<lparr>wc_yaml = plain_yaml, wc_json = enc, wc_msg = (\<lambda>e. ''error''), wc_role = ''Owner'', wc_project = ''p'',
     wc_endpoint = '''', wc_now = 0\<rparr>"

definition agents_shown :: "portal \<Rightarrow> wizard" where
  "agents_shown p = \<lparr>activeStep = 0, w_page = at_agent (agent_init\<lparr>clusterData := [self_agent]\<rparr>), w_portal = reset_details 0 p,
     w_requests = []\<rparr>"

definition agent_picked :: "portal \<Rightarrow> wizard" where
  "agent_picked p = \<lparr>activeStep = 0, w_page = at_agent chosen_agent, w_portal = chosen_portal p, w_requests = []\<rparr>"

definition at_choice :: "portal \<Rightarrow> wizard" where
  "at_choice p = \<lparr>activeStep = 1, w_page = at_choose choose_init upload_init, w_portal = choose_mount (chosen_portal p), w_requests = []\<rparr>"

lemma first_steps:
  "wizard_do sample_setting (Page (on_agent (clusters_came 0 [self_agent, lost_agent]))) (wizard_init p) = Inr (agents_shown p)"
  "wizard_do sample_setting (Page (on_agent (agent_chosen ''p'' ''c1''))) (agents_shown p) = Inr (agent_picked p)"
  "wizard_do sample_setting (Next True) (agent_picked p) = Inr (at_choice p)"
  by (simp_all add: on_page_def agents_came agent_taken agent_passes sample_setting_def render_def content_simps
      wizard_init_def agents_shown_def agent_picked_def at_choice_def)

definition first_events :: "wizard_event list" where
  "first_events = [Page (on_agent (clusters_came 0 [self_agent, lost_agent])), Page (on_agent (agent_chosen ''p'' ''c1'')), Next True]"

lemma first_run: "foldR (wizard_do sample_setting) first_events (wizard_init p) = Inr (at_choice p)"
  by (simp add: first_events_def first_steps del: wizard_do.simps)

lemma wizard_shows_its_step_witness:
  "foldR (wizard_do sample_setting) first_events (wizard_init (sample_portal True)) = Inr (at_choice (sample_portal True))
    \<and> page_of (w_page (at_choice (sample_portal True))) = getWizardStepContent False 1"
  using wizard_shows_its_step [OF first_run, of "sample_portal True"] first_run
  by (simp add: at_choice_def choose_mount_def)

lemma requests_name_a_delegate_witness:
  "foldR (wizard_do sample_setting) first_events (wizard_init (sample_portal True)) = Inr (at_choice (sample_portal True))
    \<and> p_clusterID (w_portal (at_choice (sample_portal True))) \<noteq> ''''"
proof -
  have "stays_inside sample_setting first_events (wizard_init (sample_portal True))"
    by (simp add: first_events_def first_steps del: wizard_do.simps)
  from requests_name_a_delegate [OF first_run this] first_run show ?thesis by (simp add: at_choice_def)
qed

definition verifying_upload :: wizard where
  "verifying_upload = \<lparr>activeStep = 4, w_page = at_verify verify_init, w_portal = sample_portal True, w_requests = []\<rparr>"

lemma editing_an_uploaded_schedule_loses_the_delegate_witness:
  "\<exists>w. foldR (wizard_do sample_setting) [Edit_schedule, Page (on_agent (clusters_came 0 [self_agent, lost_agent])), Back] verifying_upload = Inr w
    \<and> p_clusterID (w_portal verifying_upload) = ''c1'' \<and> p_clusterID (w_portal w) = '''' \<and> activeStep w = 4"
proof -
  let ?p = "reset_details 0 (sample_portal True)"
  obtain v p' where o: "verify_open plain_yaml ?p = Inr (v, p')"
    using open_submitting [OF plain_laws _ sample_scenario, of ?p sample_details]
    by (auto simp: sample_portal_def reset_details_def)
  have up: "p_isUploaded (sample_portal True)" "p_isUploaded ?p" by (simp_all add: sample_portal_def reset_details_def)
  have "\<exists>w. foldR (wizard_do sample_setting) [Edit_schedule, Page (on_agent (clusters_came 0 [self_agent, lost_agent])), Back] verifying_upload = Inr w"
    using up o by (simp add: verifying_upload_def render_def content_simps on_page_def agents_came sample_setting_def)
  then obtain w where w: "foldR (wizard_do sample_setting) [Edit_schedule, Page (on_agent (clusters_came 0 [self_agent, lost_agent])), Back] verifying_upload = Inr w" ..
  have "uploaded verifying_upload" "activeStep verifying_upload = 4" "page_of (w_page verifying_upload) = VerifyCommit"
    using up by (simp_all add: verifying_upload_def)
  moreover have "list_ex cl_isActive [self_agent, lost_agent]" by (simp add: self_agent_def)
  ultimately have "activeStep w = 4 \<and> p_clusterID (w_portal w) = ''''"
    using editing_an_uploaded_schedule_loses_the_delegate [OF _ _ _ _ w] by blast
  moreover have "p_clusterID (w_portal verifying_upload) = ''c1''" by (simp add: verifying_upload_def sample_portal_def)
  ultimately show ?thesis using w by blast
qed

end
