(* ===== verification/Probe.thy ===== *)
theory Probe
  imports Validation ManifestQuery
begin

text \<open>
  Probes of an experiment: the list of \<open>TuneWorkflowSteps/SteadyState.tsx\<close>, the drawer
  \<open>AddProbe/index.tsx\<close> and its fields \<open>AddProbe/ProbeDetails.tsx\<close>. The drawer is kept
  mounted and shares the array of probes with the list, so one record holds the state of
  the three. A probe is a parsed YAML value; two probes count as one object when they
  are equal.
\<close>

section \<open>The fields of a probe\<close>

text \<open>\<open>put_over k x v\<close> is \<open>{...v, k: x}\<close>, \<open>with_key k f v\<close> is \<open>{...v, k: f(v[k])}\<close>.\<close>

definition put_over :: "string \<Rightarrow> js \<Rightarrow> js \<Rightarrow> js" where
  "put_over k x v = JObj (AList.update k x (js_spread v))"

definition with_key :: "string \<Rightarrow> (js \<Rightarrow> js result) \<Rightarrow> js \<Rightarrow> js result" where
  "with_key k f v = rbind (js_get k v) (\<lambda>x. rmap (\<lambda>y. put_over k y v) (f x))"

definition set_input :: "string \<Rightarrow> string \<Rightarrow> js \<Rightarrow> js \<Rightarrow> js result" where
  "set_input inputs k x = with_key inputs (\<lambda>i. Inr (put_over k x i))"

text \<open>\<open>comparator: {...probeData[inputs].comparator, k: x}\<close>, where \<open>checked\<close> is \<open>?.\<close>.\<close>

definition set_nested :: "bool \<Rightarrow> string \<Rightarrow> string \<Rightarrow> string \<Rightarrow> js \<Rightarrow> js \<Rightarrow> js result" where
  "set_nested checked inputs g k x = with_key inputs (\<lambda>i.
     rmap (\<lambda>c. put_over g (put_over k x c) i) ((if checked then js_opt else js_get) g i))"

definition handleHttp :: "string \<Rightarrow> string \<Rightarrow> js \<Rightarrow> js result" where
  "handleHttp nm val probe =
     (if nm = ''url'' then set_input ''httpProbe/inputs'' nm (JStr val) probe
      else if nm = ''insecureSkipVerify'' then set_input ''httpProbe/inputs'' nm (JBool (val = ''true'')) probe
      else Inr probe)"

definition handleCmd :: "string \<Rightarrow> string \<Rightarrow> js \<Rightarrow> js result" where
  "handleCmd nm val probe =
     (if nm = ''command'' then set_input ''cmdProbe/inputs'' nm (JStr val) probe
      else set_nested False ''cmdProbe/inputs'' ''comparator'' nm (JStr val) probe)"

definition handleK8s :: "string \<Rightarrow> string \<Rightarrow> js \<Rightarrow> js result" where
  "handleK8s nm val probe =
     (if nm = ''operation'' then set_input ''k8sProbe/inputs'' nm (JStr val) probe
      else if nm = ''data'' then Inr (put_over ''data'' (JStr val) probe)
      else set_input ''k8sProbe/inputs'' nm (JStr val) probe)"

definition handleProm :: "string \<Rightarrow> string \<Rightarrow> js \<Rightarrow> js result" where
  "handleProm nm val probe =
     (if nm = ''endpoint'' \<or> nm = ''query'' then set_input ''promProbe/inputs'' nm (JStr val) probe
      else set_nested False ''promProbe/inputs'' ''comparator'' nm (JStr val) probe)"

definition setSourceImage :: "string \<Rightarrow> js \<Rightarrow> js result" where
  "setSourceImage val = set_nested True ''cmdProbe/inputs'' ''source'' ''image'' (JStr val)"

definition setHostNetwork :: "string \<Rightarrow> js \<Rightarrow> js result" where
  "setHostNetwork val = set_nested True ''cmdProbe/inputs'' ''source'' ''hostNetwork'' (JBool (val = ''true''))"

definition setImagePullPolicy :: "string \<Rightarrow> js \<Rightarrow> js result" where
  "setImagePullPolicy val = set_nested True ''cmdProbe/inputs'' ''source'' ''imagePullPolicy'' (JStr val)"

definition setPrivileged :: "string \<Rightarrow> js \<Rightarrow> js result" where
  "setPrivileged val = set_nested True ''cmdProbe/inputs'' ''source'' ''privileged'' (JBool (val = ''true''))"

definition setCmdComparatorType :: "string \<Rightarrow> js \<Rightarrow> js result" where
  "setCmdComparatorType val = set_nested True ''cmdProbe/inputs'' ''comparator'' ''type'' (JStr val)"

definition setCmdCriteria :: "string \<Rightarrow> js \<Rightarrow> js result" where
  "setCmdCriteria val = set_nested True ''cmdProbe/inputs'' ''comparator'' ''criteria'' (JStr val)"

definition setK8sOperation :: "string \<Rightarrow> js \<Rightarrow> js result" where
  "setK8sOperation val = set_input ''k8sProbe/inputs'' ''operation'' (JStr val)"

definition setPromComparatorType :: "string \<Rightarrow> js \<Rightarrow> js result" where
  "setPromComparatorType val = set_nested True ''promProbe/inputs'' ''comparator'' ''type'' (JStr val)"

definition setPromCriteria :: "string \<Rightarrow> js \<Rightarrow> js result" where
  "setPromCriteria val = set_nested True ''promProbe/inputs'' ''comparator'' ''criteria'' (JStr val)"

definition stringType :: "string list" where
  "stringType = [''equal'', ''notEqual'', ''contains'', ''matches'', ''notMatches'', ''oneOf'']"

definition intFloatType :: "string list" where
  "intFloatType = [''>='', ''<='', ''>'', ''<'', ''=='', ''!='', ''OneOf'', ''between'']"

definition k8sOperation :: "string list" where
  "k8sOperation = [''create'', ''delete'', ''present'', ''absent'']"

definition comparatorType :: "string list" where
  "comparatorType = [''string'', ''int'', ''float'']"

definition httpCiteria :: "string list" where
  "httpCiteria = [''=='', ''!='', ''oneOf'']"

text \<open>The criteria offered: \<open>probeData[inputs]?.comparator?.type === 'string'\<close>.\<close>

definition criteria_list :: "string \<Rightarrow> js \<Rightarrow> string list result" where
  "criteria_list inputs probe = rbind (js_get inputs probe) (\<lambda>i. rbind (js_opt ''comparator'' i)
     (\<lambda>c. rmap (\<lambda>ty. if ty = JStr ''string'' then stringType else intFloatType) (js_opt ''type'' c)))"

section \<open>The method of an HTTP probe\<close>

record HTTPDataType =
  criteria :: string
  responseCode :: string
  body :: string
  contentType :: string

text \<open>
  \<open>isEdit ? probeData['httpProbe/inputs']?.method.post?.k : httpData.k\<close>; the handler of
  the response code has no \<open>?.\<close> after the method's name.
\<close>

definition method_field :: "bool \<Rightarrow> string \<Rightarrow> string \<Rightarrow> js \<Rightarrow> js result" where
  "method_field checked m k probe = rbind (js_get ''httpProbe/inputs'' probe) (\<lambda>i.
     if nullish i then Inr JUndef
     else rbind (js_get ''method'' i) (\<lambda>me. rbind (js_get m me) ((if checked then js_opt else js_get) k)))"

definition old_field :: "bool \<Rightarrow> bool \<Rightarrow> string \<Rightarrow> string \<Rightarrow> (HTTPDataType \<Rightarrow> string) \<Rightarrow> HTTPDataType \<Rightarrow> js \<Rightarrow> js result" where
  "old_field isEdit checked m k sel http probe =
     (if isEdit then method_field checked m k probe else Inr (JStr (sel http)))"

definition set_method :: "js \<Rightarrow> js \<Rightarrow> js result" where
  "set_method me = set_input ''httpProbe/inputs'' ''method'' me"

definition post_method :: "js \<Rightarrow> js \<Rightarrow> js \<Rightarrow> js \<Rightarrow> js" where
  "post_method cr code bd ct = jobj1 ''post'' (JObj
     [(''criteria'', cr), (''responseCode'', code), (''body'', bd), (''contentType'', ct)])"

definition get_method :: "js \<Rightarrow> js \<Rightarrow> js" where
  "get_method cr code = jobj1 ''get'' (JObj [(''criteria'', cr), (''responseCode'', code)])"

definition setBody :: "bool \<Rightarrow> HTTPDataType \<Rightarrow> string \<Rightarrow> js \<Rightarrow> js result" where
  "setBody isEdit http val probe =
     rbind (old_field isEdit True ''post'' ''criteria'' criteria http probe) (\<lambda>cr.
     rbind (old_field isEdit True ''post'' ''responseCode'' responseCode http probe) (\<lambda>code.
     rbind (old_field isEdit True ''post'' ''contentType'' contentType http probe) (\<lambda>ct.
     set_method (post_method cr code (JStr val) ct) probe)))"

definition setContentType :: "bool \<Rightarrow> HTTPDataType \<Rightarrow> string \<Rightarrow> js \<Rightarrow> js result" where
  "setContentType isEdit http val probe =
     rbind (old_field isEdit True ''post'' ''criteria'' criteria http probe) (\<lambda>cr.
     rbind (old_field isEdit True ''post'' ''responseCode'' responseCode http probe) (\<lambda>code.
     rbind (old_field isEdit True ''post'' ''body'' body http probe) (\<lambda>bd.
     set_method (post_method cr code bd (JStr val)) probe)))"

definition setCriteria :: "bool \<Rightarrow> string \<Rightarrow> HTTPDataType \<Rightarrow> string \<Rightarrow> js \<Rightarrow> js result" where
  "setCriteria isEdit meth http val probe =
     (if meth = ''get''
      then rbind (old_field isEdit True ''get'' ''responseCode'' responseCode http probe) (\<lambda>code.
           set_method (get_method (JStr val) code) probe)
      else if meth = ''post''
      then rbind (old_field isEdit True ''post'' ''responseCode'' responseCode http probe) (\<lambda>code.
           rbind (old_field isEdit True ''post'' ''body'' body http probe) (\<lambda>bd.
           rbind (old_field isEdit True ''post'' ''contentType'' contentType http probe) (\<lambda>ct.
           set_method (post_method (JStr val) code bd ct) probe)))
      else Inr probe)"

definition setResponseCode :: "bool \<Rightarrow> string \<Rightarrow> HTTPDataType \<Rightarrow> string \<Rightarrow> js \<Rightarrow> js result" where
  "setResponseCode isEdit meth http val probe =
     (if meth = ''get''
      then rbind (old_field isEdit False ''get'' ''criteria'' criteria http probe) (\<lambda>cr.
           set_method (get_method cr (JStr val)) probe)
      else if meth = ''post''
      then rbind (old_field isEdit False ''post'' ''criteria'' criteria http probe) (\<lambda>cr.
           rbind (old_field isEdit False ''post'' ''body'' body http probe) (\<lambda>bd.
           rbind (old_field isEdit False ''post'' ''contentType'' contentType http probe) (\<lambda>ct.
           set_method (post_method cr (JStr val) bd ct) probe)))
      else Inr probe)"

section \<open>The drawer and the list\<close>

definition empty_run :: js where
  "empty_run = JObj [(''probeTimeout'', JStr ''''), (''retry'', JStr ''''), (''interval'', JStr ''''),
     (''probePollingInterval'', JStr ''''), (''initialDelaySeconds'', JStr ''''), (''stopOnFailure'', JBool False)]"

definition blank_probe :: js where
  "blank_probe = JObj [(''name'', JStr ''''), (''type'', JStr ''httpProbe''), (''mode'', JStr ''Continuous''),
     (''runProperties'', empty_run), (''httpProbe/inputs'', JObj [])]"

definition blank_http :: HTTPDataType where
  "blank_http = \<lparr>criteria = '''', responseCode = '''', body = '''', contentType = ''''\<rparr>"

record drawer =
  probes :: "js list"
  probeType :: string
  runProperties :: js
  probeData :: js
  httpData :: HTTPDataType
  httpMethod :: string
  isAdd :: bool
  opened :: bool
  selectedProbe :: nat
  isEdit :: bool

definition engine_probe_path :: "js \<Rightarrow> js result" where
  "engine_probe_path engine = rbind (js_path [''spec'', ''experiments''] engine) (\<lambda>es.
     rbind (js_idx 0 es) (js_path [''spec'', ''probe'']))"

text \<open>The probes of the engine when it has some, else an empty list.\<close>

definition initial_probes :: "js \<Rightarrow> js list result" where
  "initial_probes engine = rbind (engine_probe_path engine) (\<lambda>p.
     if truthy p then rbind (js_get ''length'' p) (\<lambda>n. if truthy n then js_elems p else Inr []) else Inr [])"

definition drawer_init :: "js list \<Rightarrow> drawer" where
  "drawer_init ps = \<lparr>probes = ps, probeType = ''httpProbe/inputs'', runProperties = empty_run,
     probeData = blank_probe, httpData = blank_http, httpMethod = ''get'', isAdd = False, opened = False,
     selectedProbe = 0, isEdit = False\<rparr>"

text \<open>\<open>probesData && probesData.length ? probesData[selectedProbeIndex] : probesData\<close>.\<close>

definition probesValue :: "drawer \<Rightarrow> js" where
  "probesValue s = (if probes s \<noteq> []
     then (if selectedProbe s < length (probes s) then probes s ! selectedProbe s else JUndef) else JArr [])"

text \<open>\<open>useEffect(..., [addButtonState, probesValue])\<close>.\<close>

definition drawer_effect :: "drawer \<Rightarrow> drawer result" where
  "drawer_effect s =
     (if length (probes s) \<noteq> 0
      then rbind (js_get ''runProperties'' (probesValue s)) (\<lambda>rp. rmap (\<lambda>ty.
             if isAdd s then s\<lparr>probeData := blank_probe, runProperties := empty_run, probeType := js_show ty @ ''/inputs''\<rparr>
             else s\<lparr>probeData := probesValue s, runProperties := rp, probeType := js_show ty @ ''/inputs''\<rparr>)
               (js_get ''type'' (probesValue s)))
      else Inr s)"

definition after_change :: "drawer \<Rightarrow> drawer \<Rightarrow> drawer result" where
  "after_change s s' = (if isAdd s' \<noteq> isAdd s \<or> probesValue s' \<noteq> probesValue s then drawer_effect s' else Inr s')"

text \<open>Handlers that change the form only.\<close>

definition handleRunProps :: "string \<Rightarrow> string \<Rightarrow> drawer \<Rightarrow> drawer" where
  "handleRunProps nm val s = s\<lparr>runProperties :=
     put_over nm (case parse_int val of None \<Rightarrow> JNaN | Some n \<Rightarrow> JNum n) (runProperties s)\<rparr>"

definition setStopOnFailure :: "string \<Rightarrow> drawer \<Rightarrow> drawer" where
  "setStopOnFailure val s = s\<lparr>runProperties := put_over ''stopOnFailure'' (JBool (val = ''true'')) (runProperties s)\<rparr>"

definition renameKey :: "js \<Rightarrow> string \<Rightarrow> js" where
  "renameKey v k = JObj (AList.delete k (js_spread v))"

definition onTypeChange :: "string \<Rightarrow> drawer \<Rightarrow> drawer" where
  "onTypeChange ty s = s\<lparr>probeData := put_over ''type'' (JStr ty) (renameKey (probeData s) (probeType s)),
     probeType := ty @ ''/inputs''\<rparr>"

definition setProbeName :: "string \<Rightarrow> drawer \<Rightarrow> drawer" where
  "setProbeName nm s = s\<lparr>probeData := put_over ''name'' (JStr nm) (probeData s)\<rparr>"

definition setProbeMode :: "string \<Rightarrow> drawer \<Rightarrow> drawer" where
  "setProbeMode m s = s\<lparr>probeData := put_over ''mode'' (JStr m) (probeData s)\<rparr>"

definition setHttpMethod :: "string \<Rightarrow> drawer \<Rightarrow> drawer" where
  "setHttpMethod m s = s\<lparr>httpMethod := m\<rparr>"

definition editDetails :: "(js \<Rightarrow> js result) \<Rightarrow> drawer \<Rightarrow> drawer result" where
  "editDetails f s = rmap (\<lambda>p. s\<lparr>probeData := p\<rparr>) (f (probeData s))"

definition editBody :: "string \<Rightarrow> drawer \<Rightarrow> drawer result" where
  "editBody v s = rmap (\<lambda>t. t\<lparr>httpData := (httpData s)\<lparr>body := v\<rparr>\<rparr>)
     (editDetails (setBody (isEdit s) (httpData s) v) s)"

definition editContentType :: "string \<Rightarrow> drawer \<Rightarrow> drawer result" where
  "editContentType v s = rmap (\<lambda>t. t\<lparr>httpData := (httpData s)\<lparr>contentType := v\<rparr>\<rparr>)
     (editDetails (setContentType (isEdit s) (httpData s) v) s)"

definition editCriteria :: "string \<Rightarrow> drawer \<Rightarrow> drawer result" where
  "editCriteria v s = rmap (\<lambda>t. t\<lparr>httpData := (httpData s)\<lparr>criteria := v\<rparr>\<rparr>)
     (editDetails (setCriteria (isEdit s) (httpMethod s) (httpData s) v) s)"

definition editResponseCode :: "string \<Rightarrow> drawer \<Rightarrow> drawer result" where
  "editResponseCode v s = rmap (\<lambda>t. t\<lparr>httpData := (httpData s)\<lparr>responseCode := v\<rparr>\<rparr>)
     (editDetails (setResponseCode (isEdit s) (httpMethod s) (httpData s) v) s)"

text \<open>\<open>clearData\<close>; the reset of the page's form element touches no state.\<close>

definition clearData :: "drawer \<Rightarrow> drawer" where
  "clearData s = s\<lparr>probeData := blank_probe, runProperties := empty_run, probeType := ''httpProbe/inputs''\<rparr>"

text \<open>\<open>Number.isNaN(x) || x === ''\<close>.\<close>

definition unset_number :: "js \<Rightarrow> bool" where
  "unset_number v \<longleftrightarrow> v = JNaN \<or> v = JStr ''''"

definition drop_unset :: "string \<Rightarrow> js \<Rightarrow> js result" where
  "drop_unset k v = rbind (js_get k v) (\<lambda>x. if unset_number x then js_del k v else Inr v)"

definition submit_disabled :: "drawer \<Rightarrow> bool result" where
  "submit_disabled s = rbind (js_get ''name'' (probeData s)) (\<lambda>n. rbind (js_string n) (\<lambda>nm.
     rmap (\<lambda>taken. (\<not> isEdit s \<and> taken) \<or> length (js_trim nm) = 0)
       (if isEdit s then Inr False else validateProbeName (JArr (probes s)) nm)))"

text \<open>
  Submitting: the numbers left empty are dropped, the probe takes its place in the
  shared array, and the drawer closes. \<open>allProbes[editIndex] = ...\<close> beyond the end grows
  the array.
\<close>

definition put_probe :: "nat \<Rightarrow> js \<Rightarrow> js list \<Rightarrow> js list" where
  "put_probe i p ps = (if i < length ps then ps[i := p] else ps @ replicate (i - length ps) JUndef @ [p])"

definition handleAddProbe :: "drawer \<Rightarrow> drawer result" where
  "handleAddProbe s =
     rbind (drop_unset ''initialDelaySeconds'' (runProperties s)) (\<lambda>r1.
     rbind (drop_unset ''probePollingInterval'' r1) (\<lambda>r2.
     rbind (js_put ''runProperties'' r2 (probeData s)) (\<lambda>p.
       let s1 = s\<lparr>runProperties := r2, probeData := p,
                  probes := (if isEdit s then put_probe (selectedProbe s) p (probes s) else probes s @ [p])\<rparr>;
           s2 = (if isEdit s then s1 else clearData s1)
       in after_change s (s2\<lparr>isAdd := False, opened := False\<rparr>))))"

text \<open>The buttons of the list, and closing or cancelling the drawer.\<close>

definition openEdit :: "nat \<Rightarrow> drawer \<Rightarrow> drawer result" where
  "openEdit i s = after_change s (s\<lparr>isEdit := True, selectedProbe := i, opened := True\<rparr>)"

definition openAdd :: "drawer \<Rightarrow> drawer result" where
  "openAdd s = after_change s (s\<lparr>isEdit := False, opened := True, isAdd := True\<rparr>)"

definition closeDrawer :: "drawer \<Rightarrow> drawer result" where
  "closeDrawer s = after_change s
     ((if \<not> truthy (probesValue s) then clearData s else s)\<lparr>isAdd := False, opened := False\<rparr>)"

text \<open>Writing the probes to the engine of the store.\<close>

definition put_probes :: "js list \<Rightarrow> unit act" where
  "put_probes ps = within_path [''spec'', ''experiments''] (within_idx 0
     (within ''spec'' (act_upd (js_put ''probe'' (JArr ps)))))"

definition engine_with_probes :: "yaml \<Rightarrow> js list \<Rightarrow> string \<Rightarrow> string result" where
  "engine_with_probes Y ps engine = rbind (yaml_read Y engine) (\<lambda>d. rmap (yaml_show Y) (run_act (put_probes ps) d))"

definition deleteProbe :: "yaml \<Rightarrow> nat \<Rightarrow> string \<Rightarrow> drawer \<Rightarrow> (string \<times> drawer) result" where
  "deleteProbe Y i engine s = (let ps = remove_at i (probes s) in
     rbind (engine_with_probes Y ps engine) (\<lambda>e. rmap (Pair e) (after_change s (s\<lparr>probes := ps\<rparr>))))"

definition steady_handleNext :: "yaml \<Rightarrow> bool \<Rightarrow> string \<Rightarrow> drawer \<Rightarrow> (string \<times> nat) result" where
  "steady_handleNext Y infra engine s =
     rmap (\<lambda>e. (e, if infra then 1 else 2)) (engine_with_probes Y (probes s) engine)"

section \<open>What the drawer keeps\<close>

definition probe_ok :: "js \<Rightarrow> bool" where
  "probe_ok p \<longleftrightarrow> is_obj p \<and> is_obj (fld ''runProperties'' p)
     \<and> (\<exists>n. fld ''name'' p = JStr n) \<and> (\<exists>ty. fld ''type'' p = JStr ty)"

definition drawer_ok :: "drawer \<Rightarrow> bool" where
  "drawer_ok s \<longleftrightarrow> list_all probe_ok (probes s) \<and> probe_ok (probeData s) \<and> is_obj (runProperties s)"

definition in_range :: "drawer \<Rightarrow> bool" where
  "in_range s \<longleftrightarrow> selectedProbe s < max 1 (length (probes s))"

lemma put_over_obj: "is_obj v \<Longrightarrow> put_over k x v = set_prop k x v"
  by (cases v) (simp_all add: put_over_def)

lemma is_obj_put_over [simp]: "is_obj (put_over k x v)"
  by (simp add: put_over_def)

lemma fld_put_over [simp]: "is_obj v \<Longrightarrow> fld l (put_over k x v) = (if k = l then x else fld l v)"
  by (simp add: put_over_obj)

lemma probe_ok_blank [simp]: "probe_ok blank_probe" "is_obj empty_run"
  by (simp_all add: probe_ok_def blank_probe_def empty_run_def obj_get_def)

lemma probe_ok_obj: "probe_ok p \<Longrightarrow> is_obj p"
  by (simp add: probe_ok_def)

lemma probe_ok_put_other:
  assumes "probe_ok p" and "k \<noteq> ''runProperties''" and "k \<noteq> ''name''" and "k \<noteq> ''type''"
  shows "probe_ok (put_over k x p)"
  using assms(1) fld_put_over [of p, OF probe_ok_obj [OF assms(1)]] assms(2-4)
  unfolding probe_ok_def by (simp only: if_False is_obj_put_over)

lemma probe_ok_put:
  "probe_ok p \<Longrightarrow> is_obj r \<Longrightarrow> probe_ok (put_over ''runProperties'' r p)"
  "probe_ok p \<Longrightarrow> probe_ok (put_over ''name'' (JStr n) p)"
  "probe_ok p \<Longrightarrow> probe_ok (put_over ''type'' (JStr n) p)"
  by (simp_all add: probe_ok_def)

lemma probesValue_in: "probes s \<noteq> [] \<Longrightarrow> in_range s \<Longrightarrow> probesValue s = probes s ! selectedProbe s
    \<and> selectedProbe s < length (probes s)"
  by (auto simp: probesValue_def in_range_def max_def Suc_le_eq split: if_splits)

lemma drawer_effect_ok:
  assumes "drawer_ok s" and "in_range s"
  shows "\<exists>s'. drawer_effect s = Inr s' \<and> drawer_ok s' \<and> probes s' = probes s \<and> selectedProbe s' = selectedProbe s
    \<and> isAdd s' = isAdd s \<and> isEdit s' = isEdit s \<and> opened s' = opened s"
proof (cases "probes s = []")
  case True
  then show ?thesis using assms by (simp add: drawer_effect_def)
next
  case False
  note pv = probesValue_in [OF False assms(2)]
  then have "probe_ok (probesValue s)" using assms(1) by (simp add: drawer_ok_def list_all_length)
  then have ok: "probe_ok (probesValue s)" "is_obj (probesValue s)" "is_obj (fld ''runProperties'' (probesValue s))"
    by (simp_all add: probe_ok_def)
  show ?thesis using assms(1) False ok
    by (simp add: drawer_effect_def drawer_ok_def js_get_obj)
qed

lemma after_change_ok:
  assumes "drawer_ok t" and "in_range t"
  shows "\<exists>s'. after_change s t = Inr s' \<and> drawer_ok s' \<and> probes s' = probes t \<and> selectedProbe s' = selectedProbe t
    \<and> isAdd s' = isAdd t \<and> isEdit s' = isEdit t \<and> opened s' = opened t"
  using drawer_effect_ok [OF assms] assms by (auto simp: after_change_def)

text \<open>Deleting a probe fails exactly when the last one of several was opened last: the
  selection then lies beyond the list, and the drawer reads a field of undefined.\<close>

lemma drawer_effect_beyond:
  "probes s \<noteq> [] \<Longrightarrow> length (probes s) \<le> selectedProbe s \<Longrightarrow> drawer_effect s = Inl TypeErr"
  by (simp add: drawer_effect_def probesValue_def)

lemma js_put_path_ok:
  assumes "yaml_read Y engine = Inr d" and "run_act (put_probes ps) d = Inr d'"
  shows "engine_with_probes Y ps engine = Inr (yaml_show Y d')"
  using assms by (simp add: engine_with_probes_def)

definition after_delete :: "nat \<Rightarrow> drawer \<Rightarrow> drawer \<Rightarrow> bool" where
  "after_delete i s s' \<longleftrightarrow> probes s' = remove_at i (probes s) \<and> drawer_ok s' \<and> in_range s'"

lemma list_all_remove_at: "list_all P xs \<Longrightarrow> list_all P (remove_at i xs)"
  by (auto simp: list_all_iff remove_at_def dest: in_set_takeD in_set_dropD)

theorem deleteProbe_outcome:
  assumes "drawer_ok s" and "in_range s" and "i < length (probes s)"
    and "yaml_read Y engine = Inr d" and "run_act (put_probes (remove_at i (probes s))) d = Inr d'"
  shows "if 2 \<le> length (probes s) \<and> Suc (selectedProbe s) = length (probes s)
    then deleteProbe Y i engine s = Inl TypeErr
    else \<exists>s'. deleteProbe Y i engine s = Inr (yaml_show Y d', s') \<and> after_delete i s s'"
proof -
  define t where "t = s\<lparr>probes := remove_at i (probes s)\<rparr>"
  have len: "length (probes t) = length (probes s) - 1" using assms(3) by (simp add: t_def)
  have del: "deleteProbe Y i engine s = rmap (Pair (yaml_show Y d')) (after_change s t)"
    using js_put_path_ok [OF assms(4,5)] by (simp add: deleteProbe_def Let_def t_def)
  show ?thesis
  proof (cases "2 \<le> length (probes s) \<and> Suc (selectedProbe s) = length (probes s)")
    case True
    then have beyond: "probes t \<noteq> []" "length (probes t) \<le> selectedProbe t" using len by (auto simp: t_def)
    then have "probesValue t = JUndef" by (simp add: probesValue_def)
    moreover have "is_obj (probesValue s)"
      using assms(1) True probesValue_in [OF _ assms(2)]
      by (cases "probes s = []") (simp_all add: drawer_ok_def list_all_length probe_ok_obj)
    ultimately have "probesValue t \<noteq> probesValue s" by auto
    then have "after_change s t = Inl TypeErr" using drawer_effect_beyond [OF beyond] by (simp add: after_change_def)
    then show ?thesis using True del by simp
  next
    case False
    have "in_range t" using False assms(2,3) len by (auto simp: in_range_def t_def max_def split: if_splits)
    moreover have "drawer_ok t" using assms(1) by (simp add: drawer_ok_def t_def list_all_remove_at)
    ultimately obtain s' where "after_change s t = Inr s'" "drawer_ok s'" "probes s' = probes t"
      "selectedProbe s' = selectedProbe t" using after_change_ok [of t s] by blast
    then show ?thesis using False del \<open>in_range t\<close> by (simp add: after_delete_def in_range_def t_def)
  qed
qed

section \<open>Submitting\<close>

definition cleaned_run :: "js \<Rightarrow> js \<Rightarrow> bool" where
  "cleaned_run r r' \<longleftrightarrow> is_obj r' \<and> \<not> unset_number (fld ''initialDelaySeconds'' r')
     \<and> \<not> unset_number (fld ''probePollingInterval'' r')
     \<and> (\<forall>k. fld k r' = fld k r \<or> (k = ''initialDelaySeconds'' \<or> k = ''probePollingInterval'')
              \<and> unset_number (fld k r) \<and> fld k r' = JUndef)"

definition without :: "string \<Rightarrow> js \<Rightarrow> js" where
  "without k v = (if unset_number (fld k v) then JObj (AList.delete k (js_spread v)) else v)"

lemma drop_unset_obj: "is_obj v \<Longrightarrow> drop_unset k v = Inr (without k v)"
  by (cases v) (auto simp: drop_unset_def without_def)

lemma is_obj_without [simp]: "is_obj v \<Longrightarrow> is_obj (without k v)"
  by (simp add: without_def)

lemma fld_without: "is_obj v \<Longrightarrow> fld l (without k v) = (if l = k \<and> unset_number (fld k v) then JUndef else fld l v)"
  by (cases v) (auto simp: without_def obj_get_def)

lemma cleaned:
  assumes "is_obj r"
  shows "cleaned_run r (without ''probePollingInterval'' (without ''initialDelaySeconds'' r))"
  using assms by (auto simp: cleaned_run_def fld_without unset_number_def)

lemma js_put_obj: "is_obj v \<Longrightarrow> js_put k x v = Inr (set_prop k x v)"
  by (cases v) simp_all


text \<open>Changing the type of a probe.\<close>

definition input_keys :: "string list" where
  "input_keys = [''httpProbe/inputs'', ''cmdProbe/inputs'', ''k8sProbe/inputs'', ''promProbe/inputs'']"

definition inputs_of :: "js \<Rightarrow> string list" where
  "inputs_of p = filter (\<lambda>k. fld k p \<noteq> JUndef) input_keys"

lemma type_change_drops_inputs:
  assumes "is_obj (probeData s)" and "set (inputs_of (probeData s)) \<subseteq> {probeType s}"
  shows "inputs_of (probeData (onTypeChange ty s)) = []"
proof -
  have "fld k (probeData (onTypeChange ty s)) = JUndef" if "k \<in> set input_keys" for k
  proof -
    have "fld k (probeData s) = JUndef" if "k \<noteq> probeType s"
      using assms(2) \<open>k \<in> set input_keys\<close> that by (auto simp: inputs_of_def)
    moreover have "k \<noteq> ''type''" using \<open>k \<in> set input_keys\<close> by (auto simp: input_keys_def)
    ultimately show ?thesis using assms(1)
      by (cases "probeData s") (auto simp: onTypeChange_def put_over_def renameKey_def obj_get_def)
  qed
  then show ?thesis by (simp add: inputs_of_def filter_empty_conv)
qed

text \<open>
  Opening the drawer for a new probe while a probe of another type is selected leaves
  \<open>probeType\<close> at that type: the blank inputs of the HTTP probe then survive a change of type.
\<close>

theorem stray_inputs_after_add:
  assumes "drawer_ok s" and "in_range s" and "probes s \<noteq> []" and "\<not> isAdd s"
    and "fld ''type'' (probesValue s) = JStr ''cmdProbe''"
  shows "\<exists>s'. openAdd s = Inr s' \<and> fld ''httpProbe/inputs'' (probeData (onTypeChange ''k8sProbe'' s')) = JObj []
    \<and> fld ''type'' (probeData (onTypeChange ''k8sProbe'' s')) = JStr ''k8sProbe''"
proof -
  define t where "t = s\<lparr>isEdit := False, opened := True, isAdd := True\<rparr>"
  have pv: "probesValue t = probesValue s" by (simp add: t_def probesValue_def)
  have "probe_ok (probesValue s)"
    using probesValue_in [OF assms(3,2)] assms(1) by (simp add: drawer_ok_def list_all_length)
  then have "drawer_effect t = Inr (t\<lparr>probeData := blank_probe, runProperties := empty_run, probeType := ''cmdProbe/inputs''\<rparr>)"
    using assms(3,5) pv probe_ok_obj by (simp add: drawer_effect_def js_get_obj) (simp add: t_def)
  then show ?thesis using assms(4)
    by (simp add: openAdd_def after_change_def t_def [symmetric])
      (simp add: t_def onTypeChange_def put_over_def renameKey_def blank_probe_def obj_get_def)
qed

text \<open>The first field of a comparator cannot be its value.\<close>

lemma comparator_value_first_throws:
  assumes "is_obj p" and "fld ''cmdProbe/inputs'' p = JUndef"
  shows "handleCmd ''value'' v p = Inl TypeErr"
  using assms by (simp add: handleCmd_def set_nested_def with_key_def js_get_obj)

text \<open>Editing a probe that posts while the drawer shows the method get drops the body.\<close>

theorem editing_drops_post:
  assumes "is_obj p" and "fld ''httpProbe/inputs'' p = i" and "is_obj i" and "is_obj (fld ''method'' i)"
    and "fld ''get'' (fld ''method'' i) = JUndef"
  shows "setCriteria True ''get'' http v p =
    Inr (put_over ''httpProbe/inputs'' (put_over ''method'' (get_method (JStr v) JUndef) i) p)"
proof -
  have "\<not> nullish i" using assms(3) by (cases i) auto
  then show ?thesis using assms
    by (simp add: setCriteria_def old_field_def method_field_def set_method_def set_input_def with_key_def js_get_obj js_opt_def)
qed

end
