(* ===== verification/Engine.thy ===== *)
theory Engine
  imports Probe
begin

text \<open>
  Configuring one chaos engine: the pages of \<open>ConfigurationStepper\<close> in
  \<open>views/CreateWorkflow/TuneWorkflow/TuneWorkflowSteps\<close> (general data, target application,
  environment, advanced tuning). Each page parses the engine of the store at every
  render, keeps the fields of its form and writes the engine back when left by Next.
\<close>

section \<open>Reading an engine\<close>

definition js_chain :: "(js \<Rightarrow> js result) \<Rightarrow> js \<Rightarrow> js result" where
  "js_chain f v = (if nullish v then Inr JUndef else f v)"

text \<open>\<open>spec?.experiments[0]\<close>, and \<open>engine.spec?.experiments[0]?.spec?.components\<close>.\<close>

definition first_experiment :: "js \<Rightarrow> js result" where
  "first_experiment = js_chain (\<lambda>sp. rbind (js_get ''experiments'' sp) (js_idx 0))"

definition exp_spec :: "js \<Rightarrow> js result" where
  "exp_spec d = rbind (js_opt ''spec'' d) (\<lambda>sp. rbind (first_experiment sp) (js_opt ''spec''))"

definition exp_components :: "js \<Rightarrow> js result" where
  "exp_components d = rbind (js_get ''spec'' d) (\<lambda>sp. rbind (first_experiment sp)
     (\<lambda>e. rbind (js_opt ''spec'' e) (js_opt ''components'')))"

definition within_exp :: "unit act \<Rightarrow> unit act" where
  "within_exp m = within_path [''spec'', ''experiments''] (within_idx 0 (within ''spec'' m))"

definition act_with :: "(js \<Rightarrow> 'a result) \<Rightarrow> ('a \<Rightarrow> 'b act) \<Rightarrow> 'b act" where
  "act_with r f = act_bind (act_read r) f"

section \<open>General data\<close>

record general =
  experimentName :: js
  context_field :: js
  hubName :: string

definition getContext :: "js \<Rightarrow> js \<Rightarrow> string \<Rightarrow> js result" where
  "getContext engine name namespace =
     rbind (js_path [''metadata'', ''labels''] engine) (\<lambda>ls. rbind (if ls \<noteq> JUndef then js_get ''context'' ls else Inr JUndef)
       (\<lambda>c. if c \<noteq> JUndef then Inr c else Inr (JStr (js_show name @ ''_'' @ namespace))))"

definition general_init :: "js \<Rightarrow> string \<Rightarrow> general result" where
  "general_init engine namespace = rbind (js_path [''metadata'', ''generateName''] engine) (\<lambda>n.
     rmap (\<lambda>c. \<lparr>experimentName = n, context_field = c, hubName = ''''\<rparr>) (getContext engine n namespace))"

text \<open>The stored choice (its \<open>selected\<close>) and hub, as localforage gives them.\<close>

definition general_hub :: "string option \<Rightarrow> string \<Rightarrow> general \<Rightarrow> general" where
  "general_hub selected hub s = (if selected = Some ''C'' then s\<lparr>hubName := hub\<rparr> else s)"

definition general_act :: "general \<Rightarrow> unit act" where
  "general_act s = act_seq (within ''metadata'' (act_upd (js_put ''generateName'' (experimentName s))))
     (act_with (js_path [''metadata'', ''labels'']) (\<lambda>ls.
        if truthy ls then within_path [''metadata'', ''labels''] (act_upd (js_put ''context'' (context_field s)))
        else within ''metadata'' (act_upd (js_put ''labels'' (jobj1 ''context'' (context_field s))))))"

definition general_handleNext :: "yaml \<Rightarrow> string \<Rightarrow> general \<Rightarrow> (string \<times> nat) result" where
  "general_handleNext Y engine s = rbind (yaml_read Y engine) (\<lambda>d.
     rmap (\<lambda>d'. (yaml_show Y d', 1)) (run_act (general_act s) d))"

section \<open>Environment variables\<close>

record env_page =
  env :: "js list"
  add_name :: string
  add_value :: string
  showMore :: bool

definition env_init :: "js \<Rightarrow> env_page result" where
  "env_init engine = rbind (js_path [''spec'', ''experiments''] engine) (\<lambda>es. rbind (js_idx 0 es) (\<lambda>e.
     rbind (js_path [''spec'', ''components'', ''env''] e) (\<lambda>v. rmap
       (\<lambda>vs. \<lparr>env = vs, add_name = '''', add_value = '''', showMore = False\<rparr>) (js_elems v))))"

definition getShowMoreItems :: "env_page \<Rightarrow> js list" where
  "getShowMoreItems s = (if showMore s then env s else take 3 (env s))"

text \<open>A field is shown for each item of \<open>getShowMoreItems\<close>.\<close>

definition editEnv :: "nat \<Rightarrow> string \<Rightarrow> env_page \<Rightarrow> env_page result" where
  "editEnv i v s = (if i < length (getShowMoreItems s)
     then rmap (\<lambda>x. s\<lparr>env := (env s)[i := x]\<rparr>) (js_put ''value'' (JStr v) (env s ! i)) else Inr s)"

definition toggleShowMore :: "env_page \<Rightarrow> env_page" where
  "toggleShowMore s = (if length (env s) > 3 \<and> \<not> showMore s then s\<lparr>showMore := True\<rparr>
     else if showMore s then s\<lparr>showMore := False\<rparr> else s)"

definition setAddName :: "string \<Rightarrow> env_page \<Rightarrow> env_page" where
  "setAddName n s = s\<lparr>add_name := n\<rparr>"

definition setAddValue :: "string \<Rightarrow> env_page \<Rightarrow> env_page" where
  "setAddValue v s = s\<lparr>add_value := v\<rparr>"

definition addKeyValue :: "env_page \<Rightarrow> env_page" where
  "addKeyValue s = (if js_trim (add_name s) = '''' \<or> js_trim (add_value s) = '''' then s
     else s\<lparr>env := env s @ [JObj [(''name'', JStr (add_name s)), (''value'', JStr (add_value s))]],
            add_name := '''', add_value := ''''\<rparr>)"

definition put_env :: "js list \<Rightarrow> unit act" where
  "put_env vs = within_exp (within ''components'' (act_upd (js_put ''env'' (JArr vs))))"

definition env_handleNext :: "yaml \<Rightarrow> bool \<Rightarrow> string \<Rightarrow> env_page \<Rightarrow> (string \<times> nat) result" where
  "env_handleNext Y infra engine s = rbind (yaml_read Y engine) (\<lambda>d.
     rmap (\<lambda>d'. (yaml_show Y d', if infra then 2 else 3)) (run_act (put_env (env s)) d))"

section \<open>The target application\<close>

record targetApp =
  appns :: js
  applabel :: js
  appkind :: js

record gvr =
  group :: string
  version :: string
  resource :: string

definition gvrData :: "gvr list" where
  "gvrData =
     [\<lparr>group = ''apps'', version = ''v1'', resource = ''deployment''\<rparr>,
      \<lparr>group = ''apps'', version = ''v1'', resource = ''statefulset''\<rparr>,
      \<lparr>group = ''apps'', version = ''v1'', resource = ''daemonset''\<rparr>,
      \<lparr>group = ''apps.openshift.io'', version = ''v1'', resource = ''deploymentconfig''\<rparr>,
      \<lparr>group = ''argoproj.io'', version = ''v1alpha1'', resource = ''rollout''\<rparr>]"

text \<open>The last entry of that kind, in the plural; no entry leaves the request as it is.\<close>

definition setGVRObj :: "js \<Rightarrow> gvr \<Rightarrow> gvr" where
  "setGVRObj kind old = fold (\<lambda>g acc. if JStr (resource g) = kind
     then \<lparr>group = group g, version = version g, resource = resource g @ ''s''\<rparr> else acc) gvrData old"

definition appinfo_field :: "string \<Rightarrow> js \<Rightarrow> js result" where
  "appinfo_field k engine = rbind (js_path [''spec'', ''appinfo''] engine) (\<lambda>ai.
     rmap (\<lambda>v. orelse_nullish v (JStr '''')) (js_opt k ai))"

definition target_init :: "js \<Rightarrow> targetApp result" where
  "target_init engine = rbind (appinfo_field ''appns'' engine) (\<lambda>ns. rbind (appinfo_field ''applabel'' engine) (\<lambda>l.
     rmap (\<lambda>k. \<lparr>appns = ns, applabel = l, appkind = k\<rparr>) (appinfo_field ''appkind'' engine)))"

definition put_appinfo :: "targetApp \<Rightarrow> unit act" where
  "put_appinfo a = within ''appinfo'' (act_seq (act_upd (js_put ''appns'' (appns a)))
     (act_seq (act_upd (js_put ''applabel'' (applabel a))) (act_upd (js_put ''appkind'' (appkind a)))))"

definition target_act :: "targetApp \<Rightarrow> unit act" where
  "target_act a = act_seq (within ''spec'' (act_get ''appinfo'' (\<lambda>ai. act_when (ai \<noteq> JUndef) (put_appinfo a))))
     validateNamespace"

definition target_handleNext :: "yaml \<Rightarrow> string \<Rightarrow> targetApp \<Rightarrow> (string \<times> nat) result" where
  "target_handleNext Y engine a = rbind (yaml_read Y engine) (\<lambda>d.
     rmap (\<lambda>d'. (yaml_show Y d', 1)) (run_act (target_act a) d))"

text \<open>
  The labels of the cluster's objects, by namespace. The values are those of the parsed
  reply; an exception keeps the namespaces read so far and adds an empty one.
\<close>

record AppInfoData =
  info_namespace :: js
  appLabels :: "string list"

fun object_entries :: "js \<Rightarrow> (string \<times> js) list" where
  "object_entries (JObj fs) = fs"
| "object_entries v = []"

definition resource_labels :: "js \<Rightarrow> string list result" where
  "resource_labels r = rmap (\<lambda>ls. if nullish ls then []
     else map (\<lambda>(k, v). k @ ''='' @ js_show v) (object_entries ls)) (js_get ''labels'' r)"

definition kube_entry :: "js \<Rightarrow> AppInfoData result" where
  "kube_entry obj = rbind (js_get ''data'' obj) (\<lambda>dt. rbind
     (if nullish dt then Inr [] else rbind (js_elems dt) (\<lambda>rs. rmap concat (mapR resource_labels rs))) (\<lambda>ls.
     rmap (\<lambda>ns. \<lparr>info_namespace = ns, appLabels = ls\<rparr>) (js_get ''namespace'' obj)))"

definition no_info :: AppInfoData where
  "no_info = \<lparr>info_namespace = JStr '''', appLabels = ['''']\<rparr>"

fun kube_infos :: "js list \<Rightarrow> AppInfoData list" where
  "kube_infos [] = []"
| "kube_infos (obj # objs) = (case kube_entry obj of Inl e \<Rightarrow> [no_info] | Inr i \<Rightarrow> i # kube_infos objs)"

definition appinfo_of :: "js result \<Rightarrow> AppInfoData list" where
  "appinfo_of parsed_reply = (case rbind parsed_reply js_elems of Inl e \<Rightarrow> [no_info] | Inr objs \<Rightarrow> kube_infos objs)"

definition filteredAppLabel :: "js \<Rightarrow> AppInfoData list \<Rightarrow> string list" where
  "filteredAppLabel ns infos = concat (map appLabels (filter (\<lambda>i. info_namespace i = ns) infos))"

definition appLabel_options :: "js \<Rightarrow> AppInfoData list \<Rightarrow> string list" where
  "appLabel_options ns infos = (let ls = filteredAppLabel ns infos
     in if length ls > 0 then ls else [''No resource available''])"

section \<open>Advanced tuning\<close>

record advance =
  enableAnnotationCheck :: bool
  enableNodeSelector :: bool
  enableToleration :: bool
  nodeSelectorKey :: string
  nodeSelectorValue :: js
  tolerations :: js

text \<open>\<open>Object.keys(v)[0]\<close> when it is a non-empty text, else the empty one.\<close>

definition first_key_text :: "js \<Rightarrow> string result" where
  "first_key_text v = rmap (\<lambda>ks. case ks of [] \<Rightarrow> '''' | k # _ \<Rightarrow> k) (js_keys v)"

definition toleration_of :: "js \<Rightarrow> js \<Rightarrow> js \<Rightarrow> js \<Rightarrow> js" where
  "toleration_of ef k op v = JObj [(''effect'', ef), (''key'', k), (''operator'', op), (''value'', v)]"

definition blank_toleration :: js where
  "blank_toleration = toleration_of (JStr '''') (JStr '''') (JStr '''') (JStr '''')"

definition init_tolerations :: "js \<Rightarrow> js result" where
  "init_tolerations ts = (if truthy ts then rbind (js_idx 0 ts) (\<lambda>t.
       rbind (js_opt ''effect'' t) (\<lambda>ef. rbind (js_opt ''key'' t) (\<lambda>k. rbind (js_opt ''operator'' t) (\<lambda>op.
       rmap (\<lambda>v. toleration_of (orelse_nullish ef (JStr '''')) (orelse_nullish k (JStr ''''))
                   (orelse_nullish op (JStr '''')) (orelse_nullish v (JStr ''''))) (js_opt ''value'' t)))))
     else Inr (orelse_nullish ts blank_toleration))"

definition advance_init :: "js \<Rightarrow> advance result" where
  "advance_init engine =
     rbind (rbind (js_opt ''spec'' engine) (js_opt ''annotationCheck'')) (\<lambda>an.
     rbind (exp_components engine) (\<lambda>cs. rbind (js_opt ''nodeSelector'' cs) (\<lambda>sel. rbind (js_opt ''tolerations'' cs) (\<lambda>ts.
     rbind (if truthy sel then first_key_text sel else Inr '''') (\<lambda>key.
     rbind (if truthy sel \<and> key \<noteq> '''' then js_get key sel else Inr (JStr '''')) (\<lambda>val.
     rmap (\<lambda>tol. \<lparr>enableAnnotationCheck = (an = JStr ''true''), enableNodeSelector = truthy sel,
        enableToleration = truthy ts, nodeSelectorKey = key, nodeSelectorValue = val, tolerations = tol\<rparr>)
       (init_tolerations ts)))))))"

definition handleNodeSelector :: "advance \<Rightarrow> advance" where
  "handleNodeSelector s = s\<lparr>enableNodeSelector := \<not> enableNodeSelector s\<rparr>"

definition handleToleration :: "advance \<Rightarrow> advance" where
  "handleToleration s = s\<lparr>enableToleration := \<not> enableToleration s\<rparr>"

definition handleAnnotationCheck :: "advance \<Rightarrow> advance" where
  "handleAnnotationCheck s = s\<lparr>enableAnnotationCheck := \<not> enableAnnotationCheck s\<rparr>"

definition setNodeSelectorKey :: "string \<Rightarrow> advance \<Rightarrow> advance" where
  "setNodeSelectorKey k s = s\<lparr>nodeSelectorKey := k\<rparr>"

definition setNodeSelectorValue :: "string \<Rightarrow> advance \<Rightarrow> advance" where
  "setNodeSelectorValue v s = s\<lparr>nodeSelectorValue := JStr v\<rparr>"

definition setToleration :: "string \<Rightarrow> string \<Rightarrow> advance \<Rightarrow> advance" where
  "setToleration k v s = s\<lparr>tolerations := put_over k (JStr v) (tolerations s)\<rparr>"

definition selector_obj :: "advance \<Rightarrow> js" where
  "selector_obj s = jobj1 (nodeSelectorKey s) (nodeSelectorValue s)"

text \<open>\<open>engineManifest.spec?.components?.runner\<close>.\<close>

definition runner_of :: "js \<Rightarrow> js result" where
  "runner_of d = rbind (js_get ''spec'' d) (\<lambda>sp. rbind (js_opt ''components'' sp) (js_opt ''runner''))"

definition add_selector :: "advance \<Rightarrow> unit act" where
  "add_selector s = act_seq (within_exp (within ''components'' (act_upd (js_put ''nodeSelector'' (selector_obj s)))))
     (act_with runner_of (\<lambda>r. within ''spec'' (act_upd (js_put ''components''
        (jobj1 ''runner'' (put_over ''nodeSelector'' (selector_obj s) r))))))"

text \<open>\<open>spec?.components?.runner['nodeSelector']\<close>: only the first two links are checked.\<close>

definition runner_selector :: "js \<Rightarrow> js result" where
  "runner_selector d = rbind (js_get ''spec'' d) (\<lambda>sp. rbind (js_opt ''components'' sp)
     (js_chain (\<lambda>cs. rbind (js_get ''runner'' cs) (js_get ''nodeSelector''))))"

definition drop_empty_runner :: "unit act" where
  "drop_empty_runner = act_with runner_of (\<lambda>r. act_with (\<lambda>_. if truthy r then rmap length (js_keys r) else Inr 1)
     (\<lambda>n. act_when (n = 0) (within ''spec'' (act_upd (js_del ''components'')))))"

definition drop_runner_selector :: "unit act" where
  "drop_runner_selector = act_with runner_selector (\<lambda>x. act_when (truthy x)
     (act_seq (within_path [''spec'', ''components'', ''runner''] (act_upd (js_del ''nodeSelector''))) drop_empty_runner))"

text \<open>\<open>spec?.experiments[0]?.spec?.components[k]\<close>, a plain read of \<open>k\<close>.\<close>

definition exp_component :: "string \<Rightarrow> js \<Rightarrow> js result" where
  "exp_component k d = rbind (js_get ''spec'' d) (\<lambda>sp. rbind (first_experiment sp) (\<lambda>e.
     rbind (js_opt ''spec'' e) (js_chain (\<lambda>es. rbind (js_get ''components'' es) (js_get k)))))"

definition drop_component :: "string \<Rightarrow> unit act" where
  "drop_component k = act_with (exp_component k) (\<lambda>x. act_when (truthy x)
     (within_exp (within ''components'' (act_upd (js_del k)))))"

definition selector_act :: "advance \<Rightarrow> unit act" where
  "selector_act s = (if enableNodeSelector s then add_selector s
     else act_seq drop_runner_selector (drop_component ''nodeSelector''))"

definition toleration_act :: "advance \<Rightarrow> unit act" where
  "toleration_act s = (if enableToleration s
     then within_exp (within ''components'' (act_upd (js_put ''tolerations'' (JArr [tolerations s]))))
     else drop_component ''tolerations'')"

definition annotation_act :: "advance \<Rightarrow> unit act" where
  "annotation_act s = within ''spec'' (if enableAnnotationCheck s
     then act_upd (js_put ''annotationCheck'' (JStr ''true''))
     else act_get ''annotationCheck'' (\<lambda>v. act_when (truthy v) (act_upd (js_del ''annotationCheck''))))"

definition advance_act :: "advance \<Rightarrow> unit act" where
  "advance_act s = act_seq (selector_act s) (act_seq (toleration_act s) (annotation_act s))"

text \<open>The engine goes back into its template of the manifest and into the store.\<close>

definition engine_slot :: "js \<Rightarrow> string list result" where
  "engine_slot doc = rbind (js_get ''kind'' doc) (\<lambda>k. rmap (\<lambda>l.
     if l = ''workflow'' then [''spec'', ''templates''] else [''spec'', ''workflowSpec'', ''templates'']) (js_lower_any k))"

definition put_engine :: "nat \<Rightarrow> string \<Rightarrow> unit act" where
  "put_engine i text = within_idx i (within_path [''inputs'', ''artifacts'']
     (within_idx 0 (within ''raw'' (act_upd (js_put ''data'' (JStr text))))))"

definition advance_finish :: "yaml \<Rightarrow> nat \<Rightarrow> string \<Rightarrow> string \<Rightarrow> advance \<Rightarrow> (string \<times> string) result" where
  "advance_finish Y engineIndex manifest engineYAML s =
     rbind (yaml_read Y engineYAML) (\<lambda>d. rbind (run_act (advance_act s) d) (\<lambda>d'.
     rbind (yaml_read Y manifest) (\<lambda>doc. rbind (engine_slot doc) (\<lambda>p.
     rmap (\<lambda>doc'. (yaml_show Y doc', yaml_show Y d'))
       (run_act (within_path p (put_engine engineIndex (yaml_show Y d'))) doc)))))"

definition finish_disabled :: "advance \<Rightarrow> bool result" where
  "finish_disabled s = (if enableNodeSelector s then if nodeSelectorKey s = '''' then Inr True
      else rmap (\<lambda>n. n = JNum 0) (js_get ''length'' (nodeSelectorValue s)) else Inr False)"

section \<open>The stepper\<close>

datatype engine_page = TargetApplication | SteadyState | EnvironmentVariables | AdvanceEngineTuning

definition getStepContent :: "nat \<Rightarrow> bool \<Rightarrow> engine_page" where
  "getStepContent step infraEngine =
     (if infraEngine
      then (if step = 0 then SteadyState else if step = 1 then EnvironmentVariables
            else if step = 2 then AdvanceEngineTuning else TargetApplication)
      else (if step = 0 then TargetApplication else if step = 1 then SteadyState
            else if step = 2 then EnvironmentVariables else if step = 3 then AdvanceEngineTuning
            else TargetApplication))"

definition stepper_steps :: "bool \<Rightarrow> string list" where
  "stepper_steps infraEngine =
     (if infraEngine then [''Define the steady state for this application'', ''Tune Chaos Experiment'',
        ''Advance ChaosEngine Configuration'']
      else [''Target Application'', ''Define the steady state for this application'', ''Tune Chaos Experiment'',
        ''Advance ChaosEngine Configuration''])"

definition infra_engine :: "js \<Rightarrow> bool result" where
  "infra_engine engine = rmap (\<lambda>ai. \<not> truthy ai) (rbind (js_opt ''spec'' engine) (js_opt ''appinfo''))"

text \<open>Where Next and Back of a page lead.\<close>

definition next_step :: "bool \<Rightarrow> engine_page \<Rightarrow> nat option" where
  "next_step infra p = (case p of TargetApplication \<Rightarrow> Some 1 | SteadyState \<Rightarrow> Some (if infra then 1 else 2)
     | EnvironmentVariables \<Rightarrow> Some (if infra then 2 else 3) | AdvanceEngineTuning \<Rightarrow> None)"

definition back_step :: "bool \<Rightarrow> engine_page \<Rightarrow> nat option" where
  "back_step infra p = (case p of TargetApplication \<Rightarrow> None | SteadyState \<Rightarrow> (if infra then None else Some 0)
     | EnvironmentVariables \<Rightarrow> Some (if infra then 0 else 1) | AdvanceEngineTuning \<Rightarrow> Some (if infra then 1 else 2))"

section \<open>Switching advanced settings on and off\<close>

text \<open>
  The parts of an engine: its spec (\<open>sp\<close>, with the key of the experiments) and the
  components of its first experiment (\<open>cs\<close>); \<open>engine_doc\<close> puts them in their places.
\<close>

definition engine_doc :: "js \<Rightarrow> js \<Rightarrow> js list \<Rightarrow> js \<Rightarrow> js \<Rightarrow> js \<Rightarrow> js" where
  "engine_doc d e es esp sp cs = set_prop ''spec'' (set_prop ''experiments''
     (JArr (set_prop ''spec'' (set_prop ''components'' cs esp) e # es)) sp) d"

definition engine_parts :: "js \<Rightarrow> js \<Rightarrow> js \<Rightarrow> bool" where
  "engine_parts d e esp \<longleftrightarrow> is_obj d \<and> is_obj e \<and> is_obj esp"

lemma runs_within_exp:
  assumes "engine_parts d e esp" and "is_obj sp" and "is_obj cs" and "runs m cs cs'"
  shows "runs (within_exp (within ''components'' m)) (engine_doc d e es esp sp cs) (engine_doc d e es esp sp cs')"
proof -
  define E where "E = set_prop ''spec'' (set_prop ''components'' cs esp) e"
  define E' where "E' = set_prop ''spec'' (set_prop ''components'' cs' esp) e"
  note objs = assms(1) [unfolded engine_parts_def]
  have "cs \<noteq> JUndef" using assms(3) by auto
  then have "runs (within ''components'' m) (set_prop ''components'' cs esp) (set_prop ''components'' cs' esp)"
    using runs_within [of "''components''" "set_prop ''components'' cs esp" m cs'] objs assms(4) by simp
  moreover have "set_prop ''components'' cs esp \<noteq> JUndef" using objs by (cases esp) auto
  ultimately have "runs (within ''spec'' (within ''components'' m)) E E'"
    using runs_within [of "''spec''" E "within ''components'' m" "set_prop ''components'' cs' esp"] objs
    by (simp add: E_def E'_def)
  then have "runs (within_idx 0 (within ''spec'' (within ''components'' m))) (JArr (E # es)) (JArr (E' # es))"
    by (simp add: runs_def within_idx_def)
  then have "runs (within ''experiments'' (within_idx 0 (within ''spec'' (within ''components'' m))))
      (set_prop ''experiments'' (JArr (E # es)) sp) (set_prop ''experiments'' (JArr (E' # es)) sp)"
    using runs_within [of "''experiments''" "set_prop ''experiments'' (JArr (E # es)) sp" _ "JArr (E' # es)"] assms(2)
    by simp
  moreover have "set_prop ''experiments'' (JArr (E # es)) sp \<noteq> JUndef" using assms(2) by (cases sp) auto
  ultimately show ?thesis
    using runs_within [of "''spec''" "engine_doc d e es esp sp cs" _ "set_prop ''experiments'' (JArr (E' # es)) sp"] objs
    by (simp add: within_exp_def engine_doc_def E_def E'_def)
qed

lemma runs_engine_spec:
  assumes "engine_parts d e esp" and "is_obj sp" and "has_key ''experiments'' sp"
  shows "k \<noteq> ''experiments'' \<Longrightarrow>
      runs (within ''spec'' (act_upd (js_put k x))) (engine_doc d e es esp sp cs) (engine_doc d e es esp (set_prop k x sp) cs)"
    and "k \<noteq> ''experiments'' \<Longrightarrow>
      runs (within ''spec'' (act_upd (js_del k))) (engine_doc d e es esp sp cs) (engine_doc d e es esp (del_prop k sp) cs)"
proof -
  define X where "X = JArr (set_prop ''spec'' (set_prop ''components'' cs esp) e # es)"
  have d: "is_obj d" using assms(1) by (simp add: engine_parts_def)
  have fld: "fld ''spec'' (engine_doc d e es esp sp cs) = set_prop ''experiments'' X sp" "set_prop ''experiments'' X sp \<noteq> JUndef"
    "is_obj (set_prop ''experiments'' X sp)"
    using d assms(2) by (auto simp: engine_doc_def X_def elim: is_obj_E)
  show "runs (within ''spec'' (act_upd (js_put k x))) (engine_doc d e es esp sp cs) (engine_doc d e es esp (set_prop k x sp) cs)"
    if "k \<noteq> ''experiments''"
    using runs_within [of "''spec''" "engine_doc d e es esp sp cs" "act_upd (js_put k x)", OF _ runs_put] fld d
      set_prop_swap [OF assms(3), of k X x] that by (simp add: engine_doc_def X_def)
  show "runs (within ''spec'' (act_upd (js_del k))) (engine_doc d e es esp sp cs) (engine_doc d e es esp (del_prop k sp) cs)"
    if "k \<noteq> ''experiments''"
    using runs_within [of "''spec''" "engine_doc d e es esp sp cs" "act_upd (js_del k)", OF _ runs_del] fld d
      del_set_prop [OF assms(2) that, of X] by (simp add: engine_doc_def X_def)
qed

lemma engine_doc_reads:
  assumes "engine_parts d e esp" and "is_obj sp" and "is_obj cs"
  shows "k \<noteq> ''experiments'' \<Longrightarrow> rbind (js_get ''spec'' (engine_doc d e es esp sp cs)) (js_opt k) = Inr (fld k sp)"
    and "exp_component k (engine_doc d e es esp sp cs) = Inr (fld k cs)"
    and "runner_of (engine_doc d e es esp sp cs) = js_opt ''runner'' (fld ''components'' sp)"
    and "runner_selector (engine_doc d e es esp sp cs) = js_chain (\<lambda>c. rbind (js_get ''runner'' c) (js_get ''nodeSelector'')) (fld ''components'' sp)"
proof -
  define X where "X = JArr (set_prop ''spec'' (set_prop ''components'' cs esp) e # es)"
  note objs = assms(1) [unfolded engine_parts_def]
  have nn: "\<not> nullish v" if "is_obj v" for v using that by (cases v) auto
  have s: "js_get ''spec'' (engine_doc d e es esp sp cs) = Inr (set_prop ''experiments'' X sp)"
    using objs assms(2) by (simp add: engine_doc_def js_get_obj X_def)
  have o: "is_obj (set_prop ''experiments'' X sp)" using assms(2) by simp
  show "rbind (js_get ''spec'' (engine_doc d e es esp sp cs)) (js_opt k) = Inr (fld k sp)" if "k \<noteq> ''experiments''"
    using s o nn [OF o] assms(2) that by (simp add: js_opt_def js_get_obj)
  show "runner_of (engine_doc d e es esp sp cs) = js_opt ''runner'' (fld ''components'' sp)"
    "runner_selector (engine_doc d e es esp sp cs) = js_chain (\<lambda>c. rbind (js_get ''runner'' c) (js_get ''nodeSelector'')) (fld ''components'' sp)"
    using s o nn [OF o] assms(2) by (simp_all add: runner_of_def runner_selector_def js_opt_def js_get_obj)
  have "js_get ''experiments'' (set_prop ''experiments'' X sp) = Inr X" using o assms(2) by (simp add: js_get_obj)
  then show "exp_component k (engine_doc d e es esp sp cs) = Inr (fld k cs)"
    using s nn [OF o] objs assms(3) nn [of e] nn [of esp]
    by (simp add: exp_component_def first_experiment_def js_chain_def X_def js_opt_def js_get_obj nn)
qed

definition set_if :: "bool \<Rightarrow> string \<Rightarrow> js \<Rightarrow> js \<Rightarrow> js" where
  "set_if b k x v = (if b then set_prop k x v else v)"

lemma set_if_obj [simp]: "is_obj (set_if b k x v) = is_obj v"
  by (simp add: set_if_def)

lemma fld_set_if [simp]: "is_obj v \<Longrightarrow> fld l (set_if b k x v) = (if b \<and> k = l then x else fld l v)"
  by (simp add: set_if_def)

lemma has_key_set_if [simp]: "is_obj v \<Longrightarrow> has_key l (set_if b k x v) = (b \<and> k = l \<or> has_key l v)"
  by (simp add: set_if_def) blast

definition bare_engine :: "js \<Rightarrow> js \<Rightarrow> js \<Rightarrow> js \<Rightarrow> js \<Rightarrow> bool" where
  "bare_engine d e esp sp cs \<longleftrightarrow> engine_parts d e esp \<and> is_obj sp \<and> is_obj cs \<and> has_key ''experiments'' sp
     \<and> \<not> has_key ''components'' sp \<and> \<not> has_key ''annotationCheck'' sp
     \<and> \<not> has_key ''nodeSelector'' cs \<and> \<not> has_key ''tolerations'' cs"

definition selector_runner :: "advance \<Rightarrow> js" where
  "selector_runner s = jobj1 ''runner'' (jobj1 ''nodeSelector'' (selector_obj s))"

text \<open>The spec and the components after Finish, starting from a bare engine.\<close>

definition tuned_spec :: "advance \<Rightarrow> js \<Rightarrow> js" where
  "tuned_spec s sp = set_if (enableAnnotationCheck s) ''annotationCheck'' (JStr ''true'')
     (set_if (enableNodeSelector s) ''components'' (selector_runner s) sp)"

definition tuned_components :: "advance \<Rightarrow> js \<Rightarrow> js" where
  "tuned_components s cs = set_if (enableToleration s) ''tolerations'' (JArr [tolerations s])
     (set_if (enableNodeSelector s) ''nodeSelector'' (selector_obj s) cs)"

lemma runs_act_with [runs_intros]: "r v = Inr x \<Longrightarrow> runs (f x) v w \<Longrightarrow> runs (act_with r f) v w"
  by (simp add: runs_def act_with_def act_bind_def act_read_def)

lemma runs_skip: "runs (act_when False m) v v"
  by (simp add: runs_ret)

lemma runs_drop_absent:
  assumes "engine_parts d e esp" "is_obj sp" "is_obj cs" "\<not> truthy (fld k cs)"
  shows "runs (drop_component k) (engine_doc d e es esp sp cs) (engine_doc d e es esp sp cs)"
  unfolding drop_component_def
  by (rule runs_act_with [where r = "exp_component k" and x = "fld k cs", OF engine_doc_reads(2) [OF assms(1-3)]]) (use assms(4) in \<open>simp add: runs_ret\<close>)

lemma runs_drop_present:
  assumes "engine_parts d e esp" "is_obj sp" "is_obj cs" "truthy (fld k cs)"
  shows "runs (drop_component k) (engine_doc d e es esp sp cs) (engine_doc d e es esp sp (del_prop k cs))"
  unfolding drop_component_def
  by (rule runs_act_with [where r = "exp_component k" and x = "fld k cs", OF engine_doc_reads(2) [OF assms(1-3)]])
    (use assms runs_within_exp [OF assms(1-3) runs_del] in simp)

lemma runs_selector_on_off:
  assumes b: "bare_engine d e esp sp cs"
  shows "runs (selector_act s) (engine_doc d e es esp sp cs)
    (engine_doc d e es esp (set_if (enableNodeSelector s) ''components'' (selector_runner s) sp)
       (set_if (enableNodeSelector s) ''nodeSelector'' (selector_obj s) cs))"
proof -
  note p = b [unfolded bare_engine_def]
  have parts: "engine_parts d e esp" "is_obj sp" "is_obj cs" using p by auto
  have undef: "fld ''components'' sp = JUndef" "fld ''nodeSelector'' cs = JUndef" using p lacking_undef by auto
  show ?thesis
  proof (cases "enableNodeSelector s")
    case True
    define cs' where "cs' = set_prop ''nodeSelector'' (selector_obj s) cs"
    have "is_obj cs'" using parts by (simp add: cs'_def)
    note reads = engine_doc_reads(3) [OF parts(1,2) this]
    have "runs (within_exp (within ''components'' (act_upd (js_put ''nodeSelector'' (selector_obj s)))))
        (engine_doc d e es esp sp cs) (engine_doc d e es esp sp cs')"
      unfolding cs'_def by (rule runs_within_exp [OF parts runs_put [OF parts(3)]])
    moreover have "runner_of (engine_doc d e es esp sp cs') = Inr JUndef" using reads undef by (simp add: js_opt_def)
    moreover have "runs (within ''spec'' (act_upd (js_put ''components'' (selector_runner s))))
        (engine_doc d e es esp sp cs') (engine_doc d e es esp (set_prop ''components'' (selector_runner s) sp) cs')"
      by (rule runs_engine_spec(1)) (use p in auto)
    ultimately show ?thesis using True
      by (auto simp: selector_act_def add_selector_def set_if_def cs'_def selector_runner_def put_over_def
          intro!: runs_seq runs_act_with)
  next
    case False
    have "runner_selector (engine_doc d e es esp sp cs) = Inr JUndef"
      using engine_doc_reads(4) [OF parts] undef by (simp add: js_chain_def)
    then have "runs drop_runner_selector (engine_doc d e es esp sp cs) (engine_doc d e es esp sp cs)"
      unfolding drop_runner_selector_def
      by (rule runs_act_with [where r = runner_selector and x = JUndef]) (simp add: runs_ret)
    with False undef runs_drop_absent [OF parts] show ?thesis
      by (auto simp: selector_act_def set_if_def intro!: runs_seq)
  qed
qed

lemma runs_toleration_on:
  assumes "engine_parts d e esp" "is_obj sp" "is_obj cs" "\<not> has_key ''tolerations'' cs"
  shows "runs (toleration_act s) (engine_doc d e es esp sp cs)
    (engine_doc d e es esp sp (set_if (enableToleration s) ''tolerations'' (JArr [tolerations s]) cs))"
proof (cases "enableToleration s")
  case True
  have "runs (within_exp (within ''components'' (act_upd (js_put ''tolerations'' (JArr [tolerations s])))))
      (engine_doc d e es esp sp cs) (engine_doc d e es esp sp (set_prop ''tolerations'' (JArr [tolerations s]) cs))"
    by (rule runs_within_exp [OF assms(1-3) runs_put [OF assms(3)]])
  with True show ?thesis by (simp add: toleration_act_def set_if_def)
next
  case False
  with runs_drop_absent [OF assms(1-3)] lacking_undef [OF assms(4)] show ?thesis
    by (simp add: toleration_act_def set_if_def)
qed

lemma fld_engine_spec:
  assumes "engine_parts d e esp" "is_obj sp" "k \<noteq> ''experiments''"
  shows "fld k (fld ''spec'' (engine_doc d e es esp sp cs)) = fld k sp" "fld ''spec'' (engine_doc d e es esp sp cs) \<noteq> JUndef"
    "is_obj (fld ''spec'' (engine_doc d e es esp sp cs))"
  using assms by (auto simp: engine_doc_def engine_parts_def elim: is_obj_E)

lemma runs_spec_get:
  assumes "engine_parts d e esp" "is_obj sp" "k \<noteq> ''experiments''"
    and "runs (within ''spec'' (f (fld k sp))) (engine_doc d e es esp sp cs) w"
  shows "runs (within ''spec'' (act_get k f)) (engine_doc d e es esp sp cs) w"
proof -
  note v = fld_engine_spec [OF assms(1-3), of es cs]
  have "act_get k f (fld ''spec'' (engine_doc d e es esp sp cs)) = f (fld k sp) (fld ''spec'' (engine_doc d e es esp sp cs))"
    using v by (simp add: act_get_def js_get_obj)
  moreover have "is_obj (engine_doc d e es esp sp cs)" using assms(1) by (simp add: engine_doc_def engine_parts_def)
  ultimately show ?thesis using assms(4) by (simp add: runs_def within_def js_get_obj)
qed

lemma runs_within_skip:
  assumes "engine_parts d e esp" "is_obj sp"
  shows "runs (within ''spec'' (act_ret ())) (engine_doc d e es esp sp cs) (engine_doc d e es esp sp cs)"
proof -
  have "runs (within ''spec'' (act_ret ())) (engine_doc d e es esp sp cs)
      (set_prop ''spec'' (fld ''spec'' (engine_doc d e es esp sp cs)) (engine_doc d e es esp sp cs))"
    by (rule runs_within [OF fld_engine_spec(2) [OF assms, of "''x''"] runs_ret]) simp
  then show ?thesis using set_prop_id fld_engine_spec(2) [OF assms, of "''x''"] by simp
qed

lemma runs_annotation_on:
  assumes "engine_parts d e esp" "is_obj sp" "has_key ''experiments'' sp" "\<not> has_key ''annotationCheck'' sp"
  shows "runs (annotation_act s) (engine_doc d e es esp sp cs)
    (engine_doc d e es esp (set_if (enableAnnotationCheck s) ''annotationCheck'' (JStr ''true'') sp) cs)"
proof (cases "enableAnnotationCheck s")
  case True
  with runs_engine_spec(1) [OF assms(1-3)] show ?thesis by (simp add: annotation_act_def set_if_def)
next
  case False
  then show ?thesis using lacking_undef [OF assms(4)] runs_within_skip [OF assms(1,2)]
    by (auto simp: annotation_act_def set_if_def intro!: runs_spec_get [OF assms(1,2)])
qed

text \<open>Finish writes exactly the chosen settings into a bare engine.\<close>

lemma advance_act_on:
  assumes b: "bare_engine d e esp sp cs"
  shows "runs (advance_act s) (engine_doc d e es esp sp cs)
    (engine_doc d e es esp (tuned_spec s sp) (tuned_components s cs))"
proof -
  note p = b [unfolded bare_engine_def]
  define sp1 where "sp1 = set_if (enableNodeSelector s) ''components'' (selector_runner s) sp"
  define cs1 where "cs1 = set_if (enableNodeSelector s) ''nodeSelector'' (selector_obj s) cs"
  have 1: "is_obj sp1" "is_obj cs1" "\<not> has_key ''tolerations'' cs1" "has_key ''experiments'' sp1"
    "\<not> has_key ''annotationCheck'' sp1" using p by (auto simp: sp1_def cs1_def)
  have parts: "engine_parts d e esp" using p by simp
  show ?thesis
    unfolding advance_act_def
    using runs_selector_on_off [OF b, of s es] runs_toleration_on [OF parts 1(1-3), of s es]
      runs_annotation_on [OF parts 1(1,4,5), of s es]
    by (auto simp: sp1_def cs1_def tuned_spec_def tuned_components_def intro!: runs_seq)
qed

lemma runs_within_spec_key:
  assumes "engine_parts d e esp" and "is_obj sp" and "has_key ''experiments'' sp" and "k \<noteq> ''experiments''"
    and "fld k sp \<noteq> JUndef" and "runs m (fld k sp) y"
  shows "runs (within ''spec'' (within k m)) (engine_doc d e es esp sp cs) (engine_doc d e es esp (set_prop k y sp) cs)"
proof -
  define X where "X = JArr (set_prop ''spec'' (set_prop ''components'' cs esp) e # es)"
  note v = fld_engine_spec [OF assms(1,2,4), of es cs]
  have sp: "fld ''spec'' (engine_doc d e es esp sp cs) = set_prop ''experiments'' X sp"
    using assms(1) by (simp add: engine_doc_def engine_parts_def X_def)
  have "runs (within k m) (set_prop ''experiments'' X sp) (set_prop k y (set_prop ''experiments'' X sp))"
    using runs_within [of k "set_prop ''experiments'' X sp" m y] assms(2,4,5,6) by simp
  then have "runs (within ''spec'' (within k m)) (engine_doc d e es esp sp cs)
      (set_prop ''spec'' (set_prop k y (set_prop ''experiments'' X sp)) (engine_doc d e es esp sp cs))"
    using runs_within [of "''spec''" "engine_doc d e es esp sp cs" "within k m"] v(2) sp by simp
  then show ?thesis using set_prop_swap [OF assms(3), of k X y] assms(4)
    by (simp add: engine_doc_def X_def)
qed

lemma tuned_spec_off:
  assumes "bare_engine d e esp sp cs" and "enableNodeSelector s"
  shows "del_prop ''components'' (set_prop ''components'' R (tuned_spec s sp))
    = set_if (enableAnnotationCheck s) ''annotationCheck'' (JStr ''true'') sp"
proof -
  note p = assms(1) [unfolded bare_engine_def]
  have swap: "set_prop ''components'' R (set_prop ''annotationCheck'' A (set_prop ''components'' C sp))
      = set_prop ''annotationCheck'' A (set_prop ''components'' R sp)" for A C
    using set_prop_swap [of "''components''" "set_prop ''components'' C sp" "''annotationCheck''" R A] p by simp
  show ?thesis using p assms(2) by (simp add: tuned_spec_def set_if_def swap del_set_prop del_set_same)
qed

lemma tuned_components_off:
  assumes "bare_engine d e esp sp cs" and "enableNodeSelector s"
  shows "del_prop ''nodeSelector'' (tuned_components s cs) = set_if (enableToleration s) ''tolerations'' (JArr [tolerations s]) cs"
  using assms by (simp add: tuned_components_def set_if_def del_set_prop del_set_same bare_engine_def)

lemma runs_selector_off:
  assumes b: "bare_engine d e esp sp cs" and off: "\<not> enableNodeSelector t"
  shows "runs (selector_act t) (engine_doc d e es esp (tuned_spec s sp) (tuned_components s cs))
    (engine_doc d e es esp (set_if (enableAnnotationCheck s) ''annotationCheck'' (JStr ''true'') sp)
       (set_if (enableToleration s) ''tolerations'' (JArr [tolerations s]) cs))"
proof -
  note p = b [unfolded bare_engine_def]
  have parts: "engine_parts d e esp" and obj: "is_obj (tuned_spec s sp)" "is_obj (tuned_components s cs)"
    and ex: "has_key ''experiments'' (tuned_spec s sp)"
    using p by (auto simp: tuned_spec_def tuned_components_def)
  have comp: "fld ''components'' (tuned_spec s sp) = (if enableNodeSelector s then selector_runner s else JUndef)"
    "fld ''nodeSelector'' (tuned_components s cs) = (if enableNodeSelector s then selector_obj s else JUndef)"
    using p lacking_undef by (auto simp: tuned_spec_def tuned_components_def)
  note sel = engine_doc_reads(4) [OF parts obj, of es]
  show ?thesis
  proof (cases "enableNodeSelector s")
    case False
    then have "runner_selector (engine_doc d e es esp (tuned_spec s sp) (tuned_components s cs)) = Inr JUndef"
      using sel comp by (simp add: js_chain_def)
    then have "runs drop_runner_selector (engine_doc d e es esp (tuned_spec s sp) (tuned_components s cs))
        (engine_doc d e es esp (tuned_spec s sp) (tuned_components s cs))"
      unfolding drop_runner_selector_def by (rule runs_act_with [where r = runner_selector and x = JUndef]) (simp add: runs_ret)
    moreover have "runs (drop_component ''nodeSelector'') (engine_doc d e es esp (tuned_spec s sp) (tuned_components s cs))
        (engine_doc d e es esp (tuned_spec s sp) (tuned_components s cs))"
      using runs_drop_absent [OF parts obj] comp False by simp
    ultimately show ?thesis using off False
      by (auto simp: selector_act_def tuned_spec_def tuned_components_def set_if_def intro!: runs_seq)
  next
    case True
    define sp1 where "sp1 = set_prop ''components'' (jobj1 ''runner'' (JObj [])) (tuned_spec s sp)"
    define sp2 where "sp2 = del_prop ''components'' sp1"
    have sp2: "sp2 = set_if (enableAnnotationCheck s) ''annotationCheck'' (JStr ''true'') sp"
      unfolding sp2_def sp1_def by (rule tuned_spec_off [OF b True])
    have 1: "is_obj sp1" "has_key ''experiments'' sp1" "fld ''components'' sp1 = jobj1 ''runner'' (JObj [])"
      using obj ex by (auto simp: sp1_def)
    have 2: "is_obj sp2" using p by (simp add: sp2)
    have x: "runner_selector (engine_doc d e es esp (tuned_spec s sp) (tuned_components s cs)) = Inr (selector_obj s)"
      using sel comp True by (simp add: js_chain_def selector_runner_def obj_get_def)
    have "runs (within ''runner'' (act_upd (js_del ''nodeSelector''))) (selector_runner s) (jobj1 ''runner'' (JObj []))"
      by (simp add: runs_def within_def selector_runner_def obj_get_def act_upd_def)
    then have del: "runs (within_path [''spec'', ''components'', ''runner''] (act_upd (js_del ''nodeSelector'')))
        (engine_doc d e es esp (tuned_spec s sp) (tuned_components s cs)) (engine_doc d e es esp sp1 (tuned_components s cs))"
      unfolding sp1_def using runs_within_spec_key [OF parts obj(1) ex, of "''components''"] comp True
      by (simp add: selector_runner_def)
    have "runner_of (engine_doc d e es esp sp1 (tuned_components s cs)) = Inr (JObj [])"
      using engine_doc_reads(3) [OF parts 1(1) obj(2)] 1(3) by (simp add: js_opt_def obj_get_def)
    then have "runs drop_empty_runner (engine_doc d e es esp sp1 (tuned_components s cs))
        (engine_doc d e es esp sp2 (tuned_components s cs))"
      unfolding drop_empty_runner_def
      by (rule runs_act_with) (rule runs_act_with [where x = 0], simp,
        use runs_engine_spec(2) [OF parts 1(1,2), of "''components''"] in \<open>simp add: sp2_def\<close>)
    with del have "runs drop_runner_selector (engine_doc d e es esp (tuned_spec s sp) (tuned_components s cs))
        (engine_doc d e es esp sp2 (tuned_components s cs))"
      unfolding drop_runner_selector_def
      by (intro runs_act_with [where r = runner_selector, OF x]) (auto simp: selector_obj_def intro: runs_seq)
    moreover have "runs (drop_component ''nodeSelector'') (engine_doc d e es esp sp2 (tuned_components s cs))
        (engine_doc d e es esp sp2 (set_if (enableToleration s) ''tolerations'' (JArr [tolerations s]) cs))"
      using runs_drop_present [OF parts 2 obj(2), of "''nodeSelector''"] comp True tuned_components_off [OF b True]
      by (simp add: selector_obj_def)
    ultimately show ?thesis using off sp2 by (auto simp: selector_act_def intro!: runs_seq)
  qed
qed


text \<open>Enabling the selector replaces all of \<open>spec.components\<close> by the runner.\<close>

theorem selector_overwrites_components:
  assumes "engine_parts d e esp" "is_obj sp" "is_obj cs" "has_key ''experiments'' sp"
    and "fld ''components'' sp = c" and "is_obj c"
  shows "run_act (add_selector s) (engine_doc d e es esp sp cs) = Inr (engine_doc d e es esp
    (set_prop ''components'' (jobj1 ''runner'' (put_over ''nodeSelector'' (selector_obj s) (fld ''runner'' c))) sp)
    (set_prop ''nodeSelector'' (selector_obj s) cs))"
proof -
  define cs' where "cs' = set_prop ''nodeSelector'' (selector_obj s) cs"
  have cs': "is_obj cs'" using assms(3) by (simp add: cs'_def)
  have "\<not> nullish c" using assms(6) by (cases c) auto
  then have r: "runner_of (engine_doc d e es esp sp cs') = Inr (fld ''runner'' c)"
    using engine_doc_reads(3) [OF assms(1,2) cs'] assms(5,6) by (simp add: js_opt_def js_get_obj)
  have "runs (within_exp (within ''components'' (act_upd (js_put ''nodeSelector'' (selector_obj s)))))
      (engine_doc d e es esp sp cs) (engine_doc d e es esp sp cs')"
    unfolding cs'_def by (rule runs_within_exp [OF assms(1-3) runs_put [OF assms(3)]])
  then have "runs (add_selector s) (engine_doc d e es esp sp cs) (engine_doc d e es esp
      (set_prop ''components'' (jobj1 ''runner'' (put_over ''nodeSelector'' (selector_obj s) (fld ''runner'' c))) sp) cs')"
    unfolding add_selector_def using runs_engine_spec(1) [OF assms(1,2,4)]
    by (elim runs_seq) (rule runs_act_with [where r = runner_of, OF r], simp)
  then show ?thesis by (simp add: runs_def run_act_def cs'_def)
qed

lemma components_without_runner_throw:
  assumes "engine_parts d e esp" "is_obj sp" "is_obj cs"
    and "is_obj (fld ''components'' sp)" "fld ''runner'' (fld ''components'' sp) = JUndef" and "\<not> enableNodeSelector s"
  shows "run_act (selector_act s) (engine_doc d e es esp sp cs) = Inl TypeErr"
proof -
  have "\<not> nullish (fld ''components'' sp)" using assms(4) by (cases "fld ''components'' sp") auto
  then have "runner_selector (engine_doc d e es esp sp cs) = Inl TypeErr"
    using engine_doc_reads(4) [OF assms(1-3)] assms(4,5) by (simp add: js_chain_def js_get_obj)
  then show ?thesis using assms(6)
    by (simp add: selector_act_def drop_runner_selector_def act_with_def run_act_def act_defs)
qed

section \<open>What the environment page keeps\<close>

inductive env_edited :: "env_page \<Rightarrow> env_page \<Rightarrow> bool" where
  env_start: "env_edited s s"
| env_edit: "env_edited s t \<Longrightarrow> editEnv i v t = Inr u \<Longrightarrow> env_edited s u"
| env_more: "env_edited s t \<Longrightarrow> env_edited s (toggleShowMore t)"
| env_name: "env_edited s t \<Longrightarrow> env_edited s (setAddName n t)"
| env_value: "env_edited s t \<Longrightarrow> env_edited s (setAddValue n t)"
| env_add: "env_edited s t \<Longrightarrow> env_edited s (addKeyValue t)"

definition env_names :: "env_page \<Rightarrow> js list" where
  "env_names s = map (fld ''name'') (env s)"

lemma editEnv_names:
  assumes "editEnv i v s = Inr t" and "list_all is_obj (env s)"
  shows "env_names t = env_names s \<and> list_all is_obj (env t)"
proof (cases "i < length (getShowMoreItems s)")
  case True
  then have i: "i < length (env s)" by (auto simp: getShowMoreItems_def split: if_splits)
  then have o: "is_obj (env s ! i)" using assms(2) by (simp add: list_all_length)
  define x where "x = set_prop ''value'' (JStr v) (env s ! i)"
  have x: "is_obj x" "fld ''name'' x = fld ''name'' (env s ! i)" using o by (simp_all add: x_def)
  have "t = s\<lparr>env := (env s)[i := x]\<rparr>" using assms(1) True o by (simp add: editEnv_def js_put_obj x_def)
  with x i assms(2) show ?thesis
    by (auto simp: env_names_def map_update list_all_iff list_update_same_conv dest: set_update_subset_insert [THEN subsetD])
next
  case False
  with assms show ?thesis by (simp add: editEnv_def)
qed

theorem env_page_keeps_variables:
  assumes "env_edited s t" and "list_all is_obj (env s)"
  shows "list_all is_obj (env t) \<and> (\<exists>more. env_names t = env_names s @ more \<and> (\<forall>m \<in> set more. m \<noteq> JStr ''''))"
  using assms
proof (induction rule: env_edited.induct)
  case (env_edit s t i v u)
  then show ?case using editEnv_names by auto
next
  case (env_add s t)
  then obtain more where more: "list_all is_obj (env t)" "env_names t = env_names s @ more"
    "\<forall>m \<in> set more. m \<noteq> JStr ''''" by blast
  have "js_trim (add_name t) = ''''" if "add_name t = ''''" using that by (simp add: js_trim_def)
  then have "addKeyValue t = t \<or> env_names (addKeyValue t) = env_names s @ more @ [JStr (add_name t)]
      \<and> add_name t \<noteq> '''' \<and> list_all is_obj (env (addKeyValue t))"
    using more by (auto simp: addKeyValue_def env_names_def obj_get_def)
  then show ?case
  proof
    assume "addKeyValue t = t" with more show ?thesis by auto
  next
    assume a: "env_names (addKeyValue t) = env_names s @ more @ [JStr (add_name t)] \<and> add_name t \<noteq> ''''
      \<and> list_all is_obj (env (addKeyValue t))"
    with more(3) show ?thesis by (intro conjI exI [of _ "more @ [JStr (add_name t)]"]) auto
  qed
qed (auto simp: env_names_def toggleShowMore_def setAddName_def setAddValue_def)

lemma env_next_writes:
  assumes "engine_parts d e esp" "is_obj sp" "is_obj cs"
  shows "run_act (put_env vs) (engine_doc d e es esp sp cs) = Inr (engine_doc d e es esp sp (set_prop ''env'' (JArr vs) cs))"
  using runs_within_exp [OF assms runs_put [OF assms(3)]] by (simp add: put_env_def runs_def run_act_def)

text \<open>Next and Back of each page lead to its neighbours.\<close>

lemma stepper_neighbours:
  assumes "Suc i < length (stepper_steps infra)"
  shows "next_step infra (getStepContent i infra) = Some (Suc i)"
    "back_step infra (getStepContent (Suc i) infra) = Some i"
  using assms by (auto simp: stepper_steps_def getStepContent_def next_step_def back_step_def split: if_splits)

end
