(* ===== verification/EngineWitness.thy ===== *)
theory EngineWitness
  imports Engine ManifestWitness
begin

text \<open>A chaos engine with one variable and two probes, on which the theorems about the
  engine's pages and the probe drawer are applied.\<close>

definition probe_a :: js where
  "probe_a = JObj [(''name'', JStr ''check-a''), (''type'', JStr ''cmdProbe''), (''mode'', JStr ''SOT''),
     (''runProperties'', JObj [(''probeTimeout'', JNum 5), (''interval'', JNum 2)]), (''cmdProbe/inputs'', JObj [])]"

definition probe_b :: js where
  "probe_b = JObj [(''name'', JStr ''check-b''), (''type'', JStr ''httpProbe''), (''mode'', JStr ''EOT''),
     (''runProperties'', JObj [(''probeTimeout'', JNum 5), (''initialDelaySeconds'', JNaN)]), (''httpProbe/inputs'', JObj [])]"

definition two_probes :: "nat \<Rightarrow> drawer" where
  "two_probes i = (drawer_init [probe_a, probe_b])\<lparr>selectedProbe := i\<rparr>"

definition components_a :: js where
  "components_a = JObj [(''env'', JArr [JObj [(''name'', JStr ''FORCE''), (''value'', JStr ''true'')]])]"

definition exp_spec_a :: js where
  "exp_spec_a = JObj [(''components'', components_a), (''probe'', JArr [probe_a, probe_b])]"

definition experiment_a :: js where
  "experiment_a = JObj [(''name'', JStr ''pod-delete''), (''spec'', exp_spec_a)]"

definition spec_a :: js where
  "spec_a = JObj [(''engineState'', JStr ''active''), (''experiments'', JArr [experiment_a])]"

definition engine_a :: js where
  "engine_a = JObj [(''kind'', JStr ''ChaosEngine''), (''spec'', spec_a)]"

lemmas engine_a_defs = engine_a_def spec_a_def experiment_a_def exp_spec_a_def components_a_def

lemma probes_ok: "probe_ok probe_a" "probe_ok probe_b"
  by (simp_all add: probe_ok_def probe_a_def probe_b_def obj_get_def)

lemma two_probes_ok: "drawer_ok (two_probes i)" "probes (two_probes i) = [probe_a, probe_b]"
  "selectedProbe (two_probes i) = i"
  by (simp_all add: drawer_ok_def two_probes_def drawer_init_def probes_ok)

lemma put_probes_engine_a:
  "\<exists>d'. run_act (put_probes ps) engine_a = Inr d'"
  by (simp add: put_probes_def engine_a_defs run_act_def within_def within_idx_def obj_get_def act_upd_def)

theorem deleteProbe_outcome_witness:
  "deleteProbe plain_yaml 0 (enc engine_a) (two_probes 1) = Inl TypeErr
   \<and> (\<exists>e s'. deleteProbe plain_yaml 1 (enc engine_a) (two_probes 0) = Inr (e, s') \<and> after_delete 1 (two_probes 0) s')"
proof -
  obtain d0 where d0: "run_act (put_probes (remove_at 0 (probes (two_probes 1)))) engine_a = Inr d0"
    using put_probes_engine_a by blast
  obtain d1 where d1: "run_act (put_probes (remove_at 1 (probes (two_probes 0)))) engine_a = Inr d1"
    using put_probes_engine_a by blast
  have "in_range (two_probes 1)" "in_range (two_probes 0)" by (simp_all add: in_range_def two_probes_ok)
  then show ?thesis
    using deleteProbe_outcome [OF two_probes_ok(1), of 1 0 plain_yaml "enc engine_a" engine_a d0]
      deleteProbe_outcome [OF two_probes_ok(1), of 0 1 plain_yaml "enc engine_a" engine_a d1] d0 d1
    by (auto simp: two_probes_ok)
qed


definition settings_a :: "bool \<Rightarrow> advance" where
  "settings_a b = \<lparr>enableAnnotationCheck = b, enableNodeSelector = b, enableToleration = b,
     nodeSelectorKey = ''disk'', nodeSelectorValue = JStr ''ssd'', tolerations = blank_toleration\<rparr>"

lemma engine_a_bare: "bare_engine engine_a experiment_a exp_spec_a spec_a components_a"
  by (simp add: bare_engine_def engine_parts_def engine_a_defs has_key_def)

lemma engine_a_doc: "engine_a = engine_doc engine_a experiment_a [] exp_spec_a spec_a components_a"
  by (simp add: engine_doc_def engine_a_defs)


definition env_a :: env_page where
  "env_a = \<lparr>env = [JObj [(''name'', JStr ''FORCE''), (''value'', JStr ''true'')]], add_name = ''A'', add_value = ''b'', showMore = False\<rparr>"

theorem env_page_keeps_variables_witness:
  "env_names (addKeyValue env_a) = [JStr ''FORCE'', JStr ''A'']
   \<and> (\<exists>more. env_names (addKeyValue env_a) = env_names env_a @ more \<and> (\<forall>m \<in> set more. m \<noteq> JStr ''''))"
proof -
  have "env_edited env_a (addKeyValue env_a)" by (intro env_add env_start)
  moreover have "list_all is_obj (env env_a)" by (simp add: env_a_def)
  moreover have "env_names (addKeyValue env_a) = [JStr ''FORCE'', JStr ''A'']" by code_simp
  ultimately show ?thesis using env_page_keeps_variables [of env_a "addKeyValue env_a"] by blast
qed

end
