(* ===== verification/ObsTables.thy ===== *)
theory ObsTables
  imports Formatting PromData Complex_Main
begin

text \<open>
  The tables of \<open>views/Observability\<close>: data sources, dashboards, the tests of a run, chaos
  events and the comparison of scenarios. Each filters the rows of a reply, sorts them by a
  chosen field and shows one page. Timestamps are the numbers their texts read as (a text
  without a number would make the comparator inconsistent); \<open>day_start\<close> and \<open>day_end\<close> are the
  times moment gives for the chosen days.
\<close>

section \<open>What the tables share\<close>

record RangeOfDays =
  range_start :: string
  range_end :: "string option"

definition all_days :: RangeOfDays where
  "all_days = \<lparr>range_start = ''all'', range_end = Some ''all''\<rparr>"

definition in_days :: "(string \<Rightarrow> int) \<Rightarrow> (string option \<Rightarrow> int) \<Rightarrow> RangeOfDays \<Rightarrow> int \<Rightarrow> bool" where
  "in_days day_start day_end r t \<longleftrightarrow>
     range_start r = ''all'' \<or> (range_start r \<noteq> '''' \<and> range_end r = None)
     \<or> (day_start (range_start r) \<le> t * 1000 \<and> t * 1000 \<le> day_end (range_end r))"

definition search_tokens :: "string \<Rightarrow> string list" where
  "search_tokens v = filter (\<lambda>s. s \<noteq> '''') (js_split (js_lower v) '' '')"

definition one_of :: "string \<Rightarrow> string \<Rightarrow> bool" where
  "one_of choice v \<longleftrightarrow> choice = ''All'' \<or> v = choice"

text \<open>\<open>slice(page * rows, page * rows + rows)\<close>.\<close>

definition page_rows :: "nat \<Rightarrow> nat \<Rightarrow> 'a list \<Rightarrow> 'a list" where
  "page_rows page rows xs = take rows (drop (page * rows) xs)"

fun unique_list :: "string list \<Rightarrow> string list \<Rightarrow> string list" where
  "unique_list acc [] = acc"
| "unique_list acc (x # xs) = unique_list (if x \<in> set acc then acc else acc @ [x]) xs"

record sort_choice =
  sorts :: bool
  ascending :: bool

definition off :: sort_choice where
  "off = \<lparr>sorts = False, ascending = True\<rparr>"

definition by_text :: "sort_choice \<Rightarrow> string \<Rightarrow> string \<Rightarrow> int" where
  "by_text c x y = (if ascending c then sortAlphaAsc x y else sortAlphaDesc x y)"

definition by_time :: "sort_choice \<Rightarrow> 'a :: linorder \<Rightarrow> 'a \<Rightarrow> int" where
  "by_time c x y = (if ascending c then sortNumAsc x y else sortNumDesc x y)"

subsection \<open>Rows on pages\<close>

lemma pages_cover:
  "0 < n \<Longrightarrow> length xs \<le> k * n \<Longrightarrow> concat (map (\<lambda>p. page_rows p n xs) [0..<k]) = xs"
proof (induction k arbitrary: xs)
  case (Suc k)
  have tail: "map (\<lambda>p. page_rows p n xs) [Suc 0..<Suc k] = map (\<lambda>p. page_rows p n (drop n xs)) [0..<k]"
  proof -
    have "map (\<lambda>p. page_rows p n xs) [Suc 0..<Suc k] = map (\<lambda>p. page_rows (Suc p) n xs) [0..<k]"
      by (simp add: map_Suc_upt [symmetric] comp_def del: upt_Suc map_Suc_upt)
    then show ?thesis by (simp add: page_rows_def add.commute)
  qed
  have "[0..<Suc k] = 0 # [Suc 0..<Suc k]" by (rule upt_conv_Cons) simp
  then have "concat (map (\<lambda>p. page_rows p n xs) [0..<Suc k]) =
      page_rows 0 n xs @ concat (map (\<lambda>p. page_rows p n (drop n xs)) [0..<k])"
    by (simp only: list.map concat.simps tail)
  moreover have "concat (map (\<lambda>p. page_rows p n (drop n xs)) [0..<k]) = drop n xs"
    using Suc by simp
  ultimately show ?case by (simp add: page_rows_def)
qed simp

lemma unique_list_set: "set (unique_list acc xs) = set acc \<union> set xs"
  by (induction acc xs rule: unique_list.induct) auto

lemma unique_list_distinct: "distinct acc \<Longrightarrow> distinct (unique_list acc xs)"
  by (induction acc xs rule: unique_list.induct) auto

text \<open>A table is a list filtered by its choices and sorted by a comparator.\<close>

locale table = comparator cmp for cmp :: "'a \<Rightarrow> 'a \<Rightarrow> int" +
  fixes keep :: "'a \<Rightarrow> bool" and payload :: "'a list \<Rightarrow> 'a list"
  assumes payload: "payload xs = js_sort cmp (filter keep xs)"
begin

lemma payload_mset: "mset (payload xs) = filter_mset keep (mset xs)"
  by (simp add: payload mset_js_sort)

lemma payload_sorted: "sorted_wrt (\<lambda>a b. cmp a b \<le> 0) (payload xs)"
  by (simp add: payload sort_sorted)

lemma payload_stable: "filter (\<lambda>y. cmp z y = 0) (payload xs) = filter (\<lambda>y. cmp z y = 0) (filter keep xs)"
  by (simp add: payload sort_stable)

lemma payload_pages:
  "0 < n \<Longrightarrow> length (payload xs) \<le> k * n \<Longrightarrow>
     mset (concat (map (\<lambda>p. page_rows p n (payload xs)) [0..<k])) = filter_mset keep (mset xs)"
  by (simp add: pages_cover payload_mset)

end

lemma comparator_on: "comparator c \<Longrightarrow> comparator (\<lambda>a b. c (f a) (f b))"
  by (auto simp: comparator_def)

lemma comparator_by_text: "comparator (by_text c)"
proof (cases "ascending c")
  case True
  then have "by_text c = sortAlphaAsc" by (simp add: by_text_def fun_eq_iff)
  then show ?thesis by (simp add: alpha.comparator_axioms)
next
  case False
  then have "by_text c = sortAlphaDesc" by (simp add: by_text_def fun_eq_iff)
  then show ?thesis by (simp add: alpha.rev.comparator_axioms)
qed

lemma comparator_by_time: "comparator (by_time c :: 'a :: linorder \<Rightarrow> 'a \<Rightarrow> int)"
proof (cases "ascending c")
  case True
  then have "(by_time c :: 'a \<Rightarrow> 'a \<Rightarrow> int) = sortNumAsc" by (simp add: by_time_def fun_eq_iff)
  then show ?thesis by (simp add: num.comparator_axioms)
next
  case False
  then have "(by_time c :: 'a \<Rightarrow> 'a \<Rightarrow> int) = sortNumDesc" by (simp add: by_time_def fun_eq_iff)
  then show ?thesis by (simp add: num.rev.comparator_axioms)
qed

lemma comparator_const: "comparator (\<lambda>a b. 0)"
  by unfold_locales auto

lemma comparator_flip: "comparator c \<Longrightarrow> comparator (\<lambda>a b. c b a)"
  unfolding comparator_def by metis

section \<open>Data sources\<close>

record DataSource =
  dsID :: string
  dsName :: string
  healthStatus :: string
  updatedAt :: int

record ds_filter =
  ds_range :: RangeOfDays
  ds_by_name :: sort_choice
  ds_by_time :: sort_choice
  selectedStatus :: string
  ds_tokens :: "string list"

record ds_table =
  ds_filters :: ds_filter
  ds_page :: nat
  ds_rows :: nat

definition ds_init :: ds_table where
  "ds_init = \<lparr>ds_filters = \<lparr>ds_range = all_days, ds_by_name = off, ds_by_time = \<lparr>sorts = True, ascending = False\<rparr>,
     selectedStatus = ''All'', ds_tokens = ['''']\<rparr>, ds_page = 0, ds_rows = 5\<rparr>"

definition ds_keep :: "(string \<Rightarrow> int) \<Rightarrow> (string option \<Rightarrow> int) \<Rightarrow> ds_filter \<Rightarrow> DataSource \<Rightarrow> bool" where
  "ds_keep day_start day_end f d \<longleftrightarrow>
     list_all (\<lambda>s. js_includes (js_lower (dsName d)) s) (ds_tokens f)
   \<and> one_of (selectedStatus f) (healthStatus d)
   \<and> in_days day_start day_end (ds_range f) (updatedAt d)"

definition ds_cmp :: "ds_filter \<Rightarrow> DataSource \<Rightarrow> DataSource \<Rightarrow> int" where
  "ds_cmp f a b = (if sorts (ds_by_name f) then by_text (ds_by_name f) (dsName a) (dsName b)
     else if sorts (ds_by_time f) then by_time (ds_by_time f) (updatedAt a) (updatedAt b) else 0)"

definition ds_payload :: "(string \<Rightarrow> int) \<Rightarrow> (string option \<Rightarrow> int) \<Rightarrow> ds_filter \<Rightarrow> DataSource list \<Rightarrow> DataSource list" where
  "ds_payload day_start day_end f ds = js_sort (ds_cmp f)
     (filter (\<lambda>d. in_days day_start day_end (ds_range f) (updatedAt d))
     (filter (\<lambda>d. one_of (selectedStatus f) (healthStatus d))
     (filter (\<lambda>d. list_all (\<lambda>s. js_includes (js_lower (dsName d)) s) (ds_tokens f)) ds)))"

datatype ds_event =
    ds_search string
  | ds_status string
  | ds_days RangeOfDays
  | ds_sort_name bool
  | ds_sort_time bool
  | ds_turn nat
  | ds_per_page nat

fun ds_handle :: "ds_event \<Rightarrow> ds_table \<Rightarrow> ds_table" where
  "ds_handle (ds_search v) s = s\<lparr>ds_filters := (ds_filters s)\<lparr>ds_tokens := search_tokens v\<rparr>, ds_page := 0\<rparr>"
| "ds_handle (ds_status v) s = s\<lparr>ds_filters := (ds_filters s)\<lparr>selectedStatus := v\<rparr>, ds_page := 0\<rparr>"
| "ds_handle (ds_days r) s = s\<lparr>ds_filters := (ds_filters s)\<lparr>ds_range := r\<rparr>, ds_page := 0\<rparr>"
| "ds_handle (ds_sort_name asc) s = s\<lparr>ds_filters := (ds_filters s)\<lparr>ds_by_name := \<lparr>sorts = True, ascending = asc\<rparr>, ds_by_time := off\<rparr>\<rparr>"
| "ds_handle (ds_sort_time asc) s = s\<lparr>ds_filters := (ds_filters s)\<lparr>ds_by_name := off, ds_by_time := \<lparr>sorts = True, ascending = asc\<rparr>\<rparr>\<rparr>"
| "ds_handle (ds_turn p) s = s\<lparr>ds_page := p\<rparr>"
| "ds_handle (ds_per_page n) s = s\<lparr>ds_rows := n, ds_page := 0\<rparr>"

definition getStatus :: "DataSource list \<Rightarrow> string list" where
  "getStatus ds = unique_list [] (map healthStatus ds)"

definition ds_shown :: "(string \<Rightarrow> int) \<Rightarrow> (string option \<Rightarrow> int) \<Rightarrow> ds_table \<Rightarrow> DataSource list \<Rightarrow> DataSource list" where
  "ds_shown day_start day_end s ds = page_rows (ds_page s) (ds_rows s) (ds_payload day_start day_end (ds_filters s) ds)"

lemma comparator_ds: "comparator (ds_cmp f)"
proof -
  have "ds_cmp f = (if sorts (ds_by_name f) then (\<lambda>a b. by_text (ds_by_name f) (dsName a) (dsName b))
     else if sorts (ds_by_time f) then (\<lambda>a b. by_time (ds_by_time f) (updatedAt a) (updatedAt b)) else (\<lambda>a b. 0))"
    by (simp add: fun_eq_iff ds_cmp_def)
  then show ?thesis
    by (simp add: comparator_const comparator_on [OF comparator_by_text] comparator_on [OF comparator_by_time])
qed

interpretation ds: table "ds_cmp f" "ds_keep day_start day_end f" "ds_payload day_start day_end f" for f day_start day_end
proof (intro table.intro table_axioms.intro comparator_ds)
  fix xs
  have "filter (\<lambda>d. in_days day_start day_end (ds_range f) (updatedAt d))
     (filter (\<lambda>d. one_of (selectedStatus f) (healthStatus d))
     (filter (\<lambda>d. list_all (\<lambda>s. js_includes (js_lower (dsName d)) s) (ds_tokens f)) xs)) = filter (ds_keep day_start day_end f) xs"
    by (simp add: ds_keep_def [abs_def] conj_ac)
  then show "ds_payload day_start day_end f xs = js_sort (ds_cmp f) (filter (ds_keep day_start day_end f) xs)"
    by (simp add: ds_payload_def)
qed

section \<open>Dashboards\<close>

record Dashboard =
  dbID :: string
  dbName :: string
  dbTypeName :: string
  db_clusterName :: string
  viewedAt :: int

record db_filter =
  db_range :: RangeOfDays
  selectedDashboardType :: string
  db_by_name :: sort_choice
  db_by_time :: sort_choice
  selectedAgentName :: string
  db_tokens :: "string list"

record db_table =
  db_filters :: db_filter
  db_page :: nat
  db_rows :: nat
  activeDataSourceAvailable :: bool

definition db_init :: db_table where
  "db_init = \<lparr>db_filters = \<lparr>db_range = all_days, selectedDashboardType = ''All'', db_by_name = off,
     db_by_time = \<lparr>sorts = True, ascending = False\<rparr>, selectedAgentName = ''All'', db_tokens = ['''']\<rparr>,
     db_page = 0, db_rows = 5, activeDataSourceAvailable = False\<rparr>"

definition db_keep :: "(string \<Rightarrow> int) \<Rightarrow> (string option \<Rightarrow> int) \<Rightarrow> db_filter \<Rightarrow> Dashboard \<Rightarrow> bool" where
  "db_keep day_start day_end f d \<longleftrightarrow>
     list_all (\<lambda>s. js_includes (js_lower (dbName d)) s) (db_tokens f)
   \<and> one_of (selectedDashboardType f) (dbTypeName d)
   \<and> one_of (selectedAgentName f) (db_clusterName d)
   \<and> in_days day_start day_end (db_range f) (viewedAt d)"

definition db_cmp :: "db_filter \<Rightarrow> Dashboard \<Rightarrow> Dashboard \<Rightarrow> int" where
  "db_cmp f a b = (if sorts (db_by_name f) then by_text (db_by_name f) (dbName a) (dbName b)
     else if sorts (db_by_time f) then by_time (db_by_time f) (viewedAt a) (viewedAt b) else 0)"

definition db_payload :: "(string \<Rightarrow> int) \<Rightarrow> (string option \<Rightarrow> int) \<Rightarrow> db_filter \<Rightarrow> Dashboard list \<Rightarrow> Dashboard list" where
  "db_payload day_start day_end f ds = js_sort (db_cmp f)
     (filter (\<lambda>d. in_days day_start day_end (db_range f) (viewedAt d))
     (filter (\<lambda>d. one_of (selectedAgentName f) (db_clusterName d))
     (filter (\<lambda>d. one_of (selectedDashboardType f) (dbTypeName d))
     (filter (\<lambda>d. list_all (\<lambda>s. js_includes (js_lower (dbName d)) s) (db_tokens f)) ds))))"

datatype db_event =
    db_search string
  | db_type string
  | db_agent string
  | db_days RangeOfDays
  | db_sort_name bool
  | db_sort_time bool
  | db_turn nat
  | db_per_page nat
  | db_sources_came "DataSource list"

text \<open>An active data source is remembered: the effect only ever switches the flag on.\<close>

fun db_handle :: "db_event \<Rightarrow> db_table \<Rightarrow> db_table" where
  "db_handle (db_search v) s = s\<lparr>db_filters := (db_filters s)\<lparr>db_tokens := search_tokens v\<rparr>, db_page := 0\<rparr>"
| "db_handle (db_type v) s = s\<lparr>db_filters := (db_filters s)\<lparr>selectedDashboardType := v\<rparr>, db_page := 0\<rparr>"
| "db_handle (db_agent v) s = s\<lparr>db_filters := (db_filters s)\<lparr>selectedAgentName := v\<rparr>, db_page := 0\<rparr>"
| "db_handle (db_days r) s = s\<lparr>db_filters := (db_filters s)\<lparr>db_range := r\<rparr>, db_page := 0\<rparr>"
| "db_handle (db_sort_name asc) s = s\<lparr>db_filters := (db_filters s)\<lparr>db_by_name := \<lparr>sorts = True, ascending = asc\<rparr>, db_by_time := off\<rparr>\<rparr>"
| "db_handle (db_sort_time asc) s = s\<lparr>db_filters := (db_filters s)\<lparr>db_by_name := off, db_by_time := \<lparr>sorts = True, ascending = asc\<rparr>\<rparr>\<rparr>"
| "db_handle (db_turn p) s = s\<lparr>db_page := p\<rparr>"
| "db_handle (db_per_page n) s = s\<lparr>db_rows := n, db_page := 0\<rparr>"
| "db_handle (db_sources_came ds) s = (if filter (\<lambda>d. healthStatus d = ''Active'') ds \<noteq> []
     then s\<lparr>activeDataSourceAvailable := True\<rparr> else s)"

definition getDashboardType :: "Dashboard list \<Rightarrow> string list" where
  "getDashboardType ds = unique_list [] (map dbTypeName ds)"

definition getAgentName :: "Dashboard list \<Rightarrow> string list" where
  "getAgentName ds = unique_list [] (map db_clusterName ds)"

definition db_shown :: "(string \<Rightarrow> int) \<Rightarrow> (string option \<Rightarrow> int) \<Rightarrow> db_table \<Rightarrow> Dashboard list \<Rightarrow> Dashboard list" where
  "db_shown day_start day_end s ds = page_rows (db_page s) (db_rows s) (db_payload day_start day_end (db_filters s) ds)"

lemma comparator_db: "comparator (db_cmp f)"
proof -
  have "db_cmp f = (if sorts (db_by_name f) then (\<lambda>a b. by_text (db_by_name f) (dbName a) (dbName b))
     else if sorts (db_by_time f) then (\<lambda>a b. by_time (db_by_time f) (viewedAt a) (viewedAt b)) else (\<lambda>a b. 0))"
    by (simp add: fun_eq_iff db_cmp_def)
  then show ?thesis
    by (simp add: comparator_const comparator_on [OF comparator_by_text] comparator_on [OF comparator_by_time])
qed

interpretation db: table "db_cmp f" "db_keep day_start day_end f" "db_payload day_start day_end f" for f day_start day_end
  by (intro table.intro table_axioms.intro comparator_db)
     (simp add: db_payload_def db_keep_def [abs_def] conj_ac)

section \<open>The tests of a run\<close>

record workFlowTests =
  test_id :: nat
  test_name :: string
  test_result :: string
  test_weight :: int
  resulting_points :: rat
  last_run :: int

record test_filter =
  t_range :: RangeOfDays
  selectedTest :: string
  t_by_name :: sort_choice
  t_by_time :: sort_choice
  t_by_result :: sort_choice
  selectedTestResult :: string
  t_tokens :: "string list"

definition test_keep :: "(string \<Rightarrow> int) \<Rightarrow> (string option \<Rightarrow> int) \<Rightarrow> test_filter \<Rightarrow> workFlowTests \<Rightarrow> bool" where
  "test_keep day_start day_end f d \<longleftrightarrow>
     list_all (\<lambda>s. js_includes (js_lower (test_name d)) s \<or> js_includes (js_lower (test_result d)) s) (t_tokens f)
   \<and> one_of (selectedTest f) (test_name d)
   \<and> one_of (selectedTestResult f) (test_result d)
   \<and> in_days day_start day_end (t_range f) (last_run d)"

text \<open>The times are compared the other way round, so ascending puts the newest first.\<close>

definition test_cmp :: "test_filter \<Rightarrow> workFlowTests \<Rightarrow> workFlowTests \<Rightarrow> int" where
  "test_cmp f a b = (if sorts (t_by_name f) then by_text (t_by_name f) (test_name a) (test_name b)
     else if sorts (t_by_time f) then by_time (t_by_time f) (last_run b) (last_run a)
     else if sorts (t_by_result f) then by_text (t_by_result f) (test_result a) (test_result b) else 0)"

definition test_payload :: "(string \<Rightarrow> int) \<Rightarrow> (string option \<Rightarrow> int) \<Rightarrow> test_filter \<Rightarrow> workFlowTests list \<Rightarrow> workFlowTests list" where
  "test_payload day_start day_end f ds = js_sort (test_cmp f)
     (filter (\<lambda>d. in_days day_start day_end (t_range f) (last_run d))
     (filter (\<lambda>d. one_of (selectedTestResult f) (test_result d))
     (filter (\<lambda>d. one_of (selectedTest f) (test_name d))
     (filter (\<lambda>d. list_all (\<lambda>s. js_includes (js_lower (test_name d)) s \<or> js_includes (js_lower (test_result d)) s) (t_tokens f)) ds))))"

lemma comparator_test: "comparator (test_cmp f)"
proof -
  have "test_cmp f = (if sorts (t_by_name f) then (\<lambda>a b. by_text (t_by_name f) (test_name a) (test_name b))
     else if sorts (t_by_time f) then (\<lambda>a b. by_time (t_by_time f) (last_run b) (last_run a))
     else if sorts (t_by_result f) then (\<lambda>a b. by_text (t_by_result f) (test_result a) (test_result b)) else (\<lambda>a b. 0))"
    by (simp add: fun_eq_iff test_cmp_def)
  then show ?thesis
    by (simp add: comparator_const comparator_on [OF comparator_by_text]
        comparator_on [OF comparator_flip [OF comparator_by_time]])
qed

interpretation tests: table "test_cmp f" "test_keep day_start day_end f" "test_payload day_start day_end f" for f day_start day_end
  by (intro table.intro table_axioms.intro comparator_test)
     (simp add: test_payload_def test_keep_def [abs_def] conj_ac)

record test_table =
  t_filter :: test_filter
  t_page :: nat
  t_rows :: nat
  t_close :: bool
  t_reloads :: nat

definition test_init :: test_table where
  "test_init = \<lparr>t_filter = \<lparr>t_range = all_days, selectedTest = ''All'', t_by_name = off,
     t_by_time = \<lparr>sorts = True, ascending = False\<rparr>, t_by_result = off, selectedTestResult = ''All'', t_tokens = ['''']\<rparr>,
     t_page = 0, t_rows = 5, t_close = False, t_reloads = 0\<rparr>"

datatype test_event =
    t_search string
  | t_choose_test string
  | t_choose_result string
  | t_days RangeOfDays
  | t_sort_name bool
  | t_sort_time bool
  | t_sort_result bool
  | t_turn nat
  | t_per_page nat
  | t_close_table bool

fun test_handle :: "test_event \<Rightarrow> test_table \<Rightarrow> test_table" where
  "test_handle (t_search v) s = s\<lparr>t_filter := (t_filter s)\<lparr>t_tokens := search_tokens v\<rparr>\<rparr>"
| "test_handle (t_choose_test v) s = s\<lparr>t_filter := (t_filter s)\<lparr>selectedTest := v\<rparr>\<rparr>"
| "test_handle (t_choose_result v) s = s\<lparr>t_filter := (t_filter s)\<lparr>selectedTestResult := v\<rparr>\<rparr>"
| "test_handle (t_days r) s = s\<lparr>t_filter := (t_filter s)\<lparr>t_range := r\<rparr>\<rparr>"
| "test_handle (t_sort_name asc) s = s\<lparr>t_filter := (t_filter s)\<lparr>t_by_name := \<lparr>sorts = True, ascending = asc\<rparr>, t_by_time := off, t_by_result := off\<rparr>\<rparr>"
| "test_handle (t_sort_time asc) s = s\<lparr>t_filter := (t_filter s)\<lparr>t_by_name := off, t_by_time := \<lparr>sorts = True, ascending = asc\<rparr>, t_by_result := off\<rparr>\<rparr>"
| "test_handle (t_sort_result asc) s = s\<lparr>t_filter := (t_filter s)\<lparr>t_by_name := off, t_by_time := off, t_by_result := \<lparr>sorts = True, ascending = asc\<rparr>\<rparr>\<rparr>"
| "test_handle (t_turn p) s = s\<lparr>t_page := p\<rparr>"
| "test_handle (t_per_page n) s = s\<lparr>t_rows := n, t_page := 0\<rparr>"
| "test_handle (t_close_table b) s = s\<lparr>t_close := b, t_reloads := t_reloads s + 1\<rparr>"

definition getTests :: "workFlowTests list \<Rightarrow> string list" where
  "getTests ts = unique_list [] (map test_name ts)"

definition getTestResults :: "workFlowTests list \<Rightarrow> string list" where
  "getTestResults ts = unique_list [] (map test_result ts)"

definition test_shown :: "(string \<Rightarrow> int) \<Rightarrow> (string option \<Rightarrow> int) \<Rightarrow> test_table \<Rightarrow> workFlowTests list \<Rightarrow> workFlowTests list" where
  "test_shown day_start day_end s ts = page_rows (t_page s) (t_rows s) (test_payload day_start day_end (t_filter s) ts)"

text \<open>A search leaves the page where it is, so matching rows of earlier pages are not shown.\<close>

lemma search_stays_on_the_page:
  "t_page (test_handle (t_search v) s) = t_page s \<and> t_page (test_handle (t_choose_result v) s) = t_page s"
  by simp

section \<open>Selecting rows\<close>

text \<open>\<open>indexOf\<close> and the four cases of \<open>concat\<close>.\<close>

fun find_index :: "string \<Rightarrow> string list \<Rightarrow> nat option" where
  "find_index x [] = None"
| "find_index x (y # ys) = (if y = x then Some 0 else map_option Suc (find_index x ys))"

definition toggle_selected :: "string \<Rightarrow> string list \<Rightarrow> string list" where
  "toggle_selected name selected = (case find_index name selected of
       None \<Rightarrow> selected @ [name]
     | Some i \<Rightarrow> if i = 0 then drop 1 selected
         else if i = length selected - 1 then take (length selected - 1) selected
         else take i selected @ drop (i + 1) selected)"

lemma find_index_Some: "find_index x xs = Some i \<Longrightarrow> i < length xs \<and> xs ! i = x"
proof (induction xs arbitrary: i)
  case (Cons y ys)
  then show ?case by (cases "y = x") auto
qed simp

lemma find_index_None: "find_index x xs = None \<longleftrightarrow> x \<notin> set xs"
  by (induction xs) auto

lemma toggle_selected_eq:
  "distinct sel \<Longrightarrow> toggle_selected x sel = (if x \<in> set sel then filter (\<lambda>y. y \<noteq> x) sel else sel @ [x])"
proof (cases "find_index x sel")
  case (Some i)
  assume d: "distinct sel"
  have i: "i < length sel" "sel ! i = x" using find_index_Some [OF Some] by auto
  then have sel: "sel = take i sel @ x # drop (Suc i) sel" using id_take_nth_drop [OF i(1)] i(2) by simp
  then have "x \<notin> set (take i sel)" "x \<notin> set (drop (Suc i) sel)" using d
    by (metis distinct_append disjoint_iff list.set_intros(1), metis distinct.simps(2) distinct_append)
  then have "filter (\<lambda>y. y \<noteq> x) (take i sel) = take i sel"
    and "filter (\<lambda>y. y \<noteq> x) (drop (Suc i) sel) = drop (Suc i) sel"
    by (auto simp: filter_id_conv)
  then have "filter (\<lambda>y. y \<noteq> x) sel = take i sel @ drop (Suc i) sel"
    by (subst sel) simp
  moreover have "toggle_selected x sel = take i sel @ drop (Suc i) sel"
    using i Some by (auto simp: toggle_selected_def)
  moreover have "x \<in> set sel" using i nth_mem by fastforce
  ultimately show ?thesis by simp
next
  case None
  moreover from this have "x \<notin> set sel" by (simp add: find_index_None)
  ultimately show ?thesis by (simp add: toggle_selected_def)
qed

theorem clicks_toggle_selection:
  "distinct (fold toggle_selected xs []) \<and> (x \<in> set (fold toggle_selected xs [])) = odd (count_list xs x)"
proof (induction xs rule: rev_induct)
  case (snoc y ys)
  then show ?case by (auto simp: toggle_selected_eq)
qed simp

section \<open>Chaos events\<close>

record chaos_filter =
  selectedWorkflow :: string
  selectedContext :: string
  selectedVerdict :: string
  c_tokens :: "string list"

record chaos_table =
  c_filter :: chaos_filter
  c_page :: nat
  c_rows :: nat
  c_selected :: "string list"

definition chaos_init :: chaos_table where
  "chaos_init = \<lparr>c_filter = \<lparr>selectedWorkflow = ''All'', selectedContext = ''All'', selectedVerdict = ''All'', c_tokens = ['''']\<rparr>,
     c_page = 0, c_rows = 5, c_selected = []\<rparr>"

definition chaos_payload :: "chaos_filter \<Rightarrow> ChaosEventDetails list \<Rightarrow> ChaosEventDetails list" where
  "chaos_payload f es =
     filter (\<lambda>e. one_of (selectedVerdict f) (verdict e))
     (filter (\<lambda>e. one_of (selectedContext f) (engineContext e))
     (filter (\<lambda>e. one_of (selectedWorkflow f) (ce_workflow e))
     (filter (\<lambda>e. list_all (\<lambda>s. js_includes (js_lower (chaosResultName e)) s) (c_tokens f)) es)))"

datatype chaos_event =
    c_search string
  | c_workflow string
  | c_context string
  | c_verdict string
  | c_turn nat
  | c_per_page nat
  | c_select_all bool
  | c_click string bool

fun chaos_handle :: "ChaosEventDetails list \<Rightarrow> chaos_event \<Rightarrow> chaos_table \<Rightarrow> chaos_table" where
  "chaos_handle es (c_search v) s = s\<lparr>c_filter := (c_filter s)\<lparr>c_tokens := search_tokens v\<rparr>, c_page := 0\<rparr>"
| "chaos_handle es (c_workflow v) s = s\<lparr>c_filter := (c_filter s)\<lparr>selectedWorkflow := v\<rparr>, c_page := 0\<rparr>"
| "chaos_handle es (c_context v) s = s\<lparr>c_filter := (c_filter s)\<lparr>selectedContext := v\<rparr>, c_page := 0\<rparr>"
| "chaos_handle es (c_verdict v) s = s\<lparr>c_filter := (c_filter s)\<lparr>selectedVerdict := v\<rparr>, c_page := 0\<rparr>"
| "chaos_handle es (c_turn p) s = s\<lparr>c_page := p\<rparr>"
| "chaos_handle es (c_per_page n) s = s\<lparr>c_rows := n, c_page := 0\<rparr>"
| "chaos_handle es (c_select_all b) s =
     s\<lparr>c_selected := (if b then map ce_id (filter (\<lambda>e. \<not> injectionFailed e) es) else [])\<rparr>"
| "chaos_handle es (c_click name failed) s = (if failed then s else s\<lparr>c_selected := toggle_selected name (c_selected s)\<rparr>)"

definition emptyRows :: "nat \<Rightarrow> nat \<Rightarrow> nat \<Rightarrow> int" where
  "emptyRows rows n page = int rows - min (int rows) (int n - int (page * rows))"

text \<open>Only events that were injected are selected, however the rows are clicked.\<close>

definition chaos_ok :: "ChaosEventDetails list \<Rightarrow> chaos_table \<Rightarrow> bool" where
  "chaos_ok es s \<longleftrightarrow> distinct (c_selected s) \<and> set (c_selected s) \<subseteq> ce_id ` {e \<in> set es. \<not> injectionFailed e}"

text \<open>A click comes with the row's own data.\<close>

definition own_click :: "ChaosEventDetails list \<Rightarrow> chaos_event \<Rightarrow> bool" where
  "own_click es ev \<longleftrightarrow> (case ev of c_click name failed \<Rightarrow>
     list_ex (\<lambda>e. ce_id e = name \<and> injectionFailed e = failed) es | _ \<Rightarrow> True)"

lemma chaos_ok_handle:
  assumes "distinct (map ce_id es)" and "chaos_ok es s" and "own_click es ev"
  shows "chaos_ok es (chaos_handle es ev s)"
proof (cases ev)
  case (c_select_all b)
  have "distinct (map ce_id (filter (\<lambda>e. \<not> injectionFailed e) es))" using assms(1) by (rule distinct_map_filter)
  then show ?thesis using c_select_all by (auto simp: chaos_ok_def)
next
  case (c_click name failed)
  then show ?thesis using assms(2,3) by (auto simp: chaos_ok_def toggle_selected_eq own_click_def list_ex_iff)
qed (use assms in \<open>auto simp: chaos_ok_def\<close>)

theorem only_injected_events_are_selected:
  assumes "distinct (map ce_id es)" and "list_all (own_click es) evs"
  shows "list_all (\<lambda>i. list_ex (\<lambda>e. ce_id e = i \<and> \<not> injectionFailed e) es) (c_selected (fold (chaos_handle es) evs chaos_init))
    \<and> distinct (c_selected (fold (chaos_handle es) evs chaos_init))"
proof -
  have "chaos_ok es (fold (chaos_handle es) evs s)" if "chaos_ok es s" for s
    using that assms(2)
  proof (induction evs arbitrary: s)
    case (Cons ev evs)
    then show ?case using chaos_ok_handle [OF assms(1)] by simp
  qed simp
  then have "chaos_ok es (fold (chaos_handle es) evs chaos_init)" by (simp add: chaos_ok_def chaos_init_def)
  then show ?thesis by (auto simp: chaos_ok_def list_all_iff list_ex_iff)
qed

theorem data_source_pages:
  assumes "0 < ds_rows s" and "length (ds_payload day_start day_end (ds_filters s) xs) \<le> k * ds_rows s"
  shows "mset (concat (map (\<lambda>p. ds_shown day_start day_end (s\<lparr>ds_page := p\<rparr>) xs) [0..<k]))
      = filter_mset (ds_keep day_start day_end (ds_filters s)) (mset xs)
    \<and> sorted_wrt (\<lambda>a b. ds_cmp (ds_filters s) a b \<le> 0) (concat (map (\<lambda>p. ds_shown day_start day_end (s\<lparr>ds_page := p\<rparr>) xs) [0..<k]))"
  using ds.payload_pages [OF assms] ds.payload_sorted pages_cover [OF assms] by (simp add: ds_shown_def)

section \<open>The comparison of scenarios\<close>

record cmp_workflow =
  cw_ID :: string
  cw_name :: string
  cw_cluster :: string
  cw_createdAt :: int
  cw_cron :: string

record cmp_filter =
  f_range :: RangeOfDays
  selectedCluster :: string
  f_by_name :: sort_choice
  f_by_time :: sort_choice
  f_by_cluster :: sort_choice
  workflowType :: string
  f_tokens :: "string list"

record cmp_table =
  cmp_filters :: cmp_filter
  displayData :: "cmp_workflow list"
  cmp_data :: "cmp_workflow list"
  cmp_clusters :: "string list"
  selectedWorkflows :: "string list"
  compare_on :: bool
  isDataAvailable :: bool
  showAll :: bool
  cmp_page :: nat
  cmp_limit :: nat

definition cmp_init :: cmp_table where
  "cmp_init = \<lparr>cmp_filters = \<lparr>f_range = all_days, selectedCluster = ''All'', f_by_name = off,
       f_by_time = \<lparr>sorts = True, ascending = True\<rparr>, f_by_cluster = off, workflowType = ''All'', f_tokens = ['''']\<rparr>,
     displayData = [], cmp_data = [], cmp_clusters = [], selectedWorkflows = [], compare_on = False,
     isDataAvailable = True, showAll = False, cmp_page = 0, cmp_limit = 5\<rparr>"

definition cmp_type_shown :: "string \<Rightarrow> string \<Rightarrow> bool" where
  "cmp_type_shown choice cron = (if choice = ''All'' then True
     else if choice = ''workflow'' then length cron = 0 \<or> cron = ''''
     else if choice = ''cronworkflow'' then length cron > 0 else False)"

definition cmp_keep :: "(string \<Rightarrow> int) \<Rightarrow> (string option \<Rightarrow> int) \<Rightarrow> cmp_filter \<Rightarrow> cmp_workflow \<Rightarrow> bool" where
  "cmp_keep day_start day_end f w \<longleftrightarrow>
     list_all (\<lambda>s. js_includes (js_lower (cw_name w)) s \<or> js_includes (js_lower (cw_cluster w)) s) (f_tokens f)
   \<and> one_of (selectedCluster f) (cw_cluster w)
   \<and> in_days day_start day_end (f_range f) (cw_createdAt w)
   \<and> cmp_type_shown (workflowType f) (cw_cron w)"

definition cmp_order :: "cmp_filter \<Rightarrow> cmp_workflow \<Rightarrow> cmp_workflow \<Rightarrow> int" where
  "cmp_order f a b = (if sorts (f_by_name f) then by_text (f_by_name f) (cw_name a) (cw_name b)
     else if sorts (f_by_time f) then by_time (f_by_time f) (cw_createdAt b) (cw_createdAt a)
     else if sorts (f_by_cluster f) then by_text (f_by_cluster f) (cw_cluster a) (cw_cluster b) else 0)"

definition cmp_payload :: "(string \<Rightarrow> int) \<Rightarrow> (string option \<Rightarrow> int) \<Rightarrow> cmp_filter \<Rightarrow> cmp_workflow list \<Rightarrow> cmp_workflow list" where
  "cmp_payload day_start day_end f ws = js_sort (cmp_order f)
     (filter (\<lambda>w. cmp_type_shown (workflowType f) (cw_cron w))
     (filter (\<lambda>w. in_days day_start day_end (f_range f) (cw_createdAt w))
     (filter (\<lambda>w. one_of (selectedCluster f) (cw_cluster w))
     (filter (\<lambda>w. list_all (\<lambda>s. js_includes (js_lower (cw_name w)) s \<or> js_includes (js_lower (cw_cluster w)) s) (f_tokens f)) ws))))"

definition searchingDataRetriever :: "cmp_table \<Rightarrow> cmp_workflow list" where
  "searchingDataRetriever s = (if \<not> compare_on s then cmp_data s
     else concat (map (\<lambda>i. filter (\<lambda>w. cw_ID w = i) (cmp_data s)) (selectedWorkflows s)))"

definition listClusters :: "cmp_workflow list \<Rightarrow> string list" where
  "listClusters ws = unique_list [] (map cw_cluster ws)"

text \<open>The two effects: one when a reply arrives, one when the filter or the comparison changes.\<close>

definition data_effect :: "cmp_table \<Rightarrow> cmp_table" where
  "data_effect s = s\<lparr>displayData := cmp_data s, cmp_clusters := listClusters (cmp_data s)\<rparr>"

definition filter_effect :: "(string \<Rightarrow> int) \<Rightarrow> (string option \<Rightarrow> int) \<Rightarrow> cmp_table \<Rightarrow> cmp_table" where
  "filter_effect day_start day_end s = s\<lparr>displayData := cmp_payload day_start day_end (cmp_filters s) (searchingDataRetriever s),
     showAll := False, cmp_clusters := listClusters (searchingDataRetriever s)\<rparr>"

datatype cmp_event =
    cmp_reply "cmp_workflow list"
  | cmp_search string
  | cmp_choose_type string
  | cmp_choose_cluster string
  | cmp_days RangeOfDays
  | cmp_sort_name bool
  | cmp_sort_time bool
  | cmp_sort_cluster bool
  | cmp_select_all bool
  | cmp_click string
  | cmp_compare bool
  | cmp_leave
  | cmp_show_all
  | cmp_turn nat
  | cmp_per_page nat

definition set_sort :: "sort_choice \<Rightarrow> sort_choice \<Rightarrow> sort_choice \<Rightarrow> cmp_filter \<Rightarrow> cmp_filter" where
  "set_sort n t c f = f\<lparr>f_by_name := n, f_by_time := t, f_by_cluster := c\<rparr>"

definition CallbackForComparing :: "bool \<Rightarrow> cmp_table \<Rightarrow> cmp_table" where
  "CallbackForComparing b s = s\<lparr>isDataAvailable := True, compare_on := b,
     displayData := concat (map (\<lambda>i. map (\<lambda>(w, k). cmp_data s ! k)
        (filter (\<lambda>(w, k). cw_ID w = i \<and> k < length (cmp_data s)) (zip (displayData s) [0..<length (displayData s)])))
        (selectedWorkflows s))\<rparr>"

definition handleSelectAllClick :: "bool \<Rightarrow> cmp_table \<Rightarrow> cmp_table" where
  "handleSelectAllClick checked s = s\<lparr>selectedWorkflows := (if checked then map cw_ID (displayData s) else [])\<rparr>"

definition handleRowClick :: "string \<Rightarrow> cmp_table \<Rightarrow> cmp_table" where
  "handleRowClick name s = s\<lparr>selectedWorkflows := toggle_selected name (selectedWorkflows s)\<rparr>"

fun cmp_handle :: "(string \<Rightarrow> int) \<Rightarrow> (string option \<Rightarrow> int) \<Rightarrow> cmp_event \<Rightarrow> cmp_table \<Rightarrow> cmp_table" where
  "cmp_handle ds de (cmp_reply ws) s = data_effect (s\<lparr>cmp_data := ws\<rparr>)"
| "cmp_handle ds de (cmp_search v) s = filter_effect ds de (s\<lparr>cmp_filters := (cmp_filters s)\<lparr>f_tokens := search_tokens v\<rparr>\<rparr>)"
| "cmp_handle ds de (cmp_choose_type v) s = filter_effect ds de (s\<lparr>cmp_filters := (cmp_filters s)\<lparr>workflowType := v\<rparr>\<rparr>)"
| "cmp_handle ds de (cmp_choose_cluster v) s = filter_effect ds de (s\<lparr>cmp_filters := (cmp_filters s)\<lparr>selectedCluster := v\<rparr>\<rparr>)"
| "cmp_handle ds de (cmp_days r) s = filter_effect ds de (s\<lparr>cmp_filters := (cmp_filters s)\<lparr>f_range := r\<rparr>\<rparr>)"
| "cmp_handle ds de (cmp_sort_name asc) s = filter_effect ds de (s\<lparr>cmp_filters := set_sort \<lparr>sorts = True, ascending = asc\<rparr> off off (cmp_filters s)\<rparr>)"
| "cmp_handle ds de (cmp_sort_time asc) s = filter_effect ds de (s\<lparr>cmp_filters := set_sort off \<lparr>sorts = True, ascending = asc\<rparr> off (cmp_filters s)\<rparr>)"
| "cmp_handle ds de (cmp_sort_cluster asc) s = filter_effect ds de (s\<lparr>cmp_filters := set_sort off off \<lparr>sorts = True, ascending = asc\<rparr> (cmp_filters s)\<rparr>)"
| "cmp_handle ds de (cmp_select_all b) s = handleSelectAllClick b s"
| "cmp_handle ds de (cmp_click i) s = (if compare_on s then s else handleRowClick i s)"
| "cmp_handle ds de (cmp_compare b) s = (if b = compare_on s then CallbackForComparing b s
     else filter_effect ds de (CallbackForComparing b s))"
| "cmp_handle ds de cmp_leave s = (if compare_on s then filter_effect ds de (s\<lparr>compare_on := False\<rparr>) else s)"
| "cmp_handle ds de cmp_show_all s = s\<lparr>showAll := True\<rparr>"
| "cmp_handle ds de (cmp_turn p) s = s\<lparr>cmp_page := p\<rparr>"
| "cmp_handle ds de (cmp_per_page n) s = s\<lparr>cmp_page := 0, cmp_limit := n\<rparr>"

lemma comparator_cmp: "comparator (cmp_order f)"
proof -
  have "cmp_order f = (if sorts (f_by_name f) then (\<lambda>a b. by_text (f_by_name f) (cw_name a) (cw_name b))
     else if sorts (f_by_time f) then (\<lambda>a b. by_time (f_by_time f) (cw_createdAt b) (cw_createdAt a))
     else if sorts (f_by_cluster f) then (\<lambda>a b. by_text (f_by_cluster f) (cw_cluster a) (cw_cluster b)) else (\<lambda>a b. 0))"
    by (simp add: fun_eq_iff cmp_order_def)
  then show ?thesis
    by (simp add: comparator_const comparator_on [OF comparator_by_text]
        comparator_on [OF comparator_flip [OF comparator_by_time]])
qed

interpretation cmp: table "cmp_order f" "cmp_keep day_start day_end f" "cmp_payload day_start day_end f" for f day_start day_end
  by (intro table.intro table_axioms.intro comparator_cmp)
     (simp add: cmp_payload_def cmp_keep_def [abs_def] conj_ac)

text \<open>The filters hold for what was shown when they were chosen; the next reply, of another
  page or a refetch, is shown whole.\<close>

lemma next_page_is_not_filtered:
  "displayData (fold (cmp_handle ds de) [cmp_search v, cmp_turn p, cmp_reply ws] s) = ws"
  by (simp add: data_effect_def)

lemma choosing_filters:
  assumes "\<not> compare_on s"
  shows "displayData (cmp_handle ds de (cmp_search v) s)
    = cmp_payload ds de ((cmp_filters s)\<lparr>f_tokens := search_tokens v\<rparr>) (cmp_data s)"
  using assms by (simp add: filter_effect_def searchingDataRetriever_def)

end
