(* ===== verification/Resilience.thy ===== *)
theory Resilience
  imports ObsTables Complex_Main
begin

text \<open>
  The comparison of scenarios (\<open>WorkflowComparisonTable/index.tsx\<close>): what the page computes when
  the runs of the selected scenarios arrive. Each run gets a resilience value from the weights
  and verdicts of its experiments; the values are averaged per hour, day and month.

  A number that is not finite is None. \<open>JSON.parse\<close> is the parameter \<open>parse\<close> (None when it
  throws), lodash's \<open>groupBy\<close> is \<open>G\<close>, moment's formats are \<open>date_text\<close> and \<open>bucket\<close>, and
  \<open>colour\<close> gives the random colours in the order they are drawn. Rounding to two digits is that
  of the exact quotient.
\<close>

section \<open>Numbers that may not be finite\<close>

type_synonym num = "rat option"

definition add_num :: "num \<Rightarrow> num \<Rightarrow> num" where
  "add_num a b = (case a of None \<Rightarrow> None | Some x \<Rightarrow> map_option (\<lambda>y. x + y) b)"

definition sum_num :: "num list \<Rightarrow> num" where
  "sum_num xs = foldl add_num (Some 0) xs"

definition div_num :: "num \<Rightarrow> rat \<Rightarrow> num" where
  "div_num a d = (if d = 0 then None else map_option (\<lambda>x. x / d) a)"

text \<open>\<open>parseFloat(x.toFixed(2))\<close>: the nearest multiple of a hundredth, away from zero on a tie.\<close>

definition to_fixed2 :: "rat \<Rightarrow> rat" where
  "to_fixed2 x = (if x < 0 then - of_int \<lfloor>- x * 100 + 1 / 2\<rfloor> / 100 else of_int \<lfloor>x * 100 + 1 / 2\<rfloor> / 100)"

lemma add_num_simps [simp]: "add_num None b = None" "add_num a None = None" "add_num (Some x) (Some y) = Some (x + y)"
  by (simp_all add: add_num_def split: option.split)

lemma foldl_add_None [simp]: "foldl add_num None xs = None"
  by (induction xs) simp_all

lemma foldl_add_num: "foldl add_num (Some t) xs = (if None \<in> set xs then None else Some (t + sum_list (map the xs)))"
proof (induction xs arbitrary: t)
  case (Cons a xs)
  then show ?case by (cases a) simp_all
qed simp

lemma sum_num_eq: "sum_num xs = (if None \<in> set xs then None else Some (sum_list (map the xs)))"
  by (simp add: sum_num_def foldl_add_num)

text \<open>A finite value that a percentage may have.\<close>

definition percent :: "num \<Rightarrow> bool" where
  "percent a \<longleftrightarrow> (case a of None \<Rightarrow> True | Some x \<Rightarrow> 0 \<le> x \<and> x \<le> 100)"

lemma to_fixed2_percent: "percent (Some x) \<Longrightarrow> percent (Some (to_fixed2 x))"
proof -
  assume "percent (Some x)"
  then have x: "0 \<le> x" "x \<le> 100" by (simp_all add: percent_def)
  have "0 \<le> \<lfloor>x * 100 + 1 / 2\<rfloor>" using x by simp
  moreover have "\<lfloor>x * 100 + 1 / 2\<rfloor> \<le> 10000"
  proof -
    have "x * 100 + 1 / 2 < of_int (10000 + 1)" using x by simp
    then have "\<lfloor>x * 100 + 1 / 2\<rfloor> < 10000 + 1" by (simp only: floor_less_iff)
    then show ?thesis by simp
  qed
  ultimately have "0 \<le> (of_int \<lfloor>x * 100 + 1 / 2\<rfloor> :: rat)" "(of_int \<lfloor>x * 100 + 1 / 2\<rfloor> :: rat) \<le> of_int 10000"
    by (simp_all only: of_int_le_iff of_int_0_le_iff)
  then show ?thesis using x by (simp add: to_fixed2_def percent_def)
qed

lemma percent_map: "percent a \<Longrightarrow> percent (map_option to_fixed2 a)"
  using to_fixed2_percent by (cases a) (auto simp: percent_def)

lemma to_fixed2_near: "\<bar>to_fixed2 x - x\<bar> \<le> 1 / 200"
proof -
  have "\<bar>of_int \<lfloor>y * 100 + 1 / 2\<rfloor> / 100 - y\<bar> \<le> 1 / 200" for y :: rat
  proof -
    have "of_int \<lfloor>y * 100 + 1 / 2\<rfloor> \<le> y * 100 + 1 / 2 \<and> y * 100 + 1 / 2 < of_int \<lfloor>y * 100 + 1 / 2\<rfloor> + 1"
      using floor_correct [of "y * 100 + 1 / 2"] by simp
    then have "y - 1 / 200 \<le> of_int \<lfloor>y * 100 + 1 / 2\<rfloor> / 100" "of_int \<lfloor>y * 100 + 1 / 2\<rfloor> / 100 \<le> y + 1 / 200"
      by linarith+
    then show ?thesis by linarith
  qed
  note near = this [of x] this [of "- x"]
  show ?thesis
  proof (cases "x < 0")
    case True
    then have "to_fixed2 x = - of_int \<lfloor>- x * 100 + 1 / 2\<rfloor> / 100" by (simp only: to_fixed2_def if_True)
    with near show ?thesis by linarith
  next
    case False
    then have "to_fixed2 x = of_int \<lfloor>x * 100 + 1 / 2\<rfloor> / 100" by (simp only: to_fixed2_def if_False)
    with near show ?thesis by linarith
  qed
qed

text \<open>The mean of percentages is one.\<close>

lemma mean_percent:
  assumes "xs \<noteq> []" and "list_all percent xs"
  shows "percent (div_num (sum_num xs) (of_nat (length xs)))"
proof (cases "None \<in> set xs")
  case False
  have "0 \<le> sum_list (map the xs) \<and> sum_list (map the xs) \<le> 100 * of_nat (length xs)"
    using assms(2) False
  proof (induction xs)
    case (Cons a xs)
    from Cons.prems obtain x where "a = Some x" "0 \<le> x" "x \<le> 100" by (cases a) (auto simp: percent_def)
    then show ?case using Cons by (simp add: algebra_simps add_mono)
  qed simp
  then show ?thesis using assms(1) False
    by (auto simp: sum_num_eq div_num_def percent_def divide_le_eq mult.commute)
qed (simp add: sum_num_eq div_num_def percent_def)

section \<open>One run\<close>

record chaos_data =
  chaos_engine :: string
  chaos_verdict :: string
  probeSuccessPercentage :: string

record test_weightage =
  w_experiment :: string
  w_points :: int

record execution =
  ex_eventType :: string
  ex_created :: string
  ex_nodes :: "chaos_data option list"

record compared_run =
  cr_workflowID :: string
  cr_workflowName :: string
  cr_clusterName :: string
  cr_executionData :: string
  cr_weightages :: "test_weightage list"
  cr_lastUpdated :: string
  cr_score :: rat

record run_scan =
  scan_points :: "num list"
  totalExperimentsPassed :: nat
  weightsSum :: int
  testNames :: "string list"
  testWeights :: "int list"
  testResults :: "string list"
  scan_isValid :: bool

definition scan_start :: run_scan where
  "scan_start = \<lparr>scan_points = [], totalExperimentsPassed = 0, weightsSum = 0,
     testNames = [], testWeights = [], testResults = [], scan_isValid = False\<rparr>"

definition passed_points :: "chaos_data \<Rightarrow> test_weightage \<Rightarrow> num" where
  "passed_points c w = map_option (\<lambda>p. of_int (w_points w * p) / 100) (parse_int (probeSuccessPercentage c))"

definition scan_weight :: "chaos_data \<Rightarrow> test_weightage \<Rightarrow> run_scan \<Rightarrow> run_scan" where
  "scan_weight c w s = (if js_includes (chaos_engine c) (w_experiment w) then
     (let s1 = (if chaos_verdict c = ''Pass'' then s\<lparr>scan_points := scan_points s @ [passed_points c w],
                  totalExperimentsPassed := totalExperimentsPassed s + 1\<rparr> else s);
          s2 = (if chaos_verdict c = ''Fail'' then s1\<lparr>scan_points := scan_points s1 @ [Some 0]\<rparr> else s1)
      in s2\<lparr>weightsSum := weightsSum s2 + w_points w, testNames := testNames s2 @ [w_experiment w],
           testWeights := testWeights s2 @ [w_points w], testResults := testResults s2 @ [chaos_verdict c],
           scan_isValid := True\<rparr>)
     else s)"

definition scan_node :: "test_weightage list \<Rightarrow> chaos_data option \<Rightarrow> run_scan \<Rightarrow> run_scan" where
  "scan_node ws n s = (case n of None \<Rightarrow> s | Some c \<Rightarrow>
     if chaos_verdict c = ''Pass'' \<or> chaos_verdict c = ''Fail'' then fold (scan_weight c) ws s else s)"

definition scan_run :: "test_weightage list \<Rightarrow> chaos_data option list \<Rightarrow> run_scan" where
  "scan_run ws ns = fold (scan_node ws) ns scan_start"

definition run_value :: "run_scan \<Rightarrow> num" where
  "run_value s = (if scan_points s = [] then Some 0
     else map_option (\<lambda>x. to_fixed2 (x * 100)) (div_num (sum_num (scan_points s)) (of_int (weightsSum s))))"

subsection \<open>The experiments a run counts\<close>

definition counted :: "test_weightage list \<Rightarrow> chaos_data option list \<Rightarrow> (chaos_data \<times> test_weightage) list" where
  "counted ws ns = [(c, w). Some c \<leftarrow> ns, chaos_verdict c = ''Pass'' \<or> chaos_verdict c = ''Fail'',
     w \<leftarrow> ws, js_includes (chaos_engine c) (w_experiment w)]"

definition counted_points :: "chaos_data \<times> test_weightage \<Rightarrow> num" where
  "counted_points = (\<lambda>(c, w). if chaos_verdict c = ''Pass'' then passed_points c w else Some 0)"

definition scan_of :: "(chaos_data \<times> test_weightage) list \<Rightarrow> run_scan" where
  "scan_of ms = \<lparr>scan_points = map counted_points ms,
     totalExperimentsPassed = length (filter (\<lambda>(c, w). chaos_verdict c = ''Pass'') ms),
     weightsSum = sum_list (map (\<lambda>(c, w). w_points w) ms),
     testNames = map (\<lambda>(c, w). w_experiment w) ms,
     testWeights = map (\<lambda>(c, w). w_points w) ms,
     testResults = map (\<lambda>(c, w). chaos_verdict c) ms,
     scan_isValid = (ms \<noteq> [])\<rparr>"

lemma scan_weight_of:
  "chaos_verdict c = ''Pass'' \<or> chaos_verdict c = ''Fail'' \<Longrightarrow>
     scan_weight c w (scan_of ms) = scan_of (ms @ (if js_includes (chaos_engine c) (w_experiment w) then [(c, w)] else []))"
  by (auto simp: scan_weight_def scan_of_def counted_points_def)

lemma fold_scan_weight:
  assumes "chaos_verdict c = ''Pass'' \<or> chaos_verdict c = ''Fail''"
  shows "fold (scan_weight c) ws (scan_of ms)
    = scan_of (ms @ map (Pair c) (filter (\<lambda>w. js_includes (chaos_engine c) (w_experiment w)) ws))"
proof (induction ws arbitrary: ms)
  case (Cons w ws)
  then show ?case using scan_weight_of [OF assms] by simp
qed simp

lemma counted_Cons:
  "counted ws (n # ns) = (case n of None \<Rightarrow> [] | Some c \<Rightarrow>
     if chaos_verdict c = ''Pass'' \<or> chaos_verdict c = ''Fail''
     then map (Pair c) (filter (\<lambda>w. js_includes (chaos_engine c) (w_experiment w)) ws) else []) @ counted ws ns"
proof -
  have "concat (map (\<lambda>w. if P w then [f w] else []) ws) = map f (filter P ws)" for P and f :: "test_weightage \<Rightarrow> chaos_data \<times> test_weightage"
    by (induction ws) auto
  then show ?thesis by (cases n) (auto simp: counted_def)
qed

lemma scan_run_counts: "scan_run ws ns = scan_of (counted ws ns)"
proof -
  have "fold (scan_node ws) ns (scan_of ms) = scan_of (ms @ counted ws ns)" for ms
  proof (induction ns arbitrary: ms)
    case Nil
    then show ?case by (simp add: counted_def)
  next
    case (Cons n ns)
    then show ?case by (auto simp: counted_Cons scan_node_def fold_scan_weight split: option.split)
  qed
  from this [of "[]"] show ?thesis by (simp add: scan_run_def scan_start_def scan_of_def)
qed

text \<open>The value of a run: the weighted mean of the probe success of its counted experiments.\<close>

definition passed_percentage :: "chaos_data \<Rightarrow> int option" where
  "passed_percentage c = (if chaos_verdict c = ''Pass'' then parse_int (probeSuccessPercentage c) else Some 0)"

definition weighted_mean :: "(chaos_data \<times> test_weightage) list \<Rightarrow> num" where
  "weighted_mean ms = (if sum_list (map (\<lambda>(c, w). w_points w) ms) = 0 \<or> list_ex (\<lambda>(c, w). passed_percentage c = None) ms then None
     else Some (to_fixed2 (of_int (sum_list (map (\<lambda>(c, w). w_points w * the (passed_percentage c)) ms))
       / of_int (sum_list (map (\<lambda>(c, w). w_points w) ms)))))"

lemma counted_points_eq:
  "counted_points (c, w) = map_option (\<lambda>p. of_int (w_points w * p) / 100) (passed_percentage c)"
  by (simp add: counted_points_def passed_points_def passed_percentage_def)

lemma sum_counted_points:
  "sum_num (map counted_points ms) = (if list_ex (\<lambda>(c, w). passed_percentage c = None) ms then None
     else Some (of_int (sum_list (map (\<lambda>(c, w). w_points w * the (passed_percentage c)) ms)) / 100))"
proof -
  have none: "None \<in> set (map counted_points ms) \<longleftrightarrow> list_ex (\<lambda>(c, w). passed_percentage c = None) ms"
    by (induction ms) (auto simp: counted_points_eq)
  moreover have "\<not> list_ex (\<lambda>(c, w). passed_percentage c = None) ms \<Longrightarrow> sum_list (map the (map counted_points ms))
      = of_int (sum_list (map (\<lambda>(c, w). w_points w * the (passed_percentage c)) ms)) / 100"
    by (induction ms) (auto simp: counted_points_eq add_divide_distrib)
  ultimately show ?thesis by (simp add: sum_num_eq del: set_map map_map)
qed

lemma run_value_eq:
  "run_value (scan_run ws ns) = (if counted ws ns = [] then Some 0 else weighted_mean (counted ws ns))"
  by (simp add: scan_run_counts run_value_def scan_of_def sum_counted_points div_num_def weighted_mean_def)

section \<open>The report on the selected scenarios\<close>

record exported_run =
  x_cluster_name :: string
  x_workflow_name :: string
  run_date :: string
  tests_passed :: int
  tests_failed :: int
  resilience_score :: rat
  x_testNames :: "string list"
  x_testWeights :: "int list"
  x_testResults :: "string list"

record dated_score =
  score_date :: string
  score_value :: num

record workflow_report =
  isWorkflowValid :: bool
  timeSeries :: "dated_score list"
  validRuns :: "exported_run list"
  validCount :: nat

definition export_run :: "(string \<Rightarrow> string) \<Rightarrow> compared_run \<Rightarrow> execution \<Rightarrow> run_scan \<Rightarrow> exported_run" where
  "export_run date_text r ex s = \<lparr>x_cluster_name = cr_clusterName r, x_workflow_name = cr_workflowName r,
     run_date = date_text (ex_created ex), tests_passed = int (totalExperimentsPassed s),
     tests_failed = int (length (scan_points s)) - int (totalExperimentsPassed s), resilience_score = cr_score r,
     x_testNames = testNames s, x_testWeights = testWeights s, x_testResults = testResults s\<rparr>"

definition report_run ::
  "(string \<Rightarrow> execution option) \<Rightarrow> (string \<Rightarrow> string) \<Rightarrow> compared_run \<Rightarrow> workflow_report \<Rightarrow> workflow_report" where
  "report_run parse date_text r w = (case parse (cr_executionData r) of None \<Rightarrow> w | Some ex \<Rightarrow>
     let s = scan_run (cr_weightages r) (ex_nodes ex);
         w1 = w\<lparr>isWorkflowValid := isWorkflowValid w \<or> scan_isValid s\<rparr>
     in if ex_eventType ex = ''UPDATE'' \<and> scan_isValid s
        then w1\<lparr>validCount := validCount w1 + 1, validRuns := validRuns w1 @ [export_run date_text r ex s],
               timeSeries := timeSeries w1 @ [\<lparr>score_date = cr_lastUpdated r, score_value = run_value s\<rparr>]\<rparr>
        else w1)"

record report =
  rep_labels :: "string list"
  rep_colors :: "string list"
  timeSeriesArray :: "dated_score list list"
  totalValidWorkflowRuns :: "exported_run list"
  totalValidRuns :: nat

definition report_start :: report where
  "report_start = \<lparr>rep_labels = [], rep_colors = [], timeSeriesArray = [], totalValidWorkflowRuns = [], totalValidRuns = 0\<rparr>"

definition report_workflow :: "(string \<Rightarrow> execution option) \<Rightarrow> (string \<Rightarrow> string) \<Rightarrow> (nat \<Rightarrow> string)
    \<Rightarrow> compared_run list \<Rightarrow> string \<Rightarrow> report \<Rightarrow> report" where
  "report_workflow parse date_text colour rs workflowID p =
     (let selectedRuns = filter (\<lambda>r. cr_workflowID r = workflowID) rs;
          w = fold (report_run parse date_text) selectedRuns
                \<lparr>isWorkflowValid = False, timeSeries = [], validRuns = totalValidWorkflowRuns p, validCount = totalValidRuns p\<rparr>;
          p1 = p\<lparr>totalValidWorkflowRuns := validRuns w, totalValidRuns := validCount w\<rparr>
      in if isWorkflowValid w \<and> selectedRuns \<noteq> []
         then p1\<lparr>rep_labels := rep_labels p1 @ [cr_workflowName (hd selectedRuns)],
                rep_colors := rep_colors p1 @ [''#'' @ colour (length (rep_colors p1))],
                timeSeriesArray := timeSeriesArray p1 @ [timeSeries w]\<rparr>
         else p1)"

definition report_all :: "(string \<Rightarrow> execution option) \<Rightarrow> (string \<Rightarrow> string) \<Rightarrow> (nat \<Rightarrow> string)
    \<Rightarrow> compared_run list \<Rightarrow> string list \<Rightarrow> report" where
  "report_all parse date_text colour rs ids = fold (report_workflow parse date_text colour rs) ids report_start"

subsection \<open>Averages per hour, day and month\<close>

record 'a granular =
  Hourly :: 'a
  Daily :: 'a
  Monthly :: 'a

record plot_data =
  xData :: "string list list granular"
  yData :: "num list list granular"
  plot_labels :: "string list"
  plot_colors :: "string list"

type_synonym grouping = "(dated_score \<Rightarrow> string) \<Rightarrow> dated_score list \<Rightarrow> (string \<times> dated_score list) list"

definition group_mean :: "dated_score list \<Rightarrow> num" where
  "group_mean g = div_num (foldl (\<lambda>total d. add_num total (score_value d)) (Some 0) g) (of_nat (length g))"

definition grouped :: "grouping \<Rightarrow> (string \<Rightarrow> string) \<Rightarrow> dated_score list \<Rightarrow> (string \<times> num) list" where
  "grouped G bucket series = map (\<lambda>(k, g). (k, group_mean g)) (G (\<lambda>d. bucket (score_date d)) series)"

text \<open>Both arrays start as \<open>[[]]\<close> and are filled by index.\<close>

definition by_index :: "'a list list \<Rightarrow> 'a list list" where
  "by_index xs = (if xs = [] then [[]] else xs)"

definition grouped_x :: "grouping \<Rightarrow> (string \<Rightarrow> string) \<Rightarrow> dated_score list list \<Rightarrow> string list list" where
  "grouped_x G bucket ss = by_index (map (\<lambda>s. map fst (grouped G bucket s)) ss)"

definition grouped_y :: "grouping \<Rightarrow> (string \<Rightarrow> string) \<Rightarrow> dated_score list list \<Rightarrow> num list list" where
  "grouped_y G bucket ss = by_index (map (\<lambda>s. map snd (grouped G bucket s)) ss)"

definition plot_of :: "grouping \<Rightarrow> (string \<Rightarrow> string) granular \<Rightarrow> report \<Rightarrow> plot_data" where
  "plot_of G bucket p =
     \<lparr>xData = \<lparr>Hourly = grouped_x G (Hourly bucket) (timeSeriesArray p), Daily = grouped_x G (Daily bucket) (timeSeriesArray p),
               Monthly = grouped_x G (Monthly bucket) (timeSeriesArray p)\<rparr>,
      yData = \<lparr>Hourly = grouped_y G (Hourly bucket) (timeSeriesArray p), Daily = grouped_y G (Daily bucket) (timeSeriesArray p),
               Monthly = grouped_y G (Monthly bucket) (timeSeriesArray p)\<rparr>,
      plot_labels = rep_labels p, plot_colors = rep_colors p\<rparr>"

definition runs_came :: "report \<Rightarrow> cmp_table \<Rightarrow> cmp_table" where
  "runs_came p s = (if rep_labels p = [] then s\<lparr>isDataAvailable := False\<rparr> else s)"

subsection \<open>The rows of the exported document\<close>

definition detail_string :: "exported_run \<Rightarrow> string" where
  "detail_string r = concat (map (\<lambda>i. x_testNames r ! i @ [CHR 0x0A] @ show_int (x_testWeights r ! i) @ '' / '' @ x_testResults r ! i @ [CHR 0x0A])
     [0..<length (x_testNames r)])"

definition pdf_row :: "(rat \<Rightarrow> string) \<Rightarrow> exported_run \<Rightarrow> string list" where
  "pdf_row fixed2_text r = [x_cluster_name r, x_workflow_name r, run_date r, show_int (tests_passed r), show_int (tests_failed r),
     fixed2_text (resilience_score r) @ ''%'', detail_string r]"

section \<open>What the report keeps\<close>

definition export_ok :: "exported_run \<Rightarrow> bool" where
  "export_ok r \<longleftrightarrow> 0 \<le> tests_failed r \<and> 0 \<le> tests_passed r
     \<and> tests_passed r + tests_failed r = int (length (x_testNames r))
     \<and> length (x_testWeights r) = length (x_testNames r) \<and> length (x_testResults r) = length (x_testNames r)
     \<and> x_testNames r \<noteq> []"

definition report_ok :: "report \<Rightarrow> bool" where
  "report_ok p \<longleftrightarrow> length (rep_colors p) = length (rep_labels p) \<and> length (timeSeriesArray p) = length (rep_labels p)
     \<and> totalValidRuns p = length (totalValidWorkflowRuns p)
     \<and> list_all export_ok (totalValidWorkflowRuns p)"

definition exports_ok :: "workflow_report \<Rightarrow> bool" where
  "exports_ok w \<longleftrightarrow> validCount w = length (validRuns w)
     \<and> list_all export_ok (validRuns w)"

lemma report_run_ok: "exports_ok w \<Longrightarrow> exports_ok (report_run parse date_text r w)"
  by (auto simp: exports_ok_def export_ok_def report_run_def Let_def export_run_def scan_run_counts scan_of_def split: option.split)

lemma report_runs_ok: "exports_ok w \<Longrightarrow> exports_ok (fold (report_run parse date_text) rs w)"
  by (induction rs arbitrary: w) (simp_all add: report_run_ok)

lemma report_workflow_ok: "report_ok p \<Longrightarrow> report_ok (report_workflow parse date_text colour rs i p)"
  using report_runs_ok [of "\<lparr>isWorkflowValid = False, timeSeries = [], validRuns = totalValidWorkflowRuns p,
      validCount = totalValidRuns p\<rparr>" parse date_text "filter (\<lambda>r. cr_workflowID r = i) rs"]
  by (simp add: report_ok_def exports_ok_def report_workflow_def Let_def)

text \<open>
  C20. Every report has as many colours and series as labels, counts the runs it lists,
  and each listed run has one weight and one verdict per test with passed and failed
  adding up to them.
\<close>

theorem reports_are_consistent: "report_ok (report_all parse date_text colour rs ids)"
proof -
  have "report_ok p \<Longrightarrow> report_ok (fold (report_workflow parse date_text colour rs) ids p)" for p
    by (induction ids arbitrary: p) (simp_all add: report_workflow_ok)
  then show ?thesis by (simp add: report_all_def report_ok_def report_start_def)
qed

section \<open>Values between 0 and 100\<close>

text \<open>What lodash promises: one group per key that occurs, holding the elements with that key.\<close>

definition groups_ok :: "grouping \<Rightarrow> bool" where
  "groups_ok G \<longleftrightarrow> (\<forall>key xs. distinct (map fst (G key xs)) \<and> set (map fst (G key xs)) = key ` set xs
     \<and> (\<forall>(k, g) \<in> set (G key xs). g = filter (\<lambda>x. key x = k) xs))"

definition group_in_order :: grouping where
  "group_in_order key xs = map (\<lambda>k. (k, filter (\<lambda>x. key x = k) xs)) (unique_list [] (map key xs))"

lemma group_in_order_ok: "groups_ok group_in_order"
  by (auto simp: groups_ok_def group_in_order_def comp_def unique_list_distinct unique_list_set)

lemma group_of: "groups_ok G \<Longrightarrow> (k, g) \<in> set (G key xs) \<Longrightarrow> g = filter (\<lambda>x. key x = k) xs \<and> g \<noteq> []"
proof -
  assume G: "groups_ok G" and kg: "(k, g) \<in> set (G key xs)"
  from G have "\<forall>(k, g) \<in> set (G key xs). g = filter (\<lambda>x. key x = k) xs"
    unfolding groups_ok_def by blast
  from bspec [OF this kg] have g: "g = filter (\<lambda>x. key x = k) xs" by simp
  have "k \<in> set (map fst (G key xs))" using kg by force
  with G have "k \<in> key ` set xs" by (simp only: groups_ok_def)
  then have "g \<noteq> []" using g by (auto simp: filter_empty_conv)
  with g show ?thesis by simp
qed

lemma group_mean_eq: "group_mean g = div_num (sum_num (map score_value g)) (of_nat (length g))"
  by (simp add: group_mean_def sum_num_def foldl_map)

text \<open>Weights are not negative and the probe success of an experiment is a percentage.\<close>

definition fair_run :: "(string \<Rightarrow> execution option) \<Rightarrow> compared_run \<Rightarrow> bool" where
  "fair_run parse r \<longleftrightarrow> list_all (\<lambda>w. 0 \<le> w_points w) (cr_weightages r)
     \<and> (case parse (cr_executionData r) of None \<Rightarrow> True | Some ex \<Rightarrow>
          list_all (\<lambda>n. case n of None \<Rightarrow> True | Some c \<Rightarrow> percent (map_option of_int (parse_int (probeSuccessPercentage c)))) (ex_nodes ex))"

definition fair_test :: "chaos_data \<times> test_weightage \<Rightarrow> bool" where
  "fair_test = (\<lambda>(c, w). 0 \<le> w_points w \<and> percent (map_option of_int (parse_int (probeSuccessPercentage c))))"

lemma fair_test_bounds:
  "fair_test (c, w) \<Longrightarrow> passed_percentage c = Some p \<Longrightarrow> 0 \<le> w_points w * p \<and> w_points w * p \<le> w_points w * 100"
  by (auto simp: fair_test_def passed_percentage_def percent_def mult_left_mono split: if_splits)

lemma weighted_mean_percent:
  assumes "list_all fair_test ms"
  shows "percent (weighted_mean ms)"
proof (cases "weighted_mean ms")
  case (Some v)
  let ?W = "sum_list (map (\<lambda>(c, w). w_points w) ms)"
  let ?S = "sum_list (map (\<lambda>(c, w). w_points w * the (passed_percentage c)) ms)"
  have v: "?W \<noteq> 0" "\<not> list_ex (\<lambda>(c, w). passed_percentage c = None) ms" "v = to_fixed2 (of_int ?S / of_int ?W)"
    using Some by (auto simp: weighted_mean_def split: if_splits)
  have "0 \<le> ?S \<and> ?S \<le> ?W * 100 \<and> 0 \<le> ?W" using assms v(2)
  proof (induction ms)
    case (Cons m ms)
    obtain c w where m: "m = (c, w)" by (cases m)
    then obtain p where p: "passed_percentage c = Some p" using Cons.prems by auto
    have "fair_test (c, w)" using Cons.prems m by simp
    from fair_test_bounds [OF this p] this Cons show ?case using m p by (auto simp: fair_test_def)
  qed simp
  then have S: "0 \<le> ?S" "?S \<le> ?W * 100" "0 < ?W" using v(1) by auto
  then have "(of_int ?S :: rat) \<le> of_int (?W * 100)" by (simp only: of_int_le_iff)
  then have "percent (Some (of_int ?S / of_int ?W))" using S by (simp add: percent_def divide_le_eq mult.commute)
  then show ?thesis using Some v(3) to_fixed2_percent by metis
qed (simp add: percent_def)

lemma run_value_percent:
  assumes "fair_run parse r" and "parse (cr_executionData r) = Some ex"
  shows "percent (run_value (scan_run (cr_weightages r) (ex_nodes ex)))"
proof -
  have "list_all fair_test (counted (cr_weightages r) (ex_nodes ex))"
    using assms by (fastforce simp: list_all_iff fair_run_def fair_test_def counted_def split: if_splits)
  then show ?thesis
    by (simp add: run_value_eq weighted_mean_percent) (simp add: percent_def)
qed

definition series_ok :: "dated_score list \<Rightarrow> bool" where
  "series_ok s \<longleftrightarrow> list_all (\<lambda>d. percent (score_value d)) s"

lemma report_run_series:
  "fair_run parse r \<Longrightarrow> series_ok (timeSeries w) \<Longrightarrow> series_ok (timeSeries (report_run parse date_text r w))"
  by (auto simp: series_ok_def report_run_def Let_def run_value_percent split: option.split)

lemma report_runs_series:
  "list_all (fair_run parse) rs \<Longrightarrow> series_ok (timeSeries w) \<Longrightarrow> series_ok (timeSeries (fold (report_run parse date_text) rs w))"
  by (induction rs arbitrary: w) (simp_all add: report_run_series)

lemma report_workflow_series:
  assumes "list_all (fair_run parse) rs" and "list_all series_ok (timeSeriesArray p)"
  shows "list_all series_ok (timeSeriesArray (report_workflow parse date_text colour rs i p))"
proof -
  have "list_all (fair_run parse) (filter (\<lambda>r. cr_workflowID r = i) rs)" using assms(1) by (auto simp: list_all_iff)
  then show ?thesis using assms(2) 
    using report_runs_series [of parse "filter (\<lambda>r. cr_workflowID r = i) rs" "\<lparr>isWorkflowValid = False, timeSeries = [],
        validRuns = totalValidWorkflowRuns p, validCount = totalValidRuns p\<rparr>" date_text]
    by (simp add: report_workflow_def Let_def, simp add: series_ok_def)
qed

lemma report_series:
  "list_all (fair_run parse) rs \<Longrightarrow> list_all series_ok (timeSeriesArray (report_all parse date_text colour rs ids))"
proof -
  assume rs: "list_all (fair_run parse) rs"
  have "list_all series_ok (timeSeriesArray p) \<Longrightarrow>
      list_all series_ok (timeSeriesArray (fold (report_workflow parse date_text colour rs) ids p))" for p
    by (induction ids arbitrary: p) (simp_all add: report_workflow_series rs)
  then show ?thesis by (simp add: report_all_def report_start_def)
qed

lemma grouped_percent:
  assumes "groups_ok G" and "series_ok s"
  shows "list_all percent (map snd (grouped G bucket s))"
proof -
  have "percent (group_mean g)" if "(k, g) \<in> set (G (\<lambda>d. bucket (score_date d)) s)" for k g
    using group_of [OF assms(1) that] assms(2) mean_percent [of "map score_value g"]
    by (auto simp: group_mean_eq series_ok_def list_all_iff)
  then show ?thesis by (auto simp: grouped_def list_all_iff)
qed

lemma grouped_y_percent:
  "groups_ok G \<Longrightarrow> list_all series_ok ss \<Longrightarrow> list_all (list_all percent) (grouped_y G bucket ss)"
proof -
  assume G: "groups_ok G" and ss: "list_all series_ok ss"
  have "list_all percent (map snd (grouped G bucket s))" if "s \<in> set ss" for s
    using that ss by (intro grouped_percent [OF G]) (simp add: list_all_iff)
  then have "list_all (list_all percent) (map (\<lambda>s. map snd (grouped G bucket s)) ss)"
    unfolding list_all_iff [of "list_all percent"] by simp
  then show ?thesis by (simp add: grouped_y_def by_index_def)
qed

definition all_percent :: "num list list granular \<Rightarrow> bool" where
  "all_percent y \<longleftrightarrow> list_all (list_all percent) (Hourly y) \<and> list_all (list_all percent) (Daily y)
     \<and> list_all (list_all percent) (Monthly y)"

text \<open>
  C18. With weights that are not negative and probe success between 0 and 100 every
  hourly, daily and monthly value of the comparison that is a number lies between 0 and
  100.
\<close>

theorem plotted_scores_are_percentages:
  assumes "groups_ok G" and "list_all (fair_run parse) rs"
  shows "all_percent (yData (plot_of G bucket (report_all parse date_text colour rs ids)))"
  using grouped_y_percent [OF assms(1) report_series [OF assms(2)]] by (simp add: all_percent_def plot_of_def)

text \<open>An experiment's name is looked for inside the name of the engine, so the weight of
  \<open>pod-cpu-hog\<close> is also counted for the engine of \<open>pod-cpu-hog-exec\<close>.\<close>

lemma weights_of_longer_names:
  "run_value (scan_run [\<lparr>w_experiment = ''pod-cpu-hog'', w_points = 10\<rparr>, \<lparr>w_experiment = ''pod-cpu-hog-exec'', w_points = 10\<rparr>]
     [Some \<lparr>chaos_engine = ''pod-cpu-hog-a'', chaos_verdict = ''Fail'', probeSuccessPercentage = ''0''\<rparr>,
      Some \<lparr>chaos_engine = ''pod-cpu-hog-exec-b'', chaos_verdict = ''Pass'', probeSuccessPercentage = ''100''\<rparr>])
   = Some (6667 / 100)"
  by code_simp

text \<open>
  C17. The loop over the nodes and weights of a run computes the weighted mean, rounded
  to two digits, of the probe success of its counted experiments, and no number when
  their weights sum to zero or a percentage is no number.
\<close>

theorem run_value_is_the_weighted_mean:
  "run_value (scan_run ws ns) = (if counted ws ns = [] then Some 0 else weighted_mean (counted ws ns))"
  by (rule run_value_eq)

section \<open>The score of a run's tests\<close>

text \<open>\<open>WorkflowRunDetailsTable\<close>: computed when the table appears, for the tests it is given.\<close>

definition tests_score :: "workFlowTests list \<Rightarrow> num" where
  "tests_score ts = (let rs = filter (\<lambda>t. test_result t = ''Pass'' \<or> test_result t = ''Fail'') ts;
       totalWeight = sum_list (map test_weight rs); weightedSum = sum_list (map resulting_points rs)
     in map_option (\<lambda>x. to_fixed2 (x * 100)) (div_num (Some weightedSum) (of_int totalWeight)))"

datatype result_color = error_dark | warning_main | secondary_dark

definition score_color_of :: "num \<Rightarrow> result_color" where
  "score_color_of a = (case a of None \<Rightarrow> error_dark | Some x \<Rightarrow>
     if x < 30 then error_dark else if 30 < x \<and> x \<le> 60 then warning_main else if 60 < x then secondary_dark else error_dark)"

lemma tests_score_percent:
  assumes "list_all (\<lambda>t. 0 \<le> resulting_points t \<and> resulting_points t \<le> of_int (test_weight t)) ts"
  shows "percent (tests_score ts)"
proof -
  let ?rs = "filter (\<lambda>t. test_result t = ''Pass'' \<or> test_result t = ''Fail'') ts"
  let ?W = "sum_list (map test_weight ?rs)" and ?S = "sum_list (map resulting_points ?rs)"
  have "0 \<le> ?S \<and> ?S \<le> of_int ?W" using assms by (induction ts) auto
  then have "?W \<noteq> 0 \<Longrightarrow> percent (Some (?S / of_int ?W * 100))"
    by (simp add: percent_def divide_le_eq zero_le_divide_iff mult_le_cancel_right)
  then show ?thesis using percent_map [of "Some (?S / of_int ?W * 100)"]
    by (auto simp: tests_score_def div_num_def Let_def percent_def)
qed

end
