(* ===== verification/ComparisonPlot.thy ===== *)
theory ComparisonPlot
  imports Resilience
begin

text \<open>
  The plot of the comparison (\<open>WorkflowComparisonPlot/index.tsx\<close>): the average of the scenarios
  at each date, the order of those averages, the lines drawn and the scenarios with the highest
  and the lowest mean. \<open>unix_of\<close> is moment's reading of a date and \<open>date_text\<close> its format.
\<close>

section \<open>The average scenario\<close>

definition value_at :: "string list \<Rightarrow> num list \<Rightarrow> string \<Rightarrow> num" where
  "value_at x y date = (case find_index date x of None \<Rightarrow> None | Some i \<Rightarrow> if i < length y then y ! i else None)"

fun date_total :: "string list \<Rightarrow> string \<Rightarrow> string list list \<Rightarrow> num list list \<Rightarrow> num \<times> nat \<Rightarrow> num \<times> nat" where
  "date_total dates date (x # xs) (y # ys) (t, n) = date_total dates date xs ys
     (if date \<in> set x \<and> date \<notin> set dates then (add_num t (value_at x y date), n + 1) else (t, n))"
| "date_total dates date xs ys acc = acc"

record averages =
  avg_dates :: "string list"
  avgResilienceScores :: "num list"

definition average_date :: "string list list \<Rightarrow> num list list \<Rightarrow> string \<Rightarrow> averages \<Rightarrow> averages" where
  "average_date xs ys date a = (case date_total (avg_dates a) date xs ys (Some 0, 0) of (t, n) \<Rightarrow>
     if n \<noteq> 0 then a\<lparr>avg_dates := avg_dates a @ [date],
       avgResilienceScores := avgResilienceScores a @ [map_option to_fixed2 (div_num t (of_nat n))]\<rparr> else a)"

definition average_dates :: "string list list \<Rightarrow> num list list \<Rightarrow> averages" where
  "average_dates xs ys = fold (\<lambda>x a. fold (average_date xs ys) x a) xs \<lparr>avg_dates = [], avgResilienceScores = []\<rparr>"

definition avgWorkflowsAll :: "plot_data \<Rightarrow> averages granular" where
  "avgWorkflowsAll p = \<lparr>Hourly = average_dates (Hourly (xData p)) (Hourly (yData p)),
     Daily = average_dates (Daily (xData p)) (Daily (yData p)),
     Monthly = average_dates (Monthly (xData p)) (Monthly (yData p))\<rparr>"

definition argSort :: "'a list \<Rightarrow> int list \<Rightarrow> 'a list" where
  "argSort arr1 arr2 = map snd (js_sort (\<lambda>a b. fst b - fst a) (zip arr2 arr1))"

section \<open>The lines and the extremes\<close>

record plot_line =
  line_x :: "string list"
  line_y :: "num list"
  line_color :: "string option"
  line_name :: "string option"

record edge_data =
  highScore :: num
  lowScore :: num
  highColor :: "string option"
  lowColor :: "string option"
  highName :: "string option"
  lowName :: "string option"

definition entry_at :: "'a list \<Rightarrow> nat \<Rightarrow> 'a option" where
  "entry_at xs i = (if i < length xs then Some (xs ! i) else None)"

definition plot_lines :: "string list list \<Rightarrow> num list list \<Rightarrow> string list \<Rightarrow> string list \<Rightarrow> plot_line list" where
  "plot_lines dataX dataY colors labels = map (\<lambda>i. \<lparr>line_x = dataX ! i, line_y = dataY ! i,
     line_color = entry_at colors i, line_name = entry_at labels i\<rparr>) [0..<length dataX]"

definition average_line :: "(string \<Rightarrow> int) \<Rightarrow> (int \<Rightarrow> string) \<Rightarrow> string \<Rightarrow> averages \<Rightarrow> plot_line" where
  "average_line unix_of date_text primary a =
     (let unixTimeArray = map unix_of (avg_dates a)
      in \<lparr>line_x = map date_text (js_sort (\<lambda>a b. a - b) unixTimeArray),
          line_y = rev (argSort (avgResilienceScores a) unixTimeArray),
          line_color = Some primary, line_name = Some ''Average Chaos Scenario''\<rparr>)"

text \<open>A total starts at 0 for each label; without a label it is no number.\<close>

definition normalized :: "nat \<Rightarrow> num list list \<Rightarrow> num list" where
  "normalized n dataY = map (\<lambda>k. if k < n \<and> k < length dataY
     then div_num (foldl add_num (Some 0) (dataY ! k)) (of_nat (length (dataY ! k))) else None) [0..<max n (length dataY)]"

text \<open>\<open>Math.max\<close> and \<open>Math.min\<close>: NaN when an argument is, infinite without arguments.\<close>

definition best_of :: "(rat \<Rightarrow> rat \<Rightarrow> rat) \<Rightarrow> num list \<Rightarrow> num" where
  "best_of f xs = (case xs of [] \<Rightarrow> None | x # ys \<Rightarrow>
     foldl (\<lambda>a b. case a of None \<Rightarrow> None | Some u \<Rightarrow> map_option (f u) b) x ys)"

text \<open>\<open>indexOf\<close> compares with ===, so NaN is never found and the index -1 reads undefined.\<close>

fun index_of_num :: "num \<Rightarrow> num list \<Rightarrow> nat option" where
  "index_of_num v [] = None"
| "index_of_num v (x # xs) = (if v \<noteq> None \<and> x = v then Some 0 else map_option Suc (index_of_num v xs))"

definition item_of :: "'a list \<Rightarrow> nat option \<Rightarrow> 'a option" where
  "item_of xs i = Option.bind i (entry_at xs)"

definition edges :: "string list \<Rightarrow> string list \<Rightarrow> num list list \<Rightarrow> edge_data" where
  "edges labels colors dataY =
     (let ns = normalized (length labels) dataY; hi = best_of max ns; lo = best_of min ns;
          maxID = index_of_num hi ns; minID = index_of_num lo ns
      in \<lparr>highScore = map_option to_fixed2 hi, lowScore = map_option to_fixed2 lo,
          highColor = item_of colors maxID, lowColor = item_of colors minID,
          highName = item_of labels maxID, lowName = item_of labels minID\<rparr>)"

definition granularity :: "string \<Rightarrow> 'a \<Rightarrow> 'a granular \<Rightarrow> 'a" where
  "granularity g none x = (if g = ''Monthly'' then Monthly x else if g = ''Daily'' then Daily x
     else if g = ''Hourly'' then Hourly x else none)"

definition avgDateFormat :: "string \<Rightarrow> string" where
  "avgDateFormat g = granularity g '''' \<lparr>Hourly = ''YYYY-MM-DD HH:mm:ss'', Daily = ''YYYY-MM-DD'', Monthly = ''YYYY-MM''\<rparr>"

definition processData :: "(string \<Rightarrow> int) \<Rightarrow> (string \<Rightarrow> int \<Rightarrow> string) \<Rightarrow> string \<Rightarrow> string \<Rightarrow> plot_data \<Rightarrow> plot_line list \<times> edge_data" where
  "processData unix_of format_date primary g p =
     (let dataX = granularity g [['''']] (xData p); dataY = granularity g [[Some 0]] (yData p);
          a = granularity g \<lparr>avg_dates = [], avgResilienceScores = []\<rparr> (avgWorkflowsAll p)
      in (plot_lines dataX dataY (plot_colors p) (plot_labels p) @ [average_line unix_of (format_date (avgDateFormat g)) primary a],
          edges (plot_labels p) (plot_colors p) dataY))"

section \<open>What the averages are\<close>

text \<open>A date's average is taken over the scenarios that have the date.\<close>

definition values_at :: "string list list \<Rightarrow> num list list \<Rightarrow> string \<Rightarrow> num list" where
  "values_at xs ys date = map (\<lambda>(x, y). value_at x y date) (filter (\<lambda>(x, y). date \<in> set x) (zip xs ys))"

lemma date_total_new:
  "date \<notin> set dates \<Longrightarrow> date_total dates date xs ys (s, n)
     = (foldl add_num s (values_at xs ys date), n + length (values_at xs ys date))"
  by (induction dates date xs ys "(s, n)" arbitrary: s n rule: date_total.induct) (simp_all add: values_at_def)

lemma date_total_seen: "date \<in> set dates \<Longrightarrow> date_total dates date xs ys (s, n) = (s, n)"
  by (induction dates date xs ys "(s, n)" arbitrary: s n rule: date_total.induct) simp_all

definition average_at :: "string list list \<Rightarrow> num list list \<Rightarrow> string \<Rightarrow> num" where
  "average_at xs ys date = map_option to_fixed2 (div_num (sum_num (values_at xs ys date)) (of_nat (length (values_at xs ys date))))"

definition averages_of :: "string list list \<Rightarrow> num list list \<Rightarrow> string list \<Rightarrow> averages" where
  "averages_of xs ys dates = \<lparr>avg_dates = dates, avgResilienceScores = map (average_at xs ys) dates\<rparr>"

lemma average_date_step:
  assumes "values_at xs ys date \<noteq> []"
  shows "average_date xs ys date (averages_of xs ys dates)
    = averages_of xs ys (if date \<in> set dates then dates else dates @ [date])"
proof (cases "date \<in> set dates")
  case True
  then show ?thesis by (simp add: average_date_def averages_of_def date_total_seen)
next
  case False
  then show ?thesis using assms
    by (simp add: average_date_def averages_of_def date_total_new average_at_def sum_num_def)
qed

lemma values_at_some:
  "length ys = length xs \<Longrightarrow> x \<in> set xs \<Longrightarrow> date \<in> set x \<Longrightarrow> values_at xs ys date \<noteq> []"
  by (induction xs ys rule: list_induct2') (auto simp: values_at_def)

lemma fold_average_dates:
  "list_all (\<lambda>d. values_at xs ys d \<noteq> []) ds \<Longrightarrow>
     fold (average_date xs ys) ds (averages_of xs ys dates) = averages_of xs ys (unique_list dates ds)"
  by (induction ds arbitrary: dates) (simp_all add: average_date_step)

lemma fold_concat: "fold (\<lambda>x. fold f x) xs a = fold f (concat xs) a"
  by (induction xs arbitrary: a) simp_all

lemma average_dates_eq:
  assumes "length ys = length xs"
  shows "average_dates xs ys = averages_of xs ys (unique_list [] (concat xs))"
proof -
  have "list_all (\<lambda>d. values_at xs ys d \<noteq> []) (concat xs)"
    using values_at_some [OF assms] by (auto simp: list_all_iff)
  from fold_average_dates [OF this, of "[]"] show ?thesis
    by (simp add: average_dates_def fold_concat averages_of_def)
qed

theorem average_at_each_date:
  "length ys = length xs \<Longrightarrow>
     distinct (avg_dates (average_dates xs ys)) \<and> set (avg_dates (average_dates xs ys)) = set (concat xs)
     \<and> avgResilienceScores (average_dates xs ys) = map (average_at xs ys) (avg_dates (average_dates xs ys))"
  by (simp add: average_dates_eq averages_of_def unique_list_distinct unique_list_set)

section \<open>The averages stay with their dates\<close>

lemma comparator_up: "comparator (\<lambda>a b :: int. a - b)"
  by unfold_locales auto

lemma comparator_down: "comparator (\<lambda>a b :: int \<times> 'a. fst b - fst a)"
  by unfold_locales auto

interpretation times: comparator "\<lambda>a b :: int. a - b"
  by (rule comparator_up)

interpretation pairs: comparator "\<lambda>a b :: int \<times> num. fst b - fst a"
  by (rule comparator_down)

lemma sort_times: "js_sort (\<lambda>a b :: int. a - b) ts = sort ts"
proof (rule properties_for_sort [symmetric])
  show "mset (js_sort (\<lambda>a b. a - b) ts) = mset ts" by (rule mset_js_sort)
  have "sorted_wrt (\<lambda>a b. a \<le> b) (js_sort (\<lambda>a b. a - b) ts)"
    using times.sort_sorted [of ts] by (rule sorted_wrt_mono_rel [rotated]) simp
  then show "sorted (js_sort (\<lambda>a b. a - b) ts)" by simp
qed

lemma sort_pairs:
  fixes ys :: "num list"
  assumes "length ys = length ts"
  shows "map fst (rev (js_sort (\<lambda>a b. fst b - fst a) (zip ts ys))) = sort ts"
proof (rule properties_for_sort [symmetric])
  let ?ps = "js_sort (\<lambda>a b. fst b - fst a) (zip ts ys)"
  have "mset (map fst ?ps) = image_mset fst (mset (zip ts ys))" by (simp add: mset_js_sort)
  also have "\<dots> = mset ts" using assms by (simp add: mset_map [symmetric] del: mset_map)
  finally show "mset (map fst (rev ?ps)) = mset ts" by (simp add: rev_map)
  have "sorted_wrt (\<lambda>a b. fst b \<le> fst a) ?ps"
    using pairs.sort_sorted [of "zip ts ys"] by (rule sorted_wrt_mono_rel [rotated]) simp
  then show "sorted (map fst (rev ?ps))" by (simp add: sorted_wrt_map sorted_wrt_rev)
qed

lemma sorted_line_pairs:
  fixes ys :: "num list"
  assumes "length ys = length ts"
  shows "zip (js_sort (\<lambda>a b. a - b) ts) (rev (argSort ys ts)) = rev (js_sort (\<lambda>a b. fst b - fst a) (zip ts ys))"
proof -
  let ?ps = "rev (js_sort (\<lambda>a b. fst b - fst a) (zip ts ys))"
  have "js_sort (\<lambda>a b. a - b) ts = map fst ?ps" using sort_pairs [OF assms] sort_times by simp
  moreover have "rev (argSort ys ts) = map snd ?ps" by (simp add: argSort_def rev_map)
  ultimately show ?thesis by (simp add: zip_map_fst_snd del: rev_map)
qed

text \<open>
  C19. The dashed line of the comparison has one point per date, the average at that
  date over the scenarios that have it, whatever order sorting the times gives.
\<close>

theorem averages_stay_with_their_dates:
  assumes "length ys = length xs"
  shows "mset (zip (line_x (average_line unix_of date_text primary (average_dates xs ys)))
                  (line_y (average_line unix_of date_text primary (average_dates xs ys))))
    = mset (map (\<lambda>d. (date_text (unix_of d), average_at xs ys d)) (unique_list [] (concat xs)))"
proof -
  let ?ds = "unique_list [] (concat xs)"
  let ?ts = "map unix_of ?ds" and ?vs = "map (average_at xs ys) ?ds"
  have "zip (map date_text (js_sort (\<lambda>a b. a - b) ?ts)) (rev (argSort ?vs ?ts))
      = map (\<lambda>(t, v). (date_text t, v)) (zip (js_sort (\<lambda>a b. a - b) ?ts) (rev (argSort ?vs ?ts)))"
    by (simp add: zip_map1)
  also have "\<dots> = map (\<lambda>(t, v). (date_text t, v)) (rev (js_sort (\<lambda>a b. fst b - fst a) (zip ?ts ?vs)))"
    by (simp add: sorted_line_pairs del: rev_map)
  finally show ?thesis
    by (simp add: average_line_def average_dates_eq [OF assms] averages_of_def Let_def mset_js_sort zip_map_map
        zip_same_conv_map image_mset.compositionality comp_def)
qed

section \<open>The scenarios with the highest and the lowest mean\<close>

lemma best_of_eq:
  "xs \<noteq> [] \<Longrightarrow> best_of f xs = (if None \<in> set xs then None else Some (foldl f (the (hd xs)) (map the (tl xs))))"
proof (cases xs)
  case (Cons x ys)
  let ?g = "\<lambda>a b. case a of None \<Rightarrow> None | Some u \<Rightarrow> map_option (f u) b"
  have none: "foldl ?g None zs = None" for zs by (induction zs) simp_all
  have "foldl ?g (Some u) zs = (if None \<in> set zs then None else Some (foldl f u (map the zs)))" for u zs
  proof (induction zs arbitrary: u)
    case (Cons z zs)
    then show ?case by (cases z) (simp_all add: none)
  qed simp
  then show ?thesis using Cons by (cases x) (simp_all add: best_of_def none)
qed simp

lemma foldl_choice: "(\<And>a b. f a b = a \<or> f a b = b) \<Longrightarrow> foldl f u xs \<in> set (u # xs)"
proof (induction xs arbitrary: u)
  case (Cons x xs)
  from Cons.IH [OF Cons.prems, of "f u x"] Cons.prems [of u x] show ?case by auto
qed simp

lemma foldl_max: "list_all (\<lambda>x. x \<le> foldl max u xs) (u # xs)" for u :: rat
proof (induction xs arbitrary: u)
  case (Cons x xs)
  from Cons.IH [of "max u x"] show ?case by auto
qed simp

lemma foldl_min: "list_all (\<lambda>x. foldl min u xs \<le> x) (u # xs)" for u :: rat
proof (induction xs arbitrary: u)
  case (Cons x xs)
  from Cons.IH [of "min u x"] show ?case by auto
qed simp

lemma index_of_num_Some:
  "v \<noteq> None \<Longrightarrow> v \<in> set xs \<Longrightarrow> \<exists>i. index_of_num v xs = Some i \<and> i < length xs \<and> xs ! i = v"
proof (induction xs)
  case (Cons x xs)
  then show ?case by (cases "x = v") auto
qed simp

lemma index_of_num_None: "index_of_num None xs = None"
  by (induction xs) simp_all

text \<open>A scenario without a value at any date has no mean, and then none is the highest.\<close>

theorem empty_series_hides_the_extremes:
  "[] \<in> set dataY \<Longrightarrow> edges labels colors dataY = \<lparr>highScore = None, lowScore = None, highColor = None,
     lowColor = None, highName = None, lowName = None\<rparr>"
proof -
  assume "[] \<in> set dataY"
  then obtain k where k: "k < length dataY" "dataY ! k = []" by (auto simp: in_set_conv_nth)
  let ?ns = "normalized (length labels) dataY"
  have "?ns ! k = None" using k by (simp add: normalized_def div_num_def)
  moreover have "k < length ?ns" using k by (simp add: normalized_def)
  ultimately have "None \<in> set ?ns" by (metis nth_mem)
  then have "best_of f ?ns = None" for f using best_of_eq [of ?ns f] by force
  then show ?thesis by (simp add: edges_def index_of_num_None item_of_def)
qed

definition mean_of :: "num list \<Rightarrow> rat" where
  "mean_of y = sum_list (map the y) / of_nat (length y)"

definition finite_series :: "num list \<Rightarrow> bool" where
  "finite_series y \<longleftrightarrow> y \<noteq> [] \<and> None \<notin> set y"

lemma normalized_means:
  assumes "length dataY = n" and "list_all finite_series dataY"
  shows "normalized n dataY = map (\<lambda>y. Some (mean_of y)) dataY"
proof (rule nth_equalityI)
  fix i assume "i < length (normalized n dataY)"
  then have i: "i < length dataY" using assms(1) by (simp add: normalized_def)
  then have "finite_series (dataY ! i)" using assms(2) by (simp add: list_all_length)
  then show "normalized n dataY ! i = map (\<lambda>y. Some (mean_of y)) dataY ! i"
    using i assms(1) by (simp add: normalized_def finite_series_def div_num_def mean_of_def foldl_add_num)
qed (use assms(1) in \<open>simp add: normalized_def\<close>)

lemma best_of_means:
  assumes "ys \<noteq> []" and "\<And>a b. f a b = a \<or> f a b = b" and "best_of f (map (\<lambda>y. Some (mean_of y)) ys) = m"
  obtains k where "k < length ys" "m = Some (mean_of (ys ! k))"
    "index_of_num m (map (\<lambda>y. Some (mean_of y)) ys) = Some k"
    "m = Some (foldl f (mean_of (hd ys)) (map mean_of (tl ys)))"
proof -
  obtain z zs where ys: "ys = z # zs" using assms(1) by (cases ys) auto
  let ?v = "foldl f (mean_of z) (map mean_of zs)"
  have m: "m = Some ?v" using assms(3) ys best_of_eq [of "map (\<lambda>y. Some (mean_of y)) ys" f] by (auto simp: comp_def)
  have "?v \<in> set (mean_of z # map mean_of zs)" by (rule foldl_choice [OF assms(2)])
  then have "m \<in> set (map (\<lambda>y. Some (mean_of y)) ys)" using m ys by auto
  from index_of_num_Some [OF _ this] m obtain k
    where "index_of_num m (map (\<lambda>y. Some (mean_of y)) ys) = Some k" "k < length ys" "Some (mean_of (ys ! k)) = m"
    by auto
  with m ys show ?thesis by (intro that) auto
qed

theorem extremes_are_the_best_and_worst_means:
  assumes "length dataY = length labels" and "dataY \<noteq> []" and "list_all finite_series dataY"
  shows "list_ex (\<lambda>k. highName (edges labels colors dataY) = Some (labels ! k)
      \<and> highScore (edges labels colors dataY) = Some (to_fixed2 (mean_of (dataY ! k)))
      \<and> list_all (\<lambda>y. mean_of y \<le> mean_of (dataY ! k)) dataY) [0..<length labels]
    \<and> list_ex (\<lambda>k. lowName (edges labels colors dataY) = Some (labels ! k)
      \<and> lowScore (edges labels colors dataY) = Some (to_fixed2 (mean_of (dataY ! k)))
      \<and> list_all (\<lambda>y. mean_of (dataY ! k) \<le> mean_of y) dataY) [0..<length labels]"
proof -
  let ?ns = "map (\<lambda>y. Some (mean_of y)) dataY"
  note ns = normalized_means [OF assms(1,3)]
  obtain z zs where ys: "dataY = z # zs" using assms(2) by (cases dataY) auto
  obtain h where h: "h < length dataY" "best_of max ?ns = Some (mean_of (dataY ! h))" "index_of_num (best_of max ?ns) ?ns = Some h"
      "best_of max ?ns = Some (foldl max (mean_of (hd dataY)) (map mean_of (tl dataY)))"
    by (rule best_of_means [OF assms(2), where f = max]) (auto simp: max_def)
  obtain l where l: "l < length dataY" "best_of min ?ns = Some (mean_of (dataY ! l))" "index_of_num (best_of min ?ns) ?ns = Some l"
      "best_of min ?ns = Some (foldl min (mean_of (hd dataY)) (map mean_of (tl dataY)))"
    by (rule best_of_means [OF assms(2), where f = min]) (auto simp: min_def)
  have "list_all (\<lambda>y. mean_of y \<le> mean_of (dataY ! h)) dataY"
    using foldl_max [of "mean_of z" "map mean_of zs"] h(2,4) ys by (auto simp: list_all_iff)
  moreover have "list_all (\<lambda>y. mean_of (dataY ! l) \<le> mean_of y) dataY"
    using foldl_min [of "mean_of z" "map mean_of zs"] l(2,4) ys by (auto simp: list_all_iff)
  moreover have "h \<in> set [0..<length labels]" "l \<in> set [0..<length labels]" using h(1) l(1) assms(1) by simp_all
  moreover have "highName (edges labels colors dataY) = Some (labels ! h)"
    "highScore (edges labels colors dataY) = Some (to_fixed2 (mean_of (dataY ! h)))"
    "lowName (edges labels colors dataY) = Some (labels ! l)"
    "lowScore (edges labels colors dataY) = Some (to_fixed2 (mean_of (dataY ! l)))"
    using h(1-3) l(1-3) assms(1) by (simp_all add: edges_def ns Let_def item_of_def entry_at_def)
  ultimately show ?thesis unfolding list_ex_iff by blast
qed

text \<open>A scenario whose only run is still being added counts as valid and has an empty series.\<close>

definition added_run :: compared_run where
  "added_run = \<lparr>cr_workflowID = ''w1'', cr_workflowName = ''scenario'', cr_clusterName = ''agent'', cr_executionData = ''{}'',
     cr_weightages = [\<lparr>w_experiment = ''pod-delete'', w_points = 10\<rparr>], cr_lastUpdated = ''0'', cr_score = 100\<rparr>"

definition added_execution :: execution where
  "added_execution = \<lparr>ex_eventType = ''ADD'', ex_created = ''0'',
     ex_nodes = [Some \<lparr>chaos_engine = ''pod-delete-a'', chaos_verdict = ''Pass'', probeSuccessPercentage = ''100''\<rparr>]\<rparr>"

lemma added_run_has_no_series:
  "timeSeriesArray (report_all (\<lambda>s. Some added_execution) (\<lambda>s. s) (\<lambda>n. ''fff'') [added_run] [''w1'']) = [[]]
   \<and> rep_labels (report_all (\<lambda>s. Some added_execution) (\<lambda>s. s) (\<lambda>n. ''fff'') [added_run] [''w1'']) = [''scenario'']"
  by code_simp

end
