(* ===== verification/DataSources.thy ===== *)
theory DataSources
  imports Validation ObsTables
begin

text \<open>
  Data sources: the form of \<open>DataSources/Forms/prometheus.tsx\<close> and the page around it
  (\<open>pages/ConfigureDataSources\<close>), which adds or changes one, and the deletion from the table with
  its drawer for a source that dashboards still use. The server's replies are events.
\<close>

section \<open>The form\<close>

record DataSourceDetails =
  d_id :: string
  d_name :: string
  dataSourceType :: string
  d_url :: string
  d_access :: string
  basicAuth :: bool
  d_username :: string
  d_password :: string
  noAuth :: bool
  withCredentials :: bool
  tlsClientAuth :: bool
  withCACert :: bool
  d_scrapeInterval :: string
  d_queryTimeout :: string
  d_httpMethod :: string

definition details_init :: DataSourceDetails where
  "details_init = \<lparr>d_id = '''', d_name = '''', dataSourceType = ''Prometheus'', d_url = ''http://localhost:9090'',
     d_access = ''Server (Default)'', basicAuth = False, d_username = '''', d_password = '''', noAuth = True,
     withCredentials = False, tlsClientAuth = False, withCACert = False, d_scrapeInterval = ''15s'',
     d_queryTimeout = ''30s'', d_httpMethod = ''POST''\<rparr>"

record stored_source =
  st_dsID :: string
  st_dsName :: string
  st_dsType :: string
  st_dsURL :: string
  st_accessType :: string
  st_authType :: string
  st_username :: string
  st_password :: string
  st_scrapeInterval :: int
  st_queryTimeout :: int
  st_httpMethod :: string

definition set_auth :: "string \<Rightarrow> bool \<Rightarrow> DataSourceDetails \<Rightarrow> DataSourceDetails" where
  "set_auth field b d = (if field = ''basicAuth'' then d\<lparr>basicAuth := b\<rparr> else if field = ''noAuth'' then d\<lparr>noAuth := b\<rparr>
     else if field = ''withCredentials'' then d\<lparr>withCredentials := b\<rparr> else if field = ''tlsClientAuth'' then d\<lparr>tlsClientAuth := b\<rparr>
     else if field = ''withCACert'' then d\<lparr>withCACert := b\<rparr> else d)"

definition handleAuthChange :: "string \<Rightarrow> bool \<Rightarrow> DataSourceDetails \<Rightarrow> DataSourceDetails" where
  "handleAuthChange field checked d = (if checked
     then set_auth field checked (d\<lparr>basicAuth := False, noAuth := False, withCredentials := False,
            tlsClientAuth := False, withCACert := False\<rparr>)
     else if \<not> noAuth d then set_auth field checked (d\<lparr>noAuth := True\<rparr>) else d)"

definition details_of :: "stored_source \<Rightarrow> DataSourceDetails" where
  "details_of s = \<lparr>d_id = st_dsID s, d_name = st_dsName s, dataSourceType = st_dsType s, d_url = st_dsURL s,
     d_access = st_accessType s, basicAuth = (st_authType s = ''basic auth''), d_username = st_username s,
     d_password = st_password s, noAuth = (st_authType s = ''no auth''), withCredentials = False,
     tlsClientAuth = False, withCACert = False, d_scrapeInterval = show_int (st_scrapeInterval s) @ ''s'',
     d_queryTimeout = show_int (st_queryTimeout s) @ ''s'', d_httpMethod = st_httpMethod s\<rparr>"

section \<open>The page\<close>

record ds_input =
  i_dsID :: "string option"
  i_dsName :: string
  i_dsType :: string
  i_dsURL :: string
  i_accessType :: string
  i_authType :: string
  i_username :: string
  i_password :: string
  i_scrapeInterval :: "int option"
  i_queryTimeout :: "int option"
  i_httpMethod :: string

definition authType :: "DataSourceDetails \<Rightarrow> string" where
  "authType v = (if \<not> noAuth v \<and> basicAuth v then ''basic auth'' else ''no auth'')"

definition trimmed_url :: "string \<Rightarrow> string" where
  "trimmed_url u = (if u \<noteq> '''' \<and> u ! (length u - 1) = CHR ''/'' then js_slice u 0 (- 1) else u)"

definition seconds :: "string \<Rightarrow> int option" where
  "seconds v = parse_int (hd (js_split v ''s''))"

definition input_of :: "string option \<Rightarrow> DataSourceDetails \<Rightarrow> ds_input" where
  "input_of i v = \<lparr>i_dsID = i, i_dsName = d_name v, i_dsType = dataSourceType v, i_dsURL = trimmed_url (d_url v),
     i_accessType = d_access v, i_authType = authType v, i_username = d_username v, i_password = d_password v,
     i_scrapeInterval = seconds (d_scrapeInterval v), i_queryTimeout = seconds (d_queryTimeout v),
     i_httpMethod = d_httpMethod v\<rparr>"

definition handleCreateMutation :: "DataSourceDetails \<Rightarrow> ds_input" where
  "handleCreateMutation v = input_of None v"

definition handleUpdateMutation :: "DataSourceDetails \<Rightarrow> ds_input" where
  "handleUpdateMutation v = input_of (Some (d_id v)) v"

record cfg_page =
  dataSourceDetails :: DataSourceDetails
  dataSourceVars :: DataSourceDetails
  cfg_disabled :: bool
  cfg_pageNo :: nat
  cfg_mutate :: bool
  cfg_alert :: bool
  cfg_success :: bool
  cfg_requests :: "(bool \<times> ds_input) list"
  cfg_left :: bool

definition cfg_init :: cfg_page where
  "cfg_init = \<lparr>dataSourceDetails = details_init, dataSourceVars = details_init, cfg_disabled = True, cfg_pageNo = 1,
     cfg_mutate = False, cfg_alert = False, cfg_success = False, cfg_requests = [], cfg_left = False\<rparr>"

definition refused_details :: "DataSourceDetails \<Rightarrow> bool" where
  "refused_details v \<longleftrightarrow> d_name v = '''' \<or> \<not> isValidWebUrl (d_url v)
     \<or> \<not> validateTimeInSeconds (d_queryTimeout v) \<or> \<not> validateTimeInSeconds (d_scrapeInterval v)
     \<or> (basicAuth v \<and> (validateTextEmpty (d_username v) \<or> validateTextEmpty (d_password v)))"

definition disabled_effect :: "cfg_page \<Rightarrow> cfg_page" where
  "disabled_effect s = s\<lparr>cfg_disabled := refused_details (dataSourceVars s)\<rparr>"

text \<open>\<open>setUpdate(true)\<close>: the form's effect hands its details to the page, whose effect checks them.\<close>

definition push_details :: "DataSourceDetails \<Rightarrow> cfg_page \<Rightarrow> cfg_page" where
  "push_details d s = disabled_effect (s\<lparr>dataSourceDetails := d, dataSourceVars := d\<rparr>)"

definition load_source :: "string \<Rightarrow> stored_source list \<Rightarrow> cfg_page \<Rightarrow> cfg_page" where
  "load_source dataSourceID ss s = fold (\<lambda>x t. if st_dsID x = dataSourceID then push_details (details_of x) t else t) ss s"

definition mutate_effect :: "bool \<Rightarrow> cfg_page \<Rightarrow> cfg_page" where
  "mutate_effect configure s = (if cfg_mutate s then s\<lparr>cfg_requests := cfg_requests s @
     [(configure, if configure then handleUpdateMutation (dataSourceVars s) else handleCreateMutation (dataSourceVars s))]\<rparr> else s)"

definition button_disabled :: "cfg_page \<Rightarrow> bool" where
  "button_disabled s = (if (cfg_pageNo s = 1 \<and> (d_name (dataSourceVars s) = '''' \<or> \<not> isValidWebUrl (d_url (dataSourceVars s))))
       \<or> cfg_mutate s then True
     else if cfg_pageNo s = 2 then cfg_disabled s else False)"

definition press_button :: "bool \<Rightarrow> cfg_page \<Rightarrow> cfg_page" where
  "press_button configure s = (if button_disabled s then s
     else if cfg_pageNo s = 2 \<and> \<not> cfg_disabled s then mutate_effect configure (s\<lparr>cfg_mutate := True\<rparr>)
     else s\<lparr>cfg_pageNo := 2\<rparr>)"

definition mutation_done :: "bool \<Rightarrow> cfg_page \<Rightarrow> cfg_page" where
  "mutation_done ok s = s\<lparr>cfg_mutate := False, cfg_success := ok, cfg_alert := True\<rparr>"

definition close_alert :: "cfg_page \<Rightarrow> cfg_page" where
  "close_alert s = (if cfg_alert s then s\<lparr>cfg_alert := False, cfg_left := cfg_left s \<or> cfg_success s\<rparr> else s)"

datatype cfg_event =
    cfg_name string
  | cfg_url string
  | cfg_username string
  | cfg_password string
  | cfg_scrape string
  | cfg_timeout string
  | cfg_auth string bool
  | cfg_list "stored_source list"
  | cfg_press
  | cfg_back
  | cfg_reply bool
  | cfg_close

definition form_shown :: "bool \<Rightarrow> string \<Rightarrow> bool" where
  "form_shown configure dataSourceID \<longleftrightarrow> \<not> configure \<or> dataSourceID \<noteq> ''''"

definition change_details :: "(DataSourceDetails \<Rightarrow> DataSourceDetails) \<Rightarrow> cfg_page \<Rightarrow> cfg_page" where
  "change_details f s = push_details (f (dataSourceDetails s)) s"

fun cfg_form_event :: "bool \<Rightarrow> string \<Rightarrow> cfg_event \<Rightarrow> cfg_page \<Rightarrow> cfg_page" where
  "cfg_form_event configure i (cfg_name v) s = change_details (\<lambda>d. d\<lparr>d_name := v\<rparr>) s"
| "cfg_form_event configure i (cfg_url v) s = change_details (\<lambda>d. d\<lparr>d_url := v\<rparr>) s"
| "cfg_form_event configure i (cfg_username v) s = change_details (\<lambda>d. d\<lparr>d_username := v\<rparr>) s"
| "cfg_form_event configure i (cfg_password v) s = change_details (\<lambda>d. d\<lparr>d_password := v\<rparr>) s"
| "cfg_form_event configure i (cfg_scrape v) s = change_details (\<lambda>d. d\<lparr>d_scrapeInterval := v\<rparr>) s"
| "cfg_form_event configure i (cfg_timeout v) s = change_details (\<lambda>d. d\<lparr>d_queryTimeout := v\<rparr>) s"
| "cfg_form_event configure i (cfg_auth field b) s = change_details (handleAuthChange field b) s"
| "cfg_form_event configure i (cfg_list ss) s = (if configure then load_source i ss s else s)"
| "cfg_form_event configure i e s = s"

fun cfg_handle :: "bool \<Rightarrow> string \<Rightarrow> cfg_event \<Rightarrow> cfg_page \<Rightarrow> cfg_page" where
  "cfg_handle configure i cfg_press s = press_button configure s"
| "cfg_handle configure i cfg_back s = (if cfg_pageNo s = 2 then s\<lparr>cfg_pageNo := 1\<rparr> else s)"
| "cfg_handle configure i (cfg_reply ok) s = (if cfg_mutate s then mutation_done ok s else s)"
| "cfg_handle configure i cfg_close s = close_alert s"
| "cfg_handle configure i e s = (if form_shown configure i then cfg_form_event configure i e s else s)"

definition cfg_run :: "bool \<Rightarrow> string \<Rightarrow> cfg_event list \<Rightarrow> cfg_page" where
  "cfg_run configure i es = fold (cfg_handle configure i) es (disabled_effect cfg_init)"

subsection \<open>What is saved\<close>

definition saved_ok :: "ds_input \<Rightarrow> bool" where
  "saved_ok x \<longleftrightarrow> i_dsName x \<noteq> '''' \<and> (isValidWebUrl (i_dsURL x) \<or> isValidWebUrl (i_dsURL x @ ''/''))
     \<and> (case i_scrapeInterval x of None \<Rightarrow> False | Some n \<Rightarrow> 0 \<le> n)
     \<and> (case i_queryTimeout x of None \<Rightarrow> False | Some n \<Rightarrow> 0 \<le> n)
     \<and> (i_authType x = ''no auth'' \<or> (i_authType x = ''basic auth'' \<and> \<not> validateTextEmpty (i_username x) \<and> \<not> validateTextEmpty (i_password x)))"

lemma seconds_some:
  assumes "validateTimeInSeconds v"
  obtains n where "seconds v = Some n" and "0 \<le> n"
proof -
  obtain ds where ds: "v = ds @ ''s''" "ds \<noteq> ''''" "\<forall>c \<in> set ds. is_digit c"
    using assms by (auto simp: validateTimeInSeconds_iff)
  have "CHR ''s'' \<notin> set ds" using ds(3) by (auto simp: is_digit_def less_eq_char_def)
  then have "js_split v ''s'' = [ds, '''']"
    using ds(1) split_on_char [of "CHR ''s''" ds "[]"] split_on_absent [of "''s''" "[]"] by (simp add: js_split_def)
  then have s: "seconds v = parse_int ds" by (simp add: seconds_def)
  obtain c u where c: "ds = c # u" using ds(2) by (cases ds) auto
  then have "is_digit c" using ds(3) by simp
  then have c': "\<not> js_space c" "c \<noteq> CHR ''-''" "c \<noteq> CHR ''+''"
    by (auto simp: is_digit_def js_space_def less_eq_char_def)
  have "takeWhile is_digit ds = ds" using ds(3) by simp
  then have "parse_int ds = Some (int (read_nat 0 ds))" using c c' by (simp add: parse_int_def Let_def)
  with s show ?thesis by (intro that) auto
qed

lemma trimmed_url_eq: "trimmed_url u = u \<or> trimmed_url u @ ''/'' = u"
proof (cases "u \<noteq> '''' \<and> u ! (length u - 1) = CHR ''/''")
  case True
  then have "last u = CHR ''/''" by (simp add: last_conv_nth)
  then have "butlast u @ ''/'' = u" using True by (metis append_butlast_last_id)
  moreover have "js_slice u 0 (- 1) = butlast u"
    by (cases u rule: rev_cases) (simp_all add: js_slice_def slice_end_def Let_def)
  ultimately show ?thesis using True by (simp add: trimmed_url_def)
qed (auto simp: trimmed_url_def)

lemma input_saved_ok:
  assumes "\<not> refused_details v"
  shows "saved_ok (input_of i v)"
proof -
  have v: "validateTimeInSeconds (d_scrapeInterval v)" "validateTimeInSeconds (d_queryTimeout v)"
    using assms by (simp_all add: refused_details_def)
  obtain n where "seconds (d_scrapeInterval v) = Some n" "0 \<le> n" by (rule seconds_some [OF v(1)])
  moreover obtain m where "seconds (d_queryTimeout v) = Some m" "0 \<le> m" by (rule seconds_some [OF v(2)])
  moreover have "isValidWebUrl (trimmed_url (d_url v)) \<or> isValidWebUrl (trimmed_url (d_url v) @ ''/'')"
    using trimmed_url_eq [of "d_url v"] assms by (auto simp: refused_details_def)
  ultimately show ?thesis using assms by (auto simp: saved_ok_def input_of_def refused_details_def authType_def)
qed

definition cfg_ok :: "bool \<Rightarrow> cfg_page \<Rightarrow> bool" where
  "cfg_ok configure s \<longleftrightarrow> cfg_disabled s = refused_details (dataSourceVars s) \<and> cfg_pageNo s \<in> {1, 2}
     \<and> list_all (\<lambda>(c, x). c = configure \<and> saved_ok x) (cfg_requests s)"

lemma cfg_ok_push: "cfg_ok c s \<Longrightarrow> cfg_ok c (push_details d s)"
  by (simp add: cfg_ok_def push_details_def disabled_effect_def)

lemma cfg_ok_load: "cfg_ok c s \<Longrightarrow> cfg_ok c (load_source i ss s)"
proof -
  have "cfg_ok c s \<Longrightarrow> cfg_ok c (fold (\<lambda>x t. if st_dsID x = i then push_details (details_of x) t else t) ss s)"
    by (induction ss arbitrary: s) (simp_all add: cfg_ok_push)
  then show "cfg_ok c s \<Longrightarrow> cfg_ok c (load_source i ss s)" by (simp add: load_source_def)
qed

lemma cfg_ok_form: "cfg_ok c s \<Longrightarrow> cfg_ok c (cfg_form_event c i e s)"
  by (cases e) (auto simp: cfg_ok_push cfg_ok_load change_details_def)

lemma cfg_ok_reply: "cfg_ok c s \<Longrightarrow> cfg_ok c (mutation_done ok s)" "cfg_ok c s \<Longrightarrow> cfg_ok c (close_alert s)"
    "cfg_ok c s \<Longrightarrow> cfg_ok c (s\<lparr>cfg_pageNo := Suc 0\<rparr>)"
  by (simp_all add: cfg_ok_def mutation_done_def close_alert_def)

lemma cfg_ok_press: "cfg_ok c s \<Longrightarrow> cfg_ok c (press_button c s)"
  by (auto simp: press_button_def mutate_effect_def cfg_ok_def input_saved_ok handleCreateMutation_def handleUpdateMutation_def)

lemma cfg_ok_handle: "cfg_ok c s \<Longrightarrow> cfg_ok c (cfg_handle c i e s)"
  by (cases e) (simp_all add: cfg_ok_form cfg_ok_press cfg_ok_reply del: cfg_form_event.simps)

lemma cfg_ok_run: "cfg_ok c (cfg_run c i es)"
proof -
  have "cfg_ok c s \<Longrightarrow> cfg_ok c (fold (cfg_handle c i) es s)" for s
    by (induction es arbitrary: s) (simp_all add: cfg_ok_handle)
  moreover have "cfg_ok c (disabled_effect cfg_init)" by (simp add: cfg_ok_def disabled_effect_def cfg_init_def)
  ultimately show ?thesis by (simp add: cfg_run_def)
qed

text \<open>
  C31. Whatever is typed, loaded and pressed, every data source sent has a name, an
  address that passed the check up to a trailing slash, readable intervals, and
  credentials when it uses basic authentication.
\<close>

theorem saved_sources_are_valid: "list_all (\<lambda>(c, x). c = configure \<and> saved_ok x) (cfg_requests (cfg_run configure i es))"
  using cfg_ok_run by (simp add: cfg_ok_def)

subsection \<open>Loading and saving\<close>

definition input_of_stored :: "stored_source \<Rightarrow> ds_input" where
  "input_of_stored s = \<lparr>i_dsID = Some (st_dsID s), i_dsName = st_dsName s, i_dsType = st_dsType s, i_dsURL = st_dsURL s,
     i_accessType = st_accessType s, i_authType = st_authType s, i_username = st_username s, i_password = st_password s,
     i_scrapeInterval = Some (st_scrapeInterval s), i_queryTimeout = Some (st_queryTimeout s), i_httpMethod = st_httpMethod s\<rparr>"

definition storable :: "stored_source \<Rightarrow> bool" where
  "storable s \<longleftrightarrow> st_dsID s \<noteq> '''' \<and> st_dsName s \<noteq> '''' \<and> isValidWebUrl (st_dsURL s) \<and> trimmed_url (st_dsURL s) = st_dsURL s
     \<and> 0 \<le> st_scrapeInterval s \<and> 0 \<le> st_queryTimeout s
     \<and> (st_authType s = ''no auth'' \<or>
        (st_authType s = ''basic auth'' \<and> \<not> validateTextEmpty (st_username s) \<and> \<not> validateTextEmpty (st_password s)))"

lemma no_letters: "c \<in> set (show_nat n) \<Longrightarrow> is_digit c"
  by (auto dest!: show_nat_digits simp: digit_char_props)

lemma seconds_show: "0 \<le> n \<Longrightarrow> seconds (show_int n @ ''s'') = Some n"
proof -
  assume n: "0 \<le> n"
  have "CHR ''s'' \<notin> set (show_int n)"
    using n no_letters [of "CHR ''s''" "nat n"] by (auto simp: show_int_def is_digit_def less_eq_char_def)
  then have "js_split (show_int n @ ''s'') ''s'' = [show_int n, '''']"
    using split_on_char [of "CHR ''s''" "show_int n" "[]"] split_on_absent [of "''s''" "[]"] by (simp add: js_split_def)
  then show ?thesis by (simp add: seconds_def parse_show_int)
qed

lemma valid_seconds: "0 \<le> n \<Longrightarrow> validateTimeInSeconds (show_int n @ ''s'')"
  by (auto simp: validateTimeInSeconds_iff show_int_def no_letters)

lemma details_of_fine: "storable s \<Longrightarrow> \<not> refused_details (details_of s)"
  by (auto simp: storable_def refused_details_def details_of_def valid_seconds)

lemma update_of_stored: "storable s \<Longrightarrow> handleUpdateMutation (details_of s) = input_of_stored s"
  by (auto simp: storable_def handleUpdateMutation_def input_of_def details_of_def authType_def input_of_stored_def seconds_show)


text \<open>A name of blanks is shown as an error and saved all the same.\<close>

lemma blank_name_is_saved:
  "validateTextEmpty ''  '' \<and>
   map (\<lambda>(c, x). i_dsName x) (cfg_requests (cfg_run False '''' [cfg_name ''  '', cfg_press, cfg_press])) = [''  '']"
  by code_simp

text \<open>The button works again once the reply has come, while the message is still shown.\<close>

lemma added_twice:
  "length (cfg_requests (cfg_run False '''' [cfg_name ''a'', cfg_press, cfg_press, cfg_reply True, cfg_press])) = 2"
  by code_simp

section \<open>Deleting a data source\<close>

record ds_delete =
  del_success :: bool
  del_alert :: bool
  drawerState :: bool
  showAllDashboards :: bool
  force_dashboards :: "string list"
  force_dsID :: string
  force_dsName :: string
  open_modals :: "string list"
  mutating :: "string list"
  del_requests :: "(string \<times> bool) list"
  refetches :: nat

definition del_init :: ds_delete where
  "del_init = \<lparr>del_success = False, del_alert = False, drawerState = False, showAllDashboards = False, force_dashboards = [],
     force_dsID = '''', force_dsName = '''', open_modals = [], mutating = [], del_requests = [], refetches = 0\<rparr>"

definition cleanDrawerState :: "ds_delete \<Rightarrow> ds_delete" where
  "cleanDrawerState s = s\<lparr>force_dashboards := [], force_dsID := '''', force_dsName := '''', showAllDashboards := False, drawerState := False\<rparr>"

definition alertStateHandler :: "bool \<Rightarrow> ds_delete \<Rightarrow> ds_delete" where
  "alertStateHandler ok s = (let s1 = s\<lparr>del_success := ok, del_alert := True\<rparr>
     in if ok then (cleanDrawerState s1)\<lparr>refetches := refetches s1 + 1\<rparr> else s1)"

definition drawerStateHandler :: "string \<Rightarrow> string \<Rightarrow> string list \<Rightarrow> ds_delete \<Rightarrow> ds_delete" where
  "drawerStateHandler i name dashboards s =
     s\<lparr>force_dashboards := dashboards, force_dsID := i, force_dsName := name, drawerState := True\<rparr>"

text \<open>The dashboards a refusal names; without a colon the code throws.\<close>

definition dashboards_of :: "string \<Rightarrow> string list option" where
  "dashboards_of message = (case js_split message '':'' of
     a # b # r \<Rightarrow> (let dashboardList = js_trim b
        in Some (js_split (js_substring dashboardList 1 (int (length dashboardList) - 1)) '',''))
   | _ \<Rightarrow> None)"

definition row_refused :: "string \<Rightarrow> string \<Rightarrow> string \<Rightarrow> ds_delete \<Rightarrow> ds_delete" where
  "row_refused i name message s =
     (let s1 = alertStateHandler False (s\<lparr>mutating := removeAll i (mutating s)\<rparr>)
      in if js_includes message ''dashboard(s)'' then
           (case dashboards_of message of None \<Rightarrow> s1 | Some ds \<Rightarrow> drawerStateHandler i name ds s1)
         else s1)"

definition row_deleted :: "string \<Rightarrow> ds_delete \<Rightarrow> ds_delete" where
  "row_deleted i s = alertStateHandler True (s\<lparr>mutating := removeAll i (mutating s)\<rparr>)"

definition row_confirm :: "string \<Rightarrow> ds_delete \<Rightarrow> ds_delete" where
  "row_confirm i s = (if i \<notin> set (open_modals s) then s else
     (let s1 = s\<lparr>open_modals := removeAll i (open_modals s)\<rparr>
      in if i \<in> set (mutating s1) then s1
         else s1\<lparr>mutating := i # mutating s1, del_requests := del_requests s1 @ [(i, False)]\<rparr>))"

datatype del_event =
    del_open string
  | del_cancel string
  | del_confirm string
  | del_done string
  | del_refused string string string
  | del_force
  | del_force_reply bool
  | del_close_drawer
  | del_toggle
  | del_close_alert

fun del_handle :: "del_event \<Rightarrow> ds_delete \<Rightarrow> ds_delete" where
  "del_handle (del_open i) s = s\<lparr>open_modals := i # open_modals s\<rparr>"
| "del_handle (del_cancel i) s = s\<lparr>open_modals := removeAll i (open_modals s)\<rparr>"
| "del_handle (del_confirm i) s = row_confirm i s"
| "del_handle (del_done i) s = (if i \<in> set (mutating s) then row_deleted i s else s)"
| "del_handle (del_refused i name message) s = (if i \<in> set (mutating s) then row_refused i name message s else s)"
| "del_handle del_force s = (if drawerState s then s\<lparr>del_requests := del_requests s @ [(force_dsID s, True)]\<rparr> else s)"
| "del_handle (del_force_reply ok) s = alertStateHandler ok s"
| "del_handle del_close_drawer s = cleanDrawerState s"
| "del_handle del_toggle s = s\<lparr>showAllDashboards := \<not> showAllDashboards s\<rparr>"
| "del_handle del_close_alert s = s\<lparr>del_alert := False\<rparr>"

definition drawer_list :: "ds_delete \<Rightarrow> string list" where
  "drawer_list s = (if showAllDashboards s then force_dashboards s else take 3 (force_dashboards s))"

text \<open>A source is deleted by force only after a plain request for it.\<close>

definition forced_after_plain :: "(string \<times> bool) list \<Rightarrow> string \<times> bool \<Rightarrow> bool" where
  "forced_after_plain rs x \<longleftrightarrow> (if snd x then (fst x, False) \<in> set rs else True)"

definition del_ok :: "ds_delete \<Rightarrow> bool" where
  "del_ok s \<longleftrightarrow> list_all (forced_after_plain (del_requests s)) (del_requests s)
     \<and> set (mutating s) \<subseteq> {i. (i, False) \<in> set (del_requests s)}
     \<and> (if drawerState s then (force_dsID s, False) \<in> set (del_requests s) else True)"

lemma del_ok_handle: "del_ok s \<Longrightarrow> del_ok (del_handle e s)"
  by (cases e) (auto simp: del_ok_def forced_after_plain_def list_all_iff row_confirm_def row_deleted_def row_refused_def Let_def
      alertStateHandler_def cleanDrawerState_def drawerStateHandler_def split: option.split if_splits)

theorem forced_deletions_were_refused:
  "list_all (forced_after_plain (del_requests (fold del_handle es del_init))) (del_requests (fold del_handle es del_init))"
proof -
  have "del_ok s \<Longrightarrow> del_ok (fold del_handle es s)" for s
    by (induction es arbitrary: s) (simp_all add: del_ok_handle)
  then have "del_ok (fold del_handle es del_init)" by (simp add: del_ok_def del_init_def)
  then show ?thesis by (simp add: del_ok_def)
qed

subsection \<open>The refusal\<close>

text \<open>The server's message (\<open>graphql-server/pkg/analytics/handler\<close>).\<close>

definition delete_refusal :: "string list \<Rightarrow> string" where
  "delete_refusal names = ''failed to delete datasource, dashboard(s) are attached to the datasource: ['' @ js_join '','' names @ '']''"

definition plain_name :: "string \<Rightarrow> bool" where
  "plain_name n \<longleftrightarrow> CHR '','' \<notin> set n \<and> CHR '':'' \<notin> set n"

theorem refusal_lists_the_dashboards:
  assumes "names \<noteq> []" and "list_all plain_name names"
  shows "js_includes (delete_refusal names) ''dashboard(s)'' \<and> dashboards_of (delete_refusal names) = Some names"
proof -
  let ?head = "''failed to delete datasource, dashboard(s) are attached to the datasource''"
  let ?list = "''['' @ js_join '','' names @ '']''"
  have msg: "delete_refusal names = ?head @ CHR '':'' # ('' '' @ ?list)" by (simp add: delete_refusal_def)
  have "CHR '':'' \<notin> set (js_join '','' names)"
    using set_js_join [of "'',''" names] assms(2) by (auto simp: list_all_iff plain_name_def)
  then have "split_on '':'' ('' '' @ ?list) = ['' '' @ ?list]" by (intro split_on_absent) (simp add: find_sub_singleton_None)
  then have split: "js_split (delete_refusal names) '':'' = [?head, '' '' @ ?list]"
    using split_on_char [of "CHR '':''" ?head] unfolding msg by (simp add: js_split_def)
  have trim: "js_trim ('' '' @ ?list) = ?list" by (simp add: js_trim_def js_space_def)
  have sub: "js_substring ?list 1 (int (length ?list) - 1) = js_join '','' names"
    by (simp add: js_substring_def clampn_def Let_def nat_diff_distrib)
  have names: "split_on '','' (js_join '','' names) = names"
    using assms by (intro split_join_char) (auto simp: list_all_iff plain_name_def)
  have "dashboards_of (delete_refusal names) = Some names"
    unfolding dashboards_of_def split by (simp only: list.case trim sub Let_def) (simp add: js_split_def names)
  moreover have "delete_refusal names = ''failed to delete datasource, '' @ ''dashboard(s)'' @ ('' are attached to the datasource:'' @ '' '' @ ?list)"
    by (simp add: delete_refusal_def)
  then have "js_includes (delete_refusal names) ''dashboard(s)''" unfolding js_includes_sublist sublist_def by blast
  ultimately show ?thesis by simp
qed

lemma comma_splits_a_name: "dashboards_of (delete_refusal [''cpu, memory'']) = Some [''cpu'', '' memory'']"
  by code_simp

end
