(* ===== verification/Dashboard.thy ===== *)
theory Dashboard
  imports PromData Complex_Main
begin

text \<open>
  The page of one dashboard (\<open>pages/MonitoringDashboard/index.tsx\<close>) with its toolbar and its
  information drop-down: which dashboard is shown, over which time and how often it is refreshed,
  the stack behind zooming with the brush, and what the subscription's data becomes.

  The code changes a range in place, so ranges live in a store and the state holds addresses.
  Server replies, subscription data and user input are events; a step that throws is an error.
  Times are whole seconds in the texts of a range; brush positions are milliseconds.
\<close>

section \<open>State\<close>

definition INVALID_REFRESH_RATE :: int where "INVALID_REFRESH_RATE = 0"
definition DEFAULT_REFRESH_RATE :: int where "DEFAULT_REFRESH_RATE = 15"
definition INVALID_RELATIVE_TIME_RANGE :: int where "INVALID_RELATIVE_TIME_RANGE = 0"
definition INVALID_DATE :: string where "INVALID_DATE = ''''"
definition ACTIVE :: string where "ACTIVE = ''Active''"
definition TIME_DEVIATION_THRESHOLD :: int where "TIME_DEVIATION_THRESHOLD = 5"
definition RESOLUTION_LIMIT_REACHED :: string where
  "RESOLUTION_LIMIT_REACHED = ''bad_data: exceeded maximum resolution of 11,000 points per timeseries. Try decreasing the query resolution (?step=XX)''"

lemmas dashboard_constants = INVALID_REFRESH_RATE_def DEFAULT_REFRESH_RATE_def INVALID_RELATIVE_TIME_RANGE_def
  INVALID_DATE_def TIME_DEVIATION_THRESHOLD_def DEFAULT_RELATIVE_TIME_RANGE_def

record GetDashboardResponse =
  r_dbID :: string
  r_dbName :: string
  r_dbTypeName :: string
  r_dbTypeID :: string
  r_clusterName :: string
  r_dbInformation :: string
  r_eventTemplate :: string
  r_verdictTemplate :: string
  applicationMetadataMap :: "js list"
  r_dsURL :: string
  r_dsID :: string
  r_dsName :: string
  dsHealthStatus :: string
  panelGroups :: "PanelGroupResponse option list option"

record TimeControlObject =
  tc_range :: nat
  tc_relativeTime :: int
  tc_refreshInterval :: int

record info =
  info_id :: string
  info_name :: string
  info_typeName :: string
  info_typeID :: string
  info_agentName :: string
  urlToIcon :: string
  information :: string
  chaosEventQueryTemplate :: string
  chaosVerdictQueryTemplate :: string
  info_applications :: "js list"
  dashboardListForAgent :: "GetDashboardResponse list"
  metaData :: "GetDashboardResponse option"
  closedAreaQueryIDs :: "string list"
  dashboardKey :: string
  panelNameAndIDList :: "(string \<times> string) list"
  dataSourceURL :: string
  dataSourceID :: string
  dataSourceName :: string
  info_queries :: "promQueryInput list"
  info_range :: nat
  relativeTime :: int
  refreshInterval :: int
  timeControlStack :: "TimeControlObject list"

record dropdown =
  drop_applications :: "string list"
  drop_metrics :: "string list"

record view_response =
  annotationsResponse :: "annotationsPromResponse option list"
  dashboardMetricsResponse :: "metricDataForPanelGroup list"

record dash_page =
  dash :: info
  ranges :: "RangeType list"
  tool_range :: nat
  tool_refresh :: int
  dataSourceStatus :: string
  centralBrushPosition :: "(rat \<times> rat) option"
  centralAllowGraphUpdate :: bool
  infoDropdown :: "dropdown option"
  isLoading :: bool
  showPromQueryResponseLoader :: bool
  selectedPanels :: "string list"
  selectedApplications :: "string list"
  dash_selectedEvents :: "string list"
  reFetch :: bool
  reFetching :: bool
  chaosEventData :: ParsedChaosEventPrometheusData
  panelGroupQueryMap :: "QueryMapForPanelGroup list"
  dashboards :: "GetDashboardResponse list option"
  dashboardQueries :: "view_response option"

definition no_chaos :: ParsedChaosEventPrometheusData where
  "no_chaos = \<lparr>chaosEventDetails = [], chaosData = []\<rparr>"

definition no_range :: RangeType where
  "no_range = \<lparr>startDate = INVALID_DATE, endDate = INVALID_DATE\<rparr>"

definition dash_init :: "string \<Rightarrow> dash_page" where
  "dash_init i = \<lparr>dash = \<lparr>info_id = i, info_name = '''', info_typeName = '''', info_typeID = '''', info_agentName = '''',
       urlToIcon = '''', information = '''', chaosEventQueryTemplate = '''', chaosVerdictQueryTemplate = '''',
       info_applications = [], dashboardListForAgent = [], metaData = None, closedAreaQueryIDs = [], dashboardKey = ''Default'',
       panelNameAndIDList = [], dataSourceURL = '''', dataSourceID = '''', dataSourceName = '''', info_queries = [],
       info_range = 0, relativeTime = DEFAULT_RELATIVE_TIME_RANGE, refreshInterval = DEFAULT_REFRESH_RATE, timeControlStack = []\<rparr>,
     ranges = [no_range], tool_range = 0, tool_refresh = DEFAULT_REFRESH_RATE, dataSourceStatus = ACTIVE,
     centralBrushPosition = None, centralAllowGraphUpdate = True, infoDropdown = None, isLoading = True,
     showPromQueryResponseLoader = True, selectedPanels = [], selectedApplications = [], dash_selectedEvents = [],
     reFetch = False, reFetching = False, chaosEventData = no_chaos, panelGroupQueryMap = [], dashboards = None, dashboardQueries = None\<rparr>"

section \<open>Loading a dashboard\<close>

definition panel_names :: "PanelGroupResponse option \<Rightarrow> (string \<times> string) list result" where
  "panel_names g = rbind (need g) (\<lambda>pg.
     mapR (\<lambda>p. rmap (\<lambda>panel. (panelName panel, pr_panelID panel)) (need p)) (case panels pg of None \<Rightarrow> [] | Some ps \<Rightarrow> ps))"

definition groups_of :: "GetDashboardResponse \<Rightarrow> PanelGroupResponse option list" where
  "groups_of d = (case panelGroups d of None \<Rightarrow> [] | Some gs \<Rightarrow> gs)"

definition closed_areas :: "GetDashboardResponse \<Rightarrow> string list" where
  "closed_areas d = map dq_queryID (filter closeArea (concat (map queries_of (concat (map panels_of (groups_of d))))))"

definition meta_groups :: "info \<Rightarrow> PanelGroupResponse option list" where
  "meta_groups i = (case metaData i of None \<Rightarrow> [] | Some d \<Rightarrow> groups_of d)"

definition queries_over :: "RangeType \<Rightarrow> info \<Rightarrow> promQueryInput list" where
  "queries_over r i = generatePromQueries r (meta_groups i) (chaosEventQueryTemplate i) (chaosVerdictQueryTemplate i)"

definition load_info :: "RangeType \<Rightarrow> GetDashboardResponse list \<Rightarrow> GetDashboardResponse \<Rightarrow> (string \<times> string) list \<Rightarrow> info \<Rightarrow> info" where
  "load_info r ds d names i = i\<lparr>dashboardListForAgent := ds, metaData := Some d, closedAreaQueryIDs := closed_areas d,
     dashboardKey := info_id i, panelNameAndIDList := names, info_name := r_dbName d, info_typeName := r_dbTypeName d,
     info_typeID := r_dbTypeID d, info_agentName := r_clusterName d,
     urlToIcon := ''./icons/'' @ (if js_includes (r_dbTypeID d) ''custom'' then ''custom'' else r_dbTypeID d) @ ''_dashboard.svg'',
     information := r_dbInformation d, chaosEventQueryTemplate := r_eventTemplate d, chaosVerdictQueryTemplate := r_verdictTemplate d,
     info_applications := applicationMetadataMap d, dataSourceURL := r_dsURL d, dataSourceID := r_dsID d, dataSourceName := r_dsName d,
     info_queries := generatePromQueries r (groups_of d) (r_eventTemplate d) (r_verdictTemplate d)\<rparr>"

text \<open>The drop-down's effects follow the lists it is given.\<close>

definition reset_dropdown :: "info \<Rightarrow> dropdown" where
  "reset_dropdown i = \<lparr>drop_applications = [], drop_metrics = map snd (panelNameAndIDList i)\<rparr>"

definition load_dashboard :: "GetDashboardResponse list \<Rightarrow> GetDashboardResponse \<Rightarrow> dash_page \<Rightarrow> dash_page result" where
  "load_dashboard ds d s = rmap (\<lambda>ns. let names = concat ns; i = load_info (ranges s ! info_range (dash s)) ds d names (dash s) in
       s\<lparr>dash := i, selectedPanels := map snd names, selectedApplications := [], panelGroupQueryMap := [],
         dataSourceStatus := (if dsHealthStatus d \<noteq> ACTIVE then dsHealthStatus d else dataSourceStatus s),
         infoDropdown := map_option (\<lambda>_. reset_dropdown i) (infoDropdown s)\<rparr>)
     (mapR panel_names (groups_of d))"

definition dashboards_effect :: "dash_page \<Rightarrow> dash_page result" where
  "dashboards_effect s = (case dashboards s of
      None \<Rightarrow> Inr s
    | Some ds \<Rightarrow> if ds = [] \<or> info_id (dash s) = dashboardKey (dash s) then Inr s
        else rmap (\<lambda>t. t\<lparr>reFetch := True\<rparr>)
          (case filter (\<lambda>d. r_dbID d = info_id (dash s)) ds of [] \<Rightarrow> Inr s | d # _ \<Rightarrow> load_dashboard ds d s))"

section \<open>Time\<close>

text \<open>The toolbar's effects: it takes over a range that is a new object and reads differently,
  and a new refresh rate.\<close>

definition tool_effects :: "nat \<Rightarrow> dash_page \<Rightarrow> dash_page" where
  "tool_effects old_range s = (let new = info_range (dash s) in
     s\<lparr>tool_range := (if new \<noteq> old_range \<and> ranges s ! tool_range s \<noteq> ranges s ! new then new else tool_range s),
       tool_refresh := refreshInterval (dash s)\<rparr>)"

definition new_range :: "RangeType \<Rightarrow> dash_page \<Rightarrow> dash_page" where
  "new_range r s = s\<lparr>ranges := ranges s @ [r], dash := (dash s)\<lparr>info_range := length (ranges s)\<rparr>\<rparr>"

definition set_time :: "int \<Rightarrow> int \<Rightarrow> dash_page \<Rightarrow> dash_page" where
  "set_time rel ref s = s\<lparr>dash := (dash s)\<lparr>relativeTime := rel, refreshInterval := ref,
     info_queries := queries_over (ranges s ! info_range (dash s)) (dash s)\<rparr>\<rparr>"

definition is_absolute :: "RangeType \<Rightarrow> bool" where
  "is_absolute r \<longleftrightarrow> startDate r \<noteq> INVALID_DATE \<and> endDate r \<noteq> INVALID_DATE"

definition handleRangeChange :: "RangeType \<Rightarrow> int \<Rightarrow> dash_page \<Rightarrow> dash_page" where
  "handleRangeChange r rel s = (let ref = (if is_absolute r \<and> rel = INVALID_RELATIVE_TIME_RANGE
       \<and> refreshInterval (dash s) \<noteq> INVALID_REFRESH_RATE then INVALID_REFRESH_RATE else refreshInterval (dash s))
     in (set_time rel ref (new_range r s))\<lparr>dash_selectedEvents := [], showPromQueryResponseLoader := True, reFetch := True\<rparr>)"

text \<open>The chosen days become seconds; the toolbar keeps a range object of its own.\<close>

definition CallbackFromRangeSelector :: "int \<Rightarrow> int \<Rightarrow> dash_page \<Rightarrow> dash_page" where
  "CallbackFromRangeSelector a b s =
     (let r = \<lparr>startDate = show_int a, endDate = show_int b\<rparr>; own = length (ranges s);
          s1 = s\<lparr>ranges := ranges s @ [r], tool_range := own\<rparr>
      in tool_effects (info_range (dash s)) (handleRangeChange r INVALID_RELATIVE_TIME_RANGE s1))"

definition handleRefreshRateChange :: "int \<Rightarrow> dash_page \<Rightarrow> dash_page" where
  "handleRefreshRateChange rate s = (let a = info_range (dash s); i = dash s;
       back = rate \<noteq> INVALID_REFRESH_RATE \<and> is_absolute (ranges s ! a) \<and> relativeTime i = INVALID_RELATIVE_TIME_RANGE
     in s\<lparr>ranges := (if back then (ranges s)[a := no_range] else ranges s),
          dash := i\<lparr>refreshInterval := rate, relativeTime := (if back then DEFAULT_RELATIVE_TIME_RANGE else relativeTime i)\<rparr>,
          showPromQueryResponseLoader := False, reFetch := True\<rparr>)"

definition refreshRateChangeHandler :: "int \<Rightarrow> dash_page \<Rightarrow> dash_page" where
  "refreshRateChangeHandler rate s = tool_effects (info_range (dash s)) (handleRefreshRateChange rate (s\<lparr>tool_refresh := rate\<rparr>))"

subsection \<open>Zooming\<close>

definition num_test :: "(int \<Rightarrow> bool) \<Rightarrow> string \<Rightarrow> bool" where
  "num_test f v = (case parse_int v of None \<Rightarrow> False | Some n \<Rightarrow> f n)"

definition zoom_covers :: "RangeType \<Rightarrow> int \<Rightarrow> int \<Rightarrow> int \<Rightarrow> int \<Rightarrow> bool" where
  "zoom_covers r rel ref newStart newEnd \<longleftrightarrow>
     startDate r \<noteq> INVALID_DATE \<and> num_test (\<lambda>n. n \<le> newStart) (startDate r)
   \<and> endDate r \<noteq> INVALID_DATE \<and> num_test (\<lambda>n. n \<ge> newEnd) (endDate r)
   \<and> num_test (\<lambda>e. num_test (\<lambda>b. e - b - (newEnd - newStart) > TIME_DEVIATION_THRESHOLD) (startDate r)) (endDate r)
   \<and> rel = INVALID_RELATIVE_TIME_RANGE \<and> ref = INVALID_REFRESH_RATE"

definition may_zoom :: "int \<Rightarrow> int \<Rightarrow> dash_page \<Rightarrow> bool" where
  "may_zoom newStart newEnd s \<longleftrightarrow> (let i = dash s; r = ranges s ! info_range i in
     (zoom_covers r (relativeTime i) (refreshInterval i) newStart newEnd
      \<or> (relativeTime i \<noteq> INVALID_RELATIVE_TIME_RANGE \<and> startDate r = INVALID_DATE \<and> endDate r = INVALID_DATE))
   \<and> (case timeControlStack i of
        [] \<Rightarrow> True
      | h # _ \<Rightarrow> (let hr = ranges s ! tc_range h in
          zoom_covers hr (tc_relativeTime h) (tc_refreshInterval h) newStart newEnd
          \<or> (startDate hr = INVALID_DATE \<and> endDate hr = INVALID_DATE
             \<and> tc_relativeTime h \<noteq> INVALID_RELATIVE_TIME_RANGE \<and> tc_refreshInterval h \<noteq> INVALID_REFRESH_RATE))))"

definition zoom_in :: "RangeType \<Rightarrow> rat \<times> rat \<Rightarrow> dash_page \<Rightarrow> dash_page" where
  "zoom_in r brush s = (let i = dash s;
       pushed = s\<lparr>dash := i\<lparr>timeControlStack := timeControlStack i @
         [\<lparr>tc_range = info_range i, tc_relativeTime = relativeTime i, tc_refreshInterval = refreshInterval i\<rparr>]\<rparr>\<rparr>
     in (set_time INVALID_RELATIVE_TIME_RANGE INVALID_REFRESH_RATE (new_range r pushed))
          \<lparr>dash_selectedEvents := [], reFetch := True, centralAllowGraphUpdate := False, centralBrushPosition := Some brush\<rparr>)"

definition zoom_out :: "TimeControlObject \<Rightarrow> dash_page \<Rightarrow> dash_page" where
  "zoom_out h s = (let i = dash s; hr = ranges s ! tc_range h;
       t = (set_time (tc_relativeTime h) (tc_refreshInterval h)
              (s\<lparr>dash := i\<lparr>info_range := tc_range h, timeControlStack := []\<rparr>\<rparr>))\<lparr>dash_selectedEvents := [], reFetch := True\<rparr>
     in if is_absolute hr \<and> tc_relativeTime h = INVALID_RELATIVE_TIME_RANGE \<and> tc_refreshInterval h = INVALID_REFRESH_RATE
        then t\<lparr>centralAllowGraphUpdate := False,
               centralBrushPosition := (case (parse_int (startDate hr), parse_int (endDate hr)) of
                  (Some a, Some b) \<Rightarrow> Some (of_int a * 1000, of_int b * 1000) | _ \<Rightarrow> None)\<rparr>
        else t\<lparr>centralAllowGraphUpdate := True, centralBrushPosition := None\<rparr>)"

definition zoom_reset :: "dash_page \<Rightarrow> dash_page" where
  "zoom_reset s = (set_time DEFAULT_RELATIVE_TIME_RANGE DEFAULT_REFRESH_RATE (new_range no_range s))
     \<lparr>dash_selectedEvents := [], reFetch := True, centralAllowGraphUpdate := True, centralBrushPosition := None\<rparr>"

definition handleCentralBrushPosition :: "rat \<Rightarrow> rat \<Rightarrow> dash_page \<Rightarrow> dash_page" where
  "handleCentralBrushPosition x y s =
     (let newStart = \<lceil>x / 1000\<rceil>; newEnd = \<lfloor>y / 1000\<rfloor>; r = \<lparr>startDate = show_int newStart, endDate = show_int newEnd\<rparr>;
          t = (if may_zoom newStart newEnd s then zoom_in r (x, y) s
               else case timeControlStack (dash s) of h # _ \<Rightarrow> zoom_out h s | [] \<Rightarrow> zoom_reset s)
      in tool_effects (info_range (dash s)) (t\<lparr>showPromQueryResponseLoader := False\<rparr>))"

section \<open>The subscription\<close>

definition subscription_skipped :: "bool \<Rightarrow> bool \<Rightarrow> dash_page \<Rightarrow> bool" where
  "subscription_skipped loading failed s \<longleftrightarrow> (let i = dash s; r = ranges s ! info_range i in
     loading \<or> failed \<or> info_queries i = [] \<or> (case metaData i of None \<Rightarrow> False | Some d \<Rightarrow> groups_of d = [])
   \<or> dataSourceURL i = ''''
   \<or> (startDate r = INVALID_DATE \<and> endDate r = INVALID_DATE \<and> relativeTime i = INVALID_RELATIVE_TIME_RANGE))"

record dataVariables =
  v_url :: string
  v_start :: string
  v_end :: string
  v_relativeTime :: int
  v_refreshInterval :: int

definition data_variables :: "dash_page \<Rightarrow> dataVariables" where
  "data_variables s = (let i = dash s; r = ranges s ! info_range i in
     \<lparr>v_url = dataSourceURL i, v_start = startDate r, v_end = endDate r, v_relativeTime = relativeTime i,
      v_refreshInterval = refreshInterval i\<rparr>)"

definition shouldResubscribe :: "dash_page \<Rightarrow> bool \<times> dash_page" where
  "shouldResubscribe s = (if reFetch s
     then (True, s\<lparr>reFetching := reFetching s \<or> showPromQueryResponseLoader s, reFetch := False\<rparr>) else (False, s))"

definition onSubscriptionData :: "string list \<Rightarrow> string list \<Rightarrow> view_response \<Rightarrow> dash_page \<Rightarrow> dash_page result" where
  "onSubscriptionData lineGraph areaGraph v s =
     rbind (ChaosEventDataParserForPrometheus (annotationsResponse v) areaGraph (dash_selectedEvents s)) (\<lambda>c.
     rmap (\<lambda>m. s\<lparr>chaosEventData := c, panelGroupQueryMap := m, reFetching := False, dashboardQueries := Some v\<rparr>)
       (DashboardMetricDataParserForPrometheus (dashboardMetricsResponse v) lineGraph areaGraph
          (closedAreaQueryIDs (dash s)) (selectedApplications s)))"

definition onSubscriptionComplete :: "dash_page \<Rightarrow> dash_page" where
  "onSubscriptionComplete s = s\<lparr>reFetching := False, showPromQueryResponseLoader := False\<rparr>"

definition subscription_failed :: "string \<Rightarrow> dash_page \<Rightarrow> dash_page" where
  "subscription_failed message s = (if message = RESOLUTION_LIMIT_REACHED
     then tool_effects (info_range (dash s)) (s\<lparr>dash := (dash s)\<lparr>refreshInterval := INVALID_REFRESH_RATE\<rparr>\<rparr>) else s)"

definition applications_effect :: "string list \<Rightarrow> string list \<Rightarrow> dash_page \<Rightarrow> dash_page result" where
  "applications_effect lineGraph areaGraph s = (case dashboardQueries s of
      None \<Rightarrow> Inr s
    | Some v \<Rightarrow> if dashboardMetricsResponse v \<noteq> [] \<and> selectedApplications s \<noteq> []
        then rmap (\<lambda>m. s\<lparr>panelGroupQueryMap := m\<rparr>)
          (DashboardMetricDataParserForPrometheus (dashboardMetricsResponse v) lineGraph areaGraph
             (closedAreaQueryIDs (dash s)) (selectedApplications s))
        else Inr s)"

definition events_effect :: "string list \<Rightarrow> dash_page \<Rightarrow> dash_page result" where
  "events_effect areaGraph s = (case dashboardQueries s of
      None \<Rightarrow> Inr s
    | Some v \<Rightarrow> if annotationsResponse v \<noteq> [] \<and> dash_selectedEvents s \<noteq> []
        then rmap (\<lambda>c. s\<lparr>chaosEventData := c\<rparr>)
          (ChaosEventDataParserForPrometheus (annotationsResponse v) areaGraph (dash_selectedEvents s))
        else Inr s)"

section \<open>Events\<close>

definition switch_dashboard :: "string \<Rightarrow> dash_page \<Rightarrow> dash_page" where
  "switch_dashboard i s = s\<lparr>dash := (dash s)\<lparr>info_id := i\<rparr>\<rparr>"

definition handleForceUpdate :: "dash_page \<Rightarrow> dash_page" where
  "handleForceUpdate s = s\<lparr>dash := (dash s)\<lparr>dashboardKey := ''Default''\<rparr>, isLoading := True\<rparr>"

definition refetchDashboardAndMetrics :: "dash_page \<Rightarrow> dash_page" where
  "refetchDashboardAndMetrics s = s\<lparr>chaosEventData := no_chaos, dash_selectedEvents := [],
     dash := (dash s)\<lparr>dashboardKey := ''Default''\<rparr>, showPromQueryResponseLoader := True, isLoading := True\<rparr>"

text \<open>While the page loads, the toolbar and the drop-down are not on it; they start anew after it.\<close>

definition remount :: "dash_page \<Rightarrow> dash_page" where
  "remount s = (if isLoading s then s\<lparr>isLoading := False, tool_range := info_range (dash s), tool_refresh := refreshInterval (dash s),
     infoDropdown := map_option (\<lambda>_. reset_dropdown (dash s)) (infoDropdown s)\<rparr> else s)"

definition toggle :: "string \<Rightarrow> string list \<Rightarrow> string list" where
  "toggle x xs = (if x \<in> set xs then filter (\<lambda>y. y \<noteq> x) xs else xs @ [x])"

definition handleMetricSelect :: "string \<Rightarrow> dash_page \<Rightarrow> dash_page" where
  "handleMetricSelect m s = (case infoDropdown s of None \<Rightarrow> s | Some d \<Rightarrow>
     (let ms = toggle m (drop_metrics d) in s\<lparr>infoDropdown := Some (d\<lparr>drop_metrics := ms\<rparr>), selectedPanels := ms\<rparr>))"

definition handleApplicationSelect :: "string \<Rightarrow> dash_page \<Rightarrow> dash_page" where
  "handleApplicationSelect a s = (case infoDropdown s of None \<Rightarrow> s | Some d \<Rightarrow>
     (let as = toggle a (drop_applications d) in s\<lparr>infoDropdown := Some (d\<lparr>drop_applications := as\<rparr>), selectedApplications := as\<rparr>))"

datatype dash_event =
    dash_came "GetDashboardResponse list"
  | dash_failed
  | dash_try_again
  | dash_switch string
  | dash_days int int
  | dash_rate int
  | dash_brush rat rat
  | dash_force
  | dash_edited
  | dash_info bool
  | dash_metric string
  | dash_application string
  | dash_chaos_selected "string list"
  | dash_resubscribe
  | dash_data view_response
  | dash_complete
  | dash_error string

fun dash_step :: "string list \<Rightarrow> string list \<Rightarrow> dash_event \<Rightarrow> dash_page \<Rightarrow> dash_page result" where
  "dash_step lg ag (dash_came ds) s = dashboards_effect (remount (s\<lparr>dashboards := Some ds\<rparr>))"
| "dash_step lg ag dash_failed s = Inr (s\<lparr>isLoading := False\<rparr>)"
| "dash_step lg ag dash_try_again s = Inr (s\<lparr>isLoading := True\<rparr>)"
| "dash_step lg ag (dash_switch i) s = dashboards_effect (switch_dashboard i s)"
| "dash_step lg ag (dash_days a b) s = Inr (CallbackFromRangeSelector a b s)"
| "dash_step lg ag (dash_rate r) s = Inr (refreshRateChangeHandler r s)"
| "dash_step lg ag (dash_brush x y) s = Inr (handleCentralBrushPosition x y s)"
| "dash_step lg ag dash_force s = Inr (handleForceUpdate s)"
| "dash_step lg ag dash_edited s = Inr (refetchDashboardAndMetrics s)"
| "dash_step lg ag (dash_info b) s = Inr (s\<lparr>infoDropdown := (if b then Some (case infoDropdown s of None \<Rightarrow> reset_dropdown (dash s) | Some d \<Rightarrow> d) else None)\<rparr>)"
| "dash_step lg ag (dash_metric m) s = Inr (handleMetricSelect m s)"
| "dash_step lg ag (dash_application a) s = applications_effect lg ag (handleApplicationSelect a s)"
| "dash_step lg ag (dash_chaos_selected es) s = events_effect ag (s\<lparr>dash_selectedEvents := es\<rparr>)"
| "dash_step lg ag dash_resubscribe s = Inr (snd (shouldResubscribe s))"
| "dash_step lg ag (dash_data v) s = onSubscriptionData lg ag v s"
| "dash_step lg ag dash_complete s = Inr (onSubscriptionComplete s)"
| "dash_step lg ag (dash_error m) s = Inr (subscription_failed m s)"

definition dash_run :: "string list \<Rightarrow> string list \<Rightarrow> string \<Rightarrow> dash_event list \<Rightarrow> dash_page result" where
  "dash_run lg ag i es = foldR (dash_step lg ag) es (dash_init i)"

section \<open>Time is always given\<close>

definition time_ok :: "RangeType \<Rightarrow> int \<Rightarrow> int \<Rightarrow> bool" where
  "time_ok r rel ref \<longleftrightarrow> (r = no_range \<and> rel = DEFAULT_RELATIVE_TIME_RANGE)
     \<or> (is_absolute r \<and> rel = INVALID_RELATIVE_TIME_RANGE \<and> ref = INVALID_REFRESH_RATE)"

definition entry_ok :: "dash_page \<Rightarrow> TimeControlObject \<Rightarrow> bool" where
  "entry_ok s h \<longleftrightarrow> tc_range h < length (ranges s) \<and> tc_range h \<noteq> info_range (dash s)
     \<and> time_ok (ranges s ! tc_range h) (tc_relativeTime h) (tc_refreshInterval h)"

definition page_ok :: "dash_page \<Rightarrow> bool" where
  "page_ok s \<longleftrightarrow> info_range (dash s) < length (ranges s)
     \<and> time_ok (ranges s ! info_range (dash s)) (relativeTime (dash s)) (refreshInterval (dash s))
     \<and> list_all (entry_ok s) (timeControlStack (dash s))"

text \<open>What the invariant depends on.\<close>

definition same_time :: "dash_page \<Rightarrow> dash_page \<Rightarrow> bool" where
  "same_time s t \<longleftrightarrow> ranges t = ranges s \<and> info_range (dash t) = info_range (dash s)
     \<and> relativeTime (dash t) = relativeTime (dash s) \<and> refreshInterval (dash t) = refreshInterval (dash s)
     \<and> timeControlStack (dash t) = timeControlStack (dash s)"

lemma page_ok_same: "same_time s t \<Longrightarrow> page_ok t = page_ok s"
  by (simp add: page_ok_def same_time_def entry_ok_def [abs_def])

lemma same_time_trans: "same_time s t \<Longrightarrow> same_time t u \<Longrightarrow> same_time s u"
  by (simp add: same_time_def)

lemma same_tool: "same_time s (tool_effects a s)"
  by (simp add: same_time_def tool_effects_def Let_def)

lemma same_load: "load_dashboard ds d s = Inr t \<Longrightarrow> same_time s t"
  by (auto simp: load_dashboard_def rmap_def rbind_Inr_iff Let_def same_time_def load_info_def)

lemma same_dashboards: "dashboards_effect s = Inr t \<Longrightarrow> same_time s t"
proof -
  have set: "same_time s u \<Longrightarrow> same_time s (u\<lparr>reFetch := True\<rparr>)" for u by (simp add: same_time_def)
  have refl: "same_time u u" for u by (simp add: same_time_def)
  show "dashboards_effect s = Inr t \<Longrightarrow> same_time s t"
    by (auto simp: dashboards_effect_def rmap_def rbind_Inr_iff refl split: option.splits if_splits list.splits
        intro!: set dest: same_load)
qed

lemma same_remount: "same_time s (remount (s\<lparr>dashboards := d\<rparr>))"
  by (simp add: same_time_def remount_def)

lemma same_effects:
  "applications_effect lg ag s = Inr t \<Longrightarrow> same_time s t"
  "events_effect ag s = Inr t \<Longrightarrow> same_time s t"
  "onSubscriptionData lg ag v s = Inr t \<Longrightarrow> same_time s t"
  by (auto simp: applications_effect_def events_effect_def onSubscriptionData_def rmap_def rbind_Inr_iff same_time_def
      split: option.splits if_splits)

lemma same_selects: "same_time s (handleMetricSelect m s)" "same_time s (handleApplicationSelect m s)"
  by (simp_all add: same_time_def handleMetricSelect_def handleApplicationSelect_def Let_def split: option.split)

lemma set_time_simps [simp]:
  "ranges (set_time rel ref s) = ranges s" "info_range (dash (set_time rel ref s)) = info_range (dash s)"
  "relativeTime (dash (set_time rel ref s)) = rel" "refreshInterval (dash (set_time rel ref s)) = ref"
  "timeControlStack (dash (set_time rel ref s)) = timeControlStack (dash s)"
  "dataSourceURL (dash (set_time rel ref s)) = dataSourceURL (dash s)"
  by (simp_all add: set_time_def)

lemma new_range_simps [simp]:
  "ranges (new_range r s) = ranges s @ [r]" "info_range (dash (new_range r s)) = length (ranges s)"
  "relativeTime (dash (new_range r s)) = relativeTime (dash s)" "refreshInterval (dash (new_range r s)) = refreshInterval (dash s)"
  "timeControlStack (dash (new_range r s)) = timeControlStack (dash s)"
  "dataSourceURL (dash (new_range r s)) = dataSourceURL (dash s)"
  by (simp_all add: new_range_def)

text \<open>A new range object for the shown time.\<close>

lemma page_ok_new:
  assumes "page_ok s" and "time_ok r rel ref"
    and "ranges t = ranges s @ rs @ [r]" "info_range (dash t) = length (ranges s @ rs)" "relativeTime (dash t) = rel"
    "refreshInterval (dash t) = ref" "timeControlStack (dash t) = timeControlStack (dash s) @ hs"
    and "list_all (\<lambda>h. tc_range h = info_range (dash s) \<and> tc_relativeTime h = relativeTime (dash s)
      \<and> tc_refreshInterval h = refreshInterval (dash s)) hs"
  shows "page_ok t"
proof -
  have "entry_ok t h" if "h \<in> set (timeControlStack (dash t))" for h
  proof (cases "h \<in> set hs")
    case True
    then show ?thesis using assms by (auto simp: entry_ok_def page_ok_def list_all_iff nth_append)
  next
    case False
    then have "entry_ok s h" using that assms by (auto simp: page_ok_def list_all_iff)
    then show ?thesis using assms by (auto simp: entry_ok_def nth_append)
  qed
  moreover have "ranges t ! info_range (dash t) = r" "info_range (dash t) < length (ranges t)"
    using assms(3,4) by (simp_all add: nth_append)
  ultimately show ?thesis using assms(2,5,6) by (simp add: page_ok_def list_all_iff)
qed

lemma show_int_nonempty: "show_int n \<noteq> ''''"
  by (simp add: show_int_def)

lemma absolute_shown: "time_ok \<lparr>startDate = show_int a, endDate = show_int b\<rparr> INVALID_RELATIVE_TIME_RANGE INVALID_REFRESH_RATE"
  by (simp add: time_ok_def is_absolute_def INVALID_DATE_def show_int_nonempty)

lemma page_ok_days: "page_ok s \<Longrightarrow> page_ok (CallbackFromRangeSelector a b s)"
proof -
  assume s: "page_ok s"
  let ?r = "\<lparr>startDate = show_int a, endDate = show_int b\<rparr>"
  let ?t = "handleRangeChange ?r INVALID_RELATIVE_TIME_RANGE (s\<lparr>ranges := ranges s @ [?r], tool_range := length (ranges s)\<rparr>)"
  have "page_ok ?t"
    by (rule page_ok_new [OF s absolute_shown, of _ "[?r]" _ _ "[]"])
      (auto simp: handleRangeChange_def Let_def is_absolute_def INVALID_DATE_def show_int_nonempty)
  then show ?thesis by (simp add: CallbackFromRangeSelector_def Let_def page_ok_same [OF same_tool])
qed

lemma page_ok_rate: "page_ok s \<Longrightarrow> page_ok (refreshRateChangeHandler r s)"
proof -
  assume s: "page_ok s"
  have "page_ok (handleRefreshRateChange r (s\<lparr>tool_refresh := r\<rparr>))" using s
    by (auto simp: page_ok_def entry_ok_def handleRefreshRateChange_def Let_def list_all_iff time_ok_def nth_list_update)
  then show ?thesis by (simp add: refreshRateChangeHandler_def page_ok_same [OF same_tool])
qed

lemma page_ok_zoom_in: "page_ok s \<Longrightarrow> page_ok (zoom_in \<lparr>startDate = show_int a, endDate = show_int b\<rparr> q s)"
  by (rule page_ok_new [OF _ absolute_shown, of s _ "[]"]) (auto simp: zoom_in_def Let_def)

lemma page_ok_zoom_out: "page_ok s \<Longrightarrow> timeControlStack (dash s) = h # hs \<Longrightarrow> page_ok (zoom_out h s)"
  by (auto simp: page_ok_def entry_ok_def zoom_out_def Let_def)

lemma page_ok_zoom_reset: "page_ok s \<Longrightarrow> page_ok (zoom_reset s)"
  by (rule page_ok_new [of s no_range DEFAULT_RELATIVE_TIME_RANGE DEFAULT_REFRESH_RATE _ "[]" "[]"])
    (auto simp: zoom_reset_def time_ok_def)

lemma page_ok_brush: "page_ok s \<Longrightarrow> page_ok (handleCentralBrushPosition x y s)"
proof -
  assume s: "page_ok s"
  have loader: "page_ok t \<Longrightarrow> page_ok (t\<lparr>showPromQueryResponseLoader := False\<rparr>)" for t
    by (subst page_ok_same [of t]) (simp_all add: same_time_def)
  show ?thesis using s
    by (auto simp: handleCentralBrushPosition_def Let_def page_ok_same [OF same_tool]
        intro!: loader page_ok_zoom_in page_ok_zoom_reset page_ok_zoom_out split: list.split)
qed

lemma page_ok_failed: "page_ok s \<Longrightarrow> page_ok (subscription_failed m s)"
  by (auto simp: subscription_failed_def page_ok_same [OF same_tool])
     (auto simp: page_ok_def entry_ok_def time_ok_def list_all_iff)

lemma page_ok_step: "page_ok s \<Longrightarrow> dash_step lg ag e s = Inr t \<Longrightarrow> page_ok t"
proof (cases e)
  case (dash_came ds)
  assume "page_ok s" "dash_step lg ag e s = Inr t"
  then show ?thesis using dash_came same_dashboards same_remount page_ok_same by (metis dash_step.simps(1))
next
  case (dash_switch i)
  assume "page_ok s" "dash_step lg ag e s = Inr t"
  moreover have "same_time s (switch_dashboard i s)" by (simp add: same_time_def switch_dashboard_def)
  ultimately show ?thesis using dash_switch same_dashboards page_ok_same by (metis dash_step.simps(4))
next
  case (dash_application a)
  assume "page_ok s" "dash_step lg ag e s = Inr t"
  then show ?thesis using dash_application same_selects(2) same_effects(1) page_ok_same by (metis dash_step.simps(12))
next
  case (dash_chaos_selected es)
  assume "page_ok s" "dash_step lg ag e s = Inr t"
  moreover have "same_time s (s\<lparr>dash_selectedEvents := es\<rparr>)" by (simp add: same_time_def)
  ultimately show ?thesis using dash_chaos_selected same_effects(2) page_ok_same by (metis dash_step.simps(13))
next
  case (dash_data v)
  assume "page_ok s" "dash_step lg ag e s = Inr t"
  then show ?thesis using dash_data same_effects(3) page_ok_same by (metis dash_step.simps(15))
next
  case (dash_metric m)
  assume "page_ok s" "dash_step lg ag e s = Inr t"
  then show ?thesis using dash_metric same_selects(1) page_ok_same by (metis dash_step.simps(11) sum.inject(2))
qed (auto simp: page_ok_days page_ok_rate page_ok_brush page_ok_failed,
    auto simp: page_ok_def entry_ok_def [abs_def] handleForceUpdate_def refetchDashboardAndMetrics_def shouldResubscribe_def
      onSubscriptionComplete_def)

lemma page_ok_init: "page_ok (dash_init i)"
  by (simp add: page_ok_def dash_init_def time_ok_def)

text \<open>The range shown and the mode of refreshing agree, and the subscription always has a time.\<close>

definition time_given :: "dash_page \<Rightarrow> bool" where
  "time_given s \<longleftrightarrow> time_ok (ranges s ! info_range (dash s)) (relativeTime (dash s)) (refreshInterval (dash s))
     \<and> (v_start (data_variables s) = '''' \<longleftrightarrow> v_relativeTime (data_variables s) = DEFAULT_RELATIVE_TIME_RANGE)"

text \<open>
  C15. In every run of the dashboard page that does not throw, either both dates are
  empty and the last half hour is shown, or both are set and nothing is refreshed, so
  the subscription always has a time.
\<close>

theorem dashboard_time_is_given:
  "case dash_run lg ag i es of Inl e \<Rightarrow> True | Inr s \<Rightarrow> time_given s"
proof (cases "dash_run lg ag i es")
  case (Inr s)
  then have "page_ok s"
    using foldR_invariant [of "dash_step lg ag" es "dash_init i" s page_ok] page_ok_init page_ok_step
    by (simp add: dash_run_def)
  then have "time_given s"
    by (auto simp: time_given_def page_ok_def time_ok_def data_variables_def Let_def no_range_def is_absolute_def dashboard_constants)
  then show ?thesis using Inr by simp
qed simp

section \<open>Zooming in and back out\<close>

definition brush_step :: "rat \<times> rat \<Rightarrow> dash_page \<Rightarrow> dash_page" where
  "brush_step b s = handleCentralBrushPosition (fst b) (snd b) s"

definition zooms :: "rat \<times> rat \<Rightarrow> dash_page \<Rightarrow> bool" where
  "zooms b s = may_zoom \<lceil>fst b / 1000\<rceil> \<lfloor>snd b / 1000\<rfloor> s"

fun all_zoom :: "(rat \<times> rat) list \<Rightarrow> dash_page \<Rightarrow> bool" where
  "all_zoom [] s = True"
| "all_zoom (b # bs) s = (zooms b s \<and> all_zoom bs (brush_step b s))"

definition zoomed_from :: "dash_page \<Rightarrow> dash_page \<Rightarrow> bool" where
  "zoomed_from s t \<longleftrightarrow> take 1 (timeControlStack (dash t)) = [\<lparr>tc_range = info_range (dash s),
       tc_relativeTime = relativeTime (dash s), tc_refreshInterval = refreshInterval (dash s)\<rparr>]
     \<and> info_range (dash s) < length (ranges t) \<and> ranges t ! info_range (dash s) = ranges s ! info_range (dash s)
     \<and> dataSourceURL (dash t) = dataSourceURL (dash s)"

lemma tool_effects_simps [simp]: "dash (tool_effects a s) = dash s" "ranges (tool_effects a s) = ranges s"
  by (simp_all add: tool_effects_def Let_def)

lemma zoom_in_simps:
  "ranges (zoom_in r b s) = ranges s @ [r]"
  "timeControlStack (dash (zoom_in r b s)) = timeControlStack (dash s) @
     [\<lparr>tc_range = info_range (dash s), tc_relativeTime = relativeTime (dash s), tc_refreshInterval = refreshInterval (dash s)\<rparr>]"
  "dataSourceURL (dash (zoom_in r b s)) = dataSourceURL (dash s)"
  by (simp_all add: zoom_in_def Let_def)

lemma brush_zooms_in:
  "zooms b s \<Longrightarrow> brush_step b s = tool_effects (info_range (dash s)) ((zoom_in
     \<lparr>startDate = show_int \<lceil>fst b / 1000\<rceil>, endDate = show_int \<lfloor>snd b / 1000\<rfloor>\<rparr> b s)\<lparr>showPromQueryResponseLoader := False\<rparr>)"
  by (simp add: brush_step_def zooms_def handleCentralBrushPosition_def Let_def)

lemma zoomed_first:
  "zooms b s \<Longrightarrow> timeControlStack (dash s) = [] \<Longrightarrow> info_range (dash s) < length (ranges s) \<Longrightarrow> zoomed_from s (brush_step b s)"
  by (simp add: brush_zooms_in zoomed_from_def zoom_in_simps nth_append)

lemma zoomed_more: "zooms b t \<Longrightarrow> zoomed_from s t \<Longrightarrow> zoomed_from s (brush_step b t)"
  by (cases "timeControlStack (dash t)") (auto simp: brush_zooms_in zoomed_from_def zoom_in_simps nth_append)

lemma zoomed_all: "all_zoom bs t \<Longrightarrow> zoomed_from s t \<Longrightarrow> zoomed_from s (fold brush_step bs t)"
  by (induction bs arbitrary: t) (simp_all add: zoomed_more)

text \<open>
  C16. However often the user zooms in with the brush, the first brush that cannot zoom
  in asks for the data of the range, mode and refresh rate from before the first zoom.
\<close>

theorem zooming_out_restores_the_view:
  assumes "page_ok s" and "timeControlStack (dash s) = []"
    and "bs \<noteq> []" and "all_zoom bs s" and "\<not> zooms b (fold brush_step bs s)"
  shows "data_variables (brush_step b (fold brush_step bs s)) = data_variables s
    \<and> timeControlStack (dash (brush_step b (fold brush_step bs s))) = []"
proof -
  obtain c cs where bs: "bs = c # cs" using assms(3) by (cases bs) auto
  let ?t = "fold brush_step bs s"
  have "zoomed_from s ?t"
    using assms(1,2,4) zoomed_first [of c s] zoomed_all [of cs "brush_step c s" s] by (simp add: bs page_ok_def)
  moreover from this obtain h hs where h: "timeControlStack (dash ?t) = h # hs"
    by (cases "timeControlStack (dash ?t)") (auto simp: zoomed_from_def)
  ultimately have t: "h = \<lparr>tc_range = info_range (dash s), tc_relativeTime = relativeTime (dash s),
      tc_refreshInterval = refreshInterval (dash s)\<rparr>" "ranges ?t ! info_range (dash s) = ranges s ! info_range (dash s)"
      "dataSourceURL (dash ?t) = dataSourceURL (dash s)"
    by (simp_all add: zoomed_from_def)
  have step: "brush_step b ?t = tool_effects (info_range (dash ?t)) ((zoom_out h ?t)\<lparr>showPromQueryResponseLoader := False\<rparr>)"
    using assms(5) h by (simp add: brush_step_def zooms_def handleCentralBrushPosition_def Let_def)
  have "data_variables (zoom_out h ?t) = data_variables s" "timeControlStack (dash (zoom_out h ?t)) = []"
    using t by (simp_all add: zoom_out_def Let_def data_variables_def)
  then show ?thesis unfolding step by (simp add: data_variables_def Let_def)
qed

section \<open>What the page does not keep in step\<close>

text \<open>Choosing a refresh rate leaves a chosen range for the last half hour; the queries keep the
  steps of the range, and the toolbar goes on showing it.\<close>

lemma refresh_keeps_old_queries:
  assumes "rate \<noteq> 0"
  shows "let t = refreshRateChangeHandler rate (CallbackFromRangeSelector a b s) in
    ranges t ! info_range (dash t) = no_range
    \<and> info_queries (dash t) = queries_over \<lparr>startDate = show_int a, endDate = show_int b\<rparr> (dash s)
    \<and> ranges t ! tool_range t = \<lparr>startDate = show_int a, endDate = show_int b\<rparr>"
  using assms
  by (simp add: Let_def refreshRateChangeHandler_def handleRefreshRateChange_def CallbackFromRangeSelector_def tool_effects_def
      handleRangeChange_def set_time_def new_range_def is_absolute_def INVALID_DATE_def show_int_nonempty nth_append
      INVALID_RELATIVE_TIME_RANGE_def INVALID_REFRESH_RATE_def queries_over_def meta_groups_def)

text \<open>With refreshing switched off a second zoom goes back instead of closer.\<close>

definition view_after :: "dash_event list \<Rightarrow> (string \<times> string \<times> int) list" where
  "view_after es = (case dash_run [] [] ''d'' es of Inl e \<Rightarrow> [] | Inr s \<Rightarrow>
     [(v_start (data_variables s), v_end (data_variables s), v_relativeTime (data_variables s))])"

lemma second_zoom_with_refresh_off:
  "view_after [dash_brush 100000 900000, dash_brush 200000 300000] = [(''200'', ''300'', 0)]"
  "view_after [dash_rate 0, dash_brush 100000 900000, dash_brush 200000 300000] = [('''', '''', 1800)]"
  by code_simp+

text \<open>Unselecting the last application changes nothing until new data comes.\<close>

lemma no_application_keeps_the_filter:
  "selectedApplications s = [] \<Longrightarrow> applications_effect lg ag s = Inr s"
  by (simp add: applications_effect_def split: option.split)

text \<open>The drop-down forgets what is selected when it is closed; the page does not.\<close>

lemma reopened_dropdown_differs:
  assumes "infoDropdown s = Some d"
  shows "(case dash_step lg ag (dash_info False) (handleMetricSelect m s) of Inl e \<Rightarrow> False | Inr t \<Rightarrow>
     (case dash_step lg ag (dash_info True) t of Inl e \<Rightarrow> False | Inr u \<Rightarrow>
        infoDropdown u = Some (reset_dropdown (dash s)) \<and> selectedPanels u = toggle m (drop_metrics d)))"
  using assms by (simp add: handleMetricSelect_def Let_def)

end
