(* ===== verification/ObsWitness.thy ===== *)
theory ObsWitness
  imports ComparisonPlot DataSources Dashboard
begin

text \<open>Concrete instances of the properties of the Observability pages.\<close>

definition two_events :: "ChaosEventDetails list" where
  "two_events = [\<lparr>ce_id = ''e1'', legendColor = None, chaosResultName = ''r1'', ce_workflow = ''w'', engineContext = ''c'',
       verdict = ''Pass'', injectionFailed = False\<rparr>,
     \<lparr>ce_id = ''e2'', legendColor = None, chaosResultName = ''r2'', ce_workflow = ''w'', engineContext = ''c'',
       verdict = ''N/A'', injectionFailed = True\<rparr>]"

lemma only_injected_events_are_selected_witness:
  "list_all (\<lambda>i. list_ex (\<lambda>e. ce_id e = i \<and> \<not> injectionFailed e) two_events)
     (c_selected (fold (chaos_handle two_events) [c_click ''e2'' True, c_select_all True] chaos_init))
   \<and> distinct (c_selected (fold (chaos_handle two_events) [c_click ''e2'' True, c_select_all True] chaos_init))"
  by (rule only_injected_events_are_selected) (simp_all add: two_events_def own_click_def)

definition sample_sources :: "DataSource list" where
  "sample_sources = [\<lparr>dsID = ''1'', dsName = ''prom'', healthStatus = ''Active'', updatedAt = 5\<rparr>,
     \<lparr>dsID = ''2'', dsName = ''other'', healthStatus = ''Inactive'', updatedAt = 7\<rparr>]"

lemma sample_pages: "0 < ds_rows ds_init \<and>
    length (ds_payload (\<lambda>d. 0) (\<lambda>d. 0) (ds_filters ds_init) sample_sources) \<le> 1 * ds_rows ds_init"
  by code_simp

lemma data_source_pages_witness:
  "mset (concat (map (\<lambda>p. ds_shown (\<lambda>d. 0) (\<lambda>d. 0) (ds_init\<lparr>ds_page := p\<rparr>) sample_sources) [0..<1]))
     = filter_mset (ds_keep (\<lambda>d. 0) (\<lambda>d. 0) (ds_filters ds_init)) (mset sample_sources)
   \<and> sorted_wrt (\<lambda>a b. ds_cmp (ds_filters ds_init) a b \<le> 0)
       (concat (map (\<lambda>p. ds_shown (\<lambda>d. 0) (\<lambda>d. 0) (ds_init\<lparr>ds_page := p\<rparr>) sample_sources) [0..<1]))"
  using sample_pages by (intro data_source_pages) auto

text \<open>A run that passed with 80 percent of its probes.\<close>

definition compared :: compared_run where
  "compared = added_run\<lparr>cr_score := 80\<rparr>"

definition ended_execution :: execution where
  "ended_execution = \<lparr>ex_eventType = ''UPDATE'', ex_created = ''0'',
     ex_nodes = [None, Some \<lparr>chaos_engine = ''pod-delete-a'', chaos_verdict = ''Pass'', probeSuccessPercentage = ''80''\<rparr>]\<rparr>"

definition day_names :: "(string \<Rightarrow> string) granular" where
  "day_names = \<lparr>Hourly = (\<lambda>d. ''h'' @ d), Daily = (\<lambda>d. ''d'' @ d), Monthly = (\<lambda>d. ''m'' @ d)\<rparr>"

lemma plotted_scores_are_percentages_witness:
  "all_percent (yData (plot_of group_in_order day_names
      (report_all (\<lambda>s. Some ended_execution) (\<lambda>s. s) (\<lambda>n. ''fff'') [compared] [''w1''])))"
proof (rule plotted_scores_are_percentages [OF group_in_order_ok])
  show "list_all (fair_run (\<lambda>s. Some ended_execution)) [compared]" by code_simp
qed

lemma compared_is_plotted:
  "Daily (yData (plot_of group_in_order day_names
      (report_all (\<lambda>s. Some ended_execution) (\<lambda>s. s) (\<lambda>n. ''fff'') [compared] [''w1'']))) = [[Some 80]]"
  by code_simp

lemma average_at_each_date_witness:
  "distinct (avg_dates (average_dates [[''a'', ''b''], [''b'']] [[Some 1, Some 2], [Some 4]]))
   \<and> set (avg_dates (average_dates [[''a'', ''b''], [''b'']] [[Some 1, Some 2], [Some 4]])) = set (concat [[''a'', ''b''], [''b'']])
   \<and> avgResilienceScores (average_dates [[''a'', ''b''], [''b'']] [[Some 1, Some 2], [Some 4]])
     = map (average_at [[''a'', ''b''], [''b'']] [[Some 1, Some 2], [Some 4]])
         (avg_dates (average_dates [[''a'', ''b''], [''b'']] [[Some 1, Some 2], [Some 4]]))"
  by (rule average_at_each_date) simp

definition two_x :: "string list list" where
  "two_x = [[''aa'', ''b''], [''b'']]"

definition two_y :: "num list list" where
  "two_y = [[Some 10, Some 20], [Some 40]]"

lemma averages_stay_with_their_dates_witness:
  "mset (zip (line_x (average_line (\<lambda>d. int (length d)) show_int ''blue'' (average_dates two_x two_y)))
             (line_y (average_line (\<lambda>d. int (length d)) show_int ''blue'' (average_dates two_x two_y))))
   = mset (map (\<lambda>d. (show_int (int (length d)), average_at two_x two_y d)) (unique_list [] (concat two_x)))"
  by (rule averages_stay_with_their_dates) (simp add: two_x_def two_y_def)

lemma extremes_are_the_best_and_worst_means_witness:
  "list_ex (\<lambda>k. highName (edges [''a'', ''b''] [''red'', ''blue''] two_y) = Some ([''a'', ''b''] ! k)
      \<and> highScore (edges [''a'', ''b''] [''red'', ''blue''] two_y) = Some (to_fixed2 (mean_of (two_y ! k)))
      \<and> list_all (\<lambda>y. mean_of y \<le> mean_of (two_y ! k)) two_y) [0..<length [''a'', ''b'']]
    \<and> list_ex (\<lambda>k. lowName (edges [''a'', ''b''] [''red'', ''blue''] two_y) = Some ([''a'', ''b''] ! k)
      \<and> lowScore (edges [''a'', ''b''] [''red'', ''blue''] two_y) = Some (to_fixed2 (mean_of (two_y ! k)))
      \<and> list_all (\<lambda>y. mean_of (two_y ! k) \<le> mean_of y) two_y) [0..<length [''a'', ''b'']]"
  by (rule extremes_are_the_best_and_worst_means) (simp_all add: two_y_def finite_series_def)

definition prometheus_source :: stored_source where
  "prometheus_source = \<lparr>st_dsID = ''1'', st_dsName = ''prom'', st_dsType = ''Prometheus'', st_dsURL = ''http://localhost:9090'',
     st_accessType = ''Server (Default)'', st_authType = ''no auth'', st_username = '''', st_password = '''',
     st_scrapeInterval = 15, st_queryTimeout = 30, st_httpMethod = ''POST''\<rparr>"

lemma prometheus_storable: "storable prometheus_source"
  by code_simp


lemma refusal_lists_the_dashboards_witness:
  "js_includes (delete_refusal [''cpu'', ''disk'']) ''dashboard(s)'' \<and> dashboards_of (delete_refusal [''cpu'', ''disk'']) = Some [''cpu'', ''disk'']"
  by (rule refusal_lists_the_dashboards) (simp_all add: plain_name_def)

lemma zooms_once: "all_zoom [(100000, 900000)] (dash_init ''d'') \<and> \<not> zooms (0, 9000000) (fold brush_step [(100000, 900000)] (dash_init ''d''))"
  by code_simp

lemma zooming_out_restores_the_view_witness:
  "data_variables (brush_step (0, 9000000) (fold brush_step [(100000, 900000)] (dash_init ''d''))) = data_variables (dash_init ''d'')
   \<and> timeControlStack (dash (brush_step (0, 9000000) (fold brush_step [(100000, 900000)] (dash_init ''d'')))) = []"
proof (rule zooming_out_restores_the_view [OF page_ok_init])
  show "timeControlStack (dash (dash_init ''d'')) = []" by (simp add: dash_init_def)
qed (use zooms_once in simp_all)

end
