(* ===== verification/InfoStats.thy ===== *)
theory InfoStats
  imports Resilience
begin

text \<open>
  The statistics of one scenario (\<open>pages/WorkflowInfoStats\<close>): the calendar of its runs, the bars
  of one day, the table of the tests of one run and the figures above them. \<open>parse\<close> is
  \<open>JSON.parse\<close> on the texts the server sends and \<open>percent_of\<close> is \<open>parseInt\<close> on texts that are
  numbers; day bounds and formatted dates come from moment.
\<close>

section \<open>The tests of a run\<close>

record RunTest =
  rt_id :: nat
  rt_name :: string
  exp_name :: string
  rt_result :: string
  rt_context :: string
  rt_weight :: int
  rt_points :: rat
  rt_last_updated :: int

record chaos_node =
  cn_name :: string
  cn_chaos :: "(chaos_data \<times> string \<times> string \<times> int) option"

record run_execution =
  finishedAt :: string
  re_nodes :: "chaos_node list"

definition tests_of_node :: "(string \<Rightarrow> int) \<Rightarrow> test_weightage list \<Rightarrow> nat \<times> chaos_node \<Rightarrow> RunTest list" where
  "tests_of_node percent_of ws x = (case x of (index, n) \<Rightarrow> (case cn_chaos n of None \<Rightarrow> [] | Some (c, experiment, ctx, updated) \<Rightarrow>
     map (\<lambda>w. \<lparr>rt_id = index, rt_name = cn_name n, exp_name = experiment, rt_result = chaos_verdict c, rt_context = ctx,
         rt_weight = w_points w,
         rt_points = (if chaos_verdict c = ''Pass'' \<or> chaos_verdict c = ''Fail''
           then of_int (w_points w * percent_of (probeSuccessPercentage c)) / 100 else 0),
         rt_last_updated = updated\<rparr>)
       (filter (\<lambda>w. js_includes (chaos_engine c) (w_experiment w)) ws)))"

text \<open>The weights are those of the scenario, and only the first run of the reply is read.\<close>

definition run_completed :: "(string \<Rightarrow> run_execution) \<Rightarrow> (string \<Rightarrow> int) \<Rightarrow> test_weightage list \<Rightarrow> string list \<Rightarrow> RunTest list" where
  "run_completed parse percent_of ws executions = (case executions of
      [] \<Rightarrow> []
    | e # _ \<Rightarrow> if e = '''' then [] else (let ex = parse e in
        if finishedAt ex \<noteq> '''' then concat (map (tests_of_node percent_of ws) (enumerate 1 (re_nodes ex))) else []))"

record rt_filter =
  rt_test :: string
  rt_by_points :: sort_choice
  rt_by_time :: sort_choice
  rt_by_weight :: sort_choice
  rt_testResult :: string
  rt_ctx :: string
  rt_tokens :: "string list"

record rt_table =
  wfRunData :: "RunTest list"
  rt_filters :: rt_filter
  rt_page :: nat
  rt_limit :: nat
  rt_dateStart :: string
  rt_dateEnd :: "string option"

definition rt_init :: rt_table where
  "rt_init = \<lparr>wfRunData = [], rt_filters = \<lparr>rt_test = ''All'', rt_by_points = off, rt_by_time = \<lparr>sorts = True, ascending = False\<rparr>,
     rt_by_weight = off, rt_testResult = ''All'', rt_ctx = ''All'', rt_tokens = ['''']\<rparr>, rt_page = 0, rt_limit = 5,
     rt_dateStart = ''0'', rt_dateEnd = None\<rparr>"

definition rt_keep :: "rt_filter \<Rightarrow> RunTest \<Rightarrow> bool" where
  "rt_keep f d \<longleftrightarrow> list_all (\<lambda>s. js_includes (js_lower (rt_name d)) s \<or> js_includes (js_lower (rt_result d)) s) (rt_tokens f)
     \<and> one_of (rt_test f) (rt_name d) \<and> one_of (rt_testResult f) (rt_result d) \<and> one_of (rt_ctx f) (rt_context d)"

definition rt_cmp :: "rt_filter \<Rightarrow> RunTest \<Rightarrow> RunTest \<Rightarrow> int" where
  "rt_cmp f a b = (if sorts (rt_by_points f) then by_time (rt_by_points f) (rt_points a) (rt_points b)
     else if sorts (rt_by_time f) then by_time (rt_by_time f) (rt_last_updated b) (rt_last_updated a)
     else if sorts (rt_by_weight f) then by_time (rt_by_weight f) (rt_weight b) (rt_weight a) else 0)"

definition rt_payload :: "rt_filter \<Rightarrow> RunTest list \<Rightarrow> RunTest list" where
  "rt_payload f ts = js_sort (rt_cmp f)
     (filter (\<lambda>d. one_of (rt_ctx f) (rt_context d))
     (filter (\<lambda>d. one_of (rt_testResult f) (rt_result d))
     (filter (\<lambda>d. one_of (rt_test f) (rt_name d))
     (filter (\<lambda>d. list_all (\<lambda>s. js_includes (js_lower (rt_name d)) s \<or> js_includes (js_lower (rt_result d)) s) (rt_tokens f)) ts))))"

datatype rt_event =
    rt_search string
  | rt_choose_context string
  | rt_choose_test string
  | rt_choose_result string
  | rt_dates string string
  | rt_sort_points bool
  | rt_sort_time bool
  | rt_sort_weight bool
  | rt_turn nat
  | rt_per_page nat
  | rt_reply "RunTest list"

fun rt_handle :: "rt_event \<Rightarrow> rt_table \<Rightarrow> rt_table" where
  "rt_handle (rt_search v) s = s\<lparr>rt_filters := (rt_filters s)\<lparr>rt_tokens := search_tokens v\<rparr>, rt_page := 0\<rparr>"
| "rt_handle (rt_choose_context v) s = s\<lparr>rt_filters := (rt_filters s)\<lparr>rt_ctx := v\<rparr>, rt_page := 0\<rparr>"
| "rt_handle (rt_choose_test v) s = s\<lparr>rt_filters := (rt_filters s)\<lparr>rt_test := v\<rparr>, rt_page := 0\<rparr>"
| "rt_handle (rt_choose_result v) s = s\<lparr>rt_filters := (rt_filters s)\<lparr>rt_testResult := v\<rparr>, rt_page := 0\<rparr>"
| "rt_handle (rt_dates a b) s = s\<lparr>rt_dateStart := a, rt_dateEnd := Some b, rt_page := 0\<rparr>"
| "rt_handle (rt_sort_points asc) s = s\<lparr>rt_filters := (rt_filters s)\<lparr>rt_by_points := \<lparr>sorts = True, ascending = asc\<rparr>, rt_by_time := off, rt_by_weight := off\<rparr>\<rparr>"
| "rt_handle (rt_sort_time asc) s = s\<lparr>rt_filters := (rt_filters s)\<lparr>rt_by_points := off, rt_by_time := \<lparr>sorts = True, ascending = asc\<rparr>, rt_by_weight := off\<rparr>\<rparr>"
| "rt_handle (rt_sort_weight asc) s = s\<lparr>rt_filters := (rt_filters s)\<lparr>rt_by_points := off, rt_by_time := off, rt_by_weight := \<lparr>sorts = True, ascending = asc\<rparr>\<rparr>\<rparr>"
| "rt_handle (rt_turn p) s = s\<lparr>rt_page := p\<rparr>"
| "rt_handle (rt_per_page n) s = s\<lparr>rt_page := 0, rt_limit := n\<rparr>"
| "rt_handle (rt_reply ts) s = s\<lparr>wfRunData := ts\<rparr>"

definition getContexts :: "RunTest list \<Rightarrow> string list" where
  "getContexts ts = unique_list [] (map rt_context ts)"

text \<open>The rows shown are all rows of the payload; only the request has the page.\<close>

definition rt_shown :: "rt_table \<Rightarrow> RunTest list" where
  "rt_shown s = rt_payload (rt_filters s) (wfRunData s)"

definition rt_request :: "rt_table \<Rightarrow> nat \<times> nat \<times> string \<times> string option" where
  "rt_request s = (rt_page s, rt_limit s, rt_dateStart s, rt_dateEnd s)"

lemma comparator_rt: "comparator (rt_cmp f)"
proof -
  have "rt_cmp f = (if sorts (rt_by_points f) then (\<lambda>a b. by_time (rt_by_points f) (rt_points a) (rt_points b))
     else if sorts (rt_by_time f) then (\<lambda>a b. by_time (rt_by_time f) (rt_last_updated b) (rt_last_updated a))
     else if sorts (rt_by_weight f) then (\<lambda>a b. by_time (rt_by_weight f) (rt_weight b) (rt_weight a)) else (\<lambda>a b. 0))"
    by (simp add: fun_eq_iff rt_cmp_def)
  then show ?thesis
    by (simp add: comparator_const comparator_on [OF comparator_by_time] comparator_on [OF comparator_flip [OF comparator_by_time]])
qed

interpretation rt: table "rt_cmp f" "rt_keep f" "rt_payload f" for f
  by (intro table.intro table_axioms.intro comparator_rt)
     (simp add: rt_payload_def rt_keep_def [abs_def] conj_ac)

text \<open>A chosen run is the whole reply of the first page; the second page of that reply has no run
  and empties the table.\<close>

definition one_run :: "string \<Rightarrow> nat \<times> nat \<times> string \<times> string option \<Rightarrow> string list" where
  "one_run e q = (case q of (page, limit, _) \<Rightarrow> take limit (drop (page * limit) [e]))"

lemma next_page_is_empty:
  assumes "rt_limit s = Suc n"
  shows "let t = rt_handle (rt_turn 1) s in
    rt_shown (rt_handle (rt_reply (run_completed parse percent_of ws (one_run e (rt_request t)))) t) = []"
  using assms by (simp add: Let_def one_run_def rt_request_def run_completed_def rt_shown_def rt_payload_def js_sort_def)

section \<open>The bars of a day\<close>

record day_run =
  dr_runID :: string
  dr_phase :: string
  dr_lastUpdated :: int
  dr_total :: "nat option"
  dr_passed :: "nat option"
  dr_failed :: "nat option"
  dr_score :: "rat option"

record StackBarMetric =
  sb_id :: string
  sb_date :: int
  passPercentage :: rat
  failPercentage :: rat
  passCount :: nat
  failCount :: nat

definition truthy_count :: "nat option \<Rightarrow> bool" where
  "truthy_count n \<longleftrightarrow> (case n of None \<Rightarrow> False | Some k \<Rightarrow> k \<noteq> 0)"

definition count_of :: "nat option \<Rightarrow> nat" where
  "count_of n = (case n of None \<Rightarrow> 0 | Some k \<Rightarrow> k)"

definition stack_bar :: "day_run \<Rightarrow> StackBarMetric" where
  "stack_bar r = \<lparr>sb_id = dr_runID r, sb_date = dr_lastUpdated r * 1000,
     passPercentage = (if truthy_count (dr_total r) \<and> truthy_count (dr_passed r) \<and> count_of (dr_total r) > 0
       then of_nat (count_of (dr_passed r) * 100) / of_nat (count_of (dr_total r)) else 0),
     failPercentage = (if truthy_count (dr_total r) \<and> \<not> truthy_count (dr_failed r) \<and> count_of (dr_total r) > 0
       then of_nat (count_of (dr_failed r) * 100) / of_nat (count_of (dr_total r)) else 0),
     passCount = count_of (dr_passed r), failCount = count_of (dr_failed r)\<rparr>"

definition stackBarData :: "day_run list \<Rightarrow> StackBarMetric list" where
  "stackBarData rs = map stack_bar (filter (\<lambda>r. dr_phase r \<noteq> ''Running'') rs)"

definition openSeries :: "day_run list \<Rightarrow> (int \<times> rat) list" where
  "openSeries rs = map (\<lambda>r. (dr_lastUpdated r * 1000, case dr_score r of None \<Rightarrow> 0 | Some x \<Rightarrow> x))
     (filter (\<lambda>r. dr_phase r \<noteq> ''Running'') rs)"

definition metricName_of :: "string \<Rightarrow> string" where
  "metricName_of n = (if n = ''resiliencyScore'' then ''Resiliency Score'' else if n = ''passCount'' then ''Pass Count''
     else if n = ''failCount'' then ''Fail Count'' else '''')"

text \<open>The condition is negated: a failed share is computed only when nothing failed.\<close>

theorem no_bar_shows_failures:
  "list_all (\<lambda>b. failPercentage b = 0) (stackBarData rs) \<and> length (openSeries rs) = length (stackBarData rs)"
  by (auto simp: stackBarData_def openSeries_def list_all_iff stack_bar_def truthy_count_def count_of_def split: option.splits)

section \<open>The calendar\<close>

record stats_page =
  hasWorkflowRun :: bool
  showTable :: bool
  shown_year :: nat
  showStackBar :: bool
  dataCheck :: bool
  workflowRunDate :: int
  binResiliencyScore :: rat
  bar_runID :: string

definition stats_init :: "nat \<Rightarrow> stats_page" where
  "stats_init year = \<lparr>hasWorkflowRun = True, showTable = False, shown_year = year, showStackBar = False, dataCheck = False,
     workflowRunDate = 0, binResiliencyScore = 0, bar_runID = ''''\<rparr>"

record heat_bin =
  bin_value :: rat
  noOfRuns :: nat
  dateStamp :: int

datatype stats_event =
    stats_runs "nat option"
  | stats_year nat
  | stats_bin "heat_bin option"
  | stats_bar "string option"

fun stats_handle :: "stats_event \<Rightarrow> stats_page \<Rightarrow> stats_page" where
  "stats_handle (stats_runs n) s = s\<lparr>hasWorkflowRun := truthy_count n\<rparr>"
| "stats_handle (stats_year y) s = s\<lparr>shown_year := y, dataCheck := False, showStackBar := False, workflowRunDate := 0, showTable := False, bar_runID := ''''\<rparr>"
| "stats_handle (stats_bin b) s = (case b of
      None \<Rightarrow> s\<lparr>showStackBar := False, dataCheck := False, showTable := False, workflowRunDate := 0, binResiliencyScore := 0, bar_runID := ''''\<rparr>
    | Some x \<Rightarrow> if noOfRuns x = 0 then s\<lparr>dataCheck := True, showStackBar := False, showTable := False, bar_runID := ''''\<rparr>
        else s\<lparr>showStackBar := True, showTable := False, binResiliencyScore := bin_value x, workflowRunDate := dateStamp x\<rparr>)"
| "stats_handle (stats_bar b) s = (if \<not> showStackBar s then s else
     case b of Some i \<Rightarrow> if i \<noteq> '''' then s\<lparr>showTable := True, bar_runID := i\<rparr> else s\<lparr>showTable := False, bar_runID := ''''\<rparr>
     | None \<Rightarrow> s\<lparr>showTable := False, bar_runID := ''''\<rparr>)"

text \<open>The table of a run is open only below the bars of a day, and then for a chosen run; the note
  that there is no data and the bars are never shown together.\<close>

definition stats_ok :: "stats_page \<Rightarrow> bool" where
  "stats_ok s \<longleftrightarrow> (if showTable s then showStackBar s \<and> bar_runID s \<noteq> '''' else True)"

theorem run_table_belongs_to_a_bar: "stats_ok (fold stats_handle es (stats_init year))"
proof -
  have step: "stats_ok s \<Longrightarrow> stats_ok (stats_handle e s)" for e s
    by (cases e) (auto simp: stats_ok_def split: option.split)
  have "stats_ok s \<Longrightarrow> stats_ok (fold stats_handle es s)" for s
    by (induction es arbitrary: s) (simp_all add: step)
  then show ?thesis by (simp add: stats_ok_def stats_init_def)
qed

section \<open>The figures\<close>

record run_stats =
  experimentsPassed :: nat
  experimentsFailed :: nat
  experimentsAwaited :: nat
  experimentsStopped :: nat
  experimentsNa :: nat
  succeededWorkflowRuns :: nat
  failedWorkflowRuns :: nat
  runningWorkflowRuns :: nat
  averageResiliencyScore :: rat

definition is_single_run :: "bool \<Rightarrow> nat \<Rightarrow> bool" where
  "is_single_run isCron n \<longleftrightarrow> \<not> isCron \<and> n = 1"

definition graphData :: "bool \<Rightarrow> run_stats option \<Rightarrow> (string \<times> nat) list" where
  "graphData single d = (let get = (\<lambda>f. case d of None \<Rightarrow> 0 | Some x \<Rightarrow> f x) in
     [(if single then ''Passed'' else ''Succeeded'', if single then get experimentsPassed else get succeededWorkflowRuns),
      (''Failed'', if single then get experimentsFailed else get failedWorkflowRuns),
      (if single then ''Awaited'' else ''Running'', if single then get experimentsAwaited else get runningWorkflowRuns)]
     @ (if single then [(''Stopped'', get experimentsStopped), (''NA'', get experimentsNa)] else []))"

end
