(* ===== verification/DashPanels.thy ===== *)
theory DashPanels
  imports JsValue PromLabels
begin

text \<open>
  Dashboards as data: the panels of the dashboard wizard, the document a dashboard is downloaded
  as (\<open>Table/TableData.tsx\<close>), the panels a document or a stored dashboard gives the wizard
  (\<open>EditPanelsWizard\<close>, \<open>ChooseAndConfigureDashboards\<close>) and the panel groups it saves
  (\<open>TuneTheQueries\<close>).

  A document is parsed JSON, a \<open>js\<close> value of any shape, and what is read from it goes into the
  panels unchecked, so their fields are \<open>js\<close> values; an absent optional field is undefined.
  Values compared with \<open>===\<close> are texts. \<open>uuid n\<close> is the n-th identifier the page draws.
\<close>

section \<open>Panels\<close>

record prom_query =
  q_hidden :: js
  q_queryID :: js
  q_promQueryName :: js
  q_legend :: js
  q_resolution :: js
  q_minstep :: js
  q_line :: js
  q_closeArea :: js
  q_base :: "string option"
  q_labels :: "QueryLabelValue list option"

record panel_options =
  o_points :: js
  o_grIDs :: js
  o_leftAxis :: js

record panel =
  p_panelID :: js
  p_createdAt :: js
  p_panelGroupID :: js
  p_panelGroupName :: js
  p_dsURL :: js
  p_promQueries :: "prom_query list"
  p_panelOptions :: panel_options
  p_panelName :: js
  p_yAxisLeft :: js
  p_yAxisRight :: js
  p_xAxisDown :: js
  p_unit :: js

record panel_group =
  g_panelGroupID :: js
  g_panelGroupName :: js
  g_panels :: "panel list"

record group_names =
  gm_groupName :: js
  gm_panels :: "js list"

record resource =
  res_kind :: js
  res_names :: "js list"

record app_meta =
  am_namespace :: js
  am_applications :: "resource list"

text \<open>The seven fields of a query that are stored.\<close>

definition plain_query :: "prom_query \<Rightarrow> prom_query" where
  "plain_query q = \<lparr>q_hidden = JUndef, q_queryID = q_queryID q, q_promQueryName = q_promQueryName q,
     q_legend = q_legend q, q_resolution = q_resolution q, q_minstep = q_minstep q, q_line = q_line q,
     q_closeArea = q_closeArea q, q_base = None, q_labels = None\<rparr>"

definition text_or_empty :: "js \<Rightarrow> js" where
  "text_or_empty v = orelse_nullish v (JStr '''')"

section \<open>A stored dashboard in the wizard\<close>

record stored_dashboard =
  sd_dbName :: js
  sd_dsType :: js
  sd_dbTypeID :: js
  sd_dbTypeName :: js
  sd_dsID :: js
  sd_dsURL :: js
  sd_clusterID :: js
  sd_dbInformation :: js
  sd_eventTemplate :: js
  sd_verdictTemplate :: js
  sd_panelGroups :: "panel_group list"
  sd_applications :: "app_meta list option"

definition existing_panel :: "panel_group \<Rightarrow> panel \<Rightarrow> panel" where
  "existing_panel g p = \<lparr>p_panelID = p_panelID p, p_createdAt = p_createdAt p,
     p_panelGroupID = g_panelGroupID g, p_panelGroupName = g_panelGroupName g, p_dsURL = JUndef,
     p_promQueries = map plain_query (p_promQueries p), p_panelOptions = p_panelOptions p,
     p_panelName = p_panelName p, p_yAxisLeft = p_yAxisLeft p, p_yAxisRight = p_yAxisRight p,
     p_xAxisDown = p_xAxisDown p, p_unit = p_unit p\<rparr>"

definition getExistingPanelGroups :: "panel_group list \<Rightarrow> panel_group list" where
  "getExistingPanelGroups = map (\<lambda>g. \<lparr>g_panelGroupID = g_panelGroupID g,
     g_panelGroupName = g_panelGroupName g, g_panels = map (existing_panel g) (g_panels g)\<rparr>)"

definition getExistingPanelGroupMap :: "panel_group list \<Rightarrow> panel_group list" where
  "getExistingPanelGroupMap = map (\<lambda>g. \<lparr>g_panelGroupID = g_panelGroupID g,
     g_panelGroupName = g_panelGroupName g, g_panels = g_panels g\<rparr>)"

definition getApplicationMetadataMap :: "app_meta list option \<Rightarrow> app_meta list" where
  "getApplicationMetadataMap r = (case r of None \<Rightarrow> [] | Some ams \<Rightarrow>
     map (\<lambda>a. \<lparr>am_namespace = am_namespace a,
       am_applications = map (\<lambda>x. \<lparr>res_kind = res_kind x, res_names = res_names x\<rparr>) (am_applications a)\<rparr>) ams)"

text \<open>All panels, in the order of the groups, with the tab of the panel to edit.\<close>

definition listed_panel :: "js \<Rightarrow> panel \<Rightarrow> panel" where
  "listed_panel url p = p\<lparr>p_panelID := text_or_empty (p_panelID p), p_panelGroupID := text_or_empty (p_panelGroupID p),
     p_createdAt := text_or_empty (p_createdAt p), p_panelGroupName := text_or_empty (p_panelGroupName p),
     p_dsURL := text_or_empty url\<rparr>"

definition is_active_panel :: "bool \<Rightarrow> string \<Rightarrow> panel \<Rightarrow> bool" where
  "is_active_panel configure act p \<longleftrightarrow> configure \<and> truthy (p_panelID p) \<and> act \<noteq> '''' \<and> p_panelID p = JStr act"

definition getAllSelectedPanels :: "bool \<Rightarrow> string \<Rightarrow> js \<Rightarrow> panel_group list \<Rightarrow> panel list \<times> nat" where
  "getAllSelectedPanels configure act url gs =
     fold (\<lambda>p (ps, i). (ps @ [listed_panel url p], if is_active_panel configure act p then length ps else i))
       (concat (map g_panels gs)) ([], 0)"

section \<open>Saving: panels grouped by the name of their group\<close>

definition saved_panel :: "panel \<Rightarrow> panel" where
  "saved_panel p = p\<lparr>p_promQueries := map plain_query (p_promQueries p), p_panelID := JUndef,
     p_createdAt := JUndef, p_panelGroupID := JUndef, p_panelGroupName := JUndef, p_dsURL := JUndef\<rparr>"

definition push_panel :: "panel \<Rightarrow> panel_group \<Rightarrow> panel_group" where
  "push_panel p g = g\<lparr>g_panels := g_panels g @ [p]\<rparr>"

text \<open>The loop goes on after a match, so every group of that name gets the panel.\<close>

definition push_where :: "(panel_group \<Rightarrow> bool) \<Rightarrow> panel \<Rightarrow> panel_group \<Rightarrow> panel_group list \<Rightarrow> panel_group list" where
  "push_where m p g gs = (if list_ex m gs then map (\<lambda>h. if m h then push_panel p h else h) gs
     else gs @ [push_panel p g])"

definition created_groups :: "panel list \<Rightarrow> panel_group list" where
  "created_groups ps = fold (\<lambda>d. push_where (\<lambda>g. g_panelGroupName g = p_panelGroupName d) (saved_panel d)
     \<lparr>g_panelGroupID = JUndef, g_panelGroupName = text_or_empty (p_panelGroupName d), g_panels = []\<rparr>) ps []"

text \<open>One object is pushed to every match and its group is set in place, so the last match that
  differs decides.\<close>

definition group_id_of :: "panel \<Rightarrow> panel_group list \<Rightarrow> js" where
  "group_id_of d gs = fold (\<lambda>g v. if g_panelGroupName g = p_panelGroupName d \<and> p_panelGroupID d \<noteq> g_panelGroupID g
     then g_panelGroupID g else v) gs (text_or_empty (p_panelGroupID d))"

definition updated_panel :: "panel \<Rightarrow> panel_group list \<Rightarrow> panel" where
  "updated_panel d gs = (saved_panel d)\<lparr>p_panelID := text_or_empty (p_panelID d),
     p_createdAt := text_or_empty (p_createdAt d), p_panelGroupID := group_id_of d gs\<rparr>"

definition updated_groups :: "panel list \<Rightarrow> panel_group list" where
  "updated_groups ps = fold (\<lambda>d gs. push_where (\<lambda>g. g_panelGroupName g = p_panelGroupName d) (updated_panel d gs)
     \<lparr>g_panelGroupID = text_or_empty (p_panelGroupID d), g_panelGroupName = text_or_empty (p_panelGroupName d),
      g_panels = []\<rparr> gs) ps []"

definition getPanelGroups :: "bool \<Rightarrow> panel list \<Rightarrow> panel_group list" where
  "getPanelGroups configure ps = (if configure then updated_groups ps else created_groups ps)"

section \<open>A dashboard as a document\<close>

definition export_query :: "prom_query \<Rightarrow> js" where
  "export_query q = JObj [(''prom_query_name'', q_promQueryName q), (''legend'', q_legend q),
     (''resolution'', q_resolution q), (''minstep'', q_minstep q), (''line'', q_line q), (''close_area'', q_closeArea q)]"

definition export_panel :: "panel \<Rightarrow> js" where
  "export_panel p = JObj [(''prom_queries'', JArr (map export_query (p_promQueries p))),
     (''panel_options'', JObj [(''points'', o_points (p_panelOptions p)), (''grIDs'', o_grIDs (p_panelOptions p)),
        (''leftAxis'', o_leftAxis (p_panelOptions p))]),
     (''panel_name'', p_panelName p), (''y_axis_left'', p_yAxisLeft p), (''y_axis_right'', p_yAxisRight p),
     (''x_axis_down'', p_xAxisDown p), (''unit'', p_unit p)]"

definition export_group :: "panel_group \<Rightarrow> js" where
  "export_group g = JObj [(''panel_group_name'', g_panelGroupName g), (''panels'', JArr (map export_panel (g_panels g)))]"

definition export_names :: "panel_group \<Rightarrow> js" where
  "export_names g = JObj [(''groupName'', g_panelGroupName g), (''panels'', JArr (map p_panelName (g_panels g)))]"

definition export_application :: "app_meta \<Rightarrow> js" where
  "export_application a = JObj [(''namespace'', am_namespace a), (''applications'',
     JArr (map (\<lambda>r. JObj [(''kind'', res_kind r), (''names'', JArr (res_names r))]) (am_applications a)))]"

definition getDashboard :: "stored_dashboard \<Rightarrow> js" where
  "getDashboard d = JObj [
     (''dashboardID'', if sd_dbTypeID d \<noteq> JStr ''custom'' then sd_dbTypeID d else JStr ''custom-downloaded''),
     (''name'', sd_dbName d), (''information'', sd_dbInformation d),
     (''chaosEventQueryTemplate'', sd_eventTemplate d), (''chaosVerdictQueryTemplate'', sd_verdictTemplate d),
     (''applicationMetadataMap'', JArr (case sd_applications d of None \<Rightarrow> [] | Some ams \<Rightarrow> map export_application ams)),
     (''panelGroupMap'', JArr (map export_names (sd_panelGroups d))),
     (''panelGroups'', JArr (map export_group (sd_panelGroups d)))]"

section \<open>Panels read from a document\<close>

definition getPanelsByGroup :: "group_names list \<Rightarrow> js \<Rightarrow> js list" where
  "getPanelsByGroup sel name = concat (map gm_panels (filter (\<lambda>g. name = gm_groupName g) sel))"

definition read_query :: "(nat \<Rightarrow> string) \<Rightarrow> js \<Rightarrow> nat \<times> prom_query list \<Rightarrow> (nat \<times> prom_query list) result" where
  "read_query uuid v st = (case st of (n, qs) \<Rightarrow>
     rbind (js_get ''prom_query_name'' v) (\<lambda>name. rbind (js_get ''legend'' v) (\<lambda>legend.
     rbind (js_get ''resolution'' v) (\<lambda>resolution. rbind (js_get ''minstep'' v) (\<lambda>minstep.
     rbind (js_get ''line'' v) (\<lambda>line. rbind (js_get ''close_area'' v) (\<lambda>area.
     Inr (Suc n, qs @ [\<lparr>q_hidden = JBool False, q_queryID = JStr (uuid n), q_promQueryName = name, q_legend = legend,
        q_resolution = resolution, q_minstep = minstep, q_line = line, q_closeArea = area, q_base = None,
        q_labels = None\<rparr>]))))))))"

definition read_options :: "js \<Rightarrow> panel_options result" where
  "read_options v = rbind (js_get ''panel_options'' v) (\<lambda>os. rbind (js_get ''points'' os) (\<lambda>pts.
     rbind (js_get ''grids'' os) (\<lambda>grids. rbind (js_get ''left_axis'' os) (\<lambda>axis.
     Inr \<lparr>o_points = pts, o_grIDs = grids, o_leftAxis = axis\<rparr>))))"

definition read_panel :: "(nat \<Rightarrow> string) \<Rightarrow> js \<Rightarrow> js \<Rightarrow> js list \<Rightarrow> js \<Rightarrow> nat \<times> panel list \<Rightarrow> (nat \<times> panel list) result" where
  "read_panel uuid url gname chosen v st = (case st of (n, ps) \<Rightarrow>
     rbind (js_get ''panel_name'' v) (\<lambda>name.
     if name \<notin> set chosen then Inr (n, ps)
     else rbind (rbind (js_get ''prom_queries'' v) js_elems) (\<lambda>vs. rbind (foldR (read_query uuid) vs (n, [])) (\<lambda>(m, qs).
       rbind (read_options v) (\<lambda>os. rbind (js_get ''y_axis_left'' v) (\<lambda>yl. rbind (js_get ''y_axis_right'' v) (\<lambda>yr.
       rbind (js_get ''x_axis_down'' v) (\<lambda>xd. rbind (js_get ''unit'' v) (\<lambda>unt.
       Inr (m, ps @ [\<lparr>p_panelID = JUndef, p_createdAt = JUndef, p_panelGroupID = JUndef, p_panelGroupName = gname,
          p_dsURL = text_or_empty url, p_promQueries = qs, p_panelOptions = os, p_panelName = name, p_yAxisLeft = yl,
          p_yAxisRight = yr, p_xAxisDown = xd, p_unit = unt\<rparr>]))))))))))"

definition read_group ::
  "(nat \<Rightarrow> string) \<Rightarrow> js \<Rightarrow> group_names list \<Rightarrow> js \<Rightarrow> nat \<times> panel_group list \<Rightarrow> (nat \<times> panel_group list) result" where
  "read_group uuid url sel v st = (case st of (n, gs) \<Rightarrow>
     rbind (js_get ''panel_group_name'' v) (\<lambda>name.
     if name \<notin> set (map gm_groupName sel) then Inr (n, gs)
     else rbind (rbind (js_get ''panels'' v) js_elems) (\<lambda>vs.
       rbind (foldR (read_panel uuid url name (getPanelsByGroup sel name)) vs (n, [])) (\<lambda>(m, ps).
       Inr (m, gs @ [\<lparr>g_panelGroupID = JUndef, g_panelGroupName = name, g_panels = ps\<rparr>])))))"

definition getSelectedPanelGroups ::
  "(nat \<Rightarrow> string) \<Rightarrow> js \<Rightarrow> group_names list \<Rightarrow> js \<Rightarrow> nat \<Rightarrow> (nat \<times> panel_group list) result" where
  "getSelectedPanelGroups uuid url sel json n =
     rbind (rbind (js_get ''panelGroups'' json) js_elems) (\<lambda>vs. foldR (read_group uuid url sel) vs (n, []))"

section \<open>Saving groups the panels by name\<close>

definition first_names :: "'a list \<Rightarrow> 'a list" where
  "first_names xs = fold (\<lambda>x acc. if x \<in> set acc then acc else acc @ [x]) xs []"

definition of_name :: "js \<Rightarrow> panel list \<Rightarrow> panel list" where
  "of_name x ps = filter (\<lambda>p. p_panelGroupName p = x) ps"

definition named :: "panel \<Rightarrow> bool" where
  "named p \<longleftrightarrow> \<not> nullish (p_panelGroupName p) \<and> \<not> nullish (p_panelGroupID p)"

text \<open>What saving promises: a group per name, in the order the names first appear, with the panels
  of that name in their order; changed dashboards keep the group's identifier, the one of its first panel.\<close>

definition grouped_panels :: "(panel list \<Rightarrow> js) \<Rightarrow> (js \<Rightarrow> panel \<Rightarrow> panel) \<Rightarrow> panel list \<Rightarrow> panel_group list" where
  "grouped_panels gid f ps = map (\<lambda>x. \<lparr>g_panelGroupID = gid (of_name x ps), g_panelGroupName = x,
     g_panels = map (f (gid (of_name x ps))) (of_name x ps)\<rparr>) (first_names (map p_panelGroupName ps))"

definition first_id :: "panel list \<Rightarrow> js" where
  "first_id ps = (case ps of [] \<Rightarrow> JUndef | p # _ \<Rightarrow> p_panelGroupID p)"

lemma first_names_simps [simp]:
  "first_names [] = []"
  "first_names (xs @ [x]) = (if x \<in> set (first_names xs) then first_names xs else first_names xs @ [x])"
  by (simp_all add: first_names_def)

lemma set_first_names [simp]: "set (first_names xs) = set xs"
  by (induction xs rule: rev_induct) auto

lemma distinct_first_names [simp]: "distinct (first_names xs)"
  by (induction xs rule: rev_induct) auto

lemma first_names_distinct: "distinct xs \<Longrightarrow> first_names xs = xs"
  by (induction xs rule: rev_induct) auto

lemma of_name_simps [simp]:
  "of_name x [] = []"
  "of_name x (ps @ qs) = of_name x ps @ of_name x qs"
  "of_name x (p # ps) = (if p_panelGroupName p = x then p # of_name x ps else of_name x ps)"
  by (simp_all add: of_name_def)

lemma of_name_Nil: "of_name x ps = [] \<longleftrightarrow> x \<notin> p_panelGroupName ` set ps"
  by (auto simp: of_name_def filter_empty_conv)

lemma text_or_empty_id [simp]: "\<not> nullish v \<Longrightarrow> text_or_empty v = v"
  by (simp add: text_or_empty_def orelse_nullish_def)

lemma push_where_named:
  assumes "\<And>x. g_panelGroupName (G x) = x"
  shows "push_where (\<lambda>g. g_panelGroupName g = x) p g0 (map G xs) =
    (if x \<in> set xs then map (\<lambda>y. if y = x then push_panel p (G y) else G y) xs else map G xs @ [push_panel p g0])"
  using assms by (auto simp: push_where_def list_ex_iff)

lemma created_groups_eq:
  "list_all named ps \<Longrightarrow> created_groups ps = grouped_panels (\<lambda>_. JUndef) (\<lambda>_. saved_panel) ps"
proof (induction ps rule: rev_induct)
  case (snoc d ps)
  let ?x = "p_panelGroupName d"
  let ?G = "\<lambda>x. \<lparr>g_panelGroupID = JUndef, g_panelGroupName = x, g_panels = map saved_panel (of_name x ps)\<rparr>"
  have IH: "created_groups ps = map ?G (first_names (map p_panelGroupName ps))" using snoc by (simp add: grouped_panels_def)
  have step: "created_groups (ps @ [d]) = push_where (\<lambda>g. g_panelGroupName g = ?x) (saved_panel d)
      \<lparr>g_panelGroupID = JUndef, g_panelGroupName = ?x, g_panels = []\<rparr> (created_groups ps)"
    using snoc.prems by (simp add: created_groups_def named_def)
  show ?case unfolding step IH
    by (subst push_where_named) (auto simp: grouped_panels_def push_panel_def of_name_Nil image_iff of_name_def filter_empty_conv)
qed (simp add: created_groups_def grouped_panels_def)

lemma group_id_found:
  assumes "distinct xs" and "\<And>x. g_panelGroupName (G x) = x" and "p_panelGroupName d \<in> set xs" and "named d"
  shows "group_id_of d (map G xs) = g_panelGroupID (G (p_panelGroupName d))"
proof -
  let ?f = "\<lambda>g v. if g_panelGroupName g = p_panelGroupName d \<and> p_panelGroupID d \<noteq> g_panelGroupID g then g_panelGroupID g else v"
  have skip: "p_panelGroupName d \<notin> set ys \<Longrightarrow> fold ?f (map G ys) v = v" for ys v
    using assms(2) by (induction ys) auto
  obtain ys zs where xs: "xs = ys @ p_panelGroupName d # zs" using assms(3) by (auto dest: split_list)
  show ?thesis
    using assms(1,2,4) skip [of ys] skip [of zs] unfolding group_id_of_def xs by (auto simp: named_def)
qed

lemma group_id_absent: "p_panelGroupName d \<notin> g_panelGroupName ` set gs \<Longrightarrow> group_id_of d gs = text_or_empty (p_panelGroupID d)"
  unfolding group_id_of_def by (induction gs rule: rev_induct) auto

definition panel_in :: "js \<Rightarrow> panel \<Rightarrow> panel" where
  "panel_in gid d = (saved_panel d)\<lparr>p_panelID := text_or_empty (p_panelID d), p_createdAt := text_or_empty (p_createdAt d),
     p_panelGroupID := gid\<rparr>"

lemma first_id_append: "first_id (ps @ qs) = (if ps = [] then first_id qs else first_id ps)"
  by (cases ps) (auto simp: first_id_def)

lemma first_id_simps [simp]: "first_id [] = JUndef" "first_id (p # ps) = p_panelGroupID p"
  by (simp_all add: first_id_def)

lemma updated_groups_eq: "list_all named ps \<Longrightarrow> updated_groups ps = grouped_panels first_id panel_in ps"
proof (induction ps rule: rev_induct)
  case (snoc d ps)
  let ?x = "p_panelGroupName d" and ?xs = "first_names (map p_panelGroupName ps)"
  let ?G = "\<lambda>x. \<lparr>g_panelGroupID = first_id (of_name x ps), g_panelGroupName = x,
     g_panels = map (panel_in (first_id (of_name x ps))) (of_name x ps)\<rparr>"
  have IH: "updated_groups ps = map ?G ?xs" using snoc by (simp add: grouped_panels_def)
  have nd: "named d" using snoc.prems by simp
  have step: "updated_groups (ps @ [d]) = push_where (\<lambda>g. g_panelGroupName g = ?x) (updated_panel d (updated_groups ps))
      \<lparr>g_panelGroupID = p_panelGroupID d, g_panelGroupName = ?x, g_panels = []\<rparr> (updated_groups ps)"
    using nd by (simp add: updated_groups_def named_def)
  have pin: "updated_panel d gs = panel_in (group_id_of d gs) d" for gs by (simp add: updated_panel_def panel_in_def)
  show ?case
  proof (cases "?x \<in> set ?xs")
    case True
    then have "group_id_of d (map ?G ?xs) = first_id (of_name ?x ps)"
      using nd by (subst group_id_found) auto
    then show ?thesis unfolding step IH pin using True
      by (subst push_where_named) (auto simp: grouped_panels_def push_panel_def of_name_Nil image_iff first_id_append)
  next
    case False
    then have "group_id_of d (map ?G ?xs) = p_panelGroupID d"
      using nd by (subst group_id_absent) (auto simp: named_def)
    moreover have e: "of_name ?x ps = []" using False by (auto simp: of_name_Nil image_iff)
    ultimately show ?thesis unfolding step IH pin using False
      by (subst push_where_named) (auto simp: grouped_panels_def push_panel_def first_id_append image_iff)
  qed
qed (simp add: updated_groups_def grouped_panels_def)

section \<open>An unchanged dashboard is saved as it is stored\<close>

lemma of_name_concat:
  assumes "\<And>g p. g \<in> set gs \<Longrightarrow> p \<in> set (P g) \<Longrightarrow> p_panelGroupName p = N g"
    and "distinct (map N gs)" and "g \<in> set gs"
  shows "of_name (N g) (concat (map P gs)) = P g"
  using assms
proof (induction gs)
  case (Cons h gs)
  have all: "p \<in> set (P h) \<Longrightarrow> p_panelGroupName p = N h" for p using Cons.prems(1) by simp
  have other: "k \<in> set gs \<Longrightarrow> p \<in> set (P k) \<Longrightarrow> p_panelGroupName p = N k" for k p using Cons.prems(1) by simp
  show ?case
  proof (cases "g = h")
    case True
    have "of_name (N h) (P h) = P h" using all by (auto simp: of_name_def filter_id_conv)
    moreover have "of_name (N h) (concat (map P gs)) = []"
      using other Cons.prems(2) by (fastforce simp: of_name_Nil)
    ultimately show ?thesis using True by simp
  next
    case False
    then have g: "g \<in> set gs" using Cons.prems(3) by simp
    then have "N g \<noteq> N h" using Cons.prems(2) by (metis distinct.simps(2) image_eqI image_set list.simps(9))
    then have "of_name (N g) (P h) = []" using all by (auto simp: of_name_Nil)
    then show ?thesis using Cons.IH [OF other] Cons.prems(2) g by simp
  qed
qed simp

lemma first_names_concat:
  assumes "\<And>g p. g \<in> set gs \<Longrightarrow> p \<in> set (P g) \<Longrightarrow> p_panelGroupName p = N g"
    and "\<And>g. g \<in> set gs \<Longrightarrow> P g \<noteq> []" and "distinct (map N gs)"
  shows "first_names (map p_panelGroupName (concat (map P gs))) = map N gs"
  using assms
proof (induction gs rule: rev_induct)
  case (snoc g gs)
  have IH: "first_names (map p_panelGroupName (concat (map P gs))) = map N gs" using snoc by simp
  have "list_all (\<lambda>p. p_panelGroupName p = N g) ps \<Longrightarrow> ps \<noteq> [] \<Longrightarrow>
      first_names (map p_panelGroupName (concat (map P gs)) @ map p_panelGroupName ps) = map N gs @ [N g]" for ps
  proof (induction ps rule: rev_induct)
    case (snoc p ps)
    show ?case
    proof (cases "ps = []")
      case True
      then show ?thesis using IH snoc.prems \<open>distinct (map N (gs @ [g]))\<close>
        by (simp del: append_assoc set_first_names)
    next
      case False
      then show ?thesis using snoc by (simp del: append_assoc add: append_assoc [symmetric])
    qed
  qed simp
  moreover have "list_all (\<lambda>p. p_panelGroupName p = N g) (P g)" using snoc.prems(1) [of g] by (simp add: list_all_iff)
  ultimately show ?case using snoc.prems(2) [of g] by simp
qed simp

lemma grouped_concat:
  assumes "\<And>g p. g \<in> set gs \<Longrightarrow> p \<in> set (P g) \<Longrightarrow> p_panelGroupName p = N g"
    and "\<And>g. g \<in> set gs \<Longrightarrow> P g \<noteq> []" and "distinct (map N gs)"
  shows "grouped_panels gid f (concat (map P gs)) = map (\<lambda>g. \<lparr>g_panelGroupID = gid (P g), g_panelGroupName = N g,
    g_panels = map (f (gid (P g))) (P g)\<rparr>) gs"
proof -
  have "of_name (N g) (concat (map P gs)) = P g" if "g \<in> set gs" for g
    by (rule of_name_concat [OF assms(1,3)]) (use that in simp_all)
  then show ?thesis using first_names_concat [OF assms] by (simp add: grouped_panels_def)
qed

definition stored_panel :: "panel \<Rightarrow> bool" where
  "stored_panel p \<longleftrightarrow> \<not> nullish (p_panelID p) \<and> \<not> nullish (p_createdAt p) \<and> p_panelGroupID p = JUndef
     \<and> p_panelGroupName p = JUndef \<and> p_dsURL p = JUndef \<and> list_all (\<lambda>q. plain_query q = q) (p_promQueries p)"

definition stored_group :: "panel_group \<Rightarrow> bool" where
  "stored_group g \<longleftrightarrow> \<not> nullish (g_panelGroupID g) \<and> \<not> nullish (g_panelGroupName g) \<and> g_panels g \<noteq> []
     \<and> list_all stored_panel (g_panels g)"

definition resaved :: "panel_group \<Rightarrow> panel_group" where
  "resaved g = g\<lparr>g_panels := map (\<lambda>p. p\<lparr>p_panelGroupID := g_panelGroupID g\<rparr>) (g_panels g)\<rparr>"

lemma getAllSelectedPanels_fst:
  "fst (getAllSelectedPanels configure act url gs) = map (listed_panel url) (concat (map g_panels gs))"
proof -
  have "fst (fold (\<lambda>p (ps, i). (ps @ [listed_panel url p], if is_active_panel configure act p then length ps else i)) xs (ys, j))
    = ys @ map (listed_panel url) xs" for xs ys j
    by (induction xs arbitrary: ys j) auto
  then show ?thesis by (simp add: getAllSelectedPanels_def)
qed

lemma concat_existing:
  "concat (map g_panels (getExistingPanelGroups gs)) = concat (map (\<lambda>g. map (existing_panel g) (g_panels g)) gs)"
  by (simp add: getExistingPanelGroups_def comp_def)

lemma resaved_panel:
  "stored_group g \<Longrightarrow> p \<in> set (g_panels g) \<Longrightarrow>
    panel_in (g_panelGroupID g) (listed_panel url (existing_panel g p)) = p\<lparr>p_panelGroupID := g_panelGroupID g\<rparr>"
  by (cases p) (auto simp: panel_in_def listed_panel_def existing_panel_def saved_panel_def stored_group_def
      stored_panel_def list_all_iff plain_query_def intro!: map_idI)

lemma unchanged_groups:
  assumes "list_all stored_group gs" and "distinct (map g_panelGroupName gs)"
  shows "getPanelGroups True (fst (getAllSelectedPanels True act url (getExistingPanelGroups gs))) = map resaved gs"
proof -
  let ?P = "\<lambda>g. map (listed_panel url \<circ> existing_panel g) (g_panels g)"
  have all: "fst (getAllSelectedPanels True act url (getExistingPanelGroups gs)) = concat (map ?P gs)"
    unfolding getAllSelectedPanels_fst concat_existing by (simp add: map_concat comp_def)
  have g: "g \<in> set gs \<Longrightarrow> stored_group g" for g using assms(1) by (simp add: list_all_iff)
  have nd: "list_all named (concat (map ?P gs))"
    using g by (auto simp: list_all_iff named_def listed_panel_def existing_panel_def stored_group_def)
  have "first_id (?P g) = g_panelGroupID g" if "g \<in> set gs" for g
    using g [OF that] by (cases "g_panels g") (auto simp: stored_group_def listed_panel_def existing_panel_def)
  moreover have "map (panel_in (g_panelGroupID g)) (?P g) = g_panels (resaved g)" if "g \<in> set gs" for g
    using resaved_panel [OF g [OF that]] by (simp add: resaved_def)
  moreover have "grouped_panels first_id panel_in (concat (map ?P gs)) = map (\<lambda>g. \<lparr>g_panelGroupID = first_id (?P g),
      g_panelGroupName = g_panelGroupName g, g_panels = map (panel_in (first_id (?P g))) (?P g)\<rparr>) gs"
    using g assms(2) by (intro grouped_concat) (auto simp: listed_panel_def existing_panel_def stored_group_def)
  ultimately show ?thesis
    unfolding getPanelGroups_def all using updated_groups_eq [OF nd] by (auto simp: resaved_def)
qed

section \<open>A downloaded dashboard read back\<close>

definition all_names :: "panel_group list \<Rightarrow> group_names list" where
  "all_names = map (\<lambda>g. \<lparr>gm_groupName = g_panelGroupName g, gm_panels = map p_panelName (g_panels g)\<rparr>)"

text \<open>What comes back of a query, a panel and a group, identifiers of queries aside.\<close>

definition back_query :: "prom_query \<Rightarrow> prom_query" where
  "back_query q = (plain_query q)\<lparr>q_hidden := JBool False\<rparr>"

definition back_panel :: "js \<Rightarrow> js \<Rightarrow> panel \<Rightarrow> panel" where
  "back_panel url gname p = p\<lparr>p_panelID := JUndef, p_createdAt := JUndef, p_panelGroupID := JUndef, p_panelGroupName := gname,
     p_dsURL := text_or_empty url, p_promQueries := map back_query (p_promQueries p),
     p_panelOptions := \<lparr>o_points = o_points (p_panelOptions p), o_grIDs = JUndef, o_leftAxis = JUndef\<rparr>\<rparr>"

definition back_group :: "js \<Rightarrow> panel_group \<Rightarrow> panel_group" where
  "back_group url g = \<lparr>g_panelGroupID = JUndef, g_panelGroupName = g_panelGroupName g,
     g_panels = map (back_panel url (g_panelGroupName g)) (g_panels g)\<rparr>"

text \<open>Drawing identifiers: queries, panels and groups numbered from \<open>n\<close> on.\<close>

definition number_queries :: "(nat \<Rightarrow> string) \<Rightarrow> nat \<Rightarrow> prom_query list \<Rightarrow> prom_query list" where
  "number_queries uuid n qs = map (\<lambda>(i, q). q\<lparr>q_queryID := JStr (uuid i)\<rparr>) (enumerate n qs)"

fun number_panels :: "(nat \<Rightarrow> string) \<Rightarrow> nat \<Rightarrow> panel list \<Rightarrow> panel list" where
  "number_panels uuid n [] = []"
| "number_panels uuid n (p # ps) = p\<lparr>p_promQueries := number_queries uuid n (p_promQueries p)\<rparr>
     # number_panels uuid (n + length (p_promQueries p)) ps"

definition query_count :: "panel list \<Rightarrow> nat" where
  "query_count ps = sum_list (map (length \<circ> p_promQueries) ps)"

fun number_groups :: "(nat \<Rightarrow> string) \<Rightarrow> nat \<Rightarrow> panel_group list \<Rightarrow> panel_group list" where
  "number_groups uuid n [] = []"
| "number_groups uuid n (g # gs) = g\<lparr>g_panels := number_panels uuid n (g_panels g)\<rparr>
     # number_groups uuid (n + query_count (g_panels g)) gs"

lemma js_get_JObj [simp]: "js_get k (JObj fs) = Inr (obj_get fs k)"
  by simp

lemma read_queries_back:
  "foldR (read_query uuid) (map export_query qs) (n, acc) =
     Inr (n + length qs, acc @ number_queries uuid n (map back_query qs))"
  by (induction qs arbitrary: n acc)
     (simp_all add: read_query_def export_query_def number_queries_def back_query_def plain_query_def)

lemma read_panels_back:
  "list_all (\<lambda>p. p_panelName p \<in> set chosen) ps \<Longrightarrow>
   foldR (read_panel uuid url gname chosen) (map export_panel ps) (n, acc) =
     Inr (n + query_count ps, acc @ number_panels uuid n (map (back_panel url gname) ps))"
proof (induction ps arbitrary: n acc)
  case (Cons p ps)
  have "read_panel uuid url gname chosen (export_panel p) (n, acc) = Inr (n + length (p_promQueries p),
      acc @ [(back_panel url gname p)\<lparr>p_promQueries := number_queries uuid n (map back_query (p_promQueries p))\<rparr>])"
    using Cons.prems
    by (simp add: read_panel_def export_panel_def read_options_def read_queries_back back_panel_def)
  then show ?case using Cons by (simp add: query_count_def add.assoc) (simp add: back_panel_def)
qed (simp add: query_count_def)

lemma chosen_of_all: "g \<in> set gs \<Longrightarrow> p \<in> set (g_panels g) \<Longrightarrow> p_panelName p \<in> set (getPanelsByGroup (all_names gs) (g_panelGroupName g))"
  by (fastforce simp: getPanelsByGroup_def all_names_def)

lemma read_groups_back:
  "set gs \<subseteq> set hs \<Longrightarrow> foldR (read_group uuid url (all_names hs)) (map export_group gs) (n, acc) =
     Inr (n + query_count (concat (map g_panels gs)), acc @ number_groups uuid n (map (back_group url) gs))"
proof (induction gs arbitrary: n acc)
  case (Cons g gs)
  have g: "g \<in> set hs" using Cons.prems by simp
  then have "g_panelGroupName g \<in> set (map gm_groupName (all_names hs))" by (force simp: all_names_def)
  moreover have "list_all (\<lambda>p. p_panelName p \<in> set (getPanelsByGroup (all_names hs) (g_panelGroupName g))) (g_panels g)"
    using chosen_of_all [OF g] by (simp add: list_all_iff)
  ultimately have "read_group uuid url (all_names hs) (export_group g) (n, acc) = Inr (n + query_count (g_panels g),
      acc @ [(back_group url g)\<lparr>g_panels := number_panels uuid n (map (back_panel url (g_panelGroupName g)) (g_panels g))\<rparr>])"
    by (simp add: read_group_def export_group_def read_panels_back back_group_def)
  moreover have "query_count (map (back_panel url x) ps) = query_count ps" for x ps
    by (simp add: query_count_def back_panel_def comp_def)
  ultimately show ?case using Cons by (simp add: query_count_def add.assoc) (simp add: back_group_def)
qed (simp add: query_count_def)

text \<open>
  C23. A downloaded dashboard of which all panels are chosen is read back with its
  groups, panels and queries in order, with new identifiers and without the grid and
  axis options.
\<close>

theorem downloaded_dashboard_is_read_back:
  "getSelectedPanelGroups uuid url (all_names (sd_panelGroups d)) (getDashboard d) n =
     Inr (n + query_count (concat (map g_panels (sd_panelGroups d))),
          number_groups uuid n (map (back_group url) (sd_panelGroups d)))"
  by (simp add: getSelectedPanelGroups_def getDashboard_def read_groups_back)

text \<open>The reader looks for \<open>grids\<close> and \<open>left_axis\<close>, the writer writes \<open>grIDs\<close> and \<open>leftAxis\<close>.\<close>

lemma downloaded_options_are_lost:
  "read_options (export_panel p) = Inr \<lparr>o_points = o_points (p_panelOptions p), o_grIDs = JUndef, o_leftAxis = JUndef\<rparr>"
  by (simp add: read_options_def export_panel_def)

text \<open>Drawing identifiers changes nothing else, and every query gets one of its own.\<close>

definition id_free :: "panel_group \<Rightarrow> panel_group" where
  "id_free g = g\<lparr>g_panels := map (\<lambda>p. p\<lparr>p_promQueries := map (\<lambda>q. q\<lparr>q_queryID := JUndef\<rparr>) (p_promQueries p)\<rparr>) (g_panels g)\<rparr>"

lemma number_groups_id_free: "map id_free (number_groups uuid n gs) = map id_free gs"
proof -
  have q: "map (\<lambda>q. q\<lparr>q_queryID := JUndef\<rparr>) (number_queries uuid n qs) = map (\<lambda>q. q\<lparr>q_queryID := JUndef\<rparr>) qs" for n qs
    by (induction qs arbitrary: n) (simp_all add: number_queries_def)
  have p: "map (\<lambda>p. p\<lparr>p_promQueries := map (\<lambda>q. q\<lparr>q_queryID := JUndef\<rparr>) (p_promQueries p)\<rparr>) (number_panels uuid n ps)
      = map (\<lambda>p. p\<lparr>p_promQueries := map (\<lambda>q. q\<lparr>q_queryID := JUndef\<rparr>) (p_promQueries p)\<rparr>) ps" for n ps
    by (induction ps arbitrary: n) (simp_all add: q)
  show ?thesis by (induction gs arbitrary: n) (simp_all add: id_free_def p)
qed

definition group_query_ids :: "panel_group list \<Rightarrow> js list" where
  "group_query_ids gs = map q_queryID (concat (map p_promQueries (concat (map g_panels gs))))"

lemma upt_sum: "[n..<n + (a + b)] = [n..<n + a] @ [n + a..<n + a + b]"
  using upt_add_eq_append [of n "n + a" b] by (simp add: add.assoc)

lemma numbered_ids:
  "group_query_ids (number_groups uuid n gs) = map (\<lambda>i. JStr (uuid i)) [n..<n + query_count (concat (map g_panels gs))]"
proof -
  have q: "map q_queryID (number_queries uuid n qs) = map (\<lambda>i. JStr (uuid i)) [n..<n + length qs]" for n qs
    by (simp add: number_queries_def comp_def case_prod_beta flip: map_fst_enumerate)
  have p: "map q_queryID (concat (map p_promQueries (number_panels uuid n ps))) = map (\<lambda>i. JStr (uuid i)) [n..<n + query_count ps]" for n ps
    by (induction ps arbitrary: n) (simp_all add: query_count_def q upt_sum)
  have "query_count (ps @ qs) = query_count ps + query_count qs" for ps qs by (simp add: query_count_def)
  then show ?thesis unfolding group_query_ids_def
    by (induction gs arbitrary: n) (simp_all add: p upt_sum, simp add: query_count_def)
qed

end
