(* ===== verification/DashQueries.thy ===== *)
theory DashQueries
  imports DashPanels
begin

text \<open>
  Editing the queries of a panel: the editor of one query (\<open>QueryEditor/index.tsx\<close>) and the
  panel's page with its queries, switches and tabs (\<open>QueryEditingWizard/index.tsx\<close>).

  An editor keeps a copy of its query and hands it over after every change; it is remounted with a
  fresh copy whenever its tab is shown again. Mounting splits the query's text and throws when it
  is not one. The metric's labels and values are a reply of the server, the applications are those
  of the dashboard, whose kinds and names are texts.
\<close>

section \<open>One query\<close>

record label_values =
  lv_label :: string
  lv_values :: "string list option"

record editor =
  ed_open :: bool
  ed_values :: "string list"
  ed_label :: string
  ed_local :: prom_query
  ed_visible :: bool

text \<open>What a query's editor is given: the data source, the applications and the server's labels.\<close>

record editor_env =
  ev_dsURL :: string
  ev_apps :: "app_meta list"
  ev_labels :: "label_values list"

fun text_of :: "js \<Rightarrow> string" where
  "text_of (JStr s) = s"
| "text_of v = ''''"

definition base_query :: "string \<Rightarrow> string" where
  "base_query q = (let h = hd (js_split q ''{'') in
     if js_includes h ''('' then rev (takeWhile (\<lambda>c. c \<noteq> CHR ''('') (rev h)) else h)"

definition local_query :: "string \<Rightarrow> prom_query \<Rightarrow> prom_query" where
  "local_query t q = q\<lparr>q_base := Some (base_query t), q_labels := Some (getLabelsAndValues t)\<rparr>"

definition mount_editor :: "nat \<times> prom_query \<Rightarrow> editor result" where
  "mount_editor iq = (case iq of (i, q) \<Rightarrow> rbind (js_string (q_promQueryName q)) (\<lambda>t.
     Inr \<lparr>ed_open = (i = 0), ed_values = [], ed_label = '''', ed_local = local_query t q, ed_visible = True\<rparr>))"

definition getAvailableValues :: "label_values list \<Rightarrow> string \<Rightarrow> string list" where
  "getAvailableValues ls l = fold (\<lambda>lv acc. if lv_label lv = l then (case lv_values lv of None \<Rightarrow> [] | Some vs \<Rightarrow> vs) else acc) ls []"

definition job_name :: "string list \<Rightarrow> string \<Rightarrow> string \<Rightarrow> string list" where
  "job_name avail ns name = (if name \<in> set avail then [name]
     else if ns @ ''/'' @ name \<in> set avail then [ns @ ''/'' @ name] else [])"

definition resource_values :: "string \<Rightarrow> string list \<Rightarrow> string \<Rightarrow> resource \<Rightarrow> string list" where
  "resource_values l avail ns r = (let names = map text_of (res_names r) in
     if l \<noteq> ''job'' then (if js_includes (js_lower l) (js_lower (text_of (res_kind r)))
        then filter (\<lambda>name. name \<in> set avail) names else [])
     else concat (map (job_name avail ns) names))"

definition getSelectedValuesForLabel :: "editor_env \<Rightarrow> string \<Rightarrow> string \<Rightarrow> string list" where
  "getSelectedValuesForLabel env l t = (let avail = getAvailableValues (ev_labels env) l in
     first_names (filter (\<lambda>x. x \<noteq> '''')
       (concat (map ql_value (filter (\<lambda>lv. label lv = l) (getLabelsAndValues t)))
        @ concat (map (\<lambda>a. concat (map (resource_values l avail (text_of (am_namespace a))) (am_applications a))) (ev_apps env)))))"

definition put_label :: "string \<Rightarrow> string list \<Rightarrow> QueryLabelValue list \<Rightarrow> QueryLabelValue list" where
  "put_label l vs ls = (if list_ex (\<lambda>lv. label lv = l) ls
     then map (\<lambda>lv. if label lv = l then lv\<lparr>ql_value := vs\<rparr> else lv) ls
     else ls @ [\<lparr>label = l, ql_value = vs\<rparr>])"

definition base_of :: "prom_query \<Rightarrow> string" where
  "base_of q = (case q_base q of None \<Rightarrow> '''' | Some b \<Rightarrow> b)"

definition labels_of :: "prom_query \<Rightarrow> QueryLabelValue list" where
  "labels_of q = (case q_labels q of None \<Rightarrow> [] | Some ls \<Rightarrow> ls)"

text \<open>The text gets the values of one label.\<close>

definition with_values :: "string \<Rightarrow> string list \<Rightarrow> prom_query \<Rightarrow> prom_query" where
  "with_values l vs q = (let ls = put_label l vs (labels_of q) in
     q\<lparr>q_promQueryName := JStr (setLabelsAndValues (base_of q) (text_of (q_promQueryName q)) ls), q_labels := Some ls\<rparr>)"

datatype ed_event =
    e_metric string
  | e_label string
  | e_values "string list"
  | e_text string
  | e_legend string
  | e_minstep string
  | e_graph string
  | e_resolution string

definition ed_metric :: "editor_env \<Rightarrow> string \<Rightarrow> editor \<Rightarrow> editor" where
  "ed_metric env m ed = ed\<lparr>
     ed_local := (ed_local ed)\<lparr>q_base := Some m, q_promQueryName := JStr m, q_labels := Some []\<rparr>,
     ed_values := if m \<noteq> '''' \<and> ev_dsURL env \<noteq> '''' \<and> q_base (ed_local ed) \<noteq> Some m \<and> ed_open ed then [] else ed_values ed\<rparr>"

definition ed_choose_label :: "editor_env \<Rightarrow> string \<Rightarrow> editor \<Rightarrow> editor" where
  "ed_choose_label env l ed = (let vs = getSelectedValuesForLabel env l (text_of (q_promQueryName (ed_local ed))) in
     ed\<lparr>ed_label := l, ed_local := with_values l vs (ed_local ed), ed_values := vs\<rparr>)"

definition ed_choose_values :: "editor_env \<Rightarrow> string list \<Rightarrow> editor \<Rightarrow> editor" where
  "ed_choose_values env vs ed = (let q = with_values (ed_label ed) vs (ed_local ed) in
     ed\<lparr>ed_local := q, ed_values := getSelectedValuesForLabel env (ed_label ed) (text_of (q_promQueryName q))\<rparr>)"

definition saveQueryChange :: "editor_env \<Rightarrow> string \<Rightarrow> editor \<Rightarrow> editor" where
  "saveQueryChange env t ed = ed\<lparr>ed_local := (local_query t (ed_local ed))\<lparr>q_promQueryName := JStr t\<rparr>,
     ed_values := if base_of (ed_local ed) \<noteq> '''' \<and> ev_dsURL env \<noteq> '''' \<and> ed_open ed
       then (if base_of (ed_local ed) \<noteq> base_query t then [] else getSelectedValuesForLabel env (ed_label ed) t)
       else ed_values ed\<rparr>"

fun ed_handle :: "editor_env \<Rightarrow> ed_event \<Rightarrow> editor \<Rightarrow> editor" where
  "ed_handle env (e_metric m) ed = ed_metric env m ed"
| "ed_handle env (e_label l) ed = ed_choose_label env l ed"
| "ed_handle env (e_values vs) ed = ed_choose_values env vs ed"
| "ed_handle env (e_text t) ed = saveQueryChange env t ed"
| "ed_handle env (e_legend t) ed = ed\<lparr>ed_local := (ed_local ed)\<lparr>q_legend := JStr t\<rparr>\<rparr>"
| "ed_handle env (e_minstep t) ed = ed\<lparr>ed_local := (ed_local ed)\<lparr>q_minstep := JStr (hd (js_split t ''s''))\<rparr>\<rparr>"
| "ed_handle env (e_graph v) ed = ed\<lparr>ed_local := (ed_local ed)
     \<lparr>q_line := JBool (v = ''Line graph''), q_closeArea := JBool (v \<noteq> ''Line graph'')\<rparr>\<rparr>"
| "ed_handle env (e_resolution r) ed = ed\<lparr>ed_local := (ed_local ed)\<lparr>q_resolution := JStr r\<rparr>\<rparr>"

section \<open>One panel\<close>

record panel_wizard =
  w_info :: panel
  w_settings :: bool
  w_tab :: nat
  w_editors :: "editor list"

text \<open>Only the first tab of the shown settings has the editors.\<close>

definition mount_editors :: "panel \<Rightarrow> editor list result" where
  "mount_editors p = mapR mount_editor (enumerate 0 (p_promQueries p))"

definition mount_wizard :: "panel \<Rightarrow> panel_wizard result" where
  "mount_wizard p = rmap (\<lambda>eds. \<lparr>w_info = p, w_settings = True, w_tab = 0, w_editors = eds\<rparr>) (mount_editors p)"

definition show_editors :: "panel_wizard \<Rightarrow> panel_wizard result" where
  "show_editors w = (if w_settings w \<and> w_tab w = 0
     then rmap (\<lambda>eds. w\<lparr>w_editors := eds\<rparr>) (mount_editors (w_info w)) else Inr (w\<lparr>w_editors := []\<rparr>))"

definition set_queries :: "(prom_query list \<Rightarrow> prom_query list) \<Rightarrow> panel_wizard \<Rightarrow> panel_wizard" where
  "set_queries f w = w\<lparr>w_info := (w_info w)\<lparr>p_promQueries := f (p_promQueries (w_info w))\<rparr>\<rparr>"

definition new_query :: "string \<Rightarrow> prom_query" where
  "new_query uid = \<lparr>q_hidden = JBool False, q_queryID = JStr uid, q_promQueryName = JStr '''', q_legend = JStr '''',
     q_resolution = JStr ''1/2'', q_minstep = JStr ''5'', q_line = JBool True, q_closeArea = JBool False,
     q_base = None, q_labels = None\<rparr>"

definition handleAddQuery :: "string \<Rightarrow> panel_wizard \<Rightarrow> panel_wizard result" where
  "handleAddQuery uid w = rbind (mount_editor (length (p_promQueries (w_info w)), new_query uid)) (\<lambda>ed.
     Inr ((set_queries (\<lambda>qs. qs @ [new_query uid]) w)\<lparr>w_editors := w_editors w @ [ed]\<rparr>))"

definition handleDeleteQuery :: "nat \<Rightarrow> panel_wizard \<Rightarrow> panel_wizard" where
  "handleDeleteQuery i w = (if i \<noteq> 0 \<or> length (p_promQueries (w_info w)) > 1
     then (set_queries (remove_at i) w)\<lparr>w_editors := remove_at i (w_editors w)\<rparr> else w)"

definition flip_hidden :: "prom_query \<Rightarrow> prom_query" where
  "flip_hidden q = q\<lparr>q_hidden := JBool (\<not> truthy (q_hidden q))\<rparr>"

definition handleShowAndHideQuery :: "nat \<Rightarrow> panel_wizard \<Rightarrow> panel_wizard" where
  "handleShowAndHideQuery i w = set_queries (\<lambda>qs. if i < length qs then qs[i := flip_hidden (qs ! i)] else qs) w"

definition handleUpdateQuery :: "prom_query \<Rightarrow> nat \<Rightarrow> panel_wizard \<Rightarrow> panel_wizard" where
  "handleUpdateQuery q i w = set_queries (\<lambda>qs. qs[i := q]) w"

definition set_editor :: "nat \<Rightarrow> editor \<Rightarrow> panel_wizard \<Rightarrow> panel_wizard" where
  "set_editor i ed w = w\<lparr>w_editors := (w_editors w)[i := ed]\<rparr>"

datatype wiz_event =
    w_group string bool
  | w_name string
  | w_points bool
  | w_grids bool
  | w_add
  | w_delete nat
  | w_toggle nat
  | w_edit nat ed_event
  | w_expand nat bool
  | w_show bool
  | w_change_tab nat

text \<open>The controls of a query exist while its editor does, two of them when there is another query.\<close>

definition has_editor :: "nat \<Rightarrow> panel_wizard \<Rightarrow> bool" where
  "has_editor i w \<longleftrightarrow> i < length (w_editors w)"

definition has_more :: "nat \<Rightarrow> panel_wizard \<Rightarrow> bool" where
  "has_more i w \<longleftrightarrow> has_editor i w \<and> length (p_promQueries (w_info w)) > 1"

definition w_set_group :: "string \<Rightarrow> bool \<Rightarrow> panel_wizard \<Rightarrow> panel_wizard" where
  "w_set_group v created w = w\<lparr>w_info := (w_info w)\<lparr>p_panelGroupName := JStr v,
     p_panelGroupID := if created then JStr '''' else text_or_empty (p_panelGroupID (w_info w))\<rparr>\<rparr>"

definition w_options :: "(panel_options \<Rightarrow> panel_options) \<Rightarrow> panel_wizard \<Rightarrow> panel_wizard" where
  "w_options f w = w\<lparr>w_info := (w_info w)\<lparr>p_panelOptions := f (p_panelOptions (w_info w))\<rparr>\<rparr>"

definition toggle_query :: "nat \<Rightarrow> panel_wizard \<Rightarrow> panel_wizard" where
  "toggle_query i w = (let ed = w_editors w ! i in
     set_editor i (ed\<lparr>ed_visible := \<not> ed_visible ed\<rparr>) (handleShowAndHideQuery i w))"

definition edit_query :: "editor_env \<Rightarrow> nat \<Rightarrow> ed_event \<Rightarrow> panel_wizard \<Rightarrow> panel_wizard" where
  "edit_query env i e w = (let ed = ed_handle env e (w_editors w ! i) in
     set_editor i ed (handleUpdateQuery (ed_local ed) i w))"

fun wiz_handle :: "editor_env \<Rightarrow> string \<Rightarrow> wiz_event \<Rightarrow> panel_wizard \<Rightarrow> panel_wizard result" where
  "wiz_handle env uid (w_group v created) w = Inr (w_set_group v created w)"
| "wiz_handle env uid (w_name v) w = Inr (w\<lparr>w_info := (w_info w)\<lparr>p_panelName := JStr v\<rparr>\<rparr>)"
| "wiz_handle env uid (w_points b) w =
     Inr (if w_settings w \<and> w_tab w = 1 then w_options (\<lambda>op. op\<lparr>o_points := JBool b\<rparr>) w else w)"
| "wiz_handle env uid (w_grids b) w =
     Inr (if w_settings w \<and> w_tab w = 1 then w_options (\<lambda>op. op\<lparr>o_grIDs := JBool b\<rparr>) w else w)"
| "wiz_handle env uid w_add w = (if w_settings w \<and> w_tab w = 0 then handleAddQuery uid w else Inr w)"
| "wiz_handle env uid (w_delete i) w = Inr (if has_more i w then handleDeleteQuery i w else w)"
| "wiz_handle env uid (w_toggle i) w = Inr (if has_more i w then toggle_query i w else w)"
| "wiz_handle env uid (w_edit i e) w = Inr (if has_editor i w then edit_query env i e w else w)"
| "wiz_handle env uid (w_expand i b) w =
     Inr (if has_editor i w then set_editor i ((w_editors w ! i)\<lparr>ed_open := b\<rparr>) w else w)"
| "wiz_handle env uid (w_show b) w = (if b = w_settings w then Inr w else show_editors (w\<lparr>w_settings := b\<rparr>))"
| "wiz_handle env uid (w_change_tab n) w = (if n = w_tab w \<or> \<not> w_settings w then Inr w else show_editors (w\<lparr>w_tab := n\<rparr>))"

text \<open>The queries the graph asks for.\<close>

definition graph_queries :: "panel \<Rightarrow> prom_query list" where
  "graph_queries p = filter (\<lambda>q. \<not> truthy (q_hidden q)) (p_promQueries p)"

section \<open>The editors show what is saved\<close>

definition displays :: "editor \<Rightarrow> prom_query \<Rightarrow> bool" where
  "displays ed q \<longleftrightarrow> plain_query (ed_local ed) = plain_query q"

definition wiz_ok :: "panel_wizard \<Rightarrow> bool" where
  "wiz_ok w \<longleftrightarrow> (if w_settings w \<and> w_tab w = 0 then list_all2 displays (w_editors w) (p_promQueries (w_info w))
     else w_editors w = [])"

lemma plain_local_query [simp]: "plain_query (local_query t q) = plain_query q"
  by (simp add: local_query_def plain_query_def)

lemma mount_editor_shows: "mount_editor (i, q) = Inr ed \<Longrightarrow> displays ed q"
  by (auto simp: mount_editor_def rbind_Inr_iff displays_def)

lemma mount_editors_shows:
  assumes "mount_editors p = Inr eds"
  shows "list_all2 displays eds (p_promQueries p)"
proof -
  have "list_all2 (\<lambda>iq ed. mount_editor iq = Inr ed) (enumerate 0 (p_promQueries p)) eds"
    using assms by (simp add: mount_editors_def mapR_Inr_iff)
  then show ?thesis
    by (auto simp: list_all2_conv_all_nth nth_enumerate_eq intro: mount_editor_shows)
qed

text \<open>Queries whose text is one can be mounted.\<close>

definition text_queries :: "panel \<Rightarrow> bool" where
  "text_queries p \<longleftrightarrow> list_all (\<lambda>q. q_promQueryName q = JStr (text_of (q_promQueryName q))) (p_promQueries p)"

lemma mount_wizard_total: "text_queries p \<Longrightarrow> \<exists>w. mount_wizard p = Inr w"
proof -
  assume "text_queries p"
  then have t: "q \<in> set (p_promQueries p) \<Longrightarrow> q_promQueryName q = JStr (text_of (q_promQueryName q))" for q
    by (simp add: text_queries_def list_all_iff)
  have "\<exists>ed. mount_editor x = Inr ed" if "x \<in> set (enumerate 0 (p_promQueries p))" for x
  proof -
    obtain i q where x: "x = (i, q)" by (cases x)
    then have "q \<in> set (p_promQueries p)" using that by (auto simp: in_set_enumerate_eq)
    then have "js_string (q_promQueryName q) = Inr (text_of (q_promQueryName q))" using t by (metis js_string.simps(1))
    then show ?thesis by (simp add: x mount_editor_def)
  qed
  then have "\<exists>eds. mount_editors p = Inr eds" unfolding mount_editors_def by (rule mapR_total)
  then show ?thesis by (auto simp: mount_wizard_def rmap_def)
qed

lemma shows_plain_cong: "plain_query q = plain_query r \<Longrightarrow> displays ed q = displays ed r"
  by (simp add: displays_def)

lemma list_all2_remove_at: "list_all2 R xs ys \<Longrightarrow> list_all2 R (remove_at i xs) (remove_at i ys)"
  by (auto simp: remove_at_def intro: list_all2_appendI list_all2_takeI list_all2_dropI)

lemma list_all2_update: "list_all2 R xs ys \<Longrightarrow> R x y \<Longrightarrow> list_all2 R (xs[i := x]) (ys[i := y])"
  by (rule list_all2_update_cong)

lemma mount_wizard_ok: "mount_wizard p = Inr w \<Longrightarrow> wiz_ok w \<and> w_info w = p"
  using mount_editors_shows [of p] by (auto simp: mount_wizard_def rmap_def rbind_Inr_iff wiz_ok_def)

lemma show_editors_ok:
  "show_editors w = Inr w' \<Longrightarrow> wiz_ok w' \<and> w_info w' = w_info w"
  using mount_editors_shows [of "w_info w"]
  by (auto simp: show_editors_def rmap_def rbind_Inr_iff wiz_ok_def split: if_splits)

lemma has_editor_shown: "wiz_ok w \<Longrightarrow> has_editor i w \<Longrightarrow>
    w_settings w \<and> w_tab w = 0 \<and> i < length (p_promQueries (w_info w))
    \<and> displays (w_editors w ! i) (p_promQueries (w_info w) ! i)"
  by (auto simp: wiz_ok_def has_editor_def dest: list_all2_lengthD list_all2_nthD split: if_splits)

lemma toggle_query_ok:
  assumes "wiz_ok w" and "has_editor i w"
  shows "wiz_ok (toggle_query i w)"
proof -
  let ?qs = "p_promQueries (w_info w)"
  note sh = has_editor_shown [OF assms]
  have "plain_query (flip_hidden q) = plain_query q" for q by (simp add: flip_hidden_def plain_query_def)
  then have "displays ((w_editors w ! i)\<lparr>ed_visible := \<not> ed_visible (w_editors w ! i)\<rparr>) (flip_hidden (?qs ! i))"
    using sh by (simp add: displays_def)
  then show ?thesis
    using assms(1) sh list_all2_update
    by (auto simp: toggle_query_def wiz_ok_def Let_def set_editor_def handleShowAndHideQuery_def set_queries_def)
qed

lemma edit_query_ok:
  assumes "wiz_ok w" and "has_editor i w"
  shows "wiz_ok (edit_query env i e w)"
  using assms(1) has_editor_shown [OF assms] list_all2_update [of displays]
  by (auto simp: edit_query_def wiz_ok_def Let_def set_editor_def handleUpdateQuery_def set_queries_def displays_def)

lemma handleDeleteQuery_ok:
  assumes "wiz_ok w" and "has_more i w"
  shows "wiz_ok (handleDeleteQuery i w)"
  using assms has_editor_shown [OF assms(1), of i] list_all2_remove_at [of displays]
  by (auto simp: handleDeleteQuery_def wiz_ok_def set_queries_def has_more_def)

lemma handleAddQuery_ok:
  assumes "handleAddQuery uid w = Inr w'" and "wiz_ok w" and "w_settings w" and "w_tab w = 0"
  shows "wiz_ok w'"
  using assms mount_editor_shows [of "length (p_promQueries (w_info w))" "new_query uid"]
  by (auto simp: handleAddQuery_def rbind_Inr_iff wiz_ok_def set_queries_def intro: list_all2_appendI)

lemma expand_ok:
  assumes "wiz_ok w" and "has_editor i w"
  shows "wiz_ok (set_editor i ((w_editors w ! i)\<lparr>ed_open := b\<rparr>) w)"
proof -
  let ?qs = "p_promQueries (w_info w)"
  have "list_all2 displays ((w_editors w)[i := (w_editors w ! i)\<lparr>ed_open := b\<rparr>]) (?qs[i := ?qs ! i])"
    using assms has_editor_shown [OF assms] by (intro list_all2_update) (auto simp: wiz_ok_def displays_def)
  then show ?thesis using assms(1) has_editor_shown [OF assms] by (auto simp: wiz_ok_def set_editor_def)
qed

lemma wiz_handle_ok: "wiz_handle env uid e w = Inr w' \<Longrightarrow> wiz_ok w \<Longrightarrow> wiz_ok w'"
proof (cases e)
  case (w_show b)
  assume "wiz_handle env uid e w = Inr w'" "wiz_ok w"
  then show ?thesis using w_show show_editors_ok [of "w\<lparr>w_settings := b\<rparr>" w']
    by (auto simp: wiz_ok_def split: if_splits)
next
  case (w_change_tab n)
  assume "wiz_handle env uid e w = Inr w'" "wiz_ok w"
  then show ?thesis using w_change_tab show_editors_ok [of "w\<lparr>w_tab := n\<rparr>" w']
    by (auto simp: wiz_ok_def split: if_splits)
next
  case w_add
  assume "wiz_handle env uid e w = Inr w'" "wiz_ok w"
  then show ?thesis using w_add handleAddQuery_ok by (auto split: if_splits)
next
  case (w_group v created)
  assume "wiz_handle env uid e w = Inr w'" "wiz_ok w"
  then show ?thesis using w_group by (auto simp: wiz_ok_def w_set_group_def)
next
  case (w_name v)
  assume "wiz_handle env uid e w = Inr w'" "wiz_ok w"
  then show ?thesis using w_name by (auto simp: wiz_ok_def)
next
  case (w_points b)
  assume "wiz_handle env uid e w = Inr w'" "wiz_ok w"
  then show ?thesis using w_points by (auto simp: wiz_ok_def w_options_def split: if_splits)
next
  case (w_grids b)
  assume "wiz_handle env uid e w = Inr w'" "wiz_ok w"
  then show ?thesis using w_grids by (auto simp: wiz_ok_def w_options_def split: if_splits)
qed (auto simp: has_more_def toggle_query_ok edit_query_ok handleDeleteQuery_ok expand_ok)

text \<open>The last query of a panel cannot be deleted.\<close>

lemma wiz_keeps_a_query:
  assumes "wiz_handle env uid e w = Inr w'" and "wiz_ok w" and "p_promQueries (w_info w) \<noteq> []"
  shows "p_promQueries (w_info w') \<noteq> []"
proof (cases e)
  case (w_delete i)
  have "has_more i w \<Longrightarrow> remove_at i (p_promQueries (w_info w)) \<noteq> []"
    using has_editor_shown [OF assms(2), of i] by (simp add: has_more_def flip: length_greater_0_conv)
  then show ?thesis using w_delete assms by (auto simp: handleDeleteQuery_def set_queries_def split: if_splits)
qed (use assms show_editors_ok in \<open>auto simp: w_set_group_def w_options_def handleAddQuery_def rbind_Inr_iff toggle_query_def
    edit_query_def Let_def set_editor_def handleShowAndHideQuery_def handleUpdateQuery_def set_queries_def split: if_splits\<close>)

section \<open>Choosing the values of a label\<close>

text \<open>The text is the metric, with at most the chosen label behind it.\<close>

definition one_label :: "string \<Rightarrow> string \<Rightarrow> editor \<Rightarrow> bool" where
  "one_label m l ed \<longleftrightarrow> ed_label ed = l \<and> q_base (ed_local ed) = Some m
     \<and> (\<exists>vs. list_all plain vs \<and> q_labels (ed_local ed) = Some [\<lparr>label = l, ql_value = vs\<rparr>]
          \<and> text_of (q_promQueryName (ed_local ed)) \<in> {m, m @ render_labels [\<lparr>label = l, ql_value = vs\<rparr>]})"

definition plain_metric :: "string \<Rightarrow> bool" where
  "plain_metric m \<longleftrightarrow> m \<noteq> '''' \<and> CHR ''{'' \<notin> set m \<and> CHR ''('' \<notin> set m \<and> CHR 0x22 \<notin> set m"

lemma with_values_text:
  assumes "plain_metric m" "plain l" "list_all plain vs" and "one_label m l ed"
  shows "text_of (q_promQueryName (with_values l vs (ed_local ed))) \<in> {m, m @ render_labels [\<lparr>label = l, ql_value = vs\<rparr>]}"
    and "vs \<noteq> [] \<Longrightarrow> text_of (q_promQueryName (with_values l vs (ed_local ed))) = m @ render_labels [\<lparr>label = l, ql_value = vs\<rparr>]"
    and "q_labels (with_values l vs (ed_local ed)) = Some [\<lparr>label = l, ql_value = vs\<rparr>]"
    and "q_base (with_values l vs (ed_local ed)) = Some m"
proof -
  obtain ws where ws: "list_all plain ws" "q_labels (ed_local ed) = Some [\<lparr>label = l, ql_value = ws\<rparr>]"
      "text_of (q_promQueryName (ed_local ed)) \<in> {m, m @ render_labels [\<lparr>label = l, ql_value = ws\<rparr>]}"
    using assms(4) by (auto simp: one_label_def)
  have b: "q_base (ed_local ed) = Some m" using assms(4) by (simp add: one_label_def)
  let ?t = "text_of (q_promQueryName (ed_local ed))" and ?lv = "\<lparr>label = l, ql_value = vs\<rparr>"
  have "set_label m m ?lv m = m @ render_labels [?lv]"
    using insert_label_plain_query [of m ?lv] assms(1) by (simp add: plain_metric_def setLabelsAndValues_def)
  moreover have "set_label m (m @ render_labels [\<lparr>label = l, ql_value = ws\<rparr>]) ?lv (m @ render_labels [\<lparr>label = l, ql_value = ws\<rparr>])
      = (if vs = [] then m else m @ render_labels [?lv])"
    using replaced_label [of m "\<lparr>label = l, ql_value = ws\<rparr>" ?lv] assms(1-3) ws(1) by (simp add: plain_metric_def)
  moreover have "with_values l vs (ed_local ed) = (ed_local ed)\<lparr>q_promQueryName := JStr (set_label m ?t ?lv ?t), q_labels := Some [?lv]\<rparr>"
    using ws(2) b by (simp add: with_values_def labels_of_def base_of_def put_label_def setLabelsAndValues_def)
  ultimately show "text_of (q_promQueryName (with_values l vs (ed_local ed))) \<in> {m, m @ render_labels [?lv]}"
    "vs \<noteq> [] \<Longrightarrow> text_of (q_promQueryName (with_values l vs (ed_local ed))) = m @ render_labels [?lv]"
    "q_labels (with_values l vs (ed_local ed)) = Some [?lv]" "q_base (with_values l vs (ed_local ed)) = Some m"
    using ws(3) b by auto
qed

lemma one_label_step:
  assumes "plain_metric m" "plain l" "list_all plain vs" "one_label m l ed"
  shows "one_label m l (ed_choose_values env vs ed)"
  using with_values_text [OF assms] assms(3,4) by (auto simp: one_label_def ed_choose_values_def Let_def)

lemma no_labels_read: "CHR ''{'' \<notin> set m \<Longrightarrow> getLabelsAndValues m = []"
proof -
  have "CHR ''{'' \<notin> set m \<Longrightarrow> match_between CHR ''{'' CHR ''}'' m = None" by (induction m) auto
  then show "CHR ''{'' \<notin> set m \<Longrightarrow> getLabelsAndValues m = []" by (simp add: getLabelsAndValues_def)
qed

lemma one_label_chosen:
  assumes "plain_metric m" and "list_all plain (getSelectedValuesForLabel env l m)"
  shows "one_label m l (ed_choose_label env l (ed_metric env m ed))"
proof -
  let ?vs = "getSelectedValuesForLabel env l m"
  have "setLabelsAndValues m m [\<lparr>label = l, ql_value = ?vs\<rparr>] = m @ render_labels [\<lparr>label = l, ql_value = ?vs\<rparr>]"
    using assms(1) by (intro insert_label_plain_query) (simp_all add: plain_metric_def)
  then show ?thesis using assms(2)
    by (auto simp: one_label_def ed_choose_label_def ed_metric_def Let_def with_values_def labels_of_def base_of_def put_label_def)
qed


section \<open>What the editor's copy loses\<close>

lemma ed_handle_hidden: "q_hidden (ed_local (ed_handle env e ed)) = q_hidden (ed_local ed)"
  by (cases e) (simp_all add: ed_metric_def ed_choose_label_def ed_choose_values_def saveQueryChange_def with_values_def
      local_query_def Let_def)

lemma ed_handle_visible: "ed_visible (ed_handle env e ed) = ed_visible ed"
  by (cases e) (simp_all add: ed_metric_def ed_choose_label_def ed_choose_values_def saveQueryChange_def Let_def)

text \<open>An editor's copy of a shown query says it is shown: after hiding it, the next change of the query
  puts it back into the graph while its icon goes on saying that it is hidden.\<close>

theorem change_shows_a_hidden_query:
  assumes "wiz_ok w" and "has_more i w" and "\<not> truthy (q_hidden (ed_local (w_editors w ! i)))" and "ed_visible (w_editors w ! i)"
  shows "let w' = edit_query env i e (toggle_query i w) in
    \<not> ed_visible (w_editors w' ! i) \<and> p_promQueries (w_info w') ! i \<in> set (graph_queries (w_info w'))"
proof -
  have i: "i < length (w_editors w)" "i < length (p_promQueries (w_info w))"
    using assms(2) has_editor_shown [OF assms(1), of i] by (simp_all add: has_more_def has_editor_def)
  let ?q = "ed_local (ed_handle env e ((w_editors w ! i)\<lparr>ed_visible := False\<rparr>))"
  have "p_promQueries (w_info (edit_query env i e (toggle_query i w))) = (p_promQueries (w_info w))[i := ?q]"
    using i assms(4) by (simp add: edit_query_def toggle_query_def Let_def set_editor_def handleUpdateQuery_def
        handleShowAndHideQuery_def set_queries_def)
  moreover have "?q \<in> set ((p_promQueries (w_info w))[i := ?q])" using i(2) by (rule set_update_memI)
  ultimately show ?thesis
    using i assms(3,4) by (simp add: Let_def graph_queries_def ed_handle_hidden)
       (simp add: edit_query_def toggle_query_def Let_def set_editor_def handleUpdateQuery_def
        handleShowAndHideQuery_def set_queries_def ed_handle_visible)
qed

text \<open>The graph is a line or an area, never both.\<close>

lemma graph_kind_exclusive:
  "truthy (q_line (ed_local (ed_handle env (e_graph v) ed))) \<noteq> truthy (q_closeArea (ed_local (ed_handle env (e_graph v) ed)))"
  by simp

end
