(* ===== verification/DashEdit.thy ===== *)
theory DashEdit
  imports DashQueries
begin

text \<open>
  The page that edits the panels of a dashboard (\<open>EditPanelsWizard/index.tsx\<close>): one tab per panel
  and one that adds a panel, the panel's page on the chosen tab, deleting and discarding.

  A step is a handler with the effects of the renders after it: the panels go to the last step of
  the dashboard wizard (\<open>ep_saved\<close>), and the panel's page is mounted anew when its tab changes,
  when it is reloaded and when its panel is renamed, since the name is its key. The lists of the
  wizard's earlier steps are values: going back from this page and returning to it, where the
  queries of a stored dashboard are shared, is not represented.
\<close>

section \<open>State\<close>

record edit_vars =
  pv_configure :: bool
  pv_activePanelID :: string
  pv_url :: js
  pv_typeID :: js
  pv_groups :: "panel_group list"
  pv_map :: "panel_group list"
  pv_selected :: "group_names list"
  pv_json :: js
  pv_env :: editor_env

record panels_page =
  ep_groups :: "panel_group list"
  ep_panels :: "panel list"
  ep_names :: "js list"
  ep_tab :: nat
  ep_wizard :: "panel_wizard option"
  ep_saved :: "panel list"
  ep_drawn :: nat

definition generatePanelGroupsList :: "panel list \<Rightarrow> js list" where
  "generatePanelGroupsList ps = first_names (filter truthy (map p_panelGroupName ps))"

definition getNewPanel :: "js \<Rightarrow> string \<Rightarrow> panel" where
  "getNewPanel url uid = \<lparr>p_panelID = JStr '''', p_createdAt = JStr '''', p_panelGroupID = JStr '''',
     p_panelGroupName = JStr ''Untitled Panel Group'', p_dsURL = text_or_empty url, p_promQueries = [new_query uid],
     p_panelOptions = \<lparr>o_points = JBool False, o_grIDs = JBool True, o_leftAxis = JBool True\<rparr>,
     p_panelName = JStr ''Untitled Panel'', p_yAxisLeft = JStr '''', p_yAxisRight = JStr '''', p_xAxisDown = JStr '''',
     p_unit = JStr ''''\<rparr>"

text \<open>New panels, with the list of group names and the copy the last step keeps.\<close>

definition set_panels :: "panel list \<Rightarrow> panels_page \<Rightarrow> panels_page" where
  "set_panels ps s = s\<lparr>ep_panels := ps, ep_names := generatePanelGroupsList ps, ep_saved := ps\<rparr>"

definition mount_tab :: "panels_page \<Rightarrow> panels_page result" where
  "mount_tab s = (if ep_tab s < length (ep_panels s)
     then rmap (\<lambda>w. s\<lparr>ep_wizard := Some w\<rparr>) (mount_wizard (ep_panels s ! ep_tab s))
     else Inr (s\<lparr>ep_wizard := None\<rparr>))"

definition handleCreatePanel :: "(nat \<Rightarrow> string) \<Rightarrow> edit_vars \<Rightarrow> panels_page \<Rightarrow> panels_page" where
  "handleCreatePanel uuid v s =
     (set_panels (ep_panels s @ [getNewPanel (pv_url v) (uuid (ep_drawn s))]) s)\<lparr>ep_drawn := Suc (ep_drawn s)\<rparr>"

text \<open>The effect of new panel groups: for a new custom dashboard the blank panel takes their place,
  since it is added to the panels of the render before.\<close>

definition groups_effect :: "(nat \<Rightarrow> string) \<Rightarrow> edit_vars \<Rightarrow> panels_page \<Rightarrow> panels_page result" where
  "groups_effect uuid v s =
     (let (ps, i) = getAllSelectedPanels (pv_configure v) (pv_activePanelID v) (pv_url v) (ep_groups s) in
      mount_tab (if pv_typeID v = JStr ''custom'' \<and> \<not> pv_configure v then handleCreatePanel uuid v (s\<lparr>ep_tab := i\<rparr>)
        else set_panels ps (s\<lparr>ep_tab := i\<rparr>)))"

definition edit_blank :: panels_page where
  "edit_blank = \<lparr>ep_groups = [], ep_panels = [], ep_names = [], ep_tab = 0, ep_wizard = None, ep_saved = [], ep_drawn = 0\<rparr>"

definition initial_groups :: "(nat \<Rightarrow> string) \<Rightarrow> edit_vars \<Rightarrow> (nat \<times> panel_group list) result" where
  "initial_groups uuid v = (if pv_groups v \<noteq> [] \<and> pv_configure v then Inr (0, pv_groups v)
     else if \<not> pv_configure v \<and> truthy (pv_json v) then getSelectedPanelGroups uuid (pv_url v) (pv_selected v) (pv_json v) 0
     else Inr (0, []))"

definition panels_init :: "(nat \<Rightarrow> string) \<Rightarrow> edit_vars \<Rightarrow> panels_page result" where
  "panels_init uuid v = rbind (initial_groups uuid v) (\<lambda>(n, gs). groups_effect uuid v (edit_blank\<lparr>ep_groups := gs, ep_drawn := n\<rparr>))"

text \<open>The stored dashboard may come after the page, when it was opened to edit one panel.\<close>

definition vars_effect :: "(nat \<Rightarrow> string) \<Rightarrow> edit_vars \<Rightarrow> panels_page \<Rightarrow> panels_page result" where
  "vars_effect uuid v s = (if pv_configure v \<and> pv_activePanelID v \<noteq> '''' \<and> ep_groups s = [] \<and> pv_groups v \<noteq> []
     then groups_effect uuid v (s\<lparr>ep_groups := pv_groups v, ep_panels := []\<rparr>) else Inr s)"

section \<open>Handlers\<close>

definition handleChange_tab :: "(nat \<Rightarrow> string) \<Rightarrow> edit_vars \<Rightarrow> nat \<Rightarrow> panels_page \<Rightarrow> panels_page result" where
  "handleChange_tab uuid v n s =
     (if n = length (ep_panels s) then mount_tab ((handleCreatePanel uuid v s)\<lparr>ep_tab := n\<rparr>)
      else if n = ep_tab s then Inr s else mount_tab (s\<lparr>ep_tab := n\<rparr>))"

definition handleDeletePanel :: "nat \<Rightarrow> panels_page \<Rightarrow> panels_page result" where
  "handleDeletePanel i s = (if i \<noteq> 0 \<or> length (ep_panels s) > 1
     then mount_tab ((set_panels (remove_at i (ep_panels s)) s)\<lparr>ep_tab := if i > 0 then i - 1 else ep_tab s\<rparr>)
     else Inr s)"

definition kept_query :: "prom_query \<Rightarrow> prom_query" where
  "kept_query q = (plain_query q)\<lparr>q_hidden := JBool False\<rparr>"

definition restored_panel :: "js \<Rightarrow> panel_group \<Rightarrow> panel \<Rightarrow> panel" where
  "restored_panel url g p = \<lparr>p_panelID = text_or_empty (p_panelID p), p_createdAt = text_or_empty (p_createdAt p),
     p_panelGroupID = text_or_empty (g_panelGroupID g), p_panelGroupName = g_panelGroupName g, p_dsURL = text_or_empty url,
     p_promQueries = map kept_query (p_promQueries p),
     p_panelOptions = \<lparr>o_points = o_points (p_panelOptions p), o_grIDs = o_grIDs (p_panelOptions p),
        o_leftAxis = o_leftAxis (p_panelOptions p)\<rparr>,
     p_panelName = p_panelName p, p_yAxisLeft = p_yAxisLeft p, p_yAxisRight = p_yAxisRight p, p_xAxisDown = p_xAxisDown p,
     p_unit = p_unit p\<rparr>"

definition restore_stored :: "js \<Rightarrow> panel_group list \<Rightarrow> panel \<Rightarrow> panel" where
  "restore_stored url gs p = fold (\<lambda>(g, sp) cur. if p_panelID sp = p_panelID cur then restored_panel url g sp else cur)
     (concat (map (\<lambda>g. map (Pair g) (g_panels g)) gs)) p"

text \<open>The document is read by the names of the fields of a stored dashboard.\<close>

definition reread_query :: "(nat \<Rightarrow> string) \<Rightarrow> js \<Rightarrow> nat \<times> prom_query list \<Rightarrow> (nat \<times> prom_query list) result" where
  "reread_query uuid v st = (case st of (n, qs) \<Rightarrow>
     rbind (js_get ''promQueryName'' v) (\<lambda>name. rbind (js_get ''legend'' v) (\<lambda>legend.
     rbind (js_get ''resolution'' v) (\<lambda>resolution. rbind (js_get ''minstep'' v) (\<lambda>minstep.
     rbind (js_get ''line'' v) (\<lambda>line. rbind (js_get ''closeArea'' v) (\<lambda>area.
     Inr (Suc n, qs @ [\<lparr>q_hidden = JBool False, q_queryID = JStr (uuid n), q_promQueryName = name, q_legend = legend,
        q_resolution = resolution, q_minstep = minstep, q_line = line, q_closeArea = area, q_base = None, q_labels = None\<rparr>]))))))))"

text \<open>The options of the document are kept as they are; of an object that is none, nothing is read.\<close>

definition kept_options :: "js \<Rightarrow> panel_options" where
  "kept_options v = \<lparr>o_points = fld ''points'' v, o_grIDs = fld ''grIDs'' v, o_leftAxis = fld ''leftAxis'' v\<rparr>"

definition reread_panel :: "(nat \<Rightarrow> string) \<Rightarrow> js \<Rightarrow> js \<Rightarrow> js \<Rightarrow> nat \<times> panel \<Rightarrow> (nat \<times> panel) result" where
  "reread_panel uuid url gname v st = (case st of (n, cur) \<Rightarrow>
     rbind (js_get ''panelName'' v) (\<lambda>name.
     if name \<noteq> p_panelName cur then Inr (n, cur)
     else rbind (rbind (js_get ''promQueries'' v) js_elems) (\<lambda>vs. rbind (foldR (reread_query uuid) vs (n, [])) (\<lambda>(m, qs).
       rbind (js_get ''panelOptions'' v) (\<lambda>os. rbind (js_get ''yAxisLeft'' v) (\<lambda>yl. rbind (js_get ''yAxisRight'' v) (\<lambda>yr.
       rbind (js_get ''xAxisDown'' v) (\<lambda>xd. rbind (js_get ''unit'' v) (\<lambda>unt.
       Inr (m, \<lparr>p_panelID = JUndef, p_createdAt = JUndef, p_panelGroupID = JUndef, p_panelGroupName = gname,
          p_dsURL = text_or_empty url, p_promQueries = qs, p_panelOptions = kept_options os, p_panelName = name,
          p_yAxisLeft = yl, p_yAxisRight = yr, p_xAxisDown = xd, p_unit = unt\<rparr>))))))))))"

definition reread_group :: "(nat \<Rightarrow> string) \<Rightarrow> js \<Rightarrow> js \<Rightarrow> nat \<times> panel \<Rightarrow> (nat \<times> panel) result" where
  "reread_group uuid url v st = rbind (rbind (js_get ''panels'' v) js_elems) (\<lambda>vs.
     rbind (js_get ''panelGroupName'' v) (\<lambda>gname. foldR (reread_panel uuid url gname) vs st))"

definition discarded :: "(nat \<Rightarrow> string) \<Rightarrow> edit_vars \<Rightarrow> nat \<times> panel \<Rightarrow> (nat \<times> panel) result" where
  "discarded uuid v st = (case st of (n, p) \<Rightarrow>
     if pv_configure v then Inr (n, restore_stored (pv_url v) (pv_map v) p)
     else if pv_typeID v \<noteq> JStr ''custom''
     then rbind (rbind (js_get ''panelGroups'' (pv_json v)) js_elems) (\<lambda>gs. foldR (reread_group uuid (pv_url v)) gs (n, p))
     else Inr (Suc n, getNewPanel (pv_url v) (uuid n)))"

definition handleDiscardChanges :: "(nat \<Rightarrow> string) \<Rightarrow> edit_vars \<Rightarrow> nat \<Rightarrow> panels_page \<Rightarrow> panels_page result" where
  "handleDiscardChanges uuid v i s = rbind (discarded uuid v (ep_drawn s, ep_panels s ! i)) (\<lambda>(n, p).
     mount_tab ((set_panels ((ep_panels s)[i := p]) s)\<lparr>ep_drawn := n\<rparr>))"

definition handleUpdatePanel :: "panel \<Rightarrow> nat \<Rightarrow> panels_page \<Rightarrow> panels_page" where
  "handleUpdatePanel p i s = set_panels ((ep_panels s)[i := p]) s"

section \<open>Steps\<close>

datatype edit_event =
    ep_change_tab nat
  | ep_panel wiz_event
  | ep_delete
  | ep_discard
  | ep_vars

fun hands_over :: "wiz_event \<Rightarrow> bool" where
  "hands_over (w_expand i b) = False"
| "hands_over (w_show b) = False"
| "hands_over (w_change_tab n) = False"
| "hands_over e = True"

definition handed_over :: "wiz_event \<Rightarrow> panel_wizard \<Rightarrow> panels_page \<Rightarrow> panels_page" where
  "handed_over e w s = (if hands_over e then handleUpdatePanel (w_info w) (ep_tab s) s else s)
     \<lparr>ep_wizard := Some w, ep_drawn := if e = w_add then Suc (ep_drawn s) else ep_drawn s\<rparr>"

definition panel_event :: "(nat \<Rightarrow> string) \<Rightarrow> edit_vars \<Rightarrow> wiz_event \<Rightarrow> panel_wizard \<Rightarrow> panels_page \<Rightarrow> panels_page result" where
  "panel_event uuid v e w s = rbind
     (wiz_handle ((pv_env v)\<lparr>ev_dsURL := text_of (text_or_empty (p_dsURL (w_info w)))\<rparr>) (uuid (ep_drawn s)) e w) (\<lambda>w'.
     let s' = handed_over e w' s in if p_panelName (w_info w') \<noteq> p_panelName (w_info w) then mount_tab s' else Inr s')"

fun edit_step :: "(nat \<Rightarrow> string) \<Rightarrow> edit_vars \<Rightarrow> edit_event \<Rightarrow> panels_page \<Rightarrow> panels_page result" where
  "edit_step uuid v (ep_change_tab n) s =
     (if n \<le> length (ep_panels s) then handleChange_tab uuid v n s else Inr s)"
| "edit_step uuid v (ep_panel e) s = (case ep_wizard s of None \<Rightarrow> Inr s | Some w \<Rightarrow> panel_event uuid v e w s)"
| "edit_step uuid v ep_delete s =
     (if ep_wizard s \<noteq> None \<and> length (ep_panels s) > 1 then handleDeletePanel (ep_tab s) s else Inr s)"
| "edit_step uuid v ep_discard s = (if ep_wizard s \<noteq> None then handleDiscardChanges uuid v (ep_tab s) s else Inr s)"
| "edit_step uuid v ep_vars s = vars_effect uuid v s"

definition edit_run :: "(nat \<Rightarrow> string) \<Rightarrow> edit_vars \<Rightarrow> edit_event list \<Rightarrow> panels_page result" where
  "edit_run uuid v es = rbind (panels_init uuid v) (foldR (edit_step uuid v) es)"

section \<open>The chosen panel is the one shown, and what is shown is what is saved\<close>

definition page_inv :: "panels_page \<Rightarrow> bool" where
  "page_inv s \<longleftrightarrow> ep_saved s = ep_panels s \<and> ep_names s = generatePanelGroupsList (ep_panels s)
     \<and> (case ep_wizard s of None \<Rightarrow> ep_panels s = []
        | Some w \<Rightarrow> ep_tab s < length (ep_panels s) \<and> w_info w = ep_panels s ! ep_tab s \<and> wiz_ok w)"

text \<open>All of it but the panel's page, which mounting puts in place.\<close>

definition lists_inv :: "panels_page \<Rightarrow> bool" where
  "lists_inv s \<longleftrightarrow> ep_saved s = ep_panels s \<and> ep_names s = generatePanelGroupsList (ep_panels s)
     \<and> (ep_panels s = [] \<or> ep_tab s < length (ep_panels s))"

lemma mount_tab_inv:
  assumes "mount_tab s = Inr s'" and "lists_inv s"
  shows "page_inv s' \<and> ep_panels s' = ep_panels s \<and> ep_tab s' = ep_tab s"
  using assms mount_wizard_ok [of "ep_panels s ! ep_tab s"]
  by (auto simp: mount_tab_def lists_inv_def page_inv_def rmap_def rbind_Inr_iff split: if_splits)

lemma page_inv_tab: "page_inv s \<Longrightarrow> ep_panels s = [] \<or> ep_tab s < length (ep_panels s)"
  by (auto simp: page_inv_def split: option.splits)

lemma page_inv_lists: "page_inv s \<Longrightarrow> lists_inv s"
  using page_inv_tab by (auto simp: page_inv_def lists_inv_def)

lemma set_panels_simps [simp]:
  "ep_panels (set_panels ps s) = ps" "ep_saved (set_panels ps s) = ps" "ep_tab (set_panels ps s) = ep_tab s"
  "ep_names (set_panels ps s) = generatePanelGroupsList ps" "ep_wizard (set_panels ps s) = ep_wizard s"
  by (simp_all add: set_panels_def)

lemma handleCreatePanel_simps [simp]:
  "ep_panels (handleCreatePanel uuid v s) = ep_panels s @ [getNewPanel (pv_url v) (uuid (ep_drawn s))]"
  "ep_saved (handleCreatePanel uuid v s) = ep_panels (handleCreatePanel uuid v s)"
  "ep_names (handleCreatePanel uuid v s) = generatePanelGroupsList (ep_panels (handleCreatePanel uuid v s))"
  "ep_tab (handleCreatePanel uuid v s) = ep_tab s"
  by (simp_all add: handleCreatePanel_def)

lemma active_tab_bound: "snd (getAllSelectedPanels configure act url gs) < length (concat (map g_panels gs))
    \<or> snd (getAllSelectedPanels configure act url gs) = 0"
proof -
  let ?f = "\<lambda>p (ps, i). (ps @ [listed_panel url p], if is_active_panel configure act p then length ps else i)"
  have "snd (fold ?f xs (ys, j)) < length xs + length ys \<or> snd (fold ?f xs (ys, j)) = j" for xs ys j
  proof (induction xs arbitrary: ys j)
    case (Cons x xs)
    show ?case using Cons [of "ys @ [listed_panel url x]" "if is_active_panel configure act x then length ys else j"]
      by (auto split: if_splits)
  qed simp
  from this [of "concat (map g_panels gs)" "[]" 0] show ?thesis by (simp add: getAllSelectedPanels_def)
qed

lemma groups_effect_inv:
  assumes "groups_effect uuid v s = Inr s'" and "ep_panels s = []"
  shows "page_inv s'"
proof -
  let ?a = "getAllSelectedPanels (pv_configure v) (pv_activePanelID v) (pv_url v) (ep_groups s)"
  show ?thesis
  proof (cases "pv_typeID v = JStr ''custom'' \<and> \<not> pv_configure v")
    case True
    have "\<not> is_active_panel False act p" for act p by (simp add: is_active_panel_def)
    then have "snd (fold (\<lambda>p (ps, i). (ps @ [listed_panel url p], if is_active_panel False act p then length ps else i)) xs (ys, j)) = j" for xs ys j url act
      by (induction xs arbitrary: ys) auto
    then have "snd ?a = 0" using True by (simp add: getAllSelectedPanels_def)
    then have "mount_tab (handleCreatePanel uuid v (s\<lparr>ep_tab := 0\<rparr>)) = Inr s'"
      using assms(1) True by (simp add: groups_effect_def Let_def case_prod_beta)
    then show ?thesis using mount_tab_inv assms(2) by (simp add: lists_inv_def)
  next
    case False
    have "length (fst ?a) = length (concat (map g_panels (ep_groups s)))" by (simp add: getAllSelectedPanels_fst)
    then have "fst ?a = [] \<or> snd ?a < length (fst ?a)"
      using active_tab_bound [of "pv_configure v" "pv_activePanelID v" "pv_url v" "ep_groups s"] by (metis length_greater_0_conv)
    then have "lists_inv (set_panels (fst ?a) (s\<lparr>ep_tab := snd ?a\<rparr>))" by (simp add: lists_inv_def)
    moreover have "mount_tab (set_panels (fst ?a) (s\<lparr>ep_tab := snd ?a\<rparr>)) = Inr s'"
      using assms(1) False by (simp add: groups_effect_def Let_def case_prod_beta split: if_splits)
    ultimately show ?thesis using mount_tab_inv by blast
  qed
qed

lemma panel_event_inv:
  assumes "panel_event uuid v e w s = Inr s'" and "page_inv s" and "ep_wizard s = Some w"
  shows "page_inv s'"
proof -
  from assms(2,3) have w: "wiz_ok w" "w_info w = ep_panels s ! ep_tab s" "ep_tab s < length (ep_panels s)"
      "ep_saved s = ep_panels s" "ep_names s = generatePanelGroupsList (ep_panels s)"
    by (simp_all add: page_inv_def)
  from assms(1) obtain w' where
      wh: "wiz_handle ((pv_env v)\<lparr>ev_dsURL := text_of (text_or_empty (p_dsURL (w_info w)))\<rparr>) (uuid (ep_drawn s)) e w = Inr w'"
    and s': "(let s' = handed_over e w' s in
       if p_panelName (w_info w') \<noteq> p_panelName (w_info w) then mount_tab s' else Inr s') = Inr s'"
    unfolding panel_event_def rbind_Inr_iff by blast
  have "wiz_ok w'" using wiz_handle_ok [OF wh w(1)] .
  moreover have "\<not> hands_over e \<Longrightarrow> w_info w' = w_info w"
    using wh show_editors_ok by (cases e) (auto simp: set_editor_def split: if_splits)
  ultimately have "page_inv (handed_over e w' s)"
    using w by (auto simp: page_inv_def handed_over_def handleUpdatePanel_def)
  then show ?thesis using s' mount_tab_inv page_inv_lists by (auto simp: Let_def split: if_splits)
qed

lemma edit_step_inv: "edit_step uuid v e s = Inr s' \<Longrightarrow> page_inv s \<Longrightarrow> page_inv s'"
proof (cases e)
  case (ep_change_tab n)
  assume st: "edit_step uuid v e s = Inr s'" and inv: "page_inv s"
  note l = page_inv_lists [OF inv]
  have "lists_inv ((handleCreatePanel uuid v s)\<lparr>ep_tab := n\<rparr>)" if "n = length (ep_panels s)"
    using that by (simp add: lists_inv_def)
  moreover have "lists_inv (s\<lparr>ep_tab := n\<rparr>)" if "n < length (ep_panels s)" using l that by (simp add: lists_inv_def)
  ultimately show ?thesis using st inv ep_change_tab mount_tab_inv
    by (auto simp: handleChange_tab_def nat_less_le split: if_splits)
next
  case ep_delete
  assume st: "edit_step uuid v e s = Inr s'" and inv: "page_inv s"
  let ?t = "(set_panels (remove_at (ep_tab s) (ep_panels s)) s)\<lparr>ep_tab := if ep_tab s > 0 then ep_tab s - 1 else ep_tab s\<rparr>"
  have "ep_tab s < length (ep_panels s)" if "length (ep_panels s) > 1" using page_inv_tab [OF inv] that by auto
  then have l: "lists_inv ?t" if "length (ep_panels s) > 1" using that by (auto simp: lists_inv_def)
  show ?thesis
  proof (cases "ep_wizard s \<noteq> None \<and> length (ep_panels s) > 1")
    case True
    then have "mount_tab ?t = Inr s'" using st ep_delete by (simp add: handleDeletePanel_def)
    then show ?thesis using mount_tab_inv l True by blast
  next
    case False
    then show ?thesis using st inv ep_delete by (simp split: if_splits)
  qed
next
  case ep_discard
  assume st: "edit_step uuid v e s = Inr s'" and inv: "page_inv s"
  have "lists_inv ((set_panels ((ep_panels s)[ep_tab s := p]) s)\<lparr>ep_drawn := n\<rparr>)" for p n
    using page_inv_tab [OF inv] by (auto simp: lists_inv_def)
  then show ?thesis using st inv ep_discard mount_tab_inv
    by (auto simp: handleDiscardChanges_def rbind_Inr_iff split: if_splits prod.splits)
next
  case ep_vars
  assume "edit_step uuid v e s = Inr s'" "page_inv s"
  then show ?thesis using ep_vars groups_effect_inv [of uuid v "s\<lparr>ep_groups := pv_groups v, ep_panels := []\<rparr>" s']
    by (auto simp: vars_effect_def split: if_splits)
qed (auto intro: panel_event_inv split: option.splits)

lemma edit_run_inv:
  assumes "edit_run uuid v es = Inr s"
  shows "page_inv s"
proof -
  from assms obtain t where t: "panels_init uuid v = Inr t" "foldR (edit_step uuid v) es t = Inr s"
    unfolding edit_run_def rbind_Inr_iff by blast
  then obtain ng where "(case ng of (n, gs) \<Rightarrow> groups_effect uuid v (edit_blank\<lparr>ep_groups := gs, ep_drawn := n\<rparr>)) = Inr t"
    unfolding panels_init_def rbind_Inr_iff by blast
  then obtain n gs where "groups_effect uuid v (edit_blank\<lparr>ep_groups := gs, ep_drawn := n\<rparr>) = Inr t"
    by (cases ng) simp
  then have ok: "page_inv t" by (rule groups_effect_inv) (simp add: edit_blank_def)
  show ?thesis by (rule foldR_invariant [OF t(2), of page_inv, OF ok]) (rule edit_step_inv)
qed

text \<open>
  C24. In every run of the page that edits panels, what will be saved is what is shown:
  the open tab holds the panel of its number, and each query's editor shows the query
  that is saved.
\<close>

theorem shown_panel_is_saved:
  "case edit_run uuid v es of Inl e \<Rightarrow> True | Inr s \<Rightarrow> ep_saved s = ep_panels s \<and>
     (case ep_wizard s of None \<Rightarrow> ep_panels s = []
      | Some w \<Rightarrow> ep_tab s < length (ep_panels s) \<and> w_info w = ep_panels s ! ep_tab s \<and>
          (if w_settings w \<and> w_tab w = 0 then list_all2 displays (w_editors w) (p_promQueries (w_info w)) else w_editors w = []))"
  using edit_run_inv [of uuid v es] by (auto simp: page_inv_def wiz_ok_def split: sum.splits option.splits)

section \<open>Deleting and discarding\<close>

text \<open>A dashboard keeps a panel once it has one.\<close>

lemma mount_tab_panels: "mount_tab s = Inr s' \<Longrightarrow> ep_panels s' = ep_panels s"
  by (auto simp: mount_tab_def rmap_def rbind_Inr_iff split: if_splits)

lemma foldr_groups_panels: "groups_effect uuid v s = Inr s' \<Longrightarrow> ep_panels s' = [] \<Longrightarrow> concat (map g_panels (ep_groups s)) = []"
  using getAllSelectedPanels_fst [of "pv_configure v" "pv_activePanelID v" "pv_url v" "ep_groups s"]
  by (auto simp: groups_effect_def Let_def case_prod_beta dest!: mount_tab_panels split: if_splits)

lemma edit_step_keeps_a_panel:
  assumes "edit_step uuid v e s = Inr s'" and "ep_panels s \<noteq> []" and "ep_groups s \<noteq> []"
  shows "ep_panels s' \<noteq> []"
proof (cases e)
  case (ep_panel we)
  then show ?thesis using assms(1,2)
    by (auto simp: panel_event_def rbind_Inr_iff Let_def handed_over_def handleUpdatePanel_def dest!: mount_tab_panels
        split: option.splits if_splits)
next
  case ep_discard
  then show ?thesis using assms(1,2)
    by (auto simp: handleDiscardChanges_def rbind_Inr_iff dest!: mount_tab_panels split: if_splits prod.splits)
       (metis list_update_nonempty)
next
  case ep_delete
  have "length (ep_panels s) > 1 \<Longrightarrow> remove_at (ep_tab s) (ep_panels s) \<noteq> []"
    by (cases "ep_tab s < length (ep_panels s)") (auto simp: remove_at_beyond simp flip: length_greater_0_conv)
  then show ?thesis using assms(1,2) ep_delete
    by (auto simp: handleDeletePanel_def dest!: mount_tab_panels split: if_splits)
qed (use assms in \<open>auto simp: handleChange_tab_def vars_effect_def dest!: mount_tab_panels split: if_splits\<close>)

text \<open>Discarding gives a stored panel back as it was opened, whatever has been edited: the panel keeps its
  identifier, by which it is found.\<close>

definition panel_ids :: "panel_group list \<Rightarrow> js list" where
  "panel_ids gs = map p_panelID (concat (map g_panels gs))"

lemma restore_stored_found:
  assumes "distinct (panel_ids gs)" and "g \<in> set gs" and "sp \<in> set (g_panels g)" and "p_panelID p = p_panelID sp"
    and "\<not> nullish (p_panelID sp)"
  shows "restore_stored url gs p = restored_panel url g sp"
proof -
  let ?f = "\<lambda>(g, sp) cur. if p_panelID sp = p_panelID cur then restored_panel url g sp else cur"
  let ?prs = "concat (map (\<lambda>g. map (Pair g) (g_panels g)) gs)"
  have ids: "map (p_panelID \<circ> snd) ?prs = panel_ids gs" by (simp add: panel_ids_def map_concat comp_def)
  have skip: "p_panelID cur \<notin> (p_panelID \<circ> snd) ` set xs \<Longrightarrow> fold ?f xs cur = cur" for xs cur
    by (induction xs) auto
  have "(g, sp) \<in> set ?prs" using assms(2,3) by auto
  then obtain xs ys where xs: "?prs = xs @ (g, sp) # ys" using split_list by metis
  have d: "distinct (map (p_panelID \<circ> snd) (xs @ (g, sp) # ys))" using assms(1) ids xs by simp
  have id: "p_panelID (restored_panel url g sp) = p_panelID sp" using assms(5) by (simp add: restored_panel_def)
  have "fold ?f (xs @ (g, sp) # ys) p = restored_panel url g sp"
    using d assms(4) skip [of p xs] skip [of "restored_panel url g sp" ys] id by auto
  then show ?thesis by (simp add: restore_stored_def xs)
qed

text \<open>The panel as the page shows it when it is opened.\<close>

definition opened_panel :: "js \<Rightarrow> panel_group \<Rightarrow> panel \<Rightarrow> panel" where
  "opened_panel url g sp = listed_panel url (existing_panel g sp)"

lemma restored_is_opened:
  assumes "\<not> nullish (g_panelGroupName g)"
  shows "restored_panel url g sp = (opened_panel url g sp)\<lparr>p_promQueries := map kept_query (p_promQueries sp)\<rparr>"
  using assms by (simp add: restored_panel_def opened_panel_def listed_panel_def existing_panel_def)

lemma mount_tab_total:
  "ep_panels s = [] \<or> text_queries (ep_panels s ! ep_tab s) \<Longrightarrow> \<exists>s'. mount_tab s = Inr s'"
  using mount_wizard_total [of "ep_panels s ! ep_tab s"] by (auto simp: mount_tab_def rmap_def)

lemma restored_texts: "text_queries sp \<Longrightarrow> text_queries (restored_panel url g sp)"
  by (auto simp: text_queries_def restored_panel_def kept_query_def plain_query_def list_all_iff)

text \<open>
  C25. Whatever was changed, discarding succeeds and puts the stored panel with all its
  queries back in its place, and leaves the other panels as they are.
\<close>

theorem discarding_restores_the_stored_panel:
  assumes "pv_configure v" and "distinct (panel_ids (pv_map v))" and "g \<in> set (pv_map v)" and "sp \<in> set (g_panels g)"
    and "\<not> nullish (p_panelID sp)" and "\<not> nullish (g_panelGroupName g)" and "page_inv s" and "ep_wizard s \<noteq> None"
    and "p_panelID (ep_panels s ! ep_tab s) = p_panelID sp" and "text_queries sp"
  shows "\<exists>s'. edit_step uuid v ep_discard s = Inr s'
    \<and> ep_saved s' = (ep_saved s)[ep_tab s := (opened_panel (pv_url v) g sp)\<lparr>p_promQueries := map kept_query (p_promQueries sp)\<rparr>]"
proof -
  let ?ps = "(ep_panels s)[ep_tab s := restored_panel (pv_url v) g sp]"
  let ?t = "(set_panels ?ps s)\<lparr>ep_drawn := ep_drawn s\<rparr>"
  have "discarded uuid v (ep_drawn s, ep_panels s ! ep_tab s) = Inr (ep_drawn s, restored_panel (pv_url v) g sp)"
    using restore_stored_found [OF assms(2-4,9,5)] assms(1) by (simp add: discarded_def)
  then have step: "edit_step uuid v ep_discard s = mount_tab ?t" using assms(8) by (simp add: handleDiscardChanges_def)
  have "text_queries (restored_panel (pv_url v) g sp)" using assms(10) by (rule restored_texts)
  then obtain s' where s': "mount_tab ?t = Inr s'" using mount_tab_total [of ?t] page_inv_tab [OF assms(7)] by auto
  moreover have "lists_inv ?t" using page_inv_tab [OF assms(7)] by (auto simp: lists_inv_def)
  ultimately have "ep_saved s' = ?ps" using mount_tab_inv by (force simp: page_inv_def)
  then show ?thesis using s' step assms(7) restored_is_opened [OF assms(6)] by (simp add: page_inv_def)
qed

text \<open>A panel that comes from a document is not restored: no panel of the document has a \<open>panelName\<close>.\<close>

lemma reread_exported_panel: "p_panelName cur \<noteq> JUndef \<Longrightarrow> reread_panel uuid url gname (export_panel p) (n, cur) = Inr (n, cur)"
  by (simp add: reread_panel_def export_panel_def)

lemma reread_exported_group: "p_panelName cur \<noteq> JUndef \<Longrightarrow> reread_group uuid url (export_group g) (n, cur) = Inr (n, cur)"
proof -
  assume u: "p_panelName cur \<noteq> JUndef"
  have "foldR (reread_panel uuid url gname) (map export_panel ps) (n, cur) = Inr (n, cur)" for gname ps
    using u by (induction ps) (simp_all add: reread_exported_panel)
  then show ?thesis by (simp add: reread_group_def export_group_def)
qed

text \<open>
  C26. For a dashboard made from a downloaded document, discarding succeeds and restores
  nothing: all changes are kept.
\<close>

theorem discarding_a_template_panel_keeps_the_changes:
  assumes "\<not> pv_configure v" and "pv_typeID v \<noteq> JStr ''custom''" and "pv_json v = getDashboard d"
    and "page_inv s" and "ep_wizard s \<noteq> None" and "p_panelName (ep_panels s ! ep_tab s) \<noteq> JUndef"
    and "text_queries (ep_panels s ! ep_tab s)"
  shows "\<exists>s'. edit_step uuid v ep_discard s = Inr s' \<and> ep_saved s' = ep_saved s"
proof -
  let ?p = "ep_panels s ! ep_tab s" and ?t = "(set_panels (ep_panels s) s)\<lparr>ep_drawn := ep_drawn s\<rparr>"
  have "foldR (reread_group uuid (pv_url v)) (map export_group gs) (n, ?p) = Inr (n, ?p)" for gs n
    using assms(6) by (induction gs) (simp_all add: reread_exported_group)
  then have "discarded uuid v (ep_drawn s, ?p) = Inr (ep_drawn s, ?p)"
    using assms(1-3) by (simp add: discarded_def getDashboard_def)
  then have step: "edit_step uuid v ep_discard s = mount_tab ?t" using assms(5) by (simp add: handleDiscardChanges_def)
  obtain s' where s': "mount_tab ?t = Inr s'" using mount_tab_total [of ?t] assms(7) by auto
  moreover have "lists_inv ?t" using page_inv_tab [OF assms(4)] by (auto simp: lists_inv_def)
  ultimately have "ep_saved s' = ep_panels s" using mount_tab_inv by (fastforce simp: page_inv_def)
  then show ?thesis using s' step assms(4) by (simp add: page_inv_def)
qed

end
