(* ===== verification/DashForm.thy ===== *)
theory DashForm
  imports DashQueries
begin

text \<open>
  The first steps of the dashboard wizard: choosing a template or a document
  (\<open>ChooseADashboardType\<close>, its cards and \<open>UploadDashboard\<close>), the form with the dashboard's
  metadata (\<open>ConfigureDashboardMetadata/Form\<close>) and the choice of its panels (\<open>SelectTheMetrics\<close>).

  The server's replies, parsed JSON included, and the user's choices are arguments. Fields that a
  document fills are \<open>js\<close> values. The updates of one commit are batched: of two that replace
  the form's details, the second wins.
\<close>

section \<open>What the wizard carries from step to step\<close>

record dash_vars =
  dv_id :: js
  dv_name :: js
  dv_typeID :: js
  dv_typeName :: js
  dv_dsType :: js
  dv_dsID :: js
  dv_dsURL :: js
  dv_event :: js
  dv_verdict :: js
  dv_agentID :: js
  dv_information :: js
  dv_panelGroupMap :: "panel_group list"
  dv_panelGroups :: "panel_group list"
  dv_selected :: "group_names list"
  dv_applications :: "app_meta list"

definition blank_vars :: dash_vars where
  "blank_vars = \<lparr>dv_id = JStr '''', dv_name = JStr '''', dv_typeID = JStr '''', dv_typeName = JStr '''', dv_dsType = JStr '''',
     dv_dsID = JStr '''', dv_dsURL = JStr '''', dv_event = JStr '''', dv_verdict = JStr '''', dv_agentID = JStr '''',
     dv_information = JStr '''', dv_panelGroupMap = [], dv_panelGroups = [], dv_selected = [], dv_applications = []\<rparr>"

text \<open>The slice of the store that the steps share.\<close>

record dash_store =
  ss_selectedDashboardID :: js
  ss_dashboardJSON :: js

section \<open>Templates and documents\<close>

record dash_card =
  dc_typeID :: js
  dc_typeName :: js
  dc_icon :: string
  dc_information :: js
  dc_json :: js

definition addCustomAndUploadDashboardCards :: "dash_card list \<Rightarrow> dash_card list" where
  "addCustomAndUploadDashboardCards ds = ds @
     [\<lparr>dc_typeID = JStr ''custom'', dc_typeName = JStr ''Custom dashboard'', dc_icon = ''./icons/custom_dashboard.svg'',
       dc_information = JStr ''Create your own custom dashboard'', dc_json = JUndef\<rparr>,
      \<lparr>dc_typeID = JStr ''upload'', dc_typeName = JStr ''Upload a dashboard'', dc_icon = ''./icons/upload-json.svg'',
       dc_information = JStr ''Create a dashboard by uploading a json file'', dc_json = JUndef\<rparr>]"

text \<open>The hub's templates, each as its parsed text; identifiers of templates are texts.\<close>

definition template_card :: "js result \<Rightarrow> dash_card result" where
  "template_card parsed = rbind parsed (\<lambda>d. rbind (js_get ''dashboardID'' d) (\<lambda>tid. rbind (js_get ''name'' d) (\<lambda>name.
     rbind (js_get ''information'' d) (\<lambda>inf.
     Inr \<lparr>dc_typeID = tid, dc_typeName = name, dc_icon = ''./icons/'' @ text_of tid @ ''_dashboard.svg'',
       dc_information = inf, dc_json = d\<rparr>))))"

definition portal_dashboards :: "js result list option \<Rightarrow> dash_card list result" where
  "portal_dashboards reply = rmap addCustomAndUploadDashboardCards
     (mapR template_card (case reply of None \<Rightarrow> [] | Some ds \<Rightarrow> ds))"

definition DEFAULT_HUB_NAME :: string where
  "DEFAULT_HUB_NAME = ''Litmus ChaosHub''"

record hub_status =
  hs_name :: string
  hs_isAvailable :: bool

text \<open>The hub whose templates are asked for; with none there are only the two cards and an alert.\<close>

definition hub_asked :: "hub_status list option \<Rightarrow> string option" where
  "hub_asked hubs = (let names = (case hubs of None \<Rightarrow> [] | Some hs \<Rightarrow> map hs_name (filter hs_isAvailable hs)) in
     if names = [] then None else Some (if DEFAULT_HUB_NAME \<in> set names then DEFAULT_HUB_NAME else hd names))"

text \<open>Dropping a file and choosing one differ in which names they take.\<close>

definition dropped_json :: "string \<Rightarrow> bool" where
  "dropped_json fname = (case js_split fname ''.'' of _ # ext # _ \<Rightarrow> ext = ''json'' | _ \<Rightarrow> False)"

definition chosen_json :: "string \<Rightarrow> bool" where
  "chosen_json fname \<longleftrightarrow> last (js_split fname ''.'') = ''json''"

definition first_query_name :: "js \<Rightarrow> js result" where
  "first_query_name d = rbind (rbind (js_get ''panelGroups'' d) (js_idx 0)) (\<lambda>g. rbind (rbind (js_get ''panels'' g) (js_idx 0)) (\<lambda>p.
     rbind (rbind (js_get ''prom_queries'' p) (js_idx 0)) (js_get ''prom_query_name'')))"

text \<open>The document goes into the store before it is looked at; whether the wizard may go on.\<close>

definition upload_document :: "js result \<Rightarrow> dash_store \<Rightarrow> bool \<times> dash_store" where
  "upload_document parsed st = (case parsed of Inl e \<Rightarrow> (False, st)
     | Inr d \<Rightarrow> (case first_query_name d of Inl e \<Rightarrow> False | Inr v \<Rightarrow> truthy v,
         \<lparr>ss_selectedDashboardID = JStr ''upload'', ss_dashboardJSON = d\<rparr>))"

section \<open>The form\<close>

record agent_info =
  ag_clusterID :: string
  ag_isActive :: bool
  ag_isClusterConfirmed :: bool
  ag_isRegistered :: bool

record source_info =
  so_dsID :: string
  so_dsURL :: string
  so_healthStatus :: string

record meta_form =
  fm_details :: dash_vars
  fm_available :: "app_meta list"
  fm_resource :: string
  fm_namespaces :: "js list"
  fm_agents :: "agent_info list"
  fm_sources :: "source_info list"

definition find_meta :: "js \<Rightarrow> app_meta list \<Rightarrow> app_meta result" where
  "find_meta ns ams = (case filter (\<lambda>a. am_namespace a = ns) ams of [] \<Rightarrow> Inl TypeErr | a # _ \<Rightarrow> Inr a)"

definition push_app :: "js \<Rightarrow> resource \<Rightarrow> app_meta list \<Rightarrow> app_meta list" where
  "push_app ns r ams = (case filter (\<lambda>(i, a). am_namespace a = ns) (enumerate 0 ams) of
      [] \<Rightarrow> ams @ [\<lparr>am_namespace = ns, am_applications = [r]\<rparr>]
    | hits \<Rightarrow> (let (i, a) = last hits in ams[i := a\<lparr>am_applications := am_applications a @ [r]\<rparr>]))"

text \<open>The names of an application that the cluster has; without names nothing is looked up.\<close>

definition available_names :: "js \<Rightarrow> app_meta \<Rightarrow> js list \<Rightarrow> js list result" where
  "available_names kind a names = (if names = [] then Inr [] else
     (case filter (\<lambda>r. res_kind r = kind) (am_applications a) of [] \<Rightarrow> Inl TypeErr
      | r # _ \<Rightarrow> Inr (filter (\<lambda>x. x \<in> set (res_names r)) names)))"

definition select_app :: "app_meta list \<Rightarrow> js \<Rightarrow> js \<Rightarrow> app_meta list \<Rightarrow> app_meta list result" where
  "select_app avail ns v acc = rbind (find_meta ns avail) (\<lambda>a. rbind (js_get ''kind'' v) (\<lambda>kind.
     rbind (rbind (js_get ''names'' v) js_elems) (\<lambda>names. rbind (available_names kind a names) (\<lambda>xs.
     Inr (if xs = [] then acc else push_app ns \<lparr>res_kind = kind, res_names = xs\<rparr> acc)))))"

definition getSelectedApps :: "app_meta list \<Rightarrow> js \<Rightarrow> app_meta list result" where
  "getSelectedApps avail json = rbind (js_get ''applicationMetadataMap'' json) (\<lambda>m.
     if \<not> truthy m then Inr [] else rbind (js_elems m) (\<lambda>vs. foldR (\<lambda>v acc.
       rbind (js_get ''namespace'' v) (\<lambda>ns. rbind (rbind (js_get ''applications'' v) js_elems) (\<lambda>apps.
       foldR (select_app avail ns) apps acc))) vs []))"

definition DEFAULT_CHAOS_EVENT_PROMETHEUS_QUERY :: string where
  "DEFAULT_CHAOS_EVENT_PROMETHEUS_QUERY = ''litmuschaos_awaited_experiments{job='' @ [CHR 0x22] @ ''chaos-exporter'' @ [CHR 0x22]
     @ '', chaos_injection_time!='' @ [CHR 0x22, CHR 0x22] @ '', instance='' @ [CHR 0x22] @ ''chaos-exporter-service'' @ [CHR 0x22] @ ''}''"

definition DEFAULT_CHAOS_VERDICT_PROMETHEUS_QUERY :: string where
  "DEFAULT_CHAOS_VERDICT_PROMETHEUS_QUERY = ''litmuschaos_experiment_verdict{job='' @ [CHR 0x22] @ ''chaos-exporter'' @ [CHR 0x22]
     @ '', chaosresult_verdict!='' @ [CHR 0x22] @ ''Awaited'' @ [CHR 0x22] @ '', instance='' @ [CHR 0x22]
     @ ''chaos-exporter-service'' @ [CHR 0x22] @ ''}''"

definition from_json :: "js \<Rightarrow> string \<Rightarrow> string \<Rightarrow> js" where
  "from_json json k dflt = (if truthy json then fld k json else JStr dflt)"

definition is_upload :: "bool \<Rightarrow> dash_store \<Rightarrow> bool" where
  "is_upload configure st \<longleftrightarrow> \<not> configure \<and> ss_selectedDashboardID st = JStr ''upload''"

definition form_details_init :: "bool \<Rightarrow> dash_store \<Rightarrow> dash_vars \<Rightarrow> dash_vars result" where
  "form_details_init configure st vs = (let json = ss_dashboardJSON st in
     rbind (if is_upload configure st then getSelectedApps [] json else Inr (dv_applications vs)) (\<lambda>apps.
     Inr (if configure then vs\<lparr>dv_selected := []\<rparr>
       else \<lparr>dv_id = JStr '''', dv_name = from_json json ''name'' ''custom'', dv_typeID = from_json json ''dashboardID'' ''custom'',
         dv_typeName = from_json json ''name'' ''Custom'', dv_dsType = JStr ''Prometheus'', dv_dsID = dv_dsID vs,
         dv_dsURL = dv_dsURL vs,
         dv_event = from_json json ''chaosEventQueryTemplate'' DEFAULT_CHAOS_EVENT_PROMETHEUS_QUERY,
         dv_verdict = from_json json ''chaosVerdictQueryTemplate'' DEFAULT_CHAOS_VERDICT_PROMETHEUS_QUERY,
         dv_agentID = dv_agentID vs, dv_information = from_json json ''information'' ''Customized dashboard'',
         dv_panelGroupMap = dv_panelGroupMap vs, dv_panelGroups = dv_panelGroups vs, dv_selected = [],
         dv_applications = apps\<rparr>)))"

text \<open>Mounting dispatches that the document has been taken over.\<close>

definition store_mounted :: "bool \<Rightarrow> dash_store \<Rightarrow> dash_store" where
  "store_mounted configure st = (if is_upload configure st then st\<lparr>ss_selectedDashboardID := JStr ''''\<rparr> else st)"

definition required_fields :: "dash_vars \<Rightarrow> js list" where
  "required_fields d = [dv_name d, dv_typeID d, dv_typeName d, dv_dsType d, dv_dsID d, dv_dsURL d, dv_event d, dv_verdict d,
     dv_agentID d, dv_information d]"

definition lacks_panels :: "dash_vars \<Rightarrow> bool" where
  "lacks_panels d \<longleftrightarrow> dv_panelGroupMap d = [] \<or> dv_panelGroups d = []"

definition next_refused :: "bool \<Rightarrow> dash_vars \<Rightarrow> bool" where
  "next_refused configure d \<longleftrightarrow> JStr '''' \<in> set (required_fields d)
     \<or> (configure \<and> (dv_id d = JStr '''' \<or> lacks_panels d))"

text \<open>The check of the effect on new variables has no look at the identifier.\<close>

definition next_refused_again :: "dash_vars \<Rightarrow> bool" where
  "next_refused_again d \<longleftrightarrow> JStr '''' \<in> set (required_fields d) \<or> lacks_panels d"

definition handleMetadataUpdate :: "dash_vars \<Rightarrow> dash_vars \<Rightarrow> dash_vars" where
  "handleMetadataUpdate d vs = \<lparr>dv_id = text_or_empty (dv_id d), dv_name = text_or_empty (dv_name d),
     dv_typeID = text_or_empty (dv_typeID d), dv_typeName = text_or_empty (dv_typeName d),
     dv_dsType = text_or_empty (dv_dsType d), dv_dsID = text_or_empty (dv_dsID d), dv_dsURL = text_or_empty (dv_dsURL d),
     dv_event = text_or_empty (dv_event d), dv_verdict = text_or_empty (dv_verdict d),
     dv_agentID = text_or_empty (dv_agentID d), dv_information = text_or_empty (dv_information d),
     dv_panelGroupMap = dv_panelGroupMap d, dv_panelGroups = dv_panelGroups d, dv_selected = dv_selected vs,
     dv_applications = dv_applications d\<rparr>"

section \<open>Effects and handlers of the form\<close>

record form_env =
  fe_configure :: bool
  fe_sources :: "source_info list"

type_synonym form_result = "meta_form \<times> bool \<times> dash_vars"

definition active_agents :: "agent_info list \<Rightarrow> agent_info list" where
  "active_agents as = filter (\<lambda>a. ag_isActive a \<and> ag_isClusterConfirmed a \<and> ag_isRegistered a) as"

definition active_sources :: "source_info list \<Rightarrow> source_info list" where
  "active_sources ss = filter (\<lambda>s. so_healthStatus s = ''Active'') ss"

definition first_text :: "('a \<Rightarrow> string) \<Rightarrow> 'a list \<Rightarrow> js" where
  "first_text f xs = (case xs of [] \<Rightarrow> JStr '''' | x # _ \<Rightarrow> JStr (f x))"

definition with_agent :: "agent_info list \<Rightarrow> dash_vars \<Rightarrow> dash_vars" where
  "with_agent as d = d\<lparr>dv_agentID := first_text ag_clusterID (active_agents as)\<rparr>"

definition with_source :: "source_info list \<Rightarrow> dash_vars \<Rightarrow> dash_vars" where
  "with_source ss d = d\<lparr>dv_dsID := first_text so_dsID (active_sources ss), dv_dsURL := first_text so_dsURL (active_sources ss)\<rparr>"

definition lacks_agent :: "bool \<Rightarrow> dash_vars \<Rightarrow> bool" where
  "lacks_agent configure d \<longleftrightarrow> dv_agentID d = JStr '''' \<and> \<not> configure"

definition lacks_source :: "bool \<Rightarrow> dash_vars \<Rightarrow> bool" where
  "lacks_source configure d \<longleftrightarrow> dv_dsID d = JStr '''' \<and> \<not> configure"

definition getSelectedAppNamespaces :: "dash_vars \<Rightarrow> js list" where
  "getSelectedAppNamespaces d = map am_namespace (dv_applications d)"

text \<open>Handing the details over; a stored dashboard's form takes the wizard's variables back.\<close>

definition form_update :: "form_env \<Rightarrow> dash_vars \<Rightarrow> meta_form \<Rightarrow> dash_vars \<Rightarrow> form_result" where
  "form_update env d f vs = (let vs' = handleMetadataUpdate d vs in
     if fe_configure env then (f\<lparr>fm_details := vs'\<rparr>, next_refused_again d, vs')
     else (f\<lparr>fm_details := d\<rparr>, next_refused False d, vs'))"

text \<open>Mounting: every effect starts from the first details.\<close>

definition mounted_details :: "form_env \<Rightarrow> dash_store \<Rightarrow> agent_info list \<Rightarrow> dash_vars \<Rightarrow> dash_vars \<Rightarrow> dash_vars" where
  "mounted_details env st as vs d0 =
     (if fe_configure env then vs
      else if is_upload False st then d0
      else if lacks_source False d0 then with_source (fe_sources env) d0
      else if lacks_agent False d0 then with_agent as d0 else d0)"

definition form_mount :: "form_env \<Rightarrow> dash_store \<Rightarrow> agent_info list \<Rightarrow> dash_vars \<Rightarrow> form_result result" where
  "form_mount env st as vs = rbind (form_details_init (fe_configure env) st vs) (\<lambda>d0.
     let d = mounted_details env st as vs d0;
         f = \<lparr>fm_details = d, fm_available = [], fm_resource = ''pods'',
              fm_namespaces = if fe_configure env then getSelectedAppNamespaces d0 else [],
              fm_agents = active_agents as, fm_sources = active_sources (fe_sources env)\<rparr>
     in Inr (if fe_configure env then (f, next_refused_again d0, vs)
        else if lacks_agent False d0 \<or> lacks_source False d0 then form_update env d f vs
        else (f, next_refused False d0, vs)))"

definition getSelectedDsURL :: "source_info list \<Rightarrow> string \<Rightarrow> string" where
  "getSelectedDsURL ss i = fold (\<lambda>s acc. if so_dsID s = i then so_dsURL s else acc) ss ''''"

definition kube_names :: "js \<Rightarrow> js list \<Rightarrow> js list result" where
  "kube_names v acc = rbind (js_get ''name'' v) (\<lambda>x. Inr (if nullish x then acc else acc @ [x]))"

definition kube_app :: "string \<Rightarrow> js \<Rightarrow> app_meta result" where
  "kube_app res v = rbind (js_get ''namespace'' v) (\<lambda>ns. rbind (js_get ''data'' v) (\<lambda>dat.
     rbind (if nullish dat then Inr [] else rbind (js_elems dat) (\<lambda>xs. foldR kube_names xs [])) (\<lambda>names.
     Inr \<lparr>am_namespace = ns, am_applications = [\<lparr>res_kind = JStr res, res_names = names\<rparr>]\<rparr>)))"

text \<open>What was read before an exception is kept.\<close>

fun until_error :: "('a \<Rightarrow> 'b result) \<Rightarrow> 'a list \<Rightarrow> 'b list" where
  "until_error f [] = []"
| "until_error f (x # xs) = (case f x of Inl e \<Rightarrow> [] | Inr y \<Rightarrow> y # until_error f xs)"

definition kubeSubscriptionComplete :: "string \<Rightarrow> js result \<Rightarrow> app_meta list" where
  "kubeSubscriptionComplete res parsed = (case rbind parsed js_elems of Inl e \<Rightarrow> [] | Inr vs \<Rightarrow> until_error (kube_app res) vs)"

text \<open>The options of the applications, one text each, and what a choice of them stands for.\<close>

definition singular :: "string \<Rightarrow> string" where
  "singular res = js_substring res 0 (int (length res) - 1)"

definition app_options :: "meta_form \<Rightarrow> js \<Rightarrow> app_meta \<Rightarrow> string list" where
  "app_options f ns a = (if ns \<noteq> am_namespace a then [] else
     (case filter (\<lambda>r. res_kind r = JStr (fm_resource f)) (am_applications a) of [] \<Rightarrow> []
      | r # _ \<Rightarrow> map (\<lambda>x. text_of ns @ '' / '' @ singular (fm_resource f) @ '' / '' @ text_of x) (res_names r)))"

definition getAvailableApplications :: "meta_form \<Rightarrow> string list" where
  "getAvailableApplications f = concat (map (\<lambda>a. concat (map (\<lambda>ns. app_options f ns a) (fm_namespaces f))) (fm_available f))"

definition getSelectedAppDetails :: "app_meta list \<Rightarrow> string list" where
  "getSelectedAppDetails ams = concat (map (\<lambda>a. concat (map (\<lambda>r. map (\<lambda>x.
     text_of (am_namespace a) @ '' / '' @ text_of (res_kind r) @ '' / '' @ text_of x) (res_names r)) (am_applications a))) ams)"

definition chip_parts :: "string \<Rightarrow> (string \<times> string \<times> string) result" where
  "chip_parts s = (case js_split s ''/'' of ns # kind # app # _ \<Rightarrow> Inr (js_trim ns, js_trim kind, js_trim app) | _ \<Rightarrow> Inl TypeErr)"

definition put_kind :: "string \<Rightarrow> string \<Rightarrow> resource list \<Rightarrow> resource list" where
  "put_kind kind app rs = (if list_ex (\<lambda>r. res_kind r = JStr kind) rs
     then map (\<lambda>r. if res_kind r = JStr kind then r\<lparr>res_names := res_names r @ [JStr app]\<rparr> else r) rs
     else rs @ [\<lparr>res_kind = JStr kind, res_names = [JStr app]\<rparr>])"

definition put_app :: "string \<times> string \<times> string \<Rightarrow> app_meta list \<Rightarrow> app_meta list" where
  "put_app c ams = (case c of (ns, kind, app) \<Rightarrow>
     if list_ex (\<lambda>a. am_namespace a = JStr ns) ams
     then map (\<lambda>a. if am_namespace a = JStr ns then a\<lparr>am_applications := put_kind kind app (am_applications a)\<rparr> else a) ams
     else ams @ [\<lparr>am_namespace = JStr ns, am_applications = [\<lparr>res_kind = JStr kind, res_names = [JStr app]\<rparr>]\<rparr>])"

definition read_chips :: "string list \<Rightarrow> app_meta list result" where
  "read_chips cs = foldR (\<lambda>s acc. rmap (\<lambda>c. put_app c acc) (chip_parts s)) cs []"

definition takes_apps :: "dash_vars \<Rightarrow> bool" where
  "takes_apps d \<longleftrightarrow> dv_typeID d = JStr ''custom'' \<or> prefix ''generic'' (text_of (dv_typeID d))"

datatype form_event =
    f_name string
  | f_agent string
  | f_source string
  | f_apps "string list"
  | f_namespaces "js list"
  | f_resource string
  | f_agents "agent_info list"
  | f_kube "js result"

definition agents_effect :: "form_env \<Rightarrow> agent_info list \<Rightarrow> meta_form \<times> bool \<times> dash_vars \<Rightarrow> form_result" where
  "agents_effect env as r = (case r of (f, dis, vs) \<Rightarrow> let f' = f\<lparr>fm_agents := active_agents as\<rparr> in
     if lacks_agent (fe_configure env) (fm_details f) then form_update env (with_agent as (fm_details f)) f' vs else (f', dis, vs))"

fun form_handle :: "form_env \<Rightarrow> form_event \<Rightarrow> form_result \<Rightarrow> form_result result" where
  "form_handle env (f_name s) (f, dis, vs) = Inr (form_update env ((fm_details f)\<lparr>dv_name := JStr s\<rparr>) f vs)"
| "form_handle env (f_agent i) (f, dis, vs) = Inr (form_update env ((fm_details f)\<lparr>dv_agentID := JStr i\<rparr>) f vs)"
| "form_handle env (f_source i) (f, dis, vs) = Inr (form_update env ((fm_details f)\<lparr>dv_dsID := JStr i,
     dv_dsURL := JStr (getSelectedDsURL (fe_sources env) i)\<rparr>) f vs)"
| "form_handle env (f_apps cs) (f, dis, vs) = (if \<not> takes_apps (fm_details f) then Inr (f, dis, vs)
     else rmap (\<lambda>ams. form_update env ((fm_details f)\<lparr>dv_applications := ams\<rparr>) f vs) (read_chips cs))"
| "form_handle env (f_namespaces ns) (f, dis, vs) = Inr (f\<lparr>fm_namespaces := ns\<rparr>, dis, vs)"
| "form_handle env (f_resource r) (f, dis, vs) = Inr (f\<lparr>fm_resource := r\<rparr>, dis, vs)"
| "form_handle env (f_agents as) (f, dis, vs) = Inr (agents_effect env as (f, dis, vs))"
| "form_handle env (f_kube parsed) (f, dis, vs) =
     Inr (f\<lparr>fm_available := kubeSubscriptionComplete (fm_resource f) parsed\<rparr>, dis, vs)"

definition configure_onNext :: "string \<Rightarrow> bool \<times> bool" where
  "configure_onNext role = (if role = ''Viewer'' then (False, True) else (True, False))"

section \<open>Choosing the panels\<close>

definition empty_names :: "js \<Rightarrow> group_names result" where
  "empty_names g = rmap (\<lambda>name. \<lparr>gm_groupName = name, gm_panels = []\<rparr>) (js_get ''groupName'' g)"

definition metrics_init :: "js \<Rightarrow> dash_vars \<Rightarrow> group_names list result" where
  "metrics_init json vs = (if dv_selected vs \<noteq> [] then Inr (dv_selected vs)
     else if truthy json \<and> truthy (fld ''panelGroupMap'' json)
     then rbind (js_elems (fld ''panelGroupMap'' json)) (mapR empty_names) else Inr [])"

definition toggle_panel :: "js \<Rightarrow> group_names \<Rightarrow> group_names" where
  "toggle_panel p g = g\<lparr>gm_panels := if p \<in> set (gm_panels g) then filter (\<lambda>x. x \<noteq> p) (gm_panels g) else gm_panels g @ [p]\<rparr>"

definition select_metric :: "js \<Rightarrow> nat \<Rightarrow> group_names list \<Rightarrow> group_names list" where
  "select_metric p i sel = (if i < length sel then sel[i := toggle_panel p (sel ! i)] else sel)"

definition metric_count :: "group_names list \<Rightarrow> nat" where
  "metric_count sel = sum_list (map (length \<circ> gm_panels) sel)"

definition metrics_refused :: "group_names list \<Rightarrow> bool" where
  "metrics_refused sel \<longleftrightarrow> sel = [] \<or> metric_count sel = 0"

section \<open>Applications chosen as texts\<close>

text \<open>Texts that survive being split at slashes and trimmed.\<close>

definition tight :: "js \<Rightarrow> bool" where
  "tight v = (case v of JStr s \<Rightarrow> s \<noteq> '''' \<and> CHR ''/'' \<notin> set s \<and> \<not> js_space (hd s) \<and> \<not> js_space (last s) | _ \<Rightarrow> False)"

definition apps_ok :: "app_meta list \<Rightarrow> bool" where
  "apps_ok ams \<longleftrightarrow> distinct (map am_namespace ams) \<and> list_all (\<lambda>a. tight (am_namespace a) \<and> am_applications a \<noteq> []
     \<and> distinct (map res_kind (am_applications a))
     \<and> list_all (\<lambda>r. tight (res_kind r) \<and> res_names r \<noteq> [] \<and> list_all tight (res_names r)) (am_applications a)) ams"

lemma trim_padded:
  assumes "tight (JStr s)"
  shows "js_trim (s @ '' '') = s" "js_trim ('' '' @ s @ '' '') = s" "js_trim ('' '' @ s) = s"
proof -
  have "dropWhile js_space s = s" using assms by (cases s) (auto simp: tight_def)
  moreover have "dropWhile js_space (rev s) = rev s" using assms by (cases s rule: rev_cases) (auto simp: tight_def)
  moreover have "js_space CHR '' ''" by (simp add: js_space_def)
  moreover have "dropWhile js_space (s @ '' '') = s @ '' ''" using assms by (cases s) (auto simp: tight_def)
  ultimately show "js_trim (s @ '' '') = s" "js_trim ('' '' @ s @ '' '') = s" "js_trim ('' '' @ s) = s"
    by (simp_all add: js_trim_def)
qed

lemma chip_parts_of:
  assumes "tight (JStr ns)" "tight (JStr kind)" "tight (JStr app)"
  shows "chip_parts (ns @ '' / '' @ kind @ '' / '' @ app) = Inr (ns, kind, app)"
proof -
  have parts: "c \<notin> set s \<Longrightarrow> c \<notin> set t \<Longrightarrow> c \<notin> set u \<Longrightarrow> js_split (s @ c # t @ c # u) [c] = [s, t, u]" for c s t u
    by (simp add: js_split_def split_on_char split_on_absent find_sub_singleton_None)
  have "js_split ((ns @ '' '') @ CHR ''/'' # ('' '' @ kind @ '' '') @ CHR ''/'' # ('' '' @ app)) ''/''
      = [ns @ '' '', '' '' @ kind @ '' '', '' '' @ app]"
    using assms by (intro parts) (auto simp: tight_def)
  then show ?thesis using trim_padded [OF assms(1)] trim_padded [OF assms(2)] trim_padded [OF assms(3)]
    by (simp add: chip_parts_def)
qed

definition name_chips :: "string \<Rightarrow> string \<Rightarrow> js list \<Rightarrow> string list" where
  "name_chips ns kind xs = map (\<lambda>x. ns @ '' / '' @ kind @ '' / '' @ text_of x) xs"

definition chip_step :: "string \<Rightarrow> app_meta list \<Rightarrow> app_meta list result" where
  "chip_step s acc = rmap (\<lambda>c. put_app c acc) (chip_parts s)"

lemma read_chips_fold: "read_chips cs = foldR chip_step cs []"
  by (simp add: read_chips_def chip_step_def [abs_def])

lemma tight_text: "tight v \<Longrightarrow> JStr (text_of v) = v"
  by (cases v) (auto simp: tight_def)

text \<open>The names of a kind that is already there, of a new kind, of a new namespace.\<close>

lemma put_names:
  assumes "tight (JStr ns)" "tight (JStr kind)" "list_all tight xs" "JStr ns \<notin> am_namespace ` set ams" "JStr kind \<notin> res_kind ` set rs"
  shows "foldR chip_step (name_chips ns kind xs) (ams @ [\<lparr>am_namespace = JStr ns, am_applications = rs @ [\<lparr>res_kind = JStr kind, res_names = ys\<rparr>]\<rparr>])
    = Inr (ams @ [\<lparr>am_namespace = JStr ns, am_applications = rs @ [\<lparr>res_kind = JStr kind, res_names = ys @ xs\<rparr>]\<rparr>])"
  using assms(3)
proof (induction xs arbitrary: ys)
  case (Cons x xs)
  have keep: "map (\<lambda>a. if am_namespace a = JStr ns then f a else a) ams = ams" for f
    using assms(4) by (intro map_idI) (metis image_eqI)
  have keep2: "map (\<lambda>r. if res_kind r = JStr kind then f r else r) rs = rs" for f
    using assms(5) by (intro map_idI) (metis image_eqI)
  have x: "tight x" "JStr (text_of x) = x" using Cons.prems tight_text by auto
  then have "chip_parts (ns @ '' / '' @ kind @ '' / '' @ text_of x) = Inr (ns, kind, text_of x)"
    using assms(1,2) by (intro chip_parts_of) simp_all
  then have "chip_step (ns @ '' / '' @ kind @ '' / '' @ text_of x) (ams @ [\<lparr>am_namespace = JStr ns, am_applications = rs @ [\<lparr>res_kind = JStr kind, res_names = ys\<rparr>]\<rparr>])
      = Inr (ams @ [\<lparr>am_namespace = JStr ns, am_applications = rs @ [\<lparr>res_kind = JStr kind, res_names = ys @ [x]\<rparr>]\<rparr>])"
    using keep keep2 x(2) by (simp add: chip_step_def put_app_def put_kind_def)
  then show ?case using Cons.IH [of "ys @ [x]"] Cons.prems by (simp add: name_chips_def)
qed (simp add: name_chips_def)

lemma put_first_name:
  assumes "tight (JStr ns)" "tight (JStr kind)" "tight x" "JStr ns \<notin> am_namespace ` set ams"
  shows "chip_step (ns @ '' / '' @ kind @ '' / '' @ text_of x) ams
      = Inr (ams @ [\<lparr>am_namespace = JStr ns, am_applications = [\<lparr>res_kind = JStr kind, res_names = [x]\<rparr>]\<rparr>])"
    and "JStr kind \<notin> res_kind ` set rs \<Longrightarrow>
      chip_step (ns @ '' / '' @ kind @ '' / '' @ text_of x) (ams @ [\<lparr>am_namespace = JStr ns, am_applications = rs\<rparr>])
      = Inr (ams @ [\<lparr>am_namespace = JStr ns, am_applications = rs @ [\<lparr>res_kind = JStr kind, res_names = [x]\<rparr>]\<rparr>])"
proof -
  have x: "JStr (text_of x) = x" using assms(3) by (rule tight_text)
  have c: "chip_parts (ns @ '' / '' @ kind @ '' / '' @ text_of x) = Inr (ns, kind, text_of x)"
    using assms(1-3) x by (intro chip_parts_of) simp_all
  have keep: "map (\<lambda>a. if am_namespace a = JStr ns then f a else a) ams = ams" for f
    using assms(4) by (intro map_idI) (metis image_eqI)
  have no: "\<not> list_ex (\<lambda>a. am_namespace a = JStr ns) ams" using assms(4) unfolding list_ex_iff by (metis image_eqI)
  show "chip_step (ns @ '' / '' @ kind @ '' / '' @ text_of x) ams
      = Inr (ams @ [\<lparr>am_namespace = JStr ns, am_applications = [\<lparr>res_kind = JStr kind, res_names = [x]\<rparr>]\<rparr>])"
    using c no x by (simp add: chip_step_def put_app_def)
  assume "JStr kind \<notin> res_kind ` set rs"
  then have "\<not> list_ex (\<lambda>r. res_kind r = JStr kind) rs" unfolding list_ex_iff by (metis image_eqI)
  then show "chip_step (ns @ '' / '' @ kind @ '' / '' @ text_of x) (ams @ [\<lparr>am_namespace = JStr ns, am_applications = rs\<rparr>])
      = Inr (ams @ [\<lparr>am_namespace = JStr ns, am_applications = rs @ [\<lparr>res_kind = JStr kind, res_names = [x]\<rparr>]\<rparr>])"
    using c keep x by (simp add: chip_step_def put_app_def put_kind_def)
qed

definition kind_ok :: "resource \<Rightarrow> bool" where
  "kind_ok r \<longleftrightarrow> tight (res_kind r) \<and> res_names r \<noteq> [] \<and> list_all tight (res_names r)"

lemma put_kinds:
  assumes "tight (JStr ns)" "JStr ns \<notin> am_namespace ` set ams" "list_all kind_ok qs" "distinct (map res_kind (rs @ qs))"
  shows "foldR chip_step (concat (map (\<lambda>r. name_chips ns (text_of (res_kind r)) (res_names r)) qs)) (ams @ [\<lparr>am_namespace = JStr ns, am_applications = rs\<rparr>])
    = Inr (ams @ [\<lparr>am_namespace = JStr ns, am_applications = rs @ qs\<rparr>])"
  using assms(3,4)
proof (induction qs arbitrary: rs)
  case (Cons q qs)
  obtain x xs where xs: "res_names q = x # xs" "tight x" "list_all tight xs" "tight (res_kind q)"
    using Cons.prems(1) by (cases "res_names q") (auto simp: kind_ok_def)
  let ?k = "text_of (res_kind q)"
  have k: "JStr ?k = res_kind q" using xs(4) by (rule tight_text)
  have "JStr ?k \<notin> res_kind ` set rs" using Cons.prems(2) k by auto
  then have "foldR chip_step (name_chips ns ?k (res_names q)) (ams @ [\<lparr>am_namespace = JStr ns, am_applications = rs\<rparr>])
      = Inr (ams @ [\<lparr>am_namespace = JStr ns, am_applications = rs @ [q]\<rparr>])"
    using put_first_name(2) [of ns ?k x ams rs] put_names [of ns ?k xs ams rs "[x]"] assms(1,2) xs k
    by (simp add: name_chips_def)
  then show ?case using Cons.IH [of "rs @ [q]"] Cons.prems by (simp add: foldR_append)
qed simp

theorem chosen_applications_are_read_back: "apps_ok ams \<Longrightarrow> read_chips (getSelectedAppDetails ams) = Inr ams"
proof -
  have "apps_ok (bs @ ams) \<Longrightarrow> foldR chip_step (getSelectedAppDetails ams) bs = Inr (bs @ ams)" for bs
  proof (induction ams arbitrary: bs)
    case (Cons a ams)
    let ?ns = "text_of (am_namespace a)"
    from Cons.prems have a: "tight (am_namespace a)" "am_applications a \<noteq> []" "distinct (map res_kind (am_applications a))"
      "list_all kind_ok (am_applications a)" "am_namespace a \<notin> am_namespace ` set bs"
      by (auto simp: apps_ok_def kind_ok_def list_all_iff)
    have ns: "JStr ?ns = am_namespace a" using a(1) by (rule tight_text)
    obtain q qs where qs: "am_applications a = q # qs" using a(2) by (cases "am_applications a") auto
    obtain x xs where xs: "res_names q = x # xs" "tight x" "list_all tight xs" "tight (res_kind q)"
      using a(4) qs by (cases "res_names q") (auto simp: kind_ok_def)
    have k: "JStr (text_of (res_kind q)) = res_kind q" using xs(4) by (rule tight_text)
    have "foldR chip_step (name_chips ?ns (text_of (res_kind q)) (res_names q)) bs
        = Inr (bs @ [\<lparr>am_namespace = JStr ?ns, am_applications = [q]\<rparr>])"
      using put_first_name(1) [of ?ns "text_of (res_kind q)" x bs] put_names [of ?ns "text_of (res_kind q)" xs bs "[]" "[x]"] a xs k ns
      by (simp add: name_chips_def)
    moreover have "foldR chip_step (concat (map (\<lambda>r. name_chips ?ns (text_of (res_kind r)) (res_names r)) qs))
          (bs @ [\<lparr>am_namespace = JStr ?ns, am_applications = [q]\<rparr>]) = Inr (bs @ [\<lparr>am_namespace = JStr ?ns, am_applications = [q] @ qs\<rparr>])"
      using put_kinds [of ?ns bs qs "[q]"] a ns qs by simp
    moreover have "\<lparr>am_namespace = JStr ?ns, am_applications = [q] @ qs\<rparr> = a" using ns qs by (cases a) simp
    ultimately have "foldR chip_step (concat (map (\<lambda>r. name_chips ?ns (text_of (res_kind r)) (res_names r)) (am_applications a))) bs = Inr (bs @ [a])"
      by (simp add: qs foldR_append)
    then show ?case using Cons.IH [of "bs @ [a]"] Cons.prems by (simp add: getSelectedAppDetails_def name_chips_def foldR_append)
  qed (simp add: getSelectedAppDetails_def)
  from this [of "[]"] show "apps_ok ams \<Longrightarrow> read_chips (getSelectedAppDetails ams) = Inr ams" by (simp add: read_chips_fold)
qed

section \<open>Documents\<close>

text \<open>A downloaded dashboard with an application cannot be uploaded: the form looks its namespaces up in
  the list of the cluster's applications, which is empty when the form is mounted.\<close>

lemma no_application_found: "list_ex (\<lambda>a. am_applications a \<noteq> []) ams \<Longrightarrow>
  foldR (\<lambda>v acc. rbind (js_get ''namespace'' v) (\<lambda>ns. rbind (rbind (js_get ''applications'' v) js_elems) (\<lambda>apps.
     foldR (select_app [] ns) apps acc))) (map export_application ams) acc = Inl TypeErr"
proof (induction ams)
  case (Cons a ams)
  then show ?case by (cases "am_applications a") (auto simp: export_application_def select_app_def find_meta_def)
qed simp

theorem uploaded_applications_break_the_form:
  assumes "sd_applications d = Some ams" and "list_ex (\<lambda>a. am_applications a \<noteq> []) ams"
    and "first_query_name (getDashboard d) = Inr (JStr (c # cs))"
  shows "case upload_document (Inr (getDashboard d)) st of (ok, st') \<Rightarrow>
    ok \<and> form_mount \<lparr>fe_configure = False, fe_sources = ss\<rparr> st' as vs = Inl TypeErr"
proof -
  have "getSelectedApps [] (getDashboard d) = Inl TypeErr"
    using no_application_found [OF assms(2)] assms(1) by (simp add: getSelectedApps_def getDashboard_def)
  then show ?thesis
    using assms(3) by (simp add: upload_document_def form_mount_def form_details_init_def is_upload_def Let_def)
qed

text \<open>A name with two dots can be chosen but not dropped.\<close>

lemma two_dots: "chosen_json ''my.dashboard.json'' \<and> \<not> dropped_json ''my.dashboard.json''"
  by code_simp

text \<open>Where neither an agent nor a data source is chosen, the data source is set over the agent.\<close>

lemma source_set_over_agent:
  assumes "lacks_agent False d0" and "lacks_source False d0" and "\<not> is_upload False st"
  shows "dv_agentID (mounted_details \<lparr>fe_configure = False, fe_sources = ss\<rparr> st as vs d0) = JStr ''''"
  using assms by (simp add: mounted_details_def with_source_def lacks_agent_def)

text \<open>Choosing a panel twice leaves it as it was, up to its place.\<close>

lemma toggle_panel_twice: "p \<notin> set (gm_panels g) \<Longrightarrow> toggle_panel p (toggle_panel p g) = g"
proof -
  assume "p \<notin> set (gm_panels g)"
  then have "filter (\<lambda>x. x \<noteq> p) (gm_panels g) = gm_panels g" by (intro filter_True) auto
  then show ?thesis using \<open>p \<notin> set (gm_panels g)\<close> by (simp add: toggle_panel_def)
qed

lemma select_metric_others: "i \<noteq> j \<Longrightarrow> select_metric p i sel ! j = sel ! j"
  by (simp add: select_metric_def)

end
