(* ===== verification/DashStepper.thy ===== *)
theory DashStepper
  imports DashForm DashPanels Dashboard
begin

text \<open>
  The dashboard wizard (\<open>MonitoringDashboards/Stepper/index.tsx\<close>) around its pages, from the
  stored dashboard it is opened with (\<open>ChooseAndConfigureDashboards\<close>) to what it sends
  (\<open>TuneTheQueries\<close>). A step is a click, a reply of the server or new variables from the page
  around it, with the effects of the renders after it. The panels of the last page come as the
  event that hands them over (\<open>DashEdit\<close> has the page).
\<close>

section \<open>Pages\<close>

datatype dash_page_kind =
    ChooseADashboardType
  | ConfigureDashboardMetadata
  | SelectTheMetrics
  | TuneTheQueries

definition is_custom :: "dash_vars \<Rightarrow> bool" where
  "is_custom vs \<longleftrightarrow> dv_typeID vs = JStr ''custom''"

definition wizard_pages :: "bool \<Rightarrow> dash_vars \<Rightarrow> dash_page_kind list" where
  "wizard_pages configure vs = (let steps = [ChooseADashboardType, ConfigureDashboardMetadata, SelectTheMetrics, TuneTheQueries] in
     if configure then filter (\<lambda>p. p \<noteq> ChooseADashboardType \<and> p \<noteq> SelectTheMetrics) steps
     else if is_custom vs then filter (\<lambda>p. p \<noteq> SelectTheMetrics) steps else steps)"

text \<open>The switch of the content has its own arithmetic, and an entry for every other index.\<close>

definition getDashStepContent :: "bool \<Rightarrow> dash_vars \<Rightarrow> nat \<Rightarrow> dash_page_kind" where
  "getDashStepContent configure vs i =
     (if \<not> configure \<and> i = 0 then ChooseADashboardType
      else if i = (if \<not> configure then 1 else 0) then ConfigureDashboardMetadata
      else if \<not> configure \<and> \<not> is_custom vs \<and> i = 2 then SelectTheMetrics
      else if i = (if \<not> configure then if \<not> is_custom vs then 3 else 2 else 1) then TuneTheQueries
      else ChooseADashboardType)"

definition alert_text :: "bool \<Rightarrow> string \<Rightarrow> dash_vars \<Rightarrow> nat \<Rightarrow> string" where
  "alert_text configure role vs i =
     (if \<not> configure \<and> i = 0 then (if role = ''Viewer'' then ''step1.messageViewer'' else ''step1.message'')
      else if i = (if \<not> configure then 1 else 0) then ''step2.messageViewer''
      else if \<not> configure \<and> \<not> is_custom vs \<and> i = 2 then ''step3.message''
      else if i = (if \<not> configure then if \<not> is_custom vs then 3 else 2 else 1)
      then (if configure then ''step4.messageConfigure'' else ''step4.messageCreate'')
      else '''')"

section \<open>State\<close>

record dash_input =
  di_dbID :: "js option"
  di_dsID :: js
  di_dbName :: js
  di_dbTypeID :: js
  di_dbTypeName :: js
  di_information :: js
  di_templates :: "(js \<times> js) option"
  di_applications :: "app_meta list"
  di_panelGroups :: "panel_group list"
  di_startTime :: int
  di_endTime :: int
  di_clusterID :: js
  di_refreshRate :: int

record stepper =
  st_step :: nat
  st_vars :: dash_vars
  st_disabledNext :: bool
  st_loading :: bool
  st_alert :: bool
  st_store :: dash_store
  st_form :: "meta_form option"
  st_metrics :: "group_names list"
  st_panels :: "panel list"
  st_proceed :: bool
  st_sent :: "dash_input list"
  st_shown :: "js option"

record stepper_env =
  se_configure :: bool
  se_role :: string
  se_activePanelID :: string
  se_sources :: "source_info list"
  se_agents :: "agent_info list"

definition form_env_of :: "stepper_env \<Rightarrow> form_env" where
  "form_env_of env = \<lparr>fe_configure = se_configure env, fe_sources = se_sources env\<rparr>"

definition first_source :: "stepper_env \<Rightarrow> js \<times> js" where
  "first_source env = (case se_sources env of [] \<Rightarrow> (JStr '''', JStr '''') | s # _ \<Rightarrow> (JStr (so_dsID s), JStr (so_dsURL s)))"

text \<open>The variables of the page around the wizard, before and after the stored dashboard has come.\<close>

definition stored_vars :: "js \<Rightarrow> stored_dashboard \<Rightarrow> dash_vars" where
  "stored_vars i d = \<lparr>dv_id = i, dv_name = sd_dbName d, dv_typeID = sd_dbTypeID d, dv_typeName = sd_dbTypeName d,
     dv_dsType = sd_dsType d, dv_dsID = sd_dsID d, dv_dsURL = sd_dsURL d, dv_event = sd_eventTemplate d,
     dv_verdict = sd_verdictTemplate d, dv_agentID = sd_clusterID d, dv_information = sd_dbInformation d,
     dv_panelGroupMap = getExistingPanelGroupMap (sd_panelGroups d), dv_panelGroups = getExistingPanelGroups (sd_panelGroups d),
     dv_selected = [], dv_applications = getApplicationMetadataMap (sd_applications d)\<rparr>"

definition vars_init :: "stepper_env \<Rightarrow> dash_vars \<Rightarrow> dash_vars" where
  "vars_init env existing = (if se_configure env then (handleMetadataUpdate existing existing)\<lparr>dv_selected := []\<rparr>
     else blank_vars\<lparr>dv_dsID := fst (first_source env), dv_dsURL := snd (first_source env)\<rparr>)"

text \<open>Mounting the page of the current step.\<close>

definition mount_step :: "stepper_env \<Rightarrow> stepper \<Rightarrow> stepper result" where
  "mount_step env s = (case getDashStepContent (se_configure env) (st_vars s) (st_step s) of
      ConfigureDashboardMetadata \<Rightarrow> rbind (form_mount (form_env_of env) (st_store s) (se_agents env) (st_vars s)) (\<lambda>(f, dis, vs).
        Inr (s\<lparr>st_form := Some f, st_disabledNext := dis, st_vars := vs, st_store := store_mounted (se_configure env) (st_store s)\<rparr>))
    | SelectTheMetrics \<Rightarrow> rbind (metrics_init (ss_dashboardJSON (st_store s)) (st_vars s)) (\<lambda>sel.
        Inr (s\<lparr>st_form := None, st_metrics := sel, st_disabledNext := metrics_refused sel, st_alert := st_alert s \<or> sel = []\<rparr>))
    | TuneTheQueries \<Rightarrow> Inr (s\<lparr>st_form := None, st_panels := [], st_proceed := False\<rparr>)
    | ChooseADashboardType \<Rightarrow> Inr (s\<lparr>st_form := None\<rparr>))"

definition stepper_init :: "stepper_env \<Rightarrow> dash_store \<Rightarrow> dash_vars \<Rightarrow> stepper result" where
  "stepper_init env st existing = mount_step env
     \<lparr>st_step = if se_configure env \<and> se_activePanelID env \<noteq> '''' then 1 else 0, st_vars = vars_init env existing,
      st_disabledNext = True, st_loading = False, st_alert = False, st_store = st, st_form = None, st_metrics = [],
      st_panels = [], st_proceed = False, st_sent = [], st_shown = None\<rparr>"

section \<open>Sending\<close>

definition dashboard_input :: "bool \<Rightarrow> int \<Rightarrow> dash_vars \<Rightarrow> panel list \<Rightarrow> dash_input" where
  "dashboard_input configure now vs ps = \<lparr>
     di_dbID = if configure then Some (text_or_empty (dv_id vs)) else None, di_dsID = text_or_empty (dv_dsID vs),
     di_dbName = text_or_empty (dv_name vs), di_dbTypeID = text_or_empty (dv_typeID vs),
     di_dbTypeName = text_or_empty (dv_typeName vs), di_information = text_or_empty (dv_information vs),
     di_templates = if configure then None else Some (text_or_empty (dv_event vs), text_or_empty (dv_verdict vs)),
     di_applications = dv_applications vs, di_panelGroups = getPanelGroups configure ps,
     di_startTime = now - DEFAULT_RELATIVE_TIME_RANGE, di_endTime = now, di_clusterID = text_or_empty (dv_agentID vs),
     di_refreshRate = DEFAULT_REFRESH_RATE\<rparr>"

definition queries_onNext :: "stepper_env \<Rightarrow> int \<Rightarrow> stepper \<Rightarrow> bool \<times> stepper" where
  "queries_onNext env now s = (st_proceed s, s\<lparr>st_loading := True,
     st_sent := st_sent s @ [dashboard_input (se_configure env) now (st_vars s) (st_panels s)]\<rparr>)"

definition step_onNext :: "stepper_env \<Rightarrow> int \<Rightarrow> stepper \<Rightarrow> bool \<times> stepper" where
  "step_onNext env now s = (case getDashStepContent (se_configure env) (st_vars s) (st_step s) of
      SelectTheMetrics \<Rightarrow> (True, s)
    | TuneTheQueries \<Rightarrow> queries_onNext env now s
    | p \<Rightarrow> (case configure_onNext (se_role env) of (go, al) \<Rightarrow> (go, s\<lparr>st_alert := st_alert s \<or> al\<rparr>)))"

definition handleNext :: "stepper_env \<Rightarrow> int \<Rightarrow> stepper \<Rightarrow> stepper result" where
  "handleNext env now s = (case step_onNext env now s of (go, s') \<Rightarrow>
     if go then mount_step env (s'\<lparr>st_step := Suc (st_step s')\<rparr>) else Inr s')"

definition handleBack :: "stepper_env \<Rightarrow> stepper \<Rightarrow> stepper result" where
  "handleBack env s = mount_step env (s\<lparr>st_step := st_step s - 1,
     st_vars := if st_step s = 1 \<and> \<not> se_configure env then blank_vars else st_vars s\<rparr>)"

section \<open>Steps\<close>

datatype dash_step_event =
    s_template js
  | s_custom
  | s_upload "js result"
  | s_form form_event
  | s_metric js nat
  | s_panels "panel list"
  | s_next int
  | s_back
  | s_done js
  | s_failed
  | s_loaded dash_vars
  | s_close_alert

definition at_page :: "stepper_env \<Rightarrow> dash_page_kind \<Rightarrow> stepper \<Rightarrow> bool" where
  "at_page env p s \<longleftrightarrow> getDashStepContent (se_configure env) (st_vars s) (st_step s) = p"

definition choose_json :: "js \<Rightarrow> stepper \<Rightarrow> stepper" where
  "choose_json json s = s\<lparr>st_store := (st_store s)\<lparr>ss_dashboardJSON := json\<rparr>\<rparr>"

text \<open>The next button: on the last page the one above the pages is only off while loading.\<close>

definition next_enabled :: "stepper_env \<Rightarrow> stepper \<Rightarrow> bool" where
  "next_enabled env s \<longleftrightarrow>
     (if at_page env TuneTheQueries s then \<not> st_loading s
      else \<not> at_page env ChooseADashboardType s \<and> \<not> st_disabledNext s)"

definition upload_step :: "stepper_env \<Rightarrow> js result \<Rightarrow> stepper \<Rightarrow> stepper result" where
  "upload_step env parsed s = (case upload_document parsed (st_store s) of (ok, st) \<Rightarrow>
     if ok then handleNext env 0 (s\<lparr>st_store := st\<rparr>) else Inr (s\<lparr>st_store := st, st_alert := True\<rparr>))"

definition metadata_step :: "stepper_env \<Rightarrow> form_event \<Rightarrow> stepper \<Rightarrow> stepper result" where
  "metadata_step env e s = (case st_form s of None \<Rightarrow> Inr s | Some f \<Rightarrow>
     rmap (\<lambda>(f', dis, vs). s\<lparr>st_form := Some f', st_disabledNext := dis, st_vars := vs\<rparr>)
       (form_handle (form_env_of env) e (f, st_disabledNext s, st_vars s)))"

definition metric_step :: "js \<Rightarrow> nat \<Rightarrow> stepper \<Rightarrow> stepper" where
  "metric_step p i s = (let sel = select_metric p i (st_metrics s) in
     s\<lparr>st_metrics := sel, st_disabledNext := metrics_refused sel, st_vars := (st_vars s)\<lparr>dv_selected := sel\<rparr>\<rparr>)"

text \<open>The stored dashboard has come: a shown form takes the variables, judging its old details.\<close>

definition loaded_step :: "dash_vars \<Rightarrow> stepper \<Rightarrow> stepper" where
  "loaded_step vs s = (case st_form s of None \<Rightarrow> s\<lparr>st_vars := vs\<rparr>
     | Some f \<Rightarrow> s\<lparr>st_vars := vs, st_disabledNext := next_refused_again (fm_details f),
         st_form := Some (f\<lparr>fm_details := vs,
           fm_namespaces := if fm_namespaces f = [] then getSelectedAppNamespaces vs else fm_namespaces f\<rparr>)\<rparr>)"

fun dash_wizard_step :: "stepper_env \<Rightarrow> dash_step_event \<Rightarrow> stepper \<Rightarrow> stepper result" where
  "dash_wizard_step env (s_template json) s =
     (if at_page env ChooseADashboardType s then handleNext env 0 (choose_json json s) else Inr s)"
| "dash_wizard_step env s_custom s =
     (if at_page env ChooseADashboardType s then handleNext env 0 (choose_json JNull s) else Inr s)"
| "dash_wizard_step env (s_upload parsed) s = (if at_page env ChooseADashboardType s then upload_step env parsed s else Inr s)"
| "dash_wizard_step env (s_form e) s = metadata_step env e s"
| "dash_wizard_step env (s_metric p i) s = Inr (if at_page env SelectTheMetrics s then metric_step p i s else s)"
| "dash_wizard_step env (s_panels ps) s = Inr (if at_page env TuneTheQueries s then s\<lparr>st_panels := ps\<rparr> else s)"
| "dash_wizard_step env (s_next now) s = (if next_enabled env s then handleNext env now s else Inr s)"
| "dash_wizard_step env s_back s = (if st_step s > 0 then handleBack env s else Inr s)"
| "dash_wizard_step env (s_done i) s = Inr (if st_loading s then s\<lparr>st_loading := False, st_proceed := True,
     st_shown := Some (if se_configure env then text_or_empty (dv_id (st_vars s)) else text_or_empty i)\<rparr> else s)"
| "dash_wizard_step env s_failed s =
     Inr (if st_loading s then s\<lparr>st_alert := True, st_loading := False, st_proceed := False\<rparr> else s)"
| "dash_wizard_step env (s_loaded vs) s = Inr (if se_configure env then loaded_step vs s else s)"
| "dash_wizard_step env s_close_alert s = Inr (s\<lparr>st_alert := False\<rparr>)"

text \<open>Once the dashboard is shown the wizard is gone.\<close>

definition wizard_step :: "stepper_env \<Rightarrow> dash_step_event \<Rightarrow> stepper \<Rightarrow> stepper result" where
  "wizard_step env e s = (if st_shown s \<noteq> None then Inr s else dash_wizard_step env e s)"

definition wizard_run :: "stepper_env \<Rightarrow> dash_store \<Rightarrow> dash_vars \<Rightarrow> dash_step_event list \<Rightarrow> stepper result" where
  "wizard_run env st existing es = rbind (stepper_init env st existing) (foldR (wizard_step env) es)"

section \<open>The shown page is the labelled one\<close>

theorem shown_page_is_the_labelled_one:
  "getDashStepContent configure vs i = (if i < length (wizard_pages configure vs) then wizard_pages configure vs ! i
     else ChooseADashboardType)"
proof -
  have "length xs = 2 \<Longrightarrow> i < length xs \<Longrightarrow> i = 0 \<or> i = 1" for xs :: "dash_page_kind list" by auto
  consider "i = 0" | "i = 1" | "i = 2" | "i = 3" | "i \<ge> 4" by linarith
  then show ?thesis by cases (auto simp: getDashStepContent_def wizard_pages_def Let_def)
qed

lemma page_cases:
  "at_page env ChooseADashboardType s \<Longrightarrow> \<not> se_configure env \<Longrightarrow> st_step s < length (wizard_pages False (st_vars s)) \<Longrightarrow> st_step s = 0"
  "at_page env ConfigureDashboardMetadata s \<Longrightarrow> \<not> se_configure env \<Longrightarrow> st_step s = 1"
  "at_page env SelectTheMetrics s \<Longrightarrow> \<not> se_configure env \<Longrightarrow> st_step s = 2 \<and> \<not> is_custom (st_vars s)"
  "at_page env TuneTheQueries s \<Longrightarrow> \<not> se_configure env \<Longrightarrow> st_step s = (if is_custom (st_vars s) then 2 else 3)"
  by (auto simp: at_page_def getDashStepContent_def wizard_pages_def Let_def split: if_splits)

section \<open>What is created is complete\<close>

definition texts :: "dash_vars \<Rightarrow> bool" where
  "texts vs \<longleftrightarrow> list_all (\<lambda>v. \<not> nullish v) (required_fields vs)"

definition filled :: "dash_vars \<Rightarrow> bool" where
  "filled vs \<longleftrightarrow> texts vs \<and> JStr '''' \<notin> set (required_fields vs)"

definition good_json :: "js \<Rightarrow> bool" where
  "good_json json \<longleftrightarrow> \<not> truthy json \<or> list_all (\<lambda>k. \<not> nullish (fld k json))
     [''name'', ''dashboardID'', ''chaosEventQueryTemplate'', ''chaosVerdictQueryTemplate'', ''information'']"

fun event_ok :: "dash_step_event \<Rightarrow> bool" where
  "event_ok (s_template json) = good_json json"
| "event_ok (s_upload (Inr json)) = good_json json"
| "event_ok e = True"

definition input_complete :: "dash_input \<Rightarrow> bool" where
  "input_complete i \<longleftrightarrow> list_all (\<lambda>v. \<not> nullish v \<and> v \<noteq> JStr '''')
     [di_dsID i, di_dbName i, di_dbTypeID i, di_dbTypeName i, di_information i, di_clusterID i]
   \<and> (case di_templates i of None \<Rightarrow> False | Some (a, b) \<Rightarrow> a \<noteq> JStr '''' \<and> b \<noteq> JStr '''')"

definition create_inv :: "stepper_env \<Rightarrow> stepper \<Rightarrow> bool" where
  "create_inv env s \<longleftrightarrow> texts (st_vars s) \<and> st_step s < length (wizard_pages False (st_vars s))
     \<and> (st_shown s = None \<longrightarrow> \<not> st_proceed s)
     \<and> (st_step s = 0 \<longrightarrow> dv_agentID (st_vars s) = JStr '''' \<and> st_form s = None)
     \<and> (st_step s > 0 \<longrightarrow> se_role env \<noteq> ''Viewer'' \<and> good_json (ss_dashboardJSON (st_store s)))
     \<and> (st_step s = 1 \<longrightarrow> (case st_form s of None \<Rightarrow> False | Some f \<Rightarrow> texts (fm_details f) \<and> (st_disabledNext s \<or> filled (st_vars s))))
     \<and> (st_step s > 1 \<longrightarrow> filled (st_vars s) \<and> st_form s = None)
     \<and> list_all input_complete (st_sent s) \<and> (st_sent s = [] \<or> se_role env \<noteq> ''Viewer'')"

lemma merge_texts [simp]: "texts (handleMetadataUpdate d vs)"
  by (auto simp: texts_def handleMetadataUpdate_def required_fields_def text_or_empty_def orelse_nullish_def)

lemma merge_fields: "texts d \<Longrightarrow> required_fields (handleMetadataUpdate d vs) = required_fields d"
  by (auto simp: texts_def handleMetadataUpdate_def required_fields_def)

lemma form_update_create:
  assumes "\<not> fe_configure env" and "texts d" and "form_update env d f vs = (f', dis, vs')"
  shows "fm_details f' = d \<and> texts vs' \<and> (dis \<or> filled vs')"
  using assms merge_fields [OF assms(2)]
  by (auto simp: form_update_def Let_def next_refused_def filled_def)

lemma form_handle_cases:
  assumes "form_handle env e (f, dis, vs) = Inr r" and "texts (fm_details f)"
  shows "(\<exists>d g. r = form_update env d g vs \<and> texts d) \<or> (\<exists>g. r = (g, dis, vs) \<and> fm_details g = fm_details f)"
proof -
  have t: "texts ((fm_details f)\<lparr>dv_name := JStr a\<rparr>)" "texts ((fm_details f)\<lparr>dv_agentID := JStr a\<rparr>)"
      "texts ((fm_details f)\<lparr>dv_dsID := JStr a, dv_dsURL := JStr b\<rparr>)" "texts ((fm_details f)\<lparr>dv_applications := c\<rparr>)"
      "texts (with_agent as (fm_details f))" for a b c as
    using assms(2) by (auto simp: texts_def required_fields_def with_agent_def first_text_def split: list.splits)
  show ?thesis
  proof (cases e)
    case (f_apps cs)
    show ?thesis
    proof (cases "takes_apps (fm_details f)")
      case True
      then obtain ams where "r = form_update env ((fm_details f)\<lparr>dv_applications := ams\<rparr>) f vs"
        using assms(1) f_apps by (auto simp: rmap_def rbind_Inr_iff)
      then show ?thesis using t(4) by blast
    next
      case False
      then show ?thesis using assms(1) f_apps by auto
    qed
  next
    case (f_agents as)
    show ?thesis
    proof (cases "lacks_agent (fe_configure env) (fm_details f)")
      case True
      then have "r = form_update env (with_agent as (fm_details f)) (f\<lparr>fm_agents := active_agents as\<rparr>) vs"
        using assms(1) f_agents by (simp add: agents_effect_def Let_def)
      then show ?thesis using t(5) by blast
    next
      case False
      then show ?thesis using assms(1) f_agents by (auto simp: agents_effect_def Let_def)
    qed
  next
    case (f_name a)
    then show ?thesis using assms(1) t(1) by simp blast
  next
    case (f_agent a)
    then show ?thesis using assms(1) t(2) by simp blast
  next
    case (f_source a)
    then show ?thesis using assms(1) t(3) by simp blast
  qed (use assms(1) in auto)
qed

lemma form_handle_create:
  assumes "form_handle env e (f, dis, vs) = Inr (f', dis', vs')" and "\<not> fe_configure env"
    and "texts (fm_details f)" and "texts vs" and "dis \<or> filled vs"
  shows "texts (fm_details f') \<and> texts vs' \<and> (dis' \<or> filled vs')"
  using form_handle_cases [OF assms(1,3)]
proof
  assume "\<exists>d g. (f', dis', vs') = form_update env d g vs \<and> texts d"
  then obtain d g where "form_update env d g vs = (f', dis', vs')" "texts d" by metis
  then show ?thesis using form_update_create [OF assms(2)] by metis
next
  assume "\<exists>g. (f', dis', vs') = (g, dis, vs) \<and> fm_details g = fm_details f"
  then show ?thesis using assms(3-5) by auto
qed

lemma from_json_text:
  "good_json json \<Longrightarrow> k \<in> {''name'', ''dashboardID'', ''chaosEventQueryTemplate'', ''chaosVerdictQueryTemplate'', ''information''}
    \<Longrightarrow> \<not> nullish (from_json json k d)"
  by (auto simp: from_json_def good_json_def)

lemma details_init_texts:
  assumes "form_details_init False st vs = Inr d" and "good_json (ss_dashboardJSON st)" and "texts vs"
  shows "texts d \<and> dv_agentID d = dv_agentID vs"
proof -
  from assms(1) obtain apps where "d = \<lparr>dv_id = JStr '''', dv_name = from_json (ss_dashboardJSON st) ''name'' ''custom'',
         dv_typeID = from_json (ss_dashboardJSON st) ''dashboardID'' ''custom'',
         dv_typeName = from_json (ss_dashboardJSON st) ''name'' ''Custom'', dv_dsType = JStr ''Prometheus'', dv_dsID = dv_dsID vs,
         dv_dsURL = dv_dsURL vs,
         dv_event = from_json (ss_dashboardJSON st) ''chaosEventQueryTemplate'' DEFAULT_CHAOS_EVENT_PROMETHEUS_QUERY,
         dv_verdict = from_json (ss_dashboardJSON st) ''chaosVerdictQueryTemplate'' DEFAULT_CHAOS_VERDICT_PROMETHEUS_QUERY,
         dv_agentID = dv_agentID vs, dv_information = from_json (ss_dashboardJSON st) ''information'' ''Customized dashboard'',
         dv_panelGroupMap = dv_panelGroupMap vs, dv_panelGroups = dv_panelGroups vs, dv_selected = [],
         dv_applications = apps\<rparr>"
    by (auto simp: form_details_init_def Let_def rbind_Inr_iff)
  then show ?thesis using assms(3) from_json_text [OF assms(2)] by (simp add: texts_def required_fields_def)
qed

lemma form_mount_create:
  assumes "form_mount env st as vs = Inr (f, dis, vs')" and "\<not> fe_configure env" and "good_json (ss_dashboardJSON st)"
    and "texts vs" and "dv_agentID vs = JStr '''' \<or> filled vs"
  shows "texts (fm_details f) \<and> texts vs' \<and> (dis \<or> filled vs')"
proof -
  from assms(1,2) obtain d0 where d0: "form_details_init False st vs = Inr d0" and
    res: "(let d = mounted_details env st as vs d0;
         f = \<lparr>fm_details = d, fm_available = [], fm_resource = ''pods'', fm_namespaces = [],
              fm_agents = active_agents as, fm_sources = active_sources (fe_sources env)\<rparr>
     in if lacks_agent False d0 \<or> lacks_source False d0 then form_update env d f vs
        else (f, next_refused False d0, vs)) = (f, dis, vs')"
    by (auto simp: form_mount_def rbind_Inr_iff Let_def)
  note t = details_init_texts [OF d0 assms(3,4)]
  have m: "texts (mounted_details env st as vs d0)"
    using t assms(2) by (auto simp: mounted_details_def with_agent_def with_source_def texts_def required_fields_def first_text_def
        split: list.splits)
  show ?thesis
  proof (cases "lacks_agent False d0 \<or> lacks_source False d0")
    case True
    then show ?thesis using res m form_update_create [OF assms(2) m] by (simp add: Let_def)
  next
    case False
    then have "mounted_details env st as vs d0 = d0" "filled vs"
      using assms(2,5) t by (auto simp: mounted_details_def lacks_agent_def)
    then show ?thesis using res False t assms(4) by (auto simp: Let_def)
  qed
qed

text \<open>Mounting a page of the creating wizard: what the invariant asks of the step it starts at.\<close>

definition ready :: "stepper_env \<Rightarrow> stepper \<Rightarrow> bool" where
  "ready env s \<longleftrightarrow> texts (st_vars s) \<and> st_step s < length (wizard_pages False (st_vars s)) \<and> \<not> st_proceed s
     \<and> (st_step s = 0 \<longrightarrow> dv_agentID (st_vars s) = JStr '''')
     \<and> (st_step s > 0 \<longrightarrow> se_role env \<noteq> ''Viewer'' \<and> good_json (ss_dashboardJSON (st_store s)))
     \<and> (st_step s = 1 \<longrightarrow> dv_agentID (st_vars s) = JStr '''' \<or> filled (st_vars s))
     \<and> (st_step s > 1 \<longrightarrow> filled (st_vars s))
     \<and> list_all input_complete (st_sent s) \<and> (st_sent s = [] \<or> se_role env \<noteq> ''Viewer'')"

lemma three_pages: "length (wizard_pages False vs) > 2"
  by (simp add: wizard_pages_def Let_def)

lemma mount_step_create:
  assumes "mount_step env s = Inr s'" and "ready env s" and "\<not> se_configure env"
  shows "create_inv env s'"
proof -
  have env: "\<not> fe_configure (form_env_of env)" using assms(3) by (simp add: form_env_of_def)
  have pr: "getDashStepContent (se_configure env) (st_vars s) (st_step s) = p \<Longrightarrow> at_page env p s" for p by (simp add: at_page_def)
  show ?thesis
  proof (cases "getDashStepContent (se_configure env) (st_vars s) (st_step s)")
    case ChooseADashboardType
    then have "st_step s = 0" using pr page_cases(1) [of env s] assms(2,3) by (simp add: ready_def)
    then show ?thesis using assms(1,2) ChooseADashboardType by (auto simp: mount_step_def create_inv_def ready_def)
  next
    case ConfigureDashboardMetadata
    then have one: "st_step s = 1" using pr page_cases(2) [of env s] assms(3) by blast
    from assms(1) ConfigureDashboardMetadata obtain f dis vs where
      m: "form_mount (form_env_of env) (st_store s) (se_agents env) (st_vars s) = Inr (f, dis, vs)"
      and s': "s' = s\<lparr>st_form := Some f, st_disabledNext := dis, st_vars := vs, st_store := store_mounted (se_configure env) (st_store s)\<rparr>"
      by (auto simp: mount_step_def rbind_Inr_iff)
    have "texts (fm_details f) \<and> texts vs \<and> (dis \<or> filled vs)"
      using form_mount_create [OF m env] assms(2) one by (simp add: ready_def)
    moreover have "ss_dashboardJSON (store_mounted c st) = ss_dashboardJSON st" for c st by (simp add: store_mounted_def)
    ultimately show ?thesis using assms(2) one three_pages [of vs] unfolding s' by (auto simp: create_inv_def ready_def)
  next
    case SelectTheMetrics
    then have "st_step s = 2" using pr page_cases(3) [of env s] assms(3) by blast
    then show ?thesis using assms(1,2) SelectTheMetrics by (auto simp: mount_step_def rbind_Inr_iff create_inv_def ready_def)
  next
    case TuneTheQueries
    then have "st_step s > 1" using pr page_cases(4) [of env s] assms(3) by (auto split: if_splits)
    then show ?thesis using assms(1,2) TuneTheQueries by (auto simp: mount_step_def create_inv_def ready_def)
  qed
qed

lemma input_of_complete: "filled vs \<Longrightarrow> input_complete (dashboard_input False now vs ps)"
  by (auto simp: filled_def texts_def required_fields_def input_complete_def dashboard_input_def)

lemma handleBack_create:
  assumes "handleBack env s = Inr s'" and "create_inv env s" and "st_step s > 0" and "\<not> se_configure env" and "st_shown s = None"
  shows "create_inv env s'"
proof -
  let ?t = "s\<lparr>st_step := st_step s - 1, st_vars := if st_step s = 1 then blank_vars else st_vars s\<rparr>"
  have b: "texts blank_vars" by (simp add: texts_def blank_vars_def required_fields_def)
  have "ready env ?t"
    using assms(2,3,5) b three_pages [of blank_vars] by (cases "st_step s = 1") (auto simp: ready_def create_inv_def blank_vars_def)
  moreover have "mount_step env ?t = Inr s'" using assms(1,4) by (simp add: handleBack_def)
  ultimately show ?thesis using mount_step_create assms(4) by blast
qed

lemma handleNext_create:
  assumes "handleNext env now s = Inr s'" and "create_inv env s" and "\<not> se_configure env" and "st_shown s = None"
    and "st_step s = 0 \<Longrightarrow> good_json (ss_dashboardJSON (st_store s))"
    and "st_step s = 1 \<Longrightarrow> filled (st_vars s)"
  shows "create_inv env s'"
proof -
  have pr: "getDashStepContent (se_configure env) (st_vars s) (st_step s) = p \<Longrightarrow> at_page env p s" for p by (simp add: at_page_def)
  have moved: "mount_step env (s\<lparr>st_step := Suc (st_step s)\<rparr>) = Inr s' \<Longrightarrow> Suc (st_step s) < length (wizard_pages False (st_vars s))
      \<Longrightarrow> se_role env \<noteq> ''Viewer'' \<Longrightarrow> create_inv env s'"
    using assms(2-6) by (elim mount_step_create) (auto simp: ready_def create_inv_def)
  show ?thesis
  proof (cases "getDashStepContent (se_configure env) (st_vars s) (st_step s)")
    case ChooseADashboardType
    then have "st_step s = 0" using pr page_cases(1) [of env s] assms(2,3) by (simp add: create_inv_def)
    then show ?thesis using assms(1,2) ChooseADashboardType moved three_pages [of "st_vars s"]
      by (auto simp: handleNext_def step_onNext_def configure_onNext_def create_inv_def split: if_splits)
  next
    case ConfigureDashboardMetadata
    then have "st_step s = 1" using pr page_cases(2) [of env s] assms(3) by blast
    then show ?thesis using assms(1,2) ConfigureDashboardMetadata moved three_pages [of "st_vars s"]
      by (auto simp: handleNext_def step_onNext_def configure_onNext_def create_inv_def split: if_splits)
  next
    case SelectTheMetrics
    then have "st_step s = 2 \<and> \<not> is_custom (st_vars s)" using pr page_cases(3) [of env s] assms(3) by blast
    then show ?thesis using assms(1,2) SelectTheMetrics moved
      by (auto simp: handleNext_def step_onNext_def create_inv_def wizard_pages_def)
  next
    case TuneTheQueries
    then have st: "st_step s > 1" using pr page_cases(4) [of env s] assms(3) by (auto split: if_splits)
    then have "s' = s\<lparr>st_loading := True, st_sent := st_sent s @ [dashboard_input False now (st_vars s) (st_panels s)]\<rparr>"
      using assms(1-4) TuneTheQueries by (auto simp: handleNext_def step_onNext_def queries_onNext_def create_inv_def)
    then show ?thesis using assms(2) st input_of_complete by (auto simp: create_inv_def)
  qed
qed

lemma selected_irrelevant [simp]:
  "texts (vs\<lparr>dv_selected := x\<rparr>) = texts vs" "filled (vs\<lparr>dv_selected := x\<rparr>) = filled vs"
  "wizard_pages c (vs\<lparr>dv_selected := x\<rparr>) = wizard_pages c vs"
  by (simp_all add: texts_def filled_def required_fields_def wizard_pages_def is_custom_def Let_def)

lemma create_inv_one: "create_inv env s \<Longrightarrow> \<not> st_disabledNext s \<Longrightarrow> st_step s = 1 \<Longrightarrow> filled (st_vars s)"
  by (auto simp: create_inv_def split: option.splits)

lemma metadata_step_create:
  assumes "metadata_step env e s = Inr s'" and "create_inv env s" and "\<not> se_configure env" and "st_step s = 1"
  shows "create_inv env s'"
proof -
  from assms(2,4) obtain f where f: "st_form s = Some f" "texts (fm_details f)" "st_disabledNext s \<or> filled (st_vars s)"
    by (auto simp: create_inv_def split: option.splits)
  from assms(1) f(1) obtain f' dis vs where
    h: "form_handle (form_env_of env) e (f, st_disabledNext s, st_vars s) = Inr (f', dis, vs)"
    and s': "s' = s\<lparr>st_form := Some f', st_disabledNext := dis, st_vars := vs\<rparr>"
    by (auto simp: metadata_step_def rmap_def rbind_Inr_iff)
  have "texts (fm_details f') \<and> texts vs \<and> (dis \<or> filled vs)"
    using form_handle_create [OF h _ f(2) _ f(3)] assms(2,3) by (simp add: form_env_of_def create_inv_def)
  then show ?thesis using assms(2,4) three_pages [of vs] unfolding s' by (auto simp: create_inv_def)
qed

lemma wizard_step_create:
  assumes "dash_wizard_step env e s = Inr s'" and "create_inv env s" and "\<not> se_configure env" and "st_shown s = None"
    and "event_ok e"
  shows "create_inv env s'"
proof (cases e)
  case (s_template json)
  show ?thesis
  proof (cases "at_page env ChooseADashboardType s")
    case True
    then have z: "st_step s = 0" using page_cases(1) assms(2,3) by (simp add: create_inv_def)
    then have "create_inv env (choose_json json s)" using assms(2) by (auto simp: create_inv_def choose_json_def)
    then show ?thesis using assms True s_template z handleNext_create [of env 0 "choose_json json s" s'] by (simp add: choose_json_def)
  qed (use assms s_template in simp)
next
  case s_custom
  show ?thesis
  proof (cases "at_page env ChooseADashboardType s")
    case True
    then have z: "st_step s = 0" using page_cases(1) assms(2,3) by (simp add: create_inv_def)
    then have "create_inv env (choose_json JNull s)" using assms(2) by (auto simp: create_inv_def choose_json_def)
    then show ?thesis using assms True s_custom z handleNext_create [of env 0 "choose_json JNull s" s']
      by (simp add: choose_json_def good_json_def)
  qed (use assms s_custom in simp)
next
  case (s_upload parsed)
  show ?thesis
  proof (cases "at_page env ChooseADashboardType s")
    case True
    then have z: "st_step s = 0" using page_cases(1) assms(2,3) by (simp add: create_inv_def)
    obtain ok st where u: "upload_document parsed (st_store s) = (ok, st)" by fastforce
    then have g: "ok \<Longrightarrow> good_json (ss_dashboardJSON st)" using assms(5) s_upload
      by (auto simp: upload_document_def split: sum.splits)
    have "create_inv env (s\<lparr>st_store := st\<rparr>)" "create_inv env (s\<lparr>st_store := st, st_alert := True\<rparr>)"
      using assms(2) z by (auto simp: create_inv_def)
    then show ?thesis using assms True s_upload z u g handleNext_create [of env 0 "s\<lparr>st_store := st\<rparr>" s']
      by (auto simp: upload_step_def split: if_splits)
  qed (use assms s_upload in simp)
next
  case (s_form fe)
  show ?thesis
  proof (cases "st_step s = 1")
    case True
    then show ?thesis using metadata_step_create assms s_form by simp
  next
    case False
    then have "st_form s = None" using assms(2) by (cases "st_step s") (auto simp: create_inv_def)
    then show ?thesis using assms s_form by (simp add: metadata_step_def)
  qed
next
  case (s_metric p i)
  show ?thesis
  proof (cases "at_page env SelectTheMetrics s")
    case True
    then have two: "st_step s = 2" using page_cases(3) assms(3) by blast
    have "s' = metric_step p i s" using assms(1) True s_metric by simp
    then show ?thesis using assms(2) two by (simp add: metric_step_def Let_def create_inv_def)
  qed (use assms s_metric in simp)
next
  case (s_next now)
  show ?thesis
  proof (cases "next_enabled env s")
    case True
    have "st_step s \<noteq> 0"
      using True assms(3) three_pages [of "st_vars s"]
      by (auto simp: next_enabled_def at_page_def getDashStepContent_def split: if_splits)
    moreover have "st_step s = 1 \<Longrightarrow> filled (st_vars s)"
      using True assms(2,3) create_inv_one by (auto simp: next_enabled_def at_page_def getDashStepContent_def split: if_splits)
    ultimately show ?thesis using handleNext_create assms True s_next by simp
  qed (use assms s_next in simp)
next
  case s_back
  then show ?thesis using handleBack_create assms by (cases "st_step s > 0") auto
next
  case (s_panels ps)
  then have "s' = s\<lparr>st_panels := ps\<rparr> \<or> s' = s" using assms(1) by (simp split: if_splits)
  then show ?thesis using assms(2) by (elim disjE) (simp_all add: create_inv_def split: option.splits)
next
  case (s_done i)
  then have "s' = s \<or> s' = s\<lparr>st_loading := False, st_proceed := True, st_shown := Some (text_or_empty i)\<rparr>"
    using assms(1,3) by (simp split: if_splits)
  then show ?thesis using assms(2) by (elim disjE) (simp_all add: create_inv_def split: option.splits)
next
  case s_failed
  then have "s' = s \<or> s' = s\<lparr>st_alert := True, st_loading := False, st_proceed := False\<rparr>"
    using assms(1) by (simp split: if_splits)
  then show ?thesis using assms(2) by (elim disjE) (simp_all add: create_inv_def split: option.splits)
next
  case (s_loaded vs)
  then show ?thesis using assms(1-3) by simp
next
  case s_close_alert
  then have "s' = s\<lparr>st_alert := False\<rparr>" using assms(1) by simp
  then show ?thesis using assms(2) by (simp add: create_inv_def split: option.splits)
qed

text \<open>
  C21. In every run of the wizard that creates dashboards, with templates and documents
  that have their fields, each dashboard sent has a source, a name, a type, information,
  an agent and both query templates, and no viewer sends one.
\<close>

theorem created_dashboards_are_complete:
  assumes "\<not> se_configure env" and "list_all event_ok es" and "wizard_run env st existing es = Inr s"
  shows "list_all input_complete (st_sent s) \<and> (st_sent s = [] \<or> se_role env \<noteq> ''Viewer'')"
proof -
  from assms(3) obtain t where t: "stepper_init env st existing = Inr t" "foldR (wizard_step env) es t = Inr s"
    unfolding wizard_run_def rbind_Inr_iff by blast
  have "ready env \<lparr>st_step = 0, st_vars = vars_init env existing, st_disabledNext = True, st_loading = False, st_alert = False,
      st_store = st, st_form = None, st_metrics = [], st_panels = [], st_proceed = False, st_sent = [], st_shown = None\<rparr>"
    using assms(1) three_pages [of "vars_init env existing"]
    by (auto simp: ready_def vars_init_def blank_vars_def texts_def required_fields_def first_source_def split: list.splits)
  then have "create_inv env t" using t(1) mount_step_create assms(1) by (simp add: stepper_init_def)
  then have "create_inv env s"
  proof (rule foldR_invariant [OF t(2)])
    fix e u w assume "e \<in> set es" "create_inv env u" "wizard_step env e u = Inr w"
    then show "create_inv env w" using wizard_step_create [of env e u w] assms(1,2)
      by (auto simp: wizard_step_def list_all_iff split: if_splits)
  qed
  then show ?thesis by (simp add: create_inv_def)
qed

end
