(* ===== verification/DashWitness.thy ===== *)
theory DashWitness
  imports DashEdit DashStepper
begin

text \<open>
  The dashboard wizard and the page of its panels together, and the properties of both at
  concrete dashboards.
\<close>

section \<open>From a stored dashboard to what is sent\<close>

definition vars_of :: "string \<Rightarrow> editor_env \<Rightarrow> js \<Rightarrow> dash_vars \<Rightarrow> edit_vars" where
  "vars_of act env json vs = \<lparr>pv_configure = True, pv_activePanelID = act, pv_url = dv_dsURL vs, pv_typeID = dv_typeID vs,
     pv_groups = dv_panelGroups vs, pv_map = dv_panelGroupMap vs, pv_selected = dv_selected vs, pv_json = json, pv_env = env\<rparr>"

lemma mount_tab_saved: "mount_tab s = Inr s' \<Longrightarrow> ep_saved s' = ep_saved s"
  by (auto simp: mount_tab_def rmap_def rbind_Inr_iff split: if_splits)

text \<open>
  C22. Opening the panels of a stored dashboard succeeds, and saving them unchanged
  sends the stored fields and groups, each panel with its identifier, queries and
  options and the identifier of its group.
\<close>

theorem unchanged_dashboard_is_sent_back:
  assumes "list_all stored_group (sd_panelGroups d)" and "distinct (map g_panelGroupName (sd_panelGroups d))"
    and "sd_panelGroups d \<noteq> []" and "texts (stored_vars i d)" and "\<not> nullish i"
    and "list_all text_queries (concat (map g_panels (sd_panelGroups d)))"
  shows "\<exists>s. panels_init uuid (vars_of act env json (stored_vars i d)) = Inr s
    \<and> dashboard_input True now (stored_vars i d) (ep_saved s) =
    \<lparr>di_dbID = Some i, di_dsID = sd_dsID d, di_dbName = sd_dbName d, di_dbTypeID = sd_dbTypeID d, di_dbTypeName = sd_dbTypeName d,
     di_information = sd_dbInformation d, di_templates = None,
     di_applications = getApplicationMetadataMap (sd_applications d), di_panelGroups = map resaved (sd_panelGroups d),
     di_startTime = now - 1800, di_endTime = now, di_clusterID = sd_clusterID d, di_refreshRate = 15\<rparr>"
proof -
  let ?gs = "getExistingPanelGroups (sd_panelGroups d)"
  let ?v = "vars_of act env json (stored_vars i d)"
  have v: "pv_groups ?v = ?gs" "pv_configure ?v" "pv_activePanelID ?v = act" "pv_url ?v = sd_dsURL d"
    by (simp_all add: vars_of_def stored_vars_def)
  let ?ai = "getAllSelectedPanels True act (sd_dsURL d) ?gs"
  let ?s = "set_panels (fst ?ai) (edit_blank\<lparr>ep_groups := ?gs, ep_tab := snd ?ai\<rparr>)"
  have "?gs \<noteq> []" using assms(3) by (simp add: getExistingPanelGroups_def)
  then have "initial_groups uuid ?v = Inr (0, ?gs)" using v by (simp add: initial_groups_def)
  then have init: "panels_init uuid ?v = mount_tab ?s"
    using v by (simp add: panels_init_def groups_effect_def Let_def case_prod_beta set_panels_def edit_blank_def)
  have ps: "fst ?ai = map (listed_panel (sd_dsURL d)) (concat (map g_panels ?gs))" by (rule getAllSelectedPanels_fst)
  have all: "text_queries p" if "p \<in> set (fst ?ai)" for p
    using that assms(6) unfolding ps concat_existing
    by (force simp: list_all_iff text_queries_def listed_panel_def existing_panel_def plain_query_def)
  have "fst ?ai = [] \<or> snd ?ai < length (fst ?ai)"
    using active_tab_bound [of True act "sd_dsURL d" ?gs] by (metis getAllSelectedPanels_fst length_greater_0_conv length_map)
  then have "fst ?ai = [] \<or> text_queries (fst ?ai ! snd ?ai)" using all by (meson nth_mem)
  then obtain s where s: "mount_tab ?s = Inr s" using mount_tab_total [of ?s] by auto
  then have "ep_saved s = fst ?ai" by (auto dest: mount_tab_saved)
  then have "getPanelGroups True (ep_saved s) = map resaved (sd_panelGroups d)"
    using unchanged_groups [OF assms(1,2)] by simp
  then show ?thesis using assms(4,5) s init
    by (simp add: dashboard_input_def stored_vars_def texts_def required_fields_def DEFAULT_RELATIVE_TIME_RANGE_def DEFAULT_REFRESH_RATE_def)
qed

section \<open>Dashboards\<close>

definition cpu_query :: prom_query where
  "cpu_query = \<lparr>q_hidden = JUndef, q_queryID = JStr ''q1'', q_promQueryName = JStr ''cpu'', q_legend = JStr '''',
     q_resolution = JStr ''1/2'', q_minstep = JStr ''5'', q_line = JBool True, q_closeArea = JBool False, q_base = None, q_labels = None\<rparr>"

definition stored_of :: "string \<Rightarrow> string \<Rightarrow> prom_query list \<Rightarrow> panel" where
  "stored_of i name qs = \<lparr>p_panelID = JStr i, p_createdAt = JStr ''1'', p_panelGroupID = JUndef, p_panelGroupName = JUndef,
     p_dsURL = JUndef, p_promQueries = qs, p_panelOptions = \<lparr>o_points = JBool True, o_grIDs = JBool True, o_leftAxis = JBool False\<rparr>,
     p_panelName = JStr name, p_yAxisLeft = JStr ''CPU'', p_yAxisRight = JStr '''', p_xAxisDown = JStr ''Time'', p_unit = JStr ''%''\<rparr>"

definition group_a :: panel_group where
  "group_a = \<lparr>g_panelGroupID = JStr ''a'', g_panelGroupName = JStr ''A'',
     g_panels = [stored_of ''p1'' ''cpu'' [cpu_query, cpu_query\<lparr>q_queryID := JStr ''q2''\<rparr>], stored_of ''p3'' ''disk'' [cpu_query]]\<rparr>"

definition group_b :: panel_group where
  "group_b = \<lparr>g_panelGroupID = JStr ''b'', g_panelGroupName = JStr ''B'', g_panels = [stored_of ''p2'' ''memory'' [cpu_query]]\<rparr>"

definition frontend :: app_meta where
  "frontend = \<lparr>am_namespace = JStr ''shop'', am_applications = [\<lparr>res_kind = JStr ''pod'', res_names = [JStr ''front-1'', JStr ''front-2'']\<rparr>]\<rparr>"

definition shop_dashboard :: stored_dashboard where
  "shop_dashboard = \<lparr>sd_dbName = JStr ''shop'', sd_dsType = JStr ''Prometheus'', sd_dbTypeID = JStr ''custom'',
     sd_dbTypeName = JStr ''Custom'', sd_dsID = JStr ''d1'', sd_dsURL = JStr ''http://p'', sd_clusterID = JStr ''c1'',
     sd_dbInformation = JStr ''info'', sd_eventTemplate = JStr ''e'', sd_verdictTemplate = JStr ''v'',
     sd_panelGroups = [group_a, group_b], sd_applications = Some [frontend]\<rparr>"

lemmas shop_defs = shop_dashboard_def group_a_def group_b_def stored_of_def cpu_query_def frontend_def

definition shop_env :: editor_env where
  "shop_env = \<lparr>ev_dsURL = '''', ev_apps = [frontend], ev_labels = []\<rparr>"

definition uid :: "nat \<Rightarrow> string" where
  "uid n = ''id-'' @ show_nat n"

definition shop_vars :: edit_vars where
  "shop_vars = vars_of '''' shop_env JNull (stored_vars (JStr ''db'') shop_dashboard)"

definition opened_page :: panels_page where
  "opened_page = (case panels_init uid shop_vars of Inl e \<Rightarrow> edit_blank | Inr s \<Rightarrow> s)"

lemma shop_groups_stored: "list_all stored_group [group_a, group_b]"
  by (simp add: stored_group_def stored_panel_def plain_query_def shop_defs)

lemma shop_texts: "list_all text_queries (g_panels group_a @ g_panels group_b)"
  by (simp add: text_queries_def shop_defs)

lemma edit_init_shop: "panels_init uid shop_vars = Inr opened_page"
proof -
  have "\<not> (case panels_init uid shop_vars of Inl e \<Rightarrow> True | Inr s \<Rightarrow> False)" by code_simp
  then show ?thesis by (auto simp: opened_page_def split: sum.splits)
qed

lemma unchanged_dashboard_witness:
  "di_panelGroups (dashboard_input True 5000 (stored_vars (JStr ''db'') shop_dashboard) (ep_saved opened_page)) = map resaved [group_a, group_b]"
proof -
  have "texts (stored_vars (JStr ''db'') shop_dashboard)" by (simp add: texts_def stored_vars_def required_fields_def shop_defs)
  moreover have "sd_panelGroups shop_dashboard = [group_a, group_b]" by (simp add: shop_dashboard_def)
  moreover have "distinct (map g_panelGroupName [group_a, group_b])" by (simp add: group_a_def group_b_def)
  ultimately show ?thesis
    using unchanged_dashboard_is_sent_back [of shop_dashboard "JStr ''db''" uid "''''" shop_env JNull 5000]
      shop_groups_stored shop_texts edit_init_shop by (simp add: shop_vars_def)
qed

section \<open>Editing and discarding\<close>

definition page_after :: "edit_vars \<Rightarrow> edit_event list \<Rightarrow> panels_page" where
  "page_after v es = (case edit_run uid v es of Inl e \<Rightarrow> edit_blank | Inr s \<Rightarrow> s)"

definition page_runs :: "edit_vars \<Rightarrow> edit_event list \<Rightarrow> bool" where
  "page_runs v es = (case edit_run uid v es of Inl e \<Rightarrow> False | Inr s \<Rightarrow> True)"

lemma page_after_run: "page_runs v es \<Longrightarrow> edit_run uid v es = Inr (page_after v es)"
  by (auto simp: page_runs_def page_after_def split: sum.splits)

lemma foldR_one: "foldR f [x] = f x"
proof
  show "foldR f [x] s = f x s" for s by (cases "f x s") simp_all
qed

lemma page_after_step: "page_runs v (es @ [e]) \<Longrightarrow> edit_step uid v e (page_after v es) = Inr (page_after v (es @ [e]))"
proof -
  assume "page_runs v (es @ [e])"
  then have r: "edit_run uid v (es @ [e]) = Inr (page_after v (es @ [e]))" by (rule page_after_run)
  then have "rbind (edit_run uid v es) (edit_step uid v e) = Inr (page_after v (es @ [e]))"
    by (cases "panels_init uid v") (simp_all add: edit_run_def foldR_append foldR_one del: foldR.simps)
  then show ?thesis by (cases "edit_run uid v es") (simp_all add: page_after_def)
qed

definition shop_edits :: "edit_event list" where
  "shop_edits = [ep_panel (w_name ''renamed''), ep_panel (w_edit 0 (e_metric ''disk'')), ep_panel (w_delete 1)]"

lemma shop_edits_run: "page_runs shop_vars shop_edits" "page_runs shop_vars (shop_edits @ [ep_discard])"
  by code_simp+

lemma shop_edited:
  "ep_wizard (page_after shop_vars shop_edits) \<noteq> None \<and> ep_tab (page_after shop_vars shop_edits) = 0
   \<and> p_panelID (ep_panels (page_after shop_vars shop_edits) ! 0) = JStr ''p1''
   \<and> length (p_promQueries (ep_panels (page_after shop_vars shop_edits) ! 0)) = 1"
  by code_simp

theorem discarding_witness:
  "length (p_promQueries (ep_saved (page_after shop_vars shop_edits) ! 0)) = 1
   \<and> p_promQueries (ep_saved (page_after shop_vars (shop_edits @ [ep_discard])) ! 0)
     = map kept_query [cpu_query, cpu_query\<lparr>q_queryID := JStr ''q2''\<rparr>]"
proof -
  let ?s = "page_after shop_vars shop_edits" and ?sp = "stored_of ''p1'' ''cpu'' [cpu_query, cpu_query\<lparr>q_queryID := JStr ''q2''\<rparr>]"
  have inv: "page_inv ?s" by (rule edit_run_inv [OF page_after_run [OF shop_edits_run(1)]])
  have m: "pv_map shop_vars = [group_a, group_b]" "pv_configure shop_vars"
    by (simp_all add: shop_vars_def vars_of_def stored_vars_def getExistingPanelGroupMap_def shop_dashboard_def group_a_def group_b_def)
  have "ep_saved (page_after shop_vars (shop_edits @ [ep_discard]))
      = (ep_saved ?s)[ep_tab ?s := (opened_panel (pv_url shop_vars) group_a ?sp)\<lparr>p_promQueries := map kept_query (p_promQueries ?sp)\<rparr>]"
    using discarding_restores_the_stored_panel [of shop_vars group_a ?sp ?s uid] m inv shop_edited page_after_step [OF shop_edits_run(2)]
    by (simp add: panel_ids_def text_queries_def group_a_def group_b_def stored_of_def cpu_query_def)
  moreover have "ep_saved ?s = ep_panels ?s" using inv by (simp add: page_inv_def)
  moreover have "ep_panels ?s \<noteq> []" using inv shop_edited by (auto simp: page_inv_def)
  ultimately show ?thesis using shop_edited by (simp add: stored_of_def)
qed

definition template_vars :: edit_vars where
  "template_vars = \<lparr>pv_configure = False, pv_activePanelID = '''', pv_url = JStr ''http://p'', pv_typeID = JStr ''generic-shop'',
     pv_groups = [], pv_map = [], pv_selected = all_names [group_a, group_b], pv_json = getDashboard shop_dashboard, pv_env = shop_env\<rparr>"

lemma template_run: "page_runs template_vars [ep_panel (w_points False), ep_panel (w_delete 1)]"
    "page_runs template_vars ([ep_panel (w_points False), ep_panel (w_delete 1)] @ [ep_discard])"
  by code_simp+

lemma template_edited:
  "ep_wizard (page_after template_vars [ep_panel (w_points False), ep_panel (w_delete 1)]) \<noteq> None
   \<and> p_panelName (ep_panels (page_after template_vars [ep_panel (w_points False), ep_panel (w_delete 1)])
       ! ep_tab (page_after template_vars [ep_panel (w_points False), ep_panel (w_delete 1)])) = JStr ''cpu''
   \<and> text_queries (ep_panels (page_after template_vars [ep_panel (w_points False), ep_panel (w_delete 1)])
       ! ep_tab (page_after template_vars [ep_panel (w_points False), ep_panel (w_delete 1)]))
   \<and> length (p_promQueries (ep_saved (page_after template_vars [ep_panel (w_points False), ep_panel (w_delete 1)]) ! 0)) = 1"
  by code_simp

theorem template_witness:
  "length (p_promQueries (ep_saved (page_after template_vars ([ep_panel (w_points False), ep_panel (w_delete 1)] @ [ep_discard])) ! 0)) = 1"
proof -
  let ?s = "page_after template_vars [ep_panel (w_points False), ep_panel (w_delete 1)]"
  have "page_inv ?s" by (rule edit_run_inv [OF page_after_run [OF template_run(1)]])
  then have "ep_saved (page_after template_vars ([ep_panel (w_points False), ep_panel (w_delete 1)] @ [ep_discard])) = ep_saved ?s"
    using discarding_a_template_panel_keeps_the_changes [of template_vars shop_dashboard ?s uid] template_edited
      page_after_step [OF template_run(2)] by (simp add: template_vars_def)
  then show ?thesis using template_edited by simp
qed

section \<open>Queries\<close>

definition shop_wizard :: panel_wizard where
  "shop_wizard = (case ep_wizard opened_page of Some w \<Rightarrow> w)"

lemma shop_wizard_state: "has_more 0 shop_wizard \<and> \<not> truthy (q_hidden (ed_local (w_editors shop_wizard ! 0)))
    \<and> ed_visible (w_editors shop_wizard ! 0) \<and> ep_wizard opened_page \<noteq> None"
  by code_simp

theorem hidden_query_witness:
  "let w' = edit_query shop_env 0 (e_legend ''load'') (toggle_query 0 shop_wizard) in
    \<not> ed_visible (w_editors w' ! 0) \<and> p_promQueries (w_info w') ! 0 \<in> set (graph_queries (w_info w'))"
proof -
  have "edit_run uid shop_vars [] = Inr opened_page" using edit_init_shop by (simp add: edit_run_def)
  then have "page_inv opened_page" by (rule edit_run_inv)
  then have "wiz_ok shop_wizard" using shop_wizard_state by (auto simp: page_inv_def shop_wizard_def)
  then show ?thesis using change_shows_a_hidden_query [of shop_wizard 0 shop_env "e_legend ''load''"] shop_wizard_state by blast
qed

definition pod_env :: editor_env where
  "pod_env = \<lparr>ev_dsURL = ''http://p'', ev_apps = [frontend],
     ev_labels = [\<lparr>lv_label = ''pod'', lv_values = Some [''front-1'', ''other'']\<rparr>]\<rparr>"

lemma front_selected: "getSelectedValuesForLabel pod_env ''pod'' ''cpu'' = [''front-1'']"
  by code_simp


section \<open>The wizard\<close>

definition create_env :: stepper_env where
  "create_env = \<lparr>se_configure = False, se_role = ''Editor'', se_activePanelID = '''',
     se_sources = [\<lparr>so_dsID = ''d1'', so_dsURL = ''http://p'', so_healthStatus = ''Active''\<rparr>],
     se_agents = [\<lparr>ag_clusterID = ''c1'', ag_isActive = True, ag_isClusterConfirmed = True, ag_isRegistered = True\<rparr>]\<rparr>"

definition fresh_store :: dash_store where
  "fresh_store = \<lparr>ss_selectedDashboardID = JStr '''', ss_dashboardJSON = JObj []\<rparr>"

definition wizard_after :: "stepper_env \<Rightarrow> dash_step_event list \<Rightarrow> stepper option" where
  "wizard_after env es = (case wizard_run env fresh_store blank_vars es of Inl e \<Rightarrow> None | Inr s \<Rightarrow> Some s)"

definition create_events :: "dash_step_event list" where
  "create_events = [s_custom, s_form (f_name ''mine''), s_next 0, s_panels [getNewPanel (JStr ''http://p'') ''q''], s_next 5000, s_done (JStr ''db1'')]"

lemma create_events_run: "(case wizard_after create_env create_events of None \<Rightarrow> False | Some s \<Rightarrow> length (st_sent s) = 1 \<and> st_shown s = Some (JStr ''db1''))"
  by code_simp

theorem created_witness:
  "case wizard_after create_env create_events of None \<Rightarrow> False | Some s \<Rightarrow> length (st_sent s) = 1 \<and> list_all input_complete (st_sent s)"
proof -
  obtain s where s: "wizard_run create_env fresh_store blank_vars create_events = Inr s" "length (st_sent s) = 1"
    using create_events_run by (auto simp: wizard_after_def split: sum.splits)
  moreover have "list_all event_ok create_events" by (simp add: create_events_def)
  moreover have "\<not> se_configure create_env" by (simp add: create_env_def)
  ultimately show ?thesis using created_dashboards_are_complete [of create_env create_events] by (simp add: wizard_after_def)
qed

text \<open>Going back to the form shows the template's name again; the name typed before is the one that is sent.\<close>

lemma typed_name_is_hidden:
  "(case wizard_after create_env [s_custom, s_form (f_name ''mine''), s_next 0, s_back] of None \<Rightarrow> False
    | Some s \<Rightarrow> map_option (\<lambda>f. dv_name (fm_details f)) (st_form s) = Some (JStr ''custom'') \<and> dv_name (st_vars s) = JStr ''mine'' \<and> \<not> st_disabledNext s)"
  by code_simp

text \<open>A viewer who opens the wizard at a panel starts on the last page, which does not ask for the role.\<close>

definition viewer_env :: stepper_env where
  "viewer_env = create_env\<lparr>se_configure := True, se_role := ''Viewer'', se_activePanelID := ''p1''\<rparr>"

lemma viewer_sends_an_update:
  "(case wizard_after viewer_env [s_loaded (stored_vars (JStr ''db'') shop_dashboard), s_panels [], s_next 0] of None \<Rightarrow> False
    | Some s \<Rightarrow> map di_dbID (st_sent s) = [Some (JStr ''db'')])"
  by code_simp

text \<open>A dashboard without an agent goes on waiting when neither agent nor source was chosen before.\<close>

lemma second_visit_loses_the_agent:
  "(case wizard_after create_env [s_custom, s_back, s_custom] of None \<Rightarrow> False
    | Some s \<Rightarrow> dv_agentID (st_vars s) = JStr '''' \<and> dv_dsID (st_vars s) = JStr ''d1'' \<and> st_disabledNext s)"
  "(case wizard_after create_env [s_custom] of None \<Rightarrow> False
    | Some s \<Rightarrow> dv_agentID (st_vars s) = JStr ''c1'' \<and> dv_dsID (st_vars s) = JStr ''d1'' \<and> \<not> st_disabledNext s)"
  by code_simp+

text \<open>A panel moved to another group brings the identifier of its old one: here both saved groups have the
  identifier of the first, and the second group's is gone.\<close>

lemma moved_panel_brings_its_group:
  "map (\<lambda>g. (g_panelGroupName g, g_panelGroupID g)) (getPanelGroups True (ep_saved (page_after shop_vars [ep_panel (w_group ''B'' False)])))
    = [(JStr ''B'', JStr ''a''), (JStr ''A'', JStr ''a'')]"
  by code_simp

section \<open>Uploading and choosing applications\<close>

theorem upload_witness:
  "case upload_document (Inr (getDashboard shop_dashboard)) fresh_store of (ok, st') \<Rightarrow>
    ok \<and> form_mount \<lparr>fe_configure = False, fe_sources = []\<rparr> st' [] blank_vars = Inl TypeErr"
proof -
  have "sd_applications shop_dashboard = Some [frontend]" "list_ex (\<lambda>a. am_applications a \<noteq> []) [frontend]"
    by (simp_all add: shop_dashboard_def frontend_def)
  moreover have "first_query_name (getDashboard shop_dashboard) = Inr (JStr (CHR ''c'' # ''pu''))" by code_simp
  ultimately show ?thesis 
    by (rule uploaded_applications_break_the_form)
qed

theorem chosen_applications_witness: "read_chips [''shop / pod / front-1'', ''shop / pod / front-2''] = Inr [frontend]"
proof -
  have "apps_ok [frontend]" by (simp add: apps_ok_def frontend_def tight_def js_space_def)
  moreover have "getSelectedAppDetails [frontend] = [''shop / pod / front-1'', ''shop / pod / front-2'']"
    by (simp add: getSelectedAppDetails_def frontend_def)
  ultimately show ?thesis using chosen_applications_are_read_back [of "[frontend]"] by simp
qed

end
