(* ===== verification/DashGraph.thy ===== *)
theory DashGraph
  imports DashQueries PromSteps PromData
begin

text \<open>
  The preview of a panel (\<open>QueryEditingWizard/index.tsx\<close> and its \<open>Graph/index.tsx\<close>): which queries
  it asks for and when, and what the reply shows; with the series of a data source
  (\<open>EditPanelsWizard\<close>) and the completions offered while typing a query (\<open>QueryEditor\<close>).

  Times are seconds. The reply and the palette are arguments; drawing is done by a library. Apollo
  asks again by itself once a query was asked for and its variables change.
\<close>

section \<open>The request\<close>

record prom_request =
  pi_url :: string
  pi_start :: int
  pi_end :: int
  pi_queries :: "promQueryInput list"

definition prom_details :: "prom_query \<Rightarrow> PromQueryDetails" where
  "prom_details q = \<lparr>dq_queryID = text_of (q_queryID q), promQueryName = text_of (q_promQueryName q),
     dq_legend = text_of (q_legend q), dq_resolution = text_of (q_resolution q), dq_minstep = text_of (q_minstep q),
     closeArea = truthy (q_closeArea q)\<rparr>"

definition panel_request :: "int \<Rightarrow> panel \<Rightarrow> prom_request" where
  "panel_request now p = \<lparr>pi_url = text_of (text_or_empty (p_dsURL p)), pi_start = now - 900, pi_end = now,
     pi_queries = getPromQueryInput (map prom_details (graph_queries p)) (Some 900) False '''' ''''\<rparr>"

text \<open>Moving the panel to another group and renaming it hand it over without a new request.\<close>

fun redraws :: "wiz_event \<Rightarrow> bool" where
  "redraws (w_points b) = True"
| "redraws (w_grids b) = True"
| "redraws w_add = True"
| "redraws (w_delete i) = True"
| "redraws (w_toggle i) = True"
| "redraws (w_edit i e) = True"
| "redraws e = False"

section \<open>The preview\<close>

record graph_view =
  gv_request :: prom_request
  gv_asked :: bool
  gv_data :: ParsedMetricPrometheusData

definition graph_mount :: "int \<Rightarrow> panel \<Rightarrow> graph_view" where
  "graph_mount now p = (let r = panel_request now p in
     \<lparr>gv_request = r, gv_asked = (pi_url r \<noteq> '''' \<and> pi_queries r \<noteq> []), gv_data = \<lparr>seriesData = [], closedAreaData = []\<rparr>\<rparr>)"

definition graph_update :: "int \<Rightarrow> wiz_event \<Rightarrow> panel \<Rightarrow> graph_view \<Rightarrow> graph_view" where
  "graph_update now e p g = (if redraws e then g\<lparr>gv_request := panel_request now p\<rparr> else g)"

definition area_queries :: "panel \<Rightarrow> string list" where
  "area_queries p = map (\<lambda>q. text_of (q_queryID q)) (filter (\<lambda>q. truthy (q_closeArea q)) (p_promQueries p))"

definition graph_completed ::
  "string list \<Rightarrow> string list \<Rightarrow> panel \<Rightarrow> metricsPromResponse option list option \<Rightarrow> graph_view \<Rightarrow> graph_view result" where
  "graph_completed lineGraph areaGraph p reply g = (if \<not> gv_asked g then Inr g else
     rmap (\<lambda>d. g\<lparr>gv_data := d\<rparr>)
       (MetricDataParserForPrometheus (case reply of None \<Rightarrow> [] | Some r \<Rightarrow> r) lineGraph areaGraph (area_queries p) []))"

section \<open>Series and completions\<close>

record completion =
  cp_value :: js
  cp_score :: int
  cp_meta :: string

definition series_asked :: "js \<Rightarrow> string list \<Rightarrow> bool" where
  "series_asked url series \<longleftrightarrow> series = [] \<and> url \<noteq> JStr ''''"

definition series_completed :: "string list option \<Rightarrow> string list" where
  "series_completed reply = (case reply of None \<Rightarrow> [] | Some ss \<Rightarrow> ss)"

definition labels_asked :: "editor_env \<Rightarrow> string list \<Rightarrow> editor \<Rightarrow> bool" where
  "labels_asked env series ed \<longleftrightarrow>
     ev_dsURL env \<noteq> '''' \<and> series \<noteq> [] \<and> q_base (ed_local ed) \<noteq> Some '''' \<and> ed_open ed"

definition series_completions :: "string list \<Rightarrow> completion list" where
  "series_completions = map (\<lambda>s. \<lparr>cp_value = JStr s, cp_score = 1, cp_meta = ''tuneTheQueries.seriesName''\<rparr>)"

definition label_completions :: "editor \<Rightarrow> label_values list \<Rightarrow> completion list" where
  "label_completions ed = map (\<lambda>lv. \<lparr>cp_value = JStr (lv_label lv), cp_score = 2,
     cp_meta = (if base_of (ed_local ed) \<noteq> '''' then ''tuneTheQueries.labelFor '' @ base_of (ed_local ed)
                else ''tuneTheQueries.label'')\<rparr>)"

text \<open>The values are options, objects with a name.\<close>

definition getValueList :: "label_values list \<Rightarrow> completion list" where
  "getValueList ls = concat (map (\<lambda>lv. case lv_values lv of None \<Rightarrow> []
     | Some vs \<Rightarrow> map (\<lambda>v. \<lparr>cp_value = JObj [(''name'', JStr v)], cp_score = 3, cp_meta = ''Value for '' @ lv_label lv\<rparr>) vs) ls)"

section \<open>What the preview asks for\<close>

lemma request_of_visible_queries:
  "map pq_queryID (pi_queries (panel_request now p)) = map (\<lambda>q. text_of (q_queryID q)) (graph_queries p)"
  by (simp add: panel_request_def getPromQueryInput_def query_input_def prom_details_def)

lemma hiding_one_drops_it:
  "i < length (p_promQueries p) \<Longrightarrow> \<not> truthy (q_hidden (p_promQueries p ! i)) \<Longrightarrow>
   graph_queries (w_info (handleShowAndHideQuery i \<lparr>w_info = p, w_settings = s, w_tab = t, w_editors = eds\<rparr>))
     = graph_queries (p\<lparr>p_promQueries := remove_at i (p_promQueries p)\<rparr>)"
proof -
  assume i: "i < length (p_promQueries p)" and shown: "\<not> truthy (q_hidden (p_promQueries p ! i))"
  have "filter P (xs[i := y]) = filter P (take i xs @ drop (Suc i) xs)" if "\<not> P y" "i < length xs" for P y and xs :: "prom_query list"
    using that by (simp add: upd_conv_take_nth_drop)
  then show ?thesis using i shown
    by (simp add: handleShowAndHideQuery_def set_queries_def graph_queries_def flip_hidden_def remove_at_def)
qed

text \<open>The preview asks once, when it is mounted: a panel that has no source or no visible query then
  stays empty, whatever is changed later.\<close>

lemma unasked_stays_empty:
  "\<not> gv_asked g \<Longrightarrow> graph_update now e p g = g' \<Longrightarrow> graph_completed ls as q reply g' = Inr g'' \<Longrightarrow> gv_data g'' = gv_data g"
  by (auto simp: graph_update_def graph_completed_def split: if_splits)

end
