(* ===== verification/HubForms.thy ===== *)
theory HubForms
  imports Validation
begin

text \<open>
  The two forms of the drawer that connects a ChaosHub:
  \<open>pages/ChaosHub/MyHubConnectDrawer/connectGit.tsx\<close> and \<open>connectRemote.tsx\<close>. The credentials part
  (a token or a generated SSH key) is the same code in the form of
  \<open>views/Settings/GitOpsTab\<close>. The server's replies are events; a field marked \<open>required\<close> must
  not be empty for the browser to submit the form.
\<close>

section \<open>Credentials\<close>

record SSHKey =
  privateKey :: string
  publicKey :: string

definition no_key :: SSHKey where
  "no_key = \<lparr>privateKey = '''', publicKey = ''''\<rparr>"

record credentials =
  privateHub :: string
  accessToken :: string
  sshKey :: SSHKey
  key_requests :: nat

definition credentials_init :: credentials where
  "credentials_init = \<lparr>privateHub = ''token'', accessToken = '''', sshKey = no_key, key_requests = 0\<rparr>"

text \<open>A radio button reports a change only when it was not chosen before. \<open>key_requests\<close> counts the
  calls of \<open>generateSSHKey\<close> the server has not answered.\<close>

definition choose_method :: "string \<Rightarrow> credentials \<Rightarrow> credentials" where
  "choose_method v c =
     (let c1 = (if v = ''ssh'' then c\<lparr>key_requests := key_requests c + 1\<rparr> else c);
          c2 = (if v = ''token'' then c1\<lparr>sshKey := no_key\<rparr> else c1)
      in c2\<lparr>privateHub := v\<rparr>)"

datatype credential_event =
    ChooseMethod string
  | TypeToken string
  | KeyReply SSHKey
  | KeyFails

definition credential_step :: "credential_event \<Rightarrow> credentials \<Rightarrow> credentials" where
  "credential_step e c = (case e of
     ChooseMethod v \<Rightarrow> if v \<in> {''token'', ''ssh''} \<and> privateHub c \<noteq> v then choose_method v c else c
   | TypeToken v \<Rightarrow> if privateHub c = ''token'' then c\<lparr>accessToken := v\<rparr> else c
   | KeyReply k \<Rightarrow> if key_requests c = 0 then c else c\<lparr>sshKey := k, key_requests := key_requests c - 1\<rparr>
   | KeyFails \<Rightarrow> c\<lparr>key_requests := key_requests c - 1\<rparr>)"

text \<open>The key is there only when it was generated: without a request under way it is the last reply
  or empty, and choosing the token clears it.\<close>

lemma token_clears_key:
  "sshKey (choose_method ''token'' c) = no_key" "accessToken (choose_method v c) = accessToken c"
  "privateHub (choose_method v c) = v"
  by (simp_all add: choose_method_def Let_def)

lemma late_key_stays:
  "sshKey (fold credential_step [ChooseMethod ''ssh'', ChooseMethod ''token'', KeyReply k] credentials_init) = k"
  "privateHub (fold credential_step [ChooseMethod ''ssh'', ChooseMethod ''token'', KeyReply k] credentials_init) = ''token''"
  by (simp_all add: credential_step_def credentials_init_def choose_method_def)

section \<open>Hubs and requests\<close>

record HubDetails =
  h_id :: string
  h_name :: string
  h_url :: string
  h_branch :: string
  h_authType :: "string option"
  h_hubType :: string
  h_private :: bool
  h_token :: string
  h_sshPrivate :: string
  h_sshPublic :: string

record EditHub =
  isEditing :: bool
  e_hubType :: string

record MyHubRequest =
  r_id :: "string option"
  r_name :: string
  r_url :: string
  r_branch :: string
  r_private :: bool
  r_authType :: string
  r_token :: "string option"
  r_user :: "(string \<times> string) option"
  r_key :: "SSHKey option"

datatype hub_request =
    AddHub MyHubRequest
  | UpdateHub MyHubRequest
  | AddRemoteHub string string

definition hubData :: "string \<Rightarrow> HubDetails list option \<Rightarrow> HubDetails option" where
  "hubData nm data = (case data of None \<Rightarrow> None | Some hs \<Rightarrow> find (\<lambda>h. h_name h = nm) hs)"

section \<open>The form of a Git repository\<close>

record GitHub =
  HubName :: string
  GitURL :: string
  GitBranch :: string

definition no_hub :: GitHub where
  "no_hub = \<lparr>HubName = '''', GitURL = '''', GitBranch = ''''\<rparr>"

record git_form =
  gf_hub :: GitHub
  isPublicToggled :: bool
  isPrivateToggled :: bool
  gf_cred :: credentials
  gf_data :: "HubDetails list option"
  gf_loader :: bool
  gf_pending :: "hub_request option"

definition git_mount :: "EditHub \<Rightarrow> git_form" where
  "git_mount ed = \<lparr>gf_hub = no_hub, isPublicToggled = True, isPrivateToggled = False, gf_cred = credentials_init,
     gf_data = None, gf_loader = isEditing ed, gf_pending = None\<rparr>"

definition load_credentials :: "HubDetails \<Rightarrow> credentials \<Rightarrow> credentials" where
  "load_credentials h c =
     (if map_option js_lower (h_authType h) = Some ''token'' then c\<lparr>privateHub := ''token'', accessToken := h_token h\<rparr>
      else if map_option js_lower (h_authType h) = Some ''ssh''
      then c\<lparr>privateHub := ''ssh'', sshKey := \<lparr>privateKey = h_sshPrivate h, publicKey = h_sshPublic h\<rparr>\<rparr>
      else c\<lparr>privateHub := ''token''\<rparr>)"

definition git_load :: "HubDetails \<Rightarrow> git_form \<Rightarrow> git_form" where
  "git_load h s = s\<lparr>gf_hub := \<lparr>HubName = h_name h, GitURL = h_url h, GitBranch = h_branch h\<rparr>,
     isPublicToggled := \<not> h_private h, isPrivateToggled := h_private h,
     gf_cred := load_credentials h (gf_cred s), gf_loader := False\<rparr>"

text \<open>The reply to the query; the effect runs when the hub of this name has changed.\<close>

definition git_status :: "EditHub \<Rightarrow> string \<Rightarrow> HubDetails list \<Rightarrow> git_form \<Rightarrow> git_form" where
  "git_status ed nm hs s =
     (let old = hubData nm (gf_data s); new = hubData nm (Some hs); s' = s\<lparr>gf_data := Some hs\<rparr> in
      case new of None \<Rightarrow> s' | Some h \<Rightarrow> if isEditing ed \<and> old \<noteq> Some h then git_load h s' else s')"

definition authType_of :: "git_form \<Rightarrow> string" where
  "authType_of s = (if isPublicToggled s then ''NONE'' else if privateHub (gf_cred s) = ''token'' then ''TOKEN''
     else if privateHub (gf_cred s) = ''ssh'' then ''SSH'' else ''BASIC'')"

definition git_request :: "string option \<Rightarrow> git_form \<Rightarrow> MyHubRequest" where
  "git_request i s = \<lparr>r_id = i, r_name = js_trim (HubName (gf_hub s)), r_url = GitURL (gf_hub s),
     r_branch = GitBranch (gf_hub s), r_private = (if isPublicToggled s then False else isPrivateToggled s),
     r_authType = authType_of s, r_token = Some (accessToken (gf_cred s)), r_user = Some (''user'', ''user''),
     r_key = Some (sshKey (gf_cred s))\<rparr>"

definition git_handleSubmit :: "EditHub \<Rightarrow> string \<Rightarrow> git_form \<Rightarrow> hub_request" where
  "git_handleSubmit ed nm s = (if isEditing ed
     then UpdateHub (git_request (map_option h_id (hubData nm (gf_data s))) s) else AddHub (git_request None s))"

definition git_disabled :: "git_form \<Rightarrow> bool" where
  "git_disabled s \<longleftrightarrow> \<not> isValidWebUrl (GitURL (gf_hub s)) \<or> validateStartEmptySpacing (GitBranch (gf_hub s)) \<or> gf_pending s \<noteq> None"

definition git_required :: "git_form \<Rightarrow> bool" where
  "git_required s \<longleftrightarrow> HubName (gf_hub s) \<noteq> ''''
     \<and> (isPublicToggled s \<or> isPrivateToggled s \<longrightarrow> GitURL (gf_hub s) \<noteq> '''' \<and> GitBranch (gf_hub s) \<noteq> '''')
     \<and> (isPrivateToggled s \<and> privateHub (gf_cred s) = ''token'' \<longrightarrow> accessToken (gf_cred s) \<noteq> '''')"

datatype git_event =
    GitStatus "HubDetails list"
  | GitName string
  | GitUrl string
  | GitBranchTo string
  | GitToggle bool
  | GitCred credential_event

definition handleGitURL :: "string \<Rightarrow> GitHub \<Rightarrow> GitHub" where
  "handleGitURL v h = \<lparr>HubName = HubName h, GitURL = v, GitBranch = GitBranch h\<rparr>"

definition handleGitBranch :: "string \<Rightarrow> GitHub \<Rightarrow> GitHub" where
  "handleGitBranch v h = \<lparr>HubName = HubName h, GitURL = GitURL h, GitBranch = v\<rparr>"

definition setIsToggled :: "bool \<Rightarrow> git_form \<Rightarrow> git_form" where
  "setIsToggled public s = s\<lparr>isPublicToggled := public, isPrivateToggled := \<not> public\<rparr>"

text \<open>The credentials are shown for a private repository; a generated key may arrive at any time.\<close>

definition git_step :: "EditHub \<Rightarrow> string \<Rightarrow> git_event \<Rightarrow> git_form \<Rightarrow> git_form" where
  "git_step ed nm e s = (case e of
     GitStatus hs \<Rightarrow> git_status ed nm hs s
   | GitCred (KeyReply k) \<Rightarrow> s\<lparr>gf_cred := credential_step (KeyReply k) (gf_cred s)\<rparr>
   | GitCred KeyFails \<Rightarrow> s\<lparr>gf_cred := credential_step KeyFails (gf_cred s)\<rparr>
   | _ \<Rightarrow> if gf_loader s then s else (case e of
       GitName v \<Rightarrow> s\<lparr>gf_hub := (gf_hub s)\<lparr>HubName := v\<rparr>\<rparr>
     | GitUrl v \<Rightarrow> s\<lparr>gf_hub := handleGitURL v (gf_hub s)\<rparr>
     | GitBranchTo v \<Rightarrow> s\<lparr>gf_hub := handleGitBranch v (gf_hub s)\<rparr>
     | GitToggle public \<Rightarrow> setIsToggled public s
     | GitCred c \<Rightarrow> if isPrivateToggled s then s\<lparr>gf_cred := credential_step c (gf_cred s)\<rparr> else s
     | _ \<Rightarrow> s))"

definition git_submit :: "EditHub \<Rightarrow> string \<Rightarrow> git_form \<Rightarrow> git_form \<times> hub_request list" where
  "git_submit ed nm s = (if gf_loader s \<or> git_disabled s \<or> \<not> git_required s then (s, [])
     else let q = git_handleSubmit ed nm s in (s\<lparr>gf_pending := Some q\<rparr>, [q]))"

section \<open>The form of a remote hub\<close>

record remote_form =
  rf_name :: string
  rf_url :: string
  rf_data :: "HubDetails list option"
  rf_loader :: bool
  rf_pending :: "hub_request option"

definition remote_mount :: "EditHub \<Rightarrow> remote_form" where
  "remote_mount ed = \<lparr>rf_name = '''', rf_url = '''', rf_data = None, rf_loader = isEditing ed, rf_pending = None\<rparr>"

definition remote_status :: "EditHub \<Rightarrow> string \<Rightarrow> HubDetails list \<Rightarrow> remote_form \<Rightarrow> remote_form" where
  "remote_status ed nm hs s =
     (let old = hubData nm (rf_data s); new = hubData nm (Some hs); s' = s\<lparr>rf_data := Some hs\<rparr> in
      case new of None \<Rightarrow> s'
      | Some h \<Rightarrow> if isEditing ed \<and> old \<noteq> Some h then s'\<lparr>rf_name := h_name h, rf_url := h_url h, rf_loader := False\<rparr> else s')"

definition remote_request :: "string option \<Rightarrow> remote_form \<Rightarrow> MyHubRequest" where
  "remote_request i s = \<lparr>r_id = i, r_name = js_trim (rf_name s), r_url = rf_url s, r_branch = '''',
     r_private = False, r_authType = ''NONE'', r_token = None, r_user = None, r_key = None\<rparr>"

definition remote_handleSubmit :: "EditHub \<Rightarrow> string \<Rightarrow> remote_form \<Rightarrow> hub_request" where
  "remote_handleSubmit ed nm s =
     (let h = hubData nm (rf_data s) in
      if isEditing ed \<and> map_option h_hubType h = Some ''REMOTE'' then UpdateHub (remote_request (map_option h_id h) s)
      else AddRemoteHub (js_trim (rf_name s)) (rf_url s))"

definition remote_submit :: "EditHub \<Rightarrow> string \<Rightarrow> remote_form \<Rightarrow> remote_form \<times> hub_request list" where
  "remote_submit ed nm s =
     (if rf_loader s \<or> validateStartEmptySpacing (rf_url s) \<or> rf_pending s \<noteq> None \<or> rf_name s = '''' \<or> rf_url s = ''''
      then (s, []) else let q = remote_handleSubmit ed nm s in (s\<lparr>rf_pending := Some q\<rparr>, [q]))"

datatype remote_event =
    RemoteStatus "HubDetails list"
  | RemoteName string
  | RemoteUrl string

definition remote_step :: "EditHub \<Rightarrow> string \<Rightarrow> remote_event \<Rightarrow> remote_form \<Rightarrow> remote_form" where
  "remote_step ed nm e s = (case e of
     RemoteStatus hs \<Rightarrow> remote_status ed nm hs s
   | RemoteName v \<Rightarrow> if rf_loader s then s else s\<lparr>rf_name := v\<rparr>
   | RemoteUrl v \<Rightarrow> if rf_loader s then s else s\<lparr>rf_url := v\<rparr>)"

section \<open>What the forms send\<close>

text \<open>A stored Git hub the form can represent: private exactly when it has credentials, which are of
  its method only.\<close>

definition storable_auth :: "HubDetails \<Rightarrow> bool" where
  "storable_auth h \<longleftrightarrow>
     (h_authType h = Some ''NONE'' \<and> \<not> h_private h \<and> h_token h = '''' \<and> h_sshPrivate h = '''' \<and> h_sshPublic h = '''')
   \<or> (h_authType h = Some ''TOKEN'' \<and> h_private h \<and> h_token h \<noteq> '''' \<and> h_sshPrivate h = '''' \<and> h_sshPublic h = '''')
   \<or> (h_authType h = Some ''SSH'' \<and> h_private h \<and> h_token h = '''')"

definition git_storable :: "HubDetails \<Rightarrow> bool" where
  "git_storable h \<longleftrightarrow> h_name h \<noteq> '''' \<and> js_trim (h_name h) = h_name h \<and> isValidWebUrl (h_url h)
     \<and> h_url h \<noteq> '''' \<and> h_branch h \<noteq> '''' \<and> \<not> validateStartEmptySpacing (h_branch h) \<and> storable_auth h"

definition same_hub :: "HubDetails \<Rightarrow> MyHubRequest" where
  "same_hub h = \<lparr>r_id = Some (h_id h), r_name = h_name h, r_url = h_url h, r_branch = h_branch h,
     r_private = h_private h, r_authType = the (h_authType h), r_token = Some (h_token h),
     r_user = Some (''user'', ''user''), r_key = Some \<lparr>privateKey = h_sshPrivate h, publicKey = h_sshPublic h\<rparr>\<rparr>"

definition remote_storable :: "HubDetails \<Rightarrow> bool" where
  "remote_storable h \<longleftrightarrow> h_hubType h = ''REMOTE'' \<and> h_name h \<noteq> '''' \<and> js_trim (h_name h) = h_name h \<and> h_url h \<noteq> ''''
     \<and> \<not> validateStartEmptySpacing (h_url h)"

definition same_remote :: "HubDetails \<Rightarrow> MyHubRequest" where
  "same_remote h = \<lparr>r_id = Some (h_id h), r_name = h_name h, r_url = h_url h, r_branch = '''', r_private = False,
     r_authType = ''NONE'', r_token = None, r_user = None, r_key = None\<rparr>"

lemma auth_names:
  "js_lower ''NONE'' = ''none''" "js_lower ''TOKEN'' = ''token''" "js_lower ''SSH'' = ''ssh''"
  by code_simp+

lemma git_load_request:
  assumes "storable_auth h" "js_trim (h_name h) = h_name h"
  shows "git_request (Some (h_id h)) (git_load h (git_mount ed\<lparr>gf_data := d\<rparr>)) = same_hub h"
  using assms
  by (auto simp: storable_auth_def git_request_def git_load_def git_mount_def load_credentials_def
      credentials_init_def authType_of_def same_hub_def no_key_def auth_names)

lemma git_resend:
  assumes h: "git_storable h" and f: "find (\<lambda>h. h_name h = nm) hs = Some h" and ed: "isEditing ed"
  shows "\<exists>s. git_submit ed nm (git_status ed nm hs (git_mount ed)) = (s, [UpdateHub (same_hub h)])"
proof -
  let ?s = "git_load h (git_mount ed\<lparr>gf_data := Some hs\<rparr>)"
  have st: "git_status ed nm hs (git_mount ed) = ?s"
    using f ed by (simp add: git_status_def hubData_def git_mount_def Let_def)
  have "\<not> git_disabled ?s" "git_required ?s" "\<not> gf_loader ?s"
    using h by (auto simp: git_storable_def git_disabled_def git_required_def git_load_def git_mount_def
        storable_auth_def load_credentials_def credentials_init_def auth_names)
  moreover have "hubData nm (gf_data ?s) = Some h"
    using f by (simp add: git_load_def hubData_def)
  moreover have "git_request (Some (h_id h)) ?s = same_hub h"
    using h by (simp add: git_storable_def git_load_request)
  ultimately show ?thesis using ed by (simp add: st git_submit_def git_handleSubmit_def Let_def)
qed

lemma remote_resend:
  assumes h: "remote_storable h" and f: "find (\<lambda>h. h_name h = nm) hs = Some h" and ed: "isEditing ed"
  shows "\<exists>s. remote_submit ed nm (remote_status ed nm hs (remote_mount ed)) = (s, [UpdateHub (same_remote h)])"
  using h f ed
  by (simp add: remote_storable_def remote_submit_def remote_status_def remote_mount_def hubData_def
      remote_handleSubmit_def remote_request_def same_remote_def Let_def)

text \<open>What a Git form sends has an address that passed the check and a branch, but the name may be
  blank: only an empty field is refused, and the blanks are trimmed afterwards.\<close>

definition request_of :: "hub_request \<Rightarrow> MyHubRequest option" where
  "request_of q = (case q of AddHub r \<Rightarrow> Some r | UpdateHub r \<Rightarrow> Some r | AddRemoteHub _ _ \<Rightarrow> None)"

lemma git_submit_sends:
  assumes "git_submit ed nm s = (s', [q])" and "isPrivateToggled s = (\<not> isPublicToggled s)"
  shows "\<exists>r. request_of q = Some r \<and> isValidWebUrl (r_url r) \<and> r_branch r \<noteq> ''''
    \<and> (r_private r \<longleftrightarrow> r_authType r \<noteq> ''NONE'') \<and> (r_authType r = ''TOKEN'' \<longrightarrow> r_token r \<noteq> Some '''')"
  using assms
  by (cases "isEditing ed") (auto simp: git_submit_def git_handleSubmit_def git_request_def request_of_def git_disabled_def
      git_required_def authType_of_def Let_def split: if_splits)

lemma blank_name_is_sent_empty:
  assumes "js_trim v = ''''" "v \<noteq> ''''" "isValidWebUrl u" "u \<noteq> ''''" "b \<noteq> ''''" "\<not> validateStartEmptySpacing b"
    "\<not> isEditing ed"
  shows "\<exists>s r. git_submit ed nm (fold (git_step ed nm) [GitName v, GitUrl u, GitBranchTo b] (git_mount ed)) = (s, [AddHub r])
    \<and> r_name r = ''''"
  using assms
  by (simp add: git_step_def git_mount_def git_submit_def git_disabled_def git_required_def git_handleSubmit_def
      git_request_def handleGitURL_def handleGitBranch_def Let_def)

text \<open>A repository switched back to public is sent with the token typed before.\<close>

lemma public_hub_sends_token:
  assumes "isPublicToggled s"
  shows "r_token (git_request i s) = Some (accessToken (gf_cred s))" "r_authType (git_request i s) = ''NONE''"
  using assms by (simp_all add: git_request_def authType_of_def)

end
