(* ===== verification/HubPage.thy ===== *)
theory HubPage
  imports HubForms
begin

text \<open>
  The page of the ChaosHubs, \<open>pages/ChaosHub/index.tsx\<close> with its cards and the drawer of
  \<open>MyHubConnectDrawer/index.tsx\<close>. The drawer stays mounted when it is closed; its form is
  mounted with its type. The client calls the completion of a request even when the form that
  sent it has gone, with the name and the edit state of the form's last render: \<open>hp_late\<close> are
  these requests.
\<close>

section \<open>State\<close>

datatype drawer_form =
    NoForm
  | GitForm git_form
  | RemoteForm remote_form

datatype hub_call =
    FormCall hub_request
  | DeleteCall string
  | SyncCall string

record DeleteHub =
  deleteHubModal :: bool
  del_hubID :: string
  del_hubName :: string

definition no_delete :: DeleteHub where
  "no_delete = \<lparr>deleteHubModal = False, del_hubID = '''', del_hubName = ''''\<rparr>"

record hub_page =
  displayResult :: bool
  cloneResult :: "string \<times> string"
  hp_edit :: EditHub
  hp_data :: "HubDetails list"
  drawerState :: bool
  hp_name :: string
  hp_key :: string
  hp_delete :: DeleteHub
  hp_type :: string
  hp_form :: drawer_form
  hp_late :: "(hub_request \<times> string \<times> EditHub) list"
  hp_sent :: "hub_call list"
  hp_refetched :: nat

definition hub_page_init :: hub_page where
  "hub_page_init = \<lparr>displayResult = False, cloneResult = ('''', ''''), hp_edit = \<lparr>isEditing = False, e_hubType = ''GIT''\<rparr>,
     hp_data = [], drawerState = False, hp_name = '''', hp_key = '''', hp_delete = no_delete, hp_type = ''NONE'',
     hp_form = NoForm, hp_late = [], hp_sent = [], hp_refetched = 0\<rparr>"

section \<open>The drawer\<close>

definition form_kind :: "drawer_form \<Rightarrow> string" where
  "form_kind f = (case f of NoForm \<Rightarrow> ''none'' | GitForm _ \<Rightarrow> ''git'' | RemoteForm _ \<Rightarrow> ''remote'')"

definition shown_kind :: "string \<Rightarrow> string" where
  "shown_kind t = (if js_lower t = ''none'' then ''none'' else if js_lower t = ''git'' then ''git''
     else if js_lower t = ''remote'' then ''remote'' else ''none'')"

definition mount_form :: "EditHub \<Rightarrow> string \<Rightarrow> drawer_form" where
  "mount_form ed k = (if k = ''git'' then GitForm (git_mount ed) else if k = ''remote'' then RemoteForm (remote_mount ed) else NoForm)"

definition pending_of :: "drawer_form \<Rightarrow> hub_request option" where
  "pending_of f = (case f of NoForm \<Rightarrow> None | GitForm s \<Rightarrow> gf_pending s | RemoteForm s \<Rightarrow> rf_pending s)"

definition leave_form :: "hub_page \<Rightarrow> (hub_request \<times> string \<times> EditHub) list" where
  "leave_form p = (case pending_of (hp_form p) of None \<Rightarrow> [] | Some q \<Rightarrow> [(q, hp_name p, hp_edit p)])"

definition setHubType :: "string \<Rightarrow> hub_page \<Rightarrow> hub_page" where
  "setHubType t p = (if shown_kind t = form_kind (hp_form p) then p\<lparr>hp_type := t\<rparr>
     else p\<lparr>hp_type := t, hp_late := hp_late p @ leave_form p, hp_form := mount_form (hp_edit p) (shown_kind t)\<rparr>)"

definition edit_effect :: "hub_page \<Rightarrow> hub_page" where
  "edit_effect p = (if isEditing (hp_edit p) then setHubType (e_hubType (hp_edit p)) p else p)"

definition handleDrawerClose :: "hub_page \<Rightarrow> hub_page" where
  "handleDrawerClose p =
     (let p' = (if hp_name p \<noteq> '''' \<and> isEditing (hp_edit p)
                then p\<lparr>hp_name := '''', hp_edit := (hp_edit p)\<lparr>isEditing := False\<rparr>\<rparr> else p)
      in p'\<lparr>drawerState := False\<rparr>)"

definition handleDrawerCloseWithRefetch :: "string \<Rightarrow> EditHub \<Rightarrow> hub_page \<Rightarrow> hub_page" where
  "handleDrawerCloseWithRefetch nm ed p =
     (let p1 = p\<lparr>drawerState := False\<rparr>;
          p2 = (if nm \<noteq> '''' \<and> isEditing ed then p1\<lparr>hp_edit := ed\<lparr>isEditing := False\<rparr>, hp_name := ''''\<rparr> else p1)
      in p2\<lparr>hp_refetched := hp_refetched p2 + 1\<rparr>)"

definition resetDrawer :: "string \<Rightarrow> EditHub \<Rightarrow> hub_page \<Rightarrow> hub_page" where
  "resetDrawer nm ed p = handleDrawerCloseWithRefetch nm ed (setHubType ''NONE'' p)"

definition drawer_back :: "hub_page \<Rightarrow> hub_page" where
  "drawer_back p = (if isEditing (hp_edit p) then handleDrawerClose (setHubType ''NONE'' p)
     else if hp_type p = ''GIT'' \<or> hp_type p = ''REMOTE'' then setHubType ''NONE'' p
     else handleDrawerClose (setHubType ''NONE'' p))"

definition is_update :: "hub_request \<Rightarrow> bool" where
  "is_update q = (case q of UpdateHub _ \<Rightarrow> True | _ \<Rightarrow> False)"

definition reply_alert :: "hub_request \<Rightarrow> string option \<Rightarrow> string \<times> string" where
  "reply_alert q r = (case r of
     None \<Rightarrow> (''success'', if is_update q then ''My Hub configurations successfully updated''
                           else ''ChaosHub is successfully connected'')
   | Some m \<Rightarrow> (''error'', if is_update q then m else m @ ''. ''))"

definition hub_completed :: "string \<Rightarrow> EditHub \<Rightarrow> hub_request \<Rightarrow> string option \<Rightarrow> hub_page \<Rightarrow> hub_page" where
  "hub_completed nm ed q r p = resetDrawer nm ed (p\<lparr>displayResult := True, cloneResult := reply_alert q r\<rparr>)"

section \<open>The page\<close>

definition openHubDrawer :: "string \<Rightarrow> string \<Rightarrow> hub_page \<Rightarrow> hub_page" where
  "openHubDrawer nm t p = edit_effect (p\<lparr>hp_name := nm, hp_edit := \<lparr>isEditing = True, e_hubType = t\<rparr>, drawerState := True\<rparr>)"

definition card_type :: "HubDetails \<Rightarrow> string" where
  "card_type h = (if h_hubType h \<noteq> '''' then h_hubType h else ''git'')"

definition handleHubDelete :: "hub_page \<Rightarrow> hub_page" where
  "handleHubDelete p = p\<lparr>hp_sent := hp_sent p @ [DeleteCall (del_hubID (hp_delete p))], hp_delete := no_delete\<rparr>"

definition handleDelete :: "string \<Rightarrow> string \<Rightarrow> hub_page \<Rightarrow> hub_page" where
  "handleDelete i nm p = p\<lparr>hp_delete := \<lparr>deleteHubModal = True, del_hubID = i, del_hubName = nm\<rparr>\<rparr>"

definition handleRefresh :: "string \<Rightarrow> hub_page \<Rightarrow> hub_page" where
  "handleRefresh i p = p\<lparr>hp_key := i, hp_sent := hp_sent p @ [SyncCall i]\<rparr>"

definition form_submit :: "hub_page \<Rightarrow> hub_page" where
  "form_submit p = (case hp_form p of
     NoForm \<Rightarrow> p
   | GitForm s \<Rightarrow> (let (s', qs) = git_submit (hp_edit p) (hp_name p) s
                  in p\<lparr>hp_form := GitForm s', hp_sent := hp_sent p @ map FormCall qs\<rparr>)
   | RemoteForm s \<Rightarrow> (let (s', qs) = remote_submit (hp_edit p) (hp_name p) s
                     in p\<lparr>hp_form := RemoteForm s', hp_sent := hp_sent p @ map FormCall qs\<rparr>))"

definition form_answered :: "drawer_form \<Rightarrow> drawer_form" where
  "form_answered f = (case f of NoForm \<Rightarrow> NoForm | GitForm s \<Rightarrow> GitForm (s\<lparr>gf_pending := None\<rparr>)
     | RemoteForm s \<Rightarrow> RemoteForm (s\<lparr>rf_pending := None\<rparr>))"

definition form_loading :: "drawer_form \<Rightarrow> bool" where
  "form_loading f = (case f of NoForm \<Rightarrow> True | GitForm s \<Rightarrow> gf_loader s | RemoteForm s \<Rightarrow> rf_loader s)"

datatype hub_event =
    HubList "HubDetails list"
  | HubEdit HubDetails
  | HubConnect
  | HubRefresh HubDetails
  | HubAskDelete HubDetails
  | HubDeleteClose
  | HubDeleteConfirm
  | DrawerBack
  | DrawerPick string
  | OnGit git_event
  | OnRemote remote_event
  | FormSubmit
  | FormCancel
  | FormReply "string option"
  | LateReply nat "string option"
  | AlertClose

text \<open>The cards are behind the drawer while it is open, and behind the dialog that asks before a
  deletion; a viewer has no menu on them.\<close>

definition hub_do :: "string \<Rightarrow> hub_event \<Rightarrow> hub_page \<Rightarrow> hub_page" where
  "hub_do role e p =
     (let card = \<not> drawerState p \<and> \<not> deleteHubModal (hp_delete p) in
      case e of
        HubList hs \<Rightarrow> p\<lparr>hp_data := hs\<rparr>
      | HubEdit h \<Rightarrow> if card \<and> role \<noteq> ''Viewer'' \<and> h \<in> set (hp_data p) then openHubDrawer (h_name h) (card_type h) p else p
      | HubConnect \<Rightarrow> if card then p\<lparr>drawerState := True\<rparr> else p
      | HubRefresh h \<Rightarrow> if card \<and> role \<noteq> ''Viewer'' \<and> h \<in> set (hp_data p) then handleRefresh (h_id h) p else p
      | HubAskDelete h \<Rightarrow> if card \<and> role \<noteq> ''Viewer'' \<and> h \<in> set (hp_data p) then handleDelete (h_id h) (h_name h) p else p
      | HubDeleteClose \<Rightarrow> p\<lparr>hp_delete := no_delete\<rparr>
      | HubDeleteConfirm \<Rightarrow> if deleteHubModal (hp_delete p) then handleHubDelete p else p
      | DrawerBack \<Rightarrow> if drawerState p then drawer_back p else p
      | DrawerPick t \<Rightarrow> if drawerState p \<and> js_lower (hp_type p) = ''none'' \<and> t \<in> {''GIT'', ''REMOTE''} then setHubType t p else p
      | OnGit g \<Rightarrow> (case hp_form p of GitForm s \<Rightarrow> p\<lparr>hp_form := GitForm (git_step (hp_edit p) (hp_name p) g s)\<rparr> | _ \<Rightarrow> p)
      | OnRemote g \<Rightarrow> (case hp_form p of RemoteForm s \<Rightarrow> p\<lparr>hp_form := RemoteForm (remote_step (hp_edit p) (hp_name p) g s)\<rparr> | _ \<Rightarrow> p)
      | FormSubmit \<Rightarrow> if drawerState p then form_submit p else p
      | FormCancel \<Rightarrow> if drawerState p \<and> \<not> form_loading (hp_form p) then resetDrawer (hp_name p) (hp_edit p) p else p
      | FormReply r \<Rightarrow> (case pending_of (hp_form p) of None \<Rightarrow> p
          | Some q \<Rightarrow> hub_completed (hp_name p) (hp_edit p) q r (p\<lparr>hp_form := form_answered (hp_form p)\<rparr>))
      | LateReply i r \<Rightarrow> if i < length (hp_late p)
          then (case hp_late p ! i of (q, nm, ed) \<Rightarrow> hub_completed nm ed q r (p\<lparr>hp_late := remove_at i (hp_late p)\<rparr>)) else p
      | AlertClose \<Rightarrow> p\<lparr>displayResult := False\<rparr>)"

definition hub_run :: "string \<Rightarrow> hub_event list \<Rightarrow> hub_page \<Rightarrow> hub_page" where
  "hub_run role es p = fold (hub_do role) es p"

section \<open>What every run keeps\<close>

definition sent_fine :: "hub_request \<Rightarrow> bool" where
  "sent_fine q = (case request_of q of
     Some r \<Rightarrow> (case r_key r of
         Some _ \<Rightarrow> isValidWebUrl (r_url r) \<and> r_branch r \<noteq> '''' \<and> (r_private r \<longleftrightarrow> r_authType r \<noteq> ''NONE'')
           \<and> (r_authType r = ''TOKEN'' \<longrightarrow> r_token r \<noteq> Some '''')
       | None \<Rightarrow> r_url r \<noteq> '''' \<and> \<not> validateStartEmptySpacing (r_url r) \<and> \<not> r_private r \<and> r_authType r = ''NONE'')
   | None \<Rightarrow> (case q of AddRemoteHub _ u \<Rightarrow> u \<noteq> '''' \<and> \<not> validateStartEmptySpacing u | _ \<Rightarrow> False))"

definition call_fine :: "hub_call \<Rightarrow> bool" where
  "call_fine c = (case c of FormCall q \<Rightarrow> sent_fine q | _ \<Rightarrow> True)"

definition toggles_ok :: "drawer_form \<Rightarrow> bool" where
  "toggles_ok f = (case f of GitForm s \<Rightarrow> isPrivateToggled s = (\<not> isPublicToggled s) | _ \<Rightarrow> True)"

definition closed_clean :: "hub_page \<Rightarrow> bool" where
  "closed_clean p \<longleftrightarrow> (drawerState p \<or> (\<not> isEditing (hp_edit p) \<and> hp_name p = '''' \<and> hp_type p = ''NONE'' \<and> hp_form p = NoForm))"

definition hub_page_ok :: "hub_page \<Rightarrow> bool" where
  "hub_page_ok p \<longleftrightarrow> closed_clean p \<and> form_kind (hp_form p) = shown_kind (hp_type p)
     \<and> (isEditing (hp_edit p) \<longleftrightarrow> hp_name p \<noteq> '''') \<and> toggles_ok (hp_form p)
     \<and> list_all (\<lambda>h. h_name h \<noteq> '''') (hp_data p) \<and> list_all call_fine (hp_sent p)"

fun polite :: "hub_event \<Rightarrow> bool" where
  "polite (HubList hs) = list_all (\<lambda>h. h_name h \<noteq> '''') hs"
| "polite (LateReply i r) = False"
| "polite e = True"

lemma kinds: "shown_kind ''NONE'' = ''none''" "form_kind NoForm = ''none''"
  by (simp_all add: shown_kind_def form_kind_def auth_names)

lemma form_kind_none: "form_kind f = ''none'' \<longleftrightarrow> f = NoForm"
  by (cases f) (simp_all add: form_kind_def)

lemma mount_kind: "form_kind (mount_form ed (shown_kind t)) = shown_kind t"
  by (simp add: mount_form_def shown_kind_def form_kind_def)

lemma mount_toggles: "toggles_ok (mount_form ed k)"
  by (simp add: mount_form_def toggles_ok_def git_mount_def)

lemma setHubType_frame:
  "hp_type (setHubType t p) = t" "drawerState (setHubType t p) = drawerState p" "hp_edit (setHubType t p) = hp_edit p"
  "hp_name (setHubType t p) = hp_name p" "hp_data (setHubType t p) = hp_data p" "hp_sent (setHubType t p) = hp_sent p"
  "form_kind (hp_form (setHubType t p)) = shown_kind t"
  "toggles_ok (hp_form p) \<Longrightarrow> toggles_ok (hp_form (setHubType t p))"
  by (simp_all add: setHubType_def mount_kind mount_toggles)

lemma setHubType_none: "hp_form (setHubType ''NONE'' p) = NoForm"
  using setHubType_frame(7) [of "''NONE''" p] by (simp add: kinds form_kind_none)

lemmas hub_page_defs = hub_page_ok_def closed_clean_def handleDrawerClose_def handleDrawerCloseWithRefetch_def
  resetDrawer_def drawer_back_def setHubType_frame setHubType_none kinds Let_def

lemma resetDrawer_ok:
  "hub_page_ok p \<Longrightarrow> hub_page_ok (resetDrawer (hp_name p) (hp_edit p) p)"
  by (auto simp: hub_page_defs toggles_ok_def)

lemma drawer_back_ok: "hub_page_ok p \<Longrightarrow> hub_page_ok (drawer_back p)"
  by (auto simp: hub_page_defs toggles_ok_def)

lemma setHubType_ok: "hub_page_ok p \<Longrightarrow> drawerState p \<Longrightarrow> hub_page_ok (setHubType t p)"
  by (simp add: hub_page_defs)

lemma openHubDrawer_ok:
  "hub_page_ok p \<Longrightarrow> nm \<noteq> '''' \<Longrightarrow> hub_page_ok (openHubDrawer nm t p)"
  by (simp add: openHubDrawer_def edit_effect_def hub_page_defs)

lemma git_step_toggles:
  "isPrivateToggled s = (\<not> isPublicToggled s) \<Longrightarrow>
     isPrivateToggled (git_step ed nm e s) = (\<not> isPublicToggled (git_step ed nm e s))"
  by (auto simp: git_step_def git_status_def git_load_def setIsToggled_def Let_def
      split: git_event.splits credential_event.splits option.splits)

lemma git_sends_fine:
  assumes "git_submit ed nm s = (s', qs)" "isPrivateToggled s = (\<not> isPublicToggled s)"
  shows "list_all sent_fine qs" "isPrivateToggled s' = (\<not> isPublicToggled s')"
  using assms
  by (auto simp: git_submit_def sent_fine_def git_handleSubmit_def git_request_def request_of_def git_disabled_def
      git_required_def authType_of_def Let_def split: if_splits)

lemma remote_sends_fine:
  "remote_submit ed nm s = (s', qs) \<Longrightarrow> list_all sent_fine qs"
  by (auto simp: remote_submit_def sent_fine_def remote_handleSubmit_def remote_request_def request_of_def
      Let_def split: if_splits)

lemma form_submit_ok: "hub_page_ok p \<Longrightarrow> hub_page_ok (form_submit p)"
proof (cases "hp_form p")
  case (GitForm s)
  obtain s' qs where "git_submit (hp_edit p) (hp_name p) s = (s', qs)" by fastforce
  moreover assume "hub_page_ok p"
  ultimately show ?thesis using GitForm git_sends_fine [of _ _ s s' qs]
    by (auto simp: form_submit_def hub_page_defs toggles_ok_def form_kind_def call_fine_def list_all_iff)
next
  case (RemoteForm s)
  obtain s' qs where "remote_submit (hp_edit p) (hp_name p) s = (s', qs)" by fastforce
  moreover assume "hub_page_ok p"
  ultimately show ?thesis using RemoteForm remote_sends_fine [of _ _ s s' qs]
    by (auto simp: form_submit_def hub_page_defs toggles_ok_def form_kind_def call_fine_def list_all_iff)
qed (simp add: form_submit_def)

lemma form_answered_keeps:
  "form_kind (form_answered f) = form_kind f" "toggles_ok (form_answered f) = toggles_ok f"
  "form_answered f = NoForm \<longleftrightarrow> f = NoForm"
  by (cases f; simp add: form_answered_def form_kind_def toggles_ok_def)+

lemma form_reply_ok:
  assumes "hub_page_ok p"
  shows "hub_page_ok (hub_completed (hp_name p) (hp_edit p) q r (p\<lparr>hp_form := form_answered (hp_form p)\<rparr>))"
proof -
  let ?p = "p\<lparr>hp_form := form_answered (hp_form p), displayResult := True, cloneResult := reply_alert q r\<rparr>"
  have "hub_page_ok ?p" using assms by (auto simp: hub_page_defs form_answered_keeps)
  from resetDrawer_ok [OF this] show ?thesis by (simp add: hub_completed_def)
qed

lemma hub_do_ok:
  assumes ok: "hub_page_ok p" and e: "polite e"
  shows "hub_page_ok (hub_do role e p)"
proof -
  have named: "h \<in> set (hp_data p) \<Longrightarrow> h_name h \<noteq> ''''" for h
    using ok by (simp add: hub_page_ok_def list_all_iff)
  show ?thesis
  proof (cases e)
    case (HubEdit h)
    then show ?thesis using ok named openHubDrawer_ok [OF ok] by (simp add: hub_do_def)
  next
    case (OnGit g)
    show ?thesis
    proof (cases "hp_form p")
      case (GitForm s)
      then show ?thesis using ok OnGit git_step_toggles [of s]
        by (simp add: hub_do_def hub_page_ok_def closed_clean_def toggles_ok_def form_kind_def)
    qed (use ok OnGit in \<open>simp_all add: hub_do_def\<close>)
  next
    case (OnRemote g)
    show ?thesis
    proof (cases "hp_form p")
      case (RemoteForm s)
      then show ?thesis using ok OnRemote
        by (simp add: hub_do_def hub_page_ok_def closed_clean_def toggles_ok_def form_kind_def)
    qed (use ok OnRemote in \<open>simp_all add: hub_do_def\<close>)
  next
    case (FormReply r)
    then show ?thesis using ok form_reply_ok [OF ok] by (simp add: hub_do_def split: option.split)
  next
    case (LateReply i r)
    then show ?thesis using e by simp
  next
    case DrawerBack
    then show ?thesis using ok drawer_back_ok [OF ok] by (simp add: hub_do_def)
  next
    case (DrawerPick t)
    then show ?thesis using ok setHubType_ok [OF ok] by (simp add: hub_do_def)
  next
    case FormSubmit
    then show ?thesis using ok form_submit_ok [OF ok] by (simp add: hub_do_def)
  next
    case FormCancel
    then show ?thesis using ok resetDrawer_ok [OF ok] by (simp add: hub_do_def)
  qed (use ok e in \<open>auto simp: hub_do_def hub_page_ok_def closed_clean_def call_fine_def handleHubDelete_def
      handleDelete_def handleRefresh_def\<close>)
qed

lemma hub_run_ok: "hub_page_ok p \<Longrightarrow> list_all polite es \<Longrightarrow> hub_page_ok (hub_run role es p)"
  unfolding hub_run_def by (induction es arbitrary: p) (simp_all add: hub_do_ok)

lemma hub_page_init_ok: "hub_page_ok hub_page_init"
  by (simp add: hub_page_init_def hub_page_ok_def closed_clean_def form_kind_def shown_kind_def auth_names toggles_ok_def)


section \<open>Editing a hub without changes\<close>

definition sent_back :: "HubDetails \<Rightarrow> MyHubRequest" where
  "sent_back h = (if h_hubType h = ''REMOTE'' then same_remote h else same_hub h)"

definition hub_storable :: "HubDetails \<Rightarrow> bool" where
  "hub_storable h \<longleftrightarrow> (h_hubType h = ''GIT'' \<and> git_storable h) \<or> remote_storable h"

definition status_event :: "HubDetails \<Rightarrow> HubDetails list \<Rightarrow> hub_event" where
  "status_event h hs = (if h_hubType h = ''REMOTE'' then OnRemote (RemoteStatus hs) else OnGit (GitStatus hs))"

lemma hub_types: "shown_kind ''GIT'' = ''git''" "shown_kind ''REMOTE'' = ''remote''"
  by code_simp+

lemma opened_form:
  assumes "closed_clean p" "\<not> drawerState p" "h_hubType h \<in> {''GIT'', ''REMOTE''}"
  shows "openHubDrawer (h_name h) (card_type h) p = p\<lparr>hp_name := h_name h, hp_edit := \<lparr>isEditing = True, e_hubType = h_hubType h\<rparr>,
     drawerState := True, hp_type := h_hubType h,
     hp_form := mount_form \<lparr>isEditing = True, e_hubType = h_hubType h\<rparr> (shown_kind (h_hubType h))\<rparr>"
  using assms
  by (auto simp: openHubDrawer_def edit_effect_def setHubType_def card_type_def closed_clean_def kinds hub_types
      leave_form_def pending_of_def)


section \<open>A reply that comes late\<close>

text \<open>A hub is being connected, the user goes back, closes the drawer and edits another hub; the
  reply to the first request closes the drawer but takes the edit state of its own form. The
  drawer is closed in the state of editing, and connecting a new hub then changes the edited one.\<close>

definition a_hub :: HubDetails where
  "a_hub = \<lparr>h_id = ''1'', h_name = ''mine'', h_url = ''https://github.com/a/b'', h_branch = ''main'',
     h_authType = Some ''NONE'', h_hubType = ''GIT'', h_private = False, h_token = '''', h_sshPrivate = '''', h_sshPublic = ''''\<rparr>"

definition late_run :: "hub_event list" where
  "late_run = [HubList [a_hub], HubConnect, DrawerPick ''GIT'', OnGit (GitName ''new''), OnGit (GitUrl ''https://github.com/c/d''),
     OnGit (GitBranchTo ''main''), FormSubmit, DrawerBack, DrawerBack, HubEdit a_hub, LateReply 0 None]"

definition after_late :: "hub_event list" where
  "after_late = [HubConnect, DrawerPick ''GIT'', OnGit (GitStatus [a_hub]), OnGit (GitName ''third''), FormSubmit]"

lemma late_urls: "isValidWebUrl ''https://github.com/a/b''" "isValidWebUrl ''https://github.com/c/d''"
  by code_simp+

lemma late_reply_leaves_editing:
  "\<not> drawerState (hub_run ''Owner'' late_run hub_page_init)"
  "isEditing (hp_edit (hub_run ''Owner'' late_run hub_page_init))"
  "hp_name (hub_run ''Owner'' late_run hub_page_init) = ''mine''"
  by code_simp+

lemma new_hub_overwrites_the_edited:
  "case last (hp_sent (hub_run ''Owner'' (late_run @ after_late) hub_page_init)) of
     FormCall (UpdateHub r) \<Rightarrow> r_id r = Some ''1'' \<and> r_name r = ''third'' | _ \<Rightarrow> False"
  by code_simp

lemma a_hub_storable: "hub_storable a_hub"
  by code_simp



end
