(* ===== verification/GitOps.thy ===== *)
theory GitOps
  imports HubForms
begin

text \<open>
  The GitOps tab of the settings, \<open>views/Settings/GitOpsTab/index.tsx\<close>: the choice between
  storing scenarios locally and in a repository, the form of the repository with the same
  credentials as a hub's, and the three mutations. The server's replies are events.
\<close>

section \<open>State\<close>

record GitOpsData =
  go_enabled :: bool
  go_branch :: "string option"
  go_repoURL :: "string option"
  go_authType :: "string option"
  go_token :: "string option"
  go_sshPrivate :: "string option"

record gitops_config =
  gc_projectID :: string
  gc_repoURL :: string
  gc_branch :: string
  gc_authType :: "string option"
  gc_token :: "string option"
  gc_userName :: string
  gc_password :: string
  gc_sshPrivate :: "string option"

datatype gitops_call =
    EnableGitOps gitops_config
  | UpdateGitOps gitops_config
  | DisableGitOps string
  | FetchGitOps

record gitops_page =
  go_value :: string
  go_url :: string
  go_to :: string
  gitopsResult :: "string \<times> string"
  go_open :: bool
  go_cred :: credentials
  confirmModal :: bool
  isGitOpsEnabled :: bool
  go_data :: "GitOpsData option"
  go_enabling :: bool
  go_updating :: bool
  go_disabling :: bool
  go_sent :: "gitops_call list"

definition gitops_init :: gitops_page where
  "gitops_init = \<lparr>go_value = ''disabled'', go_url = '''', go_to = '''', gitopsResult = ('''', ''''), go_open = False,
     go_cred = credentials_init, confirmModal = False, isGitOpsEnabled = False, go_data = None, go_enabling = False,
     go_updating = False, go_disabling = False, go_sent = [FetchGitOps]\<rparr>"

definition or_empty :: "string option \<Rightarrow> string" where
  "or_empty v = (case v of None \<Rightarrow> '''' | Some t \<Rightarrow> t)"

definition data_enabled :: "gitops_page \<Rightarrow> bool option" where
  "data_enabled s = map_option go_enabled (go_data s)"

section \<open>Handlers\<close>

definition gitops_effect :: "gitops_page \<Rightarrow> gitops_page" where
  "gitops_effect s = (case go_data s of None \<Rightarrow> s
     | Some d \<Rightarrow> if go_enabled d then s\<lparr>go_value := ''enabled'', isGitOpsEnabled := True\<rparr>
                else s\<lparr>go_value := ''disabled'', isGitOpsEnabled := False\<rparr>)"

text \<open>The client hands out the same data object when a reply repeats it, so the effect runs when it
  differs.\<close>

definition gitops_details :: "GitOpsData \<Rightarrow> gitops_page \<Rightarrow> gitops_page" where
  "gitops_details d s = (if go_data s = Some d then s else gitops_effect (s\<lparr>go_data := Some d\<rparr>))"

definition gitops_completed :: "string \<Rightarrow> string option \<Rightarrow> gitops_page \<Rightarrow> gitops_page" where
  "gitops_completed done_text r s = (case r of
     Some m \<Rightarrow> s\<lparr>go_open := True, gitopsResult := (''fail'', m)\<rparr>
   | None \<Rightarrow> s\<lparr>go_open := True, gitopsResult := (''success'', done_text)\<rparr>)"

definition enable_completed :: "string option \<Rightarrow> gitops_page \<Rightarrow> gitops_page" where
  "enable_completed r s =
     (let s' = gitops_completed ''Successfully enabled GitOps!'' r (s\<lparr>go_enabling := False\<rparr>)
      in if r = None then s'\<lparr>isGitOpsEnabled := True\<rparr> else s')"

definition update_completed :: "string option \<Rightarrow> gitops_page \<Rightarrow> gitops_page" where
  "update_completed r s =
     (let s' = gitops_completed ''Successfully updated GitOps!'' r (s\<lparr>go_updating := False\<rparr>)
      in if r = None then s'\<lparr>isGitOpsEnabled := True\<rparr> else s')"

definition disable_completed :: "string option \<Rightarrow> gitops_page \<Rightarrow> gitops_page" where
  "disable_completed r s =
     (let s' = gitops_completed ''Successfully disabled GitOps!'' r (s\<lparr>go_disabling := False\<rparr>)
      in if r = None then s'\<lparr>go_url := '''', go_to := '''', go_cred := (go_cred s')\<lparr>sshKey := no_key\<rparr>\<rparr> else s')"

definition gitops_handleClose :: "gitops_page \<Rightarrow> gitops_page" where
  "gitops_handleClose s = s\<lparr>go_open := False, go_sent := go_sent s @ [FetchGitOps]\<rparr>"

definition onConfirmEdit :: "gitops_page \<Rightarrow> gitops_page" where
  "onConfirmEdit s = s\<lparr>isGitOpsEnabled := False, go_url := or_empty (Option.bind (go_data s) go_repoURL),
     go_to := or_empty (Option.bind (go_data s) go_branch),
     go_cred := (go_cred s)\<lparr>privateHub := '''', accessToken := '''', sshKey := no_key\<rparr>, confirmModal := False\<rparr>"

definition chosen_auth :: "string \<Rightarrow> string" where
  "chosen_auth m = (if m = ''token'' then ''TOKEN'' else if m = ''ssh'' then ''SSH'' else ''NONE'')"

definition enable_config :: "string \<Rightarrow> gitops_page \<Rightarrow> gitops_config" where
  "enable_config pid s = \<lparr>gc_projectID = pid, gc_repoURL = go_url s, gc_branch = go_to s,
     gc_authType = Some (chosen_auth (privateHub (go_cred s))), gc_token = Some (accessToken (go_cred s)),
     gc_userName = ''user'', gc_password = ''user'', gc_sshPrivate = Some (privateKey (sshKey (go_cred s)))\<rparr>"

definition update_config :: "string \<Rightarrow> gitops_page \<Rightarrow> gitops_config" where
  "update_config pid s =
     (let m = privateHub (go_cred s) in
      \<lparr>gc_projectID = pid, gc_repoURL = go_url s, gc_branch = go_to s,
       gc_authType = (if m = '''' then Option.bind (go_data s) go_authType else Some (chosen_auth m)),
       gc_token = (if m = '''' then Option.bind (go_data s) go_token else Some (accessToken (go_cred s))),
       gc_userName = ''user'', gc_password = ''user'',
       gc_sshPrivate = (if m = '''' then Option.bind (go_data s) go_sshPrivate else Some (privateKey (sshKey (go_cred s))))\<rparr>)"

definition gitops_handleSubmit :: "string \<Rightarrow> gitops_page \<Rightarrow> gitops_page" where
  "gitops_handleSubmit pid s =
     (if go_value s = ''enabled'' then
        (let s1 = (if data_enabled s = Some False
                   then s\<lparr>go_enabling := True, go_sent := go_sent s @ [EnableGitOps (enable_config pid s)]\<rparr> else s)
         in if data_enabled s = Some True
            then s1\<lparr>go_updating := True, go_sent := go_sent s1 @ [UpdateGitOps (update_config pid s)]\<rparr> else s1)
      else s)"

section \<open>Events\<close>

datatype gitops_event =
    GoDetails GitOpsData
  | GoRadio string
  | GoURL string
  | GoBranch string
  | GoCred credential_event
  | GoSubmit
  | GoDisable
  | GoEdit
  | GoConfirm
  | GoCancel
  | GoClose
  | GoEnabled "string option"
  | GoUpdated "string option"
  | GoDisabled "string option"

text \<open>What is on the screen: nothing before the first reply; the form when GitOps counts as not
  enabled and the repository is chosen; the stored repository with its edit button otherwise. The
  form's address and branch are required.\<close>

definition form_visible :: "gitops_page \<Rightarrow> bool" where
  "form_visible s \<longleftrightarrow> go_data s \<noteq> None \<and> \<not> isGitOpsEnabled s \<and> go_value s = ''enabled''"

definition gitops_step :: "string \<Rightarrow> gitops_event \<Rightarrow> gitops_page \<Rightarrow> gitops_page" where
  "gitops_step pid e s = (case e of
     GoDetails d \<Rightarrow> gitops_details d s
   | GoRadio v \<Rightarrow> if go_data s \<noteq> None \<and> v \<in> {''enabled'', ''disabled''} then s\<lparr>go_value := v\<rparr> else s
   | GoURL v \<Rightarrow> if form_visible s then s\<lparr>go_url := v\<rparr> else s
   | GoBranch v \<Rightarrow> if form_visible s then s\<lparr>go_to := v\<rparr> else s
   | GoCred c \<Rightarrow> if form_visible s \<or> (case c of KeyReply _ \<Rightarrow> True | KeyFails \<Rightarrow> True | _ \<Rightarrow> False)
       then s\<lparr>go_cred := credential_step c (go_cred s)\<rparr> else s
   | GoSubmit \<Rightarrow> if form_visible s \<and> go_url s \<noteq> '''' \<and> go_to s \<noteq> '''' \<and> \<not> go_enabling s \<and> \<not> go_updating s
       then gitops_handleSubmit pid s else s
   | GoDisable \<Rightarrow> if go_value s = ''disabled'' \<and> data_enabled s = Some True \<and> \<not> go_disabling s
       then s\<lparr>go_disabling := True, go_sent := go_sent s @ [DisableGitOps pid]\<rparr> else s
   | GoEdit \<Rightarrow> if go_data s \<noteq> None \<and> isGitOpsEnabled s then s\<lparr>confirmModal := True\<rparr> else s
   | GoConfirm \<Rightarrow> if confirmModal s \<and> isGitOpsEnabled s then onConfirmEdit s else s
   | GoCancel \<Rightarrow> s\<lparr>confirmModal := False\<rparr>
   | GoClose \<Rightarrow> if go_open s then gitops_handleClose s else s
   | GoEnabled r \<Rightarrow> if go_enabling s then enable_completed r s else s
   | GoUpdated r \<Rightarrow> if go_updating s then update_completed r s else s
   | GoDisabled r \<Rightarrow> if go_disabling s then disable_completed r s else s)"

definition gitops_run :: "string \<Rightarrow> gitops_event list \<Rightarrow> gitops_page \<Rightarrow> gitops_page" where
  "gitops_run pid es s = fold (gitops_step pid) es s"

section \<open>What is sent\<close>

definition gitops_call_ok :: "string \<Rightarrow> gitops_call \<Rightarrow> bool" where
  "gitops_call_ok pid c = (case c of
     EnableGitOps g \<Rightarrow> gc_projectID g = pid \<and> gc_repoURL g \<noteq> '''' \<and> gc_branch g \<noteq> ''''
       \<and> gc_authType g \<in> {Some ''TOKEN'', Some ''SSH'', Some ''NONE''} \<and> gc_token g \<noteq> None \<and> gc_sshPrivate g \<noteq> None
   | UpdateGitOps g \<Rightarrow> gc_projectID g = pid \<and> gc_repoURL g \<noteq> '''' \<and> gc_branch g \<noteq> ''''
   | DisableGitOps p \<Rightarrow> p = pid
   | FetchGitOps \<Rightarrow> True)"

definition gitops_ok :: "string \<Rightarrow> gitops_page \<Rightarrow> bool" where
  "gitops_ok pid s \<longleftrightarrow> list_all (gitops_call_ok pid) (go_sent s) \<and> \<not> (go_enabling s \<and> go_updating s)
     \<and> go_value s \<in> {''enabled'', ''disabled''}"

lemma gitops_step_ok:
  assumes "gitops_ok pid s"
  shows "gitops_ok pid (gitops_step pid e s)"
  using assms
  by (cases e) (auto simp: gitops_step_def gitops_ok_def gitops_details_def gitops_effect_def gitops_completed_def
      enable_completed_def update_completed_def disable_completed_def gitops_handleClose_def onConfirmEdit_def
      gitops_handleSubmit_def gitops_call_ok_def enable_config_def update_config_def chosen_auth_def Let_def
      split: option.split)

lemma gitops_run_ok: "gitops_ok pid s \<Longrightarrow> gitops_ok pid (gitops_run pid es s)"
  unfolding gitops_run_def by (induction es arbitrary: s) (simp_all add: gitops_step_ok)

lemma gitops_init_ok: "gitops_ok pid gitops_init"
  by (simp add: gitops_ok_def gitops_init_def gitops_call_ok_def)

text \<open>Editing and submitting without a change sends the stored repository and credentials.\<close>

definition stored_config :: "string \<Rightarrow> GitOpsData \<Rightarrow> gitops_config" where
  "stored_config pid d = \<lparr>gc_projectID = pid, gc_repoURL = or_empty (go_repoURL d), gc_branch = or_empty (go_branch d),
     gc_authType = go_authType d, gc_token = go_token d, gc_userName = ''user'', gc_password = ''user'',
     gc_sshPrivate = go_sshPrivate d\<rparr>"

lemma unchanged_gitops_is_sent_back:
  assumes "go_data s = Some d" "go_enabled d" "isGitOpsEnabled s" "go_value s = ''enabled''"
    "\<not> go_enabling s" "\<not> go_updating s" "or_empty (go_repoURL d) \<noteq> ''''" "or_empty (go_branch d) \<noteq> ''''"
  shows "go_sent (gitops_run pid [GoEdit, GoConfirm, GoSubmit] s) = go_sent s @ [UpdateGitOps (stored_config pid d)]"
  using assms
  by (simp add: gitops_run_def gitops_step_def onConfirmEdit_def form_visible_def gitops_handleSubmit_def
      data_enabled_def update_config_def stored_config_def Let_def)

text \<open>After an edit that ends in disabling GitOps no method is chosen any more, and enabling it again
  sends a repository without authentication although the page never offers that.\<close>

definition enabled_data :: GitOpsData where
  "enabled_data = \<lparr>go_enabled = True, go_branch = Some ''main'', go_repoURL = Some ''u'', go_authType = Some ''TOKEN'',
     go_token = Some ''t'', go_sshPrivate = Some ''''\<rparr>"

definition disabled_data :: GitOpsData where
  "disabled_data = \<lparr>go_enabled = False, go_branch = Some '''', go_repoURL = Some '''', go_authType = Some '''',
     go_token = Some '''', go_sshPrivate = Some ''''\<rparr>"

lemma enabled_again_without_method:
  "last (go_sent (gitops_run ''p'' [GoDetails enabled_data, GoEdit, GoConfirm, GoRadio ''disabled'', GoDisable,
       GoDisabled None, GoClose, GoDetails disabled_data, GoRadio ''enabled'', GoURL ''u'', GoBranch ''main'', GoSubmit]
     gitops_init)) =
   EnableGitOps \<lparr>gc_projectID = ''p'', gc_repoURL = ''u'', gc_branch = ''main'', gc_authType = Some ''NONE'',
     gc_token = Some '''', gc_userName = ''user'', gc_password = ''user'', gc_sshPrivate = Some ''''\<rparr>"
  by code_simp

text \<open>A key that arrives after the token was chosen is sent beside the token.\<close>

lemma late_key_is_sent:
  "last (go_sent (gitops_run ''p'' [GoDetails disabled_data, GoRadio ''enabled'', GoCred (ChooseMethod ''ssh''),
       GoCred (ChooseMethod ''token''), GoCred (TypeToken ''t''), GoCred (KeyReply \<lparr>privateKey = ''k'', publicKey = ''q''\<rparr>),
       GoURL ''u'', GoBranch ''main'', GoSubmit] gitops_init)) =
   EnableGitOps \<lparr>gc_projectID = ''p'', gc_repoURL = ''u'', gc_branch = ''main'', gc_authType = Some ''TOKEN'',
     gc_token = Some ''t'', gc_userName = ''user'', gc_password = ''user'', gc_sshPrivate = Some ''k''\<rparr>"
  by code_simp

text \<open>Only the reply to a successful change closes the form: when the server refuses, the form keeps
  everything that was typed.\<close>

lemma refused_change_keeps_the_form:
  "go_url (gitops_step pid (GoEnabled (Some m)) s) = go_url s" "go_to (gitops_step pid (GoEnabled (Some m)) s) = go_to s"
  "go_cred (gitops_step pid (GoUpdated (Some m)) s) = go_cred s"
  "isGitOpsEnabled (gitops_step pid (GoEnabled (Some m)) s) = isGitOpsEnabled s"
  "isGitOpsEnabled (gitops_step pid (GoUpdated (Some m)) s) = isGitOpsEnabled s"
  by (simp_all add: gitops_step_def enable_completed_def update_completed_def gitops_completed_def Let_def)

end
