(* ===== verification/Agents.thy ===== *)
theory Agents
  imports HubForms ObsTables
begin

text \<open>
  The table of chaos delegates, \<open>views/Targets/BrowseCluster\<close>, and the pages of one ChaosHub,
  \<open>views/MyHub\<close>: its charts and predefined scenarios with their search, and the links of an
  experiment. \<open>ms\<close> is the time moment reads from a date's text, \<open>from_day\<close>, \<open>to_day\<close> and \<open>fmt\<close> are the
  texts the Date and moment libraries make of the chosen days; timestamps are the numbers their
  texts read as.
\<close>

section \<open>The table of delegates\<close>

record ClusterInfo =
  clusterID :: string
  clusterName :: string
  isClusterConfirmed :: bool
  isActive :: bool
  updatedAt :: int
  createdAt :: int
  clusterType :: string
  cl_version :: string

record cluster_filters =
  cl_search :: string
  cl_status :: string
  cl_cluster :: string

record DateData =
  dateValue :: string
  fromDate :: string
  toDate :: "string option"

record cluster_table =
  cl_filters :: cluster_filters
  dateRange :: DateData
  cl_by_name :: sort_choice
  cl_by_run :: sort_choice
  cl_page :: nat
  cl_rows :: nat

definition cluster_init :: "string \<Rightarrow> string \<Rightarrow> cluster_table" where
  "cluster_init epoch today = \<lparr>cl_filters = \<lparr>cl_search = '''', cl_status = ''All'', cl_cluster = ''All''\<rparr>,
     dateRange = \<lparr>dateValue = ''Select a period'', fromDate = epoch, toDate = Some today\<rparr>,
     cl_by_name = off, cl_by_run = \<lparr>sorts = True, ascending = True\<rparr>, cl_page = 0, cl_rows = 5\<rparr>"

definition show_bool :: "bool \<Rightarrow> string" where
  "show_bool b = (if b then ''true'' else ''false'')"

definition keep_status :: "string \<Rightarrow> ClusterInfo \<Rightarrow> bool" where
  "keep_status v d = (if v = ''All'' then True
     else if \<not> isClusterConfirmed d then js_includes ''pending'' (js_lower v)
     else js_includes (js_lower (show_bool (isActive d))) (js_lower v))"

definition keep_cluster :: "string \<Rightarrow> ClusterInfo \<Rightarrow> bool" where
  "keep_cluster v d = (if v = ''All'' then True else js_includes (js_lower (clusterType d)) (js_lower v))"

definition keep_dates :: "(string \<Rightarrow> int) \<Rightarrow> DateData \<Rightarrow> ClusterInfo \<Rightarrow> bool" where
  "keep_dates ms r d = (case toDate r of
     None \<Rightarrow> fromDate r \<noteq> ''''
   | Some t \<Rightarrow> updatedAt d * 1000 \<ge> ms (fromDate r) \<and> updatedAt d * 1000 \<le> ms t)"

definition cluster_cmp :: "cluster_table \<Rightarrow> ClusterInfo \<Rightarrow> ClusterInfo \<Rightarrow> int" where
  "cluster_cmp s a b = (if sorts (cl_by_name s) then by_text (cl_by_name s) (clusterName a) (clusterName b)
     else if sorts (cl_by_run s) then by_time (cl_by_run s) (createdAt b) (createdAt a) else 0)"

definition cluster_payload :: "(string \<Rightarrow> int) \<Rightarrow> cluster_table \<Rightarrow> ClusterInfo list \<Rightarrow> ClusterInfo list" where
  "cluster_payload ms s ds = js_sort (cluster_cmp s)
     (filter (keep_dates ms (dateRange s))
     (filter (keep_cluster (cl_cluster (cl_filters s)))
     (filter (keep_status (cl_status (cl_filters s)))
     (filter (\<lambda>d. js_includes (js_lower (clusterName d)) (js_lower (cl_search (cl_filters s)))) ds))))"

datatype cluster_event =
    ClusterSearch string
  | ClusterStatus string
  | ClusterScope string
  | ClusterDates string string
  | SortRunDown
  | SortNameDown
  | ClusterPage nat
  | ClusterRows nat

definition cluster_dateChange :: "(string \<Rightarrow> string) \<Rightarrow> (string \<Rightarrow> string) \<Rightarrow> (string \<Rightarrow> string) \<Rightarrow> string \<Rightarrow> string \<Rightarrow> DateData" where
  "cluster_dateChange fmt from_day to_day a b = \<lparr>dateValue = fmt a @ ''-'' @ fmt b, fromDate = from_day a, toDate = Some (to_day b)\<rparr>"

definition cluster_handle :: "(string \<Rightarrow> string) \<Rightarrow> (string \<Rightarrow> string) \<Rightarrow> (string \<Rightarrow> string) \<Rightarrow> cluster_event \<Rightarrow> cluster_table \<Rightarrow> cluster_table" where
  "cluster_handle fmt from_day to_day e s = (case e of
     ClusterSearch v \<Rightarrow> s\<lparr>cl_filters := (cl_filters s)\<lparr>cl_search := v\<rparr>\<rparr>
   | ClusterStatus v \<Rightarrow> s\<lparr>cl_filters := (cl_filters s)\<lparr>cl_status := v\<rparr>\<rparr>
   | ClusterScope v \<Rightarrow> s\<lparr>cl_filters := (cl_filters s)\<lparr>cl_cluster := v\<rparr>\<rparr>
   | ClusterDates a b \<Rightarrow> s\<lparr>dateRange := cluster_dateChange fmt from_day to_day a b\<rparr>
   | SortRunDown \<Rightarrow> s\<lparr>cl_by_run := \<lparr>sorts = True, ascending = False\<rparr>\<rparr>
   | SortNameDown \<Rightarrow> s\<lparr>cl_by_name := \<lparr>sorts = True, ascending = False\<rparr>\<rparr>
   | ClusterPage n \<Rightarrow> s\<lparr>cl_page := n\<rparr>
   | ClusterRows n \<Rightarrow> s\<lparr>cl_page := 0, cl_rows := n\<rparr>)"

definition cluster_shown :: "(string \<Rightarrow> int) \<Rightarrow> cluster_table \<Rightarrow> ClusterInfo list \<Rightarrow> ClusterInfo list" where
  "cluster_shown ms s ds = page_rows (cl_page s) (cl_rows s) (cluster_payload ms s ds)"

subsection \<open>A row\<close>

definition status_pill :: "ClusterInfo \<Rightarrow> string" where
  "status_pill d = (if \<not> isClusterConfirmed d then ''warning'' else if isActive d then ''success'' else ''danger'')"

record cluster_row =
  row_menu :: bool
  row_open :: bool
  row_upgrade :: bool
  row_deleted :: "(string \<times> string list) list"

definition row_init :: cluster_row where
  "row_init = \<lparr>row_menu = False, row_open = False, row_upgrade = False, row_deleted = []\<rparr>"

datatype row_event = RowMenu | RowMenuClose | RowUpgrade | RowUpgradeClose | RowDisconnect | RowKeep | RowConfirm

definition upgrade_disabled :: "string \<Rightarrow> string \<Rightarrow> ClusterInfo \<Rightarrow> bool" where
  "upgrade_disabled role version d \<longleftrightarrow> role = ''Viewer'' \<or> cl_version d = version \<or> cl_version d = ''''"

definition deleteRow :: "string \<Rightarrow> string \<Rightarrow> string \<times> string list" where
  "deleteRow pid clid = (pid, [clid])"

definition row_handle :: "string \<Rightarrow> string \<Rightarrow> string \<Rightarrow> ClusterInfo \<Rightarrow> row_event \<Rightarrow> cluster_row \<Rightarrow> cluster_row" where
  "row_handle role version pid d e s = (case e of
     RowMenu \<Rightarrow> s\<lparr>row_menu := True\<rparr>
   | RowMenuClose \<Rightarrow> s\<lparr>row_menu := False\<rparr>
   | RowUpgrade \<Rightarrow> if row_menu s \<and> \<not> upgrade_disabled role version d then s\<lparr>row_upgrade := True, row_menu := False\<rparr> else s
   | RowUpgradeClose \<Rightarrow> s\<lparr>row_upgrade := False\<rparr>
   | RowDisconnect \<Rightarrow> if row_menu s \<and> role \<noteq> ''Viewer'' then s\<lparr>row_open := True, row_menu := False\<rparr> else s
   | RowKeep \<Rightarrow> s\<lparr>row_open := False\<rparr>
   | RowConfirm \<Rightarrow> if row_open s \<and> role \<noteq> ''Viewer''
       then s\<lparr>row_deleted := row_deleted s @ [deleteRow pid (clusterID d)], row_open := False\<rparr> else s)"

definition upgrade_command :: "string \<Rightarrow> ClusterInfo \<Rightarrow> string" where
  "upgrade_command pid d = ''litmusctl upgrade chaos-delegate --chaos-delegate-id='' @ [CHR 0x22] @ clusterID d @ [CHR 0x22]
     @ '' --project-id='' @ [CHR 0x22] @ pid @ [CHR 0x22]"

subsection \<open>What the table shows\<close>

definition cluster_keep :: "(string \<Rightarrow> int) \<Rightarrow> cluster_table \<Rightarrow> ClusterInfo \<Rightarrow> bool" where
  "cluster_keep ms s d \<longleftrightarrow> js_includes (js_lower (clusterName d)) (js_lower (cl_search (cl_filters s)))
     \<and> keep_status (cl_status (cl_filters s)) d \<and> keep_cluster (cl_cluster (cl_filters s)) d \<and> keep_dates ms (dateRange s) d"

lemma comparator_cluster: "comparator (cluster_cmp s)"
proof -
  have "cluster_cmp s = (if sorts (cl_by_name s) then (\<lambda>a b. by_text (cl_by_name s) (clusterName a) (clusterName b))
     else if sorts (cl_by_run s) then (\<lambda>a b. by_time (cl_by_run s) (createdAt b) (createdAt a)) else (\<lambda>a b. 0))"
    by (simp add: fun_eq_iff cluster_cmp_def)
  moreover have "comparator (\<lambda>(a :: ClusterInfo) b. by_time c (createdAt b) (createdAt a))" for c
    by (rule comparator_flip [of "\<lambda>a b. by_time c (createdAt a) (createdAt b)"])
      (rule comparator_on [OF comparator_by_time])
  ultimately show ?thesis by (simp add: comparator_const comparator_on [OF comparator_by_text])
qed

interpretation clusters: table "cluster_cmp s" "cluster_keep ms s" "cluster_payload ms s" for ms s
  by (intro table.intro table_axioms.intro comparator_cluster)
     (simp add: cluster_payload_def cluster_keep_def [abs_def] conj_ac)

lemma includes_names:
  "js_includes ''pending'' ''true'' = False" "js_includes ''pending'' ''false'' = False" "js_includes ''pending'' ''pending''"
  "js_includes ''true'' ''true''" "js_includes ''true'' ''false'' = False" "js_includes ''true'' ''pending'' = False"
  "js_includes ''false'' ''true'' = False" "js_includes ''false'' ''false''" "js_includes ''false'' ''pending'' = False"
  "js_lower ''true'' = ''true''" "js_lower ''false'' = ''false''" "js_lower ''pending'' = ''pending''"
  by code_simp+

text \<open>The choices of the status menu keep exactly the rows with the matching pill.\<close>

lemma status_choice_is_the_pill:
  "keep_status ''true'' d \<longleftrightarrow> status_pill d = ''success''"
  "keep_status ''false'' d \<longleftrightarrow> status_pill d = ''danger''"
  "keep_status ''pending'' d \<longleftrightarrow> status_pill d = ''warning''"
  by (simp_all add: keep_status_def status_pill_def show_bool_def includes_names)

text \<open>At first the newest delegate is on top, and the arrow that says descending puts the oldest
  there; once the table is sorted by name, neither matters.\<close>

lemma run_order:
  assumes "\<not> sorts (cl_by_name s)" "sorts (cl_by_run s)"
  shows "ascending (cl_by_run s) \<Longrightarrow> cluster_cmp s a b \<le> 0 \<longleftrightarrow> createdAt b \<le> createdAt a"
    and "\<not> ascending (cl_by_run s) \<Longrightarrow> cluster_cmp s a b \<le> 0 \<longleftrightarrow> createdAt a \<le> createdAt b"
  using assms by (auto simp: cluster_cmp_def by_time_def sortNumAsc_def sortNumDesc_def)

lemma descending_puts_the_oldest_first:
  assumes "\<not> sorts (cl_by_name s)" and "cluster_payload ms (cluster_handle fmt fd td SortRunDown s) ds = x # xs" and "y \<in> set xs"
  shows "createdAt x \<le> createdAt y"
proof -
  let ?s = "cluster_handle fmt fd td SortRunDown s"
  have "sorted_wrt (\<lambda>a b. cluster_cmp ?s a b \<le> 0) (x # xs)"
    using clusters.payload_sorted [of ?s ms ds] assms(2) by simp
  then have "cluster_cmp ?s x y \<le> 0" using assms(3) by simp
  then show ?thesis using run_order(2) [of ?s x y] assms(1) by (simp add: cluster_handle_def)
qed

lemma name_sort_is_kept:
  "sorts (cl_by_name s) \<Longrightarrow> sorts (cl_by_name (fold (cluster_handle fmt fd td) es s))"
proof (induction es arbitrary: s)
  case (Cons e es)
  have "sorts (cl_by_name (cluster_handle fmt fd td e s))"
    using Cons.prems by (cases e) (simp_all add: cluster_handle_def)
  then show ?case using Cons.IH by simp
qed simp

lemma run_sort_has_no_effect:
  assumes "sorts (cl_by_name s)"
  shows "cluster_payload ms (cluster_handle fmt fd td SortRunDown s) ds = cluster_payload ms s ds"
  using assms by (simp add: cluster_payload_def cluster_handle_def cluster_cmp_def [abs_def])

text \<open>A page that was turned stays turned when a filter leaves fewer rows: nothing is shown.\<close>

lemma filtered_page_is_empty:
  assumes "length (cluster_payload ms (cluster_handle fmt fd td (ClusterSearch v) s) ds) \<le> cl_page s * cl_rows s"
  shows "cluster_shown ms (cluster_handle fmt fd td (ClusterSearch v) s) ds = []"
  using assms by (simp add: cluster_shown_def page_rows_def cluster_handle_def)

lemma only_the_confirmed_row_is_deleted:
  assumes "x \<in> set (row_deleted (fold (row_handle role version pid d) es row_init))"
  shows "x = (pid, [clusterID d]) \<and> role \<noteq> ''Viewer''"
proof -
  let ?P = "\<lambda>s. \<forall>x \<in> set (row_deleted s). x = (pid, [clusterID d]) \<and> role \<noteq> ''Viewer''"
  have step: "?P s \<Longrightarrow> ?P (row_handle role version pid d e s)" for e s
    by (cases e) (auto simp: row_handle_def deleteRow_def)
  have "?P s \<Longrightarrow> ?P (fold (row_handle role version pid d) es s)" for s
  proof (induction es arbitrary: s)
    case (Cons e es)
    from Cons.IH [OF step [OF Cons.prems]] show ?case by simp
  qed simp
  from this [of row_init] show ?thesis using assms by (simp add: row_init_def)
qed

section \<open>The charts of a hub\<close>

record Chart =
  chart_name :: string
  chart_experiments :: "string list"

record ExpChart =
  ChaosName :: string
  ExperimentName :: string

definition chart_list :: "Chart list \<Rightarrow> ExpChart list" where
  "chart_list cs = fold (\<lambda>c exp. fold (\<lambda>n exp. exp @ [\<lparr>ChaosName = chart_name c, ExperimentName = n\<rparr>])
     (chart_experiments c) exp) cs []"

definition filteredExperiment :: "string \<Rightarrow> ExpChart list \<Rightarrow> ExpChart list" where
  "filteredExperiment search xs = filter (\<lambda>d. js_includes (js_lower (ChaosName d)) (js_trim search)
     \<or> js_includes (js_lower (ExperimentName d)) (js_trim search)) xs"

definition filteredWorkflow :: "string \<Rightarrow> string list \<Rightarrow> string list" where
  "filteredWorkflow search names = filter (\<lambda>n. js_includes (js_lower n) (js_trim search)) names"

record charts_page =
  ch_search :: string
  searchPredefined :: string
  totalExp :: "ExpChart list"
  ch_tab :: nat

definition charts_init :: "nat \<Rightarrow> charts_page" where
  "charts_init tab = \<lparr>ch_search = '''', searchPredefined = '''', totalExp = [], ch_tab = tab\<rparr>"

datatype charts_event =
    ChartsCame "Chart list"
  | ChartSearch string
  | PredefinedSearch string
  | ChartTab nat
  | ChartCategory bool string

definition charts_handle :: "charts_event \<Rightarrow> charts_page \<Rightarrow> charts_page" where
  "charts_handle e s = (case e of
     ChartsCame cs \<Rightarrow> s\<lparr>totalExp := chart_list cs\<rparr>
   | ChartSearch v \<Rightarrow> s\<lparr>ch_search := v\<rparr>
   | PredefinedSearch v \<Rightarrow> s\<lparr>searchPredefined := v\<rparr>
   | ChartTab n \<Rightarrow> s\<lparr>ch_tab := n\<rparr>
   | ChartCategory predefined v \<Rightarrow> if predefined then s\<lparr>searchPredefined := v\<rparr> else s\<lparr>ch_search := v\<rparr>)"

definition UserHub :: "string \<Rightarrow> HubDetails list option \<Rightarrow> HubDetails option" where
  "UserHub hubname data = (case data of None \<Rightarrow> None | Some hs \<Rightarrow> find (\<lambda>h. hubname = h_name h) hs)"

record Link =
  link_name :: string
  link_url :: string

definition videoURL :: "Link list \<Rightarrow> string" where
  "videoURL links = (case find (\<lambda>l. link_name l = ''Video'') links of None \<Rightarrow> '''' | Some v \<Rightarrow> link_url v)"

lemma chart_list_concat:
  "chart_list cs = concat (map (\<lambda>c. map (\<lambda>n. \<lparr>ChaosName = chart_name c, ExperimentName = n\<rparr>) (chart_experiments c)) cs)"
proof -
  have inner: "fold (\<lambda>n exp. exp @ [f n]) ns acc = acc @ map f ns" for f :: "string \<Rightarrow> ExpChart" and ns acc
    by (induction ns arbitrary: acc) simp_all
  have "fold (\<lambda>c exp. exp @ g c) cs acc = acc @ concat (map g cs)" for g :: "Chart \<Rightarrow> ExpChart list" and acc
    by (induction cs arbitrary: acc) simp_all
  then show ?thesis unfolding chart_list_def inner by simp
qed

text \<open>The names are lowered and the search is not: a search with a capital finds nothing.\<close>

lemma includes_chars: "js_includes s t \<Longrightarrow> set t \<subseteq> set s"
  by (simp add: js_includes_sublist set_mono_sublist)

lemma lower_is_not_upper: "c \<in> set (js_lower s) \<Longrightarrow> \<not> is_upper c"
proof -
  have "\<not> is_upper (lower_char d)" for d
    by (auto simp: is_upper_def lower_char_def less_eq_char_def)
  then show "c \<in> set (js_lower s) \<Longrightarrow> \<not> is_upper c" by (auto simp: js_lower_def)
qed

lemma capital_search_finds_nothing:
  assumes "c \<in> set (js_trim v)" "is_upper c"
  shows "filteredExperiment v xs = []" "filteredWorkflow v names = []"
proof -
  have "\<not> js_includes (js_lower n) (js_trim v)" for n
    using includes_chars [of "js_lower n" "js_trim v"] lower_is_not_upper [of c n] assms by blast
  then show "filteredExperiment v xs = []" "filteredWorkflow v names = []"
    by (simp_all add: filteredExperiment_def filteredWorkflow_def)
qed

end
