(* ===== verification/Teams.thy ===== *)
theory Teams
  imports ObsTables
begin

text \<open>
  The teaming tab of the settings, \<open>views/Settings/TeamingTab\<close>: the members of a project with
  their tables, the dialog that invites users (\<open>InviteNew/Invite\<close>), the rows of invited members
  (\<open>Team/invitedTableData\<close>), the removal of a member, and the invitations the user has received or
  accepted. The replies of the authentication server are arguments and events.
\<close>

section \<open>Members of a project\<close>

record Member =
  m_invitation :: string
  m_role :: string
  m_userID :: string
  m_userName :: "string option"
  m_deactivated :: "string option"

record Project =
  pr_ID :: string
  pr_Name :: string
  pr_Members :: "Member list option"

definition split_member :: "string \<Rightarrow> Member \<Rightarrow> Member list \<times> Member list \<Rightarrow> Member list \<times> Member list" where
  "split_member userID m acc = (case acc of (accepted, notAccepted) \<Rightarrow>
     if m_invitation m = ''Accepted'' then (accepted @ [m], notAccepted)
     else if m_userID m \<noteq> userID \<and> m_invitation m \<noteq> ''Accepted'' then (accepted, notAccepted @ [m]) else acc)"

definition memberList :: "Project \<Rightarrow> Member list" where
  "memberList p = (case pr_Members p of None \<Rightarrow> [] | Some ms \<Rightarrow> ms)"

definition split_members :: "string \<Rightarrow> Project \<Rightarrow> Member list \<times> Member list" where
  "split_members userID p = fold (split_member userID) (memberList p) ([], [])"

record team_page =
  tp_loading :: bool
  tp_project :: "Project option"
  tp_accepted :: "Member list"
  tp_notAccepted :: "Member list"
  tp_tab :: nat
  tp_page :: "nat \<times> nat"
  tp_search :: string
  tp_role :: string
  tp_projects :: "Project list"
  tp_counts :: "nat \<times> nat \<times> nat"
  inviteNewOpen :: bool
  tp_calls :: "(string \<times> string) list"

definition team_init :: team_page where
  "team_init = \<lparr>tp_loading = True, tp_project = None, tp_accepted = [], tp_notAccepted = [], tp_tab = 0, tp_page = (0, 5),
     tp_search = '''', tp_role = ''all'', tp_projects = [], tp_counts = (0, 0, 0), inviteNewOpen = False, tp_calls = []\<rparr>"

definition project_came :: "string \<Rightarrow> Project \<Rightarrow> team_page \<Rightarrow> team_page" where
  "project_came userID p s = (case split_members userID p of (accepted, notAccepted) \<Rightarrow>
     s\<lparr>tp_loading := False, tp_project := Some p, tp_accepted := accepted, tp_notAccepted := notAccepted\<rparr>)"

definition keep_role :: "string \<Rightarrow> Member \<Rightarrow> bool" where
  "keep_role r m = (if r = ''all'' then True else if r = ''Editor'' then m_role m = ''Editor''
     else if r = ''Viewer'' then m_role m = ''Viewer'' else m_role m = ''Owner'')"

text \<open>The accepted members' names are read without a check, the others' with one.\<close>

definition acceptedFilteredData :: "team_page \<Rightarrow> Member list result" where
  "acceptedFilteredData s = (if tp_loading s then Inr []
     else if list_ex (\<lambda>m. m_userName m = None) (tp_accepted s) then Inl TypeErr
     else Inr (filter (keep_role (tp_role s))
       (filter (\<lambda>m. js_includes (js_lower (the (m_userName m))) (js_lower (tp_search s))) (tp_accepted s))))"

definition notAcceptedFilteredData :: "team_page \<Rightarrow> Member list" where
  "notAcceptedFilteredData s = (if tp_loading s then []
     else filter (keep_role (tp_role s))
       (filter (\<lambda>m. case m_userName m of None \<Rightarrow> False | Some n \<Rightarrow> js_includes (js_lower n) (js_lower (tp_search s)))
         (tp_notAccepted s)))"

definition count_member :: "string \<Rightarrow> Member \<Rightarrow> nat \<times> nat \<times> nat \<Rightarrow> nat \<times> nat \<times> nat" where
  "count_member userID m c = (case c of (owner, invitation, other) \<Rightarrow>
     if m_userID m = userID \<and> m_role m = ''Owner'' then (owner + 1, invitation, other)
     else if m_userID m = userID \<and> m_invitation m = ''Pending'' then (owner, invitation + 1, other)
     else if m_userID m = userID \<and> m_role m \<noteq> ''Owner'' \<and> m_invitation m = ''Accepted'' then (owner, invitation, other + 1)
     else c)"

definition count_projects :: "string \<Rightarrow> Project list \<Rightarrow> nat \<times> nat \<times> nat" where
  "count_projects userID ps = fold (\<lambda>p. case pr_Members p of None \<Rightarrow> (\<lambda>c. c) | Some ms \<Rightarrow> fold (count_member userID) ms) ps (0, 0, 0)"

definition count_effect :: "string \<Rightarrow> team_page \<Rightarrow> team_page" where
  "count_effect userID s = s\<lparr>tp_counts := count_projects userID (tp_projects s)\<rparr>"

datatype team_event =
    ProjectCame Project
  | ProjectsCame "Project list"
  | TeamSearch string
  | TeamRole string
  | TeamTab nat
  | InviteOpen
  | InviteClose
  | RenameProject string

definition team_handle :: "string \<Rightarrow> string \<Rightarrow> team_event \<Rightarrow> team_page \<Rightarrow> team_page" where
  "team_handle userID pid e s = (case e of
     ProjectCame p \<Rightarrow> project_came userID p s
   | ProjectsCame ps \<Rightarrow> count_effect userID (s\<lparr>tp_projects := ps\<rparr>)
   | TeamSearch v \<Rightarrow> s\<lparr>tp_search := v, tp_page := (0, snd (tp_page s))\<rparr>
   | TeamRole v \<Rightarrow> s\<lparr>tp_role := v, tp_page := (0, snd (tp_page s))\<rparr>
   | TeamTab n \<Rightarrow> s\<lparr>tp_tab := n\<rparr>
   | InviteOpen \<Rightarrow> count_effect userID (s\<lparr>inviteNewOpen := True\<rparr>)
   | InviteClose \<Rightarrow> count_effect userID (s\<lparr>inviteNewOpen := False, tp_calls := tp_calls s @ [(''get_project'', pid)]\<rparr>)
   | RenameProject v \<Rightarrow> s\<lparr>tp_calls := tp_calls s @ [(''update_projectname'', v)]\<rparr>)"

text \<open>The tables of members and of invited members turn their own pages.\<close>

record team_table =
  tt_page :: nat
  tt_rows :: nat

definition team_table_init :: team_table where
  "team_table_init = \<lparr>tt_page = 0, tt_rows = 5\<rparr>"

definition table_page :: "nat \<Rightarrow> team_table \<Rightarrow> team_table" where
  "table_page n t = t\<lparr>tt_page := n\<rparr>"

definition table_rows :: "nat \<Rightarrow> team_table \<Rightarrow> team_table" where
  "table_rows n t = t\<lparr>tt_page := 0, tt_rows := n\<rparr>"

definition table_shown :: "team_table \<Rightarrow> Member list \<Rightarrow> Member list" where
  "table_shown t ms = page_rows (tt_page t) (tt_rows t) ms"

lemma split_members_filter:
  "split_members userID p = (filter (\<lambda>m. m_invitation m = ''Accepted'') (memberList p),
     filter (\<lambda>m. m_invitation m \<noteq> ''Accepted'' \<and> m_userID m \<noteq> userID) (memberList p))"
proof -
  have "fold (split_member userID) ms (as, bs) = (as @ filter (\<lambda>m. m_invitation m = ''Accepted'') ms,
     bs @ filter (\<lambda>m. m_invitation m \<noteq> ''Accepted'' \<and> m_userID m \<noteq> userID) ms)" for ms as bs
    by (induction ms arbitrary: as bs) (auto simp: split_member_def)
  then show ?thesis by (simp add: split_members_def)
qed

text \<open>A search turns the page of the tab, which shows no table; the tables keep theirs.\<close>

lemma search_does_not_turn_the_table:
  assumes "length (notAcceptedFilteredData (team_handle u pid (TeamSearch v) s)) \<le> tt_page t * tt_rows t"
  shows "table_shown t (notAcceptedFilteredData (team_handle u pid (TeamSearch v) s)) = []"
  using assms by (simp add: table_shown_def page_rows_def)

section \<open>Inviting users\<close>

record UserInvite =
  u_id :: string
  u_username :: string
  u_deactivated :: "string option"

record SelectedUser =
  sel_name :: string
  sel_id :: string
  sel_role :: string

record invite_page =
  iv_rows :: "UserInvite list"
  iv_roles :: "(string \<times> string) list"
  iv_project :: "Project option"
  iv_selected :: "SelectedUser list"
  iv_loading :: bool
  sendInviteLoading :: bool
  sendInviteError :: string
  iv_search :: string
  showsuccess :: bool
  iv_shown :: "(string \<times> string) list"
  iv_sent :: "(string \<times> string) list"

definition invite_init :: invite_page where
  "invite_init = \<lparr>iv_rows = [], iv_roles = [], iv_project = None, iv_selected = [], iv_loading = True,
     sendInviteLoading = False, sendInviteError = '''', iv_search = '''', showsuccess = False, iv_shown = [], iv_sent = []\<rparr>"

definition setUserRole :: "string \<Rightarrow> string \<Rightarrow> invite_page \<Rightarrow> invite_page" where
  "setUserRole uid role s = s\<lparr>
     iv_selected := map (\<lambda>r. if sel_id r = uid then r\<lparr>sel_role := role\<rparr> else r) (iv_selected s),
     iv_roles := (if find (\<lambda>r. fst r = uid) (iv_roles s) \<noteq> None
       then map (\<lambda>r. if fst r = uid then (uid, role) else r) (iv_roles s) else iv_roles s @ [(uid, role)])\<rparr>"

definition team_ids :: "Project \<Rightarrow> string set" where
  "team_ids p = set (map m_userID (filter (\<lambda>m. m_invitation m = ''Accepted'' \<or> m_invitation m = ''Pending'') (memberList p)))"

definition users_came :: "UserInvite list \<Rightarrow> invite_page \<Rightarrow> invite_page" where
  "users_came us s = (case iv_project s of None \<Rightarrow> s
     | Some p \<Rightarrow> s\<lparr>iv_rows := filter (\<lambda>u. u_id u \<notin> team_ids p \<and> (u_deactivated u = None \<or> u_deactivated u = Some '''')) us\<rparr>)"

definition invite_selected :: "invite_page \<Rightarrow> UserInvite \<Rightarrow> bool" where
  "invite_selected s u \<longleftrightarrow> u_id u \<in> set (map sel_id (iv_selected s))"

definition user_role :: "invite_page \<Rightarrow> string \<Rightarrow> string" where
  "user_role s uid = (case find (\<lambda>r. fst r = uid) (iv_roles s) of Some r \<Rightarrow> snd r | None \<Rightarrow> ''Viewer'')"

fun index_of :: "string \<Rightarrow> string list \<Rightarrow> nat option" where
  "index_of x [] = None"
| "index_of x (y # ys) = (if x = y then Some 0 else map_option Suc (index_of x ys))"

definition toggle_user :: "UserInvite \<Rightarrow> invite_page \<Rightarrow> invite_page" where
  "toggle_user u s =
     (let sel = iv_selected s in
      s\<lparr>iv_selected := (case index_of (u_id u) (map sel_id sel) of
          None \<Rightarrow> sel @ [\<lparr>sel_name = u_username u, sel_id = u_id u, sel_role = user_role s (u_id u)\<rparr>]
        | Some i \<Rightarrow> if i = 0 then drop 1 sel else if i = length sel - 1 then butlast sel
                    else take i sel @ drop (i + 1) sel)\<rparr>)"

definition inviteFilteredData :: "invite_page \<Rightarrow> UserInvite list" where
  "inviteFilteredData s = (if iv_loading s then []
     else filter (\<lambda>u. js_includes (js_lower (u_username u)) (js_lower (iv_search s))) (iv_rows s))"

definition send_invites :: "invite_page \<Rightarrow> invite_page" where
  "send_invites s = (if sendInviteError s \<noteq> '''' \<or> sendInviteLoading s then s\<lparr>showsuccess := True\<rparr>
     else s\<lparr>showsuccess := True, sendInviteLoading := True,
            iv_sent := iv_sent s @ map (\<lambda>u. (sel_id u, sel_role u)) (iv_selected s)\<rparr>)"

datatype invite_reply = Invited | InviteRefused string | InviteLost

definition invite_replied :: "invite_reply \<Rightarrow> invite_page \<Rightarrow> invite_page" where
  "invite_replied r s = (case r of
     Invited \<Rightarrow> s\<lparr>sendInviteLoading := False, sendInviteError := ''''\<rparr>
   | InviteRefused m \<Rightarrow> s\<lparr>sendInviteError := m\<rparr>
   | InviteLost \<Rightarrow> s\<lparr>sendInviteError := ''''\<rparr>)"

text \<open>Each row keeps the role it shows in a state of its own, which is \<open>Viewer\<close> again whenever the
  row is mounted.\<close>

definition mount_rows :: "invite_page \<Rightarrow> invite_page" where
  "mount_rows s = s\<lparr>iv_shown := (if showsuccess s then [] else map (\<lambda>u. (u_id u, case map_of (iv_shown s) (u_id u) of Some r \<Rightarrow> r | None \<Rightarrow> ''Viewer''))
     (inviteFilteredData s))\<rparr>"

datatype invite_event =
    InviteProject "Project option"
  | InviteUsers "UserInvite list"
  | InviteSearch string
  | ToggleUser UserInvite
  | PickRole UserInvite string
  | SendInvites
  | InviteReply invite_reply

definition invite_handle :: "invite_event \<Rightarrow> invite_page \<Rightarrow> invite_page" where
  "invite_handle e s = (case e of
     InviteProject p \<Rightarrow> (case p of None \<Rightarrow> s\<lparr>iv_loading := False\<rparr> | Some q \<Rightarrow> s\<lparr>iv_project := Some q, iv_loading := False\<rparr>)
   | InviteUsers us \<Rightarrow> users_came us s
   | InviteSearch v \<Rightarrow> s\<lparr>iv_search := v\<rparr>
   | ToggleUser u \<Rightarrow> if \<not> showsuccess s \<and> u \<in> set (inviteFilteredData s) then toggle_user u s else s
   | PickRole u r \<Rightarrow> if \<not> showsuccess s \<and> u \<in> set (inviteFilteredData s) \<and> r \<in> {''Editor'', ''Viewer''}
       then setUserRole (u_id u) r (s\<lparr>iv_shown := map (\<lambda>x. if fst x = u_id u then (fst x, r) else x) (iv_shown s)\<rparr>) else s
   | SendInvites \<Rightarrow> if \<not> showsuccess s \<and> iv_selected s \<noteq> [] then send_invites s else s
   | InviteReply r \<Rightarrow> if showsuccess s then invite_replied r s else s)"

definition invite_step :: "invite_event \<Rightarrow> invite_page \<Rightarrow> invite_page" where
  "invite_step e s = mount_rows (invite_handle e s)"

definition invite_run :: "invite_event list \<Rightarrow> invite_page" where
  "invite_run es = fold invite_step es invite_init"

definition invite_screen :: "invite_page \<Rightarrow> string" where
  "invite_screen s = (if showsuccess s then (if sendInviteLoading s then ''loader''
      else if sendInviteError s \<noteq> '''' then ''error'' else ''success'') else ''table'')"

subsection \<open>The roles that are sent\<close>

text \<open>What the user asked for, read off the events: the last role picked for a user, and whether the
  user's box was clicked an odd number of times. A run is effective when every click was on a
  shown row before the invitations were sent.\<close>

definition last_role :: "invite_event list \<Rightarrow> string \<Rightarrow> string" where
  "last_role es uid = fold (\<lambda>e r. case e of PickRole u r' \<Rightarrow> if u_id u = uid then r' else r | _ \<Rightarrow> r) es ''Viewer''"

definition toggles :: "invite_event list \<Rightarrow> string \<Rightarrow> nat" where
  "toggles es uid = length (filter (\<lambda>e. case e of ToggleUser u \<Rightarrow> u_id u = uid | _ \<Rightarrow> False) es)"

definition effective :: "invite_event \<Rightarrow> invite_page \<Rightarrow> bool" where
  "effective e s = (case e of
     ToggleUser u \<Rightarrow> \<not> showsuccess s \<and> u \<in> set (inviteFilteredData s)
   | PickRole u r \<Rightarrow> \<not> showsuccess s \<and> u \<in> set (inviteFilteredData s) \<and> r \<in> {''Editor'', ''Viewer''}
   | SendInvites \<Rightarrow> False
   | InviteReply _ \<Rightarrow> False
   | _ \<Rightarrow> True)"

fun effective_run :: "invite_event list \<Rightarrow> invite_page \<Rightarrow> bool" where
  "effective_run [] s = True"
| "effective_run (e # es) s = (effective e s \<and> effective_run es (invite_step e s))"

lemma effective_run_snoc:
  "effective_run (es @ [e]) s \<longleftrightarrow> effective_run es s \<and> effective e (fold invite_step es s)"
  by (induction es arbitrary: s) auto

lemma index_of_None: "index_of x xs = None \<longleftrightarrow> x \<notin> set xs"
  by (induction xs) auto

lemma index_of_Some: "index_of x xs = Some i \<Longrightarrow> i < length xs \<and> xs ! i = x"
  by (induction xs arbitrary: i) (auto split: if_splits)

text \<open>The four cases of the click are one: the user is taken out, or put at the end.\<close>

lemma filter_out_at:
  assumes "distinct (map f xs)" "i < length xs"
  shows "filter (\<lambda>y. f y \<noteq> f (xs ! i)) xs = take i xs @ drop (i + 1) xs"
proof -
  have xs: "xs = take i xs @ xs ! i # drop (i + 1) xs" using assms(2) by (simp add: id_take_nth_drop)
  have "distinct (map f (take i xs @ xs ! i # drop (i + 1) xs))" using assms(1) xs by simp
  then have "f (xs ! i) \<notin> f ` set (take i xs)" "f (xs ! i) \<notin> f ` set (drop (i + 1) xs)"
    by (auto simp del: append_take_drop_id)
  then have "\<forall>y \<in> set (take i xs) \<union> set (drop (i + 1) xs). f y \<noteq> f (xs ! i)"
    by (metis UnE imageI)
  then have "filter (\<lambda>y. f y \<noteq> f (xs ! i)) (take i xs @ xs ! i # drop (i + 1) xs) = take i xs @ drop (i + 1) xs"
    by (simp add: filter_id_conv)
  then show ?thesis by (simp only: xs [symmetric])
qed

lemma toggle_user_selected:
  assumes "distinct (map sel_id (iv_selected s))"
  shows "iv_selected (toggle_user u s) = (if u_id u \<in> set (map sel_id (iv_selected s))
     then filter (\<lambda>r. sel_id r \<noteq> u_id u) (iv_selected s)
     else iv_selected s @ [\<lparr>sel_name = u_username u, sel_id = u_id u, sel_role = user_role s (u_id u)\<rparr>])"
proof (cases "index_of (u_id u) (map sel_id (iv_selected s))")
  case None
  then have "u_id u \<notin> set (map sel_id (iv_selected s))" by (simp only: index_of_None not_False_eq_True)
  then show ?thesis using None by (simp add: toggle_user_def Let_def)
next
  case (Some i)
  then have i: "i < length (iv_selected s)" "sel_id (iv_selected s ! i) = u_id u"
    using index_of_Some by fastforce+
  then have "u_id u \<in> set (map sel_id (iv_selected s))"
    by (metis length_map nth_map nth_mem)
  moreover have "iv_selected (toggle_user u s) = take i (iv_selected s) @ drop (i + 1) (iv_selected s)"
    using Some i(1) by (auto simp: toggle_user_def Let_def butlast_conv_take)
  ultimately show ?thesis using filter_out_at [OF assms i(1)] i(2) by simp
qed

lemma ids_without: "set (map sel_id (filter (\<lambda>r. sel_id r \<noteq> x) rs)) = set (map sel_id rs) - {x}"
  by auto

definition invite_inv :: "invite_event list \<Rightarrow> invite_page \<Rightarrow> bool" where
  "invite_inv es s \<longleftrightarrow> \<not> showsuccess s \<and> \<not> sendInviteLoading s \<and> sendInviteError s = '''' \<and> iv_sent s = []
     \<and> user_role s = last_role es \<and> distinct (map sel_id (iv_selected s))
     \<and> set (map sel_id (iv_selected s)) = {uid. odd (toggles es uid)}
     \<and> (\<forall>r \<in> set (iv_selected s). sel_role r = last_role es (sel_id r))"

lemma last_role_snoc:
  "last_role (es @ [e]) uid = (case e of PickRole u r \<Rightarrow> if u_id u = uid then r else last_role es uid | _ \<Rightarrow> last_role es uid)"
  by (simp add: last_role_def split: invite_event.split)

lemma toggles_snoc:
  "toggles (es @ [e]) uid = toggles es uid + (case e of ToggleUser u \<Rightarrow> if u_id u = uid then 1 else 0 | _ \<Rightarrow> 0)"
  by (simp add: toggles_def split: invite_event.split)

lemma find_map_update:
  "find (\<lambda>r. fst r = uid) (map (\<lambda>r. if fst r = v then (v, role) else r) xs) =
     (if uid = v then map_option (\<lambda>_. (v, role)) (find (\<lambda>r. fst r = v) xs) else find (\<lambda>r. fst r = uid) xs)"
  by (induction xs) auto

lemma find_append_one: "find P (xs @ [x]) = (case find P xs of Some y \<Rightarrow> Some y | None \<Rightarrow> if P x then Some x else None)"
  by (induction xs) auto

lemma user_role_set:
  "user_role (setUserRole v role s) uid = (if uid = v then role else user_role s uid)"
  by (auto simp: user_role_def setUserRole_def find_map_update find_append_one split: option.split)

lemma setUserRole_frame:
  "showsuccess (setUserRole v role s) = showsuccess s" "sendInviteLoading (setUserRole v role s) = sendInviteLoading s"
  "sendInviteError (setUserRole v role s) = sendInviteError s" "iv_sent (setUserRole v role s) = iv_sent s"
  "map sel_id (iv_selected (setUserRole v role s)) = map sel_id (iv_selected s)"
  by (simp_all add: setUserRole_def comp_def)

lemma setUserRole_selected:
  "r \<in> set (iv_selected (setUserRole v role s)) \<Longrightarrow>
     \<exists>q \<in> set (iv_selected s). sel_id r = sel_id q \<and> sel_role r = (if sel_id q = v then role else sel_role q)"
  by (auto simp: setUserRole_def)

lemma invite_inv_mount: "invite_inv es (mount_rows s) \<longleftrightarrow> invite_inv es s"
  by (simp add: invite_inv_def mount_rows_def user_role_def [abs_def])

lemma invite_inv_step:
  assumes i: "invite_inv es s" and e: "effective e s"
  shows "invite_inv (es @ [e]) (invite_step e s)"
proof -
  have same: "last_role (es @ [e]) = last_role es" if "\<And>u r. e \<noteq> PickRole u r"
    using that by (auto simp: last_role_snoc split: invite_event.split)
  have even: "toggles (es @ [e]) = toggles es" if "\<And>u. e \<noteq> ToggleUser u"
    using that by (auto simp: toggles_snoc split: invite_event.split)
  have "invite_inv (es @ [e]) (invite_handle e s)"
  proof (cases e)
    case (ToggleUser u)
    have d: "distinct (map sel_id (iv_selected s))" using i by (simp add: invite_inv_def)
    have role: "user_role (toggle_user u s) = user_role s" by (simp add: toggle_user_def user_role_def [abs_def] Let_def)
    have t: "toggles (es @ [e]) uid = (if u_id u = uid then Suc (toggles es uid) else toggles es uid)" for uid
      using ToggleUser by (simp add: toggles_snoc)
    have frame: "showsuccess (toggle_user u s) = showsuccess s" "sendInviteLoading (toggle_user u s) = sendInviteLoading s"
      "sendInviteError (toggle_user u s) = sendInviteError s" "iv_sent (toggle_user u s) = iv_sent s"
      by (simp_all add: toggle_user_def Let_def)
    have ids: "set (map sel_id (iv_selected s)) = {uid. odd (toggles es uid)}" using i by (simp add: invite_inv_def)
    have "distinct (map sel_id (iv_selected (toggle_user u s)))"
      using d by (auto simp: toggle_user_selected distinct_map_filter)
    moreover have "set (map sel_id (iv_selected (toggle_user u s))) = {uid. odd (toggles (es @ [e]) uid)}"
      using ids by (auto simp: toggle_user_selected [OF d] t ids_without simp del: set_map set_filter)
    ultimately show ?thesis using i e ToggleUser same
      by (auto simp: invite_handle_def effective_def invite_inv_def role frame toggle_user_selected [OF d])
  next
    case (PickRole u r)
    have l: "last_role (es @ [e]) uid = (if uid = u_id u then r else last_role es uid)" for uid
      using PickRole by (auto simp: last_role_snoc)
    let ?s = "s\<lparr>iv_shown := map (\<lambda>x. if fst x = u_id u then (fst x, r) else x) (iv_shown s)\<rparr>"
    have i': "invite_inv es ?s" using i by (simp add: invite_inv_def user_role_def [abs_def])
    have "user_role (setUserRole (u_id u) r ?s) = last_role (es @ [e])"
      using i' by (simp add: fun_eq_iff user_role_set l invite_inv_def)
    moreover have "sel_role q = last_role (es @ [e]) (sel_id q)" if "q \<in> set (iv_selected (setUserRole (u_id u) r ?s))" for q
      using setUserRole_selected [OF that] i' by (auto simp: l invite_inv_def)
    ultimately have "invite_inv (es @ [e]) (setUserRole (u_id u) r ?s)"
      using i' PickRole even unfolding invite_inv_def setUserRole_frame by simp
    then show ?thesis using e PickRole by (simp add: invite_handle_def effective_def)
  qed (use i e same even in \<open>auto simp: invite_handle_def effective_def invite_inv_def users_came_def user_role_def [abs_def]
      split: option.split\<close>)
  then show ?thesis by (simp add: invite_step_def invite_inv_mount)
qed

lemma invite_run_inv: "effective_run es invite_init \<Longrightarrow> invite_inv es (invite_run es)"
proof (induction es rule: rev_induct)
  case Nil
  show ?case by (simp add: invite_run_def invite_inv_def invite_init_def user_role_def last_role_def toggles_def fun_eq_iff)
next
  case (snoc e es)
  then show ?case using invite_inv_step [of es "invite_run es" e] by (simp add: effective_run_snoc invite_run_def)
qed

definition sent_roles_ok :: "invite_event list \<Rightarrow> (string \<times> string) list \<Rightarrow> bool" where
  "sent_roles_ok es sent \<longleftrightarrow> distinct (map fst sent) \<and> set (map fst sent) = {uid. odd (toggles es uid)}
     \<and> list_all (\<lambda>x. snd x = last_role es (fst x)) sent"


subsection \<open>What the dialog shows\<close>

definition ann :: UserInvite where
  "ann = \<lparr>u_id = ''1'', u_username = ''ann'', u_deactivated = None\<rparr>"

definition bob :: UserInvite where
  "bob = \<lparr>u_id = ''2'', u_username = ''bob'', u_deactivated = None\<rparr>"

definition invite_start :: "invite_event list" where
  "invite_start = [InviteProject (Some \<lparr>pr_ID = ''p'', pr_Name = ''p'', pr_Members = None\<rparr>), InviteUsers [ann, bob],
     ToggleUser ann, PickRole ann ''Editor'']"


lemma invitations_example: "iv_sent (invite_run (invite_start @ [SendInvites])) = [(''1'', ''Editor'')]"
  by code_simp

text \<open>A row that a search hides and shows again shows \<open>Viewer\<close>, and \<open>Editor\<close> is sent.\<close>

lemma hidden_row_forgets_its_role:
  "map_of (iv_shown (invite_run (invite_start @ [InviteSearch ''bob'', InviteSearch '''']))) ''1'' = Some ''Viewer''"
  "iv_sent (invite_run (invite_start @ [InviteSearch ''bob'', InviteSearch '''', SendInvites])) = [(''1'', ''Editor'')]"
  by code_simp+

text \<open>A refused invitation leaves the spinner, and the error of one is hidden by the success of another.\<close>

lemma refused_invitation_keeps_loading:
  assumes "showsuccess s" "sendInviteLoading s"
  shows "invite_screen (invite_step (InviteReply (InviteRefused m)) s) = ''loader''"
    "invite_screen (invite_step (InviteReply InviteLost) s) = ''loader''"
  using assms by (simp_all add: invite_step_def mount_rows_def invite_handle_def invite_replied_def invite_screen_def)

lemma late_success_hides_the_error:
  assumes "showsuccess s" "sendInviteLoading s"
  shows "invite_screen (fold invite_step [InviteReply (InviteRefused m), InviteReply Invited] s) = ''success''"
  using assms by (simp add: invite_step_def mount_rows_def invite_handle_def invite_replied_def invite_screen_def)

section \<open>A row of an invited member and the removal\<close>

record invited_row =
  ir_role :: string
  cancelInviteOpen :: bool
  remove_loading :: bool
  ir_calls :: "(string \<times> string \<times> string) list"
  ir_fetches :: nat

definition invited_init :: "Member \<Rightarrow> invited_row" where
  "invited_init m = \<lparr>ir_role = m_role m, cancelInviteOpen = False, remove_loading = False, ir_calls = [], ir_fetches = 0\<rparr>"

datatype invited_event =
    RowRole string
  | Resend
  | Resent bool
  | CancelOpen
  | CancelClose
  | RemoveYes
  | Removed bool

definition cancel_shown :: "Member \<Rightarrow> bool" where
  "cancel_shown m \<longleftrightarrow> m_invitation m \<noteq> ''EXITED'' \<and> m_invitation m \<noteq> ''DECLINED''"

definition invitation_pill :: "Member \<Rightarrow> string" where
  "invitation_pill m = (if m_invitation m = ''PENDING'' then ''warning'' else ''danger'')"

definition removeMember :: "Member \<Rightarrow> invited_row \<Rightarrow> invited_row" where
  "removeMember m s = s\<lparr>remove_loading := True, ir_calls := ir_calls s @ [(''remove_invitation'', m_userID m, m_role m)]\<rparr>"

definition invited_handle :: "Member \<Rightarrow> invited_event \<Rightarrow> invited_row \<Rightarrow> invited_row" where
  "invited_handle m e s = (case e of
     RowRole r \<Rightarrow> if m_deactivated m = None \<and> r \<in> {''Editor'', ''Viewer''} then s\<lparr>ir_role := r\<rparr> else s
   | Resend \<Rightarrow> if m_deactivated m = None then s\<lparr>ir_calls := ir_calls s @ [(''send_invitation'', m_userID m, ir_role s)]\<rparr> else s
   | Resent accepted \<Rightarrow> if accepted then s\<lparr>ir_fetches := ir_fetches s + 1\<rparr> else s
   | CancelOpen \<Rightarrow> if cancel_shown m then s\<lparr>cancelInviteOpen := True, remove_loading := False\<rparr> else s
   | CancelClose \<Rightarrow> if cancelInviteOpen s then s\<lparr>cancelInviteOpen := False, ir_fetches := ir_fetches s + 2\<rparr> else s
   | RemoveYes \<Rightarrow> if cancelInviteOpen s \<and> \<not> remove_loading s then removeMember m s else s
   | Removed accepted \<Rightarrow> if accepted then s\<lparr>cancelInviteOpen := False, remove_loading := False, ir_fetches := ir_fetches s + 2\<rparr> else s)"

text \<open>The enumeration writes the states in capitals, the server does not: a pending invitation gets the
  colour of the others, and a declined one can be cancelled.\<close>

lemma pending_pill_is_danger:
  "m_invitation m = ''Pending'' \<Longrightarrow> invitation_pill m = ''danger''" "m_invitation m = ''Declined'' \<Longrightarrow> cancel_shown m"
  by (simp_all add: invitation_pill_def cancel_shown_def)

lemma refused_removal_keeps_loading:
  "remove_loading s \<Longrightarrow> remove_loading (fold (invited_handle m) [Removed False, RemoveYes, Removed False] s)"
  by (simp add: invited_handle_def)

lemma resend_sends_the_shown_role:
  assumes "x \<in> set (ir_calls (invited_handle m Resend s))" "x \<notin> set (ir_calls s)"
  shows "x = (''send_invitation'', m_userID m, ir_role s) \<and> m_deactivated m = None"
  using assms by (auto simp: invited_handle_def split: if_splits)

section \<open>Invitations of the user\<close>

text \<open>The two numbers over the tabs. A project without a list of members makes the loop throw, and the
  numbers are then zero.\<close>

definition tab_member :: "string \<Rightarrow> Member \<Rightarrow> nat \<times> nat \<Rightarrow> nat \<times> nat" where
  "tab_member userID m c = (case c of (other, invited) \<Rightarrow>
     if m_userID m = userID \<and> m_invitation m = ''Pending'' then (other, invited + 1)
     else if m_userID m = userID \<and> m_role m \<noteq> ''Owner'' \<and> m_invitation m = ''Accepted'' then (other + 1, invited) else c)"

definition tab_project :: "string \<Rightarrow> Project \<Rightarrow> nat \<times> nat \<Rightarrow> (nat \<times> nat) result" where
  "tab_project userID p c = (case pr_Members p of None \<Rightarrow> Inl TypeErr | Some ms \<Rightarrow> Inr (fold (tab_member userID) ms c))"

definition tab_counts :: "string \<Rightarrow> Project list \<Rightarrow> nat \<times> nat" where
  "tab_counts userID ps = (case foldR (tab_project userID) ps (0, 0) of Inl _ \<Rightarrow> (0, 0) | Inr c \<Rightarrow> c)"

record OtherProjectsType =
  projectDetails :: Project
  currentUserProjectRole :: string

definition accepted_member :: "string \<Rightarrow> Project \<Rightarrow> Member \<Rightarrow> OtherProjectsType list \<Rightarrow> OtherProjectsType list" where
  "accepted_member userID p m acc =
     (if m_userID m = userID \<and> m_role m \<noteq> ''Owner'' \<and> m_invitation m = ''Accepted''
      then acc @ [\<lparr>projectDetails = p, currentUserProjectRole = m_role m\<rparr>] else acc)"

definition projectOther :: "string \<Rightarrow> Project list \<Rightarrow> OtherProjectsType list" where
  "projectOther userID ps = fold (\<lambda>p. fold (accepted_member userID p) (memberList p)) ps []"

record ReceivedInvitation =
  ri_projectID :: string
  ri_projectName :: string
  ri_role :: string
  ri_user_id :: string
  ri_user_name :: "string option"

definition pending_member :: "string \<Rightarrow> Member \<Rightarrow> bool \<times> string \<Rightarrow> bool \<times> string" where
  "pending_member userID m c = (if m_userID m = userID \<and> m_invitation m = ''Pending'' then (True, m_role m) else c)"

definition owner_rows :: "string \<Rightarrow> Project \<Rightarrow> string \<Rightarrow> Member list \<Rightarrow> ReceivedInvitation list" where
  "owner_rows userID p roleVar ms = map (\<lambda>m. \<lparr>ri_projectID = pr_ID p, ri_projectName = pr_Name p, ri_role = roleVar,
       ri_user_id = m_userID m, ri_user_name = m_userName m\<rparr>)
     (filter (\<lambda>m. m_userID m \<noteq> userID \<and> m_role m = ''Owner'') ms)"

text \<open>The flag and the role are variables of the whole loop; the flag is cleared after each project
  that has the user, the role is not.\<close>

definition received_project :: "string \<Rightarrow> Project \<Rightarrow> (bool \<times> string) \<times> ReceivedInvitation list \<Rightarrow> (bool \<times> string) \<times> ReceivedInvitation list" where
  "received_project userID p acc = (case pr_Members p of None \<Rightarrow> acc
     | Some ms \<Rightarrow> (case fold (pending_member userID) ms (fst acc) of (flag, roleVar) \<Rightarrow>
         if flag then ((False, roleVar), snd acc @ owner_rows userID p roleVar ms) else ((flag, roleVar), snd acc)))"

definition received_rows :: "string \<Rightarrow> Project list \<Rightarrow> ReceivedInvitation list" where
  "received_rows userID ps = snd (fold (received_project userID) ps ((False, ''''), []))"

record received_page =
  rv_loading :: bool
  rv_list :: "Project list"
  rv_rows :: "ReceivedInvitation list"
  acceptDecline :: string
  rv_calls :: "(string \<times> string \<times> string \<times> string) list"
  rv_pending :: "(ReceivedInvitation list \<times> string) list"
  rv_fetched :: nat

definition received_init :: received_page where
  "received_init = \<lparr>rv_loading = True, rv_list = [], rv_rows = [], acceptDecline = '''', rv_calls = [], rv_pending = [], rv_fetched = 0\<rparr>"

datatype received_event =
    ReceivedProjects "Project list option"
  | Decide string ReceivedInvitation
  | Decided nat bool

text \<open>The handler's rows and name are those of the render in which the button was pressed, so the name
  is the one of the decision before.\<close>

definition decide :: "string \<Rightarrow> string \<Rightarrow> ReceivedInvitation \<Rightarrow> received_page \<Rightarrow> received_page" where
  "decide userID what row s = s\<lparr>acceptDecline := ri_user_id row,
     rv_calls := rv_calls s @ [(what, ri_projectID row, userID, ri_role row)],
     rv_pending := rv_pending s @ [(rv_rows s, acceptDecline s)]\<rparr>"

definition received_handle :: "string \<Rightarrow> received_event \<Rightarrow> received_page \<Rightarrow> received_page" where
  "received_handle userID e s = (case e of
     ReceivedProjects r \<Rightarrow> (case r of None \<Rightarrow> s\<lparr>rv_loading := False\<rparr>
        | Some ps \<Rightarrow> s\<lparr>rv_list := ps, rv_rows := received_rows userID ps, rv_loading := False\<rparr>)
   | Decide what row \<Rightarrow> if \<not> rv_loading s \<and> row \<in> set (rv_rows s) \<and> what \<in> {''accept_invitation'', ''decline_invitation''}
       then decide userID what row s else s
   | Decided i ok \<Rightarrow> if i < length (rv_pending s) then
       (case rv_pending s ! i of (rows, nm) \<Rightarrow>
         let s' = s\<lparr>rv_pending := remove_at i (rv_pending s)\<rparr> in
         if ok then s'\<lparr>rv_rows := filter (\<lambda>r. ri_user_id r \<noteq> nm) rows, rv_loading := True, rv_fetched := rv_fetched s + 1\<rparr> else s')
       else s)"

record accepted_page =
  ap_other :: "OtherProjectsType list"
  exitedMember :: string
  ap_calls :: "(string \<times> string \<times> string) list"

definition leaveProject :: "string \<Rightarrow> OtherProjectsType \<Rightarrow> accepted_page \<Rightarrow> accepted_page" where
  "leaveProject userID x s = s\<lparr>exitedMember := pr_ID (projectDetails x),
     ap_calls := ap_calls s @ [(pr_ID (projectDetails x), userID, currentUserProjectRole x)]\<rparr>"

text \<open>As with the decisions, the rows and the name are those of the render of the click.\<close>

definition left_project :: "OtherProjectsType list \<Rightarrow> string \<Rightarrow> bool \<Rightarrow> accepted_page \<Rightarrow> accepted_page \<times> bool" where
  "left_project rows nm ok s =
     (if ok then (s\<lparr>ap_other := filter (\<lambda>x. pr_ID (projectDetails x) \<noteq> nm) rows\<rparr>, True) else (s, False))"

definition accepted_projects_came :: "string \<Rightarrow> Project list \<Rightarrow> accepted_page \<Rightarrow> accepted_page" where
  "accepted_projects_came userID ps s = s\<lparr>ap_other := projectOther userID ps\<rparr>"

subsection \<open>The numbers are the lists\<close>

definition accepts :: "string \<Rightarrow> Member \<Rightarrow> bool" where
  "accepts userID m \<longleftrightarrow> m_userID m = userID \<and> m_role m \<noteq> ''Owner'' \<and> m_invitation m = ''Accepted''"

lemma fold_pairs:
  "fold (tab_member userID) ms (a, b) = (a + length (filter (accepts userID) ms),
     b + length (filter (\<lambda>m. m_userID m = userID \<and> m_invitation m = ''Pending'') ms))"
  by (induction ms arbitrary: a b) (auto simp: tab_member_def accepts_def)

lemma tab_counts_all:
  assumes "list_all (\<lambda>p. pr_Members p \<noteq> None) ps"
  shows "tab_counts userID ps = (length (filter (accepts userID) (concat (map memberList ps))),
     length (filter (\<lambda>m. m_userID m = userID \<and> m_invitation m = ''Pending'') (concat (map memberList ps))))"
proof -
  have "foldR (tab_project userID) ps (a, b) = Inr (a + length (filter (accepts userID) (concat (map memberList ps))),
     b + length (filter (\<lambda>m. m_userID m = userID \<and> m_invitation m = ''Pending'') (concat (map memberList ps))))" for a b
    using assms by (induction ps arbitrary: a b) (auto simp: tab_project_def memberList_def fold_pairs)
  then show ?thesis by (simp add: tab_counts_def)
qed

lemma projectOther_concat:
  "projectOther userID ps = concat (map (\<lambda>p. map (\<lambda>m. \<lparr>projectDetails = p, currentUserProjectRole = m_role m\<rparr>)
     (filter (accepts userID) (memberList p))) ps)"
proof -
  have inner: "fold (accepted_member userID p) ms acc = acc @ map (\<lambda>m. \<lparr>projectDetails = p, currentUserProjectRole = m_role m\<rparr>)
     (filter (accepts userID) ms)" for p ms acc
    by (induction ms arbitrary: acc) (auto simp: accepted_member_def accepts_def)
  have "fold (\<lambda>p acc. acc @ f p) ps acc = acc @ concat (map f ps)" for f :: "Project \<Rightarrow> OtherProjectsType list" and acc
    by (induction ps arbitrary: acc) simp_all
  then show ?thesis unfolding projectOther_def inner by simp
qed

lemma active_count_is_the_rows:
  assumes "list_all (\<lambda>p. pr_Members p \<noteq> None) ps"
  shows "fst (tab_counts userID ps) = length (projectOther userID ps)"
proof -
  have "length (filter P (concat (map memberList ps))) = length (concat (map (\<lambda>p. map (f p) (filter P (memberList p))) ps))"
    for P and f :: "Project \<Rightarrow> Member \<Rightarrow> OtherProjectsType"
    by (induction ps) simp_all
  then show ?thesis by (simp add: tab_counts_all [OF assms] projectOther_concat)
qed

text \<open>The rows of received invitations: one per owner of each project that invites the user, with the
  role of the last invitation in it.\<close>

definition pending_roles :: "string \<Rightarrow> Project \<Rightarrow> string list" where
  "pending_roles userID p = map m_role (filter (\<lambda>m. m_userID m = userID \<and> m_invitation m = ''Pending'') (memberList p))"

lemma fold_pending:
  "fold (pending_member userID) ms (f, r) =
     (let rs = map m_role (filter (\<lambda>m. m_userID m = userID \<and> m_invitation m = ''Pending'') ms) in
      if rs = [] then (f, r) else (True, last rs))"
  by (induction ms arbitrary: f r) (auto simp: pending_member_def Let_def)

lemma received_rows_per_project:
  "received_rows userID ps = concat (map (\<lambda>p. if pending_roles userID p = [] then []
     else owner_rows userID p (last (pending_roles userID p)) (memberList p)) ps)"
proof -
  have "snd (fold (received_project userID) ps ((False, r), acc)) = acc @ concat (map (\<lambda>p. if pending_roles userID p = [] then []
     else owner_rows userID p (last (pending_roles userID p)) (memberList p)) ps)" for r acc
  proof (induction ps arbitrary: r acc)
    case (Cons p ps)
    show ?case
    proof (cases "pr_Members p")
      case None
      then show ?thesis using Cons by (simp add: received_project_def pending_roles_def memberList_def)
    next
      case (Some ms)
      then show ?thesis using Cons
        by (simp add: received_project_def fold_pending pending_roles_def memberList_def Let_def)
    qed
  qed simp
  then show ?thesis by (simp add: received_rows_def)
qed

text \<open>The row just decided is not the one taken out: the name is still that of the decision before.\<close>

lemma first_decision_takes_out_nothing:
  assumes "rv_pending s = []" "acceptDecline s = ''''" "list_all (\<lambda>r. ri_user_id r \<noteq> '''') (rv_rows s)"
  shows "rv_rows (received_handle userID (Decided 0 True) (decide userID what row s)) = rv_rows s"
  using assms by (simp add: received_handle_def decide_def list_all_iff filter_id_conv)

end
