(* ===== verification/Accounts.thy ===== *)
theory Accounts
  imports Validation ObsTables
begin

text \<open>
  Accounts: the password and personal details of the user (\<open>views/Settings/AccountsTab\<close>), the
  management of users (\<open>views/Settings/UserManagementTab\<close>), the login page and the page for the
  first password (\<open>pages/LoginPage\<close>, \<open>pages/GetStartedPage\<close>), and the choice of the image registry
  (\<open>views/Settings/ImageRegistry\<close>). Requests are recorded in the order they are sent; replies are
  events: a success, a refusal with its description, or a lost request with the error's message.
\<close>

datatype account_reply =
    Accepted
  | Refused string
  | Lost string

text \<open>What a dialog over a request shows is decided by its last reply.\<close>

definition reply_text :: "account_reply \<Rightarrow> string" where
  "reply_text r = (case r of Accepted \<Rightarrow> '''' | Refused m \<Rightarrow> m | Lost m \<Rightarrow> m)"

locale reply_dialog =
  fixes dialog_text :: "'s \<Rightarrow> string" and dialog_open :: "'s \<Rightarrow> bool" and waiting :: "'s \<Rightarrow> bool"
    and answered :: "account_reply \<Rightarrow> 's \<Rightarrow> 's"
  assumes text_answered: "dialog_text (answered r s) = reply_text r"
    and open_answered: "dialog_open (answered r s)" and not_waiting: "\<not> waiting (answered r s)"
begin

lemma last_reply_shows:
  "dialog_text (fold answered (rs @ [r]) s) = reply_text r" "dialog_open (fold answered (rs @ [r]) s)"
  "\<not> waiting (fold answered (rs @ [r]) s)"
  by (simp_all add: text_answered open_answered not_waiting)

end

section \<open>The password\<close>

record Password =
  newPassword :: string
  currPassword :: string
  confNewPassword :: string

definition no_password :: Password where
  "no_password = \<lparr>newPassword = '''', currPassword = '''', confNewPassword = ''''\<rparr>"

record password_page =
  pw_open :: bool
  pw_loading :: bool
  pw_fields :: Password
  pw_error :: string
  pw_sent :: "(string \<times> string) list"

definition password_init :: password_page where
  "password_init = \<lparr>pw_open = False, pw_loading = False, pw_fields = no_password, pw_error = '''', pw_sent = []\<rparr>"

definition isSuccess :: "Password \<Rightarrow> bool" where
  "isSuccess p \<longleftrightarrow> confNewPassword p \<noteq> '''' \<and> newPassword p = confNewPassword p"

definition password_disabled :: "password_page \<Rightarrow> bool" where
  "password_disabled s \<longleftrightarrow> \<not> (newPassword (pw_fields s) \<noteq> '''' \<and> newPassword (pw_fields s) = confNewPassword (pw_fields s)
     \<and> currPassword (pw_fields s) \<noteq> '''' \<and> \<not> pw_loading s)"

definition handleChangePassword :: "password_page \<Rightarrow> password_page" where
  "handleChangePassword s = s\<lparr>pw_loading := True,
     pw_sent := pw_sent s @ [(currPassword (pw_fields s), newPassword (pw_fields s))]\<rparr>"

definition password_answered :: "account_reply \<Rightarrow> password_page \<Rightarrow> password_page" where
  "password_answered r s = (case r of
     Accepted \<Rightarrow> s\<lparr>pw_error := '''', pw_loading := False, pw_open := True, pw_fields := no_password\<rparr>
   | Refused m \<Rightarrow> s\<lparr>pw_error := m, pw_loading := False, pw_open := True, pw_fields := no_password\<rparr>
   | Lost m \<Rightarrow> s\<lparr>pw_loading := False, pw_error := m, pw_open := True\<rparr>)"

datatype password_event =
    TypeNew string
  | TypeCurrent string
  | TypeConfirm string
  | ChangePassword
  | PasswordReply account_reply
  | PasswordClose

definition password_step :: "password_event \<Rightarrow> password_page \<Rightarrow> password_page" where
  "password_step e s = (case e of
     TypeNew v \<Rightarrow> s\<lparr>pw_fields := (pw_fields s)\<lparr>newPassword := v\<rparr>\<rparr>
   | TypeCurrent v \<Rightarrow> s\<lparr>pw_fields := (pw_fields s)\<lparr>currPassword := v\<rparr>\<rparr>
   | TypeConfirm v \<Rightarrow> s\<lparr>pw_fields := (pw_fields s)\<lparr>confNewPassword := v\<rparr>\<rparr>
   | ChangePassword \<Rightarrow> if password_disabled s then s else handleChangePassword s
   | PasswordReply r \<Rightarrow> if pw_loading s then password_answered r s else s
   | PasswordClose \<Rightarrow> s\<lparr>pw_open := False\<rparr>)"

interpretation password: reply_dialog pw_error pw_open pw_loading password_answered
  by unfold_locales (simp_all add: password_answered_def reply_text_def split: account_reply.split)

text \<open>A changed password was typed twice; a new password that starts with a space or fails the
  portal's own rules is sent all the same.\<close>

lemma password_sent_step:
  assumes "x \<in> set (pw_sent (password_step e s))" "x \<notin> set (pw_sent s)"
  shows "x = (currPassword (pw_fields s), newPassword (pw_fields s)) \<and> fst x \<noteq> '''' \<and> snd x \<noteq> ''''
     \<and> snd x = confNewPassword (pw_fields s)"
  using assms by (auto simp: password_step_def password_disabled_def handleChangePassword_def password_answered_def
      split: password_event.splits if_splits account_reply.splits)

section \<open>Personal details\<close>

record personaData =
  pd_email :: string
  pd_userName :: string
  pd_fullName :: string

record details_page =
  pd_loading :: bool
  pd_dataLoading :: bool
  pd_error :: string
  pd_open :: bool
  personaData :: personaData
  pd_sent :: "(string \<times> string) list"

definition details_page_init :: details_page where
  "details_page_init = \<lparr>pd_loading = False, pd_dataLoading = True, pd_error = '''', pd_open = False,
     personaData = \<lparr>pd_email = '''', pd_userName = '''', pd_fullName = ''''\<rparr>, pd_sent = []\<rparr>"

definition details_nameChange :: "string \<Rightarrow> personaData \<Rightarrow> personaData" where
  "details_nameChange v p = \<lparr>pd_email = pd_email p, pd_userName = pd_userName p, pd_fullName = v\<rparr>"

definition handleEmailChange :: "string \<Rightarrow> personaData \<Rightarrow> personaData" where
  "handleEmailChange v p = \<lparr>pd_email = v, pd_userName = pd_userName p, pd_fullName = pd_fullName p\<rparr>"

definition details_answered :: "account_reply \<Rightarrow> details_page \<Rightarrow> details_page" where
  "details_answered r s = (case r of
     Accepted \<Rightarrow> s\<lparr>pd_loading := False, pd_open := True\<rparr>
   | Refused m \<Rightarrow> s\<lparr>pd_error := m, pd_loading := False, pd_open := True\<rparr>
   | Lost m \<Rightarrow> s\<lparr>pd_error := m, pd_open := True, pd_loading := False\<rparr>)"

datatype details_event =
    DetailsCame personaData
  | TypeName string
  | TypeEmail string
  | SaveDetails
  | DetailsReply account_reply
  | DetailsClose

definition details_step :: "details_event \<Rightarrow> details_page \<Rightarrow> details_page" where
  "details_step e s = (case e of
     DetailsCame p \<Rightarrow> s\<lparr>personaData := p, pd_dataLoading := False\<rparr>
   | TypeName v \<Rightarrow> s\<lparr>personaData := details_nameChange v (personaData s)\<rparr>
   | TypeEmail v \<Rightarrow> s\<lparr>personaData := handleEmailChange v (personaData s)\<rparr>
   | SaveDetails \<Rightarrow> if pd_fullName (personaData s) \<noteq> '''' \<and> \<not> pd_loading s
       then s\<lparr>pd_loading := True, pd_sent := pd_sent s @ [(pd_fullName (personaData s), pd_email (personaData s))]\<rparr> else s
   | DetailsReply r \<Rightarrow> if pd_loading s then details_answered r s else s
   | DetailsClose \<Rightarrow> s\<lparr>pd_open := False\<rparr>)"

text \<open>This dialog does not keep the contract of the others: an error stays after a success.\<close>

lemma old_error_is_shown_for_a_success:
  "pd_error (fold details_step [SaveDetails, DetailsReply (Refused m), DetailsClose, SaveDetails, DetailsReply Accepted]
     (details_page_init\<lparr>personaData := \<lparr>pd_email = e, pd_userName = u, pd_fullName = CHR ''a'' # n\<rparr>\<rparr>)) = m"
  by (simp add: details_step_def details_answered_def details_page_init_def)

section \<open>New users and reset passwords\<close>

record user_dialog =
  ud_open :: bool
  ud_loading :: bool
  ud_error :: string
  ud_left :: bool

definition user_dialog_init :: user_dialog where
  "user_dialog_init = \<lparr>ud_open = False, ud_loading = False, ud_error = '''', ud_left = False\<rparr>"

definition new_user_answered :: "account_reply \<Rightarrow> user_dialog \<Rightarrow> user_dialog" where
  "new_user_answered r s = (case r of
     Accepted \<Rightarrow> s\<lparr>ud_loading := False, ud_open := True, ud_error := ''''\<rparr>
   | Refused m \<Rightarrow> s\<lparr>ud_error := m, ud_loading := False, ud_open := True\<rparr>
   | Lost m \<Rightarrow> s\<lparr>ud_error := m, ud_loading := False, ud_open := True\<rparr>)"

definition new_user_close :: "user_dialog \<Rightarrow> user_dialog" where
  "new_user_close s = s\<lparr>ud_open := False, ud_left := True\<rparr>"

record personalData =
  cu_email :: string
  cu_userName :: string
  cu_fullName :: string

record create_user =
  cu_password :: string
  personalData :: personalData
  cu_dialog :: user_dialog
  cu_sent :: "(string \<times> string \<times> string \<times> string \<times> string) list"

definition create_init :: create_user where
  "create_init = \<lparr>cu_password = '''', personalData = \<lparr>cu_email = '''', cu_userName = '''', cu_fullName = ''''\<rparr>,
     cu_dialog = user_dialog_init, cu_sent = []\<rparr>"

datatype create_event =
    CuPassword string
  | CuEmail string
  | CuUser string
  | CuName string
  | CuCreate
  | CuReply account_reply
  | CuClose

definition create_step :: "create_event \<Rightarrow> create_user \<Rightarrow> create_user" where
  "create_step e s = (case e of
     CuPassword v \<Rightarrow> s\<lparr>cu_password := v\<rparr>
   | CuEmail v \<Rightarrow> s\<lparr>personalData := (personalData s)\<lparr>cu_email := v\<rparr>\<rparr>
   | CuUser v \<Rightarrow> s\<lparr>personalData := (personalData s)\<lparr>cu_userName := v\<rparr>\<rparr>
   | CuName v \<Rightarrow> s\<lparr>personalData := (personalData s)\<lparr>cu_fullName := v\<rparr>\<rparr>
   | CuCreate \<Rightarrow> if cu_userName (personalData s) \<noteq> '''' \<and> cu_password s \<noteq> '''' \<and> \<not> ud_loading (cu_dialog s)
       then s\<lparr>cu_dialog := (cu_dialog s)\<lparr>ud_loading := True\<rparr>,
              cu_sent := cu_sent s @ [(cu_email (personalData s), cu_userName (personalData s), cu_fullName (personalData s),
                cu_password s, ''user'')]\<rparr> else s
   | CuReply r \<Rightarrow> if ud_loading (cu_dialog s) then s\<lparr>cu_dialog := new_user_answered r (cu_dialog s)\<rparr> else s
   | CuClose \<Rightarrow> if ud_open (cu_dialog s) then s\<lparr>cu_dialog := new_user_close (cu_dialog s)\<rparr> else s)"

interpretation new_user: reply_dialog ud_error ud_open ud_loading new_user_answered
  by unfold_locales (simp_all add: new_user_answered_def reply_text_def split: account_reply.split)

text \<open>The dialog for a new user leaves the form even after a refusal, and what was typed is lost.\<close>

lemma refused_user_leaves_the_form:
  assumes "ud_loading (cu_dialog s)"
  shows "ud_left (cu_dialog (fold create_step [CuReply (Refused m), CuClose] s))"
  using assms by (simp add: create_step_def new_user_answered_def new_user_close_def)

definition reset_answered :: "string \<Rightarrow> account_reply \<Rightarrow> user_dialog \<Rightarrow> user_dialog" where
  "reset_answered new_password r s = (case r of
     Accepted \<Rightarrow> s\<lparr>ud_error := '''', ud_loading := False, ud_open := True\<rparr>
   | Refused m \<Rightarrow> s\<lparr>ud_error := m, ud_loading := False, ud_open := True\<rparr>
   | Lost m \<Rightarrow> if new_password \<noteq> '''' then s\<lparr>ud_error := m, ud_loading := False, ud_open := True\<rparr> else s\<lparr>ud_error := m\<rparr>)"

record edit_user =
  eu_password :: string
  eu_dialog :: user_dialog
  eu_sent :: "(string \<times> string) list"

definition edit_user_init :: edit_user where
  "edit_user_init = \<lparr>eu_password = '''', eu_dialog = user_dialog_init, eu_sent = []\<rparr>"

datatype edit_user_event =
    EuPassword string
  | EuReset
  | EuReply string account_reply
  | EuClose
  | EuDone

text \<open>The reply knows the password of the render that sent the request, which was not empty.\<close>

definition edit_user_step :: "string \<Rightarrow> edit_user_event \<Rightarrow> edit_user \<Rightarrow> edit_user" where
  "edit_user_step username e s = (case e of
     EuPassword v \<Rightarrow> s\<lparr>eu_password := v\<rparr>
   | EuReset \<Rightarrow> if eu_password s \<noteq> '''' \<and> \<not> ud_loading (eu_dialog s)
       then s\<lparr>eu_dialog := (eu_dialog s)\<lparr>ud_loading := True\<rparr>, eu_sent := eu_sent s @ [(username, eu_password s)]\<rparr> else s
   | EuReply p r \<Rightarrow> if ud_loading (eu_dialog s) then s\<lparr>eu_dialog := reset_answered p r (eu_dialog s)\<rparr> else s
   | EuClose \<Rightarrow> s\<lparr>eu_dialog := (eu_dialog s)\<lparr>ud_open := False\<rparr>\<rparr>
   | EuDone \<Rightarrow> if ud_open (eu_dialog s) \<and> ud_error (eu_dialog s) = '''' then s\<lparr>eu_dialog := (eu_dialog s)\<lparr>ud_left := True\<rparr>\<rparr> else s)"

interpretation reset: reply_dialog ud_error ud_open ud_loading "reset_answered (c # p)" for c p
  by unfold_locales (simp_all add: reset_answered_def reply_text_def split: account_reply.split)

section \<open>The table of users\<close>

record UserData =
  us_username :: string
  us_deactivated :: "string option"

definition deactivated :: "UserData \<Rightarrow> bool" where
  "deactivated u \<longleftrightarrow> us_deactivated u \<noteq> None \<and> us_deactivated u \<noteq> Some ''''"

record users_page =
  us_create :: bool
  us_rows :: "UserData list"
  us_search :: string
  us_status :: string
  us_page :: nat
  us_per_page :: nat
  us_edit :: bool
  us_current :: "UserData option"
  us_fetches :: nat
  us_sent :: "(string \<times> bool) list"

definition users_init :: users_page where
  "users_init = \<lparr>us_create = False, us_rows = [], us_search = '''', us_status = ''all'', us_page = 0, us_per_page = 5,
     us_edit = False, us_current = None, us_fetches = 1, us_sent = []\<rparr>"

definition users_keep :: "users_page \<Rightarrow> UserData \<Rightarrow> bool" where
  "users_keep s u \<longleftrightarrow> js_includes (js_lower (us_username u)) (js_lower (us_search s))
     \<and> (if us_status s = ''all'' then True else if us_status s = ''deactivated'' then deactivated u else \<not> deactivated u)"

definition users_filtered :: "users_page \<Rightarrow> UserData list" where
  "users_filtered s = filter (\<lambda>u. if us_status s = ''all'' then True else if us_status s = ''deactivated'' then deactivated u else \<not> deactivated u)
     (filter (\<lambda>u. js_includes (js_lower (us_username u)) (js_lower (us_search s))) (us_rows s))"

definition users_shown :: "users_page \<Rightarrow> UserData list" where
  "users_shown s = page_rows (us_page s) (us_per_page s) (users_filtered s)"

definition update_state :: "UserData \<Rightarrow> string \<times> bool" where
  "update_state u = (us_username u, \<not> deactivated u)"

datatype users_event =
    UsersList "UserData list"
  | UsersSearch string
  | UsersStatus string
  | UsersPage nat
  | UsersRows nat
  | UsersCreate
  | UsersCreated
  | UsersMenu UserData
  | UsersEdit
  | UsersEdited
  | UsersState UserData
  | UsersStateDone

definition users_step :: "users_event \<Rightarrow> users_page \<Rightarrow> users_page" where
  "users_step e s = (case e of
     UsersList us \<Rightarrow> s\<lparr>us_rows := us\<rparr>
   | UsersSearch v \<Rightarrow> s\<lparr>us_search := v, us_page := 0\<rparr>
   | UsersStatus v \<Rightarrow> s\<lparr>us_status := v, us_page := 0\<rparr>
   | UsersPage n \<Rightarrow> s\<lparr>us_page := n\<rparr>
   | UsersRows n \<Rightarrow> s\<lparr>us_page := 0, us_per_page := n\<rparr>
   | UsersCreate \<Rightarrow> if us_create s then s else s\<lparr>us_create := True, us_fetches := us_fetches s + 1\<rparr>
   | UsersCreated \<Rightarrow> if us_create s then s\<lparr>us_create := False, us_fetches := us_fetches s + 1\<rparr> else s
   | UsersMenu u \<Rightarrow> if u \<in> set (users_shown s) \<and> us_username u \<noteq> ''admin'' then s\<lparr>us_current := Some u\<rparr> else s
   | UsersEdit \<Rightarrow> if us_current s \<noteq> None then s\<lparr>us_edit := True\<rparr> else s
   | UsersEdited \<Rightarrow> s\<lparr>us_edit := False\<rparr>
   | UsersState u \<Rightarrow> if u \<in> set (users_shown s) \<and> us_username u \<noteq> ''admin'' then s\<lparr>us_sent := us_sent s @ [update_state u]\<rparr> else s
   | UsersStateDone \<Rightarrow> s\<lparr>us_fetches := us_fetches s + 1\<rparr>)"

lemma users_filtered_keep: "users_filtered s = filter (users_keep s) (us_rows s)"
  by (simp add: users_filtered_def users_keep_def [abs_def] conj_commute)

text \<open>The administrator is neither edited nor deactivated, whatever is searched and clicked.\<close>

definition users_ok :: "users_page \<Rightarrow> bool" where
  "users_ok s \<longleftrightarrow> ''admin'' \<notin> fst ` set (us_sent s) \<and> (case us_current s of None \<Rightarrow> \<not> us_edit s | Some u \<Rightarrow> us_username u \<noteq> ''admin'')"

lemma users_step_ok: "users_ok s \<Longrightarrow> users_ok (users_step e s)"
  by (cases e) (auto simp: users_step_def users_ok_def update_state_def split: option.splits)

lemma administrator_is_left_alone: "users_ok (fold users_step es users_init)"
proof -
  have "users_ok s \<Longrightarrow> users_ok (fold users_step es s)" for s
    by (induction es arbitrary: s) (simp_all add: users_step_ok)
  then show ?thesis by (simp add: users_ok_def users_init_def)
qed

section \<open>Logging in\<close>

record login_page =
  lg_isError :: bool
  lg_errorMsg :: "string option"
  lg_isLoading :: bool
  lg_username :: string
  lg_password :: string
  lg_sent :: "(string \<times> string) list"
  lg_token :: "string option"

definition login_init :: login_page where
  "login_init = \<lparr>lg_isError = False, lg_errorMsg = Some '''', lg_isLoading = False, lg_username = '''', lg_password = '''',
     lg_sent = [], lg_token = None\<rparr>"

text \<open>A reply has a status and a body, which is a token, an error or not readable; a request may also
  fail. \<open>lg_token\<close> is the token handed to \<open>setUserDetails\<close> before the page is left.\<close>

datatype login_body = LoginToken string | LoginError string | LoginGarbled

definition login_status :: "nat \<Rightarrow> login_page \<Rightarrow> login_page" where
  "login_status code s = (if code \<noteq> 200 then s\<lparr>lg_isError := True, lg_isLoading := False\<rparr>
     else s\<lparr>lg_isError := False, lg_errorMsg := Some ''''\<rparr>)"

definition login_data :: "login_body \<Rightarrow> login_page \<Rightarrow> login_page" where
  "login_data b s = (case b of
     LoginError m \<Rightarrow> s\<lparr>lg_errorMsg := Some m\<rparr>
   | LoginToken t \<Rightarrow> s\<lparr>lg_errorMsg := Some '''', lg_token := Some t, lg_isLoading := False\<rparr>
   | LoginGarbled \<Rightarrow> s\<lparr>lg_errorMsg := None\<rparr>)"

datatype login_event =
    LoginUser string
  | LoginPassword string
  | LoginSubmit
  | LoginReply nat login_body
  | LoginFails

definition login_step :: "login_event \<Rightarrow> login_page \<Rightarrow> login_page" where
  "login_step e s = (case e of
     LoginUser v \<Rightarrow> s\<lparr>lg_username := v\<rparr>
   | LoginPassword v \<Rightarrow> s\<lparr>lg_password := v\<rparr>
   | LoginSubmit \<Rightarrow> if lg_password s \<noteq> '''' \<and> \<not> lg_isLoading s
       then s\<lparr>lg_isLoading := True, lg_sent := lg_sent s @ [(lg_username s, lg_password s)]\<rparr> else s
   | LoginReply code b \<Rightarrow> login_data b (login_status code s)
   | LoginFails \<Rightarrow> s\<lparr>lg_errorMsg := None\<rparr>)"

definition login_help :: "login_page \<Rightarrow> string option" where
  "login_help s = (if lg_isError s then lg_errorMsg s else Some '''')"

lemma refused_login_shows_the_error:
  assumes "code \<noteq> 200"
  shows "login_help (login_step (LoginReply code (LoginError m)) s) = Some m"
    "\<not> lg_isLoading (login_step (LoginReply code (LoginError m)) s)"
    "lg_token (login_step (LoginReply code (LoginError m)) s) = lg_token s"
  using assms by (simp_all add: login_step_def login_status_def login_data_def login_help_def)

lemma failed_login_keeps_loading:
  assumes "lg_isLoading s" "\<not> lg_isError s"
  shows "lg_isLoading (login_step LoginFails s)" "login_help (login_step LoginFails s) = Some ''''"
    "lg_sent (fold login_step [LoginFails, LoginSubmit] s) = lg_sent s"
  using assms by (simp_all add: login_step_def login_help_def)

section \<open>The first password\<close>

record PasswordReset =
  pr_password :: string
  pr_confirm :: string

datatype start_call =
    GetUserCall
  | UpdateDetails string
  | CreateProject

record start_page =
  gs_values :: PasswordReset
  gs_loading :: bool
  gs_calls :: "start_call list"
  gs_logouts :: nat
  gs_home :: bool

definition start_init :: start_page where
  "start_init = \<lparr>gs_values = \<lparr>pr_password = '''', pr_confirm = ''''\<rparr>, gs_loading = False, gs_calls = [GetUserCall],
     gs_logouts = 0, gs_home = False\<rparr>"

definition start_isError :: "PasswordReset \<Rightarrow> bool" where
  "start_isError v = (if pr_password v \<noteq> '''' \<and> pr_confirm v \<noteq> '''' \<and> \<not> validateConfirmPassword (pr_password v) (pr_confirm v)
     then False else True)"

datatype start_event =
    StartPassword string
  | StartConfirm string
  | StartFinish
  | StartSkip
  | UserChecked bool
  | DetailsUpdated bool
  | ProjectReply bool

definition createProject :: "start_page \<Rightarrow> start_page" where
  "createProject s = s\<lparr>gs_calls := gs_calls s @ [CreateProject]\<rparr>"

definition ValidateUser :: "start_page \<Rightarrow> start_page" where
  "ValidateUser s = s\<lparr>gs_calls := gs_calls s @ [GetUserCall]\<rparr>"

definition start_step :: "start_event \<Rightarrow> start_page \<Rightarrow> start_page" where
  "start_step e s = (case e of
     StartPassword v \<Rightarrow> s\<lparr>gs_values := \<lparr>pr_password = v, pr_confirm = pr_confirm (gs_values s)\<rparr>\<rparr>
   | StartConfirm v \<Rightarrow> s\<lparr>gs_values := \<lparr>pr_password = pr_password (gs_values s), pr_confirm = v\<rparr>\<rparr>
   | StartFinish \<Rightarrow> if start_isError (gs_values s) then s
       else (let s1 = ValidateUser s in
             s1\<lparr>gs_loading := True, gs_calls := gs_calls s1 @ [UpdateDetails (pr_password (gs_values s1))]\<rparr>)
   | StartSkip \<Rightarrow> createProject ((ValidateUser s)\<lparr>gs_loading := True\<rparr>)
   | UserChecked known \<Rightarrow> if known then s else s\<lparr>gs_logouts := gs_logouts s + 1\<rparr>
   | DetailsUpdated accepted \<Rightarrow> if accepted then createProject s else s
   | ProjectReply accepted \<Rightarrow> if accepted then s\<lparr>gs_home := True, gs_loading := False\<rparr> else s\<lparr>gs_loading := False\<rparr>)"

text \<open>The first password is sent only when it was typed twice; a refusal of it leaves the spinner.
  Neither button waits for the reply before: pressed twice they send twice.\<close>

lemma first_password_typed_twice:
  assumes "UpdateDetails p \<in> set (gs_calls (fold start_step es s))" "UpdateDetails p \<notin> set (gs_calls s)"
  shows "p \<noteq> ''''"
  using assms
proof (induction es arbitrary: s)
  case (Cons e es)
  have "UpdateDetails p \<in> set (gs_calls (start_step e s)) \<Longrightarrow> p \<noteq> ''''"
    using Cons.prems(2) by (cases e) (auto simp: start_step_def start_isError_def ValidateUser_def createProject_def Let_def split: if_splits)
  then show ?case using Cons.IH [of "start_step e s"] Cons.prems(1) by auto
qed simp

lemma matching_passwords: "start_isError v = (pr_password v = '''' \<or> pr_password v \<noteq> pr_confirm v)"
  by (auto simp: start_isError_def validateConfirmPassword_def)

lemma skipping_twice_creates_twice:
  "gs_calls (fold start_step [StartSkip, StartSkip] s) = gs_calls s @ [GetUserCall, CreateProject, GetUserCall, CreateProject]"
  by (simp add: start_step_def ValidateUser_def createProject_def)

lemma refused_details_keep_loading: "gs_loading s \<Longrightarrow> gs_loading (start_step (DetailsUpdated False) s)"
  by (simp add: start_step_def)

end
