(* ===== verification/Registry.thy ===== *)
theory Registry
  imports Validation
begin

text \<open>
  The image registry of a project, \<open>views/Settings/ImageRegistry/index.tsx\<close>: the default registry,
  the form of a custom one, and what is created and updated. The replies are events.
\<close>

record registry_fields =
  registry_name :: string
  repo_name :: string
  registry_type :: string
  secret_name :: string
  secret_namespace :: string

record registry_info =
  ri_fields :: registry_fields
  ri_enabled :: bool
  ri_default :: bool

datatype registry_call =
    ListRegistries
  | GetRegistry string
  | CreateRegistry registry_info
  | UpdateRegistry string registry_info

record registry_page =
  rg_radio :: string
  registryID :: string
  registryType :: string
  isCustomRegistryEnabled :: bool
  isAvailable :: bool
  rg_listLoading :: bool
  rg_loading :: bool
  rg_data :: "registry_info option"
  registryInfo :: registry_fields
  registryData :: "string \<times> string \<times> string"
  rg_updating :: bool
  rg_sent :: "registry_call list"

definition registry_init :: registry_page where
  "registry_init = \<lparr>rg_radio = ''enabled'', registryID = '''', registryType = ''Public'', isCustomRegistryEnabled = False,
     isAvailable = True, rg_listLoading = True, rg_loading = False, rg_data = None,
     registryInfo = \<lparr>registry_name = '''', repo_name = '''', registry_type = ''Public'', secret_name = '''', secret_namespace = ''''\<rparr>,
     registryData = ('''', '''', ''''), rg_updating = False, rg_sent = [ListRegistries]\<rparr>"

definition list_completed :: "string list option \<Rightarrow> registry_page \<Rightarrow> registry_page" where
  "list_completed ids s = (case ids of
     Some (i # is) \<Rightarrow> s\<lparr>rg_listLoading := False, registryID := i, rg_loading := True, rg_sent := rg_sent s @ [GetRegistry i]\<rparr>
   | _ \<Rightarrow> s\<lparr>rg_listLoading := False, isAvailable := False, rg_radio := ''disabled''\<rparr>)"

definition fields_shown :: "registry_fields \<Rightarrow> string \<times> string \<times> string" where
  "fields_shown f = (registry_name f, repo_name f, registry_type f)"

definition registry_effect :: "registry_page \<Rightarrow> registry_page" where
  "registry_effect s = (case rg_data s of None \<Rightarrow> s
     | Some r \<Rightarrow> if ri_default r
         then s\<lparr>rg_radio := ''disabled'', isCustomRegistryEnabled := False, registryData := (''Docker Hub'', ''litmuschaos'', ''Public'')\<rparr>
         else s\<lparr>rg_radio := ''enabled'', isCustomRegistryEnabled := True, registryData := fields_shown (ri_fields r)\<rparr>)"

definition registry_came :: "registry_info \<Rightarrow> registry_page \<Rightarrow> registry_page" where
  "registry_came r s = (let s' = s\<lparr>rg_loading := False, rg_data := Some r\<rparr> in
     if rg_data s = Some r then s' else registry_effect s')"

definition update_registry_completed :: "registry_info \<Rightarrow> registry_page \<Rightarrow> registry_page" where
  "update_registry_completed r s =
     (let s' = (if ri_default r then s\<lparr>isCustomRegistryEnabled := False, rg_radio := ''disabled''\<rparr>
                else s\<lparr>isCustomRegistryEnabled := True, rg_radio := ''enabled''\<rparr>)
      in s'\<lparr>rg_updating := False, registryData := fields_shown (ri_fields r)\<rparr>)"

definition default_info :: registry_info where
  "default_info = \<lparr>ri_fields = \<lparr>registry_name = ''docker.io'', repo_name = ''litmuschaos'', registry_type = ''Public'',
     secret_name = '''', secret_namespace = ''''\<rparr>, ri_enabled = True, ri_default = True\<rparr>"

definition registry_handleSubmit :: "registry_page \<Rightarrow> registry_page" where
  "registry_handleSubmit s = s\<lparr>rg_updating := True, rg_sent := rg_sent s @
     [UpdateRegistry (registryID s) \<lparr>ri_fields = registryInfo s, ri_enabled = True, ri_default = False\<rparr>]\<rparr>"

definition default_pressed :: "registry_page \<Rightarrow> registry_page" where
  "default_pressed s = (if \<not> isAvailable s then s\<lparr>rg_sent := rg_sent s @ [CreateRegistry default_info]\<rparr>
     else s\<lparr>rg_updating := True, rg_sent := rg_sent s @ [UpdateRegistry (registryID s) default_info]\<rparr>)"

text \<open>The page is behind a spinner only while both queries are loading; the list is loaded before the
  registry is asked for, so that never happens.\<close>

definition registry_form :: "registry_page \<Rightarrow> bool" where
  "registry_form s \<longleftrightarrow> \<not> (rg_listLoading s \<and> rg_loading s)"

definition custom_form :: "registry_page \<Rightarrow> bool" where
  "custom_form s \<longleftrightarrow> registry_form s \<and> \<not> isCustomRegistryEnabled s \<and> rg_radio s = ''enabled''"

datatype registry_event =
    RegistryList "string list option"
  | RegistryCame registry_info
  | RegistryRadio string
  | RegistryName string
  | RegistryRepo string
  | RegistryType string
  | RegistrySecret string
  | RegistryNamespace string
  | RegistrySave
  | RegistryDefault
  | RegistryUpdated registry_info
  | RegistryCreated bool

definition registry_step :: "registry_event \<Rightarrow> registry_page \<Rightarrow> registry_page" where
  "registry_step e s = (case e of
     RegistryList ids \<Rightarrow> list_completed ids s
   | RegistryCame r \<Rightarrow> registry_came r s
   | RegistryRadio v \<Rightarrow> if registry_form s \<and> v \<in> {''enabled'', ''disabled''} then s\<lparr>rg_radio := v\<rparr> else s
   | RegistryName v \<Rightarrow> if custom_form s then s\<lparr>registryInfo := (registryInfo s)\<lparr>registry_name := v\<rparr>\<rparr> else s
   | RegistryRepo v \<Rightarrow> if custom_form s then s\<lparr>registryInfo := (registryInfo s)\<lparr>repo_name := v\<rparr>\<rparr> else s
   | RegistryType v \<Rightarrow> if custom_form s \<and> v \<in> {''Public'', ''Private''}
       then s\<lparr>registryType := v, registryInfo := (registryInfo s)\<lparr>registry_type := v\<rparr>\<rparr> else s
   | RegistrySecret v \<Rightarrow> if custom_form s \<and> registryType s = ''Private'' then s\<lparr>registryInfo := (registryInfo s)\<lparr>secret_name := v\<rparr>\<rparr> else s
   | RegistryNamespace v \<Rightarrow> if custom_form s \<and> registryType s = ''Private'' then s\<lparr>registryInfo := (registryInfo s)\<lparr>secret_namespace := v\<rparr>\<rparr> else s
   | RegistrySave \<Rightarrow> if custom_form s \<and> js_trim (registry_name (registryInfo s)) \<noteq> '''' \<and> js_trim (repo_name (registryInfo s)) \<noteq> ''''
       then registry_handleSubmit s else s
   | RegistryDefault \<Rightarrow> if registry_form s \<and> ((rg_radio s = ''disabled'' \<and> isCustomRegistryEnabled s) \<or> \<not> isAvailable s) \<and> \<not> rg_updating s
       then default_pressed s else s
   | RegistryUpdated r \<Rightarrow> if rg_updating s then update_registry_completed r s else s
   | RegistryCreated ok \<Rightarrow> s\<lparr>isAvailable := ok\<rparr>)"

definition registry_run :: "registry_event list \<Rightarrow> registry_page" where
  "registry_run es = fold registry_step es registry_init"

section \<open>What is sent\<close>

definition registry_call_ok :: "registry_call \<Rightarrow> bool" where
  "registry_call_ok c = (case c of
     UpdateRegistry i r \<Rightarrow> ri_enabled r \<and> (ri_default r \<longrightarrow> r = default_info)
       \<and> js_trim (registry_name (ri_fields r)) \<noteq> '''' \<and> js_trim (repo_name (ri_fields r)) \<noteq> ''''
       \<and> registry_type (ri_fields r) \<in> {''Public'', ''Private''}
   | CreateRegistry r \<Rightarrow> r = default_info
   | _ \<Rightarrow> True)"

definition registry_ok :: "registry_page \<Rightarrow> bool" where
  "registry_ok s \<longleftrightarrow> list_all registry_call_ok (rg_sent s) \<and> registryType s = registry_type (registryInfo s)
     \<and> registryType s \<in> {''Public'', ''Private''}"

lemma default_named: "js_trim ''docker.io'' \<noteq> ''''" "js_trim ''litmuschaos'' \<noteq> ''''"
  by code_simp+

lemma registry_step_ok:
  assumes "registry_ok s"
  shows "registry_ok (registry_step e s)"
proof (cases e)
  case (RegistryList ids)
  then show ?thesis using assms
    by (auto simp: registry_step_def registry_ok_def list_completed_def registry_call_ok_def split: option.split list.split)
next
  case (RegistryCame r)
  then show ?thesis using assms
    by (auto simp: registry_step_def registry_ok_def registry_came_def registry_effect_def Let_def)
next
  case RegistryDefault
  then show ?thesis using assms
    by (auto simp: registry_step_def registry_ok_def default_pressed_def registry_call_ok_def default_info_def default_named)
next
  case (RegistryUpdated r)
  then show ?thesis using assms
    by (auto simp: registry_step_def registry_ok_def update_registry_completed_def Let_def)
next
  case RegistrySave
  then show ?thesis using assms
    by (auto simp: registry_step_def registry_ok_def registry_handleSubmit_def registry_call_ok_def)
qed (use assms in \<open>auto simp: registry_step_def registry_ok_def\<close>)

lemma registry_run_ok: "registry_ok (registry_run es)"
proof -
  have "registry_ok s \<Longrightarrow> registry_ok (fold registry_step es s)" for s
    by (induction es arbitrary: s) (simp_all add: registry_step_ok)
  moreover have "registry_ok registry_init" by (simp add: registry_ok_def registry_init_def registry_call_ok_def)
  ultimately show ?thesis unfolding registry_run_def by blast
qed

text \<open>The spinner is never shown, so the form can be saved before the registry's identifier is known;
  and what was typed for a private registry is sent for a public one.\<close>

definition custom_fields :: "string \<Rightarrow> string \<Rightarrow> registry_fields" where
  "custom_fields t secret = \<lparr>registry_name = ''r'', repo_name = ''p'', registry_type = t, secret_name = secret, secret_namespace = ''''\<rparr>"

lemma saved_before_the_list_came:
  "last (rg_sent (registry_run [RegistryName ''r'', RegistryRepo ''p'', RegistrySave])) =
     UpdateRegistry '''' \<lparr>ri_fields = custom_fields ''Public'' '''', ri_enabled = True, ri_default = False\<rparr>"
  by code_simp

lemma public_registry_with_secret:
  "last (rg_sent (registry_run [RegistryList (Some [''1'']), RegistryName ''r'', RegistryRepo ''p'', RegistryType ''Private'',
       RegistrySecret ''s'', RegistryType ''Public'', RegistrySave])) =
     UpdateRegistry ''1'' \<lparr>ri_fields = custom_fields ''Public'' ''s'', ri_enabled = True, ri_default = False\<rparr>"
  by code_simp

end
