(* ===== verification/Spec2Isabelle.thy ===== *)
theory Spec2Isabelle
  imports ManifestWitness PromWitness Store Validation Formatting Session Graph TuneWitness ScheduleWitness RunsWitness WizardWitness
    EngineWitness ObsWitness InfoStats DashWitness DashGraph HubPage GitOps Agents Teams Accounts Registry
begin

text \<open>
  The frontend of the Litmus portal (\<open>src/litmus-portal/frontend/src\<close>, TypeScript and
  React), as far as it is the program's own logic. All paths below are relative to that
  directory.

  The program lets a user choose, tune, order and schedule chaos scenarios, which are Argo
  workflow manifests in YAML with chaos engines embedded in their templates as text, and
  shows dashboards over Prometheus data. The manifest being built is a string in the redux
  store; each page parses it, changes it and writes it back. The pages of the wizard run in
  the order workflow settings, tuning (the experiment table, the step sequence, the engine's
  pages with the probe drawer), schedule, verification. Sessions live in cookies.

  Values and effects. \<^bold>\<open>Prelude\<close> has the results of code that may throw and the facts on lists
  and association lists all theories share. \<^bold>\<open>JsValue\<close> has the values that code typed \<open>any\<close>
  handles: reads and writes that throw where JavaScript throws, optional chaining, and
  actions (state passing with an exception) for code that mutates a parsed document;
  \<open>runs m v w\<close> says that an action completes, and its introduction rules
  (\<open>runs_intros\<close>) carry the proofs about manifests; \<^bold>\<open>JsObject\<close> has the deletion of properties. \<^bold>\<open>JsString\<close> has the string methods;
  a string is a list of ASCII code units. Objects keep their keys in insertion order.

  Manifests. \<^bold>\<open>Manifest\<close>, \<^bold>\<open>ManifestQuery\<close> and \<^bold>\<open>ManifestEdit\<close> are \<open>utils/yamlUtils.ts\<close>: naming
  and labelling the engines, reading names and weights, namespaces and image registries.
  The theorems say what each rewriting does to every template, engine and image and that
  nothing else changes. The \<open>yaml\<close> package is the parameter \<open>Y\<close>: \<open>yaml_laws\<close> is its round
  trip, and \<^bold>\<open>YamlInstance\<close> has a printer and parser that satisfy it, on which
  \<^bold>\<open>ManifestWitness\<close> applies the theorems.

  Tuning. \<^bold>\<open>ExperimentTable\<close> is \<open>views/CreateWorkflow/TuneWorkflow/WorkflowTable.tsx\<close> (rows,
  revert-chaos switch, deletion), \<^bold>\<open>Tune\<close> the tuning step itself (\<open>index.tsx\<close>: fetched
  manifests, \<open>updateCRD\<close>, the manifest memo, \<open>onNext\<close>), \<^bold>\<open>Sequence\<close> the step sequence editor,
  \<^bold>\<open>Probe\<close> the probe drawer with the list of probes, \<^bold>\<open>Engine\<close> the engine's configuration pages.
  \<open>chaos_doc\<close> is the shape of a manifest the table works on; adding, deleting and reordering
  preserve it, and no step is left without its template. \<open>drawer_ok\<close> is the invariant of the
  probe drawer and \<open>engine_doc\<close> the frame in which the pages write. \<^bold>\<open>TuneWitness\<close> and
  \<^bold>\<open>EngineWitness\<close> apply the theorems.

  Schedule. \<^bold>\<open>Schedule\<close> is the schedule form of the wizard and of the edit page: handlers,
  effects, the loop of renders (\<open>settle\<close>, whose fuel of four renders is proved enough from
  every state), the reachable states and the bounds of the cron fields, and the rewriting
  between Workflow and CronWorkflow. \<^bold>\<open>ScheduleWitness\<close> applies the theorems.

  Wizard. \<^bold>\<open>WizardPages\<close> and \<^bold>\<open>WizardSettings\<close> are the pages before and after the tuning: the
  choice of the delegate and of the scenario, the upload, the settings, the weights; \<open>portal\<close>
  is the part of the store and of the browser's database they share. \<^bold>\<open>Verify\<close> is the last page
  (what it submits, and that a submitted name is valid) with the page that edits a schedule.
  \<^bold>\<open>Wizard\<close> composes them as \<open>components/WorkflowStepper\<close> does: \<open>wizard_do\<close> is one event, a run a
  fold over events, and the theorems hold for every run (the shown page, the range of the
  step, a delegate in every request). \<^bold>\<open>WizardWitness\<close> applies the theorems.

  Tables. \<^bold>\<open>Runs\<close> and \<^bold>\<open>RunScores\<close> are the table of runs with its subscription and the figures of
  a row, \<^bold>\<open>BrowseSchedule\<close> the table of schedules; \<^bold>\<open>RunsWitness\<close> applies the theorems.

  Observability. \<^bold>\<open>ObsTables\<close> holds the tables of \<open>views/Observability\<close>: the locale \<open>table\<close> says
  what filtering, sorting and paging give and is interpreted on each of them. \<^bold>\<open>Resilience\<close> is
  the report on the runs of compared scenarios, \<^bold>\<open>ComparisonPlot\<close> its plot, \<^bold>\<open>InfoStats\<close> the
  statistics of one scenario. \<^bold>\<open>DataSources\<close> is the form, the page and the deletion of data
  sources. \<^bold>\<open>Dashboard\<close> is the page of a dashboard as steps over events; ranges live in a store,
  since the code changes one in place. The theorems bound every plotted score, keep averages
  with their dates, check what is saved and show that the time asked for is always given.
  \<^bold>\<open>ObsWitness\<close> applies them.

  Editing dashboards. \<^bold>\<open>DashPanels\<close> has dashboards as data: the panels of the wizard, the
  document a dashboard is downloaded as, and the groups that are saved. \<^bold>\<open>DashForm\<close> is the
  wizard's first pages (templates and uploads, the form with its applications, the choice of
  the panels), \<^bold>\<open>DashStepper\<close> the wizard over all its pages with what it sends. \<^bold>\<open>DashEdit\<close> is the
  page with a tab per panel, \<^bold>\<open>DashQueries\<close> a panel's page with the editors of its queries,
  \<^bold>\<open>DashGraph\<close> the preview. A step is a handler with the effects of the renders after it, a run a
  fold over events from the mounted page. The theorems hold for every run: what is created is
  complete, what is shown is what is saved, an unchanged dashboard is sent back as it was
  stored, and a downloaded one is read back but for two options. \<^bold>\<open>DashWitness\<close> composes the
  parts and applies the theorems.

  Hubs and settings. \<^bold>\<open>HubForms\<close> is the forms that connect a ChaosHub with the credentials they
  share with GitOps, \<^bold>\<open>HubPage\<close> the page around them (\<open>pages/ChaosHub\<close>): a closed drawer has
  forgotten its hub and an unchanged one is sent back as it was stored, in every run in which no
  reply comes after its form has gone; a run with such a reply shows why that is needed. \<^bold>\<open>Agents\<close>
  is the table of delegates, an interpretation of \<open>table\<close>, and the charts of a hub. \<^bold>\<open>GitOps\<close>,
  \<^bold>\<open>Teams\<close>, \<^bold>\<open>Accounts\<close> and \<^bold>\<open>Registry\<close> are \<open>views/Settings\<close> with the sign-in pages: what every run
  sends, the roles that are sent with invitations, the numbers over the lists of projects, and
  the locale \<open>reply_dialog\<close>, the contract of the dialogs over a request, interpreted on three of
  them (a fourth breaks it).

  Graphs. \<^bold>\<open>Graph\<close> and \<^bold>\<open>Icons\<close> are the extraction of steps (\<open>ExtractSteps.ts\<close>), the preview of
  a manifest and the graph of a run, with their SVG labels. The nodes and links are those of
  the steps' rows and of the run's children; the layout is done by a library.

  Prometheus. \<^bold>\<open>PromSteps\<close>, \<^bold>\<open>PromData\<close> and \<^bold>\<open>PromLabels\<close> are \<open>utils/promUtils.ts\<close>: the step of a
  query (within the server's limit of points), the parsers of metrics and chaos events, and
  the reading and writing of label matchers. \<^bold>\<open>PromWitness\<close> has the examples.

  Store and session. \<^bold>\<open>Store\<close> is \<open>redux\<close>: every reducer and action creator, the root reducer
  and the reachable states; the locales \<open>slice\<close> and \<open>selection\<close> state what a reducer keeps and
  are interpreted on every slice. \<^bold>\<open>Session\<close> is \<open>utils/cookies.ts\<close>, \<open>utils/auth.ts\<close> and
  \<open>utils/getSearchParams.ts\<close>: the cookie jar refines a map (locale \<open>value_map\<close>, interpreted on
  the code's \<open>setCookie\<close> and \<open>getCookie\<close>), and login and logout are safe.

  Utilities. \<^bold>\<open>Regex\<close> decides regular expressions by derivatives, \<^bold>\<open>Validation\<close> is
  \<open>utils/validate.ts\<close> over it, \<^bold>\<open>Formatting\<close> the comparators (locale \<open>comparator\<close>), counts and
  dates.

  Bounds and fuel. The program's numbers are doubles; those modelled are integers far below
  2 to the 53rd, so \<open>int\<close> is exact, and ratios are \<open>rat\<close>. Recursion is structural or over
  lists except where a fuel is named with the lemma that it suffices.

  Not modelled: rendering, styles and translations; the GraphQL and REST documents and the
  transport (the replies are arguments of the definitions that use them); layout and drawing
  of graphs, plots and calendars; the third-party editors and their grammars; routing; what
  going back in the dashboard wizard keeps of query arrays that its steps share; the pages that
  only show figures and links; the Go services, operators and tests outside the frontend.
  A Date is its time value and local time has a constant offset.
\<close>

end
